(* ===== verification/Prelude.thy ===== *)
theory Prelude
  imports Main "HOL-Library.Monad_Syntax" "HOL-Library.Word"
begin

text \<open>
  What every theory of the development shares: the fact collections, C integer conversions,
  NUL-terminated strings, bounded copies between byte arrays, lookups in constant tables, and
  the generic lemmas about them.

  A C function that touches memory is a HOL function into \<open>option\<close>: \<open>None\<close> stands for undefined
  behaviour (a read or write out of bounds, a double free, a use after free, an unlock of a
  mutex that is not held) and for a thread that blocks for ever on a mutex it already holds.
  Proving that such a function returns \<open>Some\<close> is proving that it is memory safe.
\<close>

named_theorems c_defs \<open>definitions of the C and OCaml runtime operations, unfolded in proofs\<close>
named_theorems job_defs \<open>definitions of the workers, result functions and stubs of the jobs\<close>

section \<open>C integers\<close>

text \<open>
  \<open>c_int\<close> is the conversion to a 32-bit \<^verbatim>\<open>int\<close>, \<open>c_long\<close> to a 64-bit \<^verbatim>\<open>long\<close> (LP64), \<open>c_dword\<close> to the
  unsigned 32-bit \<^verbatim>\<open>DWORD\<close>. An OCaml integer has 63 bits: \<open>caml_int\<close> is the truncation that
  \<^verbatim>\<open>Val_long\<close> performs.
\<close>

definition c_int :: "int \<Rightarrow> int" where
  "c_int i = signed_take_bit 31 i"

definition c_long :: "int \<Rightarrow> int" where
  "c_long i = signed_take_bit 63 i"

definition c_dword :: "int \<Rightarrow> int" where
  "c_dword i = take_bit 32 i"

definition caml_int :: "int \<Rightarrow> int" where
  "caml_int i = signed_take_bit 62 i"

lemma c_int_id: "- (2 ^ 31) \<le> i \<Longrightarrow> i < 2 ^ 31 \<Longrightarrow> c_int i = i"
  by (simp add: c_int_def signed_take_bit_int_eq_self)

lemma c_long_id: "- (2 ^ 63) \<le> i \<Longrightarrow> i < 2 ^ 63 \<Longrightarrow> c_long i = i"
  by (simp add: c_long_def signed_take_bit_int_eq_self)

lemma caml_int_id: "- (2 ^ 62) \<le> i \<Longrightarrow> i < 2 ^ 62 \<Longrightarrow> caml_int i = i"
  by (simp add: caml_int_def signed_take_bit_int_eq_self)

lemma c_int_range: "- (2 ^ 31) \<le> c_int i" "c_int i < 2 ^ 31"
  unfolding c_int_def
  by (rule signed_take_bit_int_greater_eq_minus_exp, rule signed_take_bit_int_less_exp)

lemma c_dword_range: "0 \<le> c_dword i" "c_dword i < 2 ^ 32"
  unfolding c_dword_def by (rule take_bit_nonnegative, rule take_bit_int_less_exp)

lemma c_int_c_int [simp]: "c_int (c_int i) = c_int i"
  by (simp add: c_int_def)

lemma caml_int_c_int [simp]: "caml_int (c_int i) = c_int i"
  by (simp add: c_int_def caml_int_def signed_take_bit_signed_take_bit min_def)

section \<open>Strings and byte arrays\<close>

definition NUL :: char where
  "NUL = CHR 0x00"

text \<open>The C string that starts at offset \<open>off\<close> of an array: \<open>None\<close> when no NUL byte follows.\<close>

definition cstr_at :: "char list \<Rightarrow> nat \<Rightarrow> char list option" where
  "cstr_at d off = (if NUL \<in> set (drop off d) then Some (takeWhile (\<lambda>c. c \<noteq> NUL) (drop off d)) else None)"

text \<open>What C sees of an OCaml string: the bytes before the first NUL.\<close>

definition cstring :: "char list \<Rightarrow> char list" where
  "cstring xs = takeWhile (\<lambda>c. c \<noteq> NUL) xs"

text \<open>The bytes of an OCaml string together with the terminating NUL byte of its representation.\<close>

definition caml_bytes :: "char list \<Rightarrow> char list" where
  "caml_bytes xs = xs @ [NUL]"

lemma length_caml_bytes [simp]: "length (caml_bytes xs) = length xs + 1"
  by (simp add: caml_bytes_def)

lemma cstring_id: "NUL \<notin> set xs \<Longrightarrow> cstring xs = xs"
  unfolding cstring_def by (rule takeWhile_eq_all_conv [THEN iffD2]) auto

lemma cstring_no_nul: "NUL \<notin> set (cstring xs)"
  by (auto simp: cstring_def dest: set_takeWhileD)

lemma cstring_cstring [simp]: "cstring (cstring xs) = cstring xs"
  by (rule cstring_id) (rule cstring_no_nul)

lemma takeWhile_snoc_nul: "takeWhile (\<lambda>c. c \<noteq> NUL) (xs @ NUL # ys) = cstring xs"
  by (induction xs) (auto simp: cstring_def)

text \<open>
  \<open>write_at d off src\<close> is \<^verbatim>\<open>memcpy (d + off, src, length src)\<close>: it fails when the destination
  array is too small.
\<close>

definition write_at :: "char list \<Rightarrow> nat \<Rightarrow> char list \<Rightarrow> char list option" where
  "write_at d off src =
     (if off + length src \<le> length d then Some (take off d @ src @ drop (off + length src) d)
      else None)"

text \<open>\<open>read_at d off n\<close> reads \<open>n\<close> bytes from offset \<open>off\<close>, and fails out of bounds.\<close>

definition read_at :: "char list \<Rightarrow> nat \<Rightarrow> nat \<Rightarrow> char list option" where
  "read_at d off n = (if off + n \<le> length d then Some (take n (drop off d)) else None)"

lemma length_write_at: "write_at d off src = Some d' \<Longrightarrow> length d' = length d"
  by (auto simp: write_at_def split: if_splits)

lemma write_at_fits [simp]:
  "off + length src \<le> length d \<Longrightarrow>
     write_at d off src = Some (take off d @ src @ drop (off + length src) d)"
  by (simp add: write_at_def)

lemma read_at_fits [simp]: "off + n \<le> length d \<Longrightarrow> read_at d off n = Some (take n (drop off d))"
  by (simp add: read_at_def)

lemma read_after_write:
  "write_at d off src = Some d' \<Longrightarrow> read_at d' off (length src) = Some src"
  by (auto simp: write_at_def read_at_def split: if_splits)

lemma write_at_outside:
  assumes "write_at d off src = Some d'" and "i < length d" and "i < off \<or> off + length src \<le> i"
  shows "d' ! i = d ! i"
  using assms by (auto simp: write_at_def nth_append split: if_splits)

text \<open>A string copied with its NUL byte is read back as the C string of the source.\<close>

lemma cstr_at_written:
  "off \<le> length d \<Longrightarrow> cstr_at (take off d @ caml_bytes xs @ ys) off = Some (cstring xs)"
  by (simp add: cstr_at_def caml_bytes_def takeWhile_snoc_nul)

lemma cstr_at_caml_bytes [simp]: "cstr_at (caml_bytes xs) 0 = Some (cstring xs)"
  by (simp add: cstr_at_def caml_bytes_def takeWhile_snoc_nul [of _ "[]", simplified])

text \<open>A NUL-terminated string stored at the start of a larger array.\<close>

lemma cstr_at_prefix: "NUL \<in> set bs \<Longrightarrow> cstr_at (bs @ ys) 0 = Some (cstring bs)"
  by (auto simp: cstr_at_def cstring_def takeWhile_append1)

section \<open>Constant tables\<close>

text \<open>\<open>tbl_get t i\<close> is \<^verbatim>\<open>t[i]\<close>: \<open>None\<close> when the index is out of the table.\<close>

definition tbl_get :: "'a list \<Rightarrow> int \<Rightarrow> 'a option" where
  "tbl_get t i = (if 0 \<le> i \<and> nat i < length t then Some (t ! nat i) else None)"

text \<open>Folding a list of constructor indices into a flag word, as \<^verbatim>\<open>caml_convert_flag_list\<close> does.\<close>

fun flags_of :: "int list \<Rightarrow> int list \<Rightarrow> int option" where
  "flags_of t [] = Some 0"
| "flags_of t (i # is) =
     do { x \<leftarrow> tbl_get t i; y \<leftarrow> flags_of t is; Some (or x y) }"

lemma tbl_get_Some: "0 \<le> i \<Longrightarrow> nat i < length t \<Longrightarrow> tbl_get t i = Some (t ! nat i)"
  by (simp add: tbl_get_def)

lemma flags_of_defined:
  "(\<And>i. i \<in> set is \<Longrightarrow> 0 \<le> i \<and> nat i < length t) \<Longrightarrow> \<exists>f. flags_of t is = Some f"
  by (induction "is") (auto simp: tbl_get_Some)

section \<open>Lists and options\<close>

text \<open>Run an operation that may fail on each element of a list in turn.\<close>

fun iter_opt :: "('a \<Rightarrow> 's \<Rightarrow> 's option) \<Rightarrow> 'a list \<Rightarrow> 's \<Rightarrow> 's option" where
  "iter_opt f [] s = Some s"
| "iter_opt f (x # xs) s = do { s \<leftarrow> f x s; iter_opt f xs s }"

lemma iter_opt_append:
  "iter_opt f (xs @ ys) s = Option.bind (iter_opt f xs s) (iter_opt f ys)"
proof (induction xs arbitrary: s)
  case (Cons x xs)
  then show ?case by (cases "f x s") auto
qed simp

lemma bind_Some_iff: "Option.bind m f = Some y \<longleftrightarrow> (\<exists>x. m = Some x \<and> f x = Some y)"
  by (cases m) auto

lemma map_upd_del_fresh [simp]: "m p = None \<Longrightarrow> (m(p \<mapsto> x))(p := None) = m"
  by (auto simp: fun_eq_iff)

lemma take_Suc_update: "i < length xs \<Longrightarrow> take (Suc i) (xs[i := x]) = take i xs @ [x]"
  by (simp add: take_Suc_conv_app_nth)

section \<open>Linked lists in memory\<close>

text \<open>\<open>linked nx m r ps\<close>: following the pointers \<open>nx\<close> from \<open>r\<close> visits the live cells \<open>ps\<close> of \<open>m\<close> and ends at a null pointer.\<close>

fun linked :: "('a \<Rightarrow> nat option) \<Rightarrow> (nat \<rightharpoonup> 'a) \<Rightarrow> nat option \<Rightarrow> nat list \<Rightarrow> bool" where
  "linked nx m r [] \<longleftrightarrow> r = None"
| "linked nx m r (p # ps) \<longleftrightarrow> r = Some p \<and> (\<exists>x. m p = Some x \<and> linked nx m (nx x) ps)"

lemma linked_cong: "(\<And>p. p \<in> set ps \<Longrightarrow> m' p = m p) \<Longrightarrow> linked nx m' r ps = linked nx m r ps"
  by (induction ps arbitrary: r) auto

lemma linked_upd: "p \<notin> set ps \<Longrightarrow> linked nx (m(p := x)) r ps = linked nx m r ps"
  by (rule linked_cong) auto

lemma linked_live: "linked nx m r ps \<Longrightarrow> p \<in> set ps \<Longrightarrow> m p \<noteq> None"
  by (induction ps arbitrary: r) auto

lemma linked_None [simp]: "linked nx m None ps \<longleftrightarrow> ps = []"
  by (cases ps) auto

lemma linked_Some: "linked nx m (Some p) ps \<longleftrightarrow> (\<exists>x qs. ps = p # qs \<and> m p = Some x \<and> linked nx m (nx x) qs)"
  by (cases ps) auto

end
