(* ===== verification/Runtime.thy ===== *)
theory Runtime
  imports Prelude
begin

text \<open>
  The interface of the OCaml runtime and of the operating system as the C stubs see it: OCaml
  values, OCaml exceptions, the outcome of a primitive, mutexes, and the shape of a libc call.

  Values of C macros that the platform defines (\<^verbatim>\<open>R_OK\<close>, \<^verbatim>\<open>EINVAL\<close>, \<^verbatim>\<open>F_SETLK\<close>, \<dots>) and the system
  calls themselves are not part of the repository: the constants come from a parameter
  \<open>K :: string \<Rightarrow> int\<close>, and a system call is a function argument that maps the current \<^verbatim>\<open>errno\<close> and
  an opaque world to a result, the new \<^verbatim>\<open>errno\<close> and the new world.
\<close>

section \<open>OCaml values and exceptions\<close>

text \<open>
  \<open>Imm\<close> is an immediate value. \<open>Caml_double\<close> is a boxed \<^verbatim>\<open>double\<close>, by its bits. \<open>Caml_ref\<close> refers to a mutable OCaml byte buffer (a \<^verbatim>\<open>Bytes.t\<close> or a
  Bigarray) by identity. \<open>Caml_ptr\<close> is an abstract or custom block that holds a C pointer.
\<close>

datatype caml_value =
    Imm int
  | Caml_string "char list"
  | Caml_int64 int
  | Caml_double "64 word"
  | Block nat "caml_value list"
  | Caml_ref nat
  | Caml_ptr "nat option"

definition Val_unit :: caml_value where
  "Val_unit = Imm 0"

definition Val_emptylist :: caml_value where
  "Val_emptylist = Imm 0"

definition Val_long :: "int \<Rightarrow> caml_value" where
  "Val_long i = Imm (caml_int i)"

text \<open>\<^verbatim>\<open>Val_int\<close> is another name for \<^verbatim>\<open>Val_long\<close> in the headers of OCaml.\<close>

definition Val_int :: "int \<Rightarrow> caml_value" where
  "Val_int i = Imm (caml_int i)"

definition Val_bool :: "bool \<Rightarrow> caml_value" where
  "Val_bool b = Imm (if b then 1 else 0)"

text \<open>\<^verbatim>\<open>Nothing\<close>, the empty third argument of \<^verbatim>\<open>Unix.Unix_error\<close>.\<close>

definition Nothing :: caml_value where
  "Nothing = Caml_string []"

text \<open>An OCaml list built of cons blocks.\<close>

fun Val_list :: "caml_value list \<Rightarrow> caml_value" where
  "Val_list [] = Val_emptylist"
| "Val_list (v # vs) = Block 0 [v, Val_list vs]"

text \<open>\<^verbatim>\<open>caml_copy_string\<close> copies a C string into a fresh OCaml string.\<close>

definition caml_copy_string :: "char list \<Rightarrow> caml_value" where
  "caml_copy_string xs = Caml_string (cstring xs)"

datatype caml_exn =
    Unix_error int string caml_value
  | Not_available string
  | Invalid_argument string
  | Failure string
  | Not_found
  | End_of_file

text \<open>A primitive returns a value to OCaml or raises an OCaml exception.\<close>

datatype 'a outcome = Ret 'a | Raise caml_exn

lemmas value_defs =
  Val_unit_def Val_emptylist_def Val_int_def Val_long_def Val_bool_def Nothing_def

lemma Val_int_eq_iff:
  "- (2 ^ 62) \<le> i \<Longrightarrow> i < 2 ^ 62 \<Longrightarrow> - (2 ^ 62) \<le> j \<Longrightarrow> j < 2 ^ 62 \<Longrightarrow> Val_int i = Val_int j \<longleftrightarrow> i = j"
  by (simp add: Val_int_def caml_int_id)

lemma Val_list_inject: "Val_list xs = Val_list ys \<longleftrightarrow> xs = ys"
proof (induction xs arbitrary: ys)
  case Nil
  then show ?case by (cases ys) (simp_all add: Val_emptylist_def)
next
  case (Cons x xs)
  then show ?case by (cases ys) (simp_all add: Val_emptylist_def)
qed

section \<open>Mutexes\<close>

datatype mutex = Mutex_uninit | Mutex_free | Mutex_held

text \<open>
  Locking a mutex that the caller already holds blocks for ever, and a mutex that is not
  initialised must not be locked: both are \<open>None\<close>. So is unlocking a mutex that is not held.
\<close>

fun mutex_lock :: "mutex \<Rightarrow> mutex option" where
  "mutex_lock Mutex_free = Some Mutex_held"
| "mutex_lock _ = None"

fun mutex_unlock :: "mutex \<Rightarrow> mutex option" where
  "mutex_unlock Mutex_held = Some Mutex_free"
| "mutex_unlock _ = None"

text \<open>Destroying a mutex that is locked, or that was never initialised, is undefined.\<close>

fun mutex_destroy :: "mutex \<Rightarrow> mutex option" where
  "mutex_destroy Mutex_free = Some Mutex_uninit"
| "mutex_destroy _ = None"

section \<open>System calls\<close>

text \<open>The current \<^verbatim>\<open>errno\<close> and the world in, the result, the new \<^verbatim>\<open>errno\<close> and the new world out.\<close>

type_synonym ('os, 'r) syscall = "int \<Rightarrow> 'os \<Rightarrow> 'r \<times> int \<times> 'os"

text \<open>Raising \<^verbatim>\<open>Lwt_unix.Not_available\<close> (\<^verbatim>\<open>lwt_unix_not_available\<close>).\<close>

definition lwt_unix_not_available :: "string \<Rightarrow> 'a outcome" where
  "lwt_unix_not_available feature = Raise (Not_available feature)"

end
