(* ===== verification/Notifications.thy ===== *)
theory Notifications
  imports Runtime
begin

text \<open>
  The notification buffer of \<^verbatim>\<open>src/src/unix/lwt_unix_stubs.c\<close>: a growing array of pending
  notification ids, protected by one mutex, and the file descriptor (an eventfd or a pipe) that
  wakes the main thread up. Worker threads and signal handlers send; the main thread receives
  everything that is pending at once.

  The theory has the state, the operations in the order of the source, the representation
  invariant, the refinement to a FIFO mailbox (locale \<open>mailbox\<close>), and the wake-up protocol
  (locale \<open>wakeup_channel\<close>).
\<close>

section \<open>State\<close>

datatype notification_mode =
    NOTIFICATION_MODE_NOT_INITIALIZED
  | NOTIFICATION_MODE_NONE
  | NOTIFICATION_MODE_EVENTFD
  | NOTIFICATION_MODE_PIPE
  | NOTIFICATION_MODE_WINDOWS

text \<open>What the function pointers \<^verbatim>\<open>notification_send\<close> and \<^verbatim>\<open>notification_recv\<close> point to.\<close>

datatype notification_fn = Null_fn | Eventfd_fn | Pipe_fn

text \<open>
  The static variables of the C file, the signal mask and \<^verbatim>\<open>errno\<close> of the calling thread, and the
  world. \<open>cell_junk\<close> is what a freshly allocated cell holds before it is written.
\<close>

record 'os notif =
  notification_mutex :: mutex
  notifications :: "int list"
  notification_count :: nat
  notification_index :: nat
  notification_mode :: notification_mode
  notification_send :: notification_fn
  notification_recv :: notification_fn
  notification_fd :: int
  notification_fds :: "int \<times> int"
  sigmask :: "nat set"
  errno :: int
  os :: "'os"
  cell_junk :: "nat \<Rightarrow> int"

text \<open>The libc functions the component calls.\<close>

record 'os posix =
  sys_write :: "int \<Rightarrow> char list \<Rightarrow> ('os, int) syscall"
  sys_read :: "int \<Rightarrow> nat \<Rightarrow> ('os, int) syscall"
  sys_close :: "int \<Rightarrow> ('os, int) syscall"
  sys_eventfd :: "('os, int) syscall"
  sys_pipe :: "('os, int \<times> int \<times> int) syscall"
  sys_getfd :: "int \<Rightarrow> ('os, int) syscall"
  sys_setfd :: "int \<Rightarrow> int \<Rightarrow> ('os, int) syscall"

text \<open>Run a libc call on the state's \<^verbatim>\<open>errno\<close> and world.\<close>

definition libc :: "('os, 'r) syscall \<Rightarrow> 'os notif \<Rightarrow> 'r \<times> 'os notif" where
  "libc f s = (case f (errno s) (os s) of (r, e, w) \<Rightarrow> (r, s\<lparr>errno := e, os := w\<rparr>))"

definition lock_notifications :: "'os notif \<Rightarrow> 'os notif option" where
  "lock_notifications s =
     map_option (\<lambda>m. s\<lparr>notification_mutex := m\<rparr>) (mutex_lock (notification_mutex s))"

definition unlock_notifications :: "'os notif \<Rightarrow> 'os notif option" where
  "unlock_notifications s =
     map_option (\<lambda>m. s\<lparr>notification_mutex := m\<rparr>) (mutex_unlock (notification_mutex s))"

section \<open>The buffer\<close>

definition init_notifications :: "'os notif \<Rightarrow> 'os notif" where
  "init_notifications s =
     s\<lparr>notification_mutex := Mutex_free,
       notification_count := 4096,
       notifications := map (cell_junk s) [0..<4096]\<rparr>"

definition resize_notifications :: "'os notif \<Rightarrow> 'os notif" where
  "resize_notifications s =
     (let new_notification_count = notification_count s * 2;
          new_notifications = map (cell_junk s) [0..<new_notification_count];
          new_notifications = take (notification_count s) (notifications s)
                                @ drop (notification_count s) new_notifications
      in s\<lparr>notifications := new_notifications, notification_count := new_notification_count\<rparr>)"

text \<open>\<^verbatim>\<open>notifications[notification_index++] = id\<close>\<close>

definition store_notification :: "int \<Rightarrow> 'os notif \<Rightarrow> 'os notif option" where
  "store_notification nid s =
     (if notification_index s < length (notifications s)
      then Some (s\<lparr>notifications := (notifications s)[notification_index s := nid],
                   notification_index := Suc (notification_index s)\<rparr>)
      else None)"

section \<open>Sending and receiving the wake-up signal\<close>

definition eventfd_notification_send :: "'os posix \<Rightarrow> 'os notif \<Rightarrow> int \<times> 'os notif" where
  "eventfd_notification_send P s =
     libc (sys_write P (notification_fd s) (CHR 0x01 # replicate 7 (CHR 0x00))) s"

definition eventfd_notification_recv :: "'os posix \<Rightarrow> 'os notif \<Rightarrow> int \<times> 'os notif" where
  "eventfd_notification_recv P s = libc (sys_read P (notification_fd s) 8) s"

definition pipe_notification_send :: "'os posix \<Rightarrow> 'os notif \<Rightarrow> int \<times> 'os notif" where
  "pipe_notification_send P s = libc (sys_write P (snd (notification_fds s)) [CHR 0x00]) s"

definition pipe_notification_recv :: "'os posix \<Rightarrow> 'os notif \<Rightarrow> int \<times> 'os notif" where
  "pipe_notification_recv P s = libc (sys_read P (fst (notification_fds s)) 1) s"

text \<open>Calls through the two function pointers; a null pointer must not be called.\<close>

definition call_notification_send :: "'os posix \<Rightarrow> 'os notif \<Rightarrow> (int \<times> 'os notif) option" where
  "call_notification_send P s =
     (case notification_send s of
        Null_fn \<Rightarrow> None
      | Eventfd_fn \<Rightarrow> Some (eventfd_notification_send P s)
      | Pipe_fn \<Rightarrow> Some (pipe_notification_send P s))"

definition call_notification_recv :: "'os posix \<Rightarrow> 'os notif \<Rightarrow> (int \<times> 'os notif) option" where
  "call_notification_recv P s =
     (case notification_recv s of
        Null_fn \<Rightarrow> None
      | Eventfd_fn \<Rightarrow> Some (eventfd_notification_recv P s)
      | Pipe_fn \<Rightarrow> Some (pipe_notification_recv P s))"

section \<open>Sending a notification\<close>

definition lwt_unix_send_notification ::
    "'os posix \<Rightarrow> int \<Rightarrow> 'os notif \<Rightarrow> (unit outcome \<times> 'os notif) option" where
  "lwt_unix_send_notification P nid s = do {
     let old_mask = sigmask s;
     s \<leftarrow> lock_notifications (s\<lparr>sigmask := UNIV\<rparr>);
     if notification_index s > 0 then do {
       let s = (if notification_index s = notification_count s then resize_notifications s else s);
       s \<leftarrow> store_notification nid s;
       s \<leftarrow> unlock_notifications s;
       Some (Ret (), s\<lparr>sigmask := old_mask\<rparr>)
     } else do {
       s \<leftarrow> store_notification nid s;
       (ret, s) \<leftarrow> call_notification_send P s;
       if ret < 0 then do {
         let error = errno s;
         s \<leftarrow> unlock_notifications s;
         Some (Raise (Unix_error error ''send_notification'' Nothing), s\<lparr>sigmask := old_mask\<rparr>)
       } else do {
         s \<leftarrow> unlock_notifications s;
         Some (Ret (), s\<lparr>sigmask := old_mask\<rparr>)
       }
     }
   }"

text \<open>The stub takes the id as an OCaml integer and returns unit.\<close>

definition lwt_unix_send_notification_stub ::
    "'os posix \<Rightarrow> int \<Rightarrow> 'os notif \<Rightarrow> (caml_value outcome \<times> 'os notif) option" where
  "lwt_unix_send_notification_stub P nid s = do {
     (r, s) \<leftarrow> lwt_unix_send_notification P nid s;
     Some (case r of Ret _ \<Rightarrow> Ret Val_unit | Raise e \<Rightarrow> Raise e, s)
   }"

text \<open>Several sends one after the other, by any threads.\<close>

fun send_all :: "'os posix \<Rightarrow> int list \<Rightarrow> 'os notif \<Rightarrow> 'os notif option" where
  "send_all P [] s = Some s"
| "send_all P (nid # ids) s = do {
     (_, s) \<leftarrow> lwt_unix_send_notification P nid s;
     send_all P ids s
   }"

section \<open>Receiving the pending notifications\<close>

text \<open>
  The loop that allocates the result tuple. It releases the mutex around \<^verbatim>\<open>caml_alloc_tuple\<close> and
  goes round again when other threads sent notifications meanwhile. The first argument is that
  interference: one list of sent ids per iteration; once it is used up nobody sends any more.
  \<^verbatim>\<open>current_index\<close> is an \<^verbatim>\<open>int\<close> while \<^verbatim>\<open>notification_index\<close> is a \<^verbatim>\<open>long\<close>, so the comparison is made after
  a truncation to 32 bits; an index it cannot represent makes the loop go round for ever.
\<close>

fun recv_alloc_loop ::
    "'os posix \<Rightarrow> int list list \<Rightarrow> 'os notif \<Rightarrow> (int \<times> 'os notif) option" where
  "recv_alloc_loop P [] s = do {
     let current_index = c_int (int (notification_index s));
     s \<leftarrow> unlock_notifications s;
     s \<leftarrow> lock_notifications s;
     if current_index \<noteq> int (notification_index s) then None
     else Some (current_index, s)
   }"
| "recv_alloc_loop P (ids # rest) s = do {
     let current_index = c_int (int (notification_index s));
     s \<leftarrow> unlock_notifications s;
     s \<leftarrow> send_all P ids s;
     s \<leftarrow> lock_notifications s;
     if current_index \<noteq> int (notification_index s) then recv_alloc_loop P rest s
     else Some (current_index, s)
   }"

text \<open>
  \<^verbatim>\<open>for (i = 0; i < notification_index; i++) Field(result, i) = Val_long(notifications[i])\<close>: a
  write past the allocated tuple is undefined.
\<close>

definition read_notifications :: "int \<Rightarrow> 'os notif \<Rightarrow> caml_value option" where
  "read_notifications current_index s =
     (if int (notification_index s) \<le> current_index \<and> notification_index s \<le> length (notifications s)
      then Some (Block 0 (map Val_long (take (notification_index s) (notifications s))))
      else None)"

definition lwt_unix_recv_notifications ::
    "'os posix \<Rightarrow> int list list \<Rightarrow> 'os notif \<Rightarrow> (caml_value outcome \<times> 'os notif) option" where
  "lwt_unix_recv_notifications P interference s = do {
     let old_mask = sigmask s;
     s \<leftarrow> lock_notifications (s\<lparr>sigmask := UNIV\<rparr>);
     (ret, s) \<leftarrow> call_notification_recv P s;
     if ret < 0 then do {
       let error = errno s;
       s \<leftarrow> unlock_notifications s;
       Some (Raise (Unix_error error ''recv_notifications'' Nothing), s\<lparr>sigmask := old_mask\<rparr>)
     } else do {
       (current_index, s) \<leftarrow> recv_alloc_loop P interference s;
       result \<leftarrow> read_notifications current_index s;
       s \<leftarrow> unlock_notifications (s\<lparr>notification_index := 0\<rparr>);
       Some (Ret result, s\<lparr>sigmask := old_mask\<rparr>)
     }
   }"

section \<open>Initialisation\<close>

definition set_close_on_exec ::
    "(string \<Rightarrow> int) \<Rightarrow> 'os posix \<Rightarrow> int \<Rightarrow> 'os notif \<Rightarrow> unit outcome \<times> 'os notif" where
  "set_close_on_exec K P fd s =
     (case libc (sys_getfd P fd) s of
        (flags, s) \<Rightarrow>
          if flags = -1 then (Raise (Unix_error (errno s) ''set_close_on_exec'' Nothing), s)
          else (case libc (sys_setfd P fd (or flags (K ''FD_CLOEXEC''))) s of
                  (r, s) \<Rightarrow>
                    if r = -1 then (Raise (Unix_error (errno s) ''set_close_on_exec'' Nothing), s)
                    else (Ret (), s)))"

text \<open>The switch on the current mode at the start of \<^verbatim>\<open>lwt_unix_init_notification\<close>.\<close>

definition close_old_channel ::
    "bool \<Rightarrow> 'os posix \<Rightarrow> 'os notif \<Rightarrow> unit outcome \<times> 'os notif" where
  "close_old_channel have_eventfd P s =
     (case notification_mode s of
        NOTIFICATION_MODE_EVENTFD \<Rightarrow>
          if have_eventfd then
            (case libc (sys_close P (notification_fd s)) (s\<lparr>notification_mode := NOTIFICATION_MODE_NONE\<rparr>) of
               (r, s) \<Rightarrow> if r = -1 then (Raise (Unix_error (errno s) ''close'' Nothing), s) else (Ret (), s))
          else (Raise (Failure ''notification system in unknown state''), s)
      | NOTIFICATION_MODE_PIPE \<Rightarrow>
          (case libc (sys_close P (fst (notification_fds s))) (s\<lparr>notification_mode := NOTIFICATION_MODE_NONE\<rparr>) of
             (r, s) \<Rightarrow>
               if r = -1 then (Raise (Unix_error (errno s) ''close'' Nothing), s)
               else (case libc (sys_close P (snd (notification_fds s))) s of
                       (r, s) \<Rightarrow> if r = -1 then (Raise (Unix_error (errno s) ''close'' Nothing), s)
                                 else (Ret (), s)))
      | NOTIFICATION_MODE_NOT_INITIALIZED \<Rightarrow>
          (Ret (), init_notifications (s\<lparr>notification_mode := NOTIFICATION_MODE_NONE\<rparr>))
      | NOTIFICATION_MODE_NONE \<Rightarrow> (Ret (), s)
      | NOTIFICATION_MODE_WINDOWS \<Rightarrow> (Raise (Failure ''notification system in unknown state''), s))"

definition open_pipe_channel ::
    "(string \<Rightarrow> int) \<Rightarrow> 'os posix \<Rightarrow> 'os notif \<Rightarrow> caml_value outcome \<times> 'os notif" where
  "open_pipe_channel K P s =
     (case libc (sys_pipe P) s of
        ((r, fds), s) \<Rightarrow>
          if r = -1 then (Raise (Unix_error (errno s) ''pipe'' Nothing), s)
          else (case set_close_on_exec K P (fst fds) (s\<lparr>notification_fds := fds\<rparr>) of
                  (Raise e, s) \<Rightarrow> (Raise e, s)
                | (Ret _, s) \<Rightarrow>
                    (case set_close_on_exec K P (snd fds) s of
                       (Raise e, s) \<Rightarrow> (Raise e, s)
                     | (Ret _, s) \<Rightarrow>
                         (Ret (Val_int (fst fds)),
                          s\<lparr>notification_mode := NOTIFICATION_MODE_PIPE,
                            notification_send := Pipe_fn, notification_recv := Pipe_fn\<rparr>))))"

definition lwt_unix_init_notification ::
    "bool \<Rightarrow> (string \<Rightarrow> int) \<Rightarrow> 'os posix \<Rightarrow> 'os notif \<Rightarrow> caml_value outcome \<times> 'os notif" where
  "lwt_unix_init_notification have_eventfd K P s =
     (case close_old_channel have_eventfd P s of
        (Raise e, s) \<Rightarrow> (Raise e, s)
      | (Ret _, s) \<Rightarrow>
          if have_eventfd then
            (case libc (sys_eventfd P) s of
               (fd, s) \<Rightarrow>
                 (let s = s\<lparr>notification_fd := fd\<rparr> in
                  if fd \<noteq> -1 then
                    (case set_close_on_exec K P fd
                            (s\<lparr>notification_mode := NOTIFICATION_MODE_EVENTFD,
                               notification_send := Eventfd_fn, notification_recv := Eventfd_fn\<rparr>) of
                       (Raise e, s) \<Rightarrow> (Raise e, s)
                     | (Ret _, s) \<Rightarrow> (Ret (Val_int fd), s))
                  else open_pipe_channel K P s))
          else open_pipe_channel K P s)"


section \<open>Representation invariant\<close>

text \<open>The array has the recorded size and the index stays within it.\<close>

definition notif_wf :: "'os notif \<Rightarrow> bool" where
  "notif_wf s \<longleftrightarrow>
     length (notifications s) = notification_count s \<and>
     notification_index s \<le> notification_count s \<and>
     0 < notification_count s"

text \<open>Between two operations the mutex is free and the function pointers are set.\<close>

definition notif_ready :: "'os notif \<Rightarrow> bool" where
  "notif_ready s \<longleftrightarrow>
     notif_wf s \<and> notification_mutex s = Mutex_free \<and>
     notification_send s \<noteq> Null_fn \<and> notification_recv s = notification_send s"

text \<open>The abstraction: the ids that wait to be received, oldest first.\<close>

definition pending :: "'os notif \<Rightarrow> int list" where
  "pending s = take (notification_index s) (notifications s)"

text \<open>What no operation but the initialisation changes.\<close>

definition channel :: "'os notif \<Rightarrow> notification_mode \<times> notification_fn \<times> notification_fn \<times> int \<times> int \<times> int" where
  "channel s = (notification_mode s, notification_send s, notification_recv s,
     notification_fd s, notification_fds s)"

lemmas lock_defs = lock_notifications_def unlock_notifications_def

lemma length_pending: "notif_wf s \<Longrightarrow> length (pending s) = notification_index s"
  by (simp add: notif_wf_def pending_def)

lemma pending_empty_iff: "notif_wf s \<Longrightarrow> pending s = [] \<longleftrightarrow> notification_index s = 0"
  using length_pending [of s] by (cases "pending s") auto

lemma resize_wf: "notif_wf s \<Longrightarrow> notif_wf (resize_notifications s)"
  by (simp add: notif_wf_def resize_notifications_def Let_def)

lemma resize_pending: "notif_wf s \<Longrightarrow> pending (resize_notifications s) = pending s"
  by (simp add: notif_wf_def pending_def resize_notifications_def Let_def)

lemma resize_room:
  "notif_wf s \<Longrightarrow> notification_index (resize_notifications s) < length (notifications (resize_notifications s))"
  by (simp add: notif_wf_def resize_notifications_def Let_def)

lemma resize_frame [simp]:
  "notification_mutex (resize_notifications s) = notification_mutex s"
  "notification_index (resize_notifications s) = notification_index s"
  "channel (resize_notifications s) = channel s"
  "sigmask (resize_notifications s) = sigmask s"
  "errno (resize_notifications s) = errno s"
  "os (resize_notifications s) = os s"
  "notification_send (resize_notifications s) = notification_send s"
  "notification_recv (resize_notifications s) = notification_recv s"
  by (simp_all add: resize_notifications_def Let_def channel_def)

lemma store_Some:
  "notification_index s < length (notifications s) \<Longrightarrow>
     store_notification nid s =
       Some (s\<lparr>notifications := (notifications s)[notification_index s := nid],
               notification_index := Suc (notification_index s)\<rparr>)"
  by (simp add: store_notification_def)

lemma store_wf:
  "notif_wf s \<Longrightarrow> store_notification nid s = Some s' \<Longrightarrow> notif_wf s'"
  by (auto simp: notif_wf_def store_notification_def split: if_splits)

lemma store_pending:
  "store_notification nid s = Some s' \<Longrightarrow> pending s' = pending s @ [nid]"
  by (auto simp: store_notification_def pending_def take_Suc_update split: if_splits)

lemma store_frame:
  assumes "store_notification nid s = Some s'"
  shows "notification_mutex s' = notification_mutex s" "channel s' = channel s"
    "sigmask s' = sigmask s" "errno s' = errno s" "os s' = os s"
    "notification_send s' = notification_send s" "notification_recv s' = notification_recv s"
    "notification_index s' = Suc (notification_index s)"
  using assms by (auto simp: store_notification_def channel_def split: if_splits)

lemma libc_frame:
  assumes "libc f s = (r, s')"
  shows "notification_mutex s' = notification_mutex s" "channel s' = channel s"
    "sigmask s' = sigmask s" "pending s' = pending s" "notif_wf s' = notif_wf s"
    "notification_send s' = notification_send s" "notification_recv s' = notification_recv s"
    "notification_index s' = notification_index s"
  using assms by (auto simp: libc_def channel_def pending_def notif_wf_def split: prod.splits)

lemma call_send_libc:
  "call_notification_send P s = Some (r, s') \<Longrightarrow> \<exists>f. libc f s = (r, s')"
  by (auto simp: call_notification_send_def eventfd_notification_send_def pipe_notification_send_def
      split: notification_fn.splits)

lemma call_recv_libc:
  "call_notification_recv P s = Some (r, s') \<Longrightarrow> \<exists>f. libc f s = (r, s')"
  by (auto simp: call_notification_recv_def eventfd_notification_recv_def pipe_notification_recv_def
      split: notification_fn.splits)

lemma call_send_Some: "notification_send s \<noteq> Null_fn \<Longrightarrow> \<exists>r s'. call_notification_send P s = Some (r, s')"
  by (cases "notification_send s") (simp_all add: call_notification_send_def)

lemma call_recv_Some: "notification_recv s \<noteq> Null_fn \<Longrightarrow> \<exists>r s'. call_notification_recv P s = Some (r, s')"
  by (cases "notification_recv s") (simp_all add: call_notification_recv_def)

section \<open>Sending\<close>

text \<open>
  The room a send needs: after the possible growth the next cell exists. This is the fact that
  rules the out-of-bounds write out.
\<close>

definition make_room :: "'os notif \<Rightarrow> 'os notif" where
  "make_room s = (if notification_index s = notification_count s then resize_notifications s else s)"

lemma make_room:
  assumes "notif_wf s"
  shows "notif_wf (make_room s)" "pending (make_room s) = pending s"
    "notification_index (make_room s) < length (notifications (make_room s))"
    "notification_mutex (make_room s) = notification_mutex s" "channel (make_room s) = channel s"
    "sigmask (make_room s) = sigmask s" "errno (make_room s) = errno s" "os (make_room s) = os s"
    "notification_index (make_room s) = notification_index s"
    "notification_send (make_room s) = notification_send s"
    "notification_recv (make_room s) = notification_recv s"
  using assms resize_wf [OF assms] resize_pending [OF assms] resize_room [OF assms]
  by (auto simp: make_room_def notif_wf_def)

text \<open>Setting the mutex and the mask leaves the buffer alone.\<close>

lemma ghost_update [simp]:
  "notif_wf (s\<lparr>notification_mutex := m\<rparr>) = notif_wf s"
  "notif_wf (s\<lparr>sigmask := k\<rparr>) = notif_wf s"
  "pending (s\<lparr>notification_mutex := m\<rparr>) = pending s"
  "pending (s\<lparr>sigmask := k\<rparr>) = pending s"
  "channel (s\<lparr>notification_mutex := m\<rparr>) = channel s"
  "channel (s\<lparr>sigmask := k\<rparr>) = channel s"
  by (simp_all add: notif_wf_def pending_def channel_def)

lemma send_when_pending:
  assumes ready: "notif_ready s" and idx: "0 < notification_index s"
  shows "\<exists>s'. lwt_unix_send_notification P nid s = Some (Ret (), s') \<and> notif_ready s' \<and>
           pending s' = pending s @ [nid] \<and> sigmask s' = sigmask s \<and> channel s' = channel s \<and>
           errno s' = errno s \<and> os s' = os s \<and> notification_index s' = Suc (notification_index s)"
proof -
  let ?t = "s\<lparr>sigmask := UNIV, notification_mutex := Mutex_held\<rparr>"
  let ?r = "make_room ?t"
  from ready have wf: "notif_wf ?t" and m: "notification_mutex s = Mutex_free"
    and fns: "notification_send s \<noteq> Null_fn" "notification_recv s = notification_send s"
    by (simp_all add: notif_ready_def)
  note room = make_room [OF wf]
  obtain u where u: "store_notification nid ?r = Some u"
    using store_Some [OF room(3)] by blast
  note fr = store_frame [OF u] and pd = store_pending [OF u] and wfu = store_wf [OF room(1) u]
  have "lwt_unix_send_notification P nid s =
          Some (Ret (), u\<lparr>notification_mutex := Mutex_free, sigmask := sigmask s\<rparr>)"
    using m idx u fr(1) room(4)
    by (simp add: lwt_unix_send_notification_def lock_defs make_room_def Let_def)
  then show ?thesis
    using fr pd wfu room fns by (simp add: notif_ready_def)
qed

lemma send_when_empty:
  assumes ready: "notif_ready s" and idx: "notification_index s = 0"
  shows "\<exists>r t s'. lwt_unix_send_notification P nid s = Some (r, s') \<and>
           call_notification_send P (s\<lparr>sigmask := UNIV, notification_mutex := Mutex_held,
               notifications := (notifications s)[0 := nid], notification_index := 1\<rparr>) = Some t \<and>
           notif_ready s' \<and> pending s' = [nid] \<and> sigmask s' = sigmask s \<and> channel s' = channel s \<and>
           errno s' = errno (snd t) \<and> os s' = os (snd t) \<and> notification_index s' = 1 \<and>
           r = (if fst t < 0 then Raise (Unix_error (errno (snd t)) ''send_notification'' Nothing)
                else Ret ())"
proof -
  let ?t = "s\<lparr>sigmask := UNIV, notification_mutex := Mutex_held\<rparr>"
  from ready have wf: "notif_wf ?t" and m: "notification_mutex s = Mutex_free"
    and fns: "notification_send s \<noteq> Null_fn" "notification_recv s = notification_send s"
    and len: "notification_index ?t < length (notifications ?t)"
    using idx by (simp_all add: notif_ready_def notif_wf_def)
  let ?u = "?t\<lparr>notifications := (notifications s)[0 := nid], notification_index := 1\<rparr>"
  have u: "store_notification nid ?t = Some ?u"
    using store_Some [OF len] idx by simp
  note fr = store_frame [OF u] and pd = store_pending [OF u] and wfu = store_wf [OF wf u]
  obtain ret v where v: "call_notification_send P ?u = Some (ret, v)"
    using call_send_Some [of ?u P] fns by auto
  then obtain f where "libc f ?u = (ret, v)" using call_send_libc by blast
  note lf = libc_frame [OF this]
  have pe: "pending s = []" using idx by (simp add: pending_def)
  have "lwt_unix_send_notification P nid s =
      Some (if ret < 0 then Raise (Unix_error (errno v) ''send_notification'' Nothing) else Ret (),
            v\<lparr>notification_mutex := Mutex_free, sigmask := sigmask s\<rparr>)"
    using m idx u v lf(1)
    by (simp add: lwt_unix_send_notification_def lock_defs Let_def)
  then show ?thesis
    using v lf fr pd wfu fns pe by (simp add: notif_ready_def)
qed

text \<open>Both cases together: a send always returns, appends the id, and gives everything it took back.\<close>

lemma send_spec:
  assumes "notif_ready s"
  obtains r s' where "lwt_unix_send_notification P nid s = Some (r, s')" "notif_ready s'"
    "pending s' = pending s @ [nid]" "sigmask s' = sigmask s" "channel s' = channel s"
proof (cases "notification_index s = 0")
  case True
  with send_when_empty [OF assms True, of P nid] that show ?thesis
    by (auto simp: pending_def)
next
  case False
  with send_when_pending [OF assms, of P nid] that show ?thesis by auto
qed

section \<open>The mailbox interface\<close>

text \<open>
  What the clients of the component (the job executor, the signal handlers) rely on: a post
  always succeeds in a good state, keeps it good, and adds the message at the end.
\<close>

locale mailbox =
  fixes post :: "'a \<Rightarrow> 's \<Rightarrow> 's option"
    and contents :: "'s \<Rightarrow> 'a list"
    and good :: "'s \<Rightarrow> bool"
  assumes post_good: "good s \<Longrightarrow> \<exists>s'. post x s = Some s' \<and> good s' \<and> contents s' = contents s @ [x]"
begin

lemma post_all:
  "good s \<Longrightarrow> \<exists>s'. iter_opt post xs s = Some s' \<and> good s' \<and> contents s' = contents s @ xs"
proof (induction xs arbitrary: s)
  case Nil
  then show ?case by simp
next
  case (Cons x xs)
  from post_good [OF Cons.prems] obtain t where
    t: "post x s = Some t" "good t" "contents t = contents s @ [x]" by blast
  from Cons.IH [OF t(2)] t show ?case by auto
qed

end

definition post_notification :: "'os posix \<Rightarrow> int \<Rightarrow> 'os notif \<Rightarrow> 'os notif option" where
  "post_notification P nid s = map_option snd (lwt_unix_send_notification P nid s)"

interpretation nbox: mailbox "post_notification P" pending notif_ready for P
proof unfold_locales
  fix s :: "'a notif" and x
  assume "notif_ready s"
  then show "\<exists>s'. post_notification P x s = Some s' \<and> notif_ready s' \<and> pending s' = pending s @ [x]"
    by (rule send_spec [of s P x]) (simp add: post_notification_def)
qed

lemma send_all_iter: "send_all P ids s = iter_opt (post_notification P) ids s"
proof (induction ids arbitrary: s)
  case (Cons i ids)
  then show ?case
    by (cases "lwt_unix_send_notification P i s") (auto simp: post_notification_def)
qed simp

section \<open>Receiving\<close>

text \<open>
  What the other threads really add during a receive: the loop ends at the first iteration in
  which nobody sent anything.
\<close>

definition interfering :: "int list list \<Rightarrow> int list" where
  "interfering bs = concat (takeWhile (\<lambda>b. b \<noteq> []) bs)"

lemma interfering_simps [simp]:
  "interfering [] = []" "interfering ([] # bs) = []"
  "b \<noteq> [] \<Longrightarrow> interfering (b # bs) = b @ interfering bs"
  by (simp_all add: interfering_def)

lemma send_all_spec:
  assumes "notif_ready s"
  shows "\<exists>s'. send_all P ids s = Some s' \<and> notif_ready s' \<and> pending s' = pending s @ ids"
  using nbox.post_all [OF assms, of P ids] by (simp add: send_all_iter)

lemma send_all_frame:
  "notif_ready s \<Longrightarrow> send_all P ids s = Some s' \<Longrightarrow> sigmask s' = sigmask s \<and> channel s' = channel s"
proof (induction ids arbitrary: s)
  case (Cons i ids)
  from Cons.prems(1) obtain r t where t: "lwt_unix_send_notification P i s = Some (r, t)"
    "notif_ready t" "sigmask t = sigmask s" "channel t = channel s" by (rule send_spec) blast
  with Cons.IH [OF t(2)] Cons.prems(2) show ?case by simp
qed simp

text \<open>The state inside the critical section of the receiver.\<close>

definition notif_locked :: "'os notif \<Rightarrow> bool" where
  "notif_locked s \<longleftrightarrow> notif_ready (s\<lparr>notification_mutex := Mutex_free\<rparr>) \<and> notification_mutex s = Mutex_held"

lemma notif_lockedD:
  assumes "notif_locked s"
  shows "unlock_notifications s = Some (s\<lparr>notification_mutex := Mutex_free\<rparr>)"
    "notif_ready (s\<lparr>notification_mutex := Mutex_free\<rparr>)" "notif_wf s"
  using assms by (auto simp: notif_locked_def notif_ready_def lock_defs)

lemma lock_ready:
  assumes "notif_ready s"
  shows "lock_notifications s = Some (s\<lparr>notification_mutex := Mutex_held\<rparr>)"
    "notif_locked (s\<lparr>notification_mutex := Mutex_held\<rparr>)"
  using assms by (auto simp: notif_locked_def notif_ready_def notif_wf_def lock_defs)

lemma index_fits:
  "notif_wf s \<Longrightarrow> length (pending s) < 2 ^ 31 \<Longrightarrow> c_int (int (notification_index s)) = int (notification_index s)"
  by (rule c_int_id) (simp_all add: length_pending)

text \<open>
  The allocation loop ends under every interference whose notifications fit an \<^verbatim>\<open>int\<close>, with the
  tuple size equal to the number of notifications now pending.
\<close>

lemma recv_alloc_loop_spec:
  assumes "notif_locked s" and "length (pending s @ interfering bs) < 2 ^ 31"
  shows "\<exists>s'. recv_alloc_loop P bs s = Some (int (notification_index s'), s') \<and> notif_locked s' \<and>
           pending s' = pending s @ interfering bs \<and> sigmask s' = sigmask s \<and> channel s' = channel s"
  using assms
proof (induction bs arbitrary: s)
  case Nil
  note lk = notif_lockedD [OF Nil.prems(1)]
  have "c_int (int (notification_index s)) = int (notification_index s)"
    using lk(3) Nil.prems(2) by (intro index_fits) auto
  with Nil.prems lock_ready [OF lk(2)] lk show ?case by simp
next
  case (Cons b bs)
  let ?u = "s\<lparr>notification_mutex := Mutex_free\<rparr>"
  note lk = notif_lockedD [OF Cons.prems(1)]
  have fits: "c_int (int (notification_index s)) = int (notification_index s)"
    using lk(3) Cons.prems(2) by (intro index_fits) auto
  from send_all_spec [OF lk(2), of P b] obtain t where
    t: "send_all P b ?u = Some t" "notif_ready t" "pending t = pending s @ b" by auto
  have fr: "sigmask t = sigmask s" "channel t = channel s"
    using send_all_frame [OF lk(2) t(1)] by simp_all
  note lt = lock_ready [OF t(2)]
  have idx: "notification_index t = notification_index s + length b"
    using t(2,3) lk(3) by (metis length_append length_pending notif_ready_def)
  show ?case
  proof (cases "b = []")
    case True
    with t fr lt lk fits idx Cons.prems show ?thesis by simp
  next
    case False
    let ?v = "t\<lparr>notification_mutex := Mutex_held\<rparr>"
    have "length (pending ?v @ interfering bs) < 2 ^ 31"
      using Cons.prems(2) False t(3) by simp
    from Cons.IH [OF lt(2) this] False t fr lt lk fits idx show ?thesis by auto
  qed
qed

lemma recv_spec:
  assumes ready: "notif_ready s"
    and call: "call_notification_recv P (s\<lparr>sigmask := UNIV, notification_mutex := Mutex_held\<rparr>) = Some (ret, t)"
    and fits: "length (pending s @ interfering bs) < 2 ^ 31"
  shows "\<exists>s'. lwt_unix_recv_notifications P bs s =
           Some (if ret < 0 then Raise (Unix_error (errno t) ''recv_notifications'' Nothing)
                 else Ret (Block 0 (map Val_long (pending s @ interfering bs))), s') \<and>
           notif_ready s' \<and> pending s' = (if ret < 0 then pending s else []) \<and>
           sigmask s' = sigmask s \<and> channel s' = channel s"
proof -
  let ?u = "s\<lparr>sigmask := UNIV, notification_mutex := Mutex_held\<rparr>"
  from call obtain f where "libc f ?u = (ret, t)" using call_recv_libc by blast
  note lf = libc_frame [OF this]
  have lock: "lock_notifications (s\<lparr>sigmask := UNIV\<rparr>) = Some ?u"
    using ready by (simp add: notif_ready_def lock_defs)
  have locked: "notif_locked t"
    using ready lf by (simp add: notif_locked_def notif_ready_def)
  have pd: "pending t = pending s" using lf(4) by simp
  show ?thesis
  proof (cases "ret < 0")
    case True
    with lock call notif_lockedD [OF locked] lf pd ready show ?thesis
      by (simp add: lwt_unix_recv_notifications_def Let_def notif_ready_def)
  next
    case False
    from recv_alloc_loop_spec [OF locked, of bs P] fits pd obtain v where
      v: "recv_alloc_loop P bs t = Some (int (notification_index v), v)" "notif_locked v"
      "pending v = pending s @ interfering bs" "channel v = channel t" by auto
    have rd: "read_notifications (int (notification_index v)) v =
                Some (Block 0 (map Val_long (pending s @ interfering bs)))"
      using notif_lockedD(3) [OF v(2)] v(3)
      by (simp add: read_notifications_def notif_wf_def pending_def)
    let ?w = "v\<lparr>notification_index := 0, notification_mutex := Mutex_free, sigmask := sigmask s\<rparr>"
    have "unlock_notifications (v\<lparr>notification_index := 0\<rparr>) =
            Some (v\<lparr>notification_index := 0, notification_mutex := Mutex_free\<rparr>)"
      using v(2) by (simp add: notif_locked_def lock_defs)
    with False lock call v rd have
      "lwt_unix_recv_notifications P bs s =
         Some (Ret (Block 0 (map Val_long (pending s @ interfering bs))), ?w)"
      by (simp add: lwt_unix_recv_notifications_def Let_def)
    moreover have "notif_ready ?w"
      using v(2) by (simp add: notif_locked_def notif_ready_def notif_wf_def)
    ultimately show ?thesis
      using False v(4) lf(2) by (simp add: pending_def channel_def)
  qed
qed

section \<open>Runs of the component\<close>

text \<open>
  A run is a sequence of sends and receives, in any order; the log records, in order, the ids
  that were sent (interference during receives included) and the values that were received. A
  send or a receive whose system call fails raises, and the run goes on.
\<close>

datatype notif_op = Op_send int | Op_recv "int list list"

fun notif_run ::
    "'os posix \<Rightarrow> notif_op list \<Rightarrow> 'os notif \<Rightarrow> (int list \<times> caml_value list \<times> 'os notif) option" where
  "notif_run P [] s = Some ([], [], s)"
| "notif_run P (Op_send nid # ops) s = do {
     (_, s) \<leftarrow> lwt_unix_send_notification P nid s;
     (sent, received, s) \<leftarrow> notif_run P ops s;
     Some (nid # sent, received, s)
   }"
| "notif_run P (Op_recv bs # ops) s = do {
     (r, s) \<leftarrow> lwt_unix_recv_notifications P bs s;
     (sent, received, s) \<leftarrow> notif_run P ops s;
     Some (case r of
         Ret (Block _ vs) \<Rightarrow> (interfering bs @ sent, vs @ received, s)
       | _ \<Rightarrow> (sent, received, s))
   }"

fun op_size :: "notif_op \<Rightarrow> nat" where
  "op_size (Op_send _) = 1"
| "op_size (Op_recv bs) = length (interfering bs)"

lemma notif_run_fifo_lemma:
  assumes "notif_ready s" and "length (pending s) + sum_list (map op_size ops) < 2 ^ 31"
  shows "\<exists>sent received s'. notif_run P ops s = Some (sent, received, s') \<and> notif_ready s' \<and>
           received @ map Val_long (pending s') = map Val_long (pending s @ sent)"
  using assms
proof (induction P ops s rule: notif_run.induct)
  case (1 P s)
  then show ?case by simp
next
  case (2 P nid ops s)
  from 2(2) obtain r t where t: "lwt_unix_send_notification P nid s = Some (r, t)"
    "notif_ready t" "pending t = pending s @ [nid]" by (rule send_spec)
  have "length (pending t) + sum_list (map op_size ops) < 2 ^ 31" using 2(3) t(3) by simp
  from "2.IH" [OF t(1) refl t(2) this] obtain sent received s' where
    "notif_run P ops t = Some (sent, received, s')" "notif_ready s'"
    "received @ map Val_long (pending s') = map Val_long (pending t @ sent)" by blast
  with t show ?case by simp
next
  case (3 P bs ops s)
  have "notification_recv s \<noteq> Null_fn" using 3(2) by (simp add: notif_ready_def)
  then obtain ret t where
    call: "call_notification_recv P (s\<lparr>sigmask := UNIV, notification_mutex := Mutex_held\<rparr>) = Some (ret, t)"
    using call_recv_Some [of "s\<lparr>sigmask := UNIV, notification_mutex := Mutex_held\<rparr>" P] by auto
  have fits: "length (pending s @ interfering bs) < 2 ^ 31" using 3(3) by simp
  from recv_spec [OF 3(2) call fits] obtain r v where
    v: "lwt_unix_recv_notifications P bs s = Some (r, v)" "notif_ready v"
    "pending v = (if ret < 0 then pending s else [])"
    "r = (if ret < 0 then Raise (Unix_error (errno t) ''recv_notifications'' Nothing)
          else Ret (Block 0 (map Val_long (pending s @ interfering bs))))" by blast
  have "length (pending v) + sum_list (map op_size ops) < 2 ^ 31" using 3(3) v(3) by simp
  from "3.IH" [OF v(1) refl v(2) this] obtain sent received s' where
    "notif_run P ops v = Some (sent, received, s')" "notif_ready s'"
    "received @ map Val_long (pending s') = map Val_long (pending v @ sent)" by blast
  with v show ?case by simp
qed

section \<open>The wake-up protocol\<close>

text \<open>
  What the documentation of \<^verbatim>\<open>eventfd(2)\<close> and \<^verbatim>\<open>pipe(7)\<close> says of a notification channel: \<open>level\<close> is the
  number of wake-ups that wait in the descriptor; a write to a descriptor in which nothing waits
  succeeds and leaves one wake-up, and a read takes the one that waits.
\<close>

definition wakeup_channel ::
    "'os posix \<Rightarrow> ('os \<Rightarrow> nat) \<Rightarrow> notification_mode \<times> notification_fn \<times> notification_fn \<times> int \<times> int \<times> int \<Rightarrow> bool" where
  "wakeup_channel P level c \<longleftrightarrow>
     (\<forall>s r t. channel s = c \<and> level (os s) = 0 \<and> call_notification_send P s = Some (r, t) \<longrightarrow>
        0 \<le> r \<and> level (os t) = 1) \<and>
     (\<forall>s r t. channel s = c \<and> level (os s) = 1 \<and> call_notification_recv P s = Some (r, t) \<longrightarrow>
        0 \<le> r \<and> level (os t) = 0)"

text \<open>The descriptor is readable exactly when a notification waits, and never holds two wake-ups.\<close>

definition wake_inv :: "('os \<Rightarrow> nat) \<Rightarrow> 'os notif \<Rightarrow> bool" where
  "wake_inv level s \<longleftrightarrow> level (os s) = (if pending s = [] then 0 else 1)"

lemma send_wake:
  assumes "notif_ready s" and ch: "wakeup_channel P level (channel s)" and "wake_inv level s"
  shows "\<exists>s'. lwt_unix_send_notification P nid s = Some (Ret (), s') \<and> notif_ready s' \<and>
           pending s' = pending s @ [nid] \<and> channel s' = channel s \<and> wake_inv level s'"
proof (cases "notification_index s = 0")
  case True
  let ?u = "s\<lparr>sigmask := UNIV, notification_mutex := Mutex_held,
              notifications := (notifications s)[0 := nid], notification_index := 1\<rparr>"
  from send_when_empty [OF assms(1) True, of P nid] obtain r t s' where
    a: "lwt_unix_send_notification P nid s = Some (r, s')" "call_notification_send P ?u = Some t"
    "notif_ready s'" "pending s' = [nid]" "channel s' = channel s" "os s' = os (snd t)"
    "r = (if fst t < 0 then Raise (Unix_error (errno (snd t)) ''send_notification'' Nothing) else Ret ())"
    by auto
  have "channel ?u = channel s" "level (os ?u) = 0" "pending s = []"
    using assms(3) True by (simp_all add: channel_def wake_inv_def pending_def)
  with ch a(2) have "0 \<le> fst t" "level (os (snd t)) = 1"
    unfolding wakeup_channel_def by (metis prod.collapse)+
  with a \<open>pending s = []\<close> show ?thesis by (simp add: wake_inv_def)
next
  case False
  with assms(1) have "pending s \<noteq> []" by (simp add: pending_empty_iff notif_ready_def)
  moreover from send_when_pending [OF assms(1), of P nid] False obtain s' where
    "lwt_unix_send_notification P nid s = Some (Ret (), s')" "notif_ready s'"
    "pending s' = pending s @ [nid]" "channel s' = channel s" "os s' = os s" by auto
  ultimately show ?thesis using assms(3) by (simp add: wake_inv_def)
qed

text \<open>While notifications are pending nobody touches the descriptor.\<close>

lemma send_all_quiet:
  "notif_ready s \<Longrightarrow> 0 < notification_index s \<Longrightarrow>
     \<exists>s'. send_all P ids s = Some s' \<and> notif_ready s' \<and> 0 < notification_index s' \<and>
          os s' = os s \<and> pending s' = pending s @ ids"
proof (induction ids arbitrary: s)
  case (Cons i ids)
  from send_when_pending [OF Cons.prems, of P i] obtain t where
    t: "lwt_unix_send_notification P i s = Some (Ret (), t)" "notif_ready t" "os t = os s"
    "pending t = pending s @ [i]" "0 < notification_index t" by auto
  from Cons.IH [OF t(2,5)] t show ?case by auto
qed simp

lemma recv_alloc_loop_quiet:
  assumes "notif_locked s" "0 < notification_index s" "recv_alloc_loop P bs s = Some (i, s')"
  shows "os s' = os s"
  using assms
proof (induction bs arbitrary: s)
  case Nil
  then show ?case by (auto simp: lock_defs bind_Some_iff Let_def split: if_splits)
next
  case (Cons b bs)
  let ?u = "s\<lparr>notification_mutex := Mutex_free\<rparr>"
  note lk = notif_lockedD [OF Cons.prems(1)]
  from send_all_quiet [OF lk(2), of P b] Cons.prems(2) obtain t where
    t: "send_all P b ?u = Some t" "notif_ready t" "0 < notification_index t" "os t = os s" by auto
  note lt = lock_ready [OF t(2)]
  show ?case
  proof (cases "c_int (int (notification_index s)) = int (notification_index t)")
    case True
    with Cons.prems(3) lk t lt show ?thesis by auto
  next
    case False
    with Cons.prems(3) lk t lt have "recv_alloc_loop P bs (t\<lparr>notification_mutex := Mutex_held\<rparr>) = Some (i, s')"
      by simp
    from Cons.IH [OF lt(2) _ this] t show ?thesis by simp
  qed
qed

lemma recv_wake:
  assumes ready: "notif_ready s" and ch: "wakeup_channel P level (channel s)" and "wake_inv level s"
    and ne: "pending s \<noteq> []" and fits: "length (pending s @ interfering bs) < 2 ^ 31"
  shows "\<exists>s'. lwt_unix_recv_notifications P bs s =
             Some (Ret (Block 0 (map Val_long (pending s @ interfering bs))), s') \<and>
           notif_ready s' \<and> pending s' = [] \<and> channel s' = channel s \<and> wake_inv level s'"
proof -
  let ?u = "s\<lparr>sigmask := UNIV, notification_mutex := Mutex_held\<rparr>"
  have "notification_recv s \<noteq> Null_fn" using ready by (simp add: notif_ready_def)
  then obtain ret t where call: "call_notification_recv P ?u = Some (ret, t)"
    using call_recv_Some [of ?u P] by auto
  have "channel ?u = channel s" "level (os ?u) = 1"
    using assms(3) ne by (simp_all add: wake_inv_def)
  with ch call have r: "0 \<le> ret" "level (os t) = 0" unfolding wakeup_channel_def by blast+
  from recv_spec [OF ready call fits] r obtain s' where
    s': "lwt_unix_recv_notifications P bs s = Some (Ret (Block 0 (map Val_long (pending s @ interfering bs))), s')"
    "notif_ready s'" "pending s' = []" "channel s' = channel s" by auto
  from call obtain f where "libc f ?u = (ret, t)" using call_recv_libc by blast
  note lf = libc_frame [OF this]
  have locked: "notif_locked t" and idx: "0 < notification_index t"
    using ready lf ne pending_empty_iff [of s] by (auto simp: notif_locked_def notif_ready_def)
  from s'(1) ready call r obtain i v where
    v: "recv_alloc_loop P bs t = Some (i, v)" "os s' = os v"
    by (auto simp: lwt_unix_recv_notifications_def lock_defs notif_ready_def Let_def bind_Some_iff)
  from recv_alloc_loop_quiet [OF locked idx v(1)] v(2) r(2) s' show ?thesis
    by (simp add: wake_inv_def)
qed

text \<open>
  The event loop calls the receiver only when the descriptor is readable; a poll that finds
  nothing does nothing.
\<close>

fun polled_run :: "'os posix \<Rightarrow> ('os \<Rightarrow> nat) \<Rightarrow> notif_op list \<Rightarrow> 'os notif \<Rightarrow> (unit outcome list \<times> 'os notif) option" where
  "polled_run P level [] s = Some ([], s)"
| "polled_run P level (Op_send nid # ops) s = do {
     (r, s) \<leftarrow> lwt_unix_send_notification P nid s;
     (rs, s) \<leftarrow> polled_run P level ops s;
     Some (r # rs, s)
   }"
| "polled_run P level (Op_recv bs # ops) s =
     (if level (os s) = 0 then polled_run P level ops s
      else do {
        (r, s) \<leftarrow> lwt_unix_recv_notifications P bs s;
        (rs, s) \<leftarrow> polled_run P level ops s;
        Some ((case r of Ret _ \<Rightarrow> Ret () | Raise e \<Rightarrow> Raise e) # rs, s)
      })"

lemma polled_run_wake_lemma:
  assumes "notif_ready s" "wakeup_channel P level (channel s)" "wake_inv level s"
    and "length (pending s) + sum_list (map op_size ops) < 2 ^ 31"
  shows "\<exists>rs s'. polled_run P level ops s = Some (rs, s') \<and> notif_ready s' \<and> wake_inv level s' \<and>
           set rs \<subseteq> {Ret ()}"
  using assms
proof (induction ops arbitrary: s)
  case Nil
  then show ?case by simp
next
  case (Cons op ops)
  show ?case
  proof (cases op)
    case (Op_send nid)
    from send_wake [OF Cons.prems(1-3), of nid] obtain t where
      t: "lwt_unix_send_notification P nid s = Some (Ret (), t)" "notif_ready t"
      "pending t = pending s @ [nid]" "channel t = channel s" "wake_inv level t" by blast
    from Cons.IH [OF t(2) _ t(5)] t Cons.prems Op_send show ?thesis by auto
  next
    case (Op_recv bs)
    show ?thesis
    proof (cases "pending s = []")
      case True
      with Cons.IH [OF Cons.prems(1-3)] Cons.prems Op_recv show ?thesis
        by (simp add: wake_inv_def)
    next
      case False
      from recv_wake [OF Cons.prems(1-3) False, of bs] Cons.prems(4) Op_recv obtain t where
        t: "lwt_unix_recv_notifications P bs s = Some (Ret (Block 0 (map Val_long (pending s @ interfering bs))), t)"
        "notif_ready t" "pending t = []" "channel t = channel s" "wake_inv level t" by auto
      have "level (os s) \<noteq> 0" using Cons.prems(3) False by (simp add: wake_inv_def)
      with Cons.IH [OF t(2) _ t(5)] t Cons.prems Op_recv show ?thesis by auto
    qed
  qed
qed

section \<open>Initialisation\<close>

lemma set_close_on_exec_frame:
  assumes "set_close_on_exec K P fd s = (r, s')"
  shows "notification_mutex s' = notification_mutex s" "channel s' = channel s"
    "sigmask s' = sigmask s" "pending s' = pending s" "notif_wf s' = notif_wf s"
    "notification_send s' = notification_send s" "notification_recv s' = notification_recv s"
    "notification_mode s' = notification_mode s"
  using assms
  by (auto simp: set_close_on_exec_def libc_def channel_def pending_def notif_wf_def
      split: prod.splits if_splits)

lemma init_notifications_ready:
  "notification_index s = 0 \<Longrightarrow> notif_wf (init_notifications s) \<and> pending (init_notifications s) = [] \<and>
     notification_mutex (init_notifications s) = Mutex_free"
  by (simp add: init_notifications_def notif_wf_def pending_def)

text \<open>
  What the initialisation finds: either nothing was ever initialised (the static zeros of the C
  file) or the buffer is well formed and its mutex is free.
\<close>

definition before_init :: "'os notif \<Rightarrow> bool" where
  "before_init s \<longleftrightarrow>
     (if notification_mode s = NOTIFICATION_MODE_NOT_INITIALIZED then notification_index s = 0
      else notif_wf s \<and> notification_mutex s = Mutex_free)"

lemma close_old_channel_spec:
  assumes "close_old_channel ev P s = (Ret (), t)" and "before_init s"
  shows "notif_wf t \<and> notification_mutex t = Mutex_free \<and> pending t = pending s \<and>
           notification_mode t = NOTIFICATION_MODE_NONE"
  using assms
  by (auto simp: close_old_channel_def before_init_def libc_def notif_wf_def pending_def
      init_notifications_def split: notification_mode.splits prod.splits if_splits)

lemma open_pipe_channel_spec:
  assumes "open_pipe_channel K P s = (Ret v, t)" and "notif_wf s" "notification_mutex s = Mutex_free"
  shows "notif_ready t \<and> pending t = pending s \<and> notification_mode t = NOTIFICATION_MODE_PIPE \<and>
           v = Val_int (fst (notification_fds t))"
proof -
  from assms(1) obtain fds u w e1 e2 where
    u: "libc (sys_pipe P) s = ((e1, fds), u)" "e1 \<noteq> -1"
    and w: "set_close_on_exec K P (fst fds) (u\<lparr>notification_fds := fds\<rparr>) = (Ret (), w)"
    and e2: "set_close_on_exec K P (snd fds) w = (Ret (), e2)"
    and t: "v = Val_int (fst fds)" "t = e2\<lparr>notification_mode := NOTIFICATION_MODE_PIPE,
              notification_send := Pipe_fn, notification_recv := Pipe_fn\<rparr>"
    by (auto simp: open_pipe_channel_def split: prod.splits outcome.splits if_splits)
  note f1 = libc_frame [OF u(1)] and f2 = set_close_on_exec_frame [OF w]
    and f3 = set_close_on_exec_frame [OF e2]
  have "notif_wf e2" "notification_mutex e2 = Mutex_free" "pending e2 = pending s"
    "notification_fds e2 = fds"
    using f1 f2 f3 assms(2,3) by (simp_all add: channel_def notif_wf_def pending_def)
  with t show ?thesis by (simp add: notif_ready_def notif_wf_def pending_def)
qed

lemma init_notification_spec:
  assumes "lwt_unix_init_notification ev K P s = (Ret v, t)" and "before_init s"
  shows "notif_ready t \<and> pending t = pending s \<and>
           (notification_mode t = NOTIFICATION_MODE_EVENTFD \<and> v = Val_int (notification_fd t) \<or>
            notification_mode t = NOTIFICATION_MODE_PIPE \<and> v = Val_int (fst (notification_fds t)))"
proof -
  from assms(1) obtain u where u: "close_old_channel ev P s = (Ret (), u)"
    by (auto simp: lwt_unix_init_notification_def split: prod.splits outcome.splits)
  note cu = close_old_channel_spec [OF u assms(2)]
  show ?thesis
  proof (cases "ev \<and> fst (libc (sys_eventfd P) u) \<noteq> -1")
    case True
    obtain fd w where w: "libc (sys_eventfd P) u = (fd, w)" by (cases "libc (sys_eventfd P) u")
    let ?w = "w\<lparr>notification_fd := fd, notification_mode := NOTIFICATION_MODE_EVENTFD,
                notification_send := Eventfd_fn, notification_recv := Eventfd_fn\<rparr>"
    from assms(1) True u w have e: "set_close_on_exec K P fd ?w = (Ret (), t)" "v = Val_int fd"
      by (auto simp: lwt_unix_init_notification_def Let_def split: prod.splits outcome.splits)
    note f1 = libc_frame [OF w] and f2 = set_close_on_exec_frame [OF e(1)]
    have fdt: "notification_fd t = fd" using f2(2) by (simp add: channel_def)
    show ?thesis
      using f1 f2 fdt e(2) cu by (simp add: notif_ready_def notif_wf_def pending_def)
  next
    case False
    then obtain w where w: "open_pipe_channel K P w = (Ret v, t)" "notif_wf w"
      "notification_mutex w = Mutex_free" "pending w = pending s"
    proof (cases ev)
      case True
      obtain fd x where x: "libc (sys_eventfd P) u = (fd, x)" by (cases "libc (sys_eventfd P) u")
      note f1 = libc_frame [OF x]
      have "open_pipe_channel K P (x\<lparr>notification_fd := fd\<rparr>) = (Ret v, t)"
        using assms(1) True False u x by (auto simp: lwt_unix_init_notification_def Let_def)
      then show ?thesis
        using that f1 cu by (simp add: notif_wf_def pending_def)
    next
      case False
      then have "open_pipe_channel K P u = (Ret v, t)"
        using assms(1) u by (simp add: lwt_unix_init_notification_def)
      then show ?thesis using that cu by simp
    qed
    from open_pipe_channel_spec [OF w(1-3)] w(4) show ?thesis by simp
  qed
qed

section \<open>A concrete world\<close>

text \<open>
  A world with one pipe, descriptors 3 and 4, that holds a number of bytes; there is no eventfd.
  It shows that the hypotheses about the system calls can hold.
\<close>

definition pipe_world :: "nat posix" where
  "pipe_world =
     \<lparr>sys_write = (\<lambda>fd bs e w. if fd = 4 then (int (length bs), e, w + length bs) else (-1, 9, w)),
      sys_read = (\<lambda>fd n e w. if fd = 3 \<and> 0 < w then (1, e, w - 1) else (-1, 9, w)),
      sys_close = (\<lambda>fd e w. (0, e, w)),
      sys_eventfd = (\<lambda>e w. (-1, 22, w)),
      sys_pipe = (\<lambda>e w. ((0, 3, 4), e, 0)),
      sys_getfd = (\<lambda>fd e w. (0, e, w)),
      sys_setfd = (\<lambda>fd f e w. (0, e, w))\<rparr>"

text \<open>The same world with a pipe that refuses every write.\<close>

definition broken_world :: "nat posix" where
  "broken_world = pipe_world\<lparr>sys_write := (\<lambda>fd bs e w. (-1, 32, w))\<rparr>"

text \<open>A small buffer over that pipe, with \<open>xs\<close> pending.\<close>

definition pipe_notif :: "int list \<Rightarrow> nat notif" where
  "pipe_notif xs =
     \<lparr>notification_mutex = Mutex_free, notifications = xs @ [0], notification_count = Suc (length xs),
      notification_index = length xs, notification_mode = NOTIFICATION_MODE_PIPE,
      notification_send = Pipe_fn, notification_recv = Pipe_fn, notification_fd = -1,
      notification_fds = (3, 4), sigmask = {}, errno = 0,
      os = (if xs = [] then 0 else 1), cell_junk = (\<lambda>_. 0)\<rparr>"

text \<open>The static variables before any initialisation.\<close>

definition static_notif :: "nat notif" where
  "static_notif =
     \<lparr>notification_mutex = Mutex_uninit, notifications = [], notification_count = 0,
      notification_index = 0, notification_mode = NOTIFICATION_MODE_NOT_INITIALIZED,
      notification_send = Null_fn, notification_recv = Null_fn, notification_fd = 0,
      notification_fds = (0, 0), sigmask = {}, errno = 0, os = 0, cell_junk = (\<lambda>_. 0)\<rparr>"

lemma pipe_notif_ready: "notif_ready (pipe_notif xs)" "pending (pipe_notif xs) = xs"
  "wake_inv (\<lambda>w. w) (pipe_notif xs)"
  by (simp_all add: pipe_notif_def notif_ready_def notif_wf_def pending_def wake_inv_def)

lemma pipe_world_channel: "wakeup_channel pipe_world (\<lambda>w. w) (channel (pipe_notif xs))"
  by (auto simp: wakeup_channel_def channel_def pipe_notif_def pipe_world_def libc_def
      call_notification_send_def call_notification_recv_def
      pipe_notification_send_def pipe_notification_recv_def)

section \<open>Properties\<close>

text \<open>
  C1. Notifications are delivered exactly once and in order: in every run of sends and receives,
  with any interference by other threads while a receive has released the mutex and whatever the
  system calls answer, what was received followed by what is still pending is what was pending
  at the start followed by what was sent. The run always completes (no access out of the buffer,
  no deadlock, the allocation loop ends) as long as fewer than \<open>2 ^ 31\<close> notifications are involved.
\<close>

theorem notifications_fifo:
  assumes "notif_ready s" and "length (pending s) + sum_list (map op_size ops) < 2 ^ 31"
  shows "\<exists>sent received s'. notif_run P ops s = Some (sent, received, s') \<and> notif_ready s' \<and>
           received @ map Val_long (pending s') = map Val_long (pending s @ sent)"
  using assms by (rule notif_run_fifo_lemma)

theorem notifications_fifo_witness:
  "notif_ready (pipe_notif [7]) \<and>
   (\<exists>sent received s'.
      notif_run pipe_world [Op_send 8, Op_recv [[9], []], Op_send 10] (pipe_notif [7]) = Some (sent, received, s') \<and>
      notif_ready s' \<and>
      received @ map Val_long (pending s') = map Val_long (pending (pipe_notif [7]) @ sent))"
  using notifications_fifo [of "pipe_notif [7]" "[Op_send 8, Op_recv [[9], []], Op_send 10]" pipe_world]
  by (simp add: pipe_notif_ready)

text \<open>
  One send: it returns on every path, error included, with the mutex free again and the
  signal mask of the caller restored; the id is the last pending one (the buffer has been
  doubled when it was full); and the wake-up descriptor is written to only when nothing was
  pending.
\<close>

theorem send_notification_correct:
  assumes "notif_ready s"
  shows "\<exists>r s'. lwt_unix_send_notification P nid s = Some (r, s') \<and> notif_ready s' \<and>
           pending s' = pending s @ [nid] \<and> sigmask s' = sigmask s \<and>
           (pending s \<noteq> [] \<longrightarrow> r = Ret () \<and> os s' = os s)"
proof (cases "notification_index s = 0")
  case True
  with send_when_empty [OF assms True, of P nid] show ?thesis by (auto simp: pending_def)
next
  case False
  with send_when_pending [OF assms, of P nid] show ?thesis by auto
qed

theorem send_notification_correct_witness:
  "\<exists>r s'. lwt_unix_send_notification pipe_world 5 (pipe_notif [7]) = Some (r, s') \<and> notif_ready s' \<and>
     pending s' = pending (pipe_notif [7]) @ [5] \<and> sigmask s' = sigmask (pipe_notif [7]) \<and>
     (pending (pipe_notif [7]) \<noteq> [] \<longrightarrow> r = Ret () \<and> os s' = os (pipe_notif [7]))"
  using send_notification_correct [OF pipe_notif_ready(1)] .

text \<open>
  C12. No lost wake-up: if writing to an idle descriptor succeeds and reading a readable one
  consumes its wake-up, then along every run in which the event loop receives only when the
  descriptor is readable, no operation raises, and at the end the descriptor is readable exactly
  when a notification is pending; it never holds more than one wake-up, so a send never blocks.
\<close>

theorem no_lost_wakeup:
  assumes "notif_ready s" "wakeup_channel P level (channel s)" "wake_inv level s"
    and "length (pending s) + sum_list (map op_size ops) < 2 ^ 31"
  shows "\<exists>rs s'. polled_run P level ops s = Some (rs, s') \<and> notif_ready s' \<and> wake_inv level s' \<and>
           set rs \<subseteq> {Ret ()}"
  using assms by (rule polled_run_wake_lemma)

theorem no_lost_wakeup_witness:
  "\<exists>rs s'. polled_run pipe_world (\<lambda>w. w) [Op_send 8, Op_recv [[9]], Op_recv [], Op_send 1] (pipe_notif [])
       = Some (rs, s') \<and> notif_ready s' \<and> wake_inv (\<lambda>w. w) s' \<and> set rs \<subseteq> {Ret ()}"
  using no_lost_wakeup [OF pipe_notif_ready(1) pipe_world_channel pipe_notif_ready(3), of "[]"
      "[Op_send 8, Op_recv [[9]], Op_recv [], Op_send 1]"]
  by (simp add: pipe_notif_ready)

text \<open>
  A failed wake-up is not retried: when the write of the first send fails, the exception is
  raised but the id stays in the buffer, so every later send finds a pending notification and
  leaves the descriptor alone; the main thread is not woken until something else makes it receive.
\<close>

theorem failed_send_silences_later_sends:
  assumes "notif_ready s" "pending s = []"
    and "lwt_unix_send_notification P nid s = Some (Raise e, s')"
  shows "pending s' = [nid] \<and> (\<exists>t. send_all P ids s' = Some t \<and> os t = os s' \<and> pending t = nid # ids)"
proof -
  have idx: "notification_index s = 0"
    using assms(1,2) by (simp add: pending_empty_iff notif_ready_def)
  from send_when_empty [OF assms(1) idx, of P nid] assms(3)
  have "notif_ready s'" "pending s' = [nid]" "notification_index s' = 1" by auto
  with send_all_quiet [of s' P ids] show ?thesis by auto
qed

theorem failed_send_silences_later_sends_witness:
  "\<exists>s'. lwt_unix_send_notification broken_world 5 (pipe_notif []) =
          Some (Raise (Unix_error 32 ''send_notification'' Nothing), s') \<and>
        pending s' = [5] \<and> (\<exists>t. send_all broken_world [6, 7] s' = Some t \<and> os t = os s' \<and> pending t = [5, 6, 7])"
proof -
  let ?s' = "(pipe_notif [])\<lparr>notifications := [5], notification_index := 1, errno := 32\<rparr>"
  have "lwt_unix_send_notification broken_world 5 (pipe_notif []) =
          Some (Raise (Unix_error 32 ''send_notification'' Nothing), ?s')"
    by (simp add: lwt_unix_send_notification_def lock_defs store_notification_def pipe_notif_def
        call_notification_send_def pipe_notification_send_def libc_def broken_world_def Let_def)
  moreover from failed_send_silences_later_sends [OF pipe_notif_ready(1) pipe_notif_ready(2) this, of "[6, 7]"]
  have "pending ?s' = [5] \<and> (\<exists>t. send_all broken_world [6, 7] ?s' = Some t \<and> os t = os ?s' \<and> pending t = [5, 6, 7])" .
  ultimately show ?thesis by blast
qed

text \<open>
  Initialisation: whatever channel was open before, a call that returns leaves the component
  ready to send and receive through a fresh eventfd or pipe, whose read descriptor is the value
  returned to OCaml.
\<close>

theorem init_notification_ready:
  assumes "lwt_unix_init_notification ev K P s = (Ret v, t)" and "before_init s"
  shows "notif_ready t \<and>
           (notification_mode t = NOTIFICATION_MODE_EVENTFD \<and> v = Val_int (notification_fd t) \<or>
            notification_mode t = NOTIFICATION_MODE_PIPE \<and> v = Val_int (fst (notification_fds t)))"
  using init_notification_spec [OF assms] by blast

theorem init_notification_ready_witness:
  "\<exists>t. lwt_unix_init_notification True (\<lambda>_. 1) pipe_world static_notif = (Ret (Val_int 3), t) \<and>
       notif_ready t \<and>
       (notification_mode t = NOTIFICATION_MODE_EVENTFD \<and> Val_int 3 = Val_int (notification_fd t) \<or>
        notification_mode t = NOTIFICATION_MODE_PIPE \<and> Val_int 3 = Val_int (fst (notification_fds t)))"
proof -
  have b: "before_init static_notif" by (simp add: before_init_def static_notif_def)
  obtain t where t: "lwt_unix_init_notification True (\<lambda>_. 1) pipe_world static_notif = (Ret (Val_int 3), t)"
    by (simp add: lwt_unix_init_notification_def close_old_channel_def static_notif_def pipe_world_def
        libc_def open_pipe_channel_def set_close_on_exec_def Let_def init_notifications_def
        del: upt_rec_numeral)
  from init_notification_ready [OF t b] t show ?thesis by blast
qed

text \<open>
  Initialising again while notifications are pending (the child after a fork) keeps them in
  the buffer without a wake-up in the new descriptor: every later send then leaves the new
  descriptor alone, so it does not become readable.
\<close>

theorem reinit_keeps_stale_pending:
  assumes "lwt_unix_init_notification ev K P s = (Ret v, t)" and "before_init s" and "pending s \<noteq> []"
  shows "pending t = pending s \<and> (\<exists>u. send_all P ids t = Some u \<and> os u = os t \<and> pending u = pending s @ ids)"
proof -
  from init_notification_spec [OF assms(1,2)] have t: "notif_ready t" "pending t = pending s" by auto
  then have "0 < notification_index t"
    using assms(3) pending_empty_iff [of t] by (auto simp: notif_ready_def)
  from send_all_quiet [OF t(1) this, of P ids] t(2) show ?thesis by auto
qed

theorem reinit_keeps_stale_pending_witness:
  "\<exists>t. lwt_unix_init_notification False (\<lambda>_. 1) pipe_world (pipe_notif [7]) = (Ret (Val_int 3), t) \<and>
       os t = 0 \<and> pending t = [7] \<and>
       (\<exists>u. send_all pipe_world [8, 9] t = Some u \<and> os u = os t \<and> pending u = [7] @ [8, 9])"
proof -
  have b: "before_init (pipe_notif [7])"
    using pipe_notif_ready(1) [of "[7]"] by (simp add: before_init_def notif_ready_def pipe_notif_def)
  obtain t where t: "lwt_unix_init_notification False (\<lambda>_. 1) pipe_world (pipe_notif [7]) = (Ret (Val_int 3), t)"
    "os t = 0"
    by (simp add: lwt_unix_init_notification_def close_old_channel_def pipe_notif_def pipe_world_def
        libc_def open_pipe_channel_def set_close_on_exec_def Let_def)
  from reinit_keeps_stale_pending [OF t(1) b, of "[8, 9]"] t show ?thesis
    by (simp add: pipe_notif_ready)
qed

end
