(* ===== verification/Signals.thy ===== *)
theory Signals
  imports Notifications
begin

text \<open>
  Signal handling of \<^verbatim>\<open>src/src/unix/lwt_unix_stubs.c\<close> (the POSIX branches): the table of the
  notification id of every monitored signal, the handler that turns a signal into a notification,
  and the stubs that install and remove it. The table has \<^verbatim>\<open>NSIG\<close> cells; \<open>-1\<close> marks a signal that is
  not monitored. The handler is a client of the notification mailbox of theory \<open>Notifications\<close>.

  \<^verbatim>\<open>caml_convert_signal_number\<close> (the OCaml runtime) and \<^verbatim>\<open>sigaction\<close> are parameters.
\<close>

section \<open>State\<close>

record 'os sigst =
  signal_notifications :: "int list"
  nstate :: "'os notif"

text \<open>What \<^verbatim>\<open>sa_handler\<close> is set to.\<close>

datatype sa_handler = Handle_signal | SIG_DFL

type_synonym 'os sigaction = "int \<Rightarrow> sa_handler \<Rightarrow> int \<Rightarrow> ('os, int) syscall"

definition NSIG :: "'os sigst \<Rightarrow> int" where
  "NSIG st = int (length (signal_notifications st))"

text \<open>A write to the table; an index out of range is undefined behaviour.\<close>

definition set_entry :: "int \<Rightarrow> int \<Rightarrow> 'os sigst \<Rightarrow> 'os sigst option" where
  "set_entry signum v st =
     (if 0 \<le> signum \<and> signum < NSIG st
      then Some (st\<lparr>signal_notifications := (signal_notifications st)[nat signum := v]\<rparr>) else None)"

section \<open>Operations\<close>

definition handle_signal :: "'os posix \<Rightarrow> int \<Rightarrow> 'os sigst \<Rightarrow> (unit outcome \<times> 'os sigst) option" where
  "handle_signal P signum st =
     (if 0 \<le> signum \<and> signum < NSIG st then do {
        let nid = signal_notifications st ! nat signum;
        if nid \<noteq> -1 then do {
          (r, n) \<leftarrow> lwt_unix_send_notification P nid (nstate st);
          Some (r, st\<lparr>nstate := n\<rparr>)
        } else Some (Ret (), st)
      } else Some (Ret (), st))"

definition lwt_unix_handle_signal ::
    "(int \<Rightarrow> int) \<Rightarrow> 'os posix \<Rightarrow> int \<Rightarrow> 'os sigst \<Rightarrow> (caml_value outcome \<times> 'os sigst) option" where
  "lwt_unix_handle_signal convert P val_signum st = do {
     (r, st) \<leftarrow> handle_signal P (convert (c_int val_signum)) st;
     Some (case r of Ret _ \<Rightarrow> Ret Val_unit | Raise e \<Rightarrow> Raise e, st)
   }"

text \<open>\<open>ocaml5\<close>: whether the runtime is OCaml 5, where the handler runs on the alternate stack.\<close>

definition lwt_unix_set_signal ::
    "(string \<Rightarrow> int) \<Rightarrow> bool \<Rightarrow> (int \<Rightarrow> int) \<Rightarrow> 'os sigaction \<Rightarrow> int \<Rightarrow> int \<Rightarrow> bool \<Rightarrow> 'os sigst
       \<Rightarrow> (caml_value outcome \<times> 'os sigst) option" where
  "lwt_unix_set_signal K ocaml5 convert sigaction val_signum val_notification val_forwarded st = do {
     let signum = convert (c_int val_signum);
     let notification = c_long val_notification;
     if signum < 0 \<or> signum \<ge> NSIG st then
       Some (Raise (Invalid_argument ''Lwt_unix.on_signal: unavailable signal''), st)
     else do {
       st \<leftarrow> set_entry signum notification st;
       if val_forwarded then Some (Ret Val_unit, st)
       else do {
         let (r, n) = libc (sigaction signum Handle_signal (if ocaml5 then K ''SA_ONSTACK'' else 0)) (nstate st);
         let st = st\<lparr>nstate := n\<rparr>;
         if r = -1 then do {
           st \<leftarrow> set_entry signum (-1) st;
           Some (Raise (Unix_error (errno n) ''sigaction'' Nothing), st)
         } else Some (Ret Val_unit, st)
       }
     }
   }"

definition lwt_unix_remove_signal ::
    "(int \<Rightarrow> int) \<Rightarrow> 'os sigaction \<Rightarrow> int \<Rightarrow> bool \<Rightarrow> 'os sigst \<Rightarrow> (caml_value outcome \<times> 'os sigst) option" where
  "lwt_unix_remove_signal convert sigaction val_signum val_forwarded st = do {
     let signum = convert (c_int val_signum);
     st \<leftarrow> set_entry signum (-1) st;
     if val_forwarded then Some (Ret Val_unit, st)
     else do {
       let (_, n) = libc (sigaction signum SIG_DFL 0) (nstate st);
       Some (Ret Val_unit, st\<lparr>nstate := n\<rparr>)
     }
   }"

text \<open>\<^verbatim>\<open>for (i = 0; i < NSIG; i++) signal_notifications[i] = -1\<close>\<close>

fun clear_entries :: "nat \<Rightarrow> int list \<Rightarrow> int list" where
  "clear_entries 0 t = t"
| "clear_entries (Suc i) t = (clear_entries i t)[i := -1]"

definition lwt_unix_init_signals :: "'os sigst \<Rightarrow> caml_value outcome \<times> 'os sigst" where
  "lwt_unix_init_signals st =
     (Ret Val_unit,
      st\<lparr>signal_notifications := clear_entries (length (signal_notifications st)) (signal_notifications st)\<rparr>)"

section \<open>Lemmas\<close>

definition sig_ready :: "'os sigst \<Rightarrow> bool" where
  "sig_ready st \<longleftrightarrow> notif_ready (nstate st)"

lemma length_clear_entries [simp]: "length (clear_entries n t) = length t"
  by (induction n) simp_all

lemma clear_entries_nth:
  "n \<le> length t \<Longrightarrow> i < length t \<Longrightarrow> clear_entries n t ! i = (if i < n then -1 else t ! i)"
  by (induction n) (auto simp: nth_list_update)

lemma libc_ready: "libc f n = (r, n') \<Longrightarrow> notif_ready n \<Longrightarrow> notif_ready n' \<and> pending n' = pending n"
  using libc_frame [of f n r n'] by (simp add: notif_ready_def)

lemma handle_signal_monitored:
  assumes "sig_ready st" "0 \<le> signum" "signum < NSIG st" "signal_notifications st ! nat signum \<noteq> -1"
  shows "\<exists>r st'. handle_signal P signum st = Some (r, st') \<and> sig_ready st' \<and>
           signal_notifications st' = signal_notifications st \<and>
           pending (nstate st') = pending (nstate st) @ [signal_notifications st ! nat signum]"
proof -
  from assms(1) have "notif_ready (nstate st)" by (simp add: sig_ready_def)
  then obtain r n where
    "lwt_unix_send_notification P (signal_notifications st ! nat signum) (nstate st) = Some (r, n)"
    "notif_ready n" "pending n = pending (nstate st) @ [signal_notifications st ! nat signum]"
    by (rule send_spec)
  with assms show ?thesis by (simp add: handle_signal_def sig_ready_def)
qed

lemma handle_signal_ignored:
  "\<not> (0 \<le> signum \<and> signum < NSIG st \<and> signal_notifications st ! nat signum \<noteq> -1) \<Longrightarrow>
     handle_signal P signum st = Some (Ret (), st)"
  by (auto simp: handle_signal_def)

text \<open>Whatever \<^verbatim>\<open>lwt_unix_set_signal\<close> does, the entry of its signal is the new id or \<open>-1\<close>, and no other changes.\<close>

lemma set_signal_cases:
  assumes "lwt_unix_set_signal K o5 convert sa v nid fwd st = Some (r, st')" "sig_ready st"
  shows "sig_ready st' \<and> pending (nstate st') = pending (nstate st) \<and>
    (if convert (c_int v) < 0 \<or> convert (c_int v) \<ge> NSIG st
     then r = Raise (Invalid_argument ''Lwt_unix.on_signal: unavailable signal'') \<and> st' = st
     else signal_notifications st' = (signal_notifications st)
            [nat (convert (c_int v)) := (case r of Ret _ \<Rightarrow> c_long nid | Raise _ \<Rightarrow> -1)])"
proof (cases "convert (c_int v) < 0 \<or> convert (c_int v) \<ge> NSIG st")
  case True
  with assms show ?thesis by (auto simp: lwt_unix_set_signal_def Let_def)
next
  case False
  obtain a n where call: "libc (sa (convert (c_int v)) Handle_signal (if o5 then K ''SA_ONSTACK'' else 0)) (nstate st) = (a, n)"
    by (meson prod.exhaust)
  from libc_ready [OF call] assms(2) have "notif_ready n" "pending n = pending (nstate st)"
    by (simp_all add: sig_ready_def)
  with False assms call show ?thesis
    by (auto simp: lwt_unix_set_signal_def set_entry_def NSIG_def sig_ready_def Let_def split: if_splits)
qed

lemma remove_signal_spec:
  assumes "0 \<le> convert (c_int v)" "convert (c_int v) < NSIG st"
  shows "\<exists>st'. lwt_unix_remove_signal convert sa v fwd st = Some (Ret Val_unit, st') \<and>
           signal_notifications st' = (signal_notifications st)[nat (convert (c_int v)) := -1]"
  using assms
  by (cases fwd; cases "libc (sa (convert (c_int v)) SIG_DFL 0) (nstate st)")
    (simp_all add: lwt_unix_remove_signal_def set_entry_def Let_def)

section \<open>Properties\<close>

text \<open>
  C15. From registration to delivery: once \<^verbatim>\<open>lwt_unix_set_signal\<close> has returned for a signal, its
  arrival sends exactly the registered notification id, appended to the pending ones; no other
  signal's entry has changed; and after \<^verbatim>\<open>lwt_unix_remove_signal\<close> the arrival of the signal sends
  nothing.
\<close>

theorem signal_delivery:
  assumes "sig_ready st" and "c_long nid \<noteq> -1"
    and "lwt_unix_set_signal K o5 convert sa v nid fwd st = Some (Ret u, st')"
  shows "(\<exists>r st2. handle_signal P (convert (c_int v)) st' = Some (r, st2) \<and>
            pending (nstate st2) = pending (nstate st) @ [c_long nid]) \<and>
         (\<forall>i. i \<noteq> nat (convert (c_int v)) \<longrightarrow> signal_notifications st' ! i = signal_notifications st ! i) \<and>
         (\<exists>st3. lwt_unix_remove_signal convert sa v fwd2 st' = Some (Ret Val_unit, st3) \<and>
            handle_signal P (convert (c_int v)) st3 = Some (Ret (), st3))"
proof -
  let ?n = "convert (c_int v)"
  note sc = set_signal_cases [OF assms(3,1)]
  have rng: "0 \<le> ?n" "?n < NSIG st"
    using sc by (auto split: if_splits)
  with sc have tab: "signal_notifications st' = (signal_notifications st)[nat ?n := c_long nid]"
    and ready: "sig_ready st'" and pd: "pending (nstate st') = pending (nstate st)" by auto
  have at: "signal_notifications st' ! nat ?n = c_long nid" and len: "NSIG st' = NSIG st"
    using tab rng by (simp_all add: NSIG_def)
  from handle_signal_monitored [OF ready rng(1), of P] rng(2) len at pd assms(2)
  have 1: "\<exists>r st2. handle_signal P ?n st' = Some (r, st2) \<and>
             pending (nstate st2) = pending (nstate st) @ [c_long nid]" by auto
  have 2: "\<forall>i. i \<noteq> nat ?n \<longrightarrow> signal_notifications st' ! i = signal_notifications st ! i"
    using tab by simp
  from remove_signal_spec [of convert v st' sa fwd2] rng len obtain st3 where
    st3: "lwt_unix_remove_signal convert sa v fwd2 st' = Some (Ret Val_unit, st3)"
    "signal_notifications st3 = (signal_notifications st')[nat ?n := -1]" by auto
  have "handle_signal P ?n st3 = Some (Ret (), st3)"
    using st3(2) rng len by (intro handle_signal_ignored) (simp add: NSIG_def)
  with 1 2 st3 show ?thesis by blast
qed

theorem signal_delivery_witness:
  "\<exists>st'. lwt_unix_set_signal (\<lambda>_. 0) True (\<lambda>n. - n) (\<lambda>_ _ _ e w. (0, e, w)) (-2) 40 False
           \<lparr>signal_notifications = [-1, -1, -1, -1], nstate = pipe_notif []\<rparr> = Some (Ret Val_unit, st') \<and>
         (\<exists>r st2. handle_signal pipe_world 2 st' = Some (r, st2) \<and> pending (nstate st2) = [40])"
proof -
  let ?st = "\<lparr>signal_notifications = [-1, -1, -1, -1], nstate = pipe_notif []\<rparr>"
  let ?st' = "\<lparr>signal_notifications = [-1, -1, 40, -1], nstate = pipe_notif []\<rparr>"
  have r: "sig_ready ?st" by (simp add: sig_ready_def pipe_notif_ready)
  have ids: "c_long 40 = 40" "c_int (-2) = -2" by (simp_all add: c_long_id c_int_id)
  then have nz: "c_long 40 \<noteq> -1" by simp
  have s: "lwt_unix_set_signal (\<lambda>_. 0) True (\<lambda>n. - n) (\<lambda>_ _ _ e w. (0, e, w)) (-2) 40 False ?st
             = Some (Ret Val_unit, ?st')"
    using ids by (simp add: lwt_unix_set_signal_def set_entry_def NSIG_def libc_def Let_def)
  from signal_delivery [OF r nz s, of pipe_world False] ids s show ?thesis
    by (simp add: pipe_notif_ready)
qed

text \<open>
  The signal handler is total: for every signal number, in the table or not, it returns
  without leaving the table, and an unmonitored signal has no effect; after
  \<^verbatim>\<open>lwt_unix_init_signals\<close> no signal is monitored.
\<close>

theorem handle_signal_total:
  assumes "sig_ready st"
  shows "(\<exists>r st'. handle_signal P signum st = Some (r, st') \<and> sig_ready st' \<and>
            signal_notifications st' = signal_notifications st) \<and>
         handle_signal P signum (snd (lwt_unix_init_signals st)) =
           Some (Ret (), snd (lwt_unix_init_signals st))"
proof
  show "\<exists>r st'. handle_signal P signum st = Some (r, st') \<and> sig_ready st' \<and>
          signal_notifications st' = signal_notifications st"
  proof (cases "0 \<le> signum \<and> signum < NSIG st \<and> signal_notifications st ! nat signum \<noteq> -1")
    case True
    with handle_signal_monitored [OF assms, of signum P] show ?thesis by auto
  next
    case False
    with handle_signal_ignored [OF False, of P] assms show ?thesis by auto
  qed
  show "handle_signal P signum (snd (lwt_unix_init_signals st)) =
          Some (Ret (), snd (lwt_unix_init_signals st))"
    by (rule handle_signal_ignored)
      (auto simp: lwt_unix_init_signals_def NSIG_def clear_entries_nth nat_less_iff)
qed

theorem handle_signal_total_witness:
  "\<exists>r st'. handle_signal pipe_world 99 \<lparr>signal_notifications = [3, 4], nstate = pipe_notif []\<rparr> = Some (r, st') \<and>
     sig_ready st' \<and> signal_notifications st' = [3, 4]"
  using handle_signal_total [of "\<lparr>signal_notifications = [3, 4], nstate = pipe_notif []\<rparr>" pipe_world 99]
  by (simp add: sig_ready_def pipe_notif_ready)

end
