(* ===== verification/Job_Struct.thy ===== *)
theory Job_Struct
  imports Runtime
begin

text \<open>
  \<^verbatim>\<open>struct lwt_unix_job\<close> of \<^verbatim>\<open>src/src/unix/lwt_unix.h\<close>: the header that every job structure starts
  with. A C structure \<^verbatim>\<open>struct job_X\<close> whose first member is \<^verbatim>\<open>struct lwt_unix_job job\<close> is a record that
  extends \<open>lwt_unix_job\<close>, so a pointer to it is at the same time a pointer to its header, as in C.
\<close>

datatype lwt_unix_async_method =
    LWT_UNIX_ASYNC_METHOD_NONE
  | LWT_UNIX_ASYNC_METHOD_DETACH
  | LWT_UNIX_ASYNC_METHOD_SWITCH

datatype lwt_unix_job_state =
    LWT_UNIX_JOB_STATE_PENDING
  | LWT_UNIX_JOB_STATE_RUNNING
  | LWT_UNIX_JOB_STATE_DONE

text \<open>The values of the enumeration are ordered as C orders them; a job goes through them in this order.\<close>

primrec job_state_value :: "lwt_unix_job_state \<Rightarrow> nat" where
  "job_state_value LWT_UNIX_JOB_STATE_PENDING = 0"
| "job_state_value LWT_UNIX_JOB_STATE_RUNNING = 1"
| "job_state_value LWT_UNIX_JOB_STATE_DONE = 2"

instantiation lwt_unix_job_state :: linorder
begin

definition less_eq_lwt_unix_job_state :: "lwt_unix_job_state \<Rightarrow> lwt_unix_job_state \<Rightarrow> bool" where
  "less_eq_lwt_unix_job_state a b \<longleftrightarrow> job_state_value a \<le> job_state_value b"

definition less_lwt_unix_job_state :: "lwt_unix_job_state \<Rightarrow> lwt_unix_job_state \<Rightarrow> bool" where
  "less_lwt_unix_job_state a b \<longleftrightarrow> job_state_value a < job_state_value b"

instance
proof
  fix x y :: lwt_unix_job_state
  show "x \<le> y \<Longrightarrow> y \<le> x \<Longrightarrow> x = y"
    by (cases x; cases y) (simp_all add: less_eq_lwt_unix_job_state_def)
qed (auto simp: less_eq_lwt_unix_job_state_def less_lwt_unix_job_state_def)

end

lemma job_state_bounds [simp]: "LWT_UNIX_JOB_STATE_PENDING \<le> st" "st \<le> LWT_UNIX_JOB_STATE_DONE"
  by (cases st; simp add: less_eq_lwt_unix_job_state_def)+

text \<open>
  Pointers are addresses; the null pointer is \<open>None\<close>. The two function pointers hold the name of
  the function they point to.
\<close>

record lwt_unix_job =
  next_job :: "nat option"
  notification_id :: int
  worker_fn :: string
  result_fn :: string
  job_state :: lwt_unix_job_state
  fast :: int
  job_mutex :: mutex
  async_method :: lwt_unix_async_method

type_synonym 'x job_heap = "nat \<rightharpoonup> 'x lwt_unix_job_scheme"

text \<open>\<^verbatim>\<open>p->field = v\<close> for a job pointer; \<open>None\<close> when \<open>p\<close> does not point to a live job.\<close>

definition upd_job :: "nat \<Rightarrow> ('x lwt_unix_job_scheme \<Rightarrow> 'x lwt_unix_job_scheme) \<Rightarrow> 'x job_heap \<Rightarrow> 'x job_heap option" where
  "upd_job p f h = map_option (\<lambda>j. h(p \<mapsto> f j)) (h p)"

text \<open>
  \<^verbatim>\<open>lwt_unix_free_job\<close>: destroy the mutex unless the job ran synchronously, then free the structure.
\<close>

definition lwt_unix_free_job :: "nat \<Rightarrow> 'x job_heap \<Rightarrow> 'x job_heap option" where
  "lwt_unix_free_job p h = do {
     job \<leftarrow> h p;
     if async_method job \<noteq> LWT_UNIX_ASYNC_METHOD_NONE then do {
       _ \<leftarrow> mutex_destroy (job_mutex job);
       Some (h(p := None))
     } else Some (h(p := None))
   }"

lemma lwt_unix_free_job_sync [simp]:
  "h p = Some job \<Longrightarrow> async_method job = LWT_UNIX_ASYNC_METHOD_NONE \<Longrightarrow>
     lwt_unix_free_job p h = Some (h(p := None))"
  by (simp add: lwt_unix_free_job_def)

lemma lwt_unix_free_job_async [simp]:
  "h p = Some job \<Longrightarrow> job_mutex job = Mutex_free \<Longrightarrow> lwt_unix_free_job p h = Some (h(p := None))"
  by (simp add: lwt_unix_free_job_def)

lemma upd_job_Some [simp]: "h p = Some j \<Longrightarrow> upd_job p f h = Some (h(p \<mapsto> f j))"
  by (simp add: upd_job_def)

lemma upd_job_dom: "upd_job p f h = Some h' \<Longrightarrow> dom h' = dom h"
  by (auto simp: upd_job_def split: if_splits)

end
