(* ===== verification/Job_Queue.thy ===== *)
theory Job_Queue
  imports Job_Struct
begin

text \<open>
  The queue of pending jobs of \<^verbatim>\<open>src/src/unix/lwt_unix_stubs.c\<close>: a circular singly linked list
  threaded through the \<^verbatim>\<open>next\<close> fields of the jobs. \<^verbatim>\<open>pool_queue\<close> is \<^verbatim>\<open>NULL\<close> or points to the last job
  that was added, whose \<^verbatim>\<open>next\<close> is the first one. The two code sequences that add a job
  (\<^verbatim>\<open>lwt_unix_start_job\<close>) and take one (\<^verbatim>\<open>worker_loop\<close>) are shown to implement a FIFO queue: the
  locale \<open>fifo\<close> states that interface and the interpretation \<open>jq\<close> discharges it for the pointers.
\<close>

section \<open>Operations\<close>

text \<open>Add the job at the end of the queue.\<close>

definition enqueue_job :: "nat \<Rightarrow> 'x job_heap \<times> nat option \<Rightarrow> ('x job_heap \<times> nat option) option" where
  "enqueue_job job hq = (case hq of (h, pool_queue) \<Rightarrow>
     (case pool_queue of
        None \<Rightarrow> do {
          h \<leftarrow> upd_job job (\<lambda>j. j\<lparr>next_job := Some job\<rparr>) h;
          Some (h, Some job)
        }
      | Some p \<Rightarrow> do {
          pj \<leftarrow> h p;
          h \<leftarrow> upd_job job (\<lambda>j. j\<lparr>next_job := next_job pj\<rparr>) h;
          h \<leftarrow> upd_job p (\<lambda>j. j\<lparr>next_job := Some job\<rparr>) h;
          Some (h, Some job)
        }))"

text \<open>Take the first queued job and remove it from the queue; \<^verbatim>\<open>pool_queue\<close> is not null here.\<close>

definition dequeue_job :: "'x job_heap \<times> nat option \<Rightarrow> (nat \<times> 'x job_heap \<times> nat option) option" where
  "dequeue_job hq = (case hq of (h, pool_queue) \<Rightarrow> do {
     p \<leftarrow> pool_queue;
     pj \<leftarrow> h p;
     job \<leftarrow> next_job pj;
     jj \<leftarrow> h job;
     if next_job jj = Some job then Some (job, h, None)
     else do {
       h \<leftarrow> upd_job p (\<lambda>j. j\<lparr>next_job := next_job jj\<rparr>) h;
       Some (job, h, pool_queue)
     }
   })"

text \<open>A job that was just created, for the examples.\<close>

definition demo_job :: lwt_unix_job where
  "demo_job = \<lparr>next_job = None, notification_id = 0, worker_fn = '''', result_fn = '''',
     job_state = LWT_UNIX_JOB_STATE_PENDING, fast = 1, job_mutex = Mutex_uninit,
     async_method = LWT_UNIX_ASYNC_METHOD_NONE\<rparr>"

section \<open>Abstraction\<close>

definition nxt :: "'x job_heap \<Rightarrow> nat \<Rightarrow> nat option" where
  "nxt h p = Option.bind (h p) next_job"

text \<open>Each element points to the one after it.\<close>

fun links :: "'x job_heap \<Rightarrow> nat list \<Rightarrow> bool" where
  "links h (x # y # zs) \<longleftrightarrow> nxt h x = Some y \<and> links h (y # zs)"
| "links h _ \<longleftrightarrow> True"

text \<open>\<open>(h, q)\<close> represents the list \<open>xs\<close> of jobs, oldest first.\<close>

definition circular :: "'x job_heap \<times> nat option \<Rightarrow> nat list \<Rightarrow> bool" where
  "circular hq xs = (case hq of (h, q) \<Rightarrow>
     (case xs of
        [] \<Rightarrow> q = None
      | x # _ \<Rightarrow> q = Some (last xs) \<and> distinct xs \<and> set xs \<subseteq> dom h \<and> links h xs \<and> nxt h (last xs) = Some x))"

lemma links_append:
  "links h (xs @ ys) \<longleftrightarrow>
     links h xs \<and> links h ys \<and> (xs \<noteq> [] \<and> ys \<noteq> [] \<longrightarrow> nxt h (last xs) = Some (hd ys))"
  by (induction h xs rule: links.induct) (auto simp: neq_Nil_conv, (cases ys; simp)+)

lemma links_cong: "(\<And>p. p \<in> set (butlast xs) \<Longrightarrow> nxt h' p = nxt h p) \<Longrightarrow> links h' xs = links h xs"
  by (induction h xs rule: links.induct) auto

lemma circular_Nil [simp]: "circular (h, q) [] \<longleftrightarrow> q = None"
  by (simp add: circular_def)

lemma circular_None [simp]: "circular (h, None) xs \<longleftrightarrow> xs = []"
  by (cases xs) (simp_all add: circular_def)

lemma circular_ConsD:
  assumes "circular (h, q) (x # xs)"
  shows "q = Some (last (x # xs))" "distinct (x # xs)" "set (x # xs) \<subseteq> dom h" "links h (x # xs)"
    "nxt h (last (x # xs)) = Some x"
  using assms by (simp_all add: circular_def)

lemma circular_distinct: "circular hq xs \<Longrightarrow> distinct xs"
  by (cases hq; cases xs) (auto simp: circular_def)

lemma circular_live: "circular (h, q) xs \<Longrightarrow> set xs \<subseteq> dom h"
  by (cases xs) (auto simp: circular_def)

text \<open>The representation depends on the \<^verbatim>\<open>next\<close> fields of the queued jobs only.\<close>

lemma circular_cong:
  assumes "circular (h, q) xs" "\<And>p. p \<in> set xs \<Longrightarrow> nxt h' p = nxt h p" "set xs \<subseteq> dom h'"
  shows "circular (h', q) xs"
proof (cases xs)
  case (Cons x ys)
  note c = circular_ConsD [OF assms(1) [unfolded Cons]]
  have "links h' xs"
    using c(4) assms(2) Cons by (metis in_set_butlastD links_cong)
  moreover have "nxt h' (last xs) = Some x"
    using c(5) assms(2) [of "last xs"] Cons by simp
  ultimately show ?thesis using c assms(3) Cons by (simp add: circular_def)
qed (use assms in simp)

lemma nxt_upd: "h p = Some j \<Longrightarrow> nxt (h(p \<mapsto> j\<lparr>next_job := v\<rparr>)) a = (if a = p then v else nxt h a)"
  by (simp add: nxt_def)

text \<open>A heap and a queue pointer represent at most one list.\<close>

lemma links_unique:
  "links h (x # xs) \<Longrightarrow> links h (x # ys) \<Longrightarrow> distinct (x # xs) \<Longrightarrow> distinct (x # ys) \<Longrightarrow>
     last (x # xs) = last (x # ys) \<Longrightarrow> xs = ys"
proof (induction xs arbitrary: x ys)
  case Nil
  then show ?case by (cases ys) (auto split: if_splits)
next
  case (Cons y xs)
  then show ?case
  proof (cases ys)
    case Nil
    with Cons.prems show ?thesis by (auto split: if_splits)
  next
    case (Cons z zs)
    with \<open>links h (x # y # xs)\<close> \<open>links h (x # ys)\<close> have "z = y" by simp
    with Cons Cons.prems Cons.IH [of y zs] show ?thesis by simp
  qed
qed

lemma circular_unique:
  assumes "circular (h, q) xs" "circular (h, q) ys"
  shows "xs = ys"
proof (cases xs)
  case Nil
  then show ?thesis using assms by (cases ys) (auto simp: circular_def)
next
  case (Cons x as)
  then obtain y bs where ys: "ys = y # bs" using assms by (cases ys) (auto simp: circular_def)
  note c = circular_ConsD [OF assms(1) [unfolded Cons]] and e = circular_ConsD [OF assms(2) [unfolded ys]]
  have "y = x" using c(1,5) e(1,5) by simp
  with links_unique c e Cons ys show ?thesis by (metis option.inject)
qed

section \<open>Correctness of the two operations\<close>

lemma enqueue_circular:
  assumes "circular hq xs" and "job \<notin> set xs" and "job \<in> dom (fst hq)"
  shows "\<exists>hq'. enqueue_job job hq = Some hq' \<and> circular hq' (xs @ [job]) \<and> dom (fst hq') = dom (fst hq)"
proof -
  obtain h q where hq: "hq = (h, q)" by force
  from assms(3) hq obtain j where j: "h job = Some j" by auto
  show ?thesis
  proof (cases xs)
    case Nil
    with assms hq j have "enqueue_job job hq = Some (h(job \<mapsto> j\<lparr>next_job := Some job\<rparr>), Some job)"
      by (simp add: enqueue_job_def)
    with Nil j hq show ?thesis
      by (auto simp: circular_def nxt_def)
  next
    case (Cons x ys)
    let ?l = "last xs"
    note c = circular_ConsD [OF assms(1) [unfolded hq Cons], folded Cons]
    have "?l \<in> dom h" using c(3) Cons by (metis last_in_set list.distinct(1) subsetD)
    then obtain lj where lj: "h ?l = Some lj" by blast
    have ne: "?l \<noteq> job" using assms(2) Cons by (metis last_in_set list.distinct(1))
    let ?h1 = "h(job \<mapsto> j\<lparr>next_job := next_job lj\<rparr>)"
    let ?h2 = "?h1(?l \<mapsto> lj\<lparr>next_job := Some job\<rparr>)"
    have e: "enqueue_job job hq = Some (?h2, Some job)"
      using c(1) j lj ne by (simp add: enqueue_job_def hq)
    have nx: "nxt ?h2 a = (if a = ?l then Some job else if a = job then nxt h ?l else nxt h a)" for a
      using lj j ne by (simp add: nxt_def)
    have "?l \<notin> set (butlast xs)"
      using c(2) Cons by (metis append_butlast_last_id distinct_append list.distinct(1)
          not_distinct_conv_prefix distinct_butlast)
    then have "links ?h2 xs"
      using c(4) assms(2) nx by (subst links_cong [of xs ?h2 h]) (auto dest: in_set_butlastD)
    then have "links ?h2 (xs @ [job])"
      using nx [of ?l] by (simp add: links_append del: fun_upd_apply)
    moreover have "nxt ?h2 job = Some x" using nx ne c(5) by simp
    ultimately have "circular (?h2, Some job) (xs @ [job])"
      using c(2,3) assms(2) j lj Cons by (auto simp: circular_def)
    with e hq lj j show ?thesis by auto
  qed
qed

lemma dequeue_circular:
  assumes "circular hq (x # xs)"
  shows "\<exists>hq'. dequeue_job hq = Some (x, hq') \<and> circular hq' xs \<and> dom (fst hq') = dom (fst hq)"
proof -
  obtain h q where hq: "hq = (h, q)" by force
  let ?l = "last (x # xs)"
  note c = circular_ConsD [OF assms [unfolded hq]]
  from c(3) obtain lj xj where lj: "h ?l = Some lj" and xj: "h x = Some xj"
    by (metis domD insert_subset last_in_set list.distinct(1) list.simps(15) subsetD)
  have nl: "next_job lj = Some x" using c(5) lj by (simp add: nxt_def)
  show ?thesis
  proof (cases xs)
    case Nil
    with nl lj xj c(1) show ?thesis by (simp add: dequeue_job_def hq)
  next
    case (Cons y ys)
    have nxx: "next_job xj = Some y" using c(4) Cons xj by (simp add: nxt_def)
    have "x \<noteq> y" using c(2) Cons by simp
    let ?h = "h(?l \<mapsto> lj\<lparr>next_job := next_job xj\<rparr>)"
    have e: "dequeue_job hq = Some (x, ?h, q)"
      using c(1) lj xj nl nxx \<open>x \<noteq> y\<close> by (simp add: dequeue_job_def hq)
    have nx: "nxt ?h a = (if a = ?l then Some y else nxt h a)" for a
      using lj nxx by (simp add: nxt_upd)
    have "?l \<notin> set (butlast xs)"
      using c(2) Cons by (metis append_butlast_last_id distinct.simps(2) distinct_append last_ConsR
          list.distinct(1) not_distinct_conv_prefix distinct_butlast)
    then have "links ?h xs"
      using c(4) Cons nx by (subst links_cong [of xs ?h h]) auto
    with c Cons nx lj have "circular (?h, q) xs" by (auto simp: circular_def)
    with e lj hq show ?thesis by auto
  qed
qed

section \<open>The FIFO interface\<close>

text \<open>What the worker pool relies on: a queue of distinct elements over a list abstraction.\<close>

locale fifo =
  fixes enq :: "'a \<Rightarrow> 'q \<Rightarrow> 'q option"
    and deq :: "'q \<Rightarrow> ('a \<times> 'q) option"
    and represents :: "'q \<Rightarrow> 'a list \<Rightarrow> bool"
    and known :: "'q \<Rightarrow> 'a set"
  assumes enq_represents: "represents q xs \<Longrightarrow> x \<notin> set xs \<Longrightarrow> x \<in> known q \<Longrightarrow>
      \<exists>q'. enq x q = Some q' \<and> represents q' (xs @ [x]) \<and> known q' = known q"
    and deq_represents: "represents q (x # xs) \<Longrightarrow>
      \<exists>q'. deq q = Some (x, q') \<and> represents q' xs \<and> known q' = known q"
begin

lemma enq_all:
  "represents q xs \<Longrightarrow> distinct (xs @ ys) \<Longrightarrow> set ys \<subseteq> known q \<Longrightarrow>
     \<exists>q'. iter_opt enq ys q = Some q' \<and> represents q' (xs @ ys) \<and> known q' = known q"
proof (induction ys arbitrary: q xs)
  case Nil
  then show ?case by auto
next
  case (Cons y ys)
  from Cons.prems enq_represents [of q xs y] obtain r where
    r: "enq y q = Some r" "represents r (xs @ [y])" "known r = known q" by auto
  from Cons.IH [OF r(2)] Cons.prems r show ?case by auto
qed

end

fun dequeue_all :: "nat \<Rightarrow> 'x job_heap \<times> nat option \<Rightarrow> (nat list \<times> 'x job_heap \<times> nat option) option" where
  "dequeue_all 0 hq = Some ([], hq)"
| "dequeue_all (Suc n) hq = do {
     (x, hq) \<leftarrow> dequeue_job hq;
     (xs, hq) \<leftarrow> dequeue_all n hq;
     Some (x # xs, hq)
   }"

interpretation jq: fifo enqueue_job dequeue_job circular "\<lambda>hq. dom (fst hq)"
  by unfold_locales (rule enqueue_circular, assumption+, rule dequeue_circular, assumption)

lemma dequeue_all_represents:
  "circular hq (xs @ ys) \<Longrightarrow> \<exists>hq'. dequeue_all (length xs) hq = Some (xs, hq') \<and> circular hq' ys"
proof (induction xs arbitrary: hq)
  case Nil
  then show ?case by auto
next
  case (Cons x xs)
  from jq.deq_represents [of hq x "xs @ ys"] Cons.prems obtain r where
    r: "dequeue_job hq = Some (x, r)" "circular r (xs @ ys)" by auto
  from Cons.IH [OF r(2)] r(1) show ?case by (metis bind.bind_lunit case_prod_conv dequeue_all.simps(2) length_Cons)
qed

section \<open>Properties\<close>

text \<open>
  C13. The circular list is a FIFO queue: adding any distinct live jobs to the queue and then
  taking as many jobs as it holds gives the jobs back in the order they were added, first the
  ones that were queued before, never follows a dangling pointer, and leaves the queue empty.
\<close>

theorem pool_queue_fifo:
  assumes "circular (h, q) xs" and "distinct (xs @ ys)" and "set ys \<subseteq> dom h"
  shows "\<exists>hq h'. iter_opt enqueue_job ys (h, q) = Some hq \<and>
           dequeue_all (length xs + length ys) hq = Some (xs @ ys, h', None)"
proof -
  from jq.enq_all [OF assms(1,2)] assms(3) obtain hq where
    hq: "iter_opt enqueue_job ys (h, q) = Some hq" "circular hq (xs @ ys)" by auto
  from dequeue_all_represents [of hq "xs @ ys" "[]"] hq(2) obtain r where
    "dequeue_all (length (xs @ ys)) hq = Some (xs @ ys, r)" "circular r []" by auto
  with hq(1) show ?thesis by (cases r) auto
qed

theorem pool_queue_fifo_witness:
  "\<exists>hq h'. iter_opt enqueue_job [3, 1, 2] ([1 \<mapsto> demo_job, 2 \<mapsto> demo_job, 3 \<mapsto> demo_job], None) = Some hq \<and>
     dequeue_all (length ([] :: nat list) + length [3, 1, 2 :: nat]) hq = Some ([3, 1, 2], h', None)"
  using pool_queue_fifo [of "[1 \<mapsto> demo_job, 2 \<mapsto> demo_job, 3 \<mapsto> demo_job]" None "[]" "[3, 1, 2]"]
  by (simp del: iter_opt.simps dequeue_all.simps list.size)

end
