(* ===== verification/Pool.thy ===== *)
theory Pool
  imports Job_Queue
begin

text \<open>
  Job execution and the thread pool of \<^verbatim>\<open>src/src/unix/lwt_unix_stubs.c\<close>: \<^verbatim>\<open>execute_job\<close>, \<^verbatim>\<open>worker_loop\<close>,
  \<^verbatim>\<open>lwt_unix_start_job\<close>, \<^verbatim>\<open>lwt_unix_check_job\<close>, \<^verbatim>\<open>lwt_unix_self_result\<close>, \<^verbatim>\<open>lwt_unix_run_job_sync\<close>,
  \<^verbatim>\<open>lwt_unix_reset_after_fork\<close> and the accessors, first as functions on the C state, cut where another
  thread can observe an intermediate state: at the end of a critical section and around an access
  made outside of one. The second half composes them into the concurrent system: any number of
  workers, and the main thread following the protocol of \<^verbatim>\<open>run_job_aux\<close> (\<^verbatim>\<open>lwt_unix.cppo.ml\<close>).

  A function returns \<open>None\<close> when it would touch a freed job, misuse a mutex or block on one.
\<close>

section \<open>State of the pool\<close>

text \<open>Where a worker is in \<^verbatim>\<open>execute_job\<close>.\<close>

datatype exec = Begin | Work | Finish | Unlock | Notify

text \<open>
  Where a worker is in \<^verbatim>\<open>worker_loop\<close>: executing a job, about to take \<^verbatim>\<open>pool_mutex\<close>, waiting on
  \<^verbatim>\<open>pool_condition\<close>, or woken and about to take \<^verbatim>\<open>pool_mutex\<close> again.
\<close>

datatype worker_pc = Exec exec nat | Idle_lock | Waiting | Woken

record 'x pool =
  jobs :: "'x job_heap"
  pool_queue :: "nat option"
  pool_mutex :: mutex
  thread_waiting_count :: int
  thread_count :: int
  pool_size :: int
  threading_initialized :: bool
  workers :: "worker_pc list"
  sent :: "int list"

text \<open>
  \<open>sent\<close> lists the notification ids sent and not yet received: the queue of the notification
  system, as its own theory specifies it.
\<close>

section \<open>Execution of a job by a worker\<close>

text \<open>
  The worker function only works on the part of the structure after the common header: it is a
  parameter \<open>work\<close>, indexed by the function pointer, on the record extension.
\<close>

definition run_worker :: "(string \<Rightarrow> 'x \<Rightarrow> 'x) \<Rightarrow> nat \<Rightarrow> 'x job_heap \<Rightarrow> 'x job_heap option" where
  "run_worker work p h = do {
     job \<leftarrow> h p;
     Some (h(p \<mapsto> lwt_unix_job.more_update (work (worker_fn job)) job))
   }"

text \<open>
  The atomic parts of \<^verbatim>\<open>execute_job\<close>: mark as running; work; lock and mark as done; unlock and test
  \<^verbatim>\<open>fast\<close>; read the id and send the notification. The first component is the part to continue with.
\<close>

fun execute_job :: "(string \<Rightarrow> 'x \<Rightarrow> 'x) \<Rightarrow> exec \<Rightarrow> nat \<Rightarrow> 'x job_heap \<times> int list
    \<Rightarrow> (exec option \<times> 'x job_heap \<times> int list) option" where
  "execute_job work Begin p (h, ids) = do {
     job \<leftarrow> h p;
     m \<leftarrow> mutex_lock (job_mutex job);
     m \<leftarrow> mutex_unlock m;
     Some (Some Work, h(p \<mapsto> job\<lparr>job_state := LWT_UNIX_JOB_STATE_RUNNING, job_mutex := m\<rparr>), ids)
   }"
| "execute_job work Work p (h, ids) = do {
     h \<leftarrow> run_worker work p h;
     Some (Some Finish, h, ids)
   }"
| "execute_job work Finish p (h, ids) = do {
     job \<leftarrow> h p;
     m \<leftarrow> mutex_lock (job_mutex job);
     Some (Some Unlock, h(p \<mapsto> job\<lparr>job_state := LWT_UNIX_JOB_STATE_DONE, job_mutex := m\<rparr>), ids)
   }"
| "execute_job work Unlock p (h, ids) = do {
     job \<leftarrow> h p;
     m \<leftarrow> mutex_unlock (job_mutex job);
     Some (if fast job = 0 then Some Notify else None, h(p \<mapsto> job\<lparr>job_mutex := m\<rparr>), ids)
   }"
| "execute_job work Notify p (h, ids) = do {
     job \<leftarrow> h p;
     Some (None, h, ids @ [notification_id job])
   }"

section \<open>The pool\<close>

definition initialize_threading :: "('x, 'z) pool_scheme \<Rightarrow> ('x, 'z) pool_scheme" where
  "initialize_threading s =
     (if threading_initialized s then s
      else s\<lparr>pool_mutex := Mutex_free, threading_initialized := True\<rparr>)"

text \<open>
  The body of \<^verbatim>\<open>worker_loop\<close> between two jobs: with \<^verbatim>\<open>pool_mutex\<close> held, wait if the queue is empty
  (\<^verbatim>\<open>lwt_unix_condition_wait\<close> releases the mutex), otherwise take the first job.
\<close>

definition worker_take :: "nat \<Rightarrow> ('x, 'z) pool_scheme \<Rightarrow> ('x, 'z) pool_scheme option" where
  "worker_take i s = do {
     m \<leftarrow> mutex_lock (pool_mutex s);
     case pool_queue s of
       None \<Rightarrow> do {
         m \<leftarrow> mutex_unlock m;
         Some (s\<lparr>thread_waiting_count := thread_waiting_count s + 1, pool_mutex := m,
                 workers := (workers s)[i := Waiting]\<rparr>)
       }
     | Some _ \<Rightarrow> do {
         (job, h, q) \<leftarrow> dequeue_job (jobs s, pool_queue s);
         m \<leftarrow> mutex_unlock m;
         Some (s\<lparr>jobs := h, pool_queue := q, pool_mutex := m,
                 workers := (workers s)[i := Exec Begin job]\<rparr>)
       }
   }"

text \<open>One step of the \<open>i\<close>-th worker: \<^verbatim>\<open>worker_loop\<close> is the iteration of this function.\<close>

definition worker_loop :: "(string \<Rightarrow> 'x \<Rightarrow> 'x) \<Rightarrow> nat \<Rightarrow> ('x, 'z) pool_scheme \<Rightarrow> ('x, 'z) pool_scheme option" where
  "worker_loop work i s =
     (if i < length (workers s) then
        (case workers s ! i of
           Exec e p \<Rightarrow> do {
             (e', h, ids) \<leftarrow> execute_job work e p (jobs s, sent s);
             Some (s\<lparr>jobs := h, sent := ids,
                     workers := (workers s)[i := (case e' of Some e' \<Rightarrow> Exec e' p | None \<Rightarrow> Idle_lock)]\<rparr>)
           }
         | Idle_lock \<Rightarrow> worker_take i s
         | Woken \<Rightarrow> worker_take i s
         | Waiting \<Rightarrow> None)
      else None)"

text \<open>
  \<^verbatim>\<open>lwt_unix_condition_signal\<close> wakes one of the waiting workers, if there is one. Which one is not
  specified: \<open>k\<close> is the choice.
\<close>

definition condition_signal :: "nat \<Rightarrow> worker_pc list \<Rightarrow> worker_pc list option" where
  "condition_signal k ws =
     (if Waiting \<in> set ws then
        (if k < length ws \<and> ws ! k = Waiting then Some (ws[k := Woken]) else None)
      else Some ws)"

section \<open>Starting and checking a job\<close>

text \<open>
  \<^verbatim>\<open>lwt_unix_start_job\<close> up to the critical section: the test on the counters, made without the
  mutex; the initialisation of the job; a synchronous job is executed. The result is \<^verbatim>\<open>Val_true\<close> for
  a synchronous job and \<open>None\<close> when the function goes on.
\<close>

definition start_job_begin :: "(string \<Rightarrow> 'x \<Rightarrow> 'x) \<Rightarrow> nat \<Rightarrow> lwt_unix_async_method \<Rightarrow> ('x, 'z) pool_scheme
    \<Rightarrow> (caml_value option \<times> ('x, 'z) pool_scheme) option" where
  "start_job_begin work p am s = do {
     let am = (if am \<noteq> LWT_UNIX_ASYNC_METHOD_NONE \<and> thread_waiting_count s = 0 \<and> pool_size s \<le> thread_count s
               then LWT_UNIX_ASYNC_METHOD_NONE else am);
     h \<leftarrow> upd_job p (\<lambda>job. job\<lparr>job_state := LWT_UNIX_JOB_STATE_PENDING, fast := 1, async_method := am\<rparr>) (jobs s);
     if am = LWT_UNIX_ASYNC_METHOD_NONE then do {
       h \<leftarrow> run_worker work p h;
       Some (Some (Val_bool True), s\<lparr>jobs := h\<rparr>)
     } else do {
       let s = initialize_threading s;
       h \<leftarrow> upd_job p (\<lambda>job. job\<lparr>job_mutex := Mutex_free\<rparr>) h;
       Some (None, s\<lparr>jobs := h\<rparr>)
     }
   }"

text \<open>
  The critical section: start a worker with the job (\<open>err\<close> is what \<^verbatim>\<open>lwt_unix_launch_thread\<close> returns,
  0 when the thread was started) or queue it and wake a worker.
\<close>

definition start_job_pool :: "int \<Rightarrow> nat \<Rightarrow> nat \<Rightarrow> ('x, 'z) pool_scheme
    \<Rightarrow> (unit outcome \<times> ('x, 'z) pool_scheme) option" where
  "start_job_pool err k p s = do {
     m \<leftarrow> mutex_lock (pool_mutex s);
     if thread_waiting_count s = 0 then do {
       let s = (if err = 0 then s\<lparr>workers := workers s @ [Exec Begin p], thread_count := thread_count s + 1\<rparr> else s);
       m \<leftarrow> mutex_unlock m;
       let s = s\<lparr>pool_mutex := m\<rparr>;
       if err \<noteq> 0 then Some (Raise (Unix_error err ''launch_thread'' Nothing), s)
       else Some (Ret (), s)
     } else do {
       (h, q) \<leftarrow> enqueue_job p (jobs s, pool_queue s);
       ws \<leftarrow> condition_signal k (workers s);
       m \<leftarrow> mutex_unlock m;
       Some (Ret (), s\<lparr>jobs := h, pool_queue := q, thread_waiting_count := thread_waiting_count s - 1,
                       workers := ws, pool_mutex := m\<rparr>)
     }
   }"

text \<open>The test of the state, made without the mutex of the job.\<close>

definition start_job_done :: "nat \<Rightarrow> ('x, 'z) pool_scheme \<Rightarrow> bool option" where
  "start_job_done p s = do {
     job \<leftarrow> jobs s p;
     Some (job_state job = LWT_UNIX_JOB_STATE_DONE)
   }"

text \<open>The wait for the mutex of a job that is already done.\<close>

definition start_job_sync :: "nat \<Rightarrow> ('x, 'z) pool_scheme \<Rightarrow> ('x, 'z) pool_scheme option" where
  "start_job_sync p s = do {
     job \<leftarrow> jobs s p;
     m \<leftarrow> mutex_lock (job_mutex job);
     m \<leftarrow> mutex_unlock m;
     Some (s\<lparr>jobs := (jobs s)(p \<mapsto> job\<lparr>job_mutex := m\<rparr>)\<rparr>)
   }"

definition lwt_unix_check_job :: "nat \<Rightarrow> int \<Rightarrow> ('x, 'z) pool_scheme \<Rightarrow> (caml_value \<times> ('x, 'z) pool_scheme) option" where
  "lwt_unix_check_job p nid s = do {
     job \<leftarrow> jobs s p;
     case async_method job of
       LWT_UNIX_ASYNC_METHOD_NONE \<Rightarrow> Some (Val_int 1, s)
     | _ \<Rightarrow> do {
         m \<leftarrow> mutex_lock (job_mutex job);
         let job = job\<lparr>fast := 0, notification_id := nid\<rparr>;
         let result = Val_bool (job_state job = LWT_UNIX_JOB_STATE_DONE);
         m \<leftarrow> mutex_unlock m;
         Some (result, s\<lparr>jobs := (jobs s)(p \<mapsto> job\<lparr>job_mutex := m\<rparr>)\<rparr>)
       }
   }"

section \<open>Results\<close>

text \<open>
  Every result function reads the structure, builds the OCaml result and calls
  \<^verbatim>\<open>lwt_unix_free_job\<close>: \<open>res\<close> is the value it computes, indexed by the function pointer.
\<close>

definition lwt_unix_self_result :: "(string \<Rightarrow> 'x \<Rightarrow> 'v) \<Rightarrow> nat \<Rightarrow> ('x, 'z) pool_scheme
    \<Rightarrow> ('v \<times> ('x, 'z) pool_scheme) option" where
  "lwt_unix_self_result res p s = do {
     job \<leftarrow> jobs s p;
     h \<leftarrow> lwt_unix_free_job p (jobs s);
     Some (res (result_fn job) (lwt_unix_job.more job), s\<lparr>jobs := h\<rparr>)
   }"

definition lwt_unix_run_job_sync :: "(string \<Rightarrow> 'x \<Rightarrow> 'x) \<Rightarrow> (string \<Rightarrow> 'x \<Rightarrow> 'v) \<Rightarrow> nat \<Rightarrow> ('x, 'z) pool_scheme
    \<Rightarrow> ('v \<times> ('x, 'z) pool_scheme) option" where
  "lwt_unix_run_job_sync work res p s = do {
     h \<leftarrow> upd_job p (\<lambda>job. job\<lparr>async_method := LWT_UNIX_ASYNC_METHOD_NONE\<rparr>) (jobs s);
     h \<leftarrow> run_worker work p h;
     lwt_unix_self_result res p (s\<lparr>jobs := h\<rparr>)
   }"

section \<open>Fork and accessors\<close>

definition lwt_unix_reset_after_fork :: "('x, 'z) pool_scheme \<Rightarrow> caml_value \<times> ('x, 'z) pool_scheme" where
  "lwt_unix_reset_after_fork s =
     (Val_unit,
      if threading_initialized s then
        s\<lparr>thread_waiting_count := 0, thread_count := 0, pool_queue := None, threading_initialized := False\<rparr>
      else s)"

definition lwt_unix_pool_size :: "('x, 'z) pool_scheme \<Rightarrow> caml_value" where
  "lwt_unix_pool_size s = Val_int (pool_size s)"

definition lwt_unix_set_pool_size :: "int \<Rightarrow> ('x, 'z) pool_scheme \<Rightarrow> caml_value \<times> ('x, 'z) pool_scheme" where
  "lwt_unix_set_pool_size val_size s = (Val_unit, s\<lparr>pool_size := c_int val_size\<rparr>)"

definition lwt_unix_thread_count :: "('x, 'z) pool_scheme \<Rightarrow> caml_value" where
  "lwt_unix_thread_count s = Val_int (thread_count s)"

definition lwt_unix_thread_waiting_count :: "('x, 'z) pool_scheme \<Rightarrow> caml_value" where
  "lwt_unix_thread_waiting_count s = Val_int (thread_waiting_count s)"

section \<open>The concurrent system\<close>

text \<open>
  The main thread is idle, inside \<^verbatim>\<open>lwt_unix_start_job\<close> before its critical section, before the test of
  the state, or before the wait for the mutex.
\<close>

datatype main_pc = Main_idle | Main_launch nat | Main_test nat | Main_sync nat

text \<open>
  What \<^verbatim>\<open>run_job_aux\<close> knows of a job: it was created; it is being started; \<^verbatim>\<open>start_job\<close> returned false;
  \<^verbatim>\<open>check_job\<close> returned false after registering an id; the job was reported as finished (by
  \<^verbatim>\<open>start_job\<close>, \<^verbatim>\<open>check_job\<close> or a notification); \<^verbatim>\<open>start_job\<close> raised.
\<close>

datatype stage = Absent | New | Starting | Started | Checked int | Told | Failed

text \<open>
  \<open>notifiers\<close> is the table of the ids that \<^verbatim>\<open>make_notification\<close> has given to jobs that are not finished.
  \<open>arg\<close> and \<open>code\<close> remember the arguments and the worker function each job was created with.
\<close>

record 'x sys = "'x pool" +
  main :: main_pc
  notifiers :: "int list"
  stage :: "nat \<Rightarrow> stage"
  arg :: "nat \<Rightarrow> 'x"
  code :: "nat \<Rightarrow> string"

text \<open>
  What can happen. \<open>Create p fn rfn x\<close> allocates a job at a free address; \<open>Take nid\<close> is the main
  thread receiving a notification; \<open>Spurious i\<close> wakes a waiting worker without a signal, as POSIX
  allows; the other events are steps of the functions above.
\<close>

datatype 'x event =
    Create nat string string "'x lwt_unix_job_scheme"
  | Start nat lwt_unix_async_method
  | Start_pool int nat
  | Start_test
  | Start_sync
  | Check nat int
  | Take int
  | Result nat
  | Run_sync nat
  | Set_pool_size int
  | Worker nat
  | Spurious nat

fun sys_step :: "(string \<Rightarrow> 'x \<Rightarrow> 'x) \<Rightarrow> 'x event \<Rightarrow> 'x sys \<Rightarrow> 'x sys option" where
  "sys_step work (Create p fn rfn j) s =
     (if main s = Main_idle \<and> jobs s p = None \<and> stage s p = Absent then
        Some (s\<lparr>jobs := (jobs s)(p \<mapsto> j\<lparr>worker_fn := fn, result_fn := rfn\<rparr>), stage := (stage s)(p := New),
                arg := (arg s)(p := lwt_unix_job.more j), code := (code s)(p := fn)\<rparr>)
      else None)"
| "sys_step work (Start p am) s =
     (if main s = Main_idle \<and> stage s p = New then do {
        (r, s) \<leftarrow> start_job_begin work p am s;
        Some (case r of
                Some _ \<Rightarrow> s\<lparr>stage := (stage s)(p := Told)\<rparr>
              | None \<Rightarrow> s\<lparr>stage := (stage s)(p := Starting), main := Main_launch p\<rparr>)
      } else None)"
| "sys_step work (Start_pool err k) s =
     (case main s of
        Main_launch p \<Rightarrow> do {
          (r, s) \<leftarrow> start_job_pool err k p s;
          Some (case r of
                  Ret _ \<Rightarrow> s\<lparr>main := Main_test p\<rparr>
                | Raise _ \<Rightarrow> s\<lparr>stage := (stage s)(p := Failed), main := Main_idle\<rparr>)
        }
      | _ \<Rightarrow> None)"
| "sys_step work Start_test s =
     (case main s of
        Main_test p \<Rightarrow> do {
          d \<leftarrow> start_job_done p s;
          Some (if d then s\<lparr>main := Main_sync p\<rparr> else s\<lparr>stage := (stage s)(p := Started), main := Main_idle\<rparr>)
        }
      | _ \<Rightarrow> None)"
| "sys_step work Start_sync s =
     (case main s of
        Main_sync p \<Rightarrow> do {
          s \<leftarrow> start_job_sync p s;
          Some (s\<lparr>stage := (stage s)(p := Told), main := Main_idle\<rparr>)
        }
      | _ \<Rightarrow> None)"
| "sys_step work (Check p nid) s =
     (if main s = Main_idle \<and> stage s p = Started \<and> nid \<notin> set (notifiers s) then do {
        (r, s) \<leftarrow> lwt_unix_check_job p nid s;
        Some (if r = Val_bool True then s\<lparr>stage := (stage s)(p := Told)\<rparr>
              else s\<lparr>stage := (stage s)(p := Checked nid), notifiers := nid # notifiers s\<rparr>)
      } else None)"
| "sys_step work (Take nid) s =
     (if main s = Main_idle \<and> nid \<in> set (sent s) then
        Some (s\<lparr>sent := remove1 nid (sent s), notifiers := removeAll nid (notifiers s),
                stage := (\<lambda>q. if stage s q = Checked nid then Told else stage s q)\<rparr>)
      else None)"
| "sys_step work (Result p) s =
     (if main s = Main_idle \<and> stage s p = Told then do {
        (_, s) \<leftarrow> lwt_unix_self_result (\<lambda>_ _. ()) p s;
        Some (s\<lparr>stage := (stage s)(p := Absent)\<rparr>)
      } else None)"
| "sys_step work (Run_sync p) s =
     (if main s = Main_idle \<and> stage s p = New then do {
        (_, s) \<leftarrow> lwt_unix_run_job_sync work (\<lambda>_ _. ()) p s;
        Some (s\<lparr>stage := (stage s)(p := Absent)\<rparr>)
      } else None)"
| "sys_step work (Set_pool_size n) s =
     (if main s = Main_idle then Some (snd (lwt_unix_set_pool_size n s)) else None)"
| "sys_step work (Worker i) s = worker_loop work i s"
| "sys_step work (Spurious i) s =
     (if i < length (workers s) \<and> workers s ! i = Waiting then Some (s\<lparr>workers := (workers s)[i := Woken]\<rparr>)
      else None)"

fun is_spurious :: "'x event \<Rightarrow> bool" where
  "is_spurious (Spurious i) \<longleftrightarrow> True"
| "is_spurious _ \<longleftrightarrow> False"

text \<open>The state of a program that has not started any job.\<close>

definition sys_init :: "'x sys" where
  "sys_init = \<lparr>jobs = Map.empty, pool_queue = None, pool_mutex = Mutex_uninit, thread_waiting_count = 0,
     thread_count = 0, pool_size = 1000, threading_initialized = False, workers = [], sent = [],
     main = Main_idle, notifiers = [], stage = (\<lambda>_. Absent), arg = (\<lambda>_. undefined), code = (\<lambda>_. [])\<rparr>"

text \<open>\<open>reach work sp s\<close>: \<open>s\<close> can be reached, with spurious wakeups only if \<open>sp\<close>.\<close>

inductive reach :: "(string \<Rightarrow> 'x \<Rightarrow> 'x) \<Rightarrow> bool \<Rightarrow> 'x sys \<Rightarrow> bool" for work sp where
  init: "reach work sp sys_init"
| step: "reach work sp s \<Longrightarrow> sys_step work e s = Some s' \<Longrightarrow> is_spurious e \<longrightarrow> sp \<Longrightarrow> reach work sp s'"

end
