(* ===== verification/Pool_Inv.thy ===== *)
theory Pool_Inv
  imports Pool
begin

text \<open>
  The invariant of the concurrent system of theory Pool. Every job that is started and not over
  is in exactly one place: with the main thread, in the queue, or executed by one worker; its
  header and payload are determined by that place and by what the main thread knows of the job.
\<close>

section \<open>Places\<close>

datatype place = Launch | Queued | At exec

definition unique_exec :: "worker_pc list \<Rightarrow> bool" where
  "unique_exec ws \<longleftrightarrow> (\<forall>i k e e' p. i < length ws \<and> k < length ws \<and> ws ! i = Exec e p \<and> ws ! k = Exec e' p \<longrightarrow> i = k)"

definition placed :: "main_pc \<Rightarrow> nat list \<Rightarrow> worker_pc list \<Rightarrow> (nat \<rightharpoonup> place) \<Rightarrow> bool" where
  "placed mp xs ws P \<longleftrightarrow>
     (\<forall>p. mp = Main_launch p \<longleftrightarrow> P p = Some Launch) \<and>
     (\<forall>p. p \<in> set xs \<longleftrightarrow> P p = Some Queued) \<and>
     (\<forall>p e. Exec e p \<in> set ws \<longleftrightarrow> P p = Some (At e)) \<and>
     unique_exec ws"

definition num :: "worker_pc \<Rightarrow> worker_pc list \<Rightarrow> nat" where
  "num w ws = length (filter ((=) w) ws)"

lemma num_append [simp]: "num w (xs @ ys) = num w xs + num w ys"
  by (simp add: num_def)

lemma num_Nil [simp]: "num w [] = 0"
  by (simp add: num_def)

lemma num_single [simp]: "num w [v] = (if w = v then 1 else 0)"
  by (simp add: num_def)

lemma num_update:
  "i < length ws \<Longrightarrow>
     num w (ws[i := v]) + (if ws ! i = w then 1 else 0) = num w ws + (if v = w then 1 else 0)"
proof (induction ws arbitrary: i)
  case (Cons a ws)
  show ?case
  proof (cases i)
    case 0
    then show ?thesis by (auto simp: num_def)
  next
    case (Suc k)
    then show ?thesis using Cons.IH [of k] Cons.prems by (auto simp: num_def split: if_splits)
  qed
qed simp

lemma num_pos: "0 < num w ws \<longleftrightarrow> w \<in> set ws"
  by (auto simp: num_def filter_empty_conv)

lemma exec_update:
  assumes "unique_exec ws" "i < length ws"
  shows "Exec e p \<in> set (ws[i := w]) \<longleftrightarrow> w = Exec e p \<or> Exec e p \<in> set ws \<and> ws ! i \<noteq> Exec e p"
proof -
  have "k = i" if "k < length ws" "ws ! k = Exec e p" "ws ! i = Exec e p" for k
    using assms that unfolding unique_exec_def by blast
  with assms(2) show ?thesis
    by (auto simp: in_set_conv_nth nth_list_update)
qed

lemma unique_exec_update:
  assumes "unique_exec ws" "i < length ws"
    and "\<And>e p. w = Exec e p \<Longrightarrow> (\<forall>e'. Exec e' p \<notin> set ws) \<or> (\<exists>e'. ws ! i = Exec e' p)"
  shows "unique_exec (ws[i := w])"
  unfolding unique_exec_def
proof (intro allI impI, elim conjE)
  fix k l e e' p
  assume a: "k < length (ws[i := w])" "l < length (ws[i := w])"
    "ws[i := w] ! k = Exec e p" "ws[i := w] ! l = Exec e' p"
  show "k = l"
  proof (cases "w = Exec e p \<or> w = Exec e' p")
    case True
    with assms(3) have "(\<forall>e'. Exec e' p \<notin> set ws) \<or> (\<exists>e'. ws ! i = Exec e' p)" by blast
    then show ?thesis
      using a assms(1,2) unfolding unique_exec_def
      by (auto simp: nth_list_update split: if_splits) (metis nth_mem)+
  next
    case False
    then show ?thesis
      using a assms(1,2) unfolding unique_exec_def by (auto simp: nth_list_update split: if_splits)
  qed
qed

lemma placed_uniqueD: "placed mp xs ws P \<Longrightarrow> unique_exec ws"
  by (simp add: placed_def)

lemma placed_at: "placed mp xs ws P \<Longrightarrow> i < length ws \<Longrightarrow> ws ! i = Exec e p \<Longrightarrow> P p = Some (At e)"
  by (metis nth_mem placed_def)

lemma placed_not_exec: "placed mp xs ws P \<Longrightarrow> (\<And>e. P p \<noteq> Some (At e)) \<Longrightarrow> Exec e p \<notin> set ws"
  by (auto simp: placed_def)

text \<open>How the places change with the steps of the system.\<close>

lemma placed_advance:
  assumes "placed mp xs ws P" "i < length ws" "ws ! i = Exec e p"
  shows "placed mp xs (ws[i := Exec e' p]) (P(p \<mapsto> At e'))"
proof -
  have "unique_exec (ws[i := Exec e' p])"
    using assms by (intro unique_exec_update) (auto dest: placed_uniqueD)
  moreover have "P p = Some (At e)" using assms by (rule placed_at)
  ultimately show ?thesis
    using assms exec_update [OF placed_uniqueD [OF assms(1)] assms(2)]
    by (auto simp: placed_def)
qed

lemma placed_leave:
  assumes "placed mp xs ws P" "i < length ws" "ws ! i = Exec e p" "\<And>e q. w \<noteq> Exec e q"
  shows "placed mp xs (ws[i := w]) (P(p := None))"
proof -
  have "unique_exec (ws[i := w])"
    using assms by (intro unique_exec_update) (auto dest: placed_uniqueD)
  moreover have "P p = Some (At e)" using assms(1-3) by (rule placed_at)
  ultimately show ?thesis
    using assms exec_update [OF placed_uniqueD [OF assms(1)] assms(2)]
    by (auto simp: placed_def)
qed

lemma placed_idle:
  assumes "placed mp xs ws P" "i < length ws" "\<And>e q. ws ! i \<noteq> Exec e q" "\<And>e q. w \<noteq> Exec e q"
  shows "placed mp xs (ws[i := w]) P"
proof -
  have "unique_exec (ws[i := w])"
    using assms by (intro unique_exec_update) (auto dest: placed_uniqueD)
  then show ?thesis
    using assms exec_update [OF placed_uniqueD [OF assms(1)] assms(2)]
    by (auto simp: placed_def)
qed

lemma placed_take:
  assumes "placed mp (p # xs) ws P" "i < length ws" "\<And>e q. ws ! i \<noteq> Exec e q" "p \<notin> set xs"
  shows "placed mp xs (ws[i := Exec Begin p]) (P(p \<mapsto> At Begin))"
proof -
  have "P p = Some Queued" using assms(1) by (metis placed_def list.set_intros(1))
  then have "Exec e p \<notin> set ws" for e using assms(1) by (intro placed_not_exec) auto
  then have "unique_exec (ws[i := Exec Begin p])"
    using assms by (intro unique_exec_update) (auto dest: placed_uniqueD)
  then show ?thesis
    using assms \<open>P p = Some Queued\<close> exec_update [OF placed_uniqueD [OF assms(1)] assms(2)]
    by (auto simp: placed_def)
qed

lemma placed_launch:
  assumes "placed (Main_launch p) xs ws P"
  shows "placed (Main_test p) xs (ws @ [Exec Begin p]) (P(p \<mapsto> At Begin))"
proof -
  have pl: "P p = Some Launch" using assms by (metis placed_def)
  then have n: "Exec e p \<notin> set ws" for e using assms by (intro placed_not_exec) auto
  have "unique_exec (ws @ [Exec Begin p])"
    using placed_uniqueD [OF assms] n unfolding unique_exec_def
    by (auto simp: nth_append split: if_splits) (metis nth_mem)+
  then show ?thesis using assms pl by (auto simp: placed_def)
qed

lemma placed_enqueue:
  assumes "placed (Main_launch p) xs ws P"
  shows "placed (Main_test p) (xs @ [p]) ws (P(p \<mapsto> Queued))"
proof -
  have "P p = Some Launch" using assms by (metis placed_def)
  with assms show ?thesis by (auto simp: placed_def)
qed

lemma placed_fail:
  assumes "placed (Main_launch p) xs ws P"
  shows "placed Main_idle xs ws (P(p := None))"
proof -
  have "P p = Some Launch" using assms by (metis placed_def)
  with assms show ?thesis by (auto simp: placed_def)
qed

lemma placed_begin:
  "placed Main_idle xs ws P \<Longrightarrow> P p = None \<Longrightarrow> placed (Main_launch p) xs ws (P(p \<mapsto> Launch))"
  unfolding placed_def by (auto split: if_splits)

lemma placed_main:
  "placed mp xs ws P \<Longrightarrow> (\<And>p. mp \<noteq> Main_launch p) \<Longrightarrow> (\<And>p. mp' \<noteq> Main_launch p) \<Longrightarrow> placed mp' xs ws P"
  unfolding placed_def by auto

section \<open>Jobs\<close>

definition async :: "'x lwt_unix_job_scheme \<Rightarrow> bool" where
  "async j \<longleftrightarrow> async_method j \<noteq> LWT_UNIX_ASYNC_METHOD_NONE"

text \<open>The fields through which the main thread and the worker agree on who reports the end.\<close>

fun talk :: "stage \<Rightarrow> 'x lwt_unix_job_scheme \<Rightarrow> bool" where
  "talk Starting j \<longleftrightarrow> async j \<and> fast j = 1"
| "talk Started j \<longleftrightarrow> async j \<and> fast j = 1"
| "talk (Checked nid) j \<longleftrightarrow> async j \<and> fast j = 0 \<and> notification_id j = nid"
| "talk _ j \<longleftrightarrow> False"

fun job_ok :: "(string \<Rightarrow> 'x \<Rightarrow> 'x) \<Rightarrow> 'x \<Rightarrow> string \<Rightarrow> int set \<Rightarrow> place option \<Rightarrow> stage \<Rightarrow> 'x lwt_unix_job_scheme \<Rightarrow> bool" where
  "job_ok work a fn ids (Some Launch) g j \<longleftrightarrow> g = Starting \<and> talk g j \<and> job_mutex j = Mutex_free \<and>
     job_state j = LWT_UNIX_JOB_STATE_PENDING \<and> lwt_unix_job.more j = a \<and> worker_fn j = fn"
| "job_ok work a fn ids (Some Queued) g j \<longleftrightarrow> talk g j \<and> job_mutex j = Mutex_free \<and>
     job_state j = LWT_UNIX_JOB_STATE_PENDING \<and> lwt_unix_job.more j = a \<and> worker_fn j = fn"
| "job_ok work a fn ids (Some (At Begin)) g j \<longleftrightarrow> talk g j \<and> job_mutex j = Mutex_free \<and>
     job_state j = LWT_UNIX_JOB_STATE_PENDING \<and> lwt_unix_job.more j = a \<and> worker_fn j = fn"
| "job_ok work a fn ids (Some (At Work)) g j \<longleftrightarrow> talk g j \<and> job_mutex j = Mutex_free \<and>
     job_state j = LWT_UNIX_JOB_STATE_RUNNING \<and> lwt_unix_job.more j = a \<and> worker_fn j = fn"
| "job_ok work a fn ids (Some (At Finish)) g j \<longleftrightarrow> talk g j \<and> job_mutex j = Mutex_free \<and>
     job_state j = LWT_UNIX_JOB_STATE_RUNNING \<and> lwt_unix_job.more j = work fn a"
| "job_ok work a fn ids (Some (At Unlock)) g j \<longleftrightarrow> talk g j \<and> job_mutex j = Mutex_held \<and>
     job_state j = LWT_UNIX_JOB_STATE_DONE \<and> lwt_unix_job.more j = work fn a"
| "job_ok work a fn ids (Some (At Notify)) g j \<longleftrightarrow> talk g j \<and> job_mutex j = Mutex_free \<and> (\<exists>nid. g = Checked nid) \<and>
     job_state j = LWT_UNIX_JOB_STATE_DONE \<and> lwt_unix_job.more j = work fn a"
| "job_ok work a fn ids None g j \<longleftrightarrow>
     (case g of
        Absent \<Rightarrow> False
      | New \<Rightarrow> lwt_unix_job.more j = a \<and> worker_fn j = fn
      | Told \<Rightarrow> lwt_unix_job.more j = work fn a \<and> (async j \<longrightarrow> job_mutex j = Mutex_free)
      | Failed \<Rightarrow> True
      | _ \<Rightarrow> talk g j \<and> job_mutex j = Mutex_free \<and> job_state j = LWT_UNIX_JOB_STATE_DONE \<and>
             lwt_unix_job.more j = work fn a \<and> (\<forall>nid. g = Checked nid \<longrightarrow> nid \<in> ids))"

definition jobs_ok :: "(string \<Rightarrow> 'x \<Rightarrow> 'x) \<Rightarrow> 'x job_heap \<Rightarrow> (nat \<Rightarrow> stage) \<Rightarrow> (nat \<Rightarrow> 'x) \<Rightarrow> (nat \<Rightarrow> string)
    \<Rightarrow> int set \<Rightarrow> (nat \<rightharpoonup> place) \<Rightarrow> bool" where
  "jobs_ok work h st a c ids P \<longleftrightarrow>
     (\<forall>p. case h p of None \<Rightarrow> P p = None \<and> st p = Absent | Some j \<Rightarrow> job_ok work (a p) (c p) ids (P p) (st p) j)"

lemma job_ok_cong:
  "async j' = async j \<Longrightarrow> fast j' = fast j \<Longrightarrow> notification_id j' = notification_id j \<Longrightarrow>
   job_mutex j' = job_mutex j \<Longrightarrow> job_state j' = job_state j \<Longrightarrow> lwt_unix_job.more j' = lwt_unix_job.more j \<Longrightarrow>
   worker_fn j' = worker_fn j \<Longrightarrow> job_ok work a fn ids pl g j' = job_ok work a fn ids pl g j"
proof -
  assume a: "async j' = async j" "fast j' = fast j" "notification_id j' = notification_id j"
   "job_mutex j' = job_mutex j" "job_state j' = job_state j" "lwt_unix_job.more j' = lwt_unix_job.more j"
   "worker_fn j' = worker_fn j"
  then have "talk g j' = talk g j" by (cases g) simp_all
  with a show ?thesis
    by (induction work a fn ids pl g j rule: job_ok.induct) (simp_all split: stage.split)
qed

lemma job_ok_mono: "job_ok work a fn ids pl g j \<Longrightarrow> ids \<subseteq> ids' \<Longrightarrow> job_ok work a fn ids' pl g j"
  by (induction work a fn ids pl g j rule: job_ok.induct) (auto split: stage.splits)

lemma jobs_okD: "jobs_ok work h st a c ids P \<Longrightarrow> h p = Some j \<Longrightarrow> job_ok work (a p) (c p) ids (P p) (st p) j"
  unfolding jobs_ok_def by (metis option.simps(5))

lemma jobs_ok_None: "jobs_ok work h st a c ids P \<Longrightarrow> h p = None \<Longrightarrow> P p = None \<and> st p = Absent"
  unfolding jobs_ok_def by (metis option.simps(4))

lemma jobs_ok_live:
  "jobs_ok work h st a c ids P \<Longrightarrow> P p = Some pl \<or> st p \<noteq> Absent \<Longrightarrow>
     \<exists>j. h p = Some j \<and> job_ok work (a p) (c p) ids (P p) (st p) j"
  using jobs_ok_None jobs_okD by (metis option.distinct(1) option.exhaust)

lemma jobs_ok_upd:
  assumes "jobs_ok work h st a c ids P" "ids \<subseteq> ids'" "job_ok work (a p) (c p) ids' pl g j"
  shows "jobs_ok work (h(p \<mapsto> j)) (st(p := g)) a c ids' (P(p := pl))"
  unfolding jobs_ok_def
proof
  fix q
  show "case (h(p \<mapsto> j)) q of None \<Rightarrow> (P(p := pl)) q = None \<and> (st(p := g)) q = Absent
    | Some j \<Rightarrow> job_ok work (a q) (c q) ids' ((P(p := pl)) q) ((st(p := g)) q) j"
  proof (cases "q = p")
    case False
    then show ?thesis
      using jobs_okD [OF assms(1), of q] jobs_ok_None [OF assms(1), of q] job_ok_mono [OF _ assms(2)]
      by (auto split: option.split)
  qed (use assms(3) in simp)
qed

lemma jobs_ok_upd_same:
  assumes "jobs_ok work h st a c ids P" "ids \<subseteq> ids'" "job_ok work (a p) (c p) ids' pl (st p) j"
  shows "jobs_ok work (h(p \<mapsto> j)) st a c ids' (P(p := pl))"
  using jobs_ok_upd [OF assms] by simp

text \<open>The queue operations change the \<^verbatim>\<open>next\<close> fields only.\<close>

definition same_but_next :: "'x job_heap \<Rightarrow> 'x job_heap \<Rightarrow> bool" where
  "same_but_next h h' \<longleftrightarrow> (\<forall>p. rel_option (\<lambda>j j'. \<exists>v. j' = j\<lparr>next_job := v\<rparr>) (h p) (h' p))"

lemma next_job_self: "\<exists>v. j = j\<lparr>next_job := v\<rparr>"
  by (rule exI [of _ "next_job j"]) simp

lemma same_but_next_refl: "same_but_next h h"
  unfolding same_but_next_def by (intro allI option.rel_refl) (rule next_job_self)

lemma same_but_next_upd:
  assumes "same_but_next h h'" "h' p = Some j'"
  shows "same_but_next h (h'(p \<mapsto> j'\<lparr>next_job := v\<rparr>))"
proof -
  from assms have "rel_option (\<lambda>j j'. \<exists>v. j' = j\<lparr>next_job := v\<rparr>) (h p) (Some j')"
    unfolding same_but_next_def by metis
  then obtain j w where "h p = Some j" "j' = j\<lparr>next_job := w\<rparr>"
    by (cases "h p") auto
  with assms show ?thesis unfolding same_but_next_def by auto
qed

lemma enqueue_same_but_next: "enqueue_job p (h, q) = Some (h', q') \<Longrightarrow> same_but_next h h'"
  unfolding enqueue_job_def upd_job_def
  by (auto simp: bind_Some_iff split: option.splits intro!: same_but_next_upd same_but_next_refl)

lemma dequeue_same_but_next: "dequeue_job (h, q) = Some (p, h', q') \<Longrightarrow> same_but_next h h'"
  unfolding dequeue_job_def upd_job_def
  by (auto simp: bind_Some_iff split: option.splits if_splits intro!: same_but_next_upd same_but_next_refl)

lemma jobs_ok_next:
  assumes "jobs_ok work h st a c ids P" "same_but_next h h'"
  shows "jobs_ok work h' st a c ids P"
  unfolding jobs_ok_def
proof
  fix p
  from assms(2) have "rel_option (\<lambda>j j'. \<exists>v. j' = j\<lparr>next_job := v\<rparr>) (h p) (h' p)"
    by (simp add: same_but_next_def)
  then show "case h' p of None \<Rightarrow> P p = None \<and> st p = Absent | Some j \<Rightarrow> job_ok work (a p) (c p) ids (P p) (st p) j"
  proof (cases rule: option.rel_cases)
    case None
    then show ?thesis using assms(1) by (simp add: jobs_ok_None)
  next
    case (Some j j')
    then obtain v where "j' = j\<lparr>next_job := v\<rparr>" by blast
    with Some show ?thesis
      using jobs_okD [OF assms(1) Some(1)] job_ok_cong [of j' j work "a p" "c p" ids "P p" "st p"]
      by (simp add: async_def)
  qed
qed

lemma circular_upd:
  "circular (h, q) xs \<Longrightarrow> h p = Some j \<Longrightarrow> next_job j' = next_job j \<Longrightarrow> circular (h(p \<mapsto> j'), q) xs"
  by (rule circular_cong, assumption) (auto simp: nxt_def dest: circular_live)

lemma circular_upd_other: "circular (h, q) xs \<Longrightarrow> p \<notin> set xs \<Longrightarrow> circular (h(p := v), q) xs"
  by (rule circular_cong, assumption) (auto simp: nxt_def dest: circular_live)

end
