(* ===== verification/Pool_Safety.thy ===== *)
theory Pool_Safety
  imports Pool_Inv
begin

text \<open>
  Preservation of the invariant of the worker pool by every event of the system, and what
  follows for all reachable states.
\<close>

section \<open>The invariant\<close>

text \<open>Ids: one job per id, no id sent twice, an id is sent only for a job that is over.\<close>

definition ids_ok :: "(nat \<Rightarrow> stage) \<Rightarrow> int list \<Rightarrow> int list \<Rightarrow> (nat \<rightharpoonup> place) \<Rightarrow> bool" where
  "ids_ok st ns ids P \<longleftrightarrow>
     (\<forall>p nid. st p = Checked nid \<longrightarrow> nid \<in> set ns) \<and>
     (\<forall>p q nid. st p = Checked nid \<and> st q = Checked nid \<longrightarrow> p = q) \<and>
     distinct ids \<and> (\<forall>nid\<in>set ids. \<exists>p. st p = Checked nid \<and> P p = None)"

definition main_ok :: "main_pc \<Rightarrow> (nat \<Rightarrow> stage) \<Rightarrow> 'x job_heap \<Rightarrow> bool" where
  "main_ok mp st h \<longleftrightarrow>
     (\<forall>q. st q = Starting \<longleftrightarrow> mp = Main_launch q \<or> mp = Main_test q \<or> mp = Main_sync q) \<and>
     (\<forall>p j. mp = Main_sync p \<and> h p = Some j \<longrightarrow> job_state j = LWT_UNIX_JOB_STATE_DONE)"

text \<open>Counters; without spurious wakeups they are exact and every queued job has a woken worker.\<close>

definition pool_ok :: "bool \<Rightarrow> nat list \<Rightarrow> 'x sys \<Rightarrow> bool" where
  "pool_ok sp xs s \<longleftrightarrow>
     (workers s \<noteq> [] \<longrightarrow> threading_initialized s) \<and>
     (threading_initialized s \<longrightarrow> pool_mutex s = Mutex_free) \<and>
     thread_count s = int (length (workers s)) \<and>
     int (num Waiting (workers s)) \<le> thread_waiting_count s \<and>
     (\<forall>p. main s = Main_launch p \<longrightarrow>
        threading_initialized s \<and> (0 < thread_waiting_count s \<or> thread_count s < pool_size s)) \<and>
     (\<not> sp \<longrightarrow> thread_waiting_count s = int (num Waiting (workers s)) \<and> length xs \<le> num Woken (workers s))"

definition inv_at :: "(string \<Rightarrow> 'x \<Rightarrow> 'x) \<Rightarrow> bool \<Rightarrow> nat list \<Rightarrow> (nat \<rightharpoonup> place) \<Rightarrow> 'x sys \<Rightarrow> bool" where
  "inv_at work sp xs P s \<longleftrightarrow>
     circular (jobs s, pool_queue s) xs \<and> placed (main s) xs (workers s) P \<and>
     jobs_ok work (jobs s) (stage s) (arg s) (code s) (set (sent s)) P \<and>
     ids_ok (stage s) (notifiers s) (sent s) P \<and> main_ok (main s) (stage s) (jobs s) \<and> pool_ok sp xs s"

definition inv :: "(string \<Rightarrow> 'x \<Rightarrow> 'x) \<Rightarrow> bool \<Rightarrow> 'x sys \<Rightarrow> bool" where
  "inv work sp s \<longleftrightarrow> (\<exists>xs P. inv_at work sp xs P s)"

lemma inv_atD:
  assumes "inv_at work sp xs P s"
  shows "circular (jobs s, pool_queue s) xs" "placed (main s) xs (workers s) P"
    "jobs_ok work (jobs s) (stage s) (arg s) (code s) (set (sent s)) P"
    "ids_ok (stage s) (notifiers s) (sent s) P" "main_ok (main s) (stage s) (jobs s)" "pool_ok sp xs s"
  using assms by (simp_all add: inv_at_def)

lemma inv_init: "inv work sp sys_init"
  unfolding inv_def
  by (intro exI [of _ "[]"] exI [of _ Map.empty])
    (simp add: inv_at_def sys_init_def placed_def unique_exec_def jobs_ok_def ids_ok_def main_ok_def pool_ok_def num_def)

text \<open>A job nobody works on is not in the queue.\<close>

lemma placed_None_queue: "placed mp xs ws P \<Longrightarrow> P p = None \<Longrightarrow> p \<notin> set xs"
  by (simp add: placed_def)

lemma job_ok_untold:
  "job_ok work a fn ids pl g j \<Longrightarrow> g \<in> {New, Told, Failed, Absent} \<Longrightarrow> pl = None"
  by (induction work a fn ids pl g j rule: job_ok.induct) auto

lemma ids_ok_stage:
  "ids_ok st ns ids P \<Longrightarrow> (\<And>nid. st p \<noteq> Checked nid) \<Longrightarrow> (\<And>nid. g \<noteq> Checked nid) \<Longrightarrow>
     ids_ok (st(p := g)) ns ids (P(p := pl))"
  unfolding ids_ok_def by (auto split: if_splits) metis

lemma ids_ok_place: "ids_ok st ns ids P \<Longrightarrow> P p \<noteq> None \<Longrightarrow> ids_ok st ns ids (P(p := pl))"
  unfolding ids_ok_def by (auto split: if_splits) (metis option.distinct(1))

lemma ids_ok_check:
  assumes i: "ids_ok st ns ids P" and p: "st p = Started" "nid \<notin> set ns"
  shows "ids_ok (st(p := Checked nid)) (nid # ns) ids P"
proof -
  have "\<exists>q. (st(p := Checked nid)) q = Checked n \<and> P q = None" if n: "n \<in> set ids" for n
  proof -
    from i n obtain q where "st q = Checked n" "P q = None" unfolding ids_ok_def by blast
    moreover from this p(1) have "q \<noteq> p" by auto
    ultimately show ?thesis by auto
  qed
  with i p show ?thesis unfolding ids_ok_def by auto
qed

lemma ids_ok_remove:
  assumes i: "ids_ok st ns ids P" and p: "st p = Checked nid"
  shows "ids_ok (st(p := Told)) (removeAll nid ns) (remove1 nid ids) P"
proof -
  have d: "distinct ids" and u: "\<And>q. st q = Checked nid \<Longrightarrow> q = p" using i p unfolding ids_ok_def by blast+
  have "\<exists>q. (st(p := Told)) q = Checked n \<and> P q = None" if n: "n \<in> set (remove1 nid ids)" for n
  proof -
    from n d have n: "n \<in> set ids" "n \<noteq> nid" by auto
    from i n obtain q where "st q = Checked n" "P q = None" unfolding ids_ok_def by blast
    moreover from this p n have "q \<noteq> p" by auto
    ultimately show ?thesis by auto
  qed
  with i u show ?thesis unfolding ids_ok_def by auto
qed

lemma main_ok_stage:
  "main_ok mp st h \<Longrightarrow> st p \<noteq> Starting \<Longrightarrow> g \<noteq> Starting \<Longrightarrow> main_ok mp (st(p := g)) h"
  unfolding main_ok_def by auto

lemma main_ok_idle: "main_ok mp st h \<Longrightarrow> st p = Starting \<Longrightarrow> g \<noteq> Starting \<Longrightarrow> main_ok Main_idle (st(p := g)) h'"
  unfolding main_ok_def by (cases mp) auto

lemma main_ok_idle_heap: "main_ok Main_idle st h \<Longrightarrow> main_ok Main_idle st h'"
  unfolding main_ok_def by auto

lemma jobs_ok_ghost:
  assumes "jobs_ok work h st a c ids P" "h p = None"
  shows "jobs_ok work h st (a(p := x)) (c(p := y)) ids P"
  unfolding jobs_ok_def
proof
  fix q
  show "case h q of None \<Rightarrow> P q = None \<and> st q = Absent
    | Some j \<Rightarrow> job_ok work ((a(p := x)) q) ((c(p := y)) q) ids (P q) (st q) j"
    using assms jobs_okD [OF assms(1), of q] jobs_ok_None [OF assms(1), of q]
    by (cases "q = p") (auto split: option.split)
qed

lemma jobs_ok_free:
  assumes "jobs_ok work h st a c ids P" "P p = None"
  shows "jobs_ok work (h(p := None)) (st(p := Absent)) a c ids P"
  unfolding jobs_ok_def
proof
  fix q
  show "case (h(p := None)) q of None \<Rightarrow> P q = None \<and> (st(p := Absent)) q = Absent
    | Some j \<Rightarrow> job_ok work (a q) (c q) ids (P q) ((st(p := Absent)) q) j"
    using assms jobs_okD [OF assms(1), of q] jobs_ok_None [OF assms(1), of q]
    by (cases "q = p") (auto split: option.split)
qed

lemma main_ok_next:
  assumes "main_ok mp st h" "same_but_next h h'"
  shows "main_ok mp st h'"
proof -
  have "\<exists>j. h p = Some j \<and> job_state j = job_state j'" if "h' p = Some j'" for p j'
  proof -
    have "rel_option (\<lambda>j j'. \<exists>v. j' = j\<lparr>next_job := v\<rparr>) (h p) (Some j')"
      using assms(2) that unfolding same_but_next_def by metis
    then show ?thesis by (cases "h p") auto
  qed
  with assms(1) show ?thesis unfolding main_ok_def by metis
qed

text \<open>A signal turns one waiting worker into a woken one, when there is a waiting worker.\<close>

lemma condition_signal_effect:
  assumes "condition_signal k ws = Some ws'"
  shows "length ws' = length ws" "ws' = [] \<longleftrightarrow> ws = []"
    "num Waiting ws' = num Waiting ws - 1" "Waiting \<in> set ws \<Longrightarrow> num Woken ws' = num Woken ws + 1"
    "placed mp xs ws P \<Longrightarrow> placed mp xs ws' P"
    "num Waiting ws \<noteq> 0 \<longleftrightarrow> Waiting \<in> set ws"
proof -
  show z: "num Waiting ws \<noteq> 0 \<longleftrightarrow> Waiting \<in> set ws" using num_pos [of Waiting ws] by auto
  show "length ws' = length ws" "ws' = [] \<longleftrightarrow> ws = []"
    using assms by (auto simp: condition_signal_def split: if_splits)
  show "num Waiting ws' = num Waiting ws - 1" "Waiting \<in> set ws \<Longrightarrow> num Woken ws' = num Woken ws + 1"
    using assms z num_update [of k ws Waiting Woken] num_update [of k ws Woken Woken]
    by (auto simp: condition_signal_def split: if_splits)
  show "placed mp xs ws P \<Longrightarrow> placed mp xs ws' P"
    using assms by (auto simp: condition_signal_def split: if_splits intro: placed_idle)
qed

section \<open>Preservation\<close>

lemma inv_create:
  assumes "inv work sp s" "sys_step work (Create p fn rfn j) s = Some s'"
  shows "inv work sp s'"
proof -
  from assms(1) obtain xs P where i: "inv_at work sp xs P s" unfolding inv_def by blast
  note d = inv_atD [OF i]
  from assms(2) have g: "main s = Main_idle" "jobs s p = None" "stage s p = Absent"
    and s': "s' = s\<lparr>jobs := (jobs s)(p \<mapsto> j\<lparr>worker_fn := fn, result_fn := rfn\<rparr>), stage := (stage s)(p := New),
                arg := (arg s)(p := lwt_unix_job.more j), code := (code s)(p := fn)\<rparr>"
    by (auto split: if_splits)
  have pn: "P p = None" using jobs_ok_None [OF d(3) g(2)] by simp
  have "jobs_ok work (jobs s) (stage s) ((arg s)(p := lwt_unix_job.more j)) ((code s)(p := fn)) (set (sent s)) P"
    using d(3) g(2) by (rule jobs_ok_ghost)
  then have "jobs_ok work (jobs s') (stage s') (arg s') (code s') (set (sent s')) (P(p := None))"
    unfolding s' by (simp del: fun_upd_apply) (rule jobs_ok_upd, auto)
  then have "jobs_ok work (jobs s') (stage s') (arg s') (code s') (set (sent s')) P"
    using pn by (metis fun_upd_triv)
  moreover have "circular (jobs s', pool_queue s') xs"
    using circular_upd_other [OF d(1)] placed_None_queue [OF d(2) pn] unfolding s' by simp
  moreover have "ids_ok (stage s') (notifiers s') (sent s') P"
    using ids_ok_stage [OF d(4), of p New None] pn g(3) unfolding s' by (simp add: fun_upd_idem)
  moreover have "main_ok (main s') (stage s') (jobs s')"
    using d(5) g by (auto simp: s' main_ok_def)
  ultimately show ?thesis
    using d(2,6) g unfolding inv_def inv_at_def by (auto simp: s' pool_ok_def)
qed

lemma inv_start:
  assumes "inv work sp s" "sys_step work (Start p am) s = Some s'"
  shows "inv work sp s'"
proof -
  from assms(1) obtain xs P where i: "inv_at work sp xs P s" unfolding inv_def by blast
  note d = inv_atD [OF i]
  from assms(2) have g: "main s = Main_idle" "stage s p = New" by (auto split: if_splits)
  obtain j where j: "jobs s p = Some j" and ok: "job_ok work (arg s p) (code s p) (set (sent s)) (P p) New j"
    using jobs_ok_live [OF d(3), of p] g by auto
  have pn: "P p = None" using job_ok_untold [OF ok] by simp
  then have a: "lwt_unix_job.more j = arg s p" "worker_fn j = code s p" using ok by auto
  have pq: "p \<notin> set xs" using placed_None_queue [OF d(2) pn] .
  have up: "jobs_ok work ((jobs s)(p \<mapsto> v)) ((stage s)(p := gg)) (arg s) (code s) (set (sent s)) (P(p := pl))"
    if "job_ok work (arg s p) (code s p) (set (sent s)) pl gg v" for v pl gg
    using jobs_ok_upd [OF d(3) _ that] by simp
  let ?j = "\<lambda>am. j\<lparr>job_state := LWT_UNIX_JOB_STATE_PENDING, fast := 1, async_method := am\<rparr>"
  let ?am = "if am \<noteq> LWT_UNIX_ASYNC_METHOD_NONE \<and> thread_waiting_count s = 0 \<and> pool_size s \<le> thread_count s
               then LWT_UNIX_ASYNC_METHOD_NONE else am"
  show ?thesis
  proof (cases "?am = LWT_UNIX_ASYNC_METHOD_NONE")
    case True
    let ?v = "lwt_unix_job.more_update (work (worker_fn j)) (?j ?am)"
    have s': "s' = s\<lparr>jobs := (jobs s)(p \<mapsto> ?v), stage := (stage s)(p := Told)\<rparr>"
      using assms(2) g j True by (auto simp: start_job_begin_def run_worker_def Let_def split: if_splits)
    have "inv_at work sp xs P s'"
      using d g pn up [of None Told ?v] a True circular_upd_other [OF d(1) pq]
        ids_ok_stage [OF d(4), of p Told None] main_ok_stage [OF d(5), of p Told]
      by (auto simp: inv_at_def s' async_def pool_ok_def fun_upd_idem main_ok_def)
    then show ?thesis unfolding inv_def by blast
  next
    case False
    let ?v = "(?j ?am)\<lparr>job_mutex := Mutex_free\<rparr>"
    have s': "s' = (initialize_threading s)\<lparr>jobs := (jobs s)(p \<mapsto> ?v), stage := (stage s)(p := Starting), main := Main_launch p\<rparr>"
      using assms(2) g j False
      by (auto simp: start_job_begin_def initialize_threading_def Let_def split: if_splits)
    have po: "pool_ok sp xs s'"
      using d(6) False g(1) by (auto simp: s' pool_ok_def initialize_threading_def split: if_splits)
    have "inv_at work sp xs (P(p \<mapsto> Launch)) s'"
      using d g pn po up [of "Some Launch" Starting ?v] a False circular_upd_other [OF d(1) pq]
        ids_ok_stage [OF d(4), of p Starting "Some Launch"] placed_begin [of xs "workers s" P p]
      by (auto simp: inv_at_def s' async_def main_ok_def initialize_threading_def split: if_splits)
    then show ?thesis unfolding inv_def by blast
  qed
qed

lemma inv_pool_size:
  assumes "inv work sp s" "sys_step work (Set_pool_size n) s = Some s'"
  shows "inv work sp s'"
proof -
  from assms(1) obtain xs P where i: "inv_at work sp xs P s" unfolding inv_def by blast
  from assms(2) have g: "main s = Main_idle" and s': "s' = s\<lparr>pool_size := c_int n\<rparr>"
    by (auto simp: lwt_unix_set_pool_size_def split: if_splits)
  have "inv_at work sp xs P s'"
    using i g by (auto simp: s' inv_at_def pool_ok_def)
  then show ?thesis unfolding inv_def by blast
qed

lemma inv_start_pool:
  assumes "inv work sp s" "sys_step work (Start_pool err k) s = Some s'"
  shows "inv work sp s'"
proof -
  from assms(1) obtain xs P where i: "inv_at work sp xs P s" unfolding inv_def by blast
  note d = inv_atD [OF i]
  from assms(2) obtain p where m: "main s = Main_launch p" by (auto split: main_pc.splits)
  have pl: "P p = Some Launch" using d(2) m by (metis placed_def)
  obtain j where j: "jobs s p = Some j" and ok: "job_ok work (arg s p) (code s p) (set (sent s)) (Some Launch) (stage s p) j"
    using jobs_ok_live [OF d(3), of p] pl by auto
  have st: "stage s p = Starting" using ok by simp
  have mx: "pool_mutex s = Mutex_free" using d(6) m by (simp add: pool_ok_def)
  have pq: "p \<notin> set xs" using d(2) pl by (auto simp: placed_def)
  have same: "jobs_ok work (jobs s) (stage s) (arg s) (code s) (set (sent s)) (P(p := x))"
    if "x \<in> {Some Queued, Some (At Begin)}" for x
    using jobs_ok_upd_same [OF d(3) order.refl, of p x j] that ok j by (auto simp: fun_upd_idem)
  show ?thesis
  proof (cases "thread_waiting_count s = 0")
    case True
    show ?thesis
    proof (cases "err = 0")
      case True
      have s': "s' = s\<lparr>workers := workers s @ [Exec Begin p], thread_count := thread_count s + 1, main := Main_test p\<rparr>"
        using assms(2) m mx True \<open>thread_waiting_count s = 0\<close>
        by (auto simp: start_job_pool_def Let_def)
      have "inv_at work sp xs (P(p \<mapsto> At Begin)) s'"
        using d m st same [of "Some (At Begin)"] placed_launch [of p xs "workers s" P]
          ids_ok_place [OF d(4), of p] pl
        by (auto simp: s' inv_at_def pool_ok_def main_ok_def)
      then show ?thesis unfolding inv_def by blast
    next
      case False
      have s': "s' = s\<lparr>stage := (stage s)(p := Failed), main := Main_idle\<rparr>"
        using assms(2) m mx False \<open>thread_waiting_count s = 0\<close>
        by (auto simp: start_job_pool_def Let_def)
      have "inv_at work sp xs (P(p := None)) s'"
        using d m st placed_fail [of p xs "workers s" P] ids_ok_stage [OF d(4), of p Failed None] pl
          jobs_ok_upd [OF d(3) order.refl, of p None Failed j] j main_ok_idle [OF d(5) st, of Failed]
        by (auto simp: s' inv_at_def pool_ok_def fun_upd_idem)
      then show ?thesis unfolding inv_def by blast
    qed
  next
    case False
    from jq.enq_represents [OF d(1) pq] j obtain h q where
      e: "enqueue_job p (jobs s, pool_queue s) = Some (h, q)" "circular (h, q) (xs @ [p])" by auto
    from assms(2) m mx False e obtain ws where
      w: "condition_signal k (workers s) = Some ws" and
      s': "s' = s\<lparr>jobs := h, pool_queue := q, thread_waiting_count := thread_waiting_count s - 1, workers := ws,
                  main := Main_test p\<rparr>"
      by (auto simp: start_job_pool_def bind_Some_iff)
    have jk: "jobs_ok work h (stage s) (arg s) (code s) (set (sent s)) (P(p \<mapsto> Queued))"
      using jobs_ok_next [OF same [of "Some Queued"]] enqueue_same_but_next [OF e(1)] by simp
    have po: "pool_ok sp (xs @ [p]) s'" and pp: "placed (Main_test p) (xs @ [p]) ws (P(p \<mapsto> Queued))"
      using condition_signal_effect [OF w] d(6) m False placed_enqueue [of p xs "workers s" P] d(2)
      by (auto simp: s' pool_ok_def)
    have "inv_at work sp (xs @ [p]) (P(p \<mapsto> Queued)) s'"
      using d e(2) jk po pp st m ids_ok_place [OF d(4), of p] pl
      by (auto simp: s' inv_at_def main_ok_def)
    then show ?thesis unfolding inv_def by blast
  qed
qed

lemma job_ok_started:
  assumes "job_ok work a fn ids pl Starting j" "pl \<noteq> Some Launch" "job_state j \<noteq> LWT_UNIX_JOB_STATE_DONE"
  shows "job_ok work a fn ids pl Started j"
proof -
  have "job_ok work a fn ids pl g j \<Longrightarrow> g = Starting \<Longrightarrow> pl \<noteq> Some Launch \<Longrightarrow> job_state j \<noteq> LWT_UNIX_JOB_STATE_DONE \<Longrightarrow>
      job_ok work a fn ids pl Started j" for g
    by (induction work a fn ids pl g j rule: job_ok.induct) auto
  with assms show ?thesis by blast
qed

lemma job_ok_async: "job_ok work a fn ids pl g j \<Longrightarrow> g \<notin> {New, Told, Failed, Absent} \<Longrightarrow> async j"
proof -
  have "talk g j \<Longrightarrow> async j" by (cases g) auto
  then show "job_ok work a fn ids pl g j \<Longrightarrow> g \<notin> {New, Told, Failed, Absent} \<Longrightarrow> async j"
    by (induction work a fn ids pl g j rule: job_ok.induct) (auto split: stage.splits)
qed

lemma job_ok_checked:
  assumes "job_ok work a fn ids pl Started j" "job_mutex j = Mutex_free" "job_state j \<noteq> LWT_UNIX_JOB_STATE_DONE"
  shows "job_ok work a fn ids pl (Checked nid) (j\<lparr>fast := 0, notification_id := nid, job_mutex := Mutex_free\<rparr>)"
proof -
  have "job_ok work a fn ids pl g j \<Longrightarrow> g = Started \<Longrightarrow> job_state j \<noteq> LWT_UNIX_JOB_STATE_DONE \<Longrightarrow>
      job_ok work a fn ids pl (Checked nid) (j\<lparr>fast := 0, notification_id := nid, job_mutex := Mutex_free\<rparr>)" for g
    by (induction work a fn ids pl g j rule: job_ok.induct) (auto simp: async_def)
  with assms show ?thesis by blast
qed

lemma job_ok_other_id:
  "job_ok work a fn ids pl g j \<Longrightarrow> g \<noteq> Checked nid \<Longrightarrow> job_ok work a fn (ids - {nid}) pl g j"
  by (induction work a fn ids pl g j rule: job_ok.induct) (auto split: stage.splits)

lemma inv_start_test:
  assumes "inv work sp s" "sys_step work Start_test s = Some s'"
  shows "inv work sp s'"
proof -
  from assms(1) obtain xs P where i: "inv_at work sp xs P s" unfolding inv_def by blast
  note d = inv_atD [OF i]
  from assms(2) obtain p where m: "main s = Main_test p" by (auto split: main_pc.splits)
  have st: "stage s p = Starting" using d(5) m by (simp add: main_ok_def)
  obtain j where j: "jobs s p = Some j" and ok: "job_ok work (arg s p) (code s p) (set (sent s)) (P p) Starting j"
    using jobs_ok_live [OF d(3), of p] st by auto
  have nl: "P p \<noteq> Some Launch" using d(2) m by (metis main_pc.distinct(7) placed_def)
  show ?thesis
  proof (cases "job_state j = LWT_UNIX_JOB_STATE_DONE")
    case True
    then have s': "s' = s\<lparr>main := Main_sync p\<rparr>"
      using assms(2) m j by (auto simp: start_job_done_def)
    have "inv_at work sp xs P s'"
      using d m j True placed_main [OF d(2), of "Main_sync p"]
      by (auto simp: s' inv_at_def main_ok_def pool_ok_def)
    then show ?thesis unfolding inv_def by blast
  next
    case False
    then have s': "s' = s\<lparr>stage := (stage s)(p := Started), main := Main_idle\<rparr>"
      using assms(2) m j by (auto simp: start_job_done_def)
    have "job_ok work (arg s p) (code s p) (set (sent s)) (P p) Started j"
      using job_ok_started [OF ok nl False] .
    then have "jobs_ok work (jobs s') (stage s') (arg s') (code s') (set (sent s')) P"
      using jobs_ok_upd [OF d(3) order.refl, of p "P p" Started j] j by (simp add: s' fun_upd_idem)
    then have "inv_at work sp xs P s'"
      using d m st placed_main [OF d(2), of Main_idle] main_ok_idle [OF d(5) st, of Started]
        ids_ok_stage [OF d(4), of p Started "P p"]
      by (auto simp: s' inv_at_def pool_ok_def fun_upd_idem)
    then show ?thesis unfolding inv_def by blast
  qed
qed

text \<open>A job that is done and whose mutex is free is over.\<close>

lemma job_ok_over:
  "job_ok work a fn ids pl g j \<Longrightarrow> job_state j = LWT_UNIX_JOB_STATE_DONE \<Longrightarrow> job_mutex j = Mutex_free \<Longrightarrow>
     g \<in> {Starting, Started} \<Longrightarrow> pl = None \<and> lwt_unix_job.more j = work fn a \<and> async j"
  by (induction work a fn ids pl g j rule: job_ok.induct) auto

lemma inv_start_sync:
  assumes "inv work sp s" "sys_step work Start_sync s = Some s'"
  shows "inv work sp s'"
proof -
  from assms(1) obtain xs P where i: "inv_at work sp xs P s" unfolding inv_def by blast
  note d = inv_atD [OF i]
  from assms(2) obtain p where m: "main s = Main_sync p" by (auto split: main_pc.splits)
  have st: "stage s p = Starting" using d(5) m by (simp add: main_ok_def)
  obtain j where j: "jobs s p = Some j" and ok: "job_ok work (arg s p) (code s p) (set (sent s)) (P p) Starting j"
    using jobs_ok_live [OF d(3), of p] st by auto
  have dn: "job_state j = LWT_UNIX_JOB_STATE_DONE" using d(5) m j by (simp add: main_ok_def)
  have mf: "job_mutex j = Mutex_free" and s': "s' = s\<lparr>stage := (stage s)(p := Told), main := Main_idle\<rparr>"
    using assms(2) m j by (cases "job_mutex j"; auto simp: start_job_sync_def bind_Some_iff fun_upd_idem)+
  note o = job_ok_over [OF ok dn mf]
  have "inv_at work sp xs P s'"
    using d m st o mf j placed_main [OF d(2), of Main_idle] main_ok_idle [OF d(5) st, of Told]
      ids_ok_stage [OF d(4), of p Told None] jobs_ok_upd [OF d(3) order.refl, of p None Told j]
    by (auto simp: s' inv_at_def pool_ok_def fun_upd_idem)
  then show ?thesis unfolding inv_def by blast
qed

lemma inv_check:
  assumes "inv work sp s" "sys_step work (Check p nid) s = Some s'"
  shows "inv work sp s'"
proof -
  from assms(1) obtain xs P where i: "inv_at work sp xs P s" unfolding inv_def by blast
  note d = inv_atD [OF i]
  from assms(2) have g: "main s = Main_idle" "stage s p = Started" "nid \<notin> set (notifiers s)"
    by (auto split: if_splits)
  obtain j where j: "jobs s p = Some j" and ok: "job_ok work (arg s p) (code s p) (set (sent s)) (P p) Started j"
    using jobs_ok_live [OF d(3), of p] g by auto
  have as: "async_method j \<noteq> LWT_UNIX_ASYNC_METHOD_NONE"
    using job_ok_async [OF ok] by (simp add: async_def)
  let ?j = "j\<lparr>fast := 0, notification_id := nid, job_mutex := Mutex_free\<rparr>"
  have mf: "job_mutex j = Mutex_free"
    using assms(2) g j as by (cases "job_mutex j") (auto simp: lwt_unix_check_job_def split: lwt_unix_async_method.splits)
  have s': "s' = (if job_state j = LWT_UNIX_JOB_STATE_DONE then s\<lparr>jobs := (jobs s)(p \<mapsto> ?j), stage := (stage s)(p := Told)\<rparr>
      else s\<lparr>jobs := (jobs s)(p \<mapsto> ?j), stage := (stage s)(p := Checked nid), notifiers := nid # notifiers s\<rparr>)"
    using assms(2) g j as mf
    by (auto simp: lwt_unix_check_job_def Val_bool_def Let_def split: lwt_unix_async_method.splits)
  have c: "circular ((jobs s)(p \<mapsto> ?j), pool_queue s) xs" using circular_upd [OF d(1) j] by simp
  show ?thesis
  proof (cases "job_state j = LWT_UNIX_JOB_STATE_DONE")
    case True
    note o = job_ok_over [OF ok True mf]
    have "inv_at work sp xs P s'"
      using d c g True o mf ids_ok_stage [OF d(4), of p Told None] main_ok_stage [OF d(5), of p Told]
        jobs_ok_upd [OF d(3) order.refl, of p None Told ?j]
      by (auto simp: s' inv_at_def pool_ok_def fun_upd_idem main_ok_def)
    then show ?thesis unfolding inv_def by blast
  next
    case False
    have "job_ok work (arg s p) (code s p) (set (sent s)) (P p) (Checked nid) ?j"
      using job_ok_checked [OF ok mf False] .
    then have jk: "jobs_ok work ((jobs s)(p \<mapsto> ?j)) ((stage s)(p := Checked nid)) (arg s) (code s) (set (sent s)) P"
      using jobs_ok_upd [OF d(3) order.refl, of p "P p" "Checked nid" ?j] by simp
    have "ids_ok ((stage s)(p := Checked nid)) (nid # notifiers s) (sent s) P"
      using d(4) g(2,3) by (rule ids_ok_check)
    then have "inv_at work sp xs P s'"
      using d c g False jk by (auto simp: s' inv_at_def pool_ok_def main_ok_def)
    then show ?thesis unfolding inv_def by blast
  qed
qed

lemma inv_take:
  assumes "inv work sp s" "sys_step work (Take nid) s = Some s'"
  shows "inv work sp s'"
proof -
  from assms(1) obtain xs P where i: "inv_at work sp xs P s" unfolding inv_def by blast
  note d = inv_atD [OF i]
  let ?st = "\<lambda>q. if stage s q = Checked nid then Told else stage s q"
  from assms(2) have g: "main s = Main_idle" "nid \<in> set (sent s)"
    and s': "s' = s\<lparr>sent := remove1 nid (sent s), notifiers := removeAll nid (notifiers s), stage := ?st\<rparr>"
    by (auto split: if_splits)
  from d(4) g(2) obtain p where p: "stage s p = Checked nid" "P p = None"
    and u: "\<And>q. stage s q = Checked nid \<Longrightarrow> q = p" unfolding ids_ok_def by blast
  have u: "stage s q = Checked nid \<longleftrightarrow> q = p" for q using p u by blast
  have st: "?st = (stage s)(p := Told)" by (simp add: fun_eq_iff u)
  obtain j where j: "jobs s p = Some j" and ok: "job_ok work (arg s p) (code s p) (set (sent s)) None (Checked nid) j"
    using jobs_ok_live [OF d(3), of p] p by auto
  have dist: "set (remove1 nid (sent s)) = set (sent s) - {nid}" using d(4) by (simp add: ids_ok_def)
  have "jobs_ok work (jobs s) ((stage s)(p := Told)) (arg s) (code s) (set (remove1 nid (sent s))) P"
    unfolding jobs_ok_def
  proof
    fix q
    show "case jobs s q of None \<Rightarrow> P q = None \<and> ((stage s)(p := Told)) q = Absent
      | Some j \<Rightarrow> job_ok work (arg s q) (code s q) (set (remove1 nid (sent s))) (P q) (((stage s)(p := Told)) q) j"
    proof (cases "q = p")
      case True
      then show ?thesis using j ok p by simp
    next
      case False
      then have "stage s q \<noteq> Checked nid" using u by blast
      with False show ?thesis
        using jobs_okD [OF d(3), of q] jobs_ok_None [OF d(3), of q] dist
        by (auto split: option.split intro: job_ok_other_id)
    qed
  qed
  moreover have "ids_ok ((stage s)(p := Told)) (removeAll nid (notifiers s)) (remove1 nid (sent s)) P"
    using d(4) p(1) by (rule ids_ok_remove)
  ultimately have "inv_at work sp xs P s'"
    using d g p by (auto simp: s' st inv_at_def pool_ok_def main_ok_def)
  then show ?thesis unfolding inv_def by blast
qed

text \<open>Freeing a job the main thread was told about.\<close>

lemma inv_free:
  assumes i: "inv_at work sp xs P s" and m: "main s = Main_idle" and g: "stage s p \<in> {New, Told}"
    and s': "s' = s\<lparr>jobs := (jobs s)(p := None), stage := (stage s)(p := Absent)\<rparr>"
  shows "inv work sp s'"
proof -
  note d = inv_atD [OF i]
  obtain j where j: "jobs s p = Some j" and ok: "job_ok work (arg s p) (code s p) (set (sent s)) (P p) (stage s p) j"
    using jobs_ok_live [OF d(3), of p] g by auto
  have pn: "P p = None" using job_ok_untold [OF ok] g by auto
  have "jobs_ok work (jobs s') (stage s') (arg s') (code s') (set (sent s')) P"
    using jobs_ok_free [OF d(3) pn] by (simp add: s')
  moreover have "circular (jobs s', pool_queue s') xs"
    using circular_upd_other [OF d(1) placed_None_queue [OF d(2) pn]] by (simp add: s')
  moreover have "ids_ok (stage s') (notifiers s') (sent s') P"
    using ids_ok_stage [OF d(4), of p Absent None] g pn by (auto simp: s' fun_upd_idem)
  moreover have "main_ok (main s') (stage s') (jobs s')"
    using d(5) g m by (auto simp: s' main_ok_def)
  ultimately have "inv_at work sp xs P s'"
    using d m by (auto simp: s' inv_at_def pool_ok_def)
  then show ?thesis unfolding inv_def by blast
qed

lemma lwt_unix_free_job_eq: "lwt_unix_free_job p h = Some h' \<Longrightarrow> h' = h(p := None)"
  by (auto simp: lwt_unix_free_job_def bind_Some_iff split: if_splits)

lemma inv_result:
  assumes "inv work sp s" "sys_step work (Result p) s = Some s'"
  shows "inv work sp s'"
proof -
  from assms(1) obtain xs P where i: "inv_at work sp xs P s" unfolding inv_def by blast
  from assms(2) have "main s = Main_idle" "stage s p = Told"
    and "s' = s\<lparr>jobs := (jobs s)(p := None), stage := (stage s)(p := Absent)\<rparr>"
    by (auto simp: lwt_unix_self_result_def bind_Some_iff dest!: lwt_unix_free_job_eq split: if_splits)
  with inv_free [OF i] show ?thesis by auto
qed

lemma inv_run_sync:
  assumes "inv work sp s" "sys_step work (Run_sync p) s = Some s'"
  shows "inv work sp s'"
proof -
  from assms(1) obtain xs P where i: "inv_at work sp xs P s" unfolding inv_def by blast
  from assms(2) have "main s = Main_idle" "stage s p = New"
    and "s' = s\<lparr>jobs := (jobs s)(p := None), stage := (stage s)(p := Absent)\<rparr>"
    by (auto simp: lwt_unix_run_job_sync_def lwt_unix_self_result_def run_worker_def upd_job_def bind_Some_iff
        dest!: lwt_unix_free_job_eq split: if_splits)
  with inv_free [OF i] show ?thesis by auto
qed

lemma inv_spurious:
  assumes "inv work True s" "sys_step work (Spurious i) s = Some s'"
  shows "inv work True s'"
proof -
  from assms(1) obtain xs P where iv: "inv_at work True xs P s" unfolding inv_def by blast
  note d = inv_atD [OF iv]
  from assms(2) have g: "i < length (workers s)" "workers s ! i = Waiting"
    and s': "s' = s\<lparr>workers := (workers s)[i := Woken]\<rparr>" by (auto split: if_splits)
  have "num Waiting ((workers s)[i := Woken]) \<le> num Waiting (workers s)"
    using num_update [OF g(1), of Waiting Woken] g(2) by simp
  then have "inv_at work True xs P s'"
    using d g placed_idle [OF d(2) g(1)] by (auto simp: s' inv_at_def pool_ok_def)
  then show ?thesis unfolding inv_def by blast
qed

section \<open>Steps of a worker\<close>

text \<open>How many steps the workers can still do before all of them wait.\<close>

fun rank :: "worker_pc \<Rightarrow> nat" where
  "rank (Exec Begin p) = 6"
| "rank (Exec Work p) = 5"
| "rank (Exec Finish p) = 4"
| "rank (Exec Unlock p) = 3"
| "rank (Exec Notify p) = 2"
| "rank Idle_lock = 1"
| "rank Woken = 1"
| "rank Waiting = 0"

definition work_left :: "nat list \<Rightarrow> worker_pc list \<Rightarrow> nat" where
  "work_left xs ws = 6 * length xs + sum_list (map rank ws)"

lemma rank_update:
  "i < length ws \<Longrightarrow> sum_list (map rank (ws[i := w])) + rank (ws ! i) = sum_list (map rank ws) + rank w"
proof (induction ws arbitrary: i)
  case (Cons a ws)
  then show ?case by (cases i) auto
qed simp

text \<open>
  A worker that executes a job always can do its next part, and that part moves the job to the
  next place, or ends it.
\<close>

fun exec_next :: "(string \<Rightarrow> 'x \<Rightarrow> 'x) \<Rightarrow> exec \<Rightarrow> 'x lwt_unix_job_scheme \<Rightarrow> exec option \<times> 'x lwt_unix_job_scheme \<times> int list" where
  "exec_next work Begin j = (Some Work, j\<lparr>job_state := LWT_UNIX_JOB_STATE_RUNNING, job_mutex := Mutex_free\<rparr>, [])"
| "exec_next work Work j = (Some Finish, lwt_unix_job.more_update (work (worker_fn j)) j, [])"
| "exec_next work Finish j = (Some Unlock, j\<lparr>job_state := LWT_UNIX_JOB_STATE_DONE, job_mutex := Mutex_held\<rparr>, [])"
| "exec_next work Unlock j = (if fast j = 0 then Some Notify else None, j\<lparr>job_mutex := Mutex_free\<rparr>, [])"
| "exec_next work Notify j = (None, j, [notification_id j])"

lemma talk_cong:
  "async j' = async j \<Longrightarrow> fast j' = fast j \<Longrightarrow> notification_id j' = notification_id j \<Longrightarrow> talk g j' = talk g j"
  by (cases g) simp_all

lemma execute_job_ok:
  assumes ok: "job_ok work a fn ids (Some (At e)) g j" and h: "h p = Some j"
    and n: "exec_next work e j = (e', j', l')"
  shows "execute_job work e p (h, l) = Some (e', h(p \<mapsto> j'), l @ l')"
    and "next_job j' = next_job j"
    and "job_ok work a fn (ids \<union> set l') (map_option At e') g j'"
    and "l' = [] \<or> e' = None \<and> (\<exists>nid. g = Checked nid \<and> l' = [nid])"
    and "job_state j = LWT_UNIX_JOB_STATE_DONE \<Longrightarrow> job_state j' = LWT_UNIX_JOB_STATE_DONE"
proof -
  show "execute_job work e p (h, l) = Some (e', h(p \<mapsto> j'), l @ l')"
    using ok h n by (cases e) (auto simp: run_worker_def fun_upd_idem)
  show "next_job j' = next_job j" using n by (cases e) auto
  show "l' = [] \<or> e' = None \<and> (\<exists>nid. g = Checked nid \<and> l' = [nid])" using ok n by (cases e) auto
  show "job_state j = LWT_UNIX_JOB_STATE_DONE \<Longrightarrow> job_state j' = LWT_UNIX_JOB_STATE_DONE"
    using ok n by (cases e) auto
  have t: "talk g j' = talk g j" using n by (intro talk_cong; cases e) (auto simp: async_def)
  show "job_ok work a fn (ids \<union> set l') (map_option At e') g j'"
  proof (cases e)
    case Unlock
    then show ?thesis using ok n t by (cases g) (auto simp: async_def split: if_splits)
  qed (use ok n t in auto)
qed

lemma inv_worker_exec:
  assumes i: "inv_at work sp xs P s" and w: "i < length (workers s)" "workers s ! i = Exec e p"
  shows "\<exists>s' xs' P'. worker_loop work i s = Some s' \<and> inv_at work sp xs' P' s' \<and>
    work_left xs' (workers s') < work_left xs (workers s)"
proof -
  note d = inv_atD [OF i]
  have pl: "P p = Some (At e)" using placed_at [OF d(2) w] .
  obtain j where j: "jobs s p = Some j" and ok: "job_ok work (arg s p) (code s p) (set (sent s)) (Some (At e)) (stage s p) j"
    using jobs_ok_live [OF d(3), of p] pl by auto
  obtain e' j' n where en: "exec_next work e j = (e', j', n)" by (metis prod_cases3)
  define l' where "l' = sent s @ n"
  note x = execute_job_ok(1) [where h = "jobs s" and p = p and l = "sent s", OF ok j en, folded l'_def]
  note nx = execute_job_ok(2) [where h = "jobs s" and p = p, OF ok j en]
  have ok': "job_ok work (arg s p) (code s p) (set l') (map_option At e') (stage s p) j'"
    using execute_job_ok(3) [where h = "jobs s" and p = p, OF ok j en] by (simp add: l'_def)
  have l': "l' = sent s \<or> e' = None \<and> (\<exists>nid. stage s p = Checked nid \<and> l' = sent s @ [nid])"
    using execute_job_ok(4) [where h = "jobs s" and p = p, OF ok j en] by (auto simp: l'_def)
  note dn = execute_job_ok(5) [where h = "jobs s" and p = p, OF ok j en]
  let ?w = "case e' of Some e' \<Rightarrow> Exec e' p | None \<Rightarrow> Idle_lock"
  let ?s = "s\<lparr>jobs := (jobs s)(p \<mapsto> j'), sent := l', workers := (workers s)[i := ?w]\<rparr>"
  let ?P = "P(p := map_option At e')"
  have wl: "worker_loop work i s = Some ?s" using w x by (simp add: worker_loop_def)
  have sub: "set (sent s) \<subseteq> set l'" using l' by auto
  have "jobs_ok work (jobs ?s) (stage ?s) (arg ?s) (code ?s) (set (sent ?s)) ?P"
    using jobs_ok_upd_same [OF d(3) sub ok'] by simp
  moreover have "placed (main ?s) xs (workers ?s) ?P"
    using placed_advance [OF d(2) w] placed_leave [OF d(2) w, of Idle_lock] by (cases e') auto
  moreover have "ids_ok (stage ?s) (notifiers ?s) (sent ?s) ?P"
  proof (cases "l' = sent s")
    case True
    then show ?thesis using ids_ok_place [OF d(4), of p "map_option At e'"] pl by simp
  next
    case False
    then obtain nid where n: "e' = None" "stage s p = Checked nid" "l' = sent s @ [nid]" using l' by blast
    have "nid \<notin> set (sent s)" using d(4) n(2) pl unfolding ids_ok_def by (metis option.distinct(1))
    then show ?thesis using ids_ok_place [OF d(4), of p None] pl n by (auto simp: ids_ok_def)
  qed
  moreover have "main_ok (main ?s) (stage ?s) (jobs ?s)"
    using d(5) dn j by (auto simp: main_ok_def)
  moreover have "pool_ok sp xs ?s"
    using d(6) w num_update [OF w(1), of Waiting ?w] num_update [OF w(1), of Woken ?w]
    by (cases e') (auto simp: pool_ok_def)
  moreover have "circular (jobs ?s, pool_queue ?s) xs" using circular_upd [OF d(1) j nx] by simp
  ultimately have "inv_at work sp xs ?P ?s" by (simp add: inv_at_def)
  moreover have "rank ?w < rank (workers s ! i)"
    using en w by (cases e) (auto split: if_splits)
  then have "work_left xs (workers ?s) < work_left xs (workers s)"
    using rank_update [OF w(1), of ?w] by (simp add: work_left_def)
  ultimately show ?thesis using wl by blast
qed

text \<open>A worker between two jobs always can go on: it takes the oldest job or waits.\<close>

lemma inv_worker_take:
  assumes i: "inv_at work sp xs P s" and w: "i < length (workers s)" "workers s ! i \<in> {Idle_lock, Woken}"
  shows "\<exists>s' xs' P'. worker_loop work i s = Some s' \<and> inv_at work sp xs' P' s' \<and>
    work_left xs' (workers s') < work_left xs (workers s)"
proof -
  note d = inv_atD [OF i]
  have ne: "workers s ! i \<noteq> Exec e q" for e q using w by auto
  have mx: "pool_mutex s = Mutex_free" using d(6) w by (auto simp: pool_ok_def)
  have wl: "worker_loop work i s = worker_take i s" using w by (auto simp: worker_loop_def)
  show ?thesis
  proof (cases xs)
    case Nil
    let ?s = "s\<lparr>thread_waiting_count := thread_waiting_count s + 1, workers := (workers s)[i := Waiting]\<rparr>"
    have q: "pool_queue s = None" using d(1) Nil by simp
    have s': "worker_take i s = Some ?s" using mx q by (simp add: worker_take_def)
    have "pool_ok sp [] ?s"
      using d(6) w num_update [OF w(1), of Waiting Waiting] by (auto simp: pool_ok_def)
    then have "inv_at work sp [] P ?s"
      using d Nil placed_idle [OF d(2) w(1) ne, of Waiting] by (auto simp: inv_at_def)
    moreover have "work_left [] (workers ?s) < work_left xs (workers s)"
      using rank_update [OF w(1), of Waiting] w(2) Nil by (auto simp: work_left_def)
    ultimately show ?thesis using s' wl by metis
  next
    case (Cons p ys)
    from jq.deq_represents [OF d(1) [unfolded Cons]] obtain h q where
      e: "dequeue_job (jobs s, pool_queue s) = Some (p, h, q)" "circular (h, q) ys" by auto
    let ?s = "s\<lparr>jobs := h, pool_queue := q, workers := (workers s)[i := Exec Begin p]\<rparr>"
    have "pool_queue s \<noteq> None" using d(1) Cons by (auto simp: circular_def)
    then have s': "worker_take i s = Some ?s" using mx e by (auto simp: worker_take_def)
    have pl: "P p = Some Queued" using d(2) Cons by (metis list.set_intros(1) placed_def)
    obtain j where j: "jobs s p = Some j" and ok: "job_ok work (arg s p) (code s p) (set (sent s)) (Some Queued) (stage s p) j"
      using jobs_ok_live [OF d(3), of p] pl by auto
    have "jobs_ok work (jobs s) (stage s) (arg s) (code s) (set (sent s)) (P(p \<mapsto> At Begin))"
      using jobs_ok_upd_same [OF d(3) order.refl, of p "Some (At Begin)" j] ok j by (simp add: fun_upd_idem)
    then have jk: "jobs_ok work h (stage s) (arg s) (code s) (set (sent s)) (P(p \<mapsto> At Begin))"
      using dequeue_same_but_next [OF e(1)] by (rule jobs_ok_next)
    have "pool_ok sp ys ?s"
      using d(6) w Cons num_update [OF w(1), of Waiting "Exec Begin p"] num_update [OF w(1), of Woken "Exec Begin p"]
      by (auto simp: pool_ok_def)
    moreover have "placed (main s) ys (workers ?s) (P(p \<mapsto> At Begin))"
      using placed_take [OF d(2) [unfolded Cons] w(1) ne] circular_distinct [OF d(1)] Cons by simp
    moreover have "main_ok (main s) (stage s) h"
      using main_ok_next [OF d(5) dequeue_same_but_next [OF e(1)]] .
    ultimately have "inv_at work sp ys (P(p \<mapsto> At Begin)) ?s"
      using d e(2) jk ids_ok_place [OF d(4), of p] pl by (simp add: inv_at_def)
    moreover have "work_left ys (workers ?s) < work_left xs (workers s)"
      using rank_update [OF w(1), of "Exec Begin p"] w(2) Cons by (auto simp: work_left_def)
    ultimately show ?thesis using s' wl by metis
  qed
qed

lemma inv_worker_at:
  assumes "inv_at work sp xs P s" "i < length (workers s)" "workers s ! i \<noteq> Waiting"
  shows "\<exists>s' xs' P'. worker_loop work i s = Some s' \<and> inv_at work sp xs' P' s' \<and>
    work_left xs' (workers s') < work_left xs (workers s)"
  using assms inv_worker_exec [OF assms(1,2)] inv_worker_take [OF assms(1,2)]
  by (cases "workers s ! i") auto

lemma inv_worker:
  assumes "inv work sp s" "i < length (workers s)" "workers s ! i \<noteq> Waiting"
  shows "\<exists>s'. worker_loop work i s = Some s' \<and> inv work sp s'"
  using assms inv_worker_at unfolding inv_def by metis

lemma worker_loop_enabled:
  "worker_loop work i s = Some s' \<Longrightarrow> i < length (workers s) \<and> workers s ! i \<noteq> Waiting"
  by (auto simp: worker_loop_def split: if_splits)

theorem reach_inv: "reach work sp s \<Longrightarrow> inv work sp s"
proof (induction rule: reach.induct)
  case init
  show ?case by (rule inv_init)
next
  case (step s e s')
  show ?case
  proof (cases e)
    case (Worker i)
    with step(2) have w: "worker_loop work i s = Some s'" by simp
    with inv_worker [OF step.IH, of i] worker_loop_enabled [OF w] show ?thesis by auto
  next
    case (Spurious i)
    with step have "sp = True" by simp
    with step Spurious inv_spurious show ?thesis by blast
  next
    case (Create p fn rfn j)
    show ?thesis using inv_create [OF step.IH step.hyps(2) [unfolded Create]] .
  next
    case (Start p am)
    show ?thesis using inv_start [OF step.IH step.hyps(2) [unfolded Start]] .
  next
    case (Start_pool err k)
    show ?thesis using inv_start_pool [OF step.IH step.hyps(2) [unfolded Start_pool]] .
  next
    case Start_test
    show ?thesis using inv_start_test [OF step.IH step.hyps(2) [unfolded Start_test]] .
  next
    case Start_sync
    show ?thesis using inv_start_sync [OF step.IH step.hyps(2) [unfolded Start_sync]] .
  next
    case (Check p nid)
    show ?thesis using inv_check [OF step.IH step.hyps(2) [unfolded Check]] .
  next
    case (Take nid)
    show ?thesis using inv_take [OF step.IH step.hyps(2) [unfolded Take]] .
  next
    case (Result p)
    show ?thesis using inv_result [OF step.IH step.hyps(2) [unfolded Result]] .
  next
    case (Run_sync p)
    show ?thesis using inv_run_sync [OF step.IH step.hyps(2) [unfolded Run_sync]] .
  next
    case (Set_pool_size n)
    show ?thesis using inv_pool_size [OF step.IH step.hyps(2) [unfolded Set_pool_size]] .
  qed
qed

end
