(* ===== verification/Pool_Props.thy ===== *)
theory Pool_Props
  imports Pool_Safety
begin

text \<open>
  What the worker pool guarantees, stated over all reachable states of the concurrent system:
  memory safety and absence of deadlock, one execution and one report per job, exact counters,
  bounded number of threads, and that no started job is ever forgotten.
\<close>

section \<open>Runs\<close>

lemma reach_run:
  assumes "reach work sp s" "iter_opt (sys_step work) es s = Some s'" "sp \<or> \<not> list_ex is_spurious es"
  shows "reach work sp s'"
  using assms
proof (induction es arbitrary: s)
  case (Cons e es)
  from Cons.prems(2) obtain t where t: "sys_step work e s = Some t" "iter_opt (sys_step work) es t = Some s'"
    by (auto simp: bind_Some_iff)
  have "reach work sp t" using reach.step [OF Cons.prems(1) t(1)] Cons.prems(3) by auto
  then show ?case using Cons.IH t(2) Cons.prems(3) by auto
qed simp

text \<open>A system whose worker functions add 1 to a number, and what its runs lead to.\<close>

definition demo_work :: "string \<Rightarrow> nat \<Rightarrow> nat" where
  "demo_work fn x = x + 1"

definition demo_arg :: "nat \<Rightarrow> nat lwt_unix_job_scheme" where
  "demo_arg x = \<lparr>next_job = None, notification_id = 0, worker_fn = [], result_fn = [],
     job_state = LWT_UNIX_JOB_STATE_PENDING, fast = 0, job_mutex = Mutex_uninit,
     async_method = LWT_UNIX_ASYNC_METHOD_NONE, \<dots> = x\<rparr>"

definition demo_start :: "nat \<Rightarrow> nat event list" where
  "demo_start p = [Create p ''w'' ''r'' (demo_arg p), Start p LWT_UNIX_ASYNC_METHOD_DETACH, Start_pool 0 0, Start_test]"

definition demo_run :: "nat event list \<Rightarrow> nat sys option" where
  "demo_run es = iter_opt (sys_step demo_work) es sys_init"

lemmas demo_defs =
  demo_run_def demo_start_def demo_work_def demo_arg_def sys_init_def start_job_begin_def start_job_pool_def start_job_done_def
  start_job_sync_def lwt_unix_check_job_def lwt_unix_self_result_def initialize_threading_def run_worker_def
  worker_loop_def worker_take_def condition_signal_def enqueue_job_def dequeue_job_def Let_def Val_bool_def upd_job_def
  lwt_unix_set_pool_size_def

lemma demo_reach: "demo_run es = Some s \<Longrightarrow> \<not> list_ex is_spurious es \<Longrightarrow> reach demo_work sp s"
  unfolding demo_run_def using reach_run [OF reach.init] by blast

lemma demo_reach_spurious: "demo_run es = Some s \<Longrightarrow> reach demo_work True s"
  unfolding demo_run_def using reach_run [OF reach.init] by blast

text \<open>The invariant, spelled out.\<close>

lemma reach_inv_at:
  assumes "reach work sp s"
  obtains xs P where "inv_at work sp xs P s"
  using reach_inv [OF assms] unfolding inv_def by blast

lemma drain_at:
  assumes "inv_at work sp xs P s" "iter_opt (worker_loop work) is s = Some s'"
  shows "\<exists>xs' P'. inv_at work sp xs' P' s' \<and> length is + work_left xs' (workers s') \<le> work_left xs (workers s)"
  using assms
proof (induction "is" arbitrary: s xs P)
  case (Cons i "is")
  from Cons.prems(2) obtain t where t: "worker_loop work i s = Some t" "iter_opt (worker_loop work) is t = Some s'"
    by (auto simp: bind_Some_iff)
  from inv_worker_at [OF Cons.prems(1), of i] worker_loop_enabled [OF t(1)] t(1) obtain ys Q where
    a: "inv_at work sp ys Q t" "work_left ys (workers t) < work_left xs (workers s)" by auto
  from Cons.IH [OF a(1) t(2)] a(2) show ?case by fastforce
qed auto

lemma worker_frame:
  assumes "worker_loop work i s = Some s'"
  shows "main s' = main s \<and> stage s' = stage s \<and> arg s' = arg s \<and> code s' = code s \<and> notifiers s' = notifiers s"
  using assms unfolding worker_loop_def worker_take_def
  by (auto simp: bind_Some_iff split: if_splits worker_pc.splits option.splits)

lemma workers_frame:
  "iter_opt (worker_loop work) is s = Some s' \<Longrightarrow>
     main s' = main s \<and> stage s' = stage s \<and> arg s' = arg s \<and> code s' = code s \<and> notifiers s' = notifiers s"
proof (induction "is" arbitrary: s)
  case (Cons i "is")
  then show ?case using worker_frame by (fastforce simp: bind_Some_iff)
qed simp

text \<open>Taking a job from the queue only changes the links of the queue.\<close>

lemma worker_take_jobs:
  assumes "worker_take i s = Some s'" "jobs s p = Some j"
  shows "\<exists>j'. jobs s' p = Some j' \<and> job_state j \<le> job_state j'"
proof (cases "pool_queue s")
  case None
  with assms show ?thesis by (auto simp: worker_take_def bind_Some_iff)
next
  case (Some q)
  with assms(1) obtain r h q' where d: "dequeue_job (jobs s, pool_queue s) = Some (r, h, q')" "jobs s' = h"
    by (auto simp: worker_take_def bind_Some_iff)
  have "rel_option (\<lambda>j j'. \<exists>v. j' = j\<lparr>next_job := v\<rparr>) (jobs s p) (jobs s' p)"
    using dequeue_same_but_next [OF d(1)] d(2) by (simp add: same_but_next_def)
  with assms(2) show ?thesis by (auto simp: option_rel_Some1)
qed

text \<open>When all workers wait, the queue is empty and nobody executes a job.\<close>

lemma quiescent_places:
  assumes "inv_at work False xs P s" "\<forall>w\<in>set (workers s). w = Waiting" "main s = Main_idle"
  shows "xs = []" "P p = None"
proof -
  note d = inv_atD [OF assms(1)]
  have "num Woken (workers s) = 0" using assms(2) num_pos [of Woken "workers s"] by fastforce
  then show x: "xs = []" using d(6) by (simp add: pool_ok_def)
  show "P p = None"
  proof (cases "P p")
    case (Some pl)
    then show ?thesis
      using d(2) x assms(2,3) unfolding placed_def by (cases pl) (metis empty_iff list.set(1) main_pc.distinct worker_pc.distinct)+
  qed
qed

lemma quiescent_jobs:
  assumes i: "inv_at work False xs P s" and m: "main s = Main_idle" and stuck: "\<forall>i. worker_loop work i s = None"
  shows "pool_queue s = None \<and>
    (\<forall>p. stage s p = Started \<longrightarrow> (\<exists>j. jobs s p = Some j \<and> job_state j = LWT_UNIX_JOB_STATE_DONE)) \<and>
    (\<forall>p nid. stage s p = Checked nid \<longrightarrow> nid \<in> set (sent s))"
proof -
  note d = inv_atD [OF i]
  have "w = Waiting" if w: "w \<in> set (workers s)" for w
    using stuck inv_worker_at [OF i] w by (metis in_set_conv_nth option.distinct(1))
  then have z: "xs = []" "P p = None" for p using quiescent_places [OF i _ m] by blast+
  have ok: "\<exists>j. jobs s p = Some j \<and> job_ok work (arg s p) (code s p) (set (sent s)) None (stage s p) j"
    if "stage s p \<noteq> Absent" for p using jobs_ok_live [OF d(3), of p] that z by auto
  have "\<exists>j. jobs s p = Some j \<and> job_state j = LWT_UNIX_JOB_STATE_DONE" if "stage s p = Started" for p
    using ok [of p] that by auto
  moreover have "nid \<in> set (sent s)" if "stage s p = Checked nid" for p nid
    using ok [of p] that by auto
  ultimately show ?thesis using d(1) z(1) by simp
qed

section \<open>Safety\<close>

text \<open>
  C2. A worker never touches a job that was freed, never misuses a mutex and never blocks on one:
  in every reachable state, whatever the interleaving and even with spurious wakeups, each worker
  that is not waiting for work can perform its next step.
\<close>

theorem pool_worker_safe:
  assumes "reach work sp s" and "i < length (workers s)" and "workers s ! i \<noteq> Waiting"
  shows "\<exists>s'. worker_loop work i s = Some s'"
  using inv_worker [OF reach_inv [OF assms(1)] assms(2,3)] by blast

theorem pool_worker_safe_witness:
  "\<exists>s s'. reach demo_work False s \<and> workers s = [Exec Begin 1] \<and> worker_loop demo_work 0 s = Some s'"
proof -
  obtain s where s: "demo_run (demo_start 1) = Some s" "workers s = [Exec Begin 1]"
    by (simp add: demo_defs)
  have r: "reach demo_work False s" using s(1) by (rule demo_reach) (simp add: demo_start_def)
  show ?thesis using pool_worker_safe [OF r, of 0] r s(2) by auto
qed

lemma job_mutex_free_or_unlock:
  "job_ok work a fn ids pl g j \<Longrightarrow> g \<in> {Starting, Started} \<Longrightarrow> job_mutex j = Mutex_free \<or> pl = Some (At Unlock)"
  by (induction work a fn ids pl g j rule: job_ok.induct) auto

lemma launch_defined:
  assumes "inv_at work sp xs P s" "main s = Main_launch p"
  shows "\<exists>k. start_job_pool err k p s \<noteq> None"
proof -
  note d = inv_atD [OF assms(1)]
  have mx: "pool_mutex s = Mutex_free" using d(6) assms(2) by (simp add: pool_ok_def)
  have pl: "P p = Some Launch" using d(2) assms(2) by (metis placed_def)
  then obtain j where j: "jobs s p = Some j" using jobs_ok_live [OF d(3), of p] by blast
  have "p \<notin> set xs" using d(2) pl by (auto simp: placed_def)
  from jq.enq_represents [OF d(1) this] j obtain h q where e: "enqueue_job p (jobs s, pool_queue s) = Some (h, q)" by auto
  obtain k ws where "condition_signal k (workers s) = Some ws"
    unfolding condition_signal_def by (metis in_set_conv_nth)
  then have "start_job_pool err k p s \<noteq> None" using mx e by (auto simp: start_job_pool_def Let_def)
  then show ?thesis by blast
qed

text \<open>
  C9. The main thread never touches a freed job either, and only waits for a worker that is about
  to release the mutex: in every reachable state the critical section of
  \<^verbatim>\<open>lwt_unix_start_job\<close>, its test, its wait, \<^verbatim>\<open>lwt_unix_check_job\<close> and \<^verbatim>\<open>lwt_unix_self_result\<close> are defined
  where the protocol allows them, except that the wait and the check may have to let the worker that
  holds the mutex of the job make its next step.
\<close>

theorem pool_main_safe:
  assumes "reach work sp s"
  shows "(\<forall>p. main s = Main_launch p \<longrightarrow> (\<exists>k. start_job_pool err k p s \<noteq> None)) \<and>
    (\<forall>p. main s = Main_test p \<longrightarrow> start_job_done p s \<noteq> None) \<and>
    (\<forall>p. main s = Main_sync p \<longrightarrow> start_job_sync p s \<noteq> None \<or> Exec Unlock p \<in> set (workers s)) \<and>
    (\<forall>p. stage s p = Started \<longrightarrow> lwt_unix_check_job p nid s \<noteq> None \<or> Exec Unlock p \<in> set (workers s)) \<and>
    (\<forall>p. stage s p = Told \<longrightarrow> lwt_unix_self_result res p s \<noteq> None)"
proof -
  obtain xs P where i: "inv_at work sp xs P s" using assms by (rule reach_inv_at)
  note d = inv_atD [OF i]
  have started: "\<exists>j. jobs s p = Some j \<and> (job_mutex j = Mutex_free \<or> Exec Unlock p \<in> set (workers s))"
    if "stage s p \<in> {Starting, Started}" for p
  proof -
    obtain j where "jobs s p = Some j" "job_ok work (arg s p) (code s p) (set (sent s)) (P p) (stage s p) j"
      using jobs_ok_live [OF d(3), of p] \<open>stage s p \<in> {Starting, Started}\<close> by auto
    moreover from this(2) that have "job_mutex j = Mutex_free \<or> P p = Some (At Unlock)"
      by (rule job_mutex_free_or_unlock)
    moreover have "P p = Some (At Unlock) \<Longrightarrow> Exec Unlock p \<in> set (workers s)"
      using d(2) by (simp add: placed_def)
    ultimately show ?thesis by blast
  qed
  have told: "lwt_unix_self_result res p s \<noteq> None" if "stage s p = Told" for p
  proof -
    obtain j where j: "jobs s p = Some j" "job_ok work (arg s p) (code s p) (set (sent s)) (P p) Told j"
      using jobs_ok_live [OF d(3), of p] \<open>stage s p = Told\<close> by auto
    with job_ok_untold [OF j(2)] show ?thesis
      by (auto simp: lwt_unix_self_result_def lwt_unix_free_job_def async_def)
  qed
  have st: "stage s p = Starting" if "main s \<in> {Main_test p, Main_sync p}" for p
    using d(5) that unfolding main_ok_def by auto
  have "start_job_done p s \<noteq> None" if "main s = Main_test p" for p
    using started [of p] st [of p] that by (auto simp: start_job_done_def)
  moreover have "start_job_sync p s \<noteq> None \<or> Exec Unlock p \<in> set (workers s)" if "main s = Main_sync p" for p
    using started [of p] st [of p] that by (auto simp: start_job_sync_def)
  moreover have "lwt_unix_check_job p nid s \<noteq> None \<or> Exec Unlock p \<in> set (workers s)" if "stage s p = Started" for p
    using started [of p] that by (auto simp: lwt_unix_check_job_def Let_def split: lwt_unix_async_method.split)
  ultimately show ?thesis using launch_defined [OF i] told by blast
qed

theorem pool_main_safe_witness:
  "\<exists>s. reach demo_work False s \<and> stage s 1 = Started \<and>
     (lwt_unix_check_job 1 7 s \<noteq> None \<or> Exec Unlock 1 \<in> set (workers s))"
proof -
  obtain s where s: "demo_run (demo_start 1) = Some s" "stage s 1 = Started"
    by (simp add: demo_defs)
  have r: "reach demo_work False s" using s(1) by (rule demo_reach) (simp add: demo_start_def)
  show ?thesis using pool_main_safe [OF r, of 0 7 "\<lambda>_ _. ()"] r s(2) by blast
qed

section \<open>One execution, one report\<close>

text \<open>
  C3. A job that is reported as finished (by \<^verbatim>\<open>lwt_unix_start_job\<close>, by \<^verbatim>\<open>lwt_unix_check_job\<close> or by its
  notification) has been executed exactly once: \<^verbatim>\<open>lwt_unix_self_result\<close> computes the result from the
  worker function applied once to the arguments of the job, frees the job and nothing else, and no
  thread works on that job or holds it in the queue.
\<close>

theorem told_job_result:
  assumes "reach work sp s" and "stage s p = Told"
  shows "\<exists>j. jobs s p = Some j \<and>
     lwt_unix_self_result res p s =
       Some (res (result_fn j) (work (code s p) (arg s p)), s\<lparr>jobs := (jobs s)(p := None)\<rparr>) \<and>
     (\<forall>e. Exec e p \<notin> set (workers s)) \<and> (\<forall>xs. circular (jobs s, pool_queue s) xs \<longrightarrow> p \<notin> set xs)"
proof -
  obtain xs P where i: "inv_at work sp xs P s" using assms(1) by (rule reach_inv_at)
  note d = inv_atD [OF i]
  obtain j where j: "jobs s p = Some j" "job_ok work (arg s p) (code s p) (set (sent s)) (P p) Told j"
    using jobs_ok_live [OF d(3), of p] assms(2) by auto
  have pn: "P p = None" using job_ok_untold [OF j(2)] by simp
  then have o: "lwt_unix_job.more j = work (code s p) (arg s p)" "async j \<longrightarrow> job_mutex j = Mutex_free"
    using j(2) by auto
  have "lwt_unix_free_job p (jobs s) = Some ((jobs s)(p := None))"
    using j(1) o(2) by (auto simp: lwt_unix_free_job_def async_def)
  then have "lwt_unix_self_result res p s =
      Some (res (result_fn j) (work (code s p) (arg s p)), s\<lparr>jobs := (jobs s)(p := None)\<rparr>)"
    using j(1) o(1) by (simp add: lwt_unix_self_result_def)
  moreover have "\<forall>e. Exec e p \<notin> set (workers s)" using d(2) pn by (simp add: placed_def)
  moreover have "p \<notin> set ys" if "circular (jobs s, pool_queue s) ys" for ys
    using circular_unique [OF d(1) that] d(2) pn by (simp add: placed_def)
  ultimately show ?thesis using j(1) by blast
qed

theorem told_job_result_witness:
  "\<exists>s s'. reach demo_work False s \<and> stage s 1 = Told \<and> arg s 1 = 1 \<and>
     lwt_unix_self_result (\<lambda>_ x. x) 1 s = Some (2, s')"
proof -
  obtain s where s: "demo_run (demo_start 1 @ replicate 4 (Worker 0) @ [Check 1 7]) = Some s"
      "stage s 1 = Told" "arg s 1 = 1"
    by (simp add: demo_defs numeral_eq_Suc)
  have r: "reach demo_work False s" using s(1) by (rule demo_reach) (simp add: demo_start_def numeral_eq_Suc)
  show ?thesis using told_job_result [OF r s(2), of "\<lambda>_ x. x"] r s(2,3) by (auto simp: demo_work_def)
qed

lemma sent_job_finished:
  assumes "reach work sp s"
  shows "distinct (sent s) \<and>
    (\<forall>nid\<in>set (sent s). \<exists>!p. stage s p = Checked nid) \<and>
    (\<forall>nid\<in>set (sent s). \<forall>p. stage s p = Checked nid \<longrightarrow>
       (\<exists>j. jobs s p = Some j \<and> job_state j = LWT_UNIX_JOB_STATE_DONE \<and> job_mutex j = Mutex_free \<and>
            lwt_unix_job.more j = work (code s p) (arg s p)) \<and>
       (\<forall>e. Exec e p \<notin> set (workers s)))"
proof -
  obtain xs P where i: "inv_at work sp xs P s" using assms by (rule reach_inv_at)
  note d = inv_atD [OF i]
  have u: "\<exists>p. stage s p = Checked nid \<and> P p = None \<and> (\<forall>q. stage s q = Checked nid \<longrightarrow> q = p)"
    if "nid \<in> set (sent s)" for nid
    using d(4) that unfolding ids_ok_def by metis
  have fin: "(\<exists>j. jobs s p = Some j \<and> job_state j = LWT_UNIX_JOB_STATE_DONE \<and> job_mutex j = Mutex_free \<and>
      lwt_unix_job.more j = work (code s p) (arg s p)) \<and> (\<forall>e. Exec e p \<notin> set (workers s))"
    if "nid \<in> set (sent s)" "stage s p = Checked nid" for nid p
  proof -
    have pn: "P p = None" using u [OF that(1)] that(2) by metis
    then obtain j where "jobs s p = Some j" "job_ok work (arg s p) (code s p) (set (sent s)) None (Checked nid) j"
      using jobs_ok_live [OF d(3), of p] \<open>stage s p = Checked nid\<close> by auto
    moreover have "\<forall>e. Exec e p \<notin> set (workers s)" using d(2) pn by (simp add: placed_def)
    ultimately show ?thesis by auto
  qed
  have "distinct (sent s)" using d(4) by (simp add: ids_ok_def)
  moreover have "\<exists>!p. stage s p = Checked nid" if "nid \<in> set (sent s)" for nid
    using u [OF that] by metis
  ultimately show ?thesis using fin by blast
qed



section \<open>Progress\<close>

text \<open>
  C5. No started job is forgotten (without spurious wakeups): from every reachable state in which the
  main thread is idle, whatever the order in which the workers run, they make a bounded number of
  steps; and whenever none of them can go on any more, the queue is empty, every job that
  \<^verbatim>\<open>lwt_unix_start_job\<close> left to the pool is done, and the notification of every job the main thread
  waits for has been sent.
\<close>

theorem no_job_forgotten:
  assumes "reach work False s" and "main s = Main_idle"
  shows "\<exists>n. \<forall>is s'. iter_opt (worker_loop work) is s = Some s' \<longrightarrow> length is \<le> n \<and>
     ((\<exists>i. worker_loop work i s' \<noteq> None) \<or>
      pool_queue s' = None \<and>
      (\<forall>p. stage s p = Started \<longrightarrow> (\<exists>j. jobs s' p = Some j \<and> job_state j = LWT_UNIX_JOB_STATE_DONE)) \<and>
      (\<forall>p nid. stage s p = Checked nid \<longrightarrow> nid \<in> set (sent s')))"
proof -
  obtain xs P where i: "inv_at work False xs P s" using assms(1) by (rule reach_inv_at)
  {
    fix "is" s' assume run: "iter_opt (worker_loop work) is s = Some s'"
    from drain_at [OF i run] obtain ys Q where
      q: "inv_at work False ys Q s'" "length is \<le> work_left xs (workers s)" by auto
    have fr: "main s' = Main_idle" "stage s' = stage s" using workers_frame [OF run] assms(2) by auto
    have "pool_queue s' = None \<and>
      (\<forall>p. stage s p = Started \<longrightarrow> (\<exists>j. jobs s' p = Some j \<and> job_state j = LWT_UNIX_JOB_STATE_DONE)) \<and>
      (\<forall>p nid. stage s p = Checked nid \<longrightarrow> nid \<in> set (sent s'))" if "\<forall>i. worker_loop work i s' = None"
      using quiescent_jobs [OF q(1) fr(1) that] fr(2) by simp
    with q(2) have "length is \<le> work_left xs (workers s) \<and>
     ((\<exists>i. worker_loop work i s' \<noteq> None) \<or>
      pool_queue s' = None \<and>
      (\<forall>p. stage s p = Started \<longrightarrow> (\<exists>j. jobs s' p = Some j \<and> job_state j = LWT_UNIX_JOB_STATE_DONE)) \<and>
      (\<forall>p nid. stage s p = Checked nid \<longrightarrow> nid \<in> set (sent s')))" by blast
  }
  then show ?thesis by blast
qed

theorem no_job_forgotten_witness:
  "\<exists>s. reach demo_work False s \<and> main s = Main_idle \<and> stage s 1 = Checked 7 \<and>
     (\<exists>n. \<forall>is s'. iter_opt (worker_loop demo_work) is s = Some s' \<longrightarrow> length is \<le> n \<and>
        ((\<exists>i. worker_loop demo_work i s' \<noteq> None) \<or> 7 \<in> set (sent s')))"
proof -
  obtain s where s: "demo_run (demo_start 1 @ [Check 1 7]) = Some s" "main s = Main_idle" "stage s 1 = Checked 7"
    by (simp add: demo_defs)
  have r: "reach demo_work False s" using s(1) by (rule demo_reach) (simp add: demo_start_def)
  show ?thesis using no_job_forgotten [OF r s(2)] r s(2,3) by blast
qed

text \<open>
  C14. The counters are exact (without spurious wakeups): \<^verbatim>\<open>thread_waiting_count\<close> is the number of
  workers waiting on the condition variable, \<^verbatim>\<open>thread_count\<close> the number of workers, and when a job is in
  the queue some worker has been woken to take it.
\<close>

theorem pool_counters_exact:
  assumes "reach work False s"
  shows "thread_waiting_count s = int (length (filter ((=) Waiting) (workers s))) \<and>
    thread_count s = int (length (workers s)) \<and> (pool_queue s \<noteq> None \<longrightarrow> Woken \<in> set (workers s))"
proof -
  obtain xs P where i: "inv_at work False xs P s" using assms by (rule reach_inv_at)
  note d = inv_atD [OF i]
  have "Woken \<in> set (workers s)" if "pool_queue s \<noteq> None"
  proof -
    have "xs \<noteq> []" using d(1) that by (auto simp: circular_def)
    then have "0 < num Woken (workers s)" using d(6) by (cases xs) (auto simp: pool_ok_def)
    then show ?thesis by (simp add: num_pos)
  qed
  then show ?thesis using d(6) by (simp add: pool_ok_def num_def)
qed

theorem pool_counters_exact_witness:
  "\<exists>s. reach demo_work False s \<and> workers s = [Woken] \<and> pool_queue s = Some 2 \<and> thread_waiting_count s = 0"
proof -
  obtain s where s: "demo_run (demo_start 1 @ replicate 5 (Worker 0) @ demo_start 2) = Some s"
      "workers s = [Woken]" "pool_queue s = Some 2"
    by (simp add: demo_defs numeral_eq_Suc)
  have r: "reach demo_work False s" using s(1) by (rule demo_reach) (simp add: demo_start_def numeral_eq_Suc)
  show ?thesis using pool_counters_exact [OF r] r s(2,3) by auto
qed

text \<open>
  The state of a job only moves forward, from pending to running to done: no step of a worker takes it back, and no step of a worker frees a job.
\<close>

theorem job_state_forward:
  assumes "reach work sp s" and "worker_loop work i s = Some s'" and "jobs s p = Some j"
  shows "\<exists>j'. jobs s' p = Some j' \<and> job_state j \<le> job_state j'"
proof -
  obtain xs P where inv: "inv_at work sp xs P s" using assms(1) by (rule reach_inv_at)
  note d = inv_atD [OF inv]
  have w: "i < length (workers s)" using worker_loop_enabled [OF assms(2)] by simp
  show ?thesis
  proof (cases "workers s ! i")
    case (Exec e q)
    obtain k where k: "jobs s q = Some k" and ok: "job_ok work (arg s q) (code s q) (set (sent s)) (Some (At e)) (stage s q) k"
      using jobs_ok_live [OF d(3), of q] placed_at [OF d(2) w Exec] by auto
    obtain e' k' n where en: "exec_next work e k = (e', k', n)" by (metis prod_cases3)
    have "job_state k \<le> job_state k'" using ok en by (cases e) auto
    moreover have "jobs s' = (jobs s)(q \<mapsto> k')"
      using assms(2) w Exec execute_job_ok(1) [where h = "jobs s" and p = q and l = "sent s", OF ok k en] by (auto simp: worker_loop_def)
    ultimately show ?thesis using assms(3) k by auto
  next
    case Waiting
    then show ?thesis using worker_loop_enabled [OF assms(2)] by simp
  next
    case Idle_lock
    then show ?thesis using assms worker_take_jobs [of i s s'] w by (auto simp: worker_loop_def)
  next
    case Woken
    then show ?thesis using assms worker_take_jobs [of i s s'] w by (auto simp: worker_loop_def)
  qed
qed

theorem job_state_forward_witness:
  "\<exists>s s' j'. reach demo_work False s \<and> worker_loop demo_work 0 s = Some s' \<and> jobs s' 2 = Some j' \<and> job_state j' = LWT_UNIX_JOB_STATE_RUNNING"
proof -
  obtain s s' j j' where s: "demo_run (demo_start 2) = Some s" "worker_loop demo_work 0 s = Some s'" "jobs s 2 = Some j"
      "jobs s' 2 = Some j'" "job_state j' = LWT_UNIX_JOB_STATE_RUNNING"
    by (simp add: demo_defs)
  have r: "reach demo_work False s" using s(1) by (rule demo_reach) (simp add: demo_start_def)
  from job_state_forward [OF r s(2,3)] r s show ?thesis by blast
qed

text \<open>
  The pool never grows beyond its size: whenever \<^verbatim>\<open>lwt_unix_start_job\<close> starts a thread, the number of
  threads is then at most \<^verbatim>\<open>pool_size\<close>, although the test that ensures it is made without the mutex.
\<close>

theorem pool_size_respected:
  assumes "reach work sp s" and "sys_step work (Start_pool err k) s = Some s'"
    and "thread_count s < thread_count s'"
  shows "thread_count s' \<le> pool_size s'"
proof -
  obtain xs P where i: "inv_at work sp xs P s" using assms(1) by (rule reach_inv_at)
  from assms(2) obtain p where m: "main s = Main_launch p" by (auto split: main_pc.splits)
  with inv_atD(6) [OF i] have "0 < thread_waiting_count s \<or> thread_count s < pool_size s" by (auto simp: pool_ok_def)
  with assms(2,3) m show ?thesis
    by (auto simp: start_job_pool_def bind_Some_iff Let_def split: if_splits)
qed

theorem pool_size_respected_witness:
  "\<exists>s s'. reach demo_work False s \<and> sys_step demo_work (Start_pool 0 0) s = Some s' \<and>
     thread_count s < thread_count s' \<and> thread_count s' \<le> pool_size s'"
proof -
  obtain s s' where s: "demo_run (Set_pool_size 1 # butlast (butlast (demo_start 1))) = Some s"
      "sys_step demo_work (Start_pool 0 0) s = Some s'" "thread_count s < thread_count s'"
    by (simp add: demo_defs c_int_id)
  have r: "reach demo_work False s" using s(1) by (rule demo_reach) (simp add: demo_start_def)
  show ?thesis using pool_size_respected [OF r s(2,3)] r s(2,3) by blast
qed

section \<open>Spurious wakeups, failures, fork\<close>

text \<open>
  C36. A spurious wakeup of a waiting worker makes \<^verbatim>\<open>worker_loop\<close> count that worker twice, and then a job
  can be stranded: there is a reachable state in which a job sits in the queue, every worker is busy
  executing another job, and the limit on the number of threads is not reached, so that a new worker
  could have been started for the queued job.
\<close>

theorem spurious_wakeup_strands_job:
  "\<exists>s. reach demo_work True s \<and> pool_queue s = Some 3 \<and> stage s 3 = Started \<and>
     thread_count s < pool_size s \<and> workers s = [Exec Work 2]"
proof -
  obtain s where "demo_run (demo_start 1 @ replicate 5 (Worker 0) @ [Spurious 0, Worker 0] @ demo_start 2 @
      [Worker 0, Worker 0] @ demo_start 3) = Some s"
    "pool_queue s = Some 3" "stage s 3 = Started" "thread_count s < pool_size s" "workers s = [Exec Work 2]"
    by (simp add: demo_defs numeral_eq_Suc)
  then show ?thesis using demo_reach_spurious by blast
qed

text \<open>
  When the thread cannot be started \<^verbatim>\<open>lwt_unix_start_job\<close> raises \<^verbatim>\<open>Unix_error\<close> with the error of
  \<^verbatim>\<open>lwt_unix_launch_thread\<close>, with \<^verbatim>\<open>pool_mutex\<close> released and the counters, the workers and the queue
  unchanged; the job stays allocated.
\<close>

theorem launch_failure:
  assumes "pool_mutex s = Mutex_free" and "thread_waiting_count s = 0" and "err \<noteq> 0"
  shows "start_job_pool err k p s = Some (Raise (Unix_error err ''launch_thread'' Nothing), s)"
  using assms by (simp add: start_job_pool_def Let_def)

theorem launch_failure_witness:
  "start_job_pool 11 0 5 (sys_init\<lparr>pool_mutex := Mutex_free\<rparr> :: nat sys) =
     Some (Raise (Unix_error 11 ''launch_thread'' Nothing), sys_init\<lparr>pool_mutex := Mutex_free\<rparr>)"
  by (rule launch_failure) (simp_all add: sys_init_def)

text \<open>
  After a fork the pool starts afresh: in the child, where no worker exists any more, starting a
  new job after \<^verbatim>\<open>lwt_unix_reset_after_fork\<close> initialises the threading again, whatever state the parent
  left the mutex in, launches a first worker for the job and never looks at the old queue.
\<close>

theorem reset_after_fork_fresh:
  assumes "threading_initialized s" and "jobs s p = Some j" and "0 < pool_size s"
    and "am \<noteq> LWT_UNIX_ASYNC_METHOD_NONE"
  shows "\<exists>s1 s2. start_job_begin work p am (snd (lwt_unix_reset_after_fork (s\<lparr>workers := []\<rparr>))) = Some (None, s1) \<and>
     start_job_pool 0 k p s1 = Some (Ret (), s2) \<and>
     workers s2 = [Exec Begin p] \<and> thread_count s2 = 1 \<and> thread_waiting_count s2 = 0 \<and>
     pool_queue s2 = None \<and> pool_mutex s2 = Mutex_free \<and> threading_initialized s2"
  using assms
  by (simp add: lwt_unix_reset_after_fork_def start_job_begin_def start_job_pool_def initialize_threading_def Let_def)

theorem reset_after_fork_fresh_witness:
  "\<exists>s1 s2. start_job_begin demo_work 1 LWT_UNIX_ASYNC_METHOD_DETACH
       (snd (lwt_unix_reset_after_fork ((sys_init\<lparr>threading_initialized := True, pool_queue := Some 9,
          pool_mutex := Mutex_held, jobs := [1 \<mapsto> demo_arg 1]\<rparr>)\<lparr>workers := []\<rparr>))) = Some (None, s1) \<and>
     start_job_pool 0 0 1 s1 = Some (Ret (), s2) \<and> workers s2 = [Exec Begin 1]"
  using reset_after_fork_fresh [of "sys_init\<lparr>threading_initialized := True, pool_queue := Some 9,
          pool_mutex := Mutex_held, jobs := [1 \<mapsto> demo_arg 1]\<rparr>" 1 "demo_arg 1" LWT_UNIX_ASYNC_METHOD_DETACH demo_work 0]
  by (simp add: sys_init_def) blast

text \<open>
  \<^verbatim>\<open>lwt_unix_run_job_sync\<close> executes the worker exactly once, returns the result computed from it and
  frees the job without touching its mutex, which was never initialised; the rest of the pool is
  untouched.
\<close>

theorem run_job_sync_result:
  assumes "jobs s p = Some j"
  shows "lwt_unix_run_job_sync work res p s =
     Some (res (result_fn j) (work (worker_fn j) (lwt_unix_job.more j)), s\<lparr>jobs := (jobs s)(p := None)\<rparr>)"
  using assms by (simp add: lwt_unix_run_job_sync_def run_worker_def lwt_unix_self_result_def)

theorem run_job_sync_result_witness:
  "lwt_unix_run_job_sync demo_work (\<lambda>_ x. x) 4 (sys_init\<lparr>jobs := [4 \<mapsto> demo_arg 10]\<rparr>) =
     Some (11, sys_init\<lparr>jobs := Map.empty\<rparr>)"
  using run_job_sync_result [of "sys_init\<lparr>jobs := [4 \<mapsto> demo_arg 10]\<rparr>" 4 "demo_arg 10" demo_work "\<lambda>_ x. x"]
  by (simp add: demo_arg_def demo_work_def sys_init_def)

end
