(* ===== verification/Job_Memory.thy ===== *)
theory Job_Memory
  imports Job_Struct
begin

text \<open>
  The memory that the jobs of \<^verbatim>\<open>src/src/unix/unix_c\<close> work on, the macros of \<^verbatim>\<open>lwt_unix.h\<close> that build
  them, and the contract that ties the three functions of a job together: the stub that allocates the
  structure, the worker that performs the system call in another thread and the result function
  that builds the OCaml value and frees the structure.

  The locale \<open>job_impl\<close> states that contract. It has one theorem: a job gives the OCaml program the
  answer that corresponds to exactly one system call on its arguments, independently of the content
  of the memory \<^verbatim>\<open>malloc\<close> returned and of the way the job was executed, and it leaves no memory behind.
\<close>

section \<open>Memory\<close>

text \<open>
  \<open>heap\<close>: the structures of the kind of job under consideration; \<open>blocks\<close>: other blocks from \<^verbatim>\<open>malloc\<close>;
  \<open>bufs\<close>: the OCaml byte buffers; \<open>roots\<close>: the fields registered as roots with the OCaml garbage
  collector; \<open>c_errno\<close>: \<^verbatim>\<open>errno\<close> of the current thread; \<open>os\<close>: the operating system.
\<close>

record ('x, 'os) cst =
  heap :: "'x job_heap"
  blocks :: "nat \<rightharpoonup> char list"
  bufs :: "nat \<rightharpoonup> char list"
  roots :: "nat list"
  c_errno :: int
  os :: 'os

text \<open>Fresh memory holds unspecified bytes \<open>g\<close>.\<close>

definition uninit :: "(nat \<Rightarrow> char) \<Rightarrow> nat \<Rightarrow> char list" where
  "uninit g n = map g [0..<n]"

lemma length_uninit [simp]: "length (uninit g n) = n"
  by (simp add: uninit_def)

text \<open>
  \<^verbatim>\<open>lwt_unix_new_plus\<close>: \<^verbatim>\<open>malloc\<close> returns an address \<open>a\<close> that is not in use, and the structure there has
  an unspecified content \<open>u\<close>. (\<^verbatim>\<open>lwt_unix_malloc\<close> never returns a null pointer: it aborts the program.)
\<close>

definition lwt_unix_new_plus :: "nat \<Rightarrow> 'x lwt_unix_job_scheme \<Rightarrow> ('x, 'os) cst \<Rightarrow> ('x, 'os) cst option" where
  "lwt_unix_new_plus a u s = (if heap s a = None then Some (s\<lparr>heap := (heap s)(a \<mapsto> u)\<rparr>) else None)"

definition set_job :: "nat \<Rightarrow> ('x lwt_unix_job_scheme \<Rightarrow> 'x lwt_unix_job_scheme) \<Rightarrow> ('x, 'os) cst \<Rightarrow> ('x, 'os) cst option" where
  "set_job p f s = do { h \<leftarrow> upd_job p f (heap s); Some (s\<lparr>heap := h\<rparr>) }"

definition free_job :: "nat \<Rightarrow> ('x, 'os) cst \<Rightarrow> ('x, 'os) cst option" where
  "free_job p s = do { h \<leftarrow> lwt_unix_free_job p (heap s); Some (s\<lparr>heap := h\<rparr>) }"

text \<open>\<^verbatim>\<open>lwt_unix_alloc_job\<close>: wrap the pointer into an OCaml custom block.\<close>

definition lwt_unix_alloc_job :: "nat \<Rightarrow> ('x, 'os) cst \<Rightarrow> (caml_value \<times> ('x, 'os) cst) option" where
  "lwt_unix_alloc_job p s = Some (Caml_ptr (Some p), s)"

text \<open>\<^verbatim>\<open>LWT_UNIX_INIT_JOB\<close>: allocate the structure and set its two function pointers.\<close>

definition LWT_UNIX_INIT_JOB :: "nat \<Rightarrow> string \<Rightarrow> 'x lwt_unix_job_scheme \<Rightarrow> ('x, 'os) cst \<Rightarrow> ('x, 'os) cst option" where
  "LWT_UNIX_INIT_JOB a func u s = do {
     s \<leftarrow> lwt_unix_new_plus a u s;
     set_job a (\<lambda>j. j\<lparr>worker_fn := ''worker_'' @ func, result_fn := ''result_'' @ func\<rparr>) s
   }"

text \<open>When the job is done it can be freed: it ran synchronously, or its mutex is released.\<close>

definition freeable :: "'x lwt_unix_job_scheme \<Rightarrow> bool" where
  "freeable j \<longleftrightarrow> async_method j = LWT_UNIX_ASYNC_METHOD_NONE \<or> job_mutex j = Mutex_free"

lemma free_job_freeable [simp]:
  "heap s p = Some j \<Longrightarrow> freeable j \<Longrightarrow> free_job p s = Some (s\<lparr>heap := (heap s)(p := None)\<rparr>)"
  by (auto simp: free_job_def freeable_def lwt_unix_free_job_def)

lemma set_job_Some [simp]:
  "heap s p = Some j \<Longrightarrow> set_job p f s = Some (s\<lparr>heap := (heap s)(p \<mapsto> f j)\<rparr>)"
  by (simp add: set_job_def)

lemma init_job_fresh [simp]:
  "heap s a = None \<Longrightarrow> LWT_UNIX_INIT_JOB a func u s =
     Some (s\<lparr>heap := (heap s)(a \<mapsto> u\<lparr>worker_fn := ''worker_'' @ func, result_fn := ''result_'' @ func\<rparr>)\<rparr>)"
  by (simp add: LWT_UNIX_INIT_JOB_def lwt_unix_new_plus_def)

text \<open>Storing a job is injective in the job.\<close>

lemma heap_store_inject [simp]:
  "s\<lparr>heap := h(p \<mapsto> j)\<rparr> = s\<lparr>heap := h(p \<mapsto> j')\<rparr> \<longleftrightarrow> j = j'"
  "s\<lparr>heap := h(p \<mapsto> j), c_errno := e, os := w\<rparr> = s\<lparr>heap := h(p \<mapsto> j'), c_errno := e, os := w\<rparr> \<longleftrightarrow> j = j'"
proof -
  have "h(p \<mapsto> j) = h(p \<mapsto> j') \<longleftrightarrow> j = j'" by (metis map_upd_eqD1)
  then show "s\<lparr>heap := h(p \<mapsto> j)\<rparr> = s\<lparr>heap := h(p \<mapsto> j')\<rparr> \<longleftrightarrow> j = j'"
    "s\<lparr>heap := h(p \<mapsto> j), c_errno := e, os := w\<rparr> = s\<lparr>heap := h(p \<mapsto> j'), c_errno := e, os := w\<rparr> \<longleftrightarrow> j = j'"
    by (cases s; simp)+
qed

lemma heap_store_same:
  "heap s p = Some j \<Longrightarrow> s\<lparr>c_errno := e, os := w\<rparr> = s\<lparr>heap := (heap s)(p \<mapsto> j), c_errno := e, os := w\<rparr>"
  by (cases s) (simp add: fun_upd_idem)

text \<open>\<^verbatim>\<open>lwt_unix_malloc\<close> and \<^verbatim>\<open>free\<close> for blocks of bytes.\<close>

definition malloc_block :: "nat \<Rightarrow> char list \<Rightarrow> ('x, 'os) cst \<Rightarrow> ('x, 'os) cst option" where
  "malloc_block a d s = (if blocks s a = None then Some (s\<lparr>blocks := (blocks s)(a \<mapsto> d)\<rparr>) else None)"

definition free_block :: "nat \<Rightarrow> ('x, 'os) cst \<Rightarrow> ('x, 'os) cst option" where
  "free_block a s = (if blocks s a = None then None else Some (s\<lparr>blocks := (blocks s)(a := None)\<rparr>))"

lemma malloc_block_fresh [simp]:
  "blocks s a = None \<Longrightarrow> malloc_block a d s = Some (s\<lparr>blocks := (blocks s)(a \<mapsto> d)\<rparr>)"
  by (simp add: malloc_block_def)

lemma free_block_Some [simp]:
  "blocks s a = Some d \<Longrightarrow> free_block a s = Some (s\<lparr>blocks := (blocks s)(a := None)\<rparr>)"
  by (simp add: free_block_def)

section \<open>The life of a job\<close>

text \<open>
  What the pool does with a job, as far as the job can tell: the stub creates it, it is given an
  execution method and, if asynchronous, a mutex; its worker function is called once; some time
  later, with any value \<open>e\<close> in the \<^verbatim>\<open>errno\<close> of the main thread, its result function is called.
\<close>

definition job_run :: "lwt_unix_async_method \<Rightarrow> int \<Rightarrow> (('x, 'os) cst \<Rightarrow> (caml_value \<times> ('x, 'os) cst) option)
    \<Rightarrow> (string \<rightharpoonup> (nat \<Rightarrow> ('x, 'os) cst \<Rightarrow> ('x, 'os) cst option))
    \<Rightarrow> (string \<rightharpoonup> (nat \<Rightarrow> ('x, 'os) cst \<Rightarrow> (caml_value outcome \<times> ('x, 'os) cst) option))
    \<Rightarrow> ('x, 'os) cst \<Rightarrow> (caml_value outcome \<times> ('x, 'os) cst) option" where
  "job_run am e stub workers results s = do {
     (v, s) \<leftarrow> stub s;
     p \<leftarrow> (case v of Caml_ptr p \<Rightarrow> p | _ \<Rightarrow> None);
     s \<leftarrow> set_job p (\<lambda>j. j\<lparr>async_method := am,
            job_mutex := (if am = LWT_UNIX_ASYNC_METHOD_NONE then job_mutex j else Mutex_free)\<rparr>) s;
     job \<leftarrow> heap s p;
     worker \<leftarrow> workers (worker_fn job);
     s \<leftarrow> worker p s;
     job \<leftarrow> heap s p;
     res \<leftarrow> results (result_fn job);
     res p (s\<lparr>c_errno := e\<rparr>)
   }"

text \<open>The mutex of a job at that point, and a job run in its three phases.\<close>

definition start_mutex :: "lwt_unix_async_method \<Rightarrow> 'x lwt_unix_job_scheme \<Rightarrow> mutex" where
  "start_mutex am j = (if am = LWT_UNIX_ASYNC_METHOD_NONE then job_mutex j else Mutex_free)"

lemma job_run_phases:
  assumes "stub s = Some (Caml_ptr (Some a), t)" and "heap t a = Some j" and "workers (worker_fn j) = Some wk"
    and "wk a (t\<lparr>heap := (heap t)(a \<mapsto> j\<lparr>async_method := am, job_mutex := start_mutex am j\<rparr>)\<rparr>) = Some v"
    and "heap v a = Some k" and "results (result_fn k) = Some rs"
  shows "job_run am e stub workers results s = rs a (v\<lparr>c_errno := e\<rparr>)"
  using assms by (simp add: job_run_def start_mutex_def)

lemma freeable_started: "async_method k = am \<Longrightarrow> job_mutex k = start_mutex am j \<Longrightarrow> freeable k"
  by (auto simp: freeable_def start_mutex_def)

text \<open>The specification of a job: one system call, its answer, nothing else changed, nothing left behind.\<close>

definition job_spec :: "('os, 'r) syscall \<Rightarrow> ('r \<Rightarrow> int \<Rightarrow> caml_value outcome) \<Rightarrow> int \<Rightarrow> ('x, 'os) cst
    \<Rightarrow> (caml_value outcome \<times> ('x, 'os) cst) option" where
  "job_spec call answer e' s =
     (case call (c_errno s) (os s) of (r, e, w) \<Rightarrow> Some (answer r e, s\<lparr>c_errno := e', os := w\<rparr>))"

text \<open>
  The contract of the three functions of a job. \<open>call\<close> is the system call with the arguments of the
  job, \<open>answer\<close> what OCaml gets for its result and error code, \<open>ready\<close> describes the structure after the
  stub and \<open>finished\<close> after the worker. \<open>'u\<close> stands for what is
  unspecified in the memory given to the stub; \<open>wname\<close> and \<open>rname\<close> are the names of the two functions.
\<close>

locale job_impl =
  fixes wname :: string
    and rname :: string
    and stub :: "nat \<Rightarrow> 'u \<Rightarrow> ('x, 'os) cst \<Rightarrow> (caml_value \<times> ('x, 'os) cst) option"
    and worker :: "nat \<Rightarrow> ('x, 'os) cst \<Rightarrow> ('x, 'os) cst option"
    and result :: "nat \<Rightarrow> ('x, 'os) cst \<Rightarrow> (caml_value outcome \<times> ('x, 'os) cst) option"
    and call :: "('os, 'r) syscall"
    and answer :: "'r \<Rightarrow> int \<Rightarrow> caml_value outcome"
    and ready :: "'x lwt_unix_job_scheme \<Rightarrow> bool"
    and finished :: "'r \<Rightarrow> int \<Rightarrow> 'x lwt_unix_job_scheme \<Rightarrow> bool"
  assumes stub_ready: "heap s a = None \<Longrightarrow>
      \<exists>j. stub a u s = Some (Caml_ptr (Some a), s\<lparr>heap := (heap s)(a \<mapsto> j)\<rparr>) \<and> ready j \<and>
          worker_fn j = wname \<and> result_fn j = rname"
    and ready_header: "ready j \<Longrightarrow> ready (j\<lparr>async_method := am, job_mutex := m\<rparr>)"
    and worker_call: "heap s p = Some j \<Longrightarrow> ready j \<Longrightarrow> call (c_errno s) (os s) = (r, e, w) \<Longrightarrow>
      \<exists>j'. worker p s = Some (s\<lparr>heap := (heap s)(p \<mapsto> j'), c_errno := e, os := w\<rparr>) \<and> finished r e j' \<and>
           result_fn j' = result_fn j \<and> async_method j' = async_method j \<and> job_mutex j' = job_mutex j"
    and result_answer: "heap s p = Some j \<Longrightarrow> finished r e j \<Longrightarrow> freeable j \<Longrightarrow>
      result p s = Some (answer r e, s\<lparr>heap := (heap s)(p := None)\<rparr>)"
begin

lemma run:
  assumes "heap s a = None" and c: "call (c_errno s) (os s) = (r, e, w)"
  shows "job_run am e' (stub a u) [wname \<mapsto> worker] [rname \<mapsto> result] s =
     Some (answer r e, s\<lparr>c_errno := e', os := w\<rparr>)"
proof -
  from stub_ready [OF assms(1), of u] obtain j where
    j: "stub a u s = Some (Caml_ptr (Some a), s\<lparr>heap := (heap s)(a \<mapsto> j)\<rparr>)" "ready j"
      "worker_fn j = wname" "result_fn j = rname" by blast
  let ?m = "if am = LWT_UNIX_ASYNC_METHOD_NONE then job_mutex j else Mutex_free"
  let ?j = "j\<lparr>async_method := am, job_mutex := ?m\<rparr>"
  let ?s = "s\<lparr>heap := (heap s)(a \<mapsto> ?j)\<rparr>"
  have "ready ?j" using j(2) by (rule ready_header)
  with worker_call [of ?s a ?j r e w] c obtain j' where
    w: "worker a ?s = Some (?s\<lparr>heap := (heap ?s)(a \<mapsto> j'), c_errno := e, os := w\<rparr>)" "finished r e j'"
      "result_fn j' = result_fn ?j" "async_method j' = am" "job_mutex j' = ?m" by auto
  let ?t = "s\<lparr>heap := (heap s)(a \<mapsto> j'), os := w, c_errno := e'\<rparr>"
  have "freeable j'" using w(4,5) by (simp add: freeable_def)
  with result_answer [of ?t a j' r e] w(2) assms(1) have
    "result a ?t = Some (answer r e, s\<lparr>c_errno := e', os := w\<rparr>)" by (cases s) (simp add: fun_upd_idem)
  with j w show ?thesis by (simp add: job_run_def)
qed

lemma run_spec:
  assumes "heap s a = None"
  shows "job_run am e' (stub a u) [wname \<mapsto> worker] [rname \<mapsto> result] s =
     job_spec call answer e' s"
  using run [OF assms] unfolding job_spec_def by (simp split: prod.split)

text \<open>Two runs of the job give the same answer, however they were executed.\<close>

lemma run_independent:
  assumes "heap s a = None" "heap s a' = None"
  shows "job_run am e' (stub a u) [wname \<mapsto> worker] [rname \<mapsto> result] s =
         job_run am' e' (stub a' u') [wname \<mapsto> worker] [rname \<mapsto> result] s"
  using run_spec [OF assms(1)] run_spec [OF assms(2)] by simp

end

section \<open>Structures with a result and a string\<close>

text \<open>
  The fields \<^verbatim>\<open>result\<close> and \<^verbatim>\<open>errno_copy\<close> (or \<^verbatim>\<open>error_code\<close>) of almost all job structures, then a string
  argument: a pointer into the \<^verbatim>\<open>data\<close> array at the end of the structure, kept as an offset.
\<close>

record sysjob = lwt_unix_job +
  j_result :: int
  j_error_code :: int

record path_job = sysjob +
  j_path :: nat
  j_data :: "char list"

type_synonym 'y sys_x = "'y sysjob_ext"
type_synonym 'y path_x = "'y path_job_ext sysjob_ext"

text \<open>
  \<^verbatim>\<open>job->result = call (...); job->errno_copy = errno;\<close> with the arguments of the call read from the job.
\<close>

definition worker_sys :: "('y sys_x lwt_unix_job_scheme \<Rightarrow> ('os, int) syscall option) \<Rightarrow> nat
    \<Rightarrow> ('y sys_x, 'os) cst \<Rightarrow> ('y sys_x, 'os) cst option" where
  "worker_sys call p s = do {
     job \<leftarrow> heap s p;
     c \<leftarrow> call job;
     let (r, e, w) = c (c_errno s) (os s);
     s \<leftarrow> set_job p (\<lambda>j. j\<lparr>j_result := r, j_error_code := e\<rparr>) s;
     Some (s\<lparr>c_errno := e, os := w\<rparr>)
   }"

text \<open>
  \<^verbatim>\<open>LWT_UNIX_CHECK_JOB\<close> and \<^verbatim>\<open>LWT_UNIX_CHECK_JOB_ARG\<close>: free the job and raise the error saved in it, with
  an empty string or with a string of the job as argument; otherwise go on.
\<close>

definition LWT_UNIX_CHECK_JOB :: "nat \<Rightarrow> bool \<Rightarrow> string \<Rightarrow> ('y sys_x, 'os) cst
    \<Rightarrow> (('y sys_x, 'os) cst \<Rightarrow> (caml_value outcome \<times> ('y sys_x, 'os) cst) option)
    \<Rightarrow> (caml_value outcome \<times> ('y sys_x, 'os) cst) option" where
  "LWT_UNIX_CHECK_JOB p test name s continue =
     (if test then do {
        job \<leftarrow> heap s p;
        s \<leftarrow> free_job p s;
        Some (Raise (Unix_error (j_error_code job) name Nothing), s)
      } else continue s)"

definition LWT_UNIX_CHECK_JOB_ARG :: "nat \<Rightarrow> bool \<Rightarrow> string \<Rightarrow> char list option \<Rightarrow> ('y sys_x, 'os) cst
    \<Rightarrow> (('y sys_x, 'os) cst \<Rightarrow> (caml_value outcome \<times> ('y sys_x, 'os) cst) option)
    \<Rightarrow> (caml_value outcome \<times> ('y sys_x, 'os) cst) option" where
  "LWT_UNIX_CHECK_JOB_ARG p test name arg s continue =
     (if test then do {
        job \<leftarrow> heap s p;
        str \<leftarrow> arg;
        s \<leftarrow> free_job p s;
        Some (Raise (Unix_error (j_error_code job) name (caml_copy_string str)), s)
      } else continue s)"

text \<open>Free the job and return a value.\<close>

definition free_and_return :: "nat \<Rightarrow> caml_value \<Rightarrow> ('x, 'os) cst \<Rightarrow> (caml_value outcome \<times> ('x, 'os) cst) option" where
  "free_and_return p v s = do { s \<leftarrow> free_job p s; Some (Ret v, s) }"

text \<open>The string \<^verbatim>\<open>job->path\<close>.\<close>

definition job_path :: "'y path_x lwt_unix_job_scheme \<Rightarrow> char list option" where
  "job_path j = cstr_at (j_data j) (j_path j)"

text \<open>
  \<^verbatim>\<open>LWT_UNIX_INIT_JOB_STRING\<close>, also written out in many stubs: allocate the structure with room for the
  string and its NUL byte after \<open>sz\<close> bytes, set the pointer, copy the string.
\<close>

definition LWT_UNIX_INIT_JOB_STRING :: "nat \<Rightarrow> string \<Rightarrow> nat \<Rightarrow> char list \<Rightarrow> 'y path_x lwt_unix_job_scheme \<times> (nat \<Rightarrow> char)
    \<Rightarrow> ('y path_x, 'os) cst \<Rightarrow> ('y path_x, 'os) cst option" where
  "LWT_UNIX_INIT_JOB_STRING a func sz arg ug s = do {
     let len = length arg;
     s \<leftarrow> LWT_UNIX_INIT_JOB a func ((fst ug)\<lparr>j_data := uninit (snd ug) (sz + len + 1)\<rparr>) s;
     job \<leftarrow> heap s a;
     data \<leftarrow> write_at (j_data job) sz (caml_bytes arg);
     set_job a (\<lambda>j. j\<lparr>j_path := sz, j_data := data\<rparr>) s
   }"

text \<open>What it stores at the new address.\<close>

definition string_job :: "string \<Rightarrow> nat \<Rightarrow> char list \<Rightarrow> 'y path_x lwt_unix_job_scheme \<times> (nat \<Rightarrow> char) \<Rightarrow> 'y path_x lwt_unix_job_scheme" where
  "string_job func sz arg ug = (fst ug)\<lparr>worker_fn := ''worker_'' @ func, result_fn := ''result_'' @ func,
     j_path := sz, j_data := take sz (uninit (snd ug) (sz + length arg + 1)) @ caml_bytes arg\<rparr>"

lemma init_job_string_fresh [simp]:
  "heap s a = None \<Longrightarrow> LWT_UNIX_INIT_JOB_STRING a func sz arg ug s =
     Some (s\<lparr>heap := (heap s)(a \<mapsto> string_job func sz arg ug)\<rparr>)"
  by (simp add: LWT_UNIX_INIT_JOB_STRING_def Let_def string_job_def)

lemma string_job_fields [simp]:
  "job_path (string_job func sz arg ug) = Some (cstring arg)"
  "worker_fn (string_job func sz arg ug) = ''worker_'' @ func"
  "result_fn (string_job func sz arg ug) = ''result_'' @ func"
  using cstr_at_written [of sz "uninit (snd ug) (sz + length arg + 1)" arg "[]"]
  by (simp_all add: job_path_def string_job_def)

text \<open>
  \<^verbatim>\<open>LWT_UNIX_INIT_JOB_STRING2\<close>: the same with two strings; the second pointer is stored in the field that \<open>set_arg2\<close> sets.
\<close>

definition LWT_UNIX_INIT_JOB_STRING2 :: "nat \<Rightarrow> string \<Rightarrow> nat \<Rightarrow> char list \<Rightarrow> char list
    \<Rightarrow> (nat \<Rightarrow> 'y path_x lwt_unix_job_scheme \<Rightarrow> 'y path_x lwt_unix_job_scheme) \<Rightarrow> 'y path_x lwt_unix_job_scheme \<times> (nat \<Rightarrow> char)
    \<Rightarrow> ('y path_x, 'os) cst \<Rightarrow> ('y path_x, 'os) cst option" where
  "LWT_UNIX_INIT_JOB_STRING2 a func sz arg1 arg2 set_arg2 ug s = do {
     let len1 = length arg1;
     let len2 = length arg2;
     s \<leftarrow> LWT_UNIX_INIT_JOB a func ((fst ug)\<lparr>j_data := uninit (snd ug) (sz + len1 + len2 + 2)\<rparr>) s;
     s \<leftarrow> set_job a (\<lambda>j. j\<lparr>j_path := sz\<rparr>) s;
     s \<leftarrow> set_job a (set_arg2 (sz + len1 + 1)) s;
     job \<leftarrow> heap s a;
     data \<leftarrow> write_at (j_data job) sz (caml_bytes arg1);
     data \<leftarrow> write_at data (sz + len1 + 1) (caml_bytes arg2);
     set_job a (\<lambda>j. j\<lparr>j_data := data\<rparr>) s
   }"

text \<open>Both strings can be read back.\<close>

lemma two_strings:
  assumes "length d = length x + length y + 2"
  shows "\<exists>d1 d2. write_at d 0 (caml_bytes x) = Some d1 \<and> write_at d1 (length x + 1) (caml_bytes y) = Some d2 \<and>
    cstr_at d2 0 = Some (cstring x) \<and> cstr_at d2 (length x + 1) = Some (cstring y)"
proof -
  let ?d1 = "caml_bytes x @ drop (length x + 1) d"
  have "write_at d 0 (caml_bytes x) = Some ?d1" using assms by simp
  moreover have "write_at ?d1 (length x + 1) (caml_bytes y) = Some (caml_bytes x @ caml_bytes y)" using assms by simp
  moreover have "cstr_at (caml_bytes x @ caml_bytes y) 0 = Some (cstring x)" "cstr_at (caml_bytes x @ caml_bytes y) (length x + 1) = Some (cstring y)"
    using cstr_at_written [of 0 "[]" x "caml_bytes y"] cstr_at_written [of "length x + 1" "caml_bytes x" y "[]"] by simp_all
  ultimately show ?thesis by blast
qed

lemma job_path_update [simp]:
  "job_path (j\<lparr>async_method := am, job_mutex := m\<rparr>) = job_path j"
  "job_path (j\<lparr>j_result := r, j_error_code := e\<rparr>) = job_path j"
  by (simp_all add: job_path_def)

lemmas job_common =
  worker_sys_def LWT_UNIX_CHECK_JOB_def LWT_UNIX_CHECK_JOB_ARG_def free_and_return_def lwt_unix_alloc_job_def Let_def

end
