(* ===== verification/Path_Jobs.thy ===== *)
theory Path_Jobs
  imports Job_Memory
begin

text \<open>
  The jobs of \<^verbatim>\<open>src/src/unix/unix_c\<close> that take a path: \<^verbatim>\<open>access\<close>, \<^verbatim>\<open>chdir\<close>, \<^verbatim>\<open>chmod\<close>, \<^verbatim>\<open>chown\<close>, \<^verbatim>\<open>chroot\<close>, \<^verbatim>\<open>rmdir\<close>,
  \<^verbatim>\<open>unlink\<close>, \<^verbatim>\<open>mkdir\<close>, \<^verbatim>\<open>mkfifo\<close>, \<^verbatim>\<open>truncate\<close> (with its 64-bit variant), and with two paths \<^verbatim>\<open>link\<close>, \<^verbatim>\<open>rename\<close> and
  \<^verbatim>\<open>symlink\<close>. For each job the file has the structure, the worker, the result function and the stub, and
  the interpretation of the contract \<open>job_impl\<close> for them. The system calls are parameters.
\<close>

section \<open>Structures\<close>

record path_mode_job = path_job +
  j_mode :: int

record path_owner_job = path_job +
  j_ower :: int
  j_group :: int

record path_offset_job = path_job +
  j_offset :: int

record path2_job = sysjob +
  j_oldpath :: nat
  j_newpath :: nat
  j_data2 :: "char list"

type_synonym mode_x = "unit path_mode_job_ext path_x"
type_synonym owner_x = "unit path_owner_job_ext path_x"
type_synonym offset_x = "unit path_offset_job_ext path_x"
type_synonym path2_x = "unit path2_job_ext sys_x"

type_synonym job_chdir = path_job
type_synonym job_chroot = path_job
type_synonym job_rmdir = path_job
type_synonym job_unlink = path_job
type_synonym job_access = path_mode_job
type_synonym job_chmod = path_mode_job
type_synonym job_mkdir = path_mode_job
type_synonym job_mkfifo = path_mode_job
type_synonym job_chown = path_owner_job
type_synonym job_truncate = path_offset_job
type_synonym job_link = path2_job
type_synonym job_rename = path2_job
type_synonym job_symlink = path2_job

lemma job_path_extra [simp]:
  "job_path (j\<lparr>j_mode := m\<rparr>) = job_path j"
  "job_path (j'\<lparr>j_ower := o', j_group := g'\<rparr>) = job_path j'"
  "job_path (k\<lparr>j_offset := n\<rparr>) = job_path k"
  by (simp_all add: job_path_def)

section \<open>Jobs with one path\<close>

subsection \<open>chdir\<close>

definition worker_chdir :: "(char list \<Rightarrow> ('os, int) syscall) \<Rightarrow> nat \<Rightarrow> (unit path_x, 'os) cst \<Rightarrow> (unit path_x, 'os) cst option" where
  [job_defs]: "worker_chdir chdir = worker_sys (\<lambda>job. do { path \<leftarrow> job_path job; Some (chdir path) })"

definition result_chdir :: "nat \<Rightarrow> (unit path_x, 'os) cst \<Rightarrow> (caml_value outcome \<times> (unit path_x, 'os) cst) option" where
  [job_defs]: "result_chdir p s = do {
     job \<leftarrow> heap s p;
     LWT_UNIX_CHECK_JOB_ARG p (j_result job < 0) ''chdir'' (job_path job) s (free_and_return p Val_unit)
   }"

definition lwt_unix_chdir_job :: "nat \<Rightarrow> path_job \<times> (nat \<Rightarrow> char) \<Rightarrow> char list
    \<Rightarrow> (unit path_x, 'os) cst \<Rightarrow> (caml_value \<times> (unit path_x, 'os) cst) option" where
  [job_defs]: "lwt_unix_chdir_job a ug path s = do {
     s \<leftarrow> LWT_UNIX_INIT_JOB_STRING a ''chdir'' 0 path ug s;
     lwt_unix_alloc_job a s
   }"

subsection \<open>chroot\<close>

definition worker_chroot :: "(char list \<Rightarrow> ('os, int) syscall) \<Rightarrow> nat \<Rightarrow> (unit path_x, 'os) cst \<Rightarrow> (unit path_x, 'os) cst option" where
  [job_defs]: "worker_chroot chroot = worker_sys (\<lambda>job. do { path \<leftarrow> job_path job; Some (chroot path) })"

definition result_chroot :: "nat \<Rightarrow> (unit path_x, 'os) cst \<Rightarrow> (caml_value outcome \<times> (unit path_x, 'os) cst) option" where
  [job_defs]: "result_chroot p s = do {
     job \<leftarrow> heap s p;
     LWT_UNIX_CHECK_JOB_ARG p (j_result job < 0) ''chroot'' (job_path job) s (free_and_return p Val_unit)
   }"

definition lwt_unix_chroot_job :: "nat \<Rightarrow> path_job \<times> (nat \<Rightarrow> char) \<Rightarrow> char list
    \<Rightarrow> (unit path_x, 'os) cst \<Rightarrow> (caml_value \<times> (unit path_x, 'os) cst) option" where
  [job_defs]: "lwt_unix_chroot_job a ug path s = do {
     s \<leftarrow> LWT_UNIX_INIT_JOB_STRING a ''chroot'' 0 path ug s;
     lwt_unix_alloc_job a s
   }"

subsection \<open>rmdir\<close>

definition worker_rmdir :: "(char list \<Rightarrow> ('os, int) syscall) \<Rightarrow> nat \<Rightarrow> (unit path_x, 'os) cst \<Rightarrow> (unit path_x, 'os) cst option" where
  [job_defs]: "worker_rmdir rmdir = worker_sys (\<lambda>job. do { path \<leftarrow> job_path job; Some (rmdir path) })"

definition result_rmdir :: "nat \<Rightarrow> (unit path_x, 'os) cst \<Rightarrow> (caml_value outcome \<times> (unit path_x, 'os) cst) option" where
  [job_defs]: "result_rmdir p s = do {
     job \<leftarrow> heap s p;
     LWT_UNIX_CHECK_JOB_ARG p (j_result job < 0) ''rmdir'' (job_path job) s (free_and_return p Val_unit)
   }"

definition lwt_unix_rmdir_job :: "nat \<Rightarrow> path_job \<times> (nat \<Rightarrow> char) \<Rightarrow> char list
    \<Rightarrow> (unit path_x, 'os) cst \<Rightarrow> (caml_value \<times> (unit path_x, 'os) cst) option" where
  [job_defs]: "lwt_unix_rmdir_job a ug path s = do {
     s \<leftarrow> LWT_UNIX_INIT_JOB_STRING a ''rmdir'' 0 path ug s;
     lwt_unix_alloc_job a s
   }"

subsection \<open>unlink\<close>

definition worker_unlink :: "(char list \<Rightarrow> ('os, int) syscall) \<Rightarrow> nat \<Rightarrow> (unit path_x, 'os) cst \<Rightarrow> (unit path_x, 'os) cst option" where
  [job_defs]: "worker_unlink unlink = worker_sys (\<lambda>job. do { path \<leftarrow> job_path job; Some (unlink path) })"

definition result_unlink :: "nat \<Rightarrow> (unit path_x, 'os) cst \<Rightarrow> (caml_value outcome \<times> (unit path_x, 'os) cst) option" where
  [job_defs]: "result_unlink p s = do {
     job \<leftarrow> heap s p;
     LWT_UNIX_CHECK_JOB_ARG p (j_result job < 0) ''unlink'' (job_path job) s (free_and_return p Val_unit)
   }"

definition lwt_unix_unlink_job :: "nat \<Rightarrow> path_job \<times> (nat \<Rightarrow> char) \<Rightarrow> char list
    \<Rightarrow> (unit path_x, 'os) cst \<Rightarrow> (caml_value \<times> (unit path_x, 'os) cst) option" where
  [job_defs]: "lwt_unix_unlink_job a ug path s = do {
     s \<leftarrow> LWT_UNIX_INIT_JOB_STRING a ''unlink'' 0 path ug s;
     lwt_unix_alloc_job a s
   }"

subsection \<open>access\<close>

text \<open>The table of the constructors of \<^verbatim>\<open>Unix.access_permission\<close> and the conversion of a list of them.\<close>

datatype access_permission = R_OK | W_OK | X_OK | F_OK

fun access_index :: "access_permission \<Rightarrow> int" where
  "access_index R_OK = 0"
| "access_index W_OK = 1"
| "access_index X_OK = 2"
| "access_index F_OK = 3"

definition access_permission_table :: "(string \<Rightarrow> int) \<Rightarrow> int list" where
  "access_permission_table K = [K ''R_OK'', K ''W_OK'', K ''X_OK'', K ''F_OK'']"

text \<open>The loop: \<open>acc\<close> is \<^verbatim>\<open>result\<close>; an index that is not in the table is undefined behaviour.\<close>

fun int_of_access_permissions :: "(string \<Rightarrow> int) \<Rightarrow> int \<Rightarrow> int list \<Rightarrow> int option" where
  "int_of_access_permissions K acc [] = Some acc"
| "int_of_access_permissions K acc (i # is) = do {
     flag \<leftarrow> tbl_get (access_permission_table K) (c_int i);
     int_of_access_permissions K (or acc flag) is
   }"

fun access_flag :: "(string \<Rightarrow> int) \<Rightarrow> access_permission \<Rightarrow> int" where
  "access_flag K R_OK = K ''R_OK''"
| "access_flag K W_OK = K ''W_OK''"
| "access_flag K X_OK = K ''X_OK''"
| "access_flag K F_OK = K ''F_OK''"

lemma access_permission_lookup: "tbl_get (access_permission_table K) (c_int (access_index x)) = Some (access_flag K x)"
  by (cases x) (simp_all add: access_permission_table_def tbl_get_def c_int_id)

lemma int_of_access_permissions_or:
  "int_of_access_permissions K acc (map access_index ps) = Some (foldl (\<lambda>r x. or r (access_flag K x)) acc ps)"
  by (induction ps arbitrary: acc) (simp_all add: access_permission_lookup)

definition worker_access :: "(char list \<Rightarrow> int \<Rightarrow> ('os, int) syscall) \<Rightarrow> nat \<Rightarrow> (mode_x, 'os) cst \<Rightarrow> (mode_x, 'os) cst option" where
  [job_defs]: "worker_access access = worker_sys (\<lambda>job. do { path \<leftarrow> job_path job; Some (access path (j_mode job)) })"

definition result_access :: "nat \<Rightarrow> (mode_x, 'os) cst \<Rightarrow> (caml_value outcome \<times> (mode_x, 'os) cst) option" where
  [job_defs]: "result_access p s = do {
     job \<leftarrow> heap s p;
     LWT_UNIX_CHECK_JOB_ARG p (j_result job < 0) ''access'' (job_path job) s (free_and_return p Val_unit)
   }"

definition lwt_unix_access_job :: "(string \<Rightarrow> int) \<Rightarrow> nat \<Rightarrow> path_mode_job \<times> (nat \<Rightarrow> char) \<Rightarrow> char list \<Rightarrow> int list
    \<Rightarrow> (mode_x, 'os) cst \<Rightarrow> (caml_value \<times> (mode_x, 'os) cst) option" where
  [job_defs]: "lwt_unix_access_job K a ug path mode s = do {
     s \<leftarrow> LWT_UNIX_INIT_JOB_STRING a ''access'' 0 path ug s;
     m \<leftarrow> int_of_access_permissions K 0 mode;
     s \<leftarrow> set_job a (\<lambda>j. j\<lparr>j_mode := m\<rparr>) s;
     lwt_unix_alloc_job a s
   }"

subsection \<open>chmod\<close>

definition worker_chmod :: "(char list \<Rightarrow> int \<Rightarrow> ('os, int) syscall) \<Rightarrow> nat \<Rightarrow> (mode_x, 'os) cst \<Rightarrow> (mode_x, 'os) cst option" where
  [job_defs]: "worker_chmod chmod = worker_sys (\<lambda>job. do { path \<leftarrow> job_path job; Some (chmod path (j_mode job)) })"

definition result_chmod :: "nat \<Rightarrow> (mode_x, 'os) cst \<Rightarrow> (caml_value outcome \<times> (mode_x, 'os) cst) option" where
  [job_defs]: "result_chmod p s = do {
     job \<leftarrow> heap s p;
     LWT_UNIX_CHECK_JOB_ARG p (j_result job < 0) ''chmod'' (job_path job) s (free_and_return p Val_unit)
   }"

definition lwt_unix_chmod_job :: "nat \<Rightarrow> path_mode_job \<times> (nat \<Rightarrow> char) \<Rightarrow> char list \<Rightarrow> int
    \<Rightarrow> (mode_x, 'os) cst \<Rightarrow> (caml_value \<times> (mode_x, 'os) cst) option" where
  [job_defs]: "lwt_unix_chmod_job a ug path mode s = do {
     s \<leftarrow> LWT_UNIX_INIT_JOB_STRING a ''chmod'' 0 path ug s;
     s \<leftarrow> set_job a (\<lambda>j. j\<lparr>j_mode := c_int mode\<rparr>) s;
     lwt_unix_alloc_job a s
   }"

subsection \<open>mkdir\<close>

definition worker_mkdir :: "(char list \<Rightarrow> int \<Rightarrow> ('os, int) syscall) \<Rightarrow> nat \<Rightarrow> (mode_x, 'os) cst \<Rightarrow> (mode_x, 'os) cst option" where
  [job_defs]: "worker_mkdir mkdir = worker_sys (\<lambda>job. do { path \<leftarrow> job_path job; Some (mkdir path (j_mode job)) })"

definition result_mkdir :: "nat \<Rightarrow> (mode_x, 'os) cst \<Rightarrow> (caml_value outcome \<times> (mode_x, 'os) cst) option" where
  [job_defs]: "result_mkdir p s = do {
     job \<leftarrow> heap s p;
     LWT_UNIX_CHECK_JOB_ARG p (j_result job < 0) ''mkdir'' (job_path job) s (free_and_return p Val_unit)
   }"

definition lwt_unix_mkdir_job :: "nat \<Rightarrow> path_mode_job \<times> (nat \<Rightarrow> char) \<Rightarrow> char list \<Rightarrow> int
    \<Rightarrow> (mode_x, 'os) cst \<Rightarrow> (caml_value \<times> (mode_x, 'os) cst) option" where
  [job_defs]: "lwt_unix_mkdir_job a ug path mode s = do {
     s \<leftarrow> LWT_UNIX_INIT_JOB_STRING a ''mkdir'' 0 path ug s;
     s \<leftarrow> set_job a (\<lambda>j. j\<lparr>j_mode := c_int mode\<rparr>) s;
     lwt_unix_alloc_job a s
   }"

subsection \<open>mkfifo\<close>

definition worker_mkfifo :: "(char list \<Rightarrow> int \<Rightarrow> ('os, int) syscall) \<Rightarrow> nat \<Rightarrow> (mode_x, 'os) cst \<Rightarrow> (mode_x, 'os) cst option" where
  [job_defs]: "worker_mkfifo mkfifo = worker_sys (\<lambda>job. do { path \<leftarrow> job_path job; Some (mkfifo path (j_mode job)) })"

definition result_mkfifo :: "nat \<Rightarrow> (mode_x, 'os) cst \<Rightarrow> (caml_value outcome \<times> (mode_x, 'os) cst) option" where
  [job_defs]: "result_mkfifo p s = do {
     job \<leftarrow> heap s p;
     LWT_UNIX_CHECK_JOB_ARG p (j_result job < 0) ''mkfifo'' (job_path job) s (free_and_return p Val_unit)
   }"

definition lwt_unix_mkfifo_job :: "nat \<Rightarrow> path_mode_job \<times> (nat \<Rightarrow> char) \<Rightarrow> char list \<Rightarrow> int
    \<Rightarrow> (mode_x, 'os) cst \<Rightarrow> (caml_value \<times> (mode_x, 'os) cst) option" where
  [job_defs]: "lwt_unix_mkfifo_job a ug path mode s = do {
     s \<leftarrow> LWT_UNIX_INIT_JOB_STRING a ''mkfifo'' 0 path ug s;
     s \<leftarrow> set_job a (\<lambda>j. j\<lparr>j_mode := c_int mode\<rparr>) s;
     lwt_unix_alloc_job a s
   }"

subsection \<open>chown\<close>

definition worker_chown :: "(char list \<Rightarrow> int \<Rightarrow> int \<Rightarrow> ('os, int) syscall) \<Rightarrow> nat \<Rightarrow> (owner_x, 'os) cst \<Rightarrow> (owner_x, 'os) cst option" where
  [job_defs]: "worker_chown chown = worker_sys (\<lambda>job. do { path \<leftarrow> job_path job; Some (chown path (j_ower job) (j_group job)) })"

definition result_chown :: "nat \<Rightarrow> (owner_x, 'os) cst \<Rightarrow> (caml_value outcome \<times> (owner_x, 'os) cst) option" where
  [job_defs]: "result_chown p s = do {
     job \<leftarrow> heap s p;
     LWT_UNIX_CHECK_JOB_ARG p (j_result job < 0) ''chown'' (job_path job) s (free_and_return p Val_unit)
   }"

definition lwt_unix_chown_job :: "nat \<Rightarrow> path_owner_job \<times> (nat \<Rightarrow> char) \<Rightarrow> char list \<Rightarrow> int \<Rightarrow> int
    \<Rightarrow> (owner_x, 'os) cst \<Rightarrow> (caml_value \<times> (owner_x, 'os) cst) option" where
  [job_defs]: "lwt_unix_chown_job a ug path ower grp s = do {
     s \<leftarrow> LWT_UNIX_INIT_JOB_STRING a ''chown'' 0 path ug s;
     s \<leftarrow> set_job a (\<lambda>j. j\<lparr>j_ower := c_int ower, j_group := c_int grp\<rparr>) s;
     lwt_unix_alloc_job a s
   }"

subsection \<open>truncate\<close>

definition worker_truncate :: "(char list \<Rightarrow> int \<Rightarrow> ('os, int) syscall) \<Rightarrow> nat \<Rightarrow> (offset_x, 'os) cst \<Rightarrow> (offset_x, 'os) cst option" where
  [job_defs]: "worker_truncate truncate_c = worker_sys (\<lambda>job. do { path \<leftarrow> job_path job; Some (truncate_c path (j_offset job)) })"

definition result_truncate :: "nat \<Rightarrow> (offset_x, 'os) cst \<Rightarrow> (caml_value outcome \<times> (offset_x, 'os) cst) option" where
  [job_defs]: "result_truncate p s = do {
     job \<leftarrow> heap s p;
     LWT_UNIX_CHECK_JOB_ARG p (j_result job < 0) ''truncate'' (job_path job) s (free_and_return p Val_unit)
   }"

definition lwt_unix_truncate_job :: "nat \<Rightarrow> path_offset_job \<times> (nat \<Rightarrow> char) \<Rightarrow> char list \<Rightarrow> int
    \<Rightarrow> (offset_x, 'os) cst \<Rightarrow> (caml_value \<times> (offset_x, 'os) cst) option" where
  [job_defs]: "lwt_unix_truncate_job a ug path offset s = do {
     s \<leftarrow> LWT_UNIX_INIT_JOB_STRING a ''truncate'' 0 path ug s;
     s \<leftarrow> set_job a (\<lambda>j. j\<lparr>j_offset := offset\<rparr>) s;
     lwt_unix_alloc_job a s
   }"

text \<open>The offset is an OCaml \<^verbatim>\<open>int64\<close> here.\<close>

definition lwt_unix_truncate_64_job :: "nat \<Rightarrow> path_offset_job \<times> (nat \<Rightarrow> char) \<Rightarrow> char list \<Rightarrow> int
    \<Rightarrow> (offset_x, 'os) cst \<Rightarrow> (caml_value \<times> (offset_x, 'os) cst) option" where
  [job_defs]: "lwt_unix_truncate_64_job a ug path offset s = do {
     s \<leftarrow> LWT_UNIX_INIT_JOB_STRING a ''truncate'' 0 path ug s;
     s \<leftarrow> set_job a (\<lambda>j. j\<lparr>j_offset := c_long offset\<rparr>) s;
     lwt_unix_alloc_job a s
   }"

section \<open>Jobs with two paths\<close>

text \<open>The strings \<^verbatim>\<open>job->oldpath\<close> and \<^verbatim>\<open>job->newpath\<close>, and the allocation with both strings in \<^verbatim>\<open>data\<close>.\<close>

definition job_oldpath :: "path2_job \<Rightarrow> char list option" where
  "job_oldpath j = cstr_at (j_data2 j) (j_oldpath j)"

definition job_newpath :: "path2_job \<Rightarrow> char list option" where
  "job_newpath j = cstr_at (j_data2 j) (j_newpath j)"

definition init_job_string2 :: "nat \<Rightarrow> string \<Rightarrow> char list \<Rightarrow> char list \<Rightarrow> path2_job \<times> (nat \<Rightarrow> char)
    \<Rightarrow> (path2_x, 'os) cst \<Rightarrow> (path2_x, 'os) cst option" where
  "init_job_string2 a func oldpath newpath ug s = do {
     let len_oldpath = length oldpath + 1;
     let len_newpath = length newpath + 1;
     s \<leftarrow> LWT_UNIX_INIT_JOB a func ((fst ug)\<lparr>j_data2 := uninit (snd ug) (len_oldpath + len_newpath)\<rparr>) s;
     job \<leftarrow> heap s a;
     data \<leftarrow> write_at (j_data2 job) 0 (caml_bytes oldpath);
     data \<leftarrow> write_at data len_oldpath (caml_bytes newpath);
     set_job a (\<lambda>j. j\<lparr>j_oldpath := 0, j_newpath := len_oldpath, j_data2 := data\<rparr>) s
   }"

text \<open>What it stores at the new address: both strings are intact.\<close>

definition string2_job :: "string \<Rightarrow> char list \<Rightarrow> char list \<Rightarrow> path2_job \<times> (nat \<Rightarrow> char) \<Rightarrow> path2_job" where
  "string2_job func oldpath newpath ug = (fst ug)\<lparr>worker_fn := ''worker_'' @ func, result_fn := ''result_'' @ func,
     j_oldpath := 0, j_newpath := length oldpath + 1, j_data2 := caml_bytes oldpath @ caml_bytes newpath\<rparr>"

lemma init_job_string2_fresh [simp]:
  "heap s a = None \<Longrightarrow> init_job_string2 a func oldpath newpath ug s =
     Some (s\<lparr>heap := (heap s)(a \<mapsto> string2_job func oldpath newpath ug)\<rparr>)"
  by (simp add: init_job_string2_def Let_def string2_job_def)

lemma string2_job_fields [simp]:
  "job_oldpath (string2_job func oldpath newpath ug) = Some (cstring oldpath)"
  "job_newpath (string2_job func oldpath newpath ug) = Some (cstring newpath)"
  "worker_fn (string2_job func oldpath newpath ug) = ''worker_'' @ func"
  "result_fn (string2_job func oldpath newpath ug) = ''result_'' @ func"
  using cstr_at_written [of 0 "[]" oldpath "caml_bytes newpath"]
    cstr_at_written [of "length oldpath + 1" "caml_bytes oldpath" newpath "[]"]
  by (simp_all add: job_oldpath_def job_newpath_def string2_job_def)

lemma job_oldpath_update [simp]:
  "job_oldpath (j\<lparr>async_method := am, job_mutex := m\<rparr>) = job_oldpath j"
  "job_oldpath (j\<lparr>j_result := r, j_error_code := e\<rparr>) = job_oldpath j"
  "job_newpath (j\<lparr>async_method := am, job_mutex := m\<rparr>) = job_newpath j"
  "job_newpath (j\<lparr>j_result := r, j_error_code := e\<rparr>) = job_newpath j"
  by (simp_all add: job_oldpath_def job_newpath_def)

subsection \<open>link\<close>

definition worker_link :: "(char list \<Rightarrow> char list \<Rightarrow> ('os, int) syscall) \<Rightarrow> nat \<Rightarrow> (path2_x, 'os) cst \<Rightarrow> (path2_x, 'os) cst option" where
  [job_defs]: "worker_link link = worker_sys (\<lambda>job. do {
     oldpath \<leftarrow> job_oldpath job;
     newpath \<leftarrow> job_newpath job;
     Some (link oldpath newpath)
   })"

definition result_link :: "nat \<Rightarrow> (path2_x, 'os) cst \<Rightarrow> (caml_value outcome \<times> (path2_x, 'os) cst) option" where
  [job_defs]: "result_link p s = do {
     job \<leftarrow> heap s p;
     LWT_UNIX_CHECK_JOB_ARG p (j_result job < 0) ''link'' (job_oldpath job) s (free_and_return p Val_unit)
   }"

definition lwt_unix_link_job :: "nat \<Rightarrow> path2_job \<times> (nat \<Rightarrow> char) \<Rightarrow> char list \<Rightarrow> char list
    \<Rightarrow> (path2_x, 'os) cst \<Rightarrow> (caml_value \<times> (path2_x, 'os) cst) option" where
  [job_defs]: "lwt_unix_link_job a ug oldpath newpath s = do {
     s \<leftarrow> init_job_string2 a ''link'' oldpath newpath ug s;
     lwt_unix_alloc_job a s
   }"

subsection \<open>rename\<close>

definition worker_rename :: "(char list \<Rightarrow> char list \<Rightarrow> ('os, int) syscall) \<Rightarrow> nat \<Rightarrow> (path2_x, 'os) cst \<Rightarrow> (path2_x, 'os) cst option" where
  [job_defs]: "worker_rename rename = worker_sys (\<lambda>job. do {
     oldpath \<leftarrow> job_oldpath job;
     newpath \<leftarrow> job_newpath job;
     Some (rename oldpath newpath)
   })"

definition result_rename :: "nat \<Rightarrow> (path2_x, 'os) cst \<Rightarrow> (caml_value outcome \<times> (path2_x, 'os) cst) option" where
  [job_defs]: "result_rename p s = do {
     job \<leftarrow> heap s p;
     LWT_UNIX_CHECK_JOB_ARG p (j_result job < 0) ''rename'' (job_oldpath job) s (free_and_return p Val_unit)
   }"

definition lwt_unix_rename_job :: "nat \<Rightarrow> path2_job \<times> (nat \<Rightarrow> char) \<Rightarrow> char list \<Rightarrow> char list
    \<Rightarrow> (path2_x, 'os) cst \<Rightarrow> (caml_value \<times> (path2_x, 'os) cst) option" where
  [job_defs]: "lwt_unix_rename_job a ug oldpath newpath s = do {
     s \<leftarrow> init_job_string2 a ''rename'' oldpath newpath ug s;
     lwt_unix_alloc_job a s
   }"

subsection \<open>symlink\<close>

definition worker_symlink :: "(char list \<Rightarrow> char list \<Rightarrow> ('os, int) syscall) \<Rightarrow> nat \<Rightarrow> (path2_x, 'os) cst \<Rightarrow> (path2_x, 'os) cst option" where
  [job_defs]: "worker_symlink symlink = worker_sys (\<lambda>job. do {
     oldpath \<leftarrow> job_oldpath job;
     newpath \<leftarrow> job_newpath job;
     Some (symlink oldpath newpath)
   })"

definition result_symlink :: "nat \<Rightarrow> (path2_x, 'os) cst \<Rightarrow> (caml_value outcome \<times> (path2_x, 'os) cst) option" where
  [job_defs]: "result_symlink p s = do {
     job \<leftarrow> heap s p;
     LWT_UNIX_CHECK_JOB_ARG p (j_result job < 0) ''symlink'' (job_oldpath job) s (free_and_return p Val_unit)
   }"

definition lwt_unix_symlink_job :: "nat \<Rightarrow> path2_job \<times> (nat \<Rightarrow> char) \<Rightarrow> char list \<Rightarrow> char list
    \<Rightarrow> (path2_x, 'os) cst \<Rightarrow> (caml_value \<times> (path2_x, 'os) cst) option" where
  [job_defs]: "lwt_unix_symlink_job a ug oldpath newpath s = do {
     s \<leftarrow> init_job_string2 a ''symlink'' oldpath newpath ug s;
     lwt_unix_alloc_job a s
   }"

text \<open>An empty memory and structures with arbitrary content, for the examples.\<close>

definition demo_cst :: "('x, ('a \<times> 'b) list) cst" where
  "demo_cst = \<lparr>heap = Map.empty, blocks = Map.empty, bufs = Map.empty, roots = [], c_errno = 0, os = []\<rparr>"

definition demo_path_job :: path_job where
  "demo_path_job = \<lparr>next_job = Some 9, notification_id = 9, worker_fn = [], result_fn = [], job_state = LWT_UNIX_JOB_STATE_DONE,
     fast = 5, job_mutex = Mutex_held, async_method = LWT_UNIX_ASYNC_METHOD_SWITCH, j_result = 3, j_error_code = 4, j_path = 7, j_data = []\<rparr>"

definition demo_mode_job :: path_mode_job where
  "demo_mode_job = \<lparr>next_job = Some 9, notification_id = 9, worker_fn = [], result_fn = [], job_state = LWT_UNIX_JOB_STATE_DONE,
     fast = 5, job_mutex = Mutex_held, async_method = LWT_UNIX_ASYNC_METHOD_SWITCH, j_result = 3, j_error_code = 4, j_path = 7, j_data = [], j_mode = 8\<rparr>"

definition demo_path2_job :: path2_job where
  "demo_path2_job = \<lparr>next_job = Some 9, notification_id = 9, worker_fn = [], result_fn = [], job_state = LWT_UNIX_JOB_STATE_DONE,
     fast = 5, job_mutex = Mutex_held, async_method = LWT_UNIX_ASYNC_METHOD_SWITCH, j_result = 3, j_error_code = 4, j_oldpath = 7, j_newpath = 8, j_data2 = []\<rparr>"

section \<open>The contracts\<close>

text \<open>The answer of a job that returns nothing: an error carries the path the call was made with.\<close>

definition unit_answer :: "string \<Rightarrow> char list \<Rightarrow> int \<Rightarrow> int \<Rightarrow> caml_value outcome" where
  "unit_answer name path r e =
     (if r < 0 then Raise (Unix_error e name (Caml_string (cstring path))) else Ret Val_unit)"

lemma caml_copy_cstring [simp]: "caml_copy_string (cstring xs) = Caml_string (cstring xs)"
  by (simp add: caml_copy_string_def)

definition path_ready :: "char list \<Rightarrow> ('y path_x lwt_unix_job_scheme \<Rightarrow> bool) \<Rightarrow> 'y path_x lwt_unix_job_scheme \<Rightarrow> bool" where
  "path_ready path extra j \<longleftrightarrow> job_path j = Some (cstring path) \<and> extra j"

definition path_finished :: "char list \<Rightarrow> int \<Rightarrow> int \<Rightarrow> 'y path_x lwt_unix_job_scheme \<Rightarrow> bool" where
  "path_finished path r e j \<longleftrightarrow> job_path j = Some (cstring path) \<and> j_result j = r \<and> j_error_code j = e"

definition path2_ready :: "char list \<Rightarrow> char list \<Rightarrow> path2_job \<Rightarrow> bool" where
  "path2_ready oldpath newpath j \<longleftrightarrow> job_oldpath j = Some (cstring oldpath) \<and> job_newpath j = Some (cstring newpath)"

definition path2_finished :: "char list \<Rightarrow> int \<Rightarrow> int \<Rightarrow> path2_job \<Rightarrow> bool" where
  "path2_finished oldpath r e j \<longleftrightarrow> job_oldpath j = Some (cstring oldpath) \<and> j_result j = r \<and> j_error_code j = e"

lemmas path_contract =
  path_ready_def path_finished_def path2_ready_def path2_finished_def unit_answer_def

interpretation chdir_job: job_impl "''worker_chdir''" "''result_chdir''" "\<lambda>a ug. lwt_unix_chdir_job a ug path" "worker_chdir call" result_chdir
    "call (cstring path)" "unit_answer ''chdir'' path" "path_ready path (\<lambda>j. True)" "path_finished path" for path call
  by unfold_locales (simp_all add: job_defs job_common path_contract)

interpretation chroot_job: job_impl "''worker_chroot''" "''result_chroot''" "\<lambda>a ug. lwt_unix_chroot_job a ug path" "worker_chroot call" result_chroot
    "call (cstring path)" "unit_answer ''chroot'' path" "path_ready path (\<lambda>j. True)" "path_finished path" for path call
  by unfold_locales (simp_all add: job_defs job_common path_contract)

interpretation rmdir_job: job_impl "''worker_rmdir''" "''result_rmdir''" "\<lambda>a ug. lwt_unix_rmdir_job a ug path" "worker_rmdir call" result_rmdir
    "call (cstring path)" "unit_answer ''rmdir'' path" "path_ready path (\<lambda>j. True)" "path_finished path" for path call
  by unfold_locales (simp_all add: job_defs job_common path_contract)

interpretation unlink_job: job_impl "''worker_unlink''" "''result_unlink''" "\<lambda>a ug. lwt_unix_unlink_job a ug path" "worker_unlink call" result_unlink
    "call (cstring path)" "unit_answer ''unlink'' path" "path_ready path (\<lambda>j. True)" "path_finished path" for path call
  by unfold_locales (simp_all add: job_defs job_common path_contract)

interpretation access_job: job_impl "''worker_access''" "''result_access''" "\<lambda>a ug. lwt_unix_access_job K a ug path (map access_index ps)" "worker_access call" result_access
    "call (cstring path) (foldl (\<lambda>r x. or r (access_flag K x)) 0 ps)" "unit_answer ''access'' path" "path_ready path (\<lambda>j. j_mode j = foldl (\<lambda>r x. or r (access_flag K x)) 0 ps)" "path_finished path" for K path call ps
  by unfold_locales (simp_all add: job_defs job_common path_contract int_of_access_permissions_or)

interpretation chmod_job: job_impl "''worker_chmod''" "''result_chmod''" "\<lambda>a ug. lwt_unix_chmod_job a ug path mode" "worker_chmod call" result_chmod
    "call (cstring path) (c_int mode)" "unit_answer ''chmod'' path" "path_ready path (\<lambda>j. j_mode j = c_int mode)" "path_finished path" for path call mode
  by unfold_locales (simp_all add: job_defs job_common path_contract)

interpretation mkdir_job: job_impl "''worker_mkdir''" "''result_mkdir''" "\<lambda>a ug. lwt_unix_mkdir_job a ug path mode" "worker_mkdir call" result_mkdir
    "call (cstring path) (c_int mode)" "unit_answer ''mkdir'' path" "path_ready path (\<lambda>j. j_mode j = c_int mode)" "path_finished path" for path call mode
  by unfold_locales (simp_all add: job_defs job_common path_contract)

interpretation mkfifo_job: job_impl "''worker_mkfifo''" "''result_mkfifo''" "\<lambda>a ug. lwt_unix_mkfifo_job a ug path mode" "worker_mkfifo call" result_mkfifo
    "call (cstring path) (c_int mode)" "unit_answer ''mkfifo'' path" "path_ready path (\<lambda>j. j_mode j = c_int mode)" "path_finished path" for path call mode
  by unfold_locales (simp_all add: job_defs job_common path_contract)

interpretation chown_job: job_impl "''worker_chown''" "''result_chown''" "\<lambda>a ug. lwt_unix_chown_job a ug path ower grp" "worker_chown call" result_chown
    "call (cstring path) (c_int ower) (c_int grp)" "unit_answer ''chown'' path" "path_ready path (\<lambda>j. j_ower j = c_int ower \<and> j_group j = c_int grp)" "path_finished path" for path call ower grp
  by unfold_locales (simp_all add: job_defs job_common path_contract)

interpretation truncate_job: job_impl "''worker_truncate''" "''result_truncate''" "\<lambda>a ug. lwt_unix_truncate_job a ug path offset" "worker_truncate call" result_truncate
    "call (cstring path) offset" "unit_answer ''truncate'' path" "path_ready path (\<lambda>j. j_offset j = offset)" "path_finished path" for path call offset
  by unfold_locales (simp_all add: job_defs job_common path_contract)

interpretation truncate_64_job: job_impl "''worker_truncate''" "''result_truncate''" "\<lambda>a ug. lwt_unix_truncate_64_job a ug path offset" "worker_truncate call" result_truncate
    "call (cstring path) (c_long offset)" "unit_answer ''truncate'' path" "path_ready path (\<lambda>j. j_offset j = c_long offset)" "path_finished path" for path call offset
  by unfold_locales (simp_all add: job_defs job_common path_contract)

interpretation link_job: job_impl "''worker_link''" "''result_link''" "\<lambda>a ug. lwt_unix_link_job a ug oldpath newpath" "worker_link call" result_link
    "call (cstring oldpath) (cstring newpath)" "unit_answer ''link'' oldpath" "path2_ready oldpath newpath"
    "path2_finished oldpath" for oldpath newpath call
  by unfold_locales (simp_all add: job_defs job_common path_contract)

interpretation rename_job: job_impl "''worker_rename''" "''result_rename''" "\<lambda>a ug. lwt_unix_rename_job a ug oldpath newpath" "worker_rename call" result_rename
    "call (cstring oldpath) (cstring newpath)" "unit_answer ''rename'' oldpath" "path2_ready oldpath newpath"
    "path2_finished oldpath" for oldpath newpath call
  by unfold_locales (simp_all add: job_defs job_common path_contract)

interpretation symlink_job: job_impl "''worker_symlink''" "''result_symlink''" "\<lambda>a ug. lwt_unix_symlink_job a ug oldpath newpath" "worker_symlink call" result_symlink
    "call (cstring oldpath) (cstring newpath)" "unit_answer ''symlink'' oldpath" "path2_ready oldpath newpath"
    "path2_finished oldpath" for oldpath newpath call
  by unfold_locales (simp_all add: job_defs job_common path_contract)

lemmas path_runs =
  chdir_job.run_spec
  chroot_job.run_spec
  rmdir_job.run_spec
  unlink_job.run_spec
  access_job.run_spec
  chmod_job.run_spec
  mkdir_job.run_spec
  mkfifo_job.run_spec
  chown_job.run_spec
  truncate_job.run_spec
  truncate_64_job.run_spec
  link_job.run_spec
  rename_job.run_spec
  symlink_job.run_spec

section \<open>Properties\<close>

text \<open>
  C11. The jobs on one path are correct: whatever the address and the uninitialised content of the memory
  the structure gets, whatever method executes the job and whatever happens to the main thread's
  \<^verbatim>\<open>errno\<close>, each job performs exactly one system call, on the bytes of the path before its first NUL
  and on its converted other arguments; OCaml gets the unit value, or \<^verbatim>\<open>Unix_error\<close> with the error
  code of that call, the name of the function and the path; every C structure is freed, and nothing
  reads or writes out of bounds.
\<close>

theorem path_jobs_correct:
  assumes "heap s a = None" and "heap t a = None" and "heap u a = None" and "heap v a = None"
  shows
    "job_run am e (lwt_unix_chdir_job a ugs path) [''worker_chdir'' \<mapsto> worker_chdir chdir] [''result_chdir'' \<mapsto> result_chdir] s =
       job_spec (chdir (cstring path)) (unit_answer ''chdir'' path) e s \<and>
     job_run am e (lwt_unix_chroot_job a ugs path) [''worker_chroot'' \<mapsto> worker_chroot chroot] [''result_chroot'' \<mapsto> result_chroot] s =
       job_spec (chroot (cstring path)) (unit_answer ''chroot'' path) e s \<and>
     job_run am e (lwt_unix_rmdir_job a ugs path) [''worker_rmdir'' \<mapsto> worker_rmdir rmdir] [''result_rmdir'' \<mapsto> result_rmdir] s =
       job_spec (rmdir (cstring path)) (unit_answer ''rmdir'' path) e s \<and>
     job_run am e (lwt_unix_unlink_job a ugs path) [''worker_unlink'' \<mapsto> worker_unlink unlink] [''result_unlink'' \<mapsto> result_unlink] s =
       job_spec (unlink (cstring path)) (unit_answer ''unlink'' path) e s \<and>
     job_run am e (lwt_unix_access_job K a ugt path (map access_index ps)) [''worker_access'' \<mapsto> worker_access access] [''result_access'' \<mapsto> result_access] t =
       job_spec (access (cstring path) (foldl (\<lambda>r x. or r (access_flag K x)) 0 ps)) (unit_answer ''access'' path) e t \<and>
     job_run am e (lwt_unix_chmod_job a ugt path mode) [''worker_chmod'' \<mapsto> worker_chmod chmod] [''result_chmod'' \<mapsto> result_chmod] t =
       job_spec (chmod (cstring path) (c_int mode)) (unit_answer ''chmod'' path) e t \<and>
     job_run am e (lwt_unix_mkdir_job a ugt path mode) [''worker_mkdir'' \<mapsto> worker_mkdir mkdir] [''result_mkdir'' \<mapsto> result_mkdir] t =
       job_spec (mkdir (cstring path) (c_int mode)) (unit_answer ''mkdir'' path) e t \<and>
     job_run am e (lwt_unix_mkfifo_job a ugt path mode) [''worker_mkfifo'' \<mapsto> worker_mkfifo mkfifo] [''result_mkfifo'' \<mapsto> result_mkfifo] t =
       job_spec (mkfifo (cstring path) (c_int mode)) (unit_answer ''mkfifo'' path) e t \<and>
     job_run am e (lwt_unix_chown_job a ugu path ower grp) [''worker_chown'' \<mapsto> worker_chown chown] [''result_chown'' \<mapsto> result_chown] u =
       job_spec (chown (cstring path) (c_int ower) (c_int grp)) (unit_answer ''chown'' path) e u \<and>
     job_run am e (lwt_unix_truncate_job a ugv path offset) [''worker_truncate'' \<mapsto> worker_truncate truncate_c] [''result_truncate'' \<mapsto> result_truncate] v =
       job_spec (truncate_c (cstring path) offset) (unit_answer ''truncate'' path) e v \<and>
     job_run am e (lwt_unix_truncate_64_job a ugv path offset) [''worker_truncate'' \<mapsto> worker_truncate truncate_c] [''result_truncate'' \<mapsto> result_truncate] v =
       job_spec (truncate_c (cstring path) (c_long offset)) (unit_answer ''truncate'' path) e v"
  by (simp_all add: assms path_runs)

theorem path_jobs_correct_witness:
  "\<exists>s. job_run LWT_UNIX_ASYNC_METHOD_DETACH 0 (lwt_unix_mkdir_job 1 (demo_mode_job, \<lambda>_. CHR ''x'') ''d'' 511)
      [''worker_mkdir'' \<mapsto> worker_mkdir (\<lambda>path m e w. (-1, 17, w @ [(path, m)]))] [''result_mkdir'' \<mapsto> result_mkdir] demo_cst =
    Some (Raise (Unix_error 17 ''mkdir'' (Caml_string ''d'')), s) \<and> os s = [(''d'', 511)]"
proof -
  have h: "heap demo_cst 1 = None" by (simp add: demo_cst_def)
  have "job_run LWT_UNIX_ASYNC_METHOD_DETACH 0 (lwt_unix_mkdir_job 1 (demo_mode_job, \<lambda>_. CHR ''x'') ''d'' 511)
      [''worker_mkdir'' \<mapsto> worker_mkdir (\<lambda>path m e w. (-1, 17, w @ [(path, m)]))] [''result_mkdir'' \<mapsto> result_mkdir] demo_cst =
    job_spec ((\<lambda>path m e w. (-1, 17, w @ [(path, m)])) (cstring ''d'') (c_int 511)) (unit_answer ''mkdir'' ''d'') 0 demo_cst"
    by (rule path_jobs_correct [OF h h h h, THEN conjunct2, THEN conjunct2, THEN conjunct2, THEN conjunct2,
          THEN conjunct2, THEN conjunct2, THEN conjunct1])
  then show ?thesis by (simp add: demo_cst_def job_spec_def unit_answer_def c_int_id cstring_def NUL_def)
qed

text \<open>
  The jobs on two paths are correct in the same sense: both paths reach the system call intact and in
  the right order, and an error carries the first one.
\<close>

theorem two_path_jobs_correct:
  assumes "heap s a = None"
  shows
    "job_run am e (lwt_unix_link_job a ug oldpath newpath) [''worker_link'' \<mapsto> worker_link link] [''result_link'' \<mapsto> result_link] s =
       job_spec (link (cstring oldpath) (cstring newpath)) (unit_answer ''link'' oldpath) e s \<and>
     job_run am e (lwt_unix_rename_job a ug oldpath newpath) [''worker_rename'' \<mapsto> worker_rename rename] [''result_rename'' \<mapsto> result_rename] s =
       job_spec (rename (cstring oldpath) (cstring newpath)) (unit_answer ''rename'' oldpath) e s \<and>
     job_run am e (lwt_unix_symlink_job a ug oldpath newpath) [''worker_symlink'' \<mapsto> worker_symlink symlink] [''result_symlink'' \<mapsto> result_symlink] s =
       job_spec (symlink (cstring oldpath) (cstring newpath)) (unit_answer ''symlink'' oldpath) e s"
  by (simp_all add: assms path_runs)

theorem two_path_jobs_correct_witness:
  "\<exists>s. job_run LWT_UNIX_ASYNC_METHOD_NONE 0 (lwt_unix_rename_job 1 (demo_path2_job, \<lambda>_. CHR ''x'') ''a'' ''b'')
      [''worker_rename'' \<mapsto> worker_rename (\<lambda>p q e w. (0, e, w @ [(p, q)]))] [''result_rename'' \<mapsto> result_rename] demo_cst =
    Some (Ret Val_unit, s) \<and> os s = [(''a'', ''b'')]"
  using two_path_jobs_correct [where s = demo_cst and a = 1 and am = LWT_UNIX_ASYNC_METHOD_NONE and e = 0 and
      ug = "(demo_path2_job, \<lambda>_. CHR ''x'')" and oldpath = "''a''" and newpath = "''b''" and
      rename = "\<lambda>p q e w. (0, e, w @ [(p, q)])"]
  by (simp add: demo_cst_def job_spec_def unit_answer_def cstring_def NUL_def)

end
