(* ===== verification/Fd_Jobs.thy ===== *)
theory Fd_Jobs
  imports Path_Jobs
begin

text \<open>
  The jobs of \<^verbatim>\<open>src/src/unix/unix_c\<close> on a file descriptor or a directory handle: \<^verbatim>\<open>close\<close>, \<^verbatim>\<open>fsync\<close>, \<^verbatim>\<open>fdatasync\<close>,
  \<^verbatim>\<open>tcdrain\<close>, \<^verbatim>\<open>fchmod\<close>, \<^verbatim>\<open>fchown\<close>, \<^verbatim>\<open>ftruncate\<close>, \<^verbatim>\<open>tcsendbreak\<close>, \<^verbatim>\<open>tcflow\<close>, \<^verbatim>\<open>tcflush\<close>, \<^verbatim>\<open>lseek\<close>, \<^verbatim>\<open>isatty\<close>, \<^verbatim>\<open>guess_blocking\<close>,
  \<^verbatim>\<open>closedir\<close>, \<^verbatim>\<open>rewinddir\<close>, and the jobs that make descriptors and handles: \<^verbatim>\<open>open\<close> and \<^verbatim>\<open>opendir\<close>.
\<close>

section \<open>Structures\<close>

text \<open>
  \<open>j_arg\<close> and \<open>j_arg2\<close> are the second and third parameters of the call (\<^verbatim>\<open>mode\<close>, \<^verbatim>\<open>offset\<close>, \<^verbatim>\<open>ower\<close> and \<^verbatim>\<open>group\<close>,
  \<^verbatim>\<open>duration\<close>, \<^verbatim>\<open>action\<close>, \<^verbatim>\<open>queue\<close>, \<^verbatim>\<open>whence\<close>).
\<close>

record fd_job = sysjob +
  j_fd :: int

record fd_arg_job = fd_job +
  j_arg :: int

record fd_arg2_job = fd_arg_job +
  j_arg2 :: int

text \<open>Jobs that cannot fail have no error code.\<close>

record fd_bool_job = lwt_unix_job +
  b_fd :: int
  b_result :: int

record dir_job = sysjob +
  j_dir :: "nat option"

record job_rewinddir = lwt_unix_job +
  r_dir :: "nat option"

type_synonym fd_x = "unit fd_job_ext sys_x"
type_synonym fd_arg_x = "unit fd_arg_job_ext fd_job_ext sys_x"
type_synonym fd_arg2_x = "unit fd_arg2_job_ext fd_arg_job_ext fd_job_ext sys_x"
type_synonym fd_bool_x = "unit fd_bool_job_ext"
type_synonym dir_x = "unit dir_job_ext sys_x"
type_synonym rewinddir_x = "unit job_rewinddir_ext"

type_synonym job_close = fd_job
type_synonym job_fsync = fd_job
type_synonym job_fdatasync = fd_job
type_synonym job_tcdrain = fd_job
type_synonym job_fchmod = fd_arg_job
type_synonym job_ftruncate = fd_arg_job
type_synonym job_tcsendbreak = fd_arg_job
type_synonym job_tcflow = fd_arg_job
type_synonym job_tcflush = fd_arg_job
type_synonym job_fchown = fd_arg2_job
type_synonym job_lseek = fd_arg2_job
type_synonym job_isatty = fd_bool_job
type_synonym job_guess_blocking = fd_bool_job
type_synonym job_closedir = dir_job

section \<open>Calls with a descriptor\<close>

subsection \<open>close\<close>

definition worker_close :: "(int \<Rightarrow> ('os, int) syscall) \<Rightarrow> nat \<Rightarrow> (fd_x, 'os) cst \<Rightarrow> (fd_x, 'os) cst option" where
  [job_defs]: "worker_close close_c = worker_sys (\<lambda>job. Some (close_c (j_fd job)))"

definition result_close :: "nat \<Rightarrow> (fd_x, 'os) cst \<Rightarrow> (caml_value outcome \<times> (fd_x, 'os) cst) option" where
  [job_defs]: "result_close p s = do {
     job \<leftarrow> heap s p;
     LWT_UNIX_CHECK_JOB p (j_result job < 0) ''close'' s (free_and_return p Val_unit)
   }"

definition lwt_unix_close_job :: "nat \<Rightarrow> fd_job \<Rightarrow> int \<Rightarrow> (fd_x, 'os) cst
    \<Rightarrow> (caml_value \<times> (fd_x, 'os) cst) option" where
  [job_defs]: "lwt_unix_close_job a u fd s = do {
     s \<leftarrow> LWT_UNIX_INIT_JOB a ''close'' u s;
     s \<leftarrow> set_job a (\<lambda>j. j\<lparr>j_fd := c_int fd\<rparr>) s;
     lwt_unix_alloc_job a s
   }"

subsection \<open>fsync\<close>

definition worker_fsync :: "(int \<Rightarrow> ('os, int) syscall) \<Rightarrow> nat \<Rightarrow> (fd_x, 'os) cst \<Rightarrow> (fd_x, 'os) cst option" where
  [job_defs]: "worker_fsync fsync_c = worker_sys (\<lambda>job. Some (fsync_c (j_fd job)))"

definition result_fsync :: "nat \<Rightarrow> (fd_x, 'os) cst \<Rightarrow> (caml_value outcome \<times> (fd_x, 'os) cst) option" where
  [job_defs]: "result_fsync p s = do {
     job \<leftarrow> heap s p;
     LWT_UNIX_CHECK_JOB p (j_result job < 0) ''fsync'' s (free_and_return p Val_unit)
   }"

definition lwt_unix_fsync_job :: "nat \<Rightarrow> fd_job \<Rightarrow> int \<Rightarrow> (fd_x, 'os) cst
    \<Rightarrow> (caml_value \<times> (fd_x, 'os) cst) option" where
  [job_defs]: "lwt_unix_fsync_job a u fd s = do {
     s \<leftarrow> LWT_UNIX_INIT_JOB a ''fsync'' u s;
     s \<leftarrow> set_job a (\<lambda>j. j\<lparr>j_fd := c_int fd\<rparr>) s;
     lwt_unix_alloc_job a s
   }"

subsection \<open>fdatasync\<close>

definition worker_fdatasync :: "(int \<Rightarrow> ('os, int) syscall) \<Rightarrow> nat \<Rightarrow> (fd_x, 'os) cst \<Rightarrow> (fd_x, 'os) cst option" where
  [job_defs]: "worker_fdatasync fdatasync_c = worker_sys (\<lambda>job. Some (fdatasync_c (j_fd job)))"

definition result_fdatasync :: "nat \<Rightarrow> (fd_x, 'os) cst \<Rightarrow> (caml_value outcome \<times> (fd_x, 'os) cst) option" where
  [job_defs]: "result_fdatasync p s = do {
     job \<leftarrow> heap s p;
     LWT_UNIX_CHECK_JOB p (j_result job < 0) ''fdatasync'' s (free_and_return p Val_unit)
   }"

definition lwt_unix_fdatasync_job :: "nat \<Rightarrow> fd_job \<Rightarrow> int \<Rightarrow> (fd_x, 'os) cst
    \<Rightarrow> (caml_value \<times> (fd_x, 'os) cst) option" where
  [job_defs]: "lwt_unix_fdatasync_job a u fd s = do {
     s \<leftarrow> LWT_UNIX_INIT_JOB a ''fdatasync'' u s;
     s \<leftarrow> set_job a (\<lambda>j. j\<lparr>j_fd := c_int fd\<rparr>) s;
     lwt_unix_alloc_job a s
   }"

subsection \<open>tcdrain\<close>

definition worker_tcdrain :: "(int \<Rightarrow> ('os, int) syscall) \<Rightarrow> nat \<Rightarrow> (fd_x, 'os) cst \<Rightarrow> (fd_x, 'os) cst option" where
  [job_defs]: "worker_tcdrain tcdrain_c = worker_sys (\<lambda>job. Some (tcdrain_c (j_fd job)))"

definition result_tcdrain :: "nat \<Rightarrow> (fd_x, 'os) cst \<Rightarrow> (caml_value outcome \<times> (fd_x, 'os) cst) option" where
  [job_defs]: "result_tcdrain p s = do {
     job \<leftarrow> heap s p;
     LWT_UNIX_CHECK_JOB p (j_result job < 0) ''tcdrain'' s (free_and_return p Val_unit)
   }"

definition lwt_unix_tcdrain_job :: "nat \<Rightarrow> fd_job \<Rightarrow> int \<Rightarrow> (fd_x, 'os) cst
    \<Rightarrow> (caml_value \<times> (fd_x, 'os) cst) option" where
  [job_defs]: "lwt_unix_tcdrain_job a u fd s = do {
     s \<leftarrow> LWT_UNIX_INIT_JOB a ''tcdrain'' u s;
     s \<leftarrow> set_job a (\<lambda>j. j\<lparr>j_fd := c_int fd\<rparr>) s;
     lwt_unix_alloc_job a s
   }"

subsection \<open>fchmod\<close>

definition worker_fchmod :: "(int \<Rightarrow> int \<Rightarrow> ('os, int) syscall) \<Rightarrow> nat \<Rightarrow> (fd_arg_x, 'os) cst \<Rightarrow> (fd_arg_x, 'os) cst option" where
  [job_defs]: "worker_fchmod fchmod_c = worker_sys (\<lambda>job. Some (fchmod_c (j_fd job) (j_arg job)))"

definition result_fchmod :: "nat \<Rightarrow> (fd_arg_x, 'os) cst \<Rightarrow> (caml_value outcome \<times> (fd_arg_x, 'os) cst) option" where
  [job_defs]: "result_fchmod p s = do {
     job \<leftarrow> heap s p;
     LWT_UNIX_CHECK_JOB p (j_result job < 0) ''fchmod'' s (free_and_return p Val_unit)
   }"

definition lwt_unix_fchmod_job :: "nat \<Rightarrow> fd_arg_job \<Rightarrow> int \<Rightarrow> int \<Rightarrow> (fd_arg_x, 'os) cst
    \<Rightarrow> (caml_value \<times> (fd_arg_x, 'os) cst) option" where
  [job_defs]: "lwt_unix_fchmod_job a u fd mode s = do {
     s \<leftarrow> LWT_UNIX_INIT_JOB a ''fchmod'' u s;
     s \<leftarrow> set_job a (\<lambda>j. j\<lparr>j_fd := c_int fd, j_arg := c_int mode\<rparr>) s;
     lwt_unix_alloc_job a s
   }"

subsection \<open>ftruncate\<close>

definition worker_ftruncate :: "(int \<Rightarrow> int \<Rightarrow> ('os, int) syscall) \<Rightarrow> nat \<Rightarrow> (fd_arg_x, 'os) cst \<Rightarrow> (fd_arg_x, 'os) cst option" where
  [job_defs]: "worker_ftruncate ftruncate_c = worker_sys (\<lambda>job. Some (ftruncate_c (j_fd job) (j_arg job)))"

definition result_ftruncate :: "nat \<Rightarrow> (fd_arg_x, 'os) cst \<Rightarrow> (caml_value outcome \<times> (fd_arg_x, 'os) cst) option" where
  [job_defs]: "result_ftruncate p s = do {
     job \<leftarrow> heap s p;
     LWT_UNIX_CHECK_JOB p (j_result job < 0) ''ftruncate'' s (free_and_return p Val_unit)
   }"

definition lwt_unix_ftruncate_job :: "nat \<Rightarrow> fd_arg_job \<Rightarrow> int \<Rightarrow> int \<Rightarrow> (fd_arg_x, 'os) cst
    \<Rightarrow> (caml_value \<times> (fd_arg_x, 'os) cst) option" where
  [job_defs]: "lwt_unix_ftruncate_job a u fd offset s = do {
     s \<leftarrow> LWT_UNIX_INIT_JOB a ''ftruncate'' u s;
     s \<leftarrow> set_job a (\<lambda>j. j\<lparr>j_fd := c_int fd, j_arg := offset\<rparr>) s;
     lwt_unix_alloc_job a s
   }"

definition lwt_unix_ftruncate_64_job :: "nat \<Rightarrow> fd_arg_job \<Rightarrow> int \<Rightarrow> int \<Rightarrow> (fd_arg_x, 'os) cst
    \<Rightarrow> (caml_value \<times> (fd_arg_x, 'os) cst) option" where
  [job_defs]: "lwt_unix_ftruncate_64_job a u fd offset s = do {
     s \<leftarrow> LWT_UNIX_INIT_JOB a ''ftruncate'' u s;
     s \<leftarrow> set_job a (\<lambda>j. j\<lparr>j_fd := c_int fd, j_arg := c_long offset\<rparr>) s;
     lwt_unix_alloc_job a s
   }"

subsection \<open>tcsendbreak\<close>

definition worker_tcsendbreak :: "(int \<Rightarrow> int \<Rightarrow> ('os, int) syscall) \<Rightarrow> nat \<Rightarrow> (fd_arg_x, 'os) cst \<Rightarrow> (fd_arg_x, 'os) cst option" where
  [job_defs]: "worker_tcsendbreak tcsendbreak_c = worker_sys (\<lambda>job. Some (tcsendbreak_c (j_fd job) (j_arg job)))"

definition result_tcsendbreak :: "nat \<Rightarrow> (fd_arg_x, 'os) cst \<Rightarrow> (caml_value outcome \<times> (fd_arg_x, 'os) cst) option" where
  [job_defs]: "result_tcsendbreak p s = do {
     job \<leftarrow> heap s p;
     LWT_UNIX_CHECK_JOB p (j_result job < 0) ''tcsendbreak'' s (free_and_return p Val_unit)
   }"

definition lwt_unix_tcsendbreak_job :: "nat \<Rightarrow> fd_arg_job \<Rightarrow> int \<Rightarrow> int \<Rightarrow> (fd_arg_x, 'os) cst
    \<Rightarrow> (caml_value \<times> (fd_arg_x, 'os) cst) option" where
  [job_defs]: "lwt_unix_tcsendbreak_job a u fd duration s = do {
     s \<leftarrow> LWT_UNIX_INIT_JOB a ''tcsendbreak'' u s;
     s \<leftarrow> set_job a (\<lambda>j. j\<lparr>j_fd := c_int fd, j_arg := c_int duration\<rparr>) s;
     lwt_unix_alloc_job a s
   }"

subsection \<open>fchown\<close>

definition worker_fchown :: "(int \<Rightarrow> int \<Rightarrow> int \<Rightarrow> ('os, int) syscall) \<Rightarrow> nat \<Rightarrow> (fd_arg2_x, 'os) cst \<Rightarrow> (fd_arg2_x, 'os) cst option" where
  [job_defs]: "worker_fchown fchown_c = worker_sys (\<lambda>job. Some (fchown_c (j_fd job) (j_arg job) (j_arg2 job)))"

definition result_fchown :: "nat \<Rightarrow> (fd_arg2_x, 'os) cst \<Rightarrow> (caml_value outcome \<times> (fd_arg2_x, 'os) cst) option" where
  [job_defs]: "result_fchown p s = do {
     job \<leftarrow> heap s p;
     LWT_UNIX_CHECK_JOB p (j_result job < 0) ''fchown'' s (free_and_return p Val_unit)
   }"

definition lwt_unix_fchown_job :: "nat \<Rightarrow> fd_arg2_job \<Rightarrow> int \<Rightarrow> int \<Rightarrow> int \<Rightarrow> (fd_arg2_x, 'os) cst
    \<Rightarrow> (caml_value \<times> (fd_arg2_x, 'os) cst) option" where
  [job_defs]: "lwt_unix_fchown_job a u fd ower grp s = do {
     s \<leftarrow> LWT_UNIX_INIT_JOB a ''fchown'' u s;
     s \<leftarrow> set_job a (\<lambda>j. j\<lparr>j_fd := c_int fd, j_arg := c_int ower, j_arg2 := c_int grp\<rparr>) s;
     lwt_unix_alloc_job a s
   }"

subsection \<open>tcflow\<close>

datatype flow_action = TCOOFF | TCOON | TCIOFF | TCION

fun flow_action_index :: "flow_action \<Rightarrow> int" where
  "flow_action_index TCOOFF = 0"
| "flow_action_index TCOON = 1"
| "flow_action_index TCIOFF = 2"
| "flow_action_index TCION = 3"

definition flow_action_table :: "(string \<Rightarrow> int) \<Rightarrow> int list" where
  "flow_action_table K = [K ''TCOOFF'', K ''TCOON'', K ''TCIOFF'', K ''TCION'']"

fun flow_action_flag :: "(string \<Rightarrow> int) \<Rightarrow> flow_action \<Rightarrow> int" where
  "flow_action_flag K TCOOFF = K ''TCOOFF''"
| "flow_action_flag K TCOON = K ''TCOON''"
| "flow_action_flag K TCIOFF = K ''TCIOFF''"
| "flow_action_flag K TCION = K ''TCION''"

lemma flow_action_table_lookup [simp]: "tbl_get (flow_action_table K) (c_int (flow_action_index x)) = Some (flow_action_flag K x)"
  by (cases x) (simp_all add: flow_action_table_def tbl_get_def c_int_id)

definition worker_tcflow :: "(int \<Rightarrow> int \<Rightarrow> ('os, int) syscall) \<Rightarrow> nat \<Rightarrow> (fd_arg_x, 'os) cst \<Rightarrow> (fd_arg_x, 'os) cst option" where
  [job_defs]: "worker_tcflow tcflow_c = worker_sys (\<lambda>job. Some (tcflow_c (j_fd job) (j_arg job)))"

definition result_tcflow :: "nat \<Rightarrow> (fd_arg_x, 'os) cst \<Rightarrow> (caml_value outcome \<times> (fd_arg_x, 'os) cst) option" where
  [job_defs]: "result_tcflow p s = do {
     job \<leftarrow> heap s p;
     LWT_UNIX_CHECK_JOB p (j_result job < 0) ''tcflow'' s (free_and_return p Val_unit)
   }"

definition lwt_unix_tcflow_job :: "(string \<Rightarrow> int) \<Rightarrow> nat \<Rightarrow> fd_arg_job \<Rightarrow> int \<Rightarrow> int \<Rightarrow> (fd_arg_x, 'os) cst
    \<Rightarrow> (caml_value \<times> (fd_arg_x, 'os) cst) option" where
  [job_defs]: "lwt_unix_tcflow_job K a u fd action s = do {
     s \<leftarrow> LWT_UNIX_INIT_JOB a ''tcflow'' u s;
     v \<leftarrow> tbl_get (flow_action_table K) (c_int action);
     s \<leftarrow> set_job a (\<lambda>j. j\<lparr>j_fd := c_int fd, j_arg := v\<rparr>) s;
     lwt_unix_alloc_job a s
   }"

subsection \<open>tcflush\<close>

datatype flush_queue = TCIFLUSH | TCOFLUSH | TCIOFLUSH

fun flush_queue_index :: "flush_queue \<Rightarrow> int" where
  "flush_queue_index TCIFLUSH = 0"
| "flush_queue_index TCOFLUSH = 1"
| "flush_queue_index TCIOFLUSH = 2"

definition flush_queue_table :: "(string \<Rightarrow> int) \<Rightarrow> int list" where
  "flush_queue_table K = [K ''TCIFLUSH'', K ''TCOFLUSH'', K ''TCIOFLUSH'']"

fun flush_queue_flag :: "(string \<Rightarrow> int) \<Rightarrow> flush_queue \<Rightarrow> int" where
  "flush_queue_flag K TCIFLUSH = K ''TCIFLUSH''"
| "flush_queue_flag K TCOFLUSH = K ''TCOFLUSH''"
| "flush_queue_flag K TCIOFLUSH = K ''TCIOFLUSH''"

lemma flush_queue_table_lookup [simp]: "tbl_get (flush_queue_table K) (c_int (flush_queue_index x)) = Some (flush_queue_flag K x)"
  by (cases x) (simp_all add: flush_queue_table_def tbl_get_def c_int_id)

definition worker_tcflush :: "(int \<Rightarrow> int \<Rightarrow> ('os, int) syscall) \<Rightarrow> nat \<Rightarrow> (fd_arg_x, 'os) cst \<Rightarrow> (fd_arg_x, 'os) cst option" where
  [job_defs]: "worker_tcflush tcflush_c = worker_sys (\<lambda>job. Some (tcflush_c (j_fd job) (j_arg job)))"

definition result_tcflush :: "nat \<Rightarrow> (fd_arg_x, 'os) cst \<Rightarrow> (caml_value outcome \<times> (fd_arg_x, 'os) cst) option" where
  [job_defs]: "result_tcflush p s = do {
     job \<leftarrow> heap s p;
     LWT_UNIX_CHECK_JOB p (j_result job < 0) ''tcflush'' s (free_and_return p Val_unit)
   }"

definition lwt_unix_tcflush_job :: "(string \<Rightarrow> int) \<Rightarrow> nat \<Rightarrow> fd_arg_job \<Rightarrow> int \<Rightarrow> int \<Rightarrow> (fd_arg_x, 'os) cst
    \<Rightarrow> (caml_value \<times> (fd_arg_x, 'os) cst) option" where
  [job_defs]: "lwt_unix_tcflush_job K a u fd queue s = do {
     s \<leftarrow> LWT_UNIX_INIT_JOB a ''tcflush'' u s;
     v \<leftarrow> tbl_get (flush_queue_table K) (c_int queue);
     s \<leftarrow> set_job a (\<lambda>j. j\<lparr>j_fd := c_int fd, j_arg := v\<rparr>) s;
     lwt_unix_alloc_job a s
   }"

subsection \<open>lseek\<close>

datatype seek_command = SEEK_SET | SEEK_CUR | SEEK_END

fun seek_command_index :: "seek_command \<Rightarrow> int" where
  "seek_command_index SEEK_SET = 0"
| "seek_command_index SEEK_CUR = 1"
| "seek_command_index SEEK_END = 2"

definition seek_command_table :: "(string \<Rightarrow> int) \<Rightarrow> int list" where
  "seek_command_table K = [K ''SEEK_SET'', K ''SEEK_CUR'', K ''SEEK_END'']"

fun seek_command_flag :: "(string \<Rightarrow> int) \<Rightarrow> seek_command \<Rightarrow> int" where
  "seek_command_flag K SEEK_SET = K ''SEEK_SET''"
| "seek_command_flag K SEEK_CUR = K ''SEEK_CUR''"
| "seek_command_flag K SEEK_END = K ''SEEK_END''"

lemma seek_command_table_lookup [simp]: "tbl_get (seek_command_table K) (c_int (seek_command_index x)) = Some (seek_command_flag K x)"
  by (cases x) (simp_all add: seek_command_table_def tbl_get_def c_int_id)

definition worker_lseek :: "(int \<Rightarrow> int \<Rightarrow> int \<Rightarrow> ('os, int) syscall) \<Rightarrow> nat \<Rightarrow> (fd_arg2_x, 'os) cst \<Rightarrow> (fd_arg2_x, 'os) cst option" where
  [job_defs]: "worker_lseek lseek_c = worker_sys (\<lambda>job. Some (lseek_c (j_fd job) (j_arg job) (j_arg2 job)))"

definition result_lseek :: "nat \<Rightarrow> (fd_arg2_x, 'os) cst \<Rightarrow> (caml_value outcome \<times> (fd_arg2_x, 'os) cst) option" where
  [job_defs]: "result_lseek p s = do {
     job \<leftarrow> heap s p;
     LWT_UNIX_CHECK_JOB p (j_result job = -1) ''lseek'' s (free_and_return p (Val_long (j_result job)))
   }"

definition result_lseek_64 :: "nat \<Rightarrow> (fd_arg2_x, 'os) cst \<Rightarrow> (caml_value outcome \<times> (fd_arg2_x, 'os) cst) option" where
  [job_defs]: "result_lseek_64 p s = do {
     job \<leftarrow> heap s p;
     LWT_UNIX_CHECK_JOB p (j_result job = -1) ''lseek'' s (free_and_return p (Caml_int64 (j_result job)))
   }"

definition lwt_unix_lseek_job :: "(string \<Rightarrow> int) \<Rightarrow> nat \<Rightarrow> fd_arg2_job \<Rightarrow> int \<Rightarrow> int \<Rightarrow> int \<Rightarrow> (fd_arg2_x, 'os) cst
    \<Rightarrow> (caml_value \<times> (fd_arg2_x, 'os) cst) option" where
  [job_defs]: "lwt_unix_lseek_job K a u fd offset whence s = do {
     s \<leftarrow> LWT_UNIX_INIT_JOB a ''lseek'' u s;
     v \<leftarrow> tbl_get (seek_command_table K) (c_int whence);
     s \<leftarrow> set_job a (\<lambda>j. j\<lparr>j_fd := c_int fd, j_arg := offset, j_arg2 := v\<rparr>) s;
     lwt_unix_alloc_job a s
   }"

definition lwt_unix_lseek_64_job :: "(string \<Rightarrow> int) \<Rightarrow> nat \<Rightarrow> fd_arg2_job \<Rightarrow> int \<Rightarrow> int \<Rightarrow> int \<Rightarrow> (fd_arg2_x, 'os) cst
    \<Rightarrow> (caml_value \<times> (fd_arg2_x, 'os) cst) option" where
  [job_defs]: "lwt_unix_lseek_64_job K a u fd offset whence s = do {
     s \<leftarrow> LWT_UNIX_INIT_JOB a ''lseek'' u s;
     v \<leftarrow> tbl_get (seek_command_table K) (c_int whence);
     s \<leftarrow> set_job a (\<lambda>j. j\<lparr>result_fn := ''result_lseek_64'', j_fd := c_int fd, j_arg := c_long offset, j_arg2 := v\<rparr>) s;
     lwt_unix_alloc_job a s
   }"

section \<open>Questions about a descriptor\<close>

subsection \<open>isatty\<close>

definition worker_isatty :: "(int \<Rightarrow> ('os, int) syscall) \<Rightarrow> nat \<Rightarrow> (fd_bool_x, 'os) cst \<Rightarrow> (fd_bool_x, 'os) cst option" where
  [job_defs]: "worker_isatty isatty p s = do {
     job \<leftarrow> heap s p;
     let (r, e, w) = isatty (b_fd job) (c_errno s) (os s);
     s \<leftarrow> set_job p (\<lambda>j. j\<lparr>b_result := r\<rparr>) s;
     Some (s\<lparr>c_errno := e, os := w\<rparr>)
   }"

definition result_isatty :: "nat \<Rightarrow> (fd_bool_x, 'os) cst \<Rightarrow> (caml_value outcome \<times> (fd_bool_x, 'os) cst) option" where
  [job_defs]: "result_isatty p s = do {
     job \<leftarrow> heap s p;
     free_and_return p (Val_bool (b_result job \<noteq> 0)) s
   }"

definition lwt_unix_isatty_job :: "nat \<Rightarrow> fd_bool_job \<Rightarrow> int \<Rightarrow> (fd_bool_x, 'os) cst \<Rightarrow> (caml_value \<times> (fd_bool_x, 'os) cst) option" where
  [job_defs]: "lwt_unix_isatty_job a u fd s = do {
     s \<leftarrow> LWT_UNIX_INIT_JOB a ''isatty'' u s;
     s \<leftarrow> set_job a (\<lambda>j. j\<lparr>b_fd := c_int fd\<rparr>) s;
     lwt_unix_alloc_job a s
   }"

subsection \<open>guess_blocking\<close>

text \<open>
  \<^verbatim>\<open>fstat\<close> returns its result and the \<^verbatim>\<open>st_mode\<close> it stored; \<open>S_ISFIFO\<close> and \<open>S_ISSOCK\<close> are the macros of the
  platform.
\<close>

definition worker_guess_blocking :: "(int \<Rightarrow> bool) \<Rightarrow> (int \<Rightarrow> bool) \<Rightarrow> (int \<Rightarrow> ('os, int \<times> int) syscall) \<Rightarrow> nat
    \<Rightarrow> (fd_bool_x, 'os) cst \<Rightarrow> (fd_bool_x, 'os) cst option" where
  [job_defs]: "worker_guess_blocking S_ISFIFO S_ISSOCK fstat p s = do {
     job \<leftarrow> heap s p;
     let ((r, st_mode), e, w) = fstat (b_fd job) (c_errno s) (os s);
     s \<leftarrow> set_job p (\<lambda>j. j\<lparr>b_result :=
            (if r = 0 then (if S_ISFIFO st_mode \<or> S_ISSOCK st_mode then 0 else 1) else 1)\<rparr>) s;
     Some (s\<lparr>c_errno := e, os := w\<rparr>)
   }"

definition result_guess_blocking :: "nat \<Rightarrow> (fd_bool_x, 'os) cst \<Rightarrow> (caml_value outcome \<times> (fd_bool_x, 'os) cst) option" where
  [job_defs]: "result_guess_blocking p s = do {
     job \<leftarrow> heap s p;
     free_and_return p (Val_bool (b_result job \<noteq> 0)) s
   }"

definition lwt_unix_guess_blocking_job :: "nat \<Rightarrow> fd_bool_job \<Rightarrow> int \<Rightarrow> (fd_bool_x, 'os) cst
    \<Rightarrow> (caml_value \<times> (fd_bool_x, 'os) cst) option" where
  [job_defs]: "lwt_unix_guess_blocking_job a u fd s = do {
     s \<leftarrow> LWT_UNIX_INIT_JOB a ''guess_blocking'' u s;
     s \<leftarrow> set_job a (\<lambda>j. j\<lparr>b_fd := c_int fd\<rparr>) s;
     lwt_unix_alloc_job a s
   }"

section \<open>Directory handles\<close>

subsection \<open>closedir\<close>

definition worker_closedir :: "(nat option \<Rightarrow> ('os, int) syscall) \<Rightarrow> nat \<Rightarrow> (dir_x, 'os) cst \<Rightarrow> (dir_x, 'os) cst option" where
  [job_defs]: "worker_closedir closedir = worker_sys (\<lambda>job. Some (closedir (j_dir job)))"

definition result_closedir :: "nat \<Rightarrow> (dir_x, 'os) cst \<Rightarrow> (caml_value outcome \<times> (dir_x, 'os) cst) option" where
  [job_defs]: "result_closedir p s = do {
     job \<leftarrow> heap s p;
     LWT_UNIX_CHECK_JOB p (j_result job < 0) ''closedir'' s (free_and_return p Val_unit)
   }"

definition lwt_unix_closedir_job :: "nat \<Rightarrow> dir_job \<Rightarrow> nat option \<Rightarrow> (dir_x, 'os) cst \<Rightarrow> (caml_value \<times> (dir_x, 'os) cst) option" where
  [job_defs]: "lwt_unix_closedir_job a u dir s = do {
     s \<leftarrow> LWT_UNIX_INIT_JOB a ''closedir'' u s;
     s \<leftarrow> set_job a (\<lambda>j. j\<lparr>j_dir := dir\<rparr>) s;
     lwt_unix_alloc_job a s
   }"

subsection \<open>rewinddir\<close>

definition worker_rewinddir :: "(nat option \<Rightarrow> ('os, unit) syscall) \<Rightarrow> nat \<Rightarrow> (rewinddir_x, 'os) cst \<Rightarrow> (rewinddir_x, 'os) cst option" where
  [job_defs]: "worker_rewinddir rewinddir p s = do {
     job \<leftarrow> heap s p;
     let (_, e, w) = rewinddir (r_dir job) (c_errno s) (os s);
     Some (s\<lparr>c_errno := e, os := w\<rparr>)
   }"

definition result_rewinddir :: "nat \<Rightarrow> (rewinddir_x, 'os) cst \<Rightarrow> (caml_value outcome \<times> (rewinddir_x, 'os) cst) option" where
  [job_defs]: "result_rewinddir p s = free_and_return p Val_unit s"

definition lwt_unix_rewinddir_job :: "nat \<Rightarrow> job_rewinddir \<Rightarrow> nat option \<Rightarrow> (rewinddir_x, 'os) cst
    \<Rightarrow> (caml_value \<times> (rewinddir_x, 'os) cst) option" where
  [job_defs]: "lwt_unix_rewinddir_job a u dir s = do {
     s \<leftarrow> LWT_UNIX_INIT_JOB a ''rewinddir'' u s;
     s \<leftarrow> set_job a (\<lambda>j. j\<lparr>r_dir := dir\<rparr>) s;
     lwt_unix_alloc_job a s
   }"

section \<open>The contracts\<close>

text \<open>The answer of a call on a descriptor: errors carry no argument.\<close>

definition fd_answer :: "string \<Rightarrow> int \<Rightarrow> int \<Rightarrow> caml_value outcome" where
  "fd_answer name r e = (if r < 0 then Raise (Unix_error e name Nothing) else Ret Val_unit)"

definition seek_answer :: "(int \<Rightarrow> caml_value) \<Rightarrow> int \<Rightarrow> int \<Rightarrow> caml_value outcome" where
  "seek_answer val r e = (if r = -1 then Raise (Unix_error e ''lseek'' Nothing) else Ret (val r))"

definition sys_finished :: "int \<Rightarrow> int \<Rightarrow> 'y sys_x lwt_unix_job_scheme \<Rightarrow> bool" where
  "sys_finished r e j \<longleftrightarrow> j_result j = r \<and> j_error_code j = e"

lemmas fd_contract = fd_answer_def seek_answer_def sys_finished_def

interpretation close_job: job_impl "''worker_close''" "''result_close''" "\<lambda>a u. lwt_unix_close_job a u fd" "worker_close call" result_close
    "call (c_int fd)" "fd_answer ''close''" "\<lambda>j. j_fd j = c_int fd" sys_finished for call fd
  by unfold_locales (simp_all add: job_defs job_common fd_contract)

interpretation fsync_job: job_impl "''worker_fsync''" "''result_fsync''" "\<lambda>a u. lwt_unix_fsync_job a u fd" "worker_fsync call" result_fsync
    "call (c_int fd)" "fd_answer ''fsync''" "\<lambda>j. j_fd j = c_int fd" sys_finished for call fd
  by unfold_locales (simp_all add: job_defs job_common fd_contract)

interpretation fdatasync_job: job_impl "''worker_fdatasync''" "''result_fdatasync''" "\<lambda>a u. lwt_unix_fdatasync_job a u fd" "worker_fdatasync call" result_fdatasync
    "call (c_int fd)" "fd_answer ''fdatasync''" "\<lambda>j. j_fd j = c_int fd" sys_finished for call fd
  by unfold_locales (simp_all add: job_defs job_common fd_contract)

interpretation tcdrain_job: job_impl "''worker_tcdrain''" "''result_tcdrain''" "\<lambda>a u. lwt_unix_tcdrain_job a u fd" "worker_tcdrain call" result_tcdrain
    "call (c_int fd)" "fd_answer ''tcdrain''" "\<lambda>j. j_fd j = c_int fd" sys_finished for call fd
  by unfold_locales (simp_all add: job_defs job_common fd_contract)

interpretation fchmod_job: job_impl "''worker_fchmod''" "''result_fchmod''" "\<lambda>a u. lwt_unix_fchmod_job a u fd mode" "worker_fchmod call" result_fchmod
    "call (c_int fd) (c_int mode)" "fd_answer ''fchmod''" "\<lambda>j. j_fd j = c_int fd \<and> j_arg j = c_int mode" sys_finished for call fd mode
  by unfold_locales (simp_all add: job_defs job_common fd_contract)

interpretation ftruncate_job: job_impl "''worker_ftruncate''" "''result_ftruncate''" "\<lambda>a u. lwt_unix_ftruncate_job a u fd offset" "worker_ftruncate call" result_ftruncate
    "call (c_int fd) (offset)" "fd_answer ''ftruncate''" "\<lambda>j. j_fd j = c_int fd \<and> j_arg j = offset" sys_finished for call fd offset
  by unfold_locales (simp_all add: job_defs job_common fd_contract)

interpretation tcsendbreak_job: job_impl "''worker_tcsendbreak''" "''result_tcsendbreak''" "\<lambda>a u. lwt_unix_tcsendbreak_job a u fd duration" "worker_tcsendbreak call" result_tcsendbreak
    "call (c_int fd) (c_int duration)" "fd_answer ''tcsendbreak''" "\<lambda>j. j_fd j = c_int fd \<and> j_arg j = c_int duration" sys_finished for call fd duration
  by unfold_locales (simp_all add: job_defs job_common fd_contract)

interpretation ftruncate_64_job: job_impl "''worker_ftruncate''" "''result_ftruncate''" "\<lambda>a u. lwt_unix_ftruncate_64_job a u fd offset" "worker_ftruncate call" result_ftruncate
    "call (c_int fd) (c_long offset)" "fd_answer ''ftruncate''" "\<lambda>j. j_fd j = c_int fd \<and> j_arg j = c_long offset" sys_finished for call fd offset
  by unfold_locales (simp_all add: job_defs job_common fd_contract)

interpretation fchown_job: job_impl "''worker_fchown''" "''result_fchown''" "\<lambda>a u. lwt_unix_fchown_job a u fd ower grp" "worker_fchown call" result_fchown
    "call (c_int fd) (c_int ower) (c_int grp)" "fd_answer ''fchown''" "\<lambda>j. j_fd j = c_int fd \<and> j_arg j = c_int ower \<and> j_arg2 j = c_int grp" sys_finished for call fd ower grp
  by unfold_locales (simp_all add: job_defs job_common fd_contract)

interpretation tcflow_job: job_impl "''worker_tcflow''" "''result_tcflow''" "\<lambda>a u. lwt_unix_tcflow_job K a u fd (flow_action_index v)" "worker_tcflow call" result_tcflow
    "call (c_int fd) (flow_action_flag K v)" "fd_answer ''tcflow''" "\<lambda>j. j_fd j = c_int fd \<and> j_arg j = flow_action_flag K v" sys_finished for call K fd v
  by unfold_locales (simp_all add: job_defs job_common fd_contract)

interpretation tcflush_job: job_impl "''worker_tcflush''" "''result_tcflush''" "\<lambda>a u. lwt_unix_tcflush_job K a u fd (flush_queue_index v)" "worker_tcflush call" result_tcflush
    "call (c_int fd) (flush_queue_flag K v)" "fd_answer ''tcflush''" "\<lambda>j. j_fd j = c_int fd \<and> j_arg j = flush_queue_flag K v" sys_finished for call K fd v
  by unfold_locales (simp_all add: job_defs job_common fd_contract)

interpretation lseek_job: job_impl "''worker_lseek''" "''result_lseek''" "\<lambda>a u. lwt_unix_lseek_job K a u fd offset (seek_command_index v)" "worker_lseek call" result_lseek
    "call (c_int fd) (offset) (seek_command_flag K v)" "seek_answer Val_long" "\<lambda>j. j_fd j = c_int fd \<and> j_arg j = offset \<and> j_arg2 j = seek_command_flag K v" sys_finished for call K fd offset v
  by unfold_locales (simp_all add: job_defs job_common fd_contract)

interpretation lseek_64_job: job_impl "''worker_lseek''" "''result_lseek_64''" "\<lambda>a u. lwt_unix_lseek_64_job K a u fd offset (seek_command_index v)" "worker_lseek call" result_lseek_64
    "call (c_int fd) (c_long offset) (seek_command_flag K v)" "seek_answer Caml_int64" "\<lambda>j. j_fd j = c_int fd \<and> j_arg j = c_long offset \<and> j_arg2 j = seek_command_flag K v" sys_finished for call K fd offset v
  by unfold_locales (simp_all add: job_defs job_common fd_contract)

interpretation isatty_job: job_impl "''worker_isatty''" "''result_isatty''" "\<lambda>a u. lwt_unix_isatty_job a u fd" "worker_isatty call" result_isatty
    "call (c_int fd)" "\<lambda>r e. Ret (Val_bool (r \<noteq> 0))" "\<lambda>j. b_fd j = c_int fd" "\<lambda>r e j. b_result j = r" for call fd
  by unfold_locales (simp_all add: job_defs job_common fd_contract)

text \<open>What \<^verbatim>\<open>guess_blocking\<close> answers for what \<^verbatim>\<open>fstat\<close> found.\<close>

definition blocking_answer :: "(int \<Rightarrow> bool) \<Rightarrow> (int \<Rightarrow> bool) \<Rightarrow> int \<times> int \<Rightarrow> bool" where
  "blocking_answer S_ISFIFO S_ISSOCK r \<longleftrightarrow> fst r \<noteq> 0 \<or> \<not> (S_ISFIFO (snd r) \<or> S_ISSOCK (snd r))"

interpretation guess_blocking_job: job_impl "''worker_guess_blocking''" "''result_guess_blocking''" "\<lambda>a u. lwt_unix_guess_blocking_job a u fd" "worker_guess_blocking S_ISFIFO S_ISSOCK call" result_guess_blocking
    "call (c_int fd)" "\<lambda>r e. Ret (Val_bool (blocking_answer S_ISFIFO S_ISSOCK r))" "\<lambda>j. b_fd j = c_int fd" "\<lambda>r e j. (b_result j \<noteq> 0) = blocking_answer S_ISFIFO S_ISSOCK r" for call fd S_ISFIFO S_ISSOCK
  by unfold_locales (auto simp: job_defs job_common fd_contract blocking_answer_def)

interpretation closedir_job: job_impl "''worker_closedir''" "''result_closedir''" "\<lambda>a u. lwt_unix_closedir_job a u dir" "worker_closedir call" result_closedir
    "call dir" "fd_answer ''closedir''" "\<lambda>j. j_dir j = dir" sys_finished for call dir
  by unfold_locales (simp_all add: job_defs job_common fd_contract)

interpretation rewinddir_job: job_impl "''worker_rewinddir''" "''result_rewinddir''" "\<lambda>a u. lwt_unix_rewinddir_job a u dir"
    "worker_rewinddir call" result_rewinddir "call dir" "\<lambda>r e. Ret Val_unit" "\<lambda>j. r_dir j = dir" "\<lambda>r e j. True" for call dir
  by unfold_locales (simp_all add: job_defs job_common, metis heap_store_same)

lemmas fd_runs =
  close_job.run_spec fsync_job.run_spec fdatasync_job.run_spec tcdrain_job.run_spec fchmod_job.run_spec ftruncate_job.run_spec tcsendbreak_job.run_spec ftruncate_64_job.run_spec fchown_job.run_spec tcflow_job.run_spec tcflush_job.run_spec lseek_job.run_spec lseek_64_job.run_spec isatty_job.run_spec guess_blocking_job.run_spec closedir_job.run_spec rewinddir_job.run_spec

text \<open>A structure with arbitrary content, for the examples.\<close>

definition demo_seek_job :: fd_arg2_job where
  "demo_seek_job = \<lparr>next_job = None, notification_id = 0, worker_fn = [], result_fn = [], job_state = LWT_UNIX_JOB_STATE_DONE,
     fast = 5, job_mutex = Mutex_held, async_method = LWT_UNIX_ASYNC_METHOD_SWITCH, j_result = 3, j_error_code = 4, j_fd = 5,
     j_arg = 6, j_arg2 = 7\<rparr>"

section \<open>Properties\<close>

text \<open>
  C24. The jobs on a descriptor are correct: each performs exactly one system call, on the descriptor and
  the converted arguments (an OCaml constructor of \<^verbatim>\<open>flow_action\<close> or \<^verbatim>\<open>flush_queue\<close> becomes the constant of
  the same name, an offset keeps its 63 or 64 bits); OCaml gets the unit value or \<^verbatim>\<open>Unix_error\<close> with the
  error code of that call; the structure is freed; the answer depends neither on uninitialised memory
  nor on how the job was executed.
\<close>

theorem fd_jobs_correct:
  assumes "heap s a = None" and "heap t a = None" and "heap v a = None"
  shows
    "job_run am e (lwt_unix_close_job a us fd) [''worker_close'' \<mapsto> worker_close close_c] [''result_close'' \<mapsto> result_close] s =
       job_spec (close_c (c_int fd)) (fd_answer ''close'') e s \<and>
     job_run am e (lwt_unix_fsync_job a us fd) [''worker_fsync'' \<mapsto> worker_fsync fsync_c] [''result_fsync'' \<mapsto> result_fsync] s =
       job_spec (fsync_c (c_int fd)) (fd_answer ''fsync'') e s \<and>
     job_run am e (lwt_unix_fdatasync_job a us fd) [''worker_fdatasync'' \<mapsto> worker_fdatasync fdatasync_c] [''result_fdatasync'' \<mapsto> result_fdatasync] s =
       job_spec (fdatasync_c (c_int fd)) (fd_answer ''fdatasync'') e s \<and>
     job_run am e (lwt_unix_tcdrain_job a us fd) [''worker_tcdrain'' \<mapsto> worker_tcdrain tcdrain_c] [''result_tcdrain'' \<mapsto> result_tcdrain] s =
       job_spec (tcdrain_c (c_int fd)) (fd_answer ''tcdrain'') e s \<and>
     job_run am e (lwt_unix_fchmod_job a ut fd mode) [''worker_fchmod'' \<mapsto> worker_fchmod fchmod_c] [''result_fchmod'' \<mapsto> result_fchmod] t =
       job_spec (fchmod_c (c_int fd) (c_int mode)) (fd_answer ''fchmod'') e t \<and>
     job_run am e (lwt_unix_ftruncate_job a ut fd offset) [''worker_ftruncate'' \<mapsto> worker_ftruncate ftruncate_c] [''result_ftruncate'' \<mapsto> result_ftruncate] t =
       job_spec (ftruncate_c (c_int fd) (offset)) (fd_answer ''ftruncate'') e t \<and>
     job_run am e (lwt_unix_tcsendbreak_job a ut fd duration) [''worker_tcsendbreak'' \<mapsto> worker_tcsendbreak tcsendbreak_c] [''result_tcsendbreak'' \<mapsto> result_tcsendbreak] t =
       job_spec (tcsendbreak_c (c_int fd) (c_int duration)) (fd_answer ''tcsendbreak'') e t \<and>
     job_run am e (lwt_unix_ftruncate_64_job a ut fd offset) [''worker_ftruncate'' \<mapsto> worker_ftruncate ftruncate_c] [''result_ftruncate'' \<mapsto> result_ftruncate] t =
       job_spec (ftruncate_c (c_int fd) (c_long offset)) (fd_answer ''ftruncate'') e t \<and>
     job_run am e (lwt_unix_tcflow_job K a ut fd (flow_action_index act)) [''worker_tcflow'' \<mapsto> worker_tcflow tcflow_c] [''result_tcflow'' \<mapsto> result_tcflow] t =
       job_spec (tcflow_c (c_int fd) (flow_action_flag K act)) (fd_answer ''tcflow'') e t \<and>
     job_run am e (lwt_unix_tcflush_job K a ut fd (flush_queue_index que)) [''worker_tcflush'' \<mapsto> worker_tcflush tcflush_c] [''result_tcflush'' \<mapsto> result_tcflush] t =
       job_spec (tcflush_c (c_int fd) (flush_queue_flag K que)) (fd_answer ''tcflush'') e t \<and>
     job_run am e (lwt_unix_fchown_job a uv fd ower grp) [''worker_fchown'' \<mapsto> worker_fchown fchown_c] [''result_fchown'' \<mapsto> result_fchown] v =
       job_spec (fchown_c (c_int fd) (c_int ower) (c_int grp)) (fd_answer ''fchown'') e v"
  by (simp_all add: assms fd_runs)

theorem fd_jobs_correct_witness:
  "job_run LWT_UNIX_ASYNC_METHOD_DETACH 0 (lwt_unix_fchown_job 1 demo_seek_job 3 100 200)
      [''worker_fchown'' \<mapsto> worker_fchown (\<lambda>fd u g e w. (0, e, w @ [(fd, u, g)]))] [''result_fchown'' \<mapsto> result_fchown] demo_cst =
    Some (Ret Val_unit, demo_cst\<lparr>os := [(3, 100, 200)]\<rparr>)"
proof -
  have h: "heap demo_cst 1 = None" by (simp add: demo_cst_def)
  have "job_run LWT_UNIX_ASYNC_METHOD_DETACH 0 (lwt_unix_fchown_job 1 demo_seek_job 3 100 200)
      [''worker_fchown'' \<mapsto> worker_fchown (\<lambda>fd u g e w. (0, e, w @ [(fd, u, g)]))] [''result_fchown'' \<mapsto> result_fchown] demo_cst =
    job_spec ((\<lambda>fd u g e w. (0, e, w @ [(fd, u, g)])) (c_int 3) (c_int 100) (c_int 200)) (fd_answer ''fchown'') 0 demo_cst"
    by (rule fd_jobs_correct [OF h h h, THEN conjunct2, THEN conjunct2, THEN conjunct2, THEN conjunct2, THEN conjunct2,
          THEN conjunct2, THEN conjunct2, THEN conjunct2, THEN conjunct2, THEN conjunct2])
  then show ?thesis by (simp add: demo_cst_def job_spec_def fd_answer_def c_int_id)
qed

text \<open>
  \<^verbatim>\<open>lseek\<close> returns the new position to OCaml, as a native integer or as an \<^verbatim>\<open>int64\<close>; \<^verbatim>\<open>isatty\<close> and
  \<^verbatim>\<open>guess_blocking\<close> return what the system says: a descriptor is taken for non-blocking exactly when
  \<^verbatim>\<open>fstat\<close> succeeds and finds a FIFO or a socket; the directory jobs act on the handle they are given.
\<close>

theorem query_jobs_correct:
  assumes "heap s a = None" and "heap t a = None" and "heap v a = None" and "heap x a = None"
  shows
    "job_run am e (lwt_unix_lseek_job K a us fd offset (seek_command_index whence)) [''worker_lseek'' \<mapsto> worker_lseek lseek_c] [''result_lseek'' \<mapsto> result_lseek] s =
       job_spec (lseek_c (c_int fd) (offset) (seek_command_flag K whence)) (seek_answer Val_long) e s \<and>
     job_run am e (lwt_unix_lseek_64_job K a us fd offset (seek_command_index whence)) [''worker_lseek'' \<mapsto> worker_lseek lseek_c] [''result_lseek_64'' \<mapsto> result_lseek_64] s =
       job_spec (lseek_c (c_int fd) (c_long offset) (seek_command_flag K whence)) (seek_answer Caml_int64) e s \<and>
     job_run am e (lwt_unix_isatty_job a ut fd) [''worker_isatty'' \<mapsto> worker_isatty isatty_c] [''result_isatty'' \<mapsto> result_isatty] t =
       job_spec (isatty_c (c_int fd)) (\<lambda>r e. Ret (Val_bool (r \<noteq> 0))) e t \<and>
     job_run am e (lwt_unix_guess_blocking_job a ut fd) [''worker_guess_blocking'' \<mapsto> worker_guess_blocking S_ISFIFO S_ISSOCK fstat]
       [''result_guess_blocking'' \<mapsto> result_guess_blocking] t =
       job_spec (fstat (c_int fd)) (\<lambda>r e. Ret (Val_bool (fst r \<noteq> 0 \<or> \<not> (S_ISFIFO (snd r) \<or> S_ISSOCK (snd r))))) e t \<and>
     job_run am e (lwt_unix_closedir_job a uv dir) [''worker_closedir'' \<mapsto> worker_closedir closedir] [''result_closedir'' \<mapsto> result_closedir] v =
       job_spec (closedir dir) (fd_answer ''closedir'') e v \<and>
     job_run am e (lwt_unix_rewinddir_job a ux dir) [''worker_rewinddir'' \<mapsto> worker_rewinddir rewinddir] [''result_rewinddir'' \<mapsto> result_rewinddir] x =
       job_spec (rewinddir dir) (\<lambda>r e. Ret Val_unit) e x"
  by (simp_all add: assms fd_runs blocking_answer_def)

theorem query_jobs_correct_witness:
  "job_run LWT_UNIX_ASYNC_METHOD_DETACH 0 (lwt_unix_lseek_job (\<lambda>_. 2) 1 demo_seek_job 3 (-5) (seek_command_index SEEK_END))
      [''worker_lseek'' \<mapsto> worker_lseek (\<lambda>fd n wh e w. (95, e, w @ [(fd, n, wh)]))] [''result_lseek'' \<mapsto> result_lseek] demo_cst =
    Some (Ret (Imm 95), demo_cst\<lparr>os := [(3, -5, 2)]\<rparr>)"
proof -
  have h: "heap demo_cst 1 = None" by (simp add: demo_cst_def)
  have "job_run LWT_UNIX_ASYNC_METHOD_DETACH 0 (lwt_unix_lseek_job (\<lambda>_. 2) 1 demo_seek_job 3 (-5) (seek_command_index SEEK_END))
      [''worker_lseek'' \<mapsto> worker_lseek (\<lambda>fd n wh e w. (95, e, w @ [(fd, n, wh)]))] [''result_lseek'' \<mapsto> result_lseek] demo_cst =
    job_spec ((\<lambda>fd n wh e w. (95, e, w @ [(fd, n, wh)])) (c_int 3) (-5) (seek_command_flag (\<lambda>_. 2) SEEK_END)) (seek_answer Val_long) 0 demo_cst"
    by (rule query_jobs_correct [OF h h h h, THEN conjunct1])
  then show ?thesis by (simp add: demo_cst_def job_spec_def seek_answer_def c_int_id Val_long_def caml_int_id)
qed

end
