(* ===== verification/Open_Jobs.thy ===== *)
theory Open_Jobs
  imports Fd_Jobs
begin

text \<open>
  \<^verbatim>\<open>unix_open_job.c\<close>, \<^verbatim>\<open>unix_opendir_job.c\<close> and \<^verbatim>\<open>unix_lockf_job.c\<close>: jobs whose worker does more than one
  system call or decides which one to do.
\<close>

section \<open>open\<close>

text \<open>
  The flags of \<^verbatim>\<open>Unix.open_flag\<close>, in the order of their constructors. \<^verbatim>\<open>O_CLOEXEC\<close> and \<^verbatim>\<open>O_KEEPEXEC\<close> do not
  go to the flag word but to a second table. The model is of a platform with \<^verbatim>\<open>O_CLOEXEC\<close>.
\<close>

datatype open_flag =
    O_RDONLY | O_WRONLY | O_RDWR | O_NONBLOCK | O_APPEND | O_CREAT | O_TRUNC | O_EXCL | O_NOCTTY
  | O_DSYNC | O_SYNC | O_RSYNC | O_SHARE_DELETE | O_CLOEXEC | O_KEEPEXEC

definition open_flag_table :: "(string \<Rightarrow> int) \<Rightarrow> int list" where
  "open_flag_table K =
     [K ''O_RDONLY'', K ''O_WRONLY'', K ''O_RDWR'', K ''O_NONBLOCK'', K ''O_APPEND'', K ''O_CREAT'', K ''O_TRUNC'',
      K ''O_EXCL'', K ''O_NOCTTY'', K ''O_DSYNC'', K ''O_SYNC'', K ''O_RSYNC'', 0, 0, 0]"

definition CLOEXEC :: int where
  "CLOEXEC = 1"

definition KEEPEXEC :: int where
  "KEEPEXEC = 2"

definition open_cloexec_table :: "int list" where
  "open_cloexec_table = [0, 0, 0, 0, 0, 0, 0, 0, 0, 0, 0, 0, 0, CLOEXEC, KEEPEXEC]"

fun open_index :: "open_flag \<Rightarrow> int" where
  "open_index O_RDONLY = 0"
| "open_index O_WRONLY = 1"
| "open_index O_RDWR = 2"
| "open_index O_NONBLOCK = 3"
| "open_index O_APPEND = 4"
| "open_index O_CREAT = 5"
| "open_index O_TRUNC = 6"
| "open_index O_EXCL = 7"
| "open_index O_NOCTTY = 8"
| "open_index O_DSYNC = 9"
| "open_index O_SYNC = 10"
| "open_index O_RSYNC = 11"
| "open_index O_SHARE_DELETE = 12"
| "open_index O_CLOEXEC = 13"
| "open_index O_KEEPEXEC = 14"

text \<open>
  \<^verbatim>\<open>struct job_open\<close>: its field \<^verbatim>\<open>fd\<close>, which holds \<^verbatim>\<open>CLOEXEC\<close> or \<^verbatim>\<open>KEEPEXEC\<close> before the call and the
  descriptor after it, is \<open>j_result\<close>; \<^verbatim>\<open>name\<close> is \<open>j_path\<close>.
\<close>

record job_open = path_job +
  o_flags :: int
  o_perms :: int
  o_blocking :: int

type_synonym open_x = "unit job_open_ext path_x"

text \<open>The first lines of \<^verbatim>\<open>worker_open\<close>: choose \<^verbatim>\<open>cloexec\<close> from the field \<^verbatim>\<open>fd\<close>, and add \<^verbatim>\<open>O_CLOEXEC\<close> to the flags.\<close>

definition choose_cloexec :: "bool \<Rightarrow> int \<Rightarrow> bool" where
  "choose_cloexec cloexec_default fd =
     (if and fd CLOEXEC \<noteq> 0 then True else if and fd KEEPEXEC \<noteq> 0 then False else cloexec_default)"

definition add_cloexec :: "(string \<Rightarrow> int) \<Rightarrow> bool \<Rightarrow> job_open \<Rightarrow> job_open" where
  "add_cloexec K cloexec j = (if cloexec then j\<lparr>o_flags := or (o_flags j) (K ''O_CLOEXEC'')\<rparr> else j)"

text \<open>\<open>cloexec_default\<close> is the variable \<^verbatim>\<open>caml_unix_cloexec_default\<close> of the OCaml runtime.\<close>

definition worker_open :: "(string \<Rightarrow> int) \<Rightarrow> bool \<Rightarrow> (int \<Rightarrow> bool) \<Rightarrow> (int \<Rightarrow> bool) \<Rightarrow> (char list \<Rightarrow> int \<Rightarrow> int \<Rightarrow> ('os, int) syscall)
    \<Rightarrow> (int \<Rightarrow> ('os, int \<times> int) syscall) \<Rightarrow> nat \<Rightarrow> (open_x, 'os) cst \<Rightarrow> (open_x, 'os) cst option" where
  [job_defs]: "worker_open K cloexec_default S_ISFIFO S_ISSOCK open_c fstat p s = do {
     job \<leftarrow> heap s p;
     let cloexec = choose_cloexec cloexec_default (j_result job);
     s \<leftarrow> set_job p (add_cloexec K cloexec) s;
     job \<leftarrow> heap s p;
     name \<leftarrow> job_path job;
     let (fd, e, w) = open_c name (o_flags job) (o_perms job) (c_errno s) (os s);
     s \<leftarrow> set_job p (\<lambda>j. j\<lparr>j_result := fd, j_error_code := e\<rparr>) s;
     if fd \<ge> 0 then do {
       let ((r, st_mode), e, w) = fstat fd e w;
       s \<leftarrow> set_job p (\<lambda>j. j\<lparr>o_blocking := (if r < 0 then 1 else if S_ISFIFO st_mode \<or> S_ISSOCK st_mode then 0 else 1)\<rparr>) s;
       Some (s\<lparr>c_errno := e, os := w\<rparr>)
     } else Some (s\<lparr>c_errno := e, os := w\<rparr>)
   }"

definition result_open :: "nat \<Rightarrow> (open_x, 'os) cst \<Rightarrow> (caml_value outcome \<times> (open_x, 'os) cst) option" where
  [job_defs]: "result_open p s = do {
     job \<leftarrow> heap s p;
     LWT_UNIX_CHECK_JOB_ARG p (j_result job < 0) ''open'' (job_path job) s
       (free_and_return p (Block 0 [Val_int (j_result job), Val_bool (o_blocking job \<noteq> 0)]))
   }"

definition lwt_unix_open_job :: "(string \<Rightarrow> int) \<Rightarrow> nat \<Rightarrow> job_open \<times> (nat \<Rightarrow> char) \<Rightarrow> char list \<Rightarrow> int list \<Rightarrow> int
    \<Rightarrow> (open_x, 'os) cst \<Rightarrow> (caml_value \<times> (open_x, 'os) cst) option" where
  [job_defs]: "lwt_unix_open_job K a ug name flags perms s = do {
     s \<leftarrow> LWT_UNIX_INIT_JOB_STRING a ''open'' 0 name ug s;
     ce \<leftarrow> flags_of open_cloexec_table flags;
     fl \<leftarrow> flags_of (open_flag_table K) flags;
     s \<leftarrow> set_job a (\<lambda>j. j\<lparr>j_result := ce, o_flags := fl, o_perms := c_int perms\<rparr>) s;
     lwt_unix_alloc_job a s
   }"

text \<open>A structure with arbitrary content, for the examples.\<close>

definition demo_open_job :: job_open where
  "demo_open_job = \<lparr>next_job = None, notification_id = 0, worker_fn = [], result_fn = [], job_state = LWT_UNIX_JOB_STATE_DONE,
     fast = 5, job_mutex = Mutex_held, async_method = LWT_UNIX_ASYNC_METHOD_SWITCH, j_result = 3, j_error_code = 4, j_path = 5,
     j_data = [], o_flags = 6, o_perms = 7, o_blocking = 8\<rparr>"

subsection \<open>What the flags mean\<close>

fun open_word :: "(string \<Rightarrow> int) \<Rightarrow> open_flag \<Rightarrow> int" where
  "open_word K O_RDONLY = K ''O_RDONLY''"
| "open_word K O_WRONLY = K ''O_WRONLY''"
| "open_word K O_RDWR = K ''O_RDWR''"
| "open_word K O_NONBLOCK = K ''O_NONBLOCK''"
| "open_word K O_APPEND = K ''O_APPEND''"
| "open_word K O_CREAT = K ''O_CREAT''"
| "open_word K O_TRUNC = K ''O_TRUNC''"
| "open_word K O_EXCL = K ''O_EXCL''"
| "open_word K O_NOCTTY = K ''O_NOCTTY''"
| "open_word K O_DSYNC = K ''O_DSYNC''"
| "open_word K O_SYNC = K ''O_SYNC''"
| "open_word K O_RSYNC = K ''O_RSYNC''"
| "open_word K _ = 0"

text \<open>Close-on-exec as the list asks for it: \<^verbatim>\<open>O_CLOEXEC\<close> wins over \<^verbatim>\<open>O_KEEPEXEC\<close>, which wins over the default.\<close>

definition wants_cloexec :: "bool \<Rightarrow> open_flag list \<Rightarrow> bool" where
  "wants_cloexec dflt fs \<longleftrightarrow> O_CLOEXEC \<in> set fs \<or> O_KEEPEXEC \<notin> set fs \<and> dflt"

definition open_word_of :: "(string \<Rightarrow> int) \<Rightarrow> bool \<Rightarrow> open_flag list \<Rightarrow> int" where
  "open_word_of K dflt fs =
     (let word = foldr (\<lambda>f r. or (open_word K f) r) fs 0
      in if wants_cloexec dflt fs then or word (K ''O_CLOEXEC'') else word)"

lemma open_flag_lookup:
  "tbl_get (open_flag_table K) (open_index f) = Some (open_word K f)"
  by (cases f) (simp_all add: open_flag_table_def tbl_get_def)

lemma open_cloexec_lookup:
  "tbl_get open_cloexec_table (open_index f) =
     Some (if f = O_CLOEXEC then CLOEXEC else if f = O_KEEPEXEC then KEEPEXEC else 0)"
  by (cases f) (simp_all add: open_cloexec_table_def tbl_get_def)

lemma open_flags_of: "flags_of (open_flag_table K) (map open_index fs) = Some (foldr (\<lambda>f r. or (open_word K f) r) fs 0)"
  by (induction fs) (simp_all add: open_flag_lookup)

definition cloexec_word :: "open_flag list \<Rightarrow> int" where
  "cloexec_word fs = (if O_CLOEXEC \<in> set fs then 1 else 0) + (if O_KEEPEXEC \<in> set fs then 2 else 0)"

lemma cloexec_flags_of: "flags_of open_cloexec_table (map open_index fs) = Some (cloexec_word fs)"
proof (induction fs)
  case (Cons f fs)
  have "or 1 (3::int) = 3" "or 2 (3::int) = 3" "or 1 (2::int) = 3" "or 2 (1::int) = 3" by simp_all
  with Cons show ?case
    by (auto simp: open_cloexec_lookup CLOEXEC_def KEEPEXEC_def cloexec_word_def)
qed (simp add: cloexec_word_def)

lemma cloexec_bits:
  "and (cloexec_word fs) CLOEXEC \<noteq> 0 \<longleftrightarrow> O_CLOEXEC \<in> set fs"
  "and (cloexec_word fs) KEEPEXEC \<noteq> 0 \<longleftrightarrow> O_KEEPEXEC \<in> set fs"
  by (simp_all add: cloexec_word_def CLOEXEC_def KEEPEXEC_def)

subsection \<open>The contract\<close>

text \<open>Opening the file and looking at what was opened: the descriptor, the error code, whether it blocks.\<close>

definition open_call :: "(int \<Rightarrow> bool) \<Rightarrow> (int \<Rightarrow> bool) \<Rightarrow> ('os, int) syscall \<Rightarrow> (int \<Rightarrow> ('os, int \<times> int) syscall)
    \<Rightarrow> ('os, int \<times> int \<times> bool) syscall" where
  "open_call S_ISFIFO S_ISSOCK open_c fstat e w =
     (case open_c e w of (fd, e, w) \<Rightarrow>
        if fd \<ge> 0 then
          (case fstat fd e w of (rm, e', w') \<Rightarrow> ((fd, e, fst rm < 0 \<or> \<not> (S_ISFIFO (snd rm) \<or> S_ISSOCK (snd rm))), e', w'))
        else ((fd, e, True), e, w))"

fun open_answer :: "char list \<Rightarrow> int \<times> int \<times> bool \<Rightarrow> int \<Rightarrow> caml_value outcome" where
  "open_answer path (fd, e, b) _ =
     (if fd < 0 then Raise (Unix_error e ''open'' (Caml_string (cstring path)))
      else Ret (Block 0 [Val_int fd, Val_bool b]))"

fun open_finished :: "char list \<Rightarrow> int \<times> int \<times> bool \<Rightarrow> int \<Rightarrow> job_open \<Rightarrow> bool" where
  "open_finished path (fd, e, b) _ j \<longleftrightarrow> job_path j = Some (cstring path) \<and> j_result j = fd \<and> j_error_code j = e \<and>
     (fd \<ge> 0 \<longrightarrow> (o_blocking j \<noteq> 0) = b)"

definition open_ready :: "(string \<Rightarrow> int) \<Rightarrow> char list \<Rightarrow> open_flag list \<Rightarrow> int \<Rightarrow> job_open \<Rightarrow> bool" where
  "open_ready K path fs perms j \<longleftrightarrow> job_path j = Some (cstring path) \<and> j_result j = cloexec_word fs \<and>
     o_flags j = foldr (\<lambda>f r. or (open_word K f) r) fs 0 \<and> o_perms j = c_int perms"

lemma job_path_open [simp]:
  "job_path (j\<lparr>j_result := r, o_flags := f, o_perms := p\<rparr>) = job_path j"
  "job_path (j\<lparr>o_flags := f\<rparr>) = job_path j"
  "job_path (j\<lparr>j_result := r, j_error_code := e, o_flags := f\<rparr>) = job_path j"
  "job_path (j\<lparr>j_result := r, j_error_code := e, o_blocking := b\<rparr>) = job_path j"
  "job_path (j\<lparr>j_result := r, j_error_code := e, o_flags := f, o_blocking := b\<rparr>) = job_path j"
  by (simp_all add: job_path_def)

interpretation open_job: job_impl "''worker_open''" "''result_open''" "\<lambda>a ug. lwt_unix_open_job K a ug path (map open_index fs) perms"
    "worker_open K dflt S_ISFIFO S_ISSOCK call fstat" result_open
    "open_call S_ISFIFO S_ISSOCK (call (cstring path) (open_word_of K dflt fs) (c_int perms)) fstat" "open_answer path"
    "open_ready K path fs perms" "open_finished path" for K dflt S_ISFIFO S_ISSOCK call fstat path fs perms
proof (unfold_locales, goal_cases)
  case (1 s a u)
  then show ?case by (simp add: job_defs job_common open_flags_of cloexec_flags_of open_ready_def)
next
  case (2 j am m)
  then show ?case by (simp add: open_ready_def)
next
  case (3 s p j r e w)
  let ?f = "add_cloexec K (wants_cloexec dflt fs)"
  have c: "choose_cloexec dflt (j_result j) = wants_cloexec dflt fs"
    using 3(2) by (simp add: open_ready_def choose_cloexec_def cloexec_bits wants_cloexec_def)
  have j: "o_flags (?f j) = open_word_of K dflt fs" "o_perms (?f j) = c_int perms" "job_path (?f j) = Some (cstring path)"
    "result_fn (?f j) = result_fn j" "async_method (?f j) = async_method j" "job_mutex (?f j) = job_mutex j"
    using 3(2) by (simp_all add: add_cloexec_def open_ready_def open_word_of_def Let_def)
  obtain fd e1 w1 where o: "call (cstring path) (open_word_of K dflt fs) (c_int perms) (c_errno s) (os s) = (fd, e1, w1)"
    by (metis prod_cases3)
  obtain rc m e2 w2 where st: "fstat fd e1 w1 = ((rc, m), e2, w2)" by (metis prod_cases3 surj_pair)
  have "worker_open K dflt S_ISFIFO S_ISSOCK call fstat p s =
      (if fd \<ge> 0 then Some (s\<lparr>heap := (heap s)(p \<mapsto> (?f j)\<lparr>j_result := fd, j_error_code := e1,
           o_blocking := if rc < 0 then 1 else if S_ISFIFO m \<or> S_ISSOCK m then 0 else 1\<rparr>), c_errno := e2, os := w2\<rparr>)
       else Some (s\<lparr>heap := (heap s)(p \<mapsto> (?f j)\<lparr>j_result := fd, j_error_code := e1\<rparr>), c_errno := e1, os := w1\<rparr>))"
    using 3(1) j o st by (simp add: worker_open_def Let_def c)
  with 3(3) o st j show ?case by (cases "fd \<ge> 0") (auto simp: open_call_def)
next
  case (4 s p j r e)
  then show ?case by (cases r) (auto simp: job_defs job_common)
qed

section \<open>opendir\<close>

text \<open>The \<^verbatim>\<open>DIR *\<close> result is \<open>j_result\<close>: the address, 0 for a null pointer.\<close>

type_synonym job_opendir = path_job

definition worker_opendir :: "(char list \<Rightarrow> ('os, int) syscall) \<Rightarrow> nat \<Rightarrow> (unit path_x, 'os) cst \<Rightarrow> (unit path_x, 'os) cst option" where
  [job_defs]: "worker_opendir opendir = worker_sys (\<lambda>job. do { path \<leftarrow> job_path job; Some (opendir path) })"

definition result_opendir :: "nat \<Rightarrow> (unit path_x, 'os) cst \<Rightarrow> (caml_value outcome \<times> (unit path_x, 'os) cst) option" where
  [job_defs]: "result_opendir p s = do {
     job \<leftarrow> heap s p;
     LWT_UNIX_CHECK_JOB_ARG p (j_result job = 0) ''opendir'' (job_path job) s
       (free_and_return p (Caml_ptr (Some (nat (j_result job)))))
   }"

definition lwt_unix_opendir_job :: "nat \<Rightarrow> path_job \<times> (nat \<Rightarrow> char) \<Rightarrow> char list \<Rightarrow> (unit path_x, 'os) cst
    \<Rightarrow> (caml_value \<times> (unit path_x, 'os) cst) option" where
  [job_defs]: "lwt_unix_opendir_job a ug path s = do {
     s \<leftarrow> LWT_UNIX_INIT_JOB_STRING a ''opendir'' 0 path ug s;
     lwt_unix_alloc_job a s
   }"

definition opendir_answer :: "char list \<Rightarrow> int \<Rightarrow> int \<Rightarrow> caml_value outcome" where
  "opendir_answer path r e =
     (if r = 0 then Raise (Unix_error e ''opendir'' (Caml_string (cstring path))) else Ret (Caml_ptr (Some (nat r))))"

interpretation opendir_job: job_impl "''worker_opendir''" "''result_opendir''" "\<lambda>a ug. lwt_unix_opendir_job a ug path"
    "worker_opendir call" result_opendir "call (cstring path)" "opendir_answer path"
    "path_ready path (\<lambda>j. True)" "path_finished path" for path call
  by unfold_locales (simp_all add: job_defs job_common path_contract opendir_answer_def)

section \<open>lockf\<close>

record job_lockf = sysjob +
  k_fd :: int
  k_command :: int
  k_length :: int

type_synonym lockf_x = "unit job_lockf_ext sys_x"

record flock =
  l_whence :: int
  l_start :: int
  l_len :: int
  l_type :: int

text \<open>The region that \<^verbatim>\<open>worker_lockf\<close> fills in from \<^verbatim>\<open>job->length\<close>.\<close>

definition lock_region :: "int \<Rightarrow> int \<Rightarrow> flock" where
  "lock_region len ty =
     (if len < 0 then \<lparr>l_whence = 1, l_start = len, l_len = - len, l_type = ty\<rparr>
      else \<lparr>l_whence = 1, l_start = 0, l_len = len, l_type = ty\<rparr>)"

text \<open>\<^verbatim>\<open>fcntl\<close> returns its result and the structure as it leaves it.\<close>

definition lockf_set :: "(int \<Rightarrow> int \<Rightarrow> flock \<Rightarrow> ('os, int \<times> flock) syscall) \<Rightarrow> int \<Rightarrow> int \<Rightarrow> nat
    \<Rightarrow> (lockf_x, 'os) cst \<Rightarrow> (lockf_x, 'os) cst option" where
  "lockf_set fcntl cmd ty p s = do {
     job \<leftarrow> heap s p;
     let ((r, l), e, w) = fcntl (k_fd job) cmd (lock_region (k_length job) ty) (c_errno s) (os s);
     s \<leftarrow> set_job p (\<lambda>j. j\<lparr>j_result := r, j_error_code := e\<rparr>) s;
     Some (s\<lparr>c_errno := e, os := w\<rparr>)
   }"

text \<open>The case \<^verbatim>\<open>F_TEST\<close>: the error code is stored only when the region is found locked.\<close>

definition lockf_test :: "(string \<Rightarrow> int) \<Rightarrow> (int \<Rightarrow> int \<Rightarrow> flock \<Rightarrow> ('os, int \<times> flock) syscall) \<Rightarrow> nat
    \<Rightarrow> (lockf_x, 'os) cst \<Rightarrow> (lockf_x, 'os) cst option" where
  "lockf_test K fcntl p s = do {
     job \<leftarrow> heap s p;
     let ((r, l), e, w) = fcntl (k_fd job) (K ''F_GETLK'') (lock_region (k_length job) (K ''F_WRLCK'')) (c_errno s) (os s);
     s \<leftarrow> set_job p (\<lambda>j.
            if r \<noteq> -1 then
              (if l_type l = K ''F_UNLCK'' then j\<lparr>j_result := 0\<rparr>
               else j\<lparr>j_result := -1, j_error_code := K ''EACCES''\<rparr>)
            else j\<lparr>j_result := r\<rparr>) s;
     Some (s\<lparr>c_errno := e, os := w\<rparr>)
   }"

definition worker_lockf :: "(string \<Rightarrow> int) \<Rightarrow> (int \<Rightarrow> int \<Rightarrow> flock \<Rightarrow> ('os, int \<times> flock) syscall) \<Rightarrow> nat
    \<Rightarrow> (lockf_x, 'os) cst \<Rightarrow> (lockf_x, 'os) cst option" where
  [job_defs]: "worker_lockf K fcntl p s = do {
     job \<leftarrow> heap s p;
     if k_command job = 0 then lockf_set fcntl (K ''F_SETLK'') (K ''F_UNLCK'') p s
     else if k_command job = 1 then lockf_set fcntl (K ''F_SETLKW'') (K ''F_WRLCK'') p s
     else if k_command job = 2 then lockf_set fcntl (K ''F_SETLK'') (K ''F_WRLCK'') p s
     else if k_command job = 3 then lockf_test K fcntl p s
     else if k_command job = 4 then lockf_set fcntl (K ''F_SETLKW'') (K ''F_RDLCK'') p s
     else if k_command job = 5 then lockf_set fcntl (K ''F_SETLK'') (K ''F_RDLCK'') p s
     else set_job p (\<lambda>j. j\<lparr>j_result := -1, j_error_code := K ''EINVAL''\<rparr>) s
   }"

definition result_lockf :: "nat \<Rightarrow> (lockf_x, 'os) cst \<Rightarrow> (caml_value outcome \<times> (lockf_x, 'os) cst) option" where
  [job_defs]: "result_lockf p s = do {
     job \<leftarrow> heap s p;
     LWT_UNIX_CHECK_JOB p (j_result job < 0) ''lockf'' s (free_and_return p Val_unit)
   }"

definition lwt_unix_lockf_job :: "nat \<Rightarrow> job_lockf \<Rightarrow> int \<Rightarrow> int \<Rightarrow> int \<Rightarrow> (lockf_x, 'os) cst
    \<Rightarrow> (caml_value \<times> (lockf_x, 'os) cst) option" where
  [job_defs]: "lwt_unix_lockf_job a u fd command len s = do {
     s \<leftarrow> LWT_UNIX_INIT_JOB a ''lockf'' u s;
     s \<leftarrow> set_job a (\<lambda>j. j\<lparr>k_fd := c_int fd, k_command := c_int command, k_length := len\<rparr>) s;
     lwt_unix_alloc_job a s
   }"

text \<open>A structure with arbitrary content, for the examples.\<close>

definition demo_lockf_job :: job_lockf where
  "demo_lockf_job = \<lparr>next_job = None, notification_id = 0, worker_fn = [], result_fn = [], job_state = LWT_UNIX_JOB_STATE_DONE,
     fast = 5, job_mutex = Mutex_held, async_method = LWT_UNIX_ASYNC_METHOD_SWITCH, j_result = 3, j_error_code = 4242,
     k_fd = 5, k_command = 6, k_length = 7\<rparr>"

text \<open>The requests that change a lock (all constructors of \<^verbatim>\<open>Unix.lock_command\<close> but \<^verbatim>\<open>F_TEST\<close>).\<close>

datatype lock_request = F_ULOCK | F_LOCK | F_TLOCK | F_RLOCK | F_TRLOCK

fun lock_index :: "lock_request \<Rightarrow> int" where
  "lock_index F_ULOCK = 0"
| "lock_index F_LOCK = 1"
| "lock_index F_TLOCK = 2"
| "lock_index F_RLOCK = 4"
| "lock_index F_TRLOCK = 5"

text \<open>A blocking request waits, a read lock is shared.\<close>

definition lock_command_of :: "(string \<Rightarrow> int) \<Rightarrow> lock_request \<Rightarrow> int" where
  "lock_command_of K q = (if q \<in> {F_LOCK, F_RLOCK} then K ''F_SETLKW'' else K ''F_SETLK'')"

definition lock_type_of :: "(string \<Rightarrow> int) \<Rightarrow> lock_request \<Rightarrow> int" where
  "lock_type_of K q = (if q = F_ULOCK then K ''F_UNLCK'' else if q \<in> {F_LOCK, F_TLOCK} then K ''F_WRLCK'' else K ''F_RDLCK'')"

interpretation lockf_job: job_impl "''worker_lockf''" "''result_lockf''" "\<lambda>a u. lwt_unix_lockf_job a u fd (lock_index q) len"
    "worker_lockf K call" result_lockf "call (c_int fd) (lock_command_of K q) (lock_region len (lock_type_of K q))"
    "\<lambda>r. fd_answer ''lockf'' (fst r)" "\<lambda>j. k_fd j = c_int fd \<and> k_command j = lock_index q \<and> k_length j = len"
    "\<lambda>r. sys_finished (fst r)" for K call fd q len
  by unfold_locales (cases q; auto simp: job_defs job_common fd_contract lockf_set_def lock_command_of_def lock_type_of_def c_int_id)+

text \<open>
  Where \<^verbatim>\<open>fcntl\<close> has no locks the worker calls the function \<^verbatim>\<open>lockf\<close> of the C library, which has no shared locks: the two requests for a read lock ask for an exclusive one.
\<close>

definition lock_command_table :: "(string \<Rightarrow> int) \<Rightarrow> int list" where
  "lock_command_table K = map K [''F_ULOCK'', ''F_LOCK'', ''F_TLOCK'', ''F_TEST'', ''F_LOCK'', ''F_TLOCK'']"

definition worker_lockf_fallback :: "(string \<Rightarrow> int) \<Rightarrow> (int \<Rightarrow> int \<Rightarrow> int \<Rightarrow> ('os, int) syscall) \<Rightarrow> nat
    \<Rightarrow> (lockf_x, 'os) cst \<Rightarrow> (lockf_x, 'os) cst option" where
  [job_defs]: "worker_lockf_fallback K lockf p s = do {
     job \<leftarrow> heap s p;
     cmd \<leftarrow> tbl_get (lock_command_table K) (k_command job);
     let (r, e, w) = lockf (k_fd job) cmd (k_length job) (c_errno s) (os s);
     s \<leftarrow> set_job p (\<lambda>j. j\<lparr>j_result := r, j_error_code := e\<rparr>) s;
     Some (s\<lparr>c_errno := e, os := w\<rparr>)
   }"

definition lockf_request_of :: "(string \<Rightarrow> int) \<Rightarrow> lock_request \<Rightarrow> int" where
  "lockf_request_of K q = (if q = F_ULOCK then K ''F_ULOCK'' else if q \<in> {F_LOCK, F_RLOCK} then K ''F_LOCK'' else K ''F_TLOCK'')"

interpretation lockf_fallback_job: job_impl "''worker_lockf''" "''result_lockf''" "\<lambda>a u. lwt_unix_lockf_job a u fd (lock_index q) len"
    "worker_lockf_fallback K call" result_lockf "call (c_int fd) (lockf_request_of K q) len"
    "fd_answer ''lockf''" "\<lambda>j. k_fd j = c_int fd \<and> k_command j = lock_index q \<and> k_length j = len"
    sys_finished for K call fd q len
  by unfold_locales (cases q; auto simp: job_defs job_common fd_contract lock_command_table_def tbl_get_def lockf_request_of_def c_int_id)+

section \<open>Properties\<close>

text \<open>
  \<^verbatim>\<open>open\<close> passes the system call the disjunction of the constants of the given flags, with \<^verbatim>\<open>O_CLOEXEC\<close>
  added exactly when the list asks for it or when it asks for neither and the runtime's default is
  set, and the permissions; on success OCaml gets the descriptor and whether it is blocking (not a FIFO,
  not a socket, or unknown); on failure, \<^verbatim>\<open>Unix_error\<close> with the error of \<^verbatim>\<open>open\<close> itself, not of the later
  \<^verbatim>\<open>fstat\<close>, and the name; the structure is freed in both cases.
\<close>

theorem open_job_correct:
  assumes "heap s a = None"
  shows "job_run am e (lwt_unix_open_job K a ug path (map open_index fs) perms)
      [''worker_open'' \<mapsto> worker_open K dflt S_ISFIFO S_ISSOCK open_c fstat] [''result_open'' \<mapsto> result_open] s =
    job_spec (open_call S_ISFIFO S_ISSOCK (open_c (cstring path) (open_word_of K dflt fs) (c_int perms)) fstat)
      (open_answer path) e s"
  by (rule open_job.run_spec [OF assms])

theorem open_job_correct_witness:
  "job_run LWT_UNIX_ASYNC_METHOD_DETACH 0
      (lwt_unix_open_job (\<lambda>c. if c = ''O_RDWR'' then 2 else if c = ''O_CREAT'' then 64 else if c = ''O_CLOEXEC'' then 524288 else 0) 1
         (demo_open_job, \<lambda>_. CHR ''x'') ''f'' (map open_index [O_RDWR, O_CREAT, O_CLOEXEC]) 420)
      [''worker_open'' \<mapsto> worker_open (\<lambda>c. if c = ''O_RDWR'' then 2 else if c = ''O_CREAT'' then 64 else if c = ''O_CLOEXEC'' then 524288 else 0)
         False (\<lambda>m. m = 1) (\<lambda>m. m = 2) (\<lambda>n f p e w. (7, e, w @ [(n, f, p)])) (\<lambda>fd e w. ((0, 1), e, w))]
      [''result_open'' \<mapsto> result_open] demo_cst =
    Some (Ret (Block 0 [Imm 7, Imm 0]), demo_cst\<lparr>os := [(''f'', 524354, 420)]\<rparr>)"
  by (subst open_job_correct)
    (simp_all add: demo_cst_def job_spec_def open_call_def open_word_of_def wants_cloexec_def c_int_id caml_int_id value_defs cstring_def NUL_def)

text \<open>
  \<^verbatim>\<open>lockf\<close> makes one \<^verbatim>\<open>fcntl\<close> call: it waits for \<^verbatim>\<open>F_LOCK\<close> and \<^verbatim>\<open>F_RLOCK\<close> and does not for the others, asks
  for a write lock, a read lock or an unlock as the request says, on exactly the \<open>len\<close> bytes after the
  current position, or the \<open>-len\<close> bytes before it when \<open>len\<close> is negative; errors are reported.
\<close>

theorem lockf_job_correct:
  assumes "heap s a = None"
  shows "job_run am e (lwt_unix_lockf_job a u fd (lock_index q) len) [''worker_lockf'' \<mapsto> worker_lockf K fcntl]
      [''result_lockf'' \<mapsto> result_lockf] s =
    job_spec (fcntl (c_int fd) (lock_command_of K q) (lock_region len (lock_type_of K q))) (\<lambda>r. fd_answer ''lockf'' (fst r)) e s \<and>
    {l_start (lock_region len ty) ..< l_start (lock_region len ty) + l_len (lock_region len ty)} = (if len < 0 then {len ..< 0} else {0 ..< len}) \<and>
    l_type (lock_region len ty) = ty \<and> l_whence (lock_region len ty) = 1"
  using lockf_job.run_spec [OF assms] by (simp add: lock_region_def)

theorem lockf_job_correct_witness:
  "job_run LWT_UNIX_ASYNC_METHOD_DETACH 0 (lwt_unix_lockf_job 1 demo_lockf_job 3 (lock_index F_TLOCK) (-10))
      [''worker_lockf'' \<mapsto> worker_lockf (\<lambda>c. int (length c)) (\<lambda>fd c l e w. ((-1, l), 11, w @ [(fd, c, l)]))]
      [''result_lockf'' \<mapsto> result_lockf] demo_cst =
    Some (Raise (Unix_error 11 ''lockf'' Nothing), demo_cst\<lparr>os := [(3, 7, \<lparr>l_whence = 1, l_start = -10, l_len = 10, l_type = 7\<rparr>)]\<rparr>)"
proof -
  have h: "heap demo_cst 1 = None" by (simp add: demo_cst_def)
  have "job_run LWT_UNIX_ASYNC_METHOD_DETACH 0 (lwt_unix_lockf_job 1 demo_lockf_job 3 (lock_index F_TLOCK) (-10))
      [''worker_lockf'' \<mapsto> worker_lockf (\<lambda>c. int (length c)) (\<lambda>fd c l e w. ((-1, l), 11, w @ [(fd, c, l)]))]
      [''result_lockf'' \<mapsto> result_lockf] demo_cst =
    job_spec ((\<lambda>fd c l e w. ((-1, l), 11, w @ [(fd, c, l)])) (c_int 3) (lock_command_of (\<lambda>c. int (length c)) F_TLOCK)
      (lock_region (-10) (lock_type_of (\<lambda>c. int (length c)) F_TLOCK))) (\<lambda>r. fd_answer ''lockf'' (fst r)) 0 demo_cst"
    by (rule lockf_job_correct [OF h, THEN conjunct1])
  then show ?thesis
    by (simp add: demo_cst_def job_spec_def lock_region_def lock_command_of_def lock_type_of_def fd_answer_def c_int_id)
qed

text \<open>
  \<^verbatim>\<open>F_TEST\<close> reports a lock held by somebody else as \<^verbatim>\<open>EACCES\<close> and no lock as success; but when \<^verbatim>\<open>fcntl\<close>
  itself fails, the error code in the exception is not the one of the call: it is whatever the memory of the
  structure contained when it was allocated.
\<close>

theorem lockf_test_behaviour:
  assumes "heap s a = None"
    and "fcntl (c_int fd) (K ''F_GETLK'') (lock_region len (K ''F_WRLCK'')) (c_errno s) (os s) = ((r, l), e, w)"
  shows "job_run am e' (lwt_unix_lockf_job a u fd 3 len) [''worker_lockf'' \<mapsto> worker_lockf K fcntl] [''result_lockf'' \<mapsto> result_lockf] s =
    Some (if r = -1 then Raise (Unix_error (j_error_code u) ''lockf'' Nothing)
          else if l_type l = K ''F_UNLCK'' then Ret Val_unit else Raise (Unix_error (K ''EACCES'') ''lockf'' Nothing),
          s\<lparr>c_errno := e', os := w\<rparr>)"
  using assms
  by (cases s) (auto simp: job_run_def job_defs job_common lockf_test_def freeable_def c_int_id fun_upd_idem)

theorem lockf_test_behaviour_witness:
  "job_run LWT_UNIX_ASYNC_METHOD_DETACH 0 (lwt_unix_lockf_job 1 demo_lockf_job 3 3 10)
      [''worker_lockf'' \<mapsto> worker_lockf (\<lambda>c. int (length c)) (\<lambda>fd c l e w. ((-1, l), 9, w))] [''result_lockf'' \<mapsto> result_lockf]
      (demo_cst :: (lockf_x, (nat \<times> nat) list) cst) =
    Some (Raise (Unix_error 4242 ''lockf'' Nothing), demo_cst)"
proof -
  have h: "heap demo_cst 1 = None" by (simp add: demo_cst_def)
  have "job_run LWT_UNIX_ASYNC_METHOD_DETACH 0 (lwt_unix_lockf_job 1 demo_lockf_job 3 3 10)
      [''worker_lockf'' \<mapsto> worker_lockf (\<lambda>c. int (length c)) (\<lambda>fd c l e w. ((-1, l), 9, w))] [''result_lockf'' \<mapsto> result_lockf]
      (demo_cst :: (lockf_x, (nat \<times> nat) list) cst) =
    Some (if (-1 :: int) = -1 then Raise (Unix_error (j_error_code demo_lockf_job) ''lockf'' Nothing)
          else if l_type (lock_region 10 7) = 7 then Ret Val_unit else Raise (Unix_error 6 ''lockf'' Nothing),
          demo_cst\<lparr>c_errno := 0, os := []\<rparr>)"
    by (subst lockf_test_behaviour [OF h, where r = "-1" and l = "lock_region 10 7" and e = 9 and w = "[]"])
      (simp_all add: demo_cst_def lock_region_def)
  then show ?thesis by (simp add: demo_lockf_job_def demo_cst_def)
qed

text \<open>
  \<^verbatim>\<open>opendir\<close> gives OCaml the handle, or \<^verbatim>\<open>Unix_error\<close> with the error code and the path when the handle is
  null.
\<close>

theorem opendir_job_correct:
  assumes "heap s a = None"
  shows "job_run am e (lwt_unix_opendir_job a ug path) [''worker_opendir'' \<mapsto> worker_opendir opendir] [''result_opendir'' \<mapsto> result_opendir] s =
    job_spec (opendir (cstring path)) (opendir_answer path) e s"
  by (rule opendir_job.run_spec [OF assms])

text \<open>The fallback makes one call of \<^verbatim>\<open>lockf\<close> with the command of the request, and reports its error.\<close>

theorem lockf_fallback_correct:
  assumes "heap s a = None"
  shows "job_run am e (lwt_unix_lockf_job a u fd (lock_index q) len) [''worker_lockf'' \<mapsto> worker_lockf_fallback K lockf]
      [''result_lockf'' \<mapsto> result_lockf] s =
    job_spec (lockf (c_int fd) (lockf_request_of K q) len) (fd_answer ''lockf'') e s"
  by (rule lockf_fallback_job.run_spec [OF assms])

end
