(* ===== verification/Io_Jobs.thy ===== *)
theory Io_Jobs
  imports Path_Jobs
begin

text \<open>
  Reading and writing: the blocking jobs \<^verbatim>\<open>unix_read_job.c\<close>, \<^verbatim>\<open>unix_pread_job.c\<close>, \<^verbatim>\<open>unix_write_job.c\<close>,
  \<^verbatim>\<open>unix_pwrite_job.c\<close>, \<^verbatim>\<open>unix_bytes_read_job.c\<close>, \<^verbatim>\<open>unix_bytes_write_job.c\<close> and the primitives for non-blocking
  descriptors \<^verbatim>\<open>unix_read.c\<close>, \<^verbatim>\<open>unix_pread.c\<close>, \<^verbatim>\<open>unix_write.c\<close>, \<^verbatim>\<open>unix_pwrite.c\<close>, \<^verbatim>\<open>unix_bytes_read.c\<close>,
  \<^verbatim>\<open>unix_bytes_write.c\<close>.

  The worker thread must not touch OCaml strings, which the garbage collector moves: the jobs go through
  a temporary buffer at the end of the structure and copy it in the main thread. The data of a Bigarray does
  not move, and the worker uses it directly. In both cases the OCaml value is kept alive by a registered
  root. The theorems show that each job has the same effect as its primitive.
\<close>

section \<open>Calls\<close>

text \<open>
  \<^verbatim>\<open>read (fd, buf, len)\<close> gives its result and the bytes it stored at \<^verbatim>\<open>buf\<close>. What the code relies on: the result
  is -1 or the number of bytes stored, at most \<^verbatim>\<open>len\<close>.
\<close>

definition read_contract :: "nat \<Rightarrow> ('os, int \<times> char list) syscall \<Rightarrow> bool" where
  "read_contract len c \<longleftrightarrow>
     (\<forall>e w. case c e w of ((r, bs), _) \<Rightarrow> -1 \<le> r \<and> r \<le> int len \<and> length bs = nat r)"

definition write_contract :: "('os, int) syscall \<Rightarrow> bool" where
  "write_contract c \<longleftrightarrow> (\<forall>e w. case c e w of (r, _) \<Rightarrow> -1 \<le> r)"

text \<open>
  A root is the address of a field that holds an OCaml value: the address of the job stands for it.
  Removing a root that is not registered is an error, and so is using the value without a root.
\<close>

definition register_root :: "nat \<Rightarrow> ('x, 'os) cst \<Rightarrow> ('x, 'os) cst" where
  "register_root p s = s\<lparr>roots := p # roots s\<rparr>"

definition remove_root :: "nat \<Rightarrow> ('x, 'os) cst \<Rightarrow> ('x, 'os) cst option" where
  "remove_root p s = (if p \<in> set (roots s) then Some (s\<lparr>roots := remove1 p (roots s)\<rparr>) else None)"

definition rooted_buf :: "nat \<Rightarrow> nat \<Rightarrow> ('x, 'os) cst \<Rightarrow> char list option" where
  "rooted_buf p b s = (if p \<in> set (roots s) then bufs s b else None)"

section \<open>Structures\<close>

record job_read = sysjob +
  r_fd :: int
  r_length :: int
  r_string :: nat
  r_offset :: int
  r_buffer :: "char list"

record job_pread = job_read +
  r_file_offset :: int

record job_write = sysjob +
  w_fd :: int
  w_length :: int
  w_buffer :: "char list"

record job_pwrite = job_write +
  w_file_offset :: int

text \<open>The field \<^verbatim>\<open>buffer\<close> of the Bigarray jobs is a pointer into the data of the OCaml buffer: an offset.\<close>

record job_bytes = sysjob +
  y_fd :: int
  y_buffer :: int
  y_length :: int
  y_ocaml_buffer :: nat

type_synonym job_bytes_read = job_bytes
type_synonym job_bytes_write = job_bytes

type_synonym read_x = "unit job_read_ext sys_x"
type_synonym pread_x = "unit job_pread_ext job_read_ext sys_x"
type_synonym write_x = "unit job_write_ext sys_x"
type_synonym pwrite_x = "unit job_pwrite_ext job_write_ext sys_x"
type_synonym bytes_x = "unit job_bytes_ext sys_x"

section \<open>read\<close>

definition worker_read :: "(int \<Rightarrow> nat \<Rightarrow> ('os, int \<times> char list) syscall) \<Rightarrow> nat
    \<Rightarrow> (read_x, 'os) cst \<Rightarrow> (read_x, 'os) cst option" where
  [job_defs]: "worker_read read_c p s = do {
     job \<leftarrow> heap s p;
     let ((r, bs), e, w) = read_c (r_fd job) (nat (r_length job)) (c_errno s) (os s);
     buffer \<leftarrow> write_at (r_buffer job) 0 bs;
     s \<leftarrow> set_job p (\<lambda>j. j\<lparr>j_result := r, j_error_code := e, r_buffer := buffer\<rparr>) s;
     Some (s\<lparr>c_errno := e, os := w\<rparr>)
   }"

definition result_read :: "nat \<Rightarrow> (read_x, 'os) cst \<Rightarrow> (caml_value outcome \<times> (read_x, 'os) cst) option" where
  [job_defs]: "result_read p s = do {
     job \<leftarrow> heap s p;
     let result = j_result job;
     if result < 0 then do {
       s \<leftarrow> remove_root p s;
       s \<leftarrow> free_job p s;
       Some (Raise (Unix_error (j_error_code job) ''read'' Nothing), s)
     } else do {
       src \<leftarrow> read_at (r_buffer job) 0 (nat result);
       dst \<leftarrow> rooted_buf p (r_string job) s;
       dst \<leftarrow> write_at dst (nat (r_offset job)) src;
       s \<leftarrow> remove_root p (s\<lparr>bufs := (bufs s)(r_string job \<mapsto> dst)\<rparr>);
       free_and_return p (Val_long result) s
     }
   }"

definition lwt_unix_read_job :: "nat \<Rightarrow> job_read \<times> (nat \<Rightarrow> char) \<Rightarrow> int \<Rightarrow> nat \<Rightarrow> int \<Rightarrow> int
    \<Rightarrow> (read_x, 'os) cst \<Rightarrow> (caml_value \<times> (read_x, 'os) cst) option" where
  [job_defs]: "lwt_unix_read_job a ug fd buffer offset len s = do {
     s \<leftarrow> LWT_UNIX_INIT_JOB a ''read'' ((fst ug)\<lparr>r_buffer := uninit (snd ug) (nat len)\<rparr>) s;
     s \<leftarrow> set_job a (\<lambda>j. j\<lparr>r_fd := c_int fd, r_length := len, r_string := buffer, r_offset := offset\<rparr>) s;
     lwt_unix_alloc_job a (register_root a s)
   }"

definition lwt_unix_read :: "(int \<Rightarrow> nat \<Rightarrow> ('os, int \<times> char list) syscall) \<Rightarrow> int \<Rightarrow> nat \<Rightarrow> int \<Rightarrow> int
    \<Rightarrow> ('x, 'os) cst \<Rightarrow> (caml_value outcome \<times> ('x, 'os) cst) option" where
  "lwt_unix_read read_c fd buf ofs len s = do {
     dst \<leftarrow> bufs s buf;
     let ((ret, bs), e, w) = read_c (c_int fd) (nat len) (c_errno s) (os s);
     dst \<leftarrow> write_at dst (nat ofs) bs;
     let s = s\<lparr>bufs := (bufs s)(buf \<mapsto> dst), c_errno := e, os := w\<rparr>;
     if ret = -1 then Some (Raise (Unix_error e ''read'' Nothing), s)
     else Some (Ret (Val_long ret), s)
   }"

section \<open>pread\<close>

definition worker_pread :: "(int \<Rightarrow> nat \<Rightarrow> int \<Rightarrow> ('os, int \<times> char list) syscall) \<Rightarrow> nat
    \<Rightarrow> (pread_x, 'os) cst \<Rightarrow> (pread_x, 'os) cst option" where
  [job_defs]: "worker_pread pread_c p s = do {
     job \<leftarrow> heap s p;
     let ((r, bs), e, w) = pread_c (r_fd job) (nat (r_length job)) (r_file_offset job) (c_errno s) (os s);
     buffer \<leftarrow> write_at (r_buffer job) 0 bs;
     s \<leftarrow> set_job p (\<lambda>j. j\<lparr>j_result := r, j_error_code := e, r_buffer := buffer\<rparr>) s;
     Some (s\<lparr>c_errno := e, os := w\<rparr>)
   }"

definition result_pread :: "nat \<Rightarrow> (pread_x, 'os) cst \<Rightarrow> (caml_value outcome \<times> (pread_x, 'os) cst) option" where
  [job_defs]: "result_pread p s = do {
     job \<leftarrow> heap s p;
     let result = j_result job;
     if result < 0 then do {
       s \<leftarrow> remove_root p s;
       s \<leftarrow> free_job p s;
       Some (Raise (Unix_error (j_error_code job) ''pread'' Nothing), s)
     } else do {
       src \<leftarrow> read_at (r_buffer job) 0 (nat result);
       dst \<leftarrow> rooted_buf p (r_string job) s;
       dst \<leftarrow> write_at dst (nat (r_offset job)) src;
       s \<leftarrow> remove_root p (s\<lparr>bufs := (bufs s)(r_string job \<mapsto> dst)\<rparr>);
       free_and_return p (Val_long result) s
     }
   }"

definition lwt_unix_pread_job :: "nat \<Rightarrow> job_pread \<times> (nat \<Rightarrow> char) \<Rightarrow> int \<Rightarrow> nat \<Rightarrow> int \<Rightarrow> int \<Rightarrow> int
    \<Rightarrow> (pread_x, 'os) cst \<Rightarrow> (caml_value \<times> (pread_x, 'os) cst) option" where
  [job_defs]: "lwt_unix_pread_job a ug fd buffer file_offset offset len s = do {
     s \<leftarrow> LWT_UNIX_INIT_JOB a ''pread'' ((fst ug)\<lparr>r_buffer := uninit (snd ug) (nat len)\<rparr>) s;
     s \<leftarrow> set_job a (\<lambda>j. j\<lparr>r_fd := c_int fd, r_length := len, r_string := buffer, r_offset := offset, r_file_offset := file_offset\<rparr>) s;
     lwt_unix_alloc_job a (register_root a s)
   }"

definition lwt_unix_pread :: "(int \<Rightarrow> nat \<Rightarrow> int \<Rightarrow> ('os, int \<times> char list) syscall) \<Rightarrow> int \<Rightarrow> nat \<Rightarrow> int \<Rightarrow> int \<Rightarrow> int
    \<Rightarrow> ('x, 'os) cst \<Rightarrow> (caml_value outcome \<times> ('x, 'os) cst) option" where
  "lwt_unix_pread pread_c fd buf file_offset ofs len s = do {
     dst \<leftarrow> bufs s buf;
     let ((ret, bs), e, w) = pread_c (c_int fd) (nat len) file_offset (c_errno s) (os s);
     dst \<leftarrow> write_at dst (nat ofs) bs;
     let s = s\<lparr>bufs := (bufs s)(buf \<mapsto> dst), c_errno := e, os := w\<rparr>;
     if ret = -1 then Some (Raise (Unix_error e ''pread'' Nothing), s)
     else Some (Ret (Val_long ret), s)
   }"

section \<open>write\<close>

definition worker_write :: "(int \<Rightarrow> char list \<Rightarrow> ('os, int) syscall) \<Rightarrow> nat \<Rightarrow> (write_x, 'os) cst \<Rightarrow> (write_x, 'os) cst option" where
  [job_defs]: "worker_write write_c p s = do {
     job \<leftarrow> heap s p;
     src \<leftarrow> read_at (w_buffer job) 0 (nat (w_length job));
     let (r, e, w) = write_c (w_fd job) src (c_errno s) (os s);
     s \<leftarrow> set_job p (\<lambda>j. j\<lparr>j_result := r, j_error_code := e\<rparr>) s;
     Some (s\<lparr>c_errno := e, os := w\<rparr>)
   }"

definition result_write :: "nat \<Rightarrow> (write_x, 'os) cst \<Rightarrow> (caml_value outcome \<times> (write_x, 'os) cst) option" where
  [job_defs]: "result_write p s = do {
     job \<leftarrow> heap s p;
     LWT_UNIX_CHECK_JOB p (j_result job < 0) ''write'' s (free_and_return p (Val_long (j_result job)))
   }"

text \<open>\<open>buf\<close> is an OCaml string; its bytes are copied when the job is created.\<close>

definition lwt_unix_write_job :: "nat \<Rightarrow> job_write \<times> (nat \<Rightarrow> char) \<Rightarrow> int \<Rightarrow> nat \<Rightarrow> int \<Rightarrow> int
    \<Rightarrow> (write_x, 'os) cst \<Rightarrow> (caml_value \<times> (write_x, 'os) cst) option" where
  [job_defs]: "lwt_unix_write_job a ug fd buf offset len s = do {
     s \<leftarrow> LWT_UNIX_INIT_JOB a ''write'' ((fst ug)\<lparr>w_buffer := uninit (snd ug) (nat len)\<rparr>) s;
     str \<leftarrow> bufs s buf;
     src \<leftarrow> read_at str (nat offset) (nat len);
     job \<leftarrow> heap s a;
     buffer \<leftarrow> write_at (w_buffer job) 0 src;
     s \<leftarrow> set_job a (\<lambda>j. j\<lparr>w_fd := c_int fd, w_length := len, w_buffer := buffer\<rparr>) s;
     lwt_unix_alloc_job a s
   }"

definition lwt_unix_write :: "(int \<Rightarrow> char list \<Rightarrow> ('os, int) syscall) \<Rightarrow> int \<Rightarrow> nat \<Rightarrow> int \<Rightarrow> int
    \<Rightarrow> ('x, 'os) cst \<Rightarrow> (caml_value outcome \<times> ('x, 'os) cst) option" where
  "lwt_unix_write write_c fd buf ofs len s = do {
     str \<leftarrow> bufs s buf;
     src \<leftarrow> read_at str (nat ofs) (nat len);
     let (ret, e, w) = write_c (c_int fd) src (c_errno s) (os s);
     let s = s\<lparr>c_errno := e, os := w\<rparr>;
     if ret = -1 then Some (Raise (Unix_error e ''write'' Nothing), s)
     else Some (Ret (Val_long ret), s)
   }"

section \<open>pwrite\<close>

definition worker_pwrite :: "(int \<Rightarrow> char list \<Rightarrow> int \<Rightarrow> ('os, int) syscall) \<Rightarrow> nat \<Rightarrow> (pwrite_x, 'os) cst \<Rightarrow> (pwrite_x, 'os) cst option" where
  [job_defs]: "worker_pwrite pwrite_c p s = do {
     job \<leftarrow> heap s p;
     src \<leftarrow> read_at (w_buffer job) 0 (nat (w_length job));
     let (r, e, w) = pwrite_c (w_fd job) src (w_file_offset job) (c_errno s) (os s);
     s \<leftarrow> set_job p (\<lambda>j. j\<lparr>j_result := r, j_error_code := e\<rparr>) s;
     Some (s\<lparr>c_errno := e, os := w\<rparr>)
   }"

definition result_pwrite :: "nat \<Rightarrow> (pwrite_x, 'os) cst \<Rightarrow> (caml_value outcome \<times> (pwrite_x, 'os) cst) option" where
  [job_defs]: "result_pwrite p s = do {
     job \<leftarrow> heap s p;
     LWT_UNIX_CHECK_JOB p (j_result job < 0) ''pwrite'' s (free_and_return p (Val_long (j_result job)))
   }"

text \<open>\<open>buf\<close> is an OCaml string; its bytes are copied when the job is created.\<close>

definition lwt_unix_pwrite_job :: "nat \<Rightarrow> job_pwrite \<times> (nat \<Rightarrow> char) \<Rightarrow> int \<Rightarrow> nat \<Rightarrow> int \<Rightarrow> int \<Rightarrow> int
    \<Rightarrow> (pwrite_x, 'os) cst \<Rightarrow> (caml_value \<times> (pwrite_x, 'os) cst) option" where
  [job_defs]: "lwt_unix_pwrite_job a ug fd buf file_offset offset len s = do {
     s \<leftarrow> LWT_UNIX_INIT_JOB a ''pwrite'' ((fst ug)\<lparr>w_buffer := uninit (snd ug) (nat len)\<rparr>) s;
     str \<leftarrow> bufs s buf;
     src \<leftarrow> read_at str (nat offset) (nat len);
     job \<leftarrow> heap s a;
     buffer \<leftarrow> write_at (w_buffer job) 0 src;
     s \<leftarrow> set_job a (\<lambda>j. j\<lparr>w_fd := c_int fd, w_length := len, w_file_offset := file_offset, w_buffer := buffer\<rparr>) s;
     lwt_unix_alloc_job a s
   }"

definition lwt_unix_pwrite :: "(int \<Rightarrow> char list \<Rightarrow> int \<Rightarrow> ('os, int) syscall) \<Rightarrow> int \<Rightarrow> nat \<Rightarrow> int \<Rightarrow> int \<Rightarrow> int
    \<Rightarrow> ('x, 'os) cst \<Rightarrow> (caml_value outcome \<times> ('x, 'os) cst) option" where
  "lwt_unix_pwrite pwrite_c fd buf file_offset ofs len s = do {
     str \<leftarrow> bufs s buf;
     src \<leftarrow> read_at str (nat ofs) (nat len);
     let (ret, e, w) = pwrite_c (c_int fd) src file_offset (c_errno s) (os s);
     let s = s\<lparr>c_errno := e, os := w\<rparr>;
     if ret = -1 then Some (Raise (Unix_error e ''pwrite'' Nothing), s)
     else Some (Ret (Val_long ret), s)
   }"

section \<open>Bigarrays\<close>

definition worker_bytes_read :: "(int \<Rightarrow> nat \<Rightarrow> ('os, int \<times> char list) syscall) \<Rightarrow> nat \<Rightarrow> (bytes_x, 'os) cst \<Rightarrow> (bytes_x, 'os) cst option" where
  [job_defs]: "worker_bytes_read read_c p s = do {
     job \<leftarrow> heap s p;
     dst \<leftarrow> rooted_buf p (y_ocaml_buffer job) s;
     let ((r, bs), e, w) = read_c (y_fd job) (nat (y_length job)) (c_errno s) (os s);
     dst \<leftarrow> write_at dst (nat (y_buffer job)) bs;
     s \<leftarrow> set_job p (\<lambda>j. j\<lparr>j_result := r, j_error_code := e\<rparr>) s;
     Some (s\<lparr>bufs := (bufs s)(y_ocaml_buffer job \<mapsto> dst), c_errno := e, os := w\<rparr>)
   }"

definition result_bytes_read :: "nat \<Rightarrow> (bytes_x, 'os) cst \<Rightarrow> (caml_value outcome \<times> (bytes_x, 'os) cst) option" where
  [job_defs]: "result_bytes_read p s = do {
     job \<leftarrow> heap s p;
     s \<leftarrow> remove_root p s;
     LWT_UNIX_CHECK_JOB p (j_result job < 0) ''read'' s (free_and_return p (Val_long (j_result job)))
   }"

definition lwt_unix_bytes_read_job :: "nat \<Rightarrow> job_bytes \<Rightarrow> int \<Rightarrow> nat \<Rightarrow> int \<Rightarrow> int \<Rightarrow> (bytes_x, 'os) cst
    \<Rightarrow> (caml_value \<times> (bytes_x, 'os) cst) option" where
  [job_defs]: "lwt_unix_bytes_read_job a u fd buf ofs len s = do {
     s \<leftarrow> LWT_UNIX_INIT_JOB a ''bytes_read'' u s;
     s \<leftarrow> set_job a (\<lambda>j. j\<lparr>y_fd := c_int fd, y_buffer := ofs, y_length := len, y_ocaml_buffer := buf\<rparr>) s;
     lwt_unix_alloc_job a (register_root a s)
   }"

definition lwt_unix_bytes_read :: "(int \<Rightarrow> nat \<Rightarrow> ('os, int \<times> char list) syscall) \<Rightarrow> int \<Rightarrow> nat \<Rightarrow> int \<Rightarrow> int
    \<Rightarrow> ('x, 'os) cst \<Rightarrow> (caml_value outcome \<times> ('x, 'os) cst) option" where
  "lwt_unix_bytes_read read_c fd buf ofs len s = do {
     dst \<leftarrow> bufs s buf;
     let ((ret, bs), e, w) = read_c (c_int fd) (nat len) (c_errno s) (os s);
     dst \<leftarrow> write_at dst (nat ofs) bs;
     let s = s\<lparr>bufs := (bufs s)(buf \<mapsto> dst), c_errno := e, os := w\<rparr>;
     if ret = -1 then Some (Raise (Unix_error e ''read'' Nothing), s)
     else Some (Ret (Val_long ret), s)
   }"

definition worker_bytes_write :: "(int \<Rightarrow> char list \<Rightarrow> ('os, int) syscall) \<Rightarrow> nat \<Rightarrow> (bytes_x, 'os) cst \<Rightarrow> (bytes_x, 'os) cst option" where
  [job_defs]: "worker_bytes_write write_c p s = do {
     job \<leftarrow> heap s p;
     str \<leftarrow> rooted_buf p (y_ocaml_buffer job) s;
     src \<leftarrow> read_at str (nat (y_buffer job)) (nat (y_length job));
     let (r, e, w) = write_c (y_fd job) src (c_errno s) (os s);
     s \<leftarrow> set_job p (\<lambda>j. j\<lparr>j_result := r, j_error_code := e\<rparr>) s;
     Some (s\<lparr>c_errno := e, os := w\<rparr>)
   }"

definition result_bytes_write :: "nat \<Rightarrow> (bytes_x, 'os) cst \<Rightarrow> (caml_value outcome \<times> (bytes_x, 'os) cst) option" where
  [job_defs]: "result_bytes_write p s = do {
     job \<leftarrow> heap s p;
     s \<leftarrow> remove_root p s;
     LWT_UNIX_CHECK_JOB p (j_result job < 0) ''write'' s (free_and_return p (Val_long (j_result job)))
   }"

definition lwt_unix_bytes_write_job :: "nat \<Rightarrow> job_bytes \<Rightarrow> int \<Rightarrow> nat \<Rightarrow> int \<Rightarrow> int \<Rightarrow> (bytes_x, 'os) cst
    \<Rightarrow> (caml_value \<times> (bytes_x, 'os) cst) option" where
  [job_defs]: "lwt_unix_bytes_write_job a u fd buf ofs len s = do {
     s \<leftarrow> LWT_UNIX_INIT_JOB a ''bytes_write'' u s;
     s \<leftarrow> set_job a (\<lambda>j. j\<lparr>y_fd := c_int fd, y_buffer := ofs, y_length := len, y_ocaml_buffer := buf\<rparr>) s;
     lwt_unix_alloc_job a (register_root a s)
   }"

definition lwt_unix_bytes_write :: "(int \<Rightarrow> char list \<Rightarrow> ('os, int) syscall) \<Rightarrow> int \<Rightarrow> nat \<Rightarrow> int \<Rightarrow> int
    \<Rightarrow> ('x, 'os) cst \<Rightarrow> (caml_value outcome \<times> ('x, 'os) cst) option" where
  "lwt_unix_bytes_write write_c fd buf ofs len s = do {
     str \<leftarrow> bufs s buf;
     src \<leftarrow> read_at str (nat ofs) (nat len);
     let (ret, e, w) = write_c (c_int fd) src (c_errno s) (os s);
     let s = s\<lparr>c_errno := e, os := w\<rparr>;
     if ret = -1 then Some (Raise (Unix_error e ''write'' Nothing), s)
     else Some (Ret (Val_long ret), s)
   }"

section \<open>The jobs and the primitives\<close>

text \<open>The range \<open>ofs\<close>, \<open>len\<close> lies in the buffer: what \<^verbatim>\<open>Lwt_unix.read\<close> and \<^verbatim>\<open>write\<close> check before the call.\<close>

definition in_buffer :: "nat \<Rightarrow> int \<Rightarrow> int \<Rightarrow> ('x, 'os) cst \<Rightarrow> bool" where
  "in_buffer buf ofs len s \<longleftrightarrow> (\<exists>d. bufs s buf = Some d \<and> 0 \<le> ofs \<and> 0 \<le> len \<and> ofs + len \<le> int (length d))"

text \<open>A primitive, with \<^verbatim>\<open>errno\<close> of the main thread as it happens to be afterwards.\<close>

definition as_job :: "int \<Rightarrow> (caml_value outcome \<times> ('x, 'os) cst) option \<Rightarrow> (caml_value outcome \<times> ('x, 'os) cst) option" where
  "as_job e r = map_option (\<lambda>(v, s). (v, s\<lparr>c_errno := e\<rparr>)) r"

lemmas io_defs =
  job_run_def job_defs job_common register_root_def remove_root_def rooted_buf_def freeable_def as_job_def

lemma bufs_store_same [simp]: "bufs s b = Some d \<Longrightarrow> (bufs s)(b \<mapsto> d) = bufs s"
  by (simp add: fun_upd_idem)

lemma read_contractD:
  assumes "read_contract n c" "c e w = ((r, bs), e', w')"
  shows "-1 \<le> r" "r \<le> int n" "length bs = nat r" "r < 0 \<longleftrightarrow> r = -1"
  using assms(1) [unfolded read_contract_def, rule_format, of e w] assms(2) by auto

lemma write_contractD: "write_contract c \<Longrightarrow> c e w = (r, e', w') \<Longrightarrow> r < 0 \<longleftrightarrow> r = -1"
  unfolding write_contract_def by (drule spec [of _ e], drule spec [of _ w]) auto

lemma read_job_equiv:
  assumes "heap s a = None" and b: "in_buffer buf ofs len s" and c: "read_contract (nat len) (read_c (c_int fd) (nat len))"
  shows "job_run am e' (lwt_unix_read_job a ug fd buf ofs len) [''worker_read'' \<mapsto> worker_read read_c] [''result_read'' \<mapsto> result_read] s =
    as_job e' (lwt_unix_read read_c fd buf ofs len s)"
proof -
  obtain d where d: "bufs s buf = Some d" "0 \<le> ofs" "0 \<le> len" "nat ofs + nat len \<le> length d"
    using b unfolding in_buffer_def by auto
  obtain r bs e w where r: "read_c (c_int fd) (nat len) (c_errno s) (os s) = ((r, bs), e, w)" by (metis prod_cases3 surj_pair)
  note k = read_contractD [OF c r]
  show ?thesis
  proof (cases "r < 0")
    case True
    then have "bs = []" "r = -1" using k by auto
    with assms(1) d r show ?thesis by (cases s) (simp add: io_defs lwt_unix_read_def fun_upd_idem)
  next
    case False
    then have "nat r = length bs" "r \<noteq> -1" "length bs \<le> nat len" using k d(3) by auto
    with assms(1) d r False show ?thesis by (cases s) (simp add: io_defs lwt_unix_read_def fun_upd_idem)
  qed
qed

lemma pread_job_equiv:
  assumes "heap s a = None" and b: "in_buffer buf ofs len s" and c: "read_contract (nat len) (pread_c (c_int fd) (nat len) fofs)"
  shows "job_run am e' (lwt_unix_pread_job a ug fd buf fofs ofs len) [''worker_pread'' \<mapsto> worker_pread pread_c] [''result_pread'' \<mapsto> result_pread] s =
    as_job e' (lwt_unix_pread pread_c fd buf fofs ofs len s)"
proof -
  obtain d where d: "bufs s buf = Some d" "0 \<le> ofs" "0 \<le> len" "nat ofs + nat len \<le> length d"
    using b unfolding in_buffer_def by auto
  obtain r bs e w where r: "pread_c (c_int fd) (nat len) fofs (c_errno s) (os s) = ((r, bs), e, w)" by (metis prod_cases3 surj_pair)
  note k = read_contractD [OF c r]
  show ?thesis
  proof (cases "r < 0")
    case True
    then have "bs = []" "r = -1" using k by auto
    with assms(1) d r show ?thesis by (cases s) (simp add: io_defs lwt_unix_pread_def fun_upd_idem)
  next
    case False
    then have "nat r = length bs" "r \<noteq> -1" "length bs \<le> nat len" using k d(3) by auto
    with assms(1) d r False show ?thesis by (cases s) (simp add: io_defs lwt_unix_pread_def fun_upd_idem)
  qed
qed

lemma bytes_read_job_equiv:
  assumes "heap s a = None" and b: "in_buffer buf ofs len s" and c: "read_contract (nat len) (read_c (c_int fd) (nat len))"
  shows "job_run am e' (lwt_unix_bytes_read_job a u fd buf ofs len) [''worker_bytes_read'' \<mapsto> worker_bytes_read read_c] [''result_bytes_read'' \<mapsto> result_bytes_read] s =
    as_job e' (lwt_unix_bytes_read read_c fd buf ofs len s)"
proof -
  obtain d where d: "bufs s buf = Some d" "0 \<le> ofs" "0 \<le> len" "nat ofs + nat len \<le> length d"
    using b unfolding in_buffer_def by auto
  obtain r bs e w where r: "read_c (c_int fd) (nat len) (c_errno s) (os s) = ((r, bs), e, w)" by (metis prod_cases3 surj_pair)
  note k = read_contractD [OF c r]
  show ?thesis
  proof (cases "r < 0")
    case True
    then have "bs = []" "r = -1" using k by auto
    with assms(1) d r show ?thesis by (cases s) (simp add: io_defs lwt_unix_bytes_read_def fun_upd_idem)
  next
    case False
    then have "nat r = length bs" "r \<noteq> -1" "length bs \<le> nat len" using k d(3) by auto
    with assms(1) d r False show ?thesis by (cases s) (simp add: io_defs lwt_unix_bytes_read_def fun_upd_idem)
  qed
qed

lemma write_job_equiv:
  assumes "heap s a = None" and b: "in_buffer buf ofs len s" and c: "\<And>src. write_contract (write_c (c_int fd) src)"
  shows "job_run am e' (lwt_unix_write_job a ug fd buf ofs len) [''worker_write'' \<mapsto> worker_write write_c] [''result_write'' \<mapsto> result_write] s =
    as_job e' (lwt_unix_write write_c fd buf ofs len s)"
proof -
  obtain d where d: "bufs s buf = Some d" "0 \<le> ofs" "0 \<le> len" "nat ofs + nat len \<le> length d"
    using b unfolding in_buffer_def by auto
  let ?src = "take (nat len) (drop (nat ofs) d)"
  obtain r e w where r: "write_c (c_int fd) ?src (c_errno s) (os s) = (r, e, w)" by (metis prod_cases3)
  note k = write_contractD [OF c r]
  show ?thesis using assms(1) d r k by (cases s) (simp add: io_defs lwt_unix_write_def fun_upd_idem)
qed

lemma pwrite_job_equiv:
  assumes "heap s a = None" and b: "in_buffer buf ofs len s" and c: "\<And>src. write_contract (pwrite_c (c_int fd) src fofs)"
  shows "job_run am e' (lwt_unix_pwrite_job a ug fd buf fofs ofs len) [''worker_pwrite'' \<mapsto> worker_pwrite pwrite_c] [''result_pwrite'' \<mapsto> result_pwrite] s =
    as_job e' (lwt_unix_pwrite pwrite_c fd buf fofs ofs len s)"
proof -
  obtain d where d: "bufs s buf = Some d" "0 \<le> ofs" "0 \<le> len" "nat ofs + nat len \<le> length d"
    using b unfolding in_buffer_def by auto
  let ?src = "take (nat len) (drop (nat ofs) d)"
  obtain r e w where r: "pwrite_c (c_int fd) ?src fofs (c_errno s) (os s) = (r, e, w)" by (metis prod_cases3)
  note k = write_contractD [OF c r]
  show ?thesis using assms(1) d r k by (cases s) (simp add: io_defs lwt_unix_pwrite_def fun_upd_idem)
qed

lemma bytes_write_job_equiv:
  assumes "heap s a = None" and b: "in_buffer buf ofs len s" and c: "\<And>src. write_contract (write_c (c_int fd) src)"
  shows "job_run am e' (lwt_unix_bytes_write_job a u fd buf ofs len) [''worker_bytes_write'' \<mapsto> worker_bytes_write write_c] [''result_bytes_write'' \<mapsto> result_bytes_write] s =
    as_job e' (lwt_unix_bytes_write write_c fd buf ofs len s)"
proof -
  obtain d where d: "bufs s buf = Some d" "0 \<le> ofs" "0 \<le> len" "nat ofs + nat len \<le> length d"
    using b unfolding in_buffer_def by auto
  let ?src = "take (nat len) (drop (nat ofs) d)"
  obtain r e w where r: "write_c (c_int fd) ?src (c_errno s) (os s) = (r, e, w)" by (metis prod_cases3)
  note k = write_contractD [OF c r]
  show ?thesis using assms(1) d r k by (cases s) (simp add: io_defs lwt_unix_bytes_write_def fun_upd_idem)
qed

text \<open>A memory with one OCaml buffer, for the examples.\<close>

definition demo_io :: "('x, nat) cst" where
  "demo_io = \<lparr>heap = Map.empty, blocks = Map.empty, bufs = [5 \<mapsto> ''abcdef''], roots = [], c_errno = 0, os = 0\<rparr>"

definition demo_read_job :: job_read where
  "demo_read_job = \<lparr>next_job = None, notification_id = 0, worker_fn = [], result_fn = [], job_state = LWT_UNIX_JOB_STATE_DONE,
     fast = 5, job_mutex = Mutex_held, async_method = LWT_UNIX_ASYNC_METHOD_SWITCH, j_result = 3, j_error_code = 4,
     r_fd = 5, r_length = 6, r_string = 7, r_offset = 8, r_buffer = []\<rparr>"

definition demo_write_job :: job_write where
  "demo_write_job = \<lparr>next_job = None, notification_id = 0, worker_fn = [], result_fn = [], job_state = LWT_UNIX_JOB_STATE_DONE,
     fast = 5, job_mutex = Mutex_held, async_method = LWT_UNIX_ASYNC_METHOD_SWITCH, j_result = 3, j_error_code = 4,
     w_fd = 5, w_length = 6, w_buffer = []\<rparr>"

section \<open>Properties\<close>

text \<open>
  C10. The blocking read jobs are equivalent to the non-blocking primitives: for a range inside the buffer
  and a system call that stores no more than it was asked for, \<^verbatim>\<open>read\<close>, \<^verbatim>\<open>pread\<close> and \<^verbatim>\<open>bytes_read\<close> run as jobs
  give OCaml the same value or exception, leave the OCaml buffers in the same state, make the same system
  call, balance the garbage collector roots, free their memory and never access anything out of bounds;
  the temporary buffer's uninitialised bytes never reach OCaml, even when the read is short.
\<close>

theorem read_jobs_equiv:
  assumes "heap s a = None" and "in_buffer buf ofs len s" and "read_contract (nat len) (read_c (c_int fd) (nat len))"
    and "heap t a = None" and "in_buffer buf ofs len t" and "read_contract (nat len) (pread_c (c_int fd) (nat len) fofs)"
    and "heap v a = None" and "in_buffer buf ofs len v"
  shows
    "job_run am e (lwt_unix_read_job a ug fd buf ofs len) [''worker_read'' \<mapsto> worker_read read_c] [''result_read'' \<mapsto> result_read] s =
       as_job e (lwt_unix_read read_c fd buf ofs len s) \<and>
     job_run am e (lwt_unix_pread_job a ug' fd buf fofs ofs len) [''worker_pread'' \<mapsto> worker_pread pread_c] [''result_pread'' \<mapsto> result_pread] t =
       as_job e (lwt_unix_pread pread_c fd buf fofs ofs len t) \<and>
     job_run am e (lwt_unix_bytes_read_job a u fd buf ofs len) [''worker_bytes_read'' \<mapsto> worker_bytes_read read_c]
         [''result_bytes_read'' \<mapsto> result_bytes_read] v =
       as_job e (lwt_unix_bytes_read read_c fd buf ofs len v)"
  by (intro conjI read_job_equiv pread_job_equiv bytes_read_job_equiv assms)

theorem read_jobs_equiv_witness:
  "job_run LWT_UNIX_ASYNC_METHOD_DETACH 0 (lwt_unix_read_job 1 (demo_read_job, \<lambda>_. CHR ''x'') 3 5 1 4)
      [''worker_read'' \<mapsto> worker_read (\<lambda>fd n e w. ((2, ''ZZ''), e, w + n))] [''result_read'' \<mapsto> result_read] demo_io =
    Some (Ret (Imm 2), demo_io\<lparr>bufs := [5 \<mapsto> ''aZZdef''], os := 4\<rparr>)"
proof -
  have p: "heap demo_io 1 = None" "in_buffer 5 1 4 demo_io"
    by (simp_all add: demo_io_def in_buffer_def)
  have "job_run LWT_UNIX_ASYNC_METHOD_DETACH 0 (lwt_unix_read_job 1 (demo_read_job, \<lambda>_. CHR ''x'') 3 5 1 4)
      [''worker_read'' \<mapsto> worker_read (\<lambda>fd n e w. ((2, ''ZZ''), e, w + n))] [''result_read'' \<mapsto> result_read] demo_io =
    as_job 0 (lwt_unix_read (\<lambda>fd n e w. ((2, ''ZZ''), e, w + n)) 3 5 1 4 demo_io)"
    by (rule read_jobs_equiv [where read_c = "\<lambda>fd n e w. ((2, ''ZZ''), e, w + n)" and fd = 3 and fofs = 0 and
          pread_c = "\<lambda>fd n m e w. ((2, ''ZZ''), e, w + n)", OF p _ p _ p, THEN conjunct1])
      (simp_all add: read_contract_def)
  then show ?thesis by (simp add: lwt_unix_read_def demo_io_def as_job_def Val_long_def caml_int_id numeral_eq_Suc)
qed

text \<open>
  The blocking write jobs are equivalent to the non-blocking primitives: the system call gets exactly the
  bytes of the requested range of the OCaml buffer, taken when the job is created for \<^verbatim>\<open>write\<close> and \<^verbatim>\<open>pwrite\<close>.
\<close>

theorem write_jobs_equiv:
  assumes "heap s a = None" and "in_buffer buf ofs len s" and "\<And>src. write_contract (write_c (c_int fd) src)"
    and "heap t a = None" and "in_buffer buf ofs len t" and "\<And>src. write_contract (pwrite_c (c_int fd) src fofs)"
    and "heap v a = None" and "in_buffer buf ofs len v"
  shows
    "job_run am e (lwt_unix_write_job a ug fd buf ofs len) [''worker_write'' \<mapsto> worker_write write_c] [''result_write'' \<mapsto> result_write] s =
       as_job e (lwt_unix_write write_c fd buf ofs len s) \<and>
     job_run am e (lwt_unix_pwrite_job a ug' fd buf fofs ofs len) [''worker_pwrite'' \<mapsto> worker_pwrite pwrite_c] [''result_pwrite'' \<mapsto> result_pwrite] t =
       as_job e (lwt_unix_pwrite pwrite_c fd buf fofs ofs len t) \<and>
     job_run am e (lwt_unix_bytes_write_job a u fd buf ofs len) [''worker_bytes_write'' \<mapsto> worker_bytes_write write_c]
         [''result_bytes_write'' \<mapsto> result_bytes_write] v =
       as_job e (lwt_unix_bytes_write write_c fd buf ofs len v)"
  by (intro conjI write_job_equiv pwrite_job_equiv bytes_write_job_equiv assms)

theorem write_jobs_equiv_witness:
  "job_run LWT_UNIX_ASYNC_METHOD_DETACH 0 (lwt_unix_write_job 1 (demo_write_job, \<lambda>_. CHR ''x'') 3 5 1 4)
      [''worker_write'' \<mapsto> worker_write (\<lambda>fd src e w. (int (length src), e, w + length src))] [''result_write'' \<mapsto> result_write] demo_io =
    Some (Ret (Imm 4), demo_io\<lparr>os := 4\<rparr>)"
proof -
  have p: "heap demo_io 1 = None" "in_buffer 5 1 4 demo_io"
    by (simp_all add: demo_io_def in_buffer_def)
  have "job_run LWT_UNIX_ASYNC_METHOD_DETACH 0 (lwt_unix_write_job 1 (demo_write_job, \<lambda>_. CHR ''x'') 3 5 1 4)
      [''worker_write'' \<mapsto> worker_write (\<lambda>fd src e w. (int (length src), e, w + length src))] [''result_write'' \<mapsto> result_write] demo_io =
    as_job 0 (lwt_unix_write (\<lambda>fd src e w. (int (length src), e, w + length src)) 3 5 1 4 demo_io)"
    by (rule write_jobs_equiv [where write_c = "\<lambda>fd src e w. (int (length src), e, w + length src)" and fd = 3 and fofs = 0 and
          pwrite_c = "\<lambda>fd src m e w. (int (length src), e, w + length src)", OF p _ p _ p, THEN conjunct1])
      (simp_all add: write_contract_def)
  then show ?thesis by (simp add: lwt_unix_write_def demo_io_def as_job_def Val_long_def caml_int_id)
qed

text \<open>
  A read stores only into the requested range: the buffer keeps its length, the bytes before the offset
  and after the bytes that were read are unchanged, and the bytes that were read are in place; other
  buffers are untouched, and a failed read changes no buffer.
\<close>

theorem read_in_range:
  assumes "bufs s buf = Some d" and "0 \<le> ofs" and "0 \<le> len" and "ofs + len \<le> int (length d)"
    and "read_contract (nat len) (read_c (c_int fd) (nat len))" and "read_c (c_int fd) (nat len) (c_errno s) (os s) = ((r, bs), e, w)"
  shows "\<exists>d' v. lwt_unix_read read_c fd buf ofs len s = Some (v, s\<lparr>bufs := (bufs s)(buf \<mapsto> d'), c_errno := e, os := w\<rparr>) \<and>
     v = (if r = -1 then Raise (Unix_error e ''read'' Nothing) else Ret (Val_long r)) \<and>
     length d' = length d \<and> take (nat r) (drop (nat ofs) d') = bs \<and>
     (\<forall>i < length d. i < nat ofs \<or> nat ofs + nat r \<le> i \<longrightarrow> d' ! i = d ! i)"
proof -
  note k = read_contractD [OF assms(5,6)]
  have f: "nat ofs + length bs \<le> length d" using k assms(2-4) by auto
  then obtain d' where d': "write_at d (nat ofs) bs = Some d'" by (simp add: write_at_def)
  have "take (nat r) (drop (nat ofs) d') = bs"
    using d' f k(3) by (auto simp: write_at_def)
  moreover have "\<forall>i < length d. i < nat ofs \<or> nat ofs + nat r \<le> i \<longrightarrow> d' ! i = d ! i"
    using write_at_outside [OF d'] k(3) by auto
  ultimately show ?thesis using assms(1,6) d' length_write_at [OF d'] by (auto simp: lwt_unix_read_def)
qed

theorem read_in_range_witness:
  "\<exists>d' v. lwt_unix_read (\<lambda>fd n e w. ((2, ''ZZ''), e, w + n)) 3 5 1 4 demo_io =
      Some (v, demo_io\<lparr>bufs := (bufs demo_io)(5 \<mapsto> d'), c_errno := 0, os := 4\<rparr>) \<and> length d' = 6 \<and> take 2 (drop 1 d') = ''ZZ''"
  using read_in_range [of demo_io 5 "''abcdef''" 1 4 "\<lambda>fd n e w. ((2, ''ZZ''), e, w + n)" 3 2 "''ZZ''" 0 4]
  by (auto simp: demo_io_def read_contract_def)

end
