(* ===== verification/Vectors.thy ===== *)
theory Vectors
  imports Io_Jobs
begin

text \<open>
  Vectored input and output: \<^verbatim>\<open>flatten_io_vectors\<close> of \<^verbatim>\<open>unix_readv_writev_utils.c\<close>, which turns a list of
  OCaml buffer slices into an array of \<^verbatim>\<open>struct iovec\<close>, the jobs \<^verbatim>\<open>unix_readv_job.c\<close> and
  \<^verbatim>\<open>unix_writev_job.c\<close>, and the primitives \<^verbatim>\<open>unix_readv.c\<close> and \<^verbatim>\<open>unix_writev.c\<close>.
\<close>

section \<open>Data\<close>

text \<open>A buffer is a \<^verbatim>\<open>Bytes.t\<close>, which the garbage collector can move, or a Bigarray, which it cannot.\<close>

datatype io_buffer = IO_vectors_bytes nat | IO_vectors_bigarray nat

record io_vector =
  v_buffer :: io_buffer
  v_offset :: int
  v_length :: int

text \<open>A pointer is into a block from \<^verbatim>\<open>malloc\<close> or into the data of an OCaml buffer.\<close>

datatype pointer = To_block nat | To_buf nat nat

record iovec =
  iov_base :: pointer
  iov_len :: nat

record readv_copy_to =
  rc_length :: nat
  rc_offset :: nat
  rc_caml_buffer :: nat
  rc_temporary_buffer :: nat

section \<open>flatten_io_vectors\<close>

text \<open>
  The loop of \<^verbatim>\<open>flatten_io_vectors\<close>. \<open>copies\<close> and \<open>reads\<close> say whether \<^verbatim>\<open>buffer_copies\<close> and \<^verbatim>\<open>read_buffers\<close> are
  non-null; \<open>as\<close> are the addresses that \<^verbatim>\<open>malloc\<close> returns, \<open>g\<close> the bytes found there. The results are
  \<^verbatim>\<open>iovecs\<close>, \<^verbatim>\<open>buffer_copies\<close> and \<^verbatim>\<open>read_buffers\<close> up to their terminators. The loop fails when the list has fewer
  than \<open>count\<close> elements, and the copy fails when the slice is not inside the buffer.
\<close>

fun flatten_io_vectors :: "bool \<Rightarrow> bool \<Rightarrow> nat \<Rightarrow> io_vector list \<Rightarrow> nat list \<Rightarrow> (nat \<Rightarrow> char) \<Rightarrow> ('x, 'os) cst
    \<Rightarrow> (iovec list \<times> nat list \<times> readv_copy_to list \<times> ('x, 'os) cst) option" where
  "flatten_io_vectors copies reads 0 vs as g s = Some ([], [], [], s)"
| "flatten_io_vectors copies reads (Suc n) [] as g s = None"
| "flatten_io_vectors copies reads (Suc n) (v # vs) as g s = (
     let offset = nat (v_offset v); len = nat (v_length v)
     in case v_buffer v of
          IO_vectors_bytes b \<Rightarrow>
            if copies then do {
              a \<leftarrow> (case as of [] \<Rightarrow> None | a # _ \<Rightarrow> Some a);
              s \<leftarrow> malloc_block a (uninit g len) s;
              d \<leftarrow> bufs s b;
              src \<leftarrow> read_at d offset len;
              dst \<leftarrow> blocks s a;
              dst \<leftarrow> write_at dst 0 src;
              (iovs, cs, rs, s) \<leftarrow> flatten_io_vectors copies reads n vs (tl as) g (s\<lparr>blocks := (blocks s)(a \<mapsto> dst)\<rparr>);
              Some (\<lparr>iov_base = To_block a, iov_len = len\<rparr> # iovs, a # cs, rs, s)
            } else if reads then do {
              a \<leftarrow> (case as of [] \<Rightarrow> None | a # _ \<Rightarrow> Some a);
              s \<leftarrow> malloc_block a (uninit g len) s;
              (iovs, cs, rs, s) \<leftarrow> flatten_io_vectors copies reads n vs (tl as) g (register_root a s);
              Some (\<lparr>iov_base = To_block a, iov_len = len\<rparr> # iovs, cs,
                    \<lparr>rc_length = len, rc_offset = offset, rc_caml_buffer = b, rc_temporary_buffer = a\<rparr> # rs, s)
            } else do {
              (iovs, cs, rs, s) \<leftarrow> flatten_io_vectors copies reads n vs as g s;
              Some (\<lparr>iov_base = To_buf b offset, iov_len = len\<rparr> # iovs, cs, rs, s)
            }
        | IO_vectors_bigarray b \<Rightarrow> do {
            (iovs, cs, rs, s) \<leftarrow> flatten_io_vectors copies reads n vs as g s;
            Some (\<lparr>iov_base = To_buf b offset, iov_len = len\<rparr> # iovs, cs, rs, s)
          })"

section \<open>What the system does with the vectors\<close>

text \<open>\<^verbatim>\<open>writev\<close> takes the bytes of the vectors in order.\<close>

definition deref :: "iovec \<Rightarrow> ('x, 'os) cst \<Rightarrow> char list option" where
  "deref v s = (case iov_base v of
     To_block a \<Rightarrow> do { d \<leftarrow> blocks s a; read_at d 0 (iov_len v) }
   | To_buf b off \<Rightarrow> do { d \<leftarrow> bufs s b; read_at d off (iov_len v) })"

fun gather :: "iovec list \<Rightarrow> ('x, 'os) cst \<Rightarrow> char list option" where
  "gather [] s = Some []"
| "gather (v # vs) s = do { x \<leftarrow> deref v s; xs \<leftarrow> gather vs s; Some (x @ xs) }"

text \<open>\<^verbatim>\<open>readv\<close> fills each vector completely before the next one.\<close>

definition store :: "iovec \<Rightarrow> char list \<Rightarrow> ('x, 'os) cst \<Rightarrow> ('x, 'os) cst option" where
  "store v bs s = (case iov_base v of
     To_block a \<Rightarrow> do { d \<leftarrow> blocks s a; d \<leftarrow> write_at d 0 bs; Some (s\<lparr>blocks := (blocks s)(a \<mapsto> d)\<rparr>) }
   | To_buf b off \<Rightarrow> do { d \<leftarrow> bufs s b; d \<leftarrow> write_at d off bs; Some (s\<lparr>bufs := (bufs s)(b \<mapsto> d)\<rparr>) })"

fun scatter :: "iovec list \<Rightarrow> char list \<Rightarrow> ('x, 'os) cst \<Rightarrow> ('x, 'os) cst option" where
  "scatter [] bs s = (if bs = [] then Some s else None)"
| "scatter (v # vs) bs s = do {
     s \<leftarrow> store v (take (iov_len v) bs) s;
     scatter vs (drop (iov_len v) bs) s
   }"

section \<open>Structures\<close>

text \<open>
  \<^verbatim>\<open>buffer_copies\<close> and \<^verbatim>\<open>buffers\<close> are arrays with room for \<open>count + 1\<close> elements, ended by a null pointer; the root
  of \<^verbatim>\<open>ocaml_io_vectors\<close> is identified by the address of the job. The arrays \<^verbatim>\<open>iovecs\<close> and \<^verbatim>\<open>buffer_copies\<close>, which have the
  same lifetime as the structure and are freed just before it, are fields of the record. The jobs receive the record
  \<^verbatim>\<open>IO_vectors.t\<close>, whose field 0 is the list, and the primitives the list itself.
\<close>

record job_writev = sysjob +
  g_fd :: int
  g_count :: nat
  g_iovecs :: "iovec list"
  g_buffer_copies :: "nat option list"

record job_readv = sysjob +
  s_fd :: int
  s_count :: nat
  s_iovecs :: "iovec list"
  s_buffers :: "readv_copy_to option list"

type_synonym writev_x = "unit job_writev_ext sys_x"
type_synonym readv_x = "unit job_readv_ext sys_x"

text \<open>An array of \<open>n\<close> cells that holds \<open>xs\<close> and the terminator.\<close>

definition terminated :: "nat \<Rightarrow> 'a list \<Rightarrow> 'a option list option" where
  "terminated n xs = (if length xs < n then Some (map Some xs @ [None]) else None)"

section \<open>writev\<close>

definition worker_writev :: "(int \<Rightarrow> char list \<Rightarrow> ('os, int) syscall) \<Rightarrow> nat \<Rightarrow> (writev_x, 'os) cst \<Rightarrow> (writev_x, 'os) cst option" where
  [job_defs]: "worker_writev writev_c p s = do {
     job \<leftarrow> heap s p;
     src \<leftarrow> gather (take (g_count job) (g_iovecs job)) s;
     let (r, e, w) = writev_c (g_fd job) src (c_errno s) (os s);
     s \<leftarrow> set_job p (\<lambda>j. j\<lparr>j_result := r, j_error_code := e\<rparr>) s;
     Some (s\<lparr>c_errno := e, os := w\<rparr>)
   }"

text \<open>The loop that frees the copies up to the null pointer; reading past the end of the array fails.\<close>

fun free_copies :: "nat option list \<Rightarrow> ('x, 'os) cst \<Rightarrow> ('x, 'os) cst option" where
  "free_copies [] s = None"
| "free_copies (None # cs) s = Some s"
| "free_copies (Some a # cs) s = do { s \<leftarrow> free_block a s; free_copies cs s }"

definition result_writev :: "nat \<Rightarrow> (writev_x, 'os) cst \<Rightarrow> (caml_value outcome \<times> (writev_x, 'os) cst) option" where
  [job_defs]: "result_writev p s = do {
     job \<leftarrow> heap s p;
     s \<leftarrow> free_copies (g_buffer_copies job) s;
     s \<leftarrow> remove_root p s;
     LWT_UNIX_CHECK_JOB p (j_result job < 0) ''writev'' s (free_and_return p (Val_long (j_result job)))
   }"

definition lwt_unix_writev_job :: "nat \<Rightarrow> job_writev \<Rightarrow> nat list \<Rightarrow> (nat \<Rightarrow> char) \<Rightarrow> int \<Rightarrow> io_vector list \<Rightarrow> int
    \<Rightarrow> (writev_x, 'os) cst \<Rightarrow> (caml_value \<times> (writev_x, 'os) cst) option" where
  [job_defs]: "lwt_unix_writev_job a u as g fd io_vectors val_count s = do {
     s \<leftarrow> LWT_UNIX_INIT_JOB a ''writev'' u s;
     let count = nat val_count;
     (iovs, cs, _, s) \<leftarrow> flatten_io_vectors True False count io_vectors as g s;
     copies \<leftarrow> terminated (count + 1) cs;
     s \<leftarrow> set_job a (\<lambda>j. j\<lparr>g_fd := c_int fd, g_count := count, g_iovecs := iovs, g_buffer_copies := copies\<rparr>) s;
     lwt_unix_alloc_job a (register_root a s)
   }"

definition lwt_unix_writev :: "(int \<Rightarrow> char list \<Rightarrow> ('os, int) syscall) \<Rightarrow> int \<Rightarrow> io_vector list \<Rightarrow> int
    \<Rightarrow> ('x, 'os) cst \<Rightarrow> (caml_value outcome \<times> ('x, 'os) cst) option" where
  "lwt_unix_writev writev_c fd io_vectors val_count s = do {
     (iovs, _, _, s) \<leftarrow> flatten_io_vectors False False (nat val_count) io_vectors [] (\<lambda>_. NUL) s;
     src \<leftarrow> gather iovs s;
     let (ret, e, w) = writev_c (c_int fd) src (c_errno s) (os s);
     let s = s\<lparr>c_errno := e, os := w\<rparr>;
     if ret = -1 then Some (Raise (Unix_error e ''writev'' Nothing), s)
     else Some (Ret (Val_long ret), s)
   }"

section \<open>readv\<close>

definition worker_readv :: "(int \<Rightarrow> nat \<Rightarrow> ('os, int \<times> char list) syscall) \<Rightarrow> nat \<Rightarrow> (readv_x, 'os) cst \<Rightarrow> (readv_x, 'os) cst option" where
  [job_defs]: "worker_readv readv_c p s = do {
     job \<leftarrow> heap s p;
     let iovs = take (s_count job) (s_iovecs job);
     let ((r, bs), e, w) = readv_c (s_fd job) (sum_list (map iov_len iovs)) (c_errno s) (os s);
     s \<leftarrow> scatter iovs bs s;
     s \<leftarrow> set_job p (\<lambda>j. j\<lparr>j_result := r, j_error_code := e\<rparr>) s;
     Some (s\<lparr>c_errno := e, os := w\<rparr>)
   }"

text \<open>The two loops of \<^verbatim>\<open>result_readv\<close>: copy every temporary buffer, whole; then free them all.\<close>

fun copy_back :: "readv_copy_to option list \<Rightarrow> ('x, 'os) cst \<Rightarrow> ('x, 'os) cst option" where
  "copy_back [] s = None"
| "copy_back (None # rs) s = Some s"
| "copy_back (Some r # rs) s = do {
     src \<leftarrow> blocks s (rc_temporary_buffer r);
     src \<leftarrow> read_at src 0 (rc_length r);
     dst \<leftarrow> rooted_buf (rc_temporary_buffer r) (rc_caml_buffer r) s;
     dst \<leftarrow> write_at dst (rc_offset r) src;
     copy_back rs (s\<lparr>bufs := (bufs s)(rc_caml_buffer r \<mapsto> dst)\<rparr>)
   }"

fun free_read_buffers :: "readv_copy_to option list \<Rightarrow> ('x, 'os) cst \<Rightarrow> ('x, 'os) cst option" where
  "free_read_buffers [] s = None"
| "free_read_buffers (None # rs) s = Some s"
| "free_read_buffers (Some r # rs) s = do {
     s \<leftarrow> free_block (rc_temporary_buffer r) s;
     s \<leftarrow> remove_root (rc_temporary_buffer r) s;
     free_read_buffers rs s
   }"

definition result_readv :: "nat \<Rightarrow> (readv_x, 'os) cst \<Rightarrow> (caml_value outcome \<times> (readv_x, 'os) cst) option" where
  [job_defs]: "result_readv p s = do {
     job \<leftarrow> heap s p;
     s \<leftarrow> (if j_result job \<noteq> -1 then copy_back (s_buffers job) s else Some s);
     s \<leftarrow> free_read_buffers (s_buffers job) s;
     s \<leftarrow> remove_root p s;
     LWT_UNIX_CHECK_JOB p (j_result job < 0) ''readv'' s (free_and_return p (Val_long (j_result job)))
   }"

definition lwt_unix_readv_job :: "nat \<Rightarrow> job_readv \<Rightarrow> nat list \<Rightarrow> (nat \<Rightarrow> char) \<Rightarrow> int \<Rightarrow> io_vector list \<Rightarrow> int
    \<Rightarrow> (readv_x, 'os) cst \<Rightarrow> (caml_value \<times> (readv_x, 'os) cst) option" where
  [job_defs]: "lwt_unix_readv_job a u as g fd io_vectors val_count s = do {
     let count = nat val_count;
     s \<leftarrow> LWT_UNIX_INIT_JOB a ''readv'' u s;
     (iovs, _, rs, s) \<leftarrow> flatten_io_vectors False True count io_vectors as g s;
     buffers \<leftarrow> terminated (count + 1) rs;
     s \<leftarrow> set_job a (\<lambda>j. j\<lparr>s_fd := c_int fd, s_count := count, s_iovecs := iovs, s_buffers := buffers\<rparr>) s;
     lwt_unix_alloc_job a (register_root a s)
   }"

definition lwt_unix_readv :: "(int \<Rightarrow> nat \<Rightarrow> ('os, int \<times> char list) syscall) \<Rightarrow> int \<Rightarrow> io_vector list \<Rightarrow> int
    \<Rightarrow> ('x, 'os) cst \<Rightarrow> (caml_value outcome \<times> ('x, 'os) cst) option" where
  "lwt_unix_readv readv_c fd io_vectors val_count s = do {
     (iovs, _, _, s) \<leftarrow> flatten_io_vectors False False (nat val_count) io_vectors [] (\<lambda>_. NUL) s;
     let ((ret, bs), e, w) = readv_c (c_int fd) (sum_list (map iov_len iovs)) (c_errno s) (os s);
     s \<leftarrow> scatter iovs bs s;
     let s = s\<lparr>c_errno := e, os := w\<rparr>;
     if ret = -1 then Some (Raise (Unix_error e ''readv'' Nothing), s)
     else Some (Ret (Val_long ret), s)
   }"

section \<open>Slices\<close>

definition buffer_id :: "io_buffer \<Rightarrow> nat" where
  "buffer_id b = (case b of IO_vectors_bytes b \<Rightarrow> b | IO_vectors_bigarray b \<Rightarrow> b)"

text \<open>The slice lies inside its buffer, as \<^verbatim>\<open>Lwt_unix.IO_vectors\<close> checks.\<close>

definition slice_ok :: "(nat \<rightharpoonup> char list) \<Rightarrow> io_vector \<Rightarrow> bool" where
  "slice_ok bf v \<longleftrightarrow> (\<exists>d. bf (buffer_id (v_buffer v)) = Some d \<and> nat (v_offset v) + nat (v_length v) \<le> length d)"

definition slice :: "(nat \<rightharpoonup> char list) \<Rightarrow> io_vector \<Rightarrow> char list" where
  "slice bf v = take (nat (v_length v)) (drop (nat (v_offset v)) (the (bf (buffer_id (v_buffer v)))))"

fun num_bytes :: "io_vector list \<Rightarrow> nat" where
  "num_bytes [] = 0"
| "num_bytes (v # vs) = (case v_buffer v of IO_vectors_bytes _ \<Rightarrow> 1 | _ \<Rightarrow> 0) + num_bytes vs"

lemma num_bytes_le: "num_bytes vs \<le> length vs"
  by (induction vs) (auto split: io_buffer.split)

definition direct_iovec :: "io_vector \<Rightarrow> iovec" where
  "direct_iovec v = \<lparr>iov_base = To_buf (buffer_id (v_buffer v)) (nat (v_offset v)), iov_len = nat (v_length v)\<rparr>"

text \<open>Without the two arrays, the vectors point directly to the slices and nothing is allocated.\<close>

lemma flatten_direct:
  "n \<le> length vs \<Longrightarrow> flatten_io_vectors False False n vs as g s = Some (map direct_iovec (take n vs), [], [], s)"
proof (induction n arbitrary: vs)
  case (Suc n)
  then obtain v ws where "vs = v # ws" by (cases vs) auto
  with Suc show ?case by (auto simp: direct_iovec_def buffer_id_def Let_def split: io_buffer.split)
qed simp

lemma gather_direct:
  "\<forall>v\<in>set vs. slice_ok (bufs s) v \<Longrightarrow> gather (map direct_iovec vs) s = Some (concat (map (slice (bufs s)) vs))"
  by (induction vs) (auto simp: deref_def direct_iovec_def slice_ok_def slice_def)

text \<open>With copies, the vectors point to fresh blocks with the same bytes.\<close>

lemma flatten_copies:
  assumes "n \<le> length vs" and "\<forall>v\<in>set (take n vs). slice_ok (bufs s) v" and "distinct as"
    and "\<forall>a\<in>set as. blocks s a = None" and "num_bytes (take n vs) \<le> length as"
  shows "\<exists>iovs B. flatten_io_vectors True False n vs as g s =
        Some (iovs, take (num_bytes (take n vs)) as, [], s\<lparr>blocks := B\<rparr>) \<and> length iovs = n \<and>
      (\<forall>a. a \<notin> set (take (num_bytes (take n vs)) as) \<longrightarrow> B a = blocks s a) \<and>
      (\<forall>a\<in>set (take (num_bytes (take n vs)) as). B a \<noteq> None) \<and>
      (\<forall>t :: ('x, 'os) cst. (\<forall>a\<in>set (take (num_bytes (take n vs)) as). blocks t a = B a) \<and> bufs t = bufs s \<longrightarrow>
         gather iovs t = Some (concat (map (slice (bufs s)) (take n vs))))"
  using assms
proof (induction n arbitrary: vs as s)
  case 0
  then show ?case by (auto intro!: exI [of _ "blocks s"])
next
  case (Suc n)
  then obtain v ws where vs: "vs = v # ws" by (cases vs) auto
  let ?off = "nat (v_offset v)" and ?len = "nat (v_length v)"
  show ?case
  proof (cases "v_buffer v")
    case (IO_vectors_bigarray b)
    from Suc.IH [of ws s as] Suc.prems vs IO_vectors_bigarray obtain iovs B where
      f: "flatten_io_vectors True False n ws as g s = Some (iovs, take (num_bytes (take n ws)) as, [], s\<lparr>blocks := B\<rparr>)"
        "length iovs = n" "\<forall>a. a \<notin> set (take (num_bytes (take n ws)) as) \<longrightarrow> B a = blocks s a"
        "\<forall>a\<in>set (take (num_bytes (take n ws)) as). B a \<noteq> None"
        "\<forall>t :: ('x, 'os) cst. (\<forall>a\<in>set (take (num_bytes (take n ws)) as). blocks t a = B a) \<and> bufs t = bufs s \<longrightarrow>
           gather iovs t = Some (concat (map (slice (bufs s)) (take n ws)))" by auto
    have "deref \<lparr>iov_base = To_buf b ?off, iov_len = ?len\<rparr> t = Some (slice (bufs s) v)" if "bufs t = bufs s" for t :: "('x, 'os) cst"
      using Suc.prems(2) vs IO_vectors_bigarray that by (auto simp: deref_def slice_ok_def slice_def buffer_id_def)
    with f vs IO_vectors_bigarray show ?thesis by (auto simp: Let_def)
  next
    case (IO_vectors_bytes b)
    with Suc.prems(5) vs obtain a as' where as: "as = a # as'" by (cases as) auto
    obtain d where d: "bufs s b = Some d" "?off + ?len \<le> length d"
      using Suc.prems(2) vs IO_vectors_bytes by (auto simp: slice_ok_def buffer_id_def)
    define src where "src = take ?len (drop ?off d)"
    have src: "read_at d ?off ?len = Some src" "length src = ?len" "slice (bufs s) v = src"
      using d IO_vectors_bytes by (simp_all add: src_def slice_def buffer_id_def)
    let ?s = "s\<lparr>blocks := (blocks s)(a \<mapsto> src)\<rparr>"
    have "blocks s a = None" using Suc.prems(4) as by simp
    then have step: "flatten_io_vectors True False (Suc n) vs as g s = do {
        (iovs, cs, rs, s) \<leftarrow> flatten_io_vectors True False n ws as' g ?s;
        Some (\<lparr>iov_base = To_block a, iov_len = ?len\<rparr> # iovs, a # cs, rs, s) }"
      using d src vs as IO_vectors_bytes by (simp add: malloc_block_def Let_def)
    have "\<forall>c\<in>set as'. blocks ?s c = None" using Suc.prems(3,4) as by auto
    with Suc.IH [of ws ?s as'] Suc.prems vs as IO_vectors_bytes obtain iovs B where
      f: "flatten_io_vectors True False n ws as' g ?s = Some (iovs, take (num_bytes (take n ws)) as', [], ?s\<lparr>blocks := B\<rparr>)"
        "length iovs = n" "\<forall>c. c \<notin> set (take (num_bytes (take n ws)) as') \<longrightarrow> B c = blocks ?s c"
        "\<forall>c\<in>set (take (num_bytes (take n ws)) as'). B c \<noteq> None"
        "\<forall>t :: ('x, 'os) cst. (\<forall>c\<in>set (take (num_bytes (take n ws)) as'). blocks t c = B c) \<and> bufs t = bufs ?s \<longrightarrow>
           gather iovs t = Some (concat (map (slice (bufs ?s)) (take n ws)))" by auto
    have ba: "B a = Some src" using f(3) Suc.prems(3) as by (auto dest: in_set_takeD)
    with f step src vs as IO_vectors_bytes show ?thesis
      by (auto simp: deref_def)
  qed
qed

lemma free_copies_all:
  "distinct cs \<Longrightarrow> \<forall>c\<in>set cs. blocks s c \<noteq> None \<Longrightarrow>
     free_copies (map Some cs @ [None]) s = Some (s\<lparr>blocks := (\<lambda>a. if a \<in> set cs then None else blocks s a)\<rparr>)"
proof (induction cs arbitrary: s)
  case (Cons c cs)
  let ?s = "s\<lparr>blocks := (blocks s)(c := None)\<rparr>"
  have "free_copies (map Some cs @ [None]) ?s = Some (?s\<lparr>blocks := (\<lambda>a. if a \<in> set cs then None else blocks ?s a)\<rparr>)"
    using Cons by (intro Cons.IH) auto
  moreover have "(\<lambda>a. if a \<in> set cs then None else blocks ?s a) = (\<lambda>a. if a \<in> set (c # cs) then None else blocks s a)"
    by auto
  ultimately show ?case using Cons.prems by (simp add: free_block_def)
qed simp


section \<open>Equivalence of the two writes\<close>

lemma writev_direct:
  assumes "nat n \<le> length vs" and "\<forall>v\<in>set (take (nat n) vs). slice_ok (bufs s) v"
  shows "lwt_unix_writev writev_c fd vs n s = (case writev_c (c_int fd) (concat (map (slice (bufs s)) (take (nat n) vs))) (c_errno s) (os s) of
     (r, e, w) \<Rightarrow> Some (if r = -1 then Raise (Unix_error e ''writev'' Nothing) else Ret (Val_long r), s\<lparr>c_errno := e, os := w\<rparr>))"
  using assms by (simp add: lwt_unix_writev_def flatten_direct gather_direct Let_def split: prod.split)

lemma free_copies_restores:
  assumes "distinct cs" and "\<forall>c\<in>set cs. blocks s c = None" and "\<forall>c. c \<notin> set cs \<longrightarrow> B c = blocks s c"
    and "\<forall>c\<in>set cs. B c \<noteq> None" and "blocks t = B"
  shows "free_copies (map Some cs @ [None]) t = Some (t\<lparr>blocks := blocks s\<rparr>)"
proof -
  have "(\<lambda>a. if a \<in> set cs then None else blocks t a) = blocks s" using assms by auto
  with free_copies_all [of cs t] assms show ?thesis by simp
qed

lemma writev_job_run:
  assumes "heap s a = None" and "nat n \<le> length vs" and "\<forall>v\<in>set (take (nat n) vs). slice_ok (bufs s) v"
    and "distinct as" and "\<forall>b\<in>set as. blocks s b = None" and "num_bytes (take (nat n) vs) \<le> length as"
    and w: "writev_c (c_int fd) (concat (map (slice (bufs s)) (take (nat n) vs))) (c_errno s) (os s) = (r, e, w)"
  shows "job_run am e' (lwt_unix_writev_job a u as g fd vs n) [''worker_writev'' \<mapsto> worker_writev writev_c] [''result_writev'' \<mapsto> result_writev] s =
    Some (if r < 0 then Raise (Unix_error e ''writev'' Nothing) else Ret (Val_long r), s\<lparr>c_errno := e', os := w\<rparr>)"
proof -
  define cs where "cs = take (num_bytes (take (nat n) vs)) as"
  let ?j = "u\<lparr>worker_fn := ''worker_writev'', result_fn := ''result_writev''\<rparr>"
  let ?s = "s\<lparr>heap := (heap s)(a \<mapsto> ?j)\<rparr>"
  from flatten_copies [of "nat n" vs ?s as g] assms obtain iovs B where
    f: "flatten_io_vectors True False (nat n) vs as g ?s = Some (iovs, cs, [], ?s\<lparr>blocks := B\<rparr>)" "length iovs = nat n"
      "\<forall>b. b \<notin> set cs \<longrightarrow> B b = blocks s b" "\<forall>b\<in>set cs. B b \<noteq> None"
      "\<forall>t :: (writev_x, 'a) cst. (\<forall>b\<in>set cs. blocks t b = B b) \<and> bufs t = bufs s \<longrightarrow> gather iovs t = Some (concat (map (slice (bufs s)) (take (nat n) vs)))"
    unfolding cs_def by auto
  have len: "length cs \<le> nat n" using num_bytes_le [of "take (nat n) vs"] by (auto simp: cs_def)
  have cs: "distinct cs" "\<forall>c\<in>set cs. blocks s c = None" using assms(4,5) by (auto simp: cs_def dest: in_set_takeD)
  note free = free_copies_restores [OF cs f(3,4)]
  show ?thesis using assms(1) w f len
    by (cases s) (auto simp: job_run_def job_defs job_common terminated_def register_root_def remove_root_def free freeable_def fun_upd_idem)
qed

lemma writev_job_equiv:
  assumes "heap s a = None" and "nat n \<le> length vs" and "\<forall>v\<in>set (take (nat n) vs). slice_ok (bufs s) v"
    and "distinct as" and "\<forall>b\<in>set as. blocks s b = None" and "num_bytes (take (nat n) vs) \<le> length as"
    and c: "\<And>src. write_contract (writev_c (c_int fd) src)"
  shows "job_run am e' (lwt_unix_writev_job a u as g fd vs n) [''worker_writev'' \<mapsto> worker_writev writev_c] [''result_writev'' \<mapsto> result_writev] s =
    as_job e' (lwt_unix_writev writev_c fd vs n s)"
proof -
  obtain r e w where w: "writev_c (c_int fd) (concat (map (slice (bufs s)) (take (nat n) vs))) (c_errno s) (os s) = (r, e, w)"
    by (metis prod_cases3)
  with writev_job_run [where s = s and writev_c = writev_c, OF assms(1-6) w] write_contractD [OF c w] show ?thesis
    by (simp add: writev_direct [OF assms(2,3)] as_job_def)
qed

section \<open>Properties\<close>

definition demo_vectors :: "io_vector list" where
  "demo_vectors = [\<lparr>v_buffer = IO_vectors_bytes 5, v_offset = 1, v_length = 2\<rparr>,
     \<lparr>v_buffer = IO_vectors_bigarray 6, v_offset = 0, v_length = 3\<rparr>, \<lparr>v_buffer = IO_vectors_bytes 5, v_offset = 4, v_length = 1\<rparr>]"

definition demo_vio :: "('x, nat) cst" where
  "demo_vio = \<lparr>heap = Map.empty, blocks = Map.empty, bufs = [5 \<mapsto> ''abcdef'', 6 \<mapsto> ''ghi''], roots = [], c_errno = 0, os = 0\<rparr>"

definition demo_sysjob :: sysjob where
  "demo_sysjob = \<lparr>next_job = None, notification_id = 0, worker_fn = [], result_fn = [], job_state = LWT_UNIX_JOB_STATE_DONE,
     fast = 5, job_mutex = Mutex_held, async_method = LWT_UNIX_ASYNC_METHOD_SWITCH, j_result = 3, j_error_code = 4\<rparr>"

definition demo_writev_job :: job_writev where
  "demo_writev_job = sysjob.extend demo_sysjob \<lparr>g_fd = 5, g_count = 6, g_iovecs = [], g_buffer_copies = []\<rparr>"

definition demo_readv_job :: job_readv where
  "demo_readv_job = sysjob.extend demo_sysjob \<lparr>s_fd = 5, s_count = 6, s_iovecs = [], s_buffers = []\<rparr>"

text \<open>
  C16. The blocking \<^verbatim>\<open>writev\<close> job is equivalent to the primitive for non-blocking descriptors: for slices inside their
  buffers, some in OCaml byte strings and some in Bigarrays, both pass to one \<^verbatim>\<open>writev\<close> call exactly the
  bytes of the first \<^verbatim>\<open>count\<close> slices, in order, and return the same value or exception; the copies that the job makes
  of the byte strings are all freed, once, and the root of the vectors is released.
\<close>

theorem writev_equiv:
  assumes "heap s a = None" and "nat n \<le> length vs" and "\<forall>v\<in>set (take (nat n) vs). slice_ok (bufs s) v"
    and "distinct as" and "\<forall>b\<in>set as. blocks s b = None" and "num_bytes (take (nat n) vs) \<le> length as"
    and "\<And>src. write_contract (writev_c (c_int fd) src)"
    and "writev_c (c_int fd) (concat (map (slice (bufs s)) (take (nat n) vs))) (c_errno s) (os s) = (r, e, w)"
  shows "job_run am e' (lwt_unix_writev_job a u as g fd vs n) [''worker_writev'' \<mapsto> worker_writev writev_c] [''result_writev'' \<mapsto> result_writev] s =
      as_job e' (lwt_unix_writev writev_c fd vs n s) \<and>
    lwt_unix_writev writev_c fd vs n s =
      Some (if r = -1 then Raise (Unix_error e ''writev'' Nothing) else Ret (Val_long r), s\<lparr>c_errno := e, os := w\<rparr>)"
proof
  show "job_run am e' (lwt_unix_writev_job a u as g fd vs n) [''worker_writev'' \<mapsto> worker_writev writev_c] [''result_writev'' \<mapsto> result_writev] s =
      as_job e' (lwt_unix_writev writev_c fd vs n s)"
    by (rule writev_job_equiv) (fact assms)+
  show "lwt_unix_writev writev_c fd vs n s =
      Some (if r = -1 then Raise (Unix_error e ''writev'' Nothing) else Ret (Val_long r), s\<lparr>c_errno := e, os := w\<rparr>)"
    using assms(8) by (simp add: writev_direct [OF assms(2,3)])
qed

theorem writev_equiv_witness:
  "job_run LWT_UNIX_ASYNC_METHOD_DETACH 0 (lwt_unix_writev_job 1 demo_writev_job [7, 8] (\<lambda>_. CHR ''x'') 3 demo_vectors 3)
      [''worker_writev'' \<mapsto> worker_writev (\<lambda>fd src e w. (int (length src), e, length src))] [''result_writev'' \<mapsto> result_writev] demo_vio =
    Some (Ret (Imm 6), demo_vio\<lparr>os := 6\<rparr>)"
  using writev_equiv [of demo_vio 1 3 demo_vectors "[7, 8]" "\<lambda>fd src e w. (int (length src), e, length src)" 3 6 0 6
      LWT_UNIX_ASYNC_METHOD_DETACH 0 demo_writev_job "\<lambda>_. CHR ''x''"]
  by (simp add: demo_vio_def demo_vectors_def write_contract_def slice_ok_def slice_def buffer_id_def as_job_def Val_long_def caml_int_id numeral_eq_Suc)


end
