(* ===== verification/Name_Jobs.thy ===== *)
theory Name_Jobs
  imports Io_Jobs
begin

text \<open>
  Jobs that obtain a string of unknown length: \<^verbatim>\<open>unix_readlink_job.c\<close> and \<^verbatim>\<open>unix_gethostname_job.c\<close>, which try larger and
  larger buffers, and \<^verbatim>\<open>unix_getcwd_job.c\<close> and \<^verbatim>\<open>unix_getlogin_job.c\<close>, which have a fixed buffer in the structure.

  The two loops are \<open>partial_function\<close>s: a loop that does not end is \<open>None\<close>, like undefined behaviour. The
  theorems show that they do end. \<open>alloc n B\<close> is the address that \<^verbatim>\<open>malloc (n)\<close> returns when the blocks \<open>B\<close> are in use, \<open>g n\<close> the
  bytes found there. \<^verbatim>\<open>free\<close> leaves \<^verbatim>\<open>errno\<close> alone, as POSIX requires since 2024. In the structure of \<^verbatim>\<open>getcwd\<close> the result is a
  pointer, and the field \<open>j_result\<close> of the common part is not used.
\<close>

section \<open>Structures\<close>

record job_readlink = path_job +
  k_buffer :: nat

record job_gethostname = sysjob +
  h_buffer :: nat

record job_getcwd = sysjob +
  c_buf :: "char list"
  c_result :: "nat option"

record job_getlogin = lwt_unix_job +
  l_buffer :: "char list"
  l_result :: int

type_synonym readlink_x = "unit job_readlink_ext path_x"
type_synonym gethostname_x = "unit job_gethostname_ext sys_x"
type_synonym getcwd_x = "unit job_getcwd_ext sys_x"
type_synonym getlogin_x = "unit job_getlogin_ext"

section \<open>readlink\<close>

partial_function (option) readlink_loop :: "(nat \<Rightarrow> (nat \<rightharpoonup> char list) \<Rightarrow> nat) \<Rightarrow> (nat \<Rightarrow> nat \<Rightarrow> char)
    \<Rightarrow> (char list \<Rightarrow> nat \<Rightarrow> ('os, int \<times> char list) syscall) \<Rightarrow> nat \<Rightarrow> nat \<Rightarrow> (readlink_x, 'os) cst \<Rightarrow> (readlink_x, 'os) cst option" where
  "readlink_loop alloc g readlink_c p buffer_size s = do {
     let a = alloc (buffer_size + 1) (blocks s);
     s \<leftarrow> malloc_block a (uninit (g (buffer_size + 1)) (buffer_size + 1)) s;
     s \<leftarrow> set_job p (\<lambda>j. j\<lparr>k_buffer := a\<rparr>) s;
     job \<leftarrow> heap s p;
     name \<leftarrow> job_path job;
     let ((link_length, bs), e, w) = readlink_c name buffer_size (c_errno s) (os s);
     buffer \<leftarrow> blocks s a;
     buffer \<leftarrow> write_at buffer 0 bs;
     let s = s\<lparr>blocks := (blocks s)(a \<mapsto> buffer), c_errno := e, os := w\<rparr>;
     if link_length < 0 then do {
       s \<leftarrow> free_block a s;
       set_job p (\<lambda>j. j\<lparr>j_result := -1, j_error_code := e\<rparr>) s
     } else if link_length < int buffer_size then do {
       buffer \<leftarrow> write_at buffer (nat link_length) [NUL];
       set_job p (\<lambda>j. j\<lparr>j_result := link_length\<rparr>) (s\<lparr>blocks := (blocks s)(a \<mapsto> buffer)\<rparr>)
     } else do {
       s \<leftarrow> free_block a s;
       readlink_loop alloc g readlink_c p (buffer_size * 2) s
     }
   }"

definition worker_readlink :: "(nat \<Rightarrow> (nat \<rightharpoonup> char list) \<Rightarrow> nat) \<Rightarrow> (nat \<Rightarrow> nat \<Rightarrow> char)
    \<Rightarrow> (char list \<Rightarrow> nat \<Rightarrow> ('os, int \<times> char list) syscall) \<Rightarrow> nat \<Rightarrow> (readlink_x, 'os) cst \<Rightarrow> (readlink_x, 'os) cst option" where
  "worker_readlink alloc g readlink_c p s = readlink_loop alloc g readlink_c p 1024 s"

definition result_readlink :: "nat \<Rightarrow> (readlink_x, 'os) cst \<Rightarrow> (caml_value outcome \<times> (readlink_x, 'os) cst) option" where
  [job_defs]: "result_readlink p s = do {
     job \<leftarrow> heap s p;
     LWT_UNIX_CHECK_JOB_ARG p (j_result job < 0) ''readlink'' (job_path job) s (\<lambda>s. do {
       buffer \<leftarrow> blocks s (k_buffer job);
       str \<leftarrow> cstr_at buffer 0;
       s \<leftarrow> free_block (k_buffer job) s;
       free_and_return p (Caml_string str) s
     })
   }"

definition lwt_unix_readlink_job :: "nat \<Rightarrow> job_readlink \<times> (nat \<Rightarrow> char) \<Rightarrow> char list
    \<Rightarrow> (readlink_x, 'os) cst \<Rightarrow> (caml_value \<times> (readlink_x, 'os) cst) option" where
  [job_defs]: "lwt_unix_readlink_job a ug name s = do {
     s \<leftarrow> LWT_UNIX_INIT_JOB_STRING a ''readlink'' 0 name ug s;
     lwt_unix_alloc_job a s
   }"

section \<open>gethostname\<close>

partial_function (option) gethostname_loop :: "(string \<Rightarrow> int) \<Rightarrow> (nat \<Rightarrow> (nat \<rightharpoonup> char list) \<Rightarrow> nat) \<Rightarrow> (nat \<Rightarrow> nat \<Rightarrow> char)
    \<Rightarrow> (nat \<Rightarrow> ('os, int \<times> char list) syscall) \<Rightarrow> nat \<Rightarrow> nat \<Rightarrow> (gethostname_x, 'os) cst \<Rightarrow> (gethostname_x, 'os) cst option" where
  "gethostname_loop K alloc g gethostname_c p buffer_size s = do {
     let a = alloc (buffer_size + 1) (blocks s);
     s \<leftarrow> malloc_block a (uninit (g (buffer_size + 1)) (buffer_size + 1)) s;
     s \<leftarrow> set_job p (\<lambda>j. j\<lparr>h_buffer := a\<rparr>) s;
     let ((err, bs), e, w) = gethostname_c buffer_size (c_errno s) (os s);
     buffer \<leftarrow> blocks s a;
     buffer \<leftarrow> write_at buffer 0 bs;
     let s = s\<lparr>blocks := (blocks s)(a \<mapsto> buffer), c_errno := e, os := w\<rparr>;
     if err = -1 \<and> e = K ''ENAMETOOLONG'' then do {
       s \<leftarrow> free_block a s;
       gethostname_loop K alloc g gethostname_c p (buffer_size * 2) s
     } else if err = -1 then do {
       s \<leftarrow> free_block a s;
       set_job p (\<lambda>j. j\<lparr>j_result := -1, j_error_code := e\<rparr>) s
     } else do {
       buffer \<leftarrow> write_at buffer buffer_size [NUL];
       set_job p (\<lambda>j. j\<lparr>j_result := 0\<rparr>) (s\<lparr>blocks := (blocks s)(a \<mapsto> buffer)\<rparr>)
     }
   }"

definition worker_gethostname :: "(string \<Rightarrow> int) \<Rightarrow> (nat \<Rightarrow> (nat \<rightharpoonup> char list) \<Rightarrow> nat) \<Rightarrow> (nat \<Rightarrow> nat \<Rightarrow> char)
    \<Rightarrow> (nat \<Rightarrow> ('os, int \<times> char list) syscall) \<Rightarrow> nat \<Rightarrow> (gethostname_x, 'os) cst \<Rightarrow> (gethostname_x, 'os) cst option" where
  "worker_gethostname K alloc g gethostname_c p s = gethostname_loop K alloc g gethostname_c p 64 s"

definition result_gethostname :: "nat \<Rightarrow> (gethostname_x, 'os) cst \<Rightarrow> (caml_value outcome \<times> (gethostname_x, 'os) cst) option" where
  [job_defs]: "result_gethostname p s = do {
     job \<leftarrow> heap s p;
     LWT_UNIX_CHECK_JOB p (j_result job < 0) ''gethostname'' s (\<lambda>s. do {
       buffer \<leftarrow> blocks s (h_buffer job);
       str \<leftarrow> cstr_at buffer 0;
       s \<leftarrow> free_block (h_buffer job) s;
       free_and_return p (Caml_string str) s
     })
   }"

definition lwt_unix_gethostname_job :: "nat \<Rightarrow> job_gethostname \<Rightarrow> (gethostname_x, 'os) cst \<Rightarrow> (caml_value \<times> (gethostname_x, 'os) cst) option" where
  [job_defs]: "lwt_unix_gethostname_job a u s = do {
     s \<leftarrow> LWT_UNIX_INIT_JOB a ''gethostname'' u s;
     lwt_unix_alloc_job a s
   }"

section \<open>getcwd\<close>

text \<open>\<^verbatim>\<open>getcwd (buf, n)\<close> returns a null pointer, or \<^verbatim>\<open>buf\<close> after storing some bytes there.\<close>

definition worker_getcwd :: "(nat \<Rightarrow> ('os, char list option) syscall) \<Rightarrow> nat \<Rightarrow> (getcwd_x, 'os) cst \<Rightarrow> (getcwd_x, 'os) cst option" where
  [job_defs]: "worker_getcwd getcwd_c p s = do {
     job \<leftarrow> heap s p;
     let (r, e, w) = getcwd_c (length (c_buf job)) (c_errno s) (os s);
     buf \<leftarrow> (case r of None \<Rightarrow> Some (c_buf job) | Some bs \<Rightarrow> write_at (c_buf job) 0 bs);
     s \<leftarrow> set_job p (\<lambda>j. j\<lparr>c_buf := buf, c_result := map_option (\<lambda>_. 0) r, j_error_code := e\<rparr>) s;
     Some (s\<lparr>c_errno := e, os := w\<rparr>)
   }"

definition result_getcwd :: "nat \<Rightarrow> (getcwd_x, 'os) cst \<Rightarrow> (caml_value outcome \<times> (getcwd_x, 'os) cst) option" where
  [job_defs]: "result_getcwd p s = do {
     job \<leftarrow> heap s p;
     LWT_UNIX_CHECK_JOB p (c_result job = None) ''getcwd'' s (\<lambda>s. do {
       off \<leftarrow> c_result job;
       str \<leftarrow> cstr_at (c_buf job) off;
       free_and_return p (Caml_string str) s
     })
   }"

definition lwt_unix_getcwd_job :: "nat \<Rightarrow> job_getcwd \<times> (nat \<Rightarrow> char) \<Rightarrow> (getcwd_x, 'os) cst \<Rightarrow> (caml_value \<times> (getcwd_x, 'os) cst) option" where
  [job_defs]: "lwt_unix_getcwd_job a ug s = do {
     s \<leftarrow> LWT_UNIX_INIT_JOB a ''getcwd'' ((fst ug)\<lparr>c_buf := uninit (snd ug) 4096\<rparr>) s;
     lwt_unix_alloc_job a s
   }"

section \<open>getlogin\<close>

definition worker_getlogin :: "(nat \<Rightarrow> ('os, int \<times> char list) syscall) \<Rightarrow> nat \<Rightarrow> (getlogin_x, 'os) cst \<Rightarrow> (getlogin_x, 'os) cst option" where
  [job_defs]: "worker_getlogin getlogin_r p s = do {
     job \<leftarrow> heap s p;
     let ((r, bs), e, w) = getlogin_r 1024 (c_errno s) (os s);
     buffer \<leftarrow> write_at (l_buffer job) 0 bs;
     s \<leftarrow> set_job p (\<lambda>j. j\<lparr>l_buffer := buffer, l_result := r\<rparr>) s;
     Some (s\<lparr>c_errno := e, os := w\<rparr>)
   }"

definition result_getlogin :: "nat \<Rightarrow> (getlogin_x, 'os) cst \<Rightarrow> (caml_value outcome \<times> (getlogin_x, 'os) cst) option" where
  [job_defs]: "result_getlogin p s = do {
     job \<leftarrow> heap s p;
     let result = l_result job;
     if result \<noteq> 0 then do {
       s \<leftarrow> free_job p s;
       Some (Raise (Unix_error result ''getlogin'' Nothing), s)
     } else do {
       str \<leftarrow> cstr_at (l_buffer job) 0;
       free_and_return p (Caml_string str) s
     }
   }"

definition lwt_unix_getlogin_job :: "nat \<Rightarrow> job_getlogin \<times> (nat \<Rightarrow> char) \<Rightarrow> (getlogin_x, 'os) cst \<Rightarrow> (caml_value \<times> (getlogin_x, 'os) cst) option" where
  [job_defs]: "lwt_unix_getlogin_job a ug s = do {
     s \<leftarrow> LWT_UNIX_INIT_JOB a ''getlogin'' ((fst ug)\<lparr>l_buffer := uninit (snd ug) 1024\<rparr>) s;
     lwt_unix_alloc_job a s
   }"

section \<open>The loops end\<close>

text \<open>
  \<^verbatim>\<open>readlink (name, buf, n)\<close> stores as many bytes of the link as fit and returns their number; \<open>lnk\<close> says what the
  link holds in a state of the world, \<open>None\<close> when it cannot be read.
\<close>

definition readlink_ok :: "(char list \<Rightarrow> nat \<Rightarrow> ('os, int \<times> char list) syscall) \<Rightarrow> char list \<Rightarrow> ('os \<Rightarrow> char list option) \<Rightarrow> bool" where
  "readlink_ok readlink_c name lnk \<longleftrightarrow> (\<forall>n e w. case readlink_c name n e w of ((r, bs), e', w') \<Rightarrow> lnk w' = lnk w \<and>
     (case lnk w of None \<Rightarrow> r = -1 \<and> bs = [] | Some t \<Rightarrow> r = int (min (length t) n) \<and> bs = take n t))"

text \<open>
  \<^verbatim>\<open>gethostname (buf, n)\<close> stores the name with its NUL byte when it fits, and fails with \<^verbatim>\<open>ENAMETOOLONG\<close> otherwise, or fails
  for another reason; \<open>host\<close> is the name.
\<close>

definition gethostname_ok :: "(string \<Rightarrow> int) \<Rightarrow> (nat \<Rightarrow> ('os, int \<times> char list) syscall) \<Rightarrow> char list \<Rightarrow> bool" where
  "gethostname_ok K gethostname_c host \<longleftrightarrow> (\<forall>n e w. case gethostname_c n e w of ((r, bs), e', w') \<Rightarrow>
     if length host < n then r = 0 \<and> bs = host @ [NUL] else r = -1 \<and> e' = K ''ENAMETOOLONG'' \<and> length bs \<le> n)"

lemma readlink_okD:
  assumes "readlink_ok readlink_c nm lnk" and "readlink_c nm n e w = ((r, bs), e', w')"
  shows "lnk w' = lnk w" "case lnk w of None \<Rightarrow> r = -1 \<and> bs = [] | Some t \<Rightarrow> r = int (min (length t) n) \<and> bs = take n t"
proof -
  have "case readlink_c nm n e w of ((r, bs), e', w') \<Rightarrow> lnk w' = lnk w \<and>
     (case lnk w of None \<Rightarrow> r = -1 \<and> bs = [] | Some t \<Rightarrow> r = int (min (length t) n) \<and> bs = take n t)"
    by (rule assms(1) [unfolded readlink_ok_def, THEN spec, THEN spec, THEN spec])
  then show "lnk w' = lnk w" "case lnk w of None \<Rightarrow> r = -1 \<and> bs = [] | Some t \<Rightarrow> r = int (min (length t) n) \<and> bs = take n t"
    using assms(2) by simp_all
qed

lemma cstr_at_nul: "cstr_at (t @ NUL # ys) 0 = Some (cstring t)"
  by (simp add: cstr_at_def takeWhile_snoc_nul)

lemma readlink_loop_found:
  assumes "readlink_ok readlink_c nm lnk" and "heap s p = Some job" and "job_path job = Some nm" and "lnk (os s) = Some t"
    and "\<forall>n. blocks s (alloc n (blocks s)) = None" and "0 < sz"
  shows "\<exists>a d e w. readlink_loop alloc g readlink_c p sz s =
      Some (s\<lparr>heap := (heap s)(p \<mapsto> job\<lparr>k_buffer := a, j_result := int (length t)\<rparr>), blocks := (blocks s)(a \<mapsto> d), c_errno := e, os := w\<rparr>) \<and>
      blocks s a = None \<and> cstr_at d 0 = Some (cstring t) \<and> lnk w = Some t"
  using assms
proof (induction "length t + 1 - sz" arbitrary: sz s job rule: less_induct)
  case less
  let ?a = "alloc (sz + 1) (blocks s)"
  let ?u = "uninit (g (sz + 1)) (sz + 1)"
  obtain r bs e w where r: "readlink_c nm sz (c_errno s) (os s) = ((r, bs), e, w)" by (metis prod_cases3 surj_pair)
  have k: "lnk w = Some t" "r = int (min (length t) sz)" "bs = take sz t"
    using readlink_okD [OF less.prems(1) r] less.prems(4) by simp_all
  have fresh: "blocks s ?a = None" using less.prems(5) by blast
  let ?job = "job\<lparr>k_buffer := ?a\<rparr>"
  have jp: "job_path ?job = Some nm" using less.prems(3) by (simp add: job_path_def)
  show ?case
  proof (cases "length t < sz")
    case True
    then have "write_at (take 0 ?u @ t @ drop (0 + length t) ?u) (length t) [NUL] = Some (t @ NUL # drop (Suc (length t)) ?u)"
      by simp
    with True r k fresh less.prems(2) jp show ?thesis
      by (subst readlink_loop.simps)
        (auto simp: Let_def cstr_at_nul intro!: exI [of _ ?a] exI [of _ "t @ NUL # drop (Suc (length t)) ?u"] exI [of _ e] exI [of _ w])
  next
    case False
    let ?s = "s\<lparr>heap := (heap s)(p \<mapsto> ?job), c_errno := e, os := w\<rparr>"
    have "readlink_loop alloc g readlink_c p sz s = readlink_loop alloc g readlink_c p (sz * 2) ?s"
      using False r k fresh less.prems(2) jp by (subst readlink_loop.simps) (cases s, simp add: Let_def fun_upd_idem)
    moreover have "\<exists>a d e w. readlink_loop alloc g readlink_c p (sz * 2) ?s =
        Some (?s\<lparr>heap := (heap ?s)(p \<mapsto> ?job\<lparr>k_buffer := a, j_result := int (length t)\<rparr>), blocks := (blocks ?s)(a \<mapsto> d), c_errno := e, os := w\<rparr>) \<and>
        blocks ?s a = None \<and> cstr_at d 0 = Some (cstring t) \<and> lnk w = Some t"
      by (rule less.hyps) (use False less.prems k jp in auto)
    ultimately show ?thesis by (cases s) simp
  qed
qed

lemma readlink_loop_missing:
  assumes "readlink_ok readlink_c nm lnk" and "heap s p = Some job" and "job_path job = Some nm" and "lnk (os s) = None"
    and "\<forall>n. blocks s (alloc n (blocks s)) = None" and r: "readlink_c nm sz (c_errno s) (os s) = (x, e, w)"
  shows "\<exists>a. readlink_loop alloc g readlink_c p sz s =
      Some (s\<lparr>heap := (heap s)(p \<mapsto> job\<lparr>k_buffer := a, j_result := -1, j_error_code := e\<rparr>), c_errno := e, os := w\<rparr>) \<and> lnk w = None"
proof -
  obtain r bs where x: "x = (r, bs)" by fastforce
  have k: "lnk w = None" "r = -1" "bs = []" using readlink_okD [OF assms(1) r [unfolded x]] assms(4) by simp_all
  let ?a = "alloc (sz + 1) (blocks s)"
  have "job_path (job\<lparr>k_buffer := ?a\<rparr>) = Some nm" using assms(3) by (simp add: job_path_def)
  moreover have "blocks s ?a = None" using assms(5) by blast
  ultimately show ?thesis using r x k assms(2)
    by (subst readlink_loop.simps) (cases s, auto simp: Let_def fun_upd_idem intro!: exI [of _ ?a])
qed

lemma gethostname_okD:
  assumes "gethostname_ok K gethostname_c host" and "gethostname_c n e w = ((r, bs), e', w')"
  shows "if length host < n then r = 0 \<and> bs = host @ [NUL] else r = -1 \<and> e' = K ''ENAMETOOLONG'' \<and> length bs \<le> n"
proof -
  have "case gethostname_c n e w of ((r, bs), e', w') \<Rightarrow>
     if length host < n then r = 0 \<and> bs = host @ [NUL] else r = -1 \<and> e' = K ''ENAMETOOLONG'' \<and> length bs \<le> n"
    by (rule assms(1) [unfolded gethostname_ok_def, THEN spec, THEN spec, THEN spec])
  with assms(2) show ?thesis by simp
qed

lemma gethostname_loop_found:
  assumes "gethostname_ok K gethostname_c host" and "heap s p = Some job"
    and "\<forall>n. blocks s (alloc n (blocks s)) = None" and "0 < sz"
  shows "\<exists>a d e w. gethostname_loop K alloc g gethostname_c p sz s =
      Some (s\<lparr>heap := (heap s)(p \<mapsto> job\<lparr>h_buffer := a, j_result := 0\<rparr>), blocks := (blocks s)(a \<mapsto> d), c_errno := e, os := w\<rparr>) \<and>
      blocks s a = None \<and> cstr_at d 0 = Some (cstring host)"
  using assms
proof (induction "length host + 1 - sz" arbitrary: sz s job rule: less_induct)
  case less
  let ?a = "alloc (sz + 1) (blocks s)"
  let ?u = "uninit (g (sz + 1)) (sz + 1)"
  obtain r bs e w where r: "gethostname_c sz (c_errno s) (os s) = ((r, bs), e, w)" by (metis prod_cases3 surj_pair)
  note k = gethostname_okD [OF less.prems(1) r]
  have fresh: "blocks s ?a = None" using less.prems(3) by blast
  let ?job = "job\<lparr>h_buffer := ?a\<rparr>"
  show ?case
  proof (cases "length host < sz")
    case True
    let ?d = "host @ NUL # take (sz - Suc (length host)) (drop (Suc (length host)) ?u) @ [NUL]"
    have "write_at (host @ NUL # drop (Suc (length host)) ?u) sz [NUL] = Some ?d"
      using True by (auto simp: write_at_def take_Cons')
    with True r k fresh less.prems(2) show ?thesis
      by (subst gethostname_loop.simps)
        (auto simp: Let_def cstr_at_nul intro!: exI [of _ ?a] exI [of _ ?d] exI [of _ e] exI [of _ w])
  next
    case False
    let ?s = "s\<lparr>heap := (heap s)(p \<mapsto> ?job), c_errno := e, os := w\<rparr>"
    have "gethostname_loop K alloc g gethostname_c p sz s = gethostname_loop K alloc g gethostname_c p (sz * 2) ?s"
      using False r k fresh less.prems(2) by (subst gethostname_loop.simps) (cases s, simp add: Let_def fun_upd_idem)
    moreover have "\<exists>a d e w. gethostname_loop K alloc g gethostname_c p (sz * 2) ?s =
        Some (?s\<lparr>heap := (heap ?s)(p \<mapsto> ?job\<lparr>h_buffer := a, j_result := 0\<rparr>), blocks := (blocks ?s)(a \<mapsto> d), c_errno := e, os := w\<rparr>) \<and>
        blocks ?s a = None \<and> cstr_at d 0 = Some (cstring host)"
      by (rule less.hyps) (use False less.prems in auto)
    ultimately show ?thesis by (cases s) simp
  qed
qed

section \<open>The jobs\<close>

text \<open>\<^verbatim>\<open>getcwd\<close> and \<^verbatim>\<open>getlogin_r\<close> store a C string that fits into the buffer they are given.\<close>

definition getcwd_ok :: "(nat \<Rightarrow> ('os, char list option) syscall) \<Rightarrow> bool" where
  "getcwd_ok getcwd_c \<longleftrightarrow> (\<forall>n e w. case getcwd_c n e w of (None, _) \<Rightarrow> True | (Some bs, _) \<Rightarrow> NUL \<in> set bs \<and> length bs \<le> n)"

definition getlogin_ok :: "(nat \<Rightarrow> ('os, int \<times> char list) syscall) \<Rightarrow> bool" where
  "getlogin_ok getlogin_r \<longleftrightarrow> (\<forall>n e w. case getlogin_r n e w of ((r, bs), _) \<Rightarrow> length bs \<le> n \<and> (r = 0 \<longrightarrow> NUL \<in> set bs))"

lemma getcwd_job_run:
  assumes "heap s a = None" and "getcwd_ok getcwd_c" and r: "getcwd_c 4096 (c_errno s) (os s) = (r, e, w)"
  shows "job_run am e' (lwt_unix_getcwd_job a ug) [''worker_getcwd'' \<mapsto> worker_getcwd getcwd_c] [''result_getcwd'' \<mapsto> result_getcwd] s =
    Some (case r of None \<Rightarrow> Raise (Unix_error e ''getcwd'' Nothing) | Some bs \<Rightarrow> Ret (Caml_string (cstring bs)), s\<lparr>c_errno := e', os := w\<rparr>)"
proof (cases r)
  case None
  with assms show ?thesis by (cases s) (simp add: io_defs job_defs fun_upd_idem)
next
  case (Some bs)
  have "case getcwd_c 4096 (c_errno s) (os s) of (None, _) \<Rightarrow> True | (Some bs, _) \<Rightarrow> NUL \<in> set bs \<and> length bs \<le> 4096"
    by (rule assms(2) [unfolded getcwd_ok_def, THEN spec, THEN spec, THEN spec])
  then have "NUL \<in> set bs" "length bs \<le> 4096" using r Some by simp_all
  with Some assms show ?thesis by (cases s) (simp add: io_defs job_defs cstr_at_prefix fun_upd_idem)
qed

lemma getlogin_job_run:
  assumes "heap s a = None" and "getlogin_ok getlogin_r" and r: "getlogin_r 1024 (c_errno s) (os s) = ((r, bs), e, w)"
  shows "job_run am e' (lwt_unix_getlogin_job a ug) [''worker_getlogin'' \<mapsto> worker_getlogin getlogin_r] [''result_getlogin'' \<mapsto> result_getlogin] s =
    Some (if r \<noteq> 0 then Raise (Unix_error r ''getlogin'' Nothing) else Ret (Caml_string (cstring bs)), s\<lparr>c_errno := e', os := w\<rparr>)"
proof -
  have "case getlogin_r 1024 (c_errno s) (os s) of ((r, bs), _) \<Rightarrow> length bs \<le> 1024 \<and> (r = 0 \<longrightarrow> NUL \<in> set bs)"
    by (rule assms(2) [unfolded getlogin_ok_def, THEN spec, THEN spec, THEN spec])
  then have "length bs \<le> 1024" "r = 0 \<longrightarrow> NUL \<in> set bs" using r by simp_all
  with assms show ?thesis by (cases s) (auto simp: io_defs job_defs cstr_at_prefix fun_upd_idem)
qed

lemma gethostname_job_run:
  assumes "heap s a = None" and "gethostname_ok K gethostname_c host" and "\<forall>n. blocks s (alloc n (blocks s)) = None"
  shows "\<exists>w. job_run am e' (lwt_unix_gethostname_job a u) [''worker_gethostname'' \<mapsto> worker_gethostname K alloc g gethostname_c]
      [''result_gethostname'' \<mapsto> result_gethostname] s = Some (Ret (Caml_string (cstring host)), s\<lparr>c_errno := e', os := w\<rparr>)"
proof -
  let ?u = "u\<lparr>worker_fn := ''worker_gethostname'', result_fn := ''result_gethostname''\<rparr>"
  let ?j = "?u\<lparr>async_method := am, job_mutex := start_mutex am ?u\<rparr>"
  let ?s = "s\<lparr>heap := (heap s)(a \<mapsto> ?j)\<rparr>"
  obtain b d e w where l: "gethostname_loop K alloc g gethostname_c a 64 ?s =
      Some (?s\<lparr>heap := (heap ?s)(a \<mapsto> ?j\<lparr>h_buffer := b, j_result := 0\<rparr>), blocks := (blocks ?s)(b \<mapsto> d), c_errno := e, os := w\<rparr>)"
      "blocks ?s b = None" "cstr_at d 0 = Some (cstring host)"
    using gethostname_loop_found [OF assms(2), of ?s a ?j alloc 64 g] assms(3) by auto
  let ?v = "s\<lparr>heap := (heap s)(a \<mapsto> ?j\<lparr>h_buffer := b, j_result := 0\<rparr>), blocks := (blocks s)(b \<mapsto> d), c_errno := e, os := w\<rparr>"
  have "job_run am e' (lwt_unix_gethostname_job a u) [''worker_gethostname'' \<mapsto> worker_gethostname K alloc g gethostname_c]
      [''result_gethostname'' \<mapsto> result_gethostname] s = result_gethostname a (?v\<lparr>c_errno := e'\<rparr>)"
    by (rule job_run_phases [of _ _ _ "s\<lparr>heap := (heap s)(a \<mapsto> ?u)\<rparr>" ?u _ "worker_gethostname K alloc g gethostname_c"
        _ ?v "?j\<lparr>h_buffer := b, j_result := 0\<rparr>"])
      (use assms(1) l(1) in \<open>simp_all add: lwt_unix_gethostname_job_def lwt_unix_alloc_job_def worker_gethostname_def\<close>)
  moreover have "freeable (?j\<lparr>h_buffer := b, j_result := 0\<rparr>)" by (rule freeable_started) simp_all
  ultimately show ?thesis using assms(1) l(2,3)
    by (cases s) (simp add: result_gethostname_def LWT_UNIX_CHECK_JOB_def free_and_return_def fun_upd_idem)
qed

lemma readlink_job_run:
  assumes "heap s a = None" and ok: "readlink_ok readlink_c (cstring name) lnk" and fresh: "\<forall>n. blocks s (alloc n (blocks s)) = None"
  shows "\<exists>w. job_run am e' (lwt_unix_readlink_job a ug name) [''worker_readlink'' \<mapsto> worker_readlink alloc g readlink_c]
      [''result_readlink'' \<mapsto> result_readlink] s =
    Some (case lnk (os s) of None \<Rightarrow> Raise (Unix_error (fst (snd (readlink_c (cstring name) 1024 (c_errno s) (os s)))) ''readlink'' (Caml_string (cstring name)))
          | Some t \<Rightarrow> Ret (Caml_string (cstring t)), s\<lparr>c_errno := e', os := w\<rparr>) \<and> lnk w = lnk (os s)"
proof -
  let ?u = "string_job ''readlink'' 0 name ug"
  let ?j = "?u\<lparr>async_method := am, job_mutex := start_mutex am ?u\<rparr>"
  let ?s = "s\<lparr>heap := (heap s)(a \<mapsto> ?j)\<rparr>"
  have j: "job_path ?j = Some (cstring name)" by simp
  note phases = job_run_phases [of "lwt_unix_readlink_job a ug name" s a "s\<lparr>heap := (heap s)(a \<mapsto> ?u)\<rparr>" ?u
        "[''worker_readlink'' \<mapsto> worker_readlink alloc g readlink_c]" "worker_readlink alloc g readlink_c" am
        _ _ "[''result_readlink'' \<mapsto> result_readlink]" result_readlink]
  have stub: "lwt_unix_readlink_job a ug name s = Some (Caml_ptr (Some a), s\<lparr>heap := (heap s)(a \<mapsto> ?u)\<rparr>)"
    using assms(1) by (simp add: lwt_unix_readlink_job_def lwt_unix_alloc_job_def)
  show ?thesis
  proof (cases "lnk (os s)")
    case (Some t)
    obtain b d e w where l: "readlink_loop alloc g readlink_c a 1024 ?s =
        Some (?s\<lparr>heap := (heap ?s)(a \<mapsto> ?j\<lparr>k_buffer := b, j_result := int (length t)\<rparr>), blocks := (blocks ?s)(b \<mapsto> d), c_errno := e, os := w\<rparr>)"
        "blocks ?s b = None" "cstr_at d 0 = Some (cstring t)" "lnk w = Some t"
      using readlink_loop_found [OF ok, of ?s a ?j t alloc 1024 g] j fresh Some by auto
    have f: "freeable (?j\<lparr>k_buffer := b, j_result := int (length t)\<rparr>)" by (rule freeable_started) simp_all
    show ?thesis
      using Some assms(1) l stub f
      by (subst phases [where v = "s\<lparr>heap := (heap s)(a \<mapsto> ?j\<lparr>k_buffer := b, j_result := int (length t)\<rparr>), blocks := (blocks s)(b \<mapsto> d), c_errno := e, os := w\<rparr>"
            and k = "?j\<lparr>k_buffer := b, j_result := int (length t)\<rparr>"])
        (cases s, auto simp: worker_readlink_def result_readlink_def LWT_UNIX_CHECK_JOB_ARG_def free_and_return_def fun_upd_idem intro!: exI [of _ w])
  next
    case None
    obtain x e w where x: "readlink_c (cstring name) 1024 (c_errno s) (os s) = (x, e, w)" by (metis prod_cases3)
    obtain b where l: "readlink_loop alloc g readlink_c a 1024 ?s =
        Some (?s\<lparr>heap := (heap ?s)(a \<mapsto> ?j\<lparr>k_buffer := b, j_result := -1, j_error_code := e\<rparr>), c_errno := e, os := w\<rparr>)" "lnk w = None"
      using readlink_loop_missing [OF ok, of ?s a ?j alloc 1024 x e w g] j fresh None x by auto
    have f: "freeable (?j\<lparr>k_buffer := b, j_result := -1, j_error_code := e\<rparr>)" by (rule freeable_started) simp_all
    have p: "job_path (?j\<lparr>k_buffer := b, j_result := -1, j_error_code := e\<rparr>) = Some (cstring name)" using j by (simp add: job_path_def)
    show ?thesis
      using None assms(1) l stub f p x
      by (subst phases [where v = "s\<lparr>heap := (heap s)(a \<mapsto> ?j\<lparr>k_buffer := b, j_result := -1, j_error_code := e\<rparr>), c_errno := e, os := w\<rparr>"
            and k = "?j\<lparr>k_buffer := b, j_result := -1, j_error_code := e\<rparr>"])
        (cases s, auto simp: worker_readlink_def result_readlink_def LWT_UNIX_CHECK_JOB_ARG_def caml_copy_string_def fun_upd_idem intro!: exI [of _ w])
  qed
qed

section \<open>Properties\<close>

definition demo_job_header :: lwt_unix_job where
  "demo_job_header = \<lparr>next_job = None, notification_id = 0, worker_fn = [], result_fn = [], job_state = LWT_UNIX_JOB_STATE_DONE,
     fast = 5, job_mutex = Mutex_held, async_method = LWT_UNIX_ASYNC_METHOD_SWITCH\<rparr>"

definition demo_readlink_job :: job_readlink where
  "demo_readlink_job = lwt_unix_job.extend demo_job_header \<lparr>j_result = 3, j_error_code = 4, j_path = 5, j_data = [], k_buffer = 6\<rparr>"

definition demo_gethostname_job :: job_gethostname where
  "demo_gethostname_job = lwt_unix_job.extend demo_job_header \<lparr>j_result = 3, j_error_code = 4, h_buffer = 6\<rparr>"

text \<open>
  C22. Reading a symbolic link. For a link of any length, the loop of \<^verbatim>\<open>worker_readlink\<close> ends and the job returns the whole
  content of the link, never a truncated one; when the link cannot be read it raises the error of \<^verbatim>\<open>readlink\<close> with the path. All
  the buffers it tried are freed.
\<close>

theorem readlink_job_correct:
  assumes "heap s a = None" and "readlink_ok readlink_c (cstring name) lnk" and "\<forall>n. blocks s (alloc n (blocks s)) = None"
  shows "\<exists>w. job_run am e' (lwt_unix_readlink_job a ug name) [''worker_readlink'' \<mapsto> worker_readlink alloc g readlink_c]
      [''result_readlink'' \<mapsto> result_readlink] s =
    Some (case lnk (os s) of None \<Rightarrow> Raise (Unix_error (fst (snd (readlink_c (cstring name) 1024 (c_errno s) (os s)))) ''readlink'' (Caml_string (cstring name)))
          | Some t \<Rightarrow> Ret (Caml_string (cstring t)), s\<lparr>c_errno := e', os := w\<rparr>) \<and> lnk w = lnk (os s)"
  using assms by (rule readlink_job_run)

theorem readlink_job_correct_witness:
  "\<exists>w. job_run LWT_UNIX_ASYNC_METHOD_DETACH 0 (lwt_unix_readlink_job 1 (demo_readlink_job, \<lambda>_. CHR ''x'') ''l'')
      [''worker_readlink'' \<mapsto> worker_readlink (\<lambda>n B. 7) (\<lambda>n i. CHR ''x'')
        (\<lambda>nm n e w. ((int (min 3000 n), take n (replicate 3000 CHR ''a'')), e, Suc w))]
      [''result_readlink'' \<mapsto> result_readlink] demo_io =
    Some (Ret (Caml_string (replicate 3000 CHR ''a'')), demo_io\<lparr>os := w\<rparr>)"
proof -
  have c: "cstring (replicate 3000 CHR ''a'') = replicate 3000 CHR ''a''" by (rule cstring_id) (simp add: NUL_def)
  have e: "demo_io\<lparr>c_errno := 0, os := w\<rparr> = (demo_io\<lparr>os := w\<rparr> :: ('x, nat) cst)" for w by (simp add: demo_io_def)
  show ?thesis
    using readlink_job_correct [of demo_io 1 "\<lambda>nm n e w. ((int (min 3000 n), take n (replicate 3000 CHR ''a'')), e, Suc w)" "''l''"
        "\<lambda>_. Some (replicate 3000 CHR ''a'')" "\<lambda>n B. 7" LWT_UNIX_ASYNC_METHOD_DETACH 0 "(demo_readlink_job, \<lambda>_. CHR ''x'')" "\<lambda>n i. CHR ''x''"]
    by (auto simp: readlink_ok_def c e) (auto simp: demo_io_def)
qed

text \<open>
  Names from the system. For a host name of any length, the loop of \<^verbatim>\<open>worker_gethostname\<close> ends and the job returns
  the whole name; \<^verbatim>\<open>getcwd\<close> and \<^verbatim>\<open>getlogin\<close> return the string that the system stored or raise its error. None of them reads
  uninitialised memory or leaves memory behind.
\<close>

theorem name_jobs_correct:
  assumes "heap s a = None" and "gethostname_ok K gethostname_c host" and "\<forall>n. blocks s (alloc n (blocks s)) = None"
    and "heap t a = None" and "getcwd_ok getcwd_c" and "getcwd_c 4096 (c_errno t) (os t) = (r, e, w)"
    and "heap v a = None" and "getlogin_ok getlogin_r" and "getlogin_r 1024 (c_errno v) (os v) = ((r', bs), f, x)"
  shows
    "(\<exists>w. job_run am e' (lwt_unix_gethostname_job a u) [''worker_gethostname'' \<mapsto> worker_gethostname K alloc g gethostname_c]
       [''result_gethostname'' \<mapsto> result_gethostname] s = Some (Ret (Caml_string (cstring host)), s\<lparr>c_errno := e', os := w\<rparr>)) \<and>
     job_run am e' (lwt_unix_getcwd_job a ug) [''worker_getcwd'' \<mapsto> worker_getcwd getcwd_c] [''result_getcwd'' \<mapsto> result_getcwd] t =
       Some (case r of None \<Rightarrow> Raise (Unix_error e ''getcwd'' Nothing) | Some bs \<Rightarrow> Ret (Caml_string (cstring bs)), t\<lparr>c_errno := e', os := w\<rparr>) \<and>
     job_run am e' (lwt_unix_getlogin_job a ul) [''worker_getlogin'' \<mapsto> worker_getlogin getlogin_r] [''result_getlogin'' \<mapsto> result_getlogin] v =
       Some (if r' \<noteq> 0 then Raise (Unix_error r' ''getlogin'' Nothing) else Ret (Caml_string (cstring bs)), v\<lparr>c_errno := e', os := x\<rparr>)"
  using gethostname_job_run [where alloc = alloc, OF assms(1-3)] getcwd_job_run [OF assms(4-6)] getlogin_job_run [OF assms(7-9)] by (intro conjI)

theorem name_jobs_correct_witness:
  "\<exists>w. job_run LWT_UNIX_ASYNC_METHOD_NONE 0 (lwt_unix_gethostname_job 1 demo_gethostname_job)
      [''worker_gethostname'' \<mapsto> worker_gethostname (\<lambda>_. 36) (\<lambda>n B. 7) (\<lambda>n i. CHR ''x'')
         (\<lambda>n e w. if 100 < n then ((0, replicate 100 CHR ''h'' @ [NUL]), e, w) else ((-1, []), 36, Suc w))]
      [''result_gethostname'' \<mapsto> result_gethostname] demo_io = Some (Ret (Caml_string (replicate 100 CHR ''h'')), demo_io\<lparr>os := w\<rparr>)"
proof -
  have c: "cstring (replicate 100 CHR ''h'') = replicate 100 CHR ''h''" by (rule cstring_id) (simp add: NUL_def)
  have e: "demo_io\<lparr>c_errno := 0, os := w\<rparr> = (demo_io\<lparr>os := w\<rparr> :: ('x, nat) cst)" for w by (simp add: demo_io_def)
  show ?thesis
    using name_jobs_correct [of demo_io 1 "\<lambda>_. 36" "\<lambda>n e w. if 100 < n then ((0, replicate 100 CHR ''h'' @ [NUL]), e, w) else ((-1, []), 36, Suc w)"
        "replicate 100 CHR ''h''" "\<lambda>n B. 7" demo_io "\<lambda>n e w. (None, e, w)" None 0 0 demo_io "\<lambda>n e w. ((1, []), e, w)" 1 "[]" 0 0
        LWT_UNIX_ASYNC_METHOD_NONE 0 demo_gethostname_job "\<lambda>n i. CHR ''x''", THEN conjunct1]
    by (auto simp: gethostname_ok_def getcwd_ok_def getlogin_ok_def c e) (auto simp: demo_io_def)
qed

end
