(* ===== verification/Dir_Jobs.thy ===== *)
theory Dir_Jobs
  imports Io_Jobs
begin

text \<open>
  Reading directories: \<^verbatim>\<open>unix_readdir_job.c\<close>, one entry at a time, and \<^verbatim>\<open>unix_readdir_n_job.c\<close>, up to a given number of
  entries, whose names are copied to blocks from \<^verbatim>\<open>strdup\<close> in the worker thread and to OCaml strings in the main thread.

  \<open>readdir_c d\<close> is the call \<^verbatim>\<open>readdir\<close>: the name of the next entry, or \<open>None\<close>. \<open>alloc n B\<close> is the address that \<^verbatim>\<open>strdup\<close> returns for a
  string of \<open>n\<close> bytes when the blocks \<open>B\<close> are in use, \<open>None\<close> when there is no memory. In the structure of \<^verbatim>\<open>readdir\<close> the result is a
  pointer to the entry, and the field \<open>j_result\<close> of the common part is not used.
\<close>

section \<open>readdir\<close>

record job_readdir = sysjob +
  d_dir :: nat
  d_entry :: "char list option"

record job_readdir_n = lwt_unix_job +
  n_dir :: nat
  n_count :: int
  n_error_code :: int
  n_entries :: "nat list"

type_synonym readdir_x = "unit job_readdir_ext sys_x"
type_synonym readdir_n_x = "unit job_readdir_n_ext"

definition worker_readdir :: "(nat \<Rightarrow> ('os, char list option) syscall) \<Rightarrow> nat \<Rightarrow> (readdir_x, 'os) cst \<Rightarrow> (readdir_x, 'os) cst option" where
  [job_defs]: "worker_readdir readdir_c p s = do {
     job \<leftarrow> heap s p;
     let (r, e, w) = readdir_c (d_dir job) 0 (os s);
     s \<leftarrow> set_job p (\<lambda>j. j\<lparr>d_entry := r, j_error_code := e\<rparr>) s;
     Some (s\<lparr>c_errno := e, os := w\<rparr>)
   }"

definition result_readdir :: "nat \<Rightarrow> (readdir_x, 'os) cst \<Rightarrow> (caml_value outcome \<times> (readdir_x, 'os) cst) option" where
  [job_defs]: "result_readdir p s = do {
     job \<leftarrow> heap s p;
     LWT_UNIX_CHECK_JOB p (d_entry job = None \<and> j_error_code job \<noteq> 0) ''readdir'' s (\<lambda>s.
       case d_entry job of
         None \<Rightarrow> do { s \<leftarrow> free_job p s; Some (Raise End_of_file, s) }
       | Some d_name \<Rightarrow> free_and_return p (caml_copy_string d_name) s)
   }"

definition lwt_unix_readdir_job :: "nat \<Rightarrow> job_readdir \<Rightarrow> nat \<Rightarrow> (readdir_x, 'os) cst \<Rightarrow> (caml_value \<times> (readdir_x, 'os) cst) option" where
  [job_defs]: "lwt_unix_readdir_job a u dir s = do {
     s \<leftarrow> LWT_UNIX_INIT_JOB a ''readdir'' u s;
     s \<leftarrow> set_job a (\<lambda>j. j\<lparr>d_dir := dir\<rparr>) s;
     lwt_unix_alloc_job a s
   }"

section \<open>readdir_n\<close>

text \<open>The loop from index \<open>i\<close>, with \<open>k\<close> more entries to read at most; storing an entry outside the array fails.\<close>

fun readdir_n_loop :: "(string \<Rightarrow> int) \<Rightarrow> (nat \<Rightarrow> (nat \<rightharpoonup> char list) \<Rightarrow> nat option) \<Rightarrow> (nat \<Rightarrow> ('os, char list option) syscall) \<Rightarrow> nat
    \<Rightarrow> nat \<Rightarrow> nat \<Rightarrow> (readdir_n_x, 'os) cst \<Rightarrow> (readdir_n_x, 'os) cst option" where
  "readdir_n_loop K alloc readdir_c p i 0 s = set_job p (\<lambda>j. j\<lparr>n_count := int i, n_error_code := 0\<rparr>) s"
| "readdir_n_loop K alloc readdir_c p i (Suc k) s = do {
     job \<leftarrow> heap s p;
     let (entry, e, w) = readdir_c (n_dir job) 0 (os s);
     let s = s\<lparr>c_errno := e, os := w\<rparr>;
     case entry of
       None \<Rightarrow>
         if e \<noteq> 0 then set_job p (\<lambda>j. j\<lparr>n_count := int i, n_error_code := e\<rparr>) s
         else set_job p (\<lambda>j. j\<lparr>n_count := int i, n_error_code := 0\<rparr>) s
     | Some d_name \<Rightarrow>
         (case alloc (length d_name + 1) (blocks s) of
            None \<Rightarrow> set_job p (\<lambda>j. j\<lparr>n_count := int i, n_error_code := K ''ENOMEM''\<rparr>) (s\<lparr>c_errno := K ''ENOMEM''\<rparr>)
          | Some name \<Rightarrow> do {
              s \<leftarrow> malloc_block name (d_name @ [NUL]) s;
              job \<leftarrow> heap s p;
              (if i < length (n_entries job) then Some () else None);
              s \<leftarrow> set_job p (\<lambda>j. j\<lparr>n_entries := (n_entries j)[i := name]\<rparr>) s;
              readdir_n_loop K alloc readdir_c p (Suc i) k s
            })
   }"

definition worker_readdir_n :: "(string \<Rightarrow> int) \<Rightarrow> (nat \<Rightarrow> (nat \<rightharpoonup> char list) \<Rightarrow> nat option) \<Rightarrow> (nat \<Rightarrow> ('os, char list option) syscall) \<Rightarrow> nat
    \<Rightarrow> (readdir_n_x, 'os) cst \<Rightarrow> (readdir_n_x, 'os) cst option" where
  "worker_readdir_n K alloc readdir_c p s = do {
     job \<leftarrow> heap s p;
     readdir_n_loop K alloc readdir_c p 0 (nat (n_count job)) s
   }"

text \<open>The loop that copies the entries to OCaml strings.\<close>

fun copy_entries :: "nat list \<Rightarrow> ('x, 'os) cst \<Rightarrow> caml_value list option" where
  "copy_entries [] s = Some []"
| "copy_entries (a # as) s = do { d \<leftarrow> blocks s a; str \<leftarrow> cstr_at d 0; vs \<leftarrow> copy_entries as s; Some (Caml_string str # vs) }"

definition result_readdir_n :: "nat \<Rightarrow> (readdir_n_x, 'os) cst \<Rightarrow> (caml_value outcome \<times> (readdir_n_x, 'os) cst) option" where
  [job_defs]: "result_readdir_n p s = do {
     job \<leftarrow> heap s p;
     (if nat (n_count job) \<le> length (n_entries job) then Some () else None);
     let entries = take (nat (n_count job)) (n_entries job);
     let error_code = n_error_code job;
     if error_code \<noteq> 0 then do {
       s \<leftarrow> iter_opt free_block entries s;
       s \<leftarrow> free_job p s;
       Some (Raise (Unix_error error_code ''readdir'' Nothing), s)
     } else do {
       result \<leftarrow> copy_entries entries s;
       s \<leftarrow> iter_opt free_block entries s;
       free_and_return p (Block 0 result) s
     }
   }"

definition lwt_unix_readdir_n_job :: "nat \<Rightarrow> job_readdir_n \<times> (nat \<Rightarrow> nat) \<Rightarrow> nat \<Rightarrow> int \<Rightarrow> (readdir_n_x, 'os) cst
    \<Rightarrow> (caml_value \<times> (readdir_n_x, 'os) cst) option" where
  [job_defs]: "lwt_unix_readdir_n_job a ug dir count s = do {
     s \<leftarrow> LWT_UNIX_INIT_JOB a ''readdir_n'' ((fst ug)\<lparr>n_entries := map (snd ug) [0..<nat count]\<rparr>) s;
     s \<leftarrow> set_job a (\<lambda>j. j\<lparr>n_dir := dir, n_count := count\<rparr>) s;
     lwt_unix_alloc_job a s
   }"

section \<open>What they should do\<close>

text \<open>The names of the next entries, at most \<open>n\<close>, or the first error; \<^verbatim>\<open>errno\<close> is 0 before each call.\<close>

fun read_entries :: "(nat \<Rightarrow> ('os, char list option) syscall) \<Rightarrow> nat \<Rightarrow> nat \<Rightarrow> 'os \<Rightarrow> (int + char list list) \<times> 'os" where
  "read_entries readdir_c dir 0 w = (Inr [], w)"
| "read_entries readdir_c dir (Suc n) w = (case readdir_c dir 0 w of
     (None, e, w) \<Rightarrow> (if e \<noteq> 0 then Inl e else Inr [], w)
   | (Some name, e, w) \<Rightarrow> (case read_entries readdir_c dir n w of (Inl e, w) \<Rightarrow> (Inl e, w) | (Inr ns, w) \<Rightarrow> (Inr (name # ns), w)))"

lemma read_entries_length: "read_entries readdir_c dir n w = (Inr ns, w') \<Longrightarrow> length ns \<le> n"
  by (induction n arbitrary: w ns) (fastforce split: prod.splits option.splits sum.splits if_splits)+

section \<open>Correctness\<close>

text \<open>An allocator that never runs out of memory.\<close>

definition alloc_ok :: "(nat \<Rightarrow> (nat \<rightharpoonup> char list) \<Rightarrow> nat option) \<Rightarrow> bool" where
  "alloc_ok alloc \<longleftrightarrow> (\<forall>n B. finite (dom B) \<longrightarrow> (\<exists>a. alloc n B = Some a \<and> B a = None))"

text \<open>
  What the loop leaves: \<open>as\<close> are the new blocks, which hold the names read, in order, in the cells from \<open>i\<close> on.
\<close>

definition loop_post :: "(nat \<Rightarrow> ('os, char list option) syscall) \<Rightarrow> nat \<Rightarrow> nat \<Rightarrow> nat \<Rightarrow> job_readdir_n \<Rightarrow> (readdir_n_x, 'os) cst
    \<Rightarrow> nat list \<Rightarrow> nat list \<Rightarrow> int \<Rightarrow> (nat \<rightharpoonup> char list) \<Rightarrow> 'os \<Rightarrow> bool" where
  "loop_post readdir_c p i k job s as E ec B w \<longleftrightarrow>
     length E = length (n_entries job) \<and> take (i + length as) E = take i (n_entries job) @ as \<and> i + length as \<le> length E \<and>
     distinct as \<and> (\<forall>a\<in>set as. blocks s a = None) \<and> (\<forall>a. a \<notin> set as \<longrightarrow> B a = blocks s a) \<and>
     (\<exists>names. map B as = map (\<lambda>n. Some (n @ [NUL])) names \<and>
       (case read_entries readdir_c (n_dir job) k (os s) of
          (Inl er, w') \<Rightarrow> ec = er \<and> er \<noteq> 0 \<and> w = w'
        | (Inr ns, w') \<Rightarrow> ec = 0 \<and> names = ns \<and> w = w'))"

lemma loop_correct:
  assumes "alloc_ok alloc" and "finite (dom (blocks s))" and "heap s p = Some job" and "i + k \<le> length (n_entries job)"
  shows "\<exists>as E ec B e w. readdir_n_loop K alloc readdir_c p i k s =
      Some (s\<lparr>heap := (heap s)(p \<mapsto> job\<lparr>n_entries := E, n_count := int (i + length as), n_error_code := ec\<rparr>), blocks := B, c_errno := e, os := w\<rparr>) \<and>
      loop_post readdir_c p i k job s as E ec B w"
  using assms(2-4)
proof (induction k arbitrary: i s job)
  case 0
  then show ?case
    by - (rule exI [of _ "[]"], rule exI [of _ "n_entries job"], rule exI [of _ 0], rule exI [of _ "blocks s"], rule exI [of _ "c_errno s"], rule exI [of _ "os s"],
        cases s, auto simp: loop_post_def)
next
  case (Suc k)
  obtain entry e w where r: "readdir_c (n_dir job) 0 (os s) = (entry, e, w)" by (metis prod_cases3)
  show ?case
  proof (cases entry)
    case None
    with r Suc.prems show ?thesis
      by - (rule exI [of _ "[]"], rule exI [of _ "n_entries job"], rule exI [of _ e], rule exI [of _ "blocks s"], rule exI [of _ e], rule exI [of _ w],
        cases s, auto simp: loop_post_def)
  next
    case (Some name)
    obtain a where a: "alloc (length name + 1) (blocks s) = Some a" "blocks s a = None"
      using assms(1) Suc.prems(1) unfolding alloc_ok_def by blast
    let ?job = "job\<lparr>n_entries := (n_entries job)[i := a]\<rparr>"
    let ?s = "s\<lparr>heap := (heap s)(p \<mapsto> ?job), blocks := (blocks s)(a \<mapsto> name @ [NUL]), c_errno := e, os := w\<rparr>"
    have step: "readdir_n_loop K alloc readdir_c p i (Suc k) s = readdir_n_loop K alloc readdir_c p (Suc i) k ?s"
      using r Some a Suc.prems by (cases s) simp
    have ih1: "finite (dom (blocks ?s))" and ih2: "heap ?s p = Some ?job" and ih3: "Suc i + k \<le> length (n_entries ?job)"
      using Suc.prems by simp_all
    obtain as E ec B e' w' where ih: "readdir_n_loop K alloc readdir_c p (Suc i) k ?s =
        Some (?s\<lparr>heap := (heap ?s)(p \<mapsto> ?job\<lparr>n_entries := E, n_count := int (Suc i + length as), n_error_code := ec\<rparr>), blocks := B, c_errno := e', os := w'\<rparr>)"
        "loop_post readdir_c p (Suc i) k ?job ?s as E ec B w'"
      using Suc.IH [OF ih1 ih2 ih3] by blast
    have as: "a \<notin> set as" using ih(2) unfolding loop_post_def by auto
    then have B: "B a = Some (name @ [NUL])" using ih(2) unfolding loop_post_def by simp
    have t: "take (Suc i) ((n_entries job)[i := a]) = take i (n_entries job) @ [a]"
      using Suc.prems(3) by (simp add: take_Suc_update)
    obtain r' w'' where e: "read_entries readdir_c (n_dir job) k w = (r', w'')" by fastforce
    obtain names where n: "map B as = map (\<lambda>n. Some (n @ [NUL])) names"
      "case r' of Inl er \<Rightarrow> ec = er \<and> er \<noteq> 0 \<and> w' = w'' | Inr ns \<Rightarrow> ec = 0 \<and> names = ns \<and> w' = w''"
      using ih(2) e unfolding loop_post_def by (cases r') auto
    have "case read_entries readdir_c (n_dir job) (Suc k) (os s) of
        (Inl er, v) \<Rightarrow> ec = er \<and> er \<noteq> 0 \<and> w' = v | (Inr ns, v) \<Rightarrow> ec = 0 \<and> name # names = ns \<and> w' = v"
      using n(2) e r Some by (cases r') auto
    moreover have "map B (a # as) = map (\<lambda>n. Some (n @ [NUL])) (name # names)" using n(1) B by simp
    moreover have "length E = length (n_entries job)" "take (i + length (a # as)) E = take i (n_entries job) @ a # as"
      "i + length (a # as) \<le> length E" "distinct (a # as)" "\<forall>b. b \<notin> set (a # as) \<longrightarrow> B b = blocks s b"
      using ih(2) t as unfolding loop_post_def by simp_all
    moreover have "\<forall>b\<in>set as. blocks ?s b = None" using ih(2) unfolding loop_post_def by blast
    then have "\<forall>b\<in>set (a # as). blocks s b = None" using a(2) by (auto split: if_splits)
    ultimately have "loop_post readdir_c p i (Suc k) job s (a # as) E ec B w'"
      unfolding loop_post_def by (intro conjI exI [of _ "name # names"])
    moreover have "readdir_n_loop K alloc readdir_c p i (Suc k) s =
        Some (s\<lparr>heap := (heap s)(p \<mapsto> job\<lparr>n_entries := E, n_count := int (i + length (a # as)), n_error_code := ec\<rparr>), blocks := B, c_errno := e', os := w'\<rparr>)"
      unfolding step ih(1) by (cases s) simp
    ultimately show ?thesis by blast
  qed
qed

text \<open>The two loops of the result function on fresh blocks that hold the names.\<close>

lemma copy_entries_names:
  "map (blocks s) as = map (\<lambda>n. Some (n @ [NUL])) names \<Longrightarrow> copy_entries as s = Some (map (\<lambda>n. Caml_string (cstring n)) names)"
proof (induction "as" arbitrary: names)
  case (Cons a as)
  then obtain n ns where "names = n # ns" by (cases names) auto
  with Cons show ?case by (auto simp: cstr_at_caml_bytes [unfolded caml_bytes_def])
qed simp

lemma free_blocks_all:
  "distinct as \<Longrightarrow> \<forall>a\<in>set as. blocks s a \<noteq> None \<Longrightarrow>
     iter_opt free_block as s = Some (s\<lparr>blocks := (\<lambda>a. if a \<in> set as then None else blocks s a)\<rparr>)"
proof (induction "as" arbitrary: s)
  case (Cons a as)
  let ?s = "s\<lparr>blocks := (blocks s)(a := None)\<rparr>"
  have "iter_opt free_block as ?s = Some (?s\<lparr>blocks := (\<lambda>b. if b \<in> set as then None else blocks ?s b)\<rparr>)"
    using Cons by (intro Cons.IH) auto
  moreover have "(\<lambda>b. if b \<in> set as then None else blocks ?s b) = (\<lambda>b. if b \<in> set (a # as) then None else blocks s b)" by auto
  ultimately show ?case using Cons.prems by auto
qed simp

text \<open>What OCaml gets from the entries read.\<close>

definition entries_answer :: "int + char list list \<Rightarrow> caml_value outcome" where
  "entries_answer r = (case r of Inl e \<Rightarrow> Raise (Unix_error e ''readdir'' Nothing) | Inr ns \<Rightarrow> Ret (Block 0 (map (\<lambda>n. Caml_string (cstring n)) ns)))"

lemma result_readdir_n_correct:
  assumes "loop_post readdir_c p 0 k job s as E ec B w" and "heap t p = Some j" and "freeable j"
    and "n_entries j = E" and "n_count j = int (length as)" and "n_error_code j = ec" and "blocks t = B"
  shows "result_readdir_n p t =
    Some (entries_answer (fst (read_entries readdir_c (n_dir job) k (os s))), t\<lparr>heap := (heap t)(p := None), blocks := blocks s\<rparr>)
    \<and> w = snd (read_entries readdir_c (n_dir job) k (os s))"
proof -
  obtain r w' where r: "read_entries readdir_c (n_dir job) k (os s) = (r, w')" by fastforce
  obtain names where n: "map B as = map (\<lambda>n. Some (n @ [NUL])) names"
    "case r of Inl er \<Rightarrow> ec = er \<and> er \<noteq> 0 \<and> w = w' | Inr ns \<Rightarrow> ec = 0 \<and> names = ns \<and> w = w'"
    using assms(1) r unfolding loop_post_def by (cases r) auto
  have a: "take (length as) E = as" "length as \<le> length E" "distinct as" "\<forall>a\<in>set as. blocks s a = None" "\<forall>a. a \<notin> set as \<longrightarrow> B a = blocks s a"
    using assms(1) unfolding loop_post_def by auto
  have "\<forall>a\<in>set as. B a \<noteq> None"
  proof
    fix a assume "a \<in> set as"
    then have "B a \<in> set (map B as)" by simp
    then show "B a \<noteq> None" using n(1) by auto
  qed
  then have f: "iter_opt free_block as t = Some (t\<lparr>blocks := blocks s\<rparr>)"
    using free_blocks_all [of as t] a assms(7) by (auto simp: fun_eq_iff)
  have c: "copy_entries as t = Some (map (\<lambda>n. Caml_string (cstring n)) names)" using copy_entries_names n(1) assms(7) by blast
  show ?thesis using assms(2-6) a(1,2) f c n(2) r
    by (cases t) (auto simp: result_readdir_n_def entries_answer_def free_and_return_def split: sum.splits)
qed

lemma readdir_job_run:
  assumes "heap s a = None" and "readdir_c dir 0 (os s) = (r, e, w)"
  shows "job_run am e' (lwt_unix_readdir_job a u dir) [''worker_readdir'' \<mapsto> worker_readdir readdir_c] [''result_readdir'' \<mapsto> result_readdir] s =
    Some (case r of Some name \<Rightarrow> Ret (Caml_string (cstring name))
          | None \<Rightarrow> if e \<noteq> 0 then Raise (Unix_error e ''readdir'' Nothing) else Raise End_of_file, s\<lparr>c_errno := e', os := w\<rparr>)"
  using assms by (cases s; cases r) (auto simp: io_defs job_defs caml_copy_string_def fun_upd_idem)

lemma readdir_n_job_run:
  assumes "heap s a = None" and "alloc_ok alloc" and "finite (dom (blocks s))"
  shows "job_run am e' (lwt_unix_readdir_n_job a ug dir count) [''worker_readdir_n'' \<mapsto> worker_readdir_n K alloc readdir_c]
      [''result_readdir_n'' \<mapsto> result_readdir_n] s =
    Some (entries_answer (fst (read_entries readdir_c dir (nat count) (os s))),
          s\<lparr>c_errno := e', os := snd (read_entries readdir_c dir (nat count) (os s))\<rparr>)"
proof -
  let ?u = "(fst ug)\<lparr>n_entries := map (snd ug) [0..<nat count], worker_fn := ''worker_readdir_n'', result_fn := ''result_readdir_n'', n_dir := dir, n_count := count\<rparr>"
  let ?j = "?u\<lparr>async_method := am, job_mutex := start_mutex am ?u\<rparr>"
  let ?s = "s\<lparr>heap := (heap s)(a \<mapsto> ?j)\<rparr>"
  obtain as E ec B e w where l: "readdir_n_loop K alloc readdir_c a 0 (nat count) ?s =
      Some (?s\<lparr>heap := (heap ?s)(a \<mapsto> ?j\<lparr>n_entries := E, n_count := int (0 + length as), n_error_code := ec\<rparr>), blocks := B, c_errno := e, os := w\<rparr>)"
      "loop_post readdir_c a 0 (nat count) ?j ?s as E ec B w"
    using loop_correct [OF assms(2), of ?s a ?j 0 "nat count" K readdir_c] assms(3) by auto
  let ?k = "?j\<lparr>n_entries := E, n_count := int (length as), n_error_code := ec\<rparr>"
  let ?v = "s\<lparr>heap := (heap s)(a \<mapsto> ?k), blocks := B, c_errno := e, os := w\<rparr>"
  have run: "job_run am e' (lwt_unix_readdir_n_job a ug dir count) [''worker_readdir_n'' \<mapsto> worker_readdir_n K alloc readdir_c]
      [''result_readdir_n'' \<mapsto> result_readdir_n] s = result_readdir_n a (?v\<lparr>c_errno := e'\<rparr>)"
    by (rule job_run_phases [of _ _ _ "s\<lparr>heap := (heap s)(a \<mapsto> ?u)\<rparr>" ?u _ "worker_readdir_n K alloc readdir_c" _ ?v ?k])
      (use assms(1) l(1) in \<open>simp_all add: lwt_unix_readdir_n_job_def lwt_unix_alloc_job_def worker_readdir_n_def\<close>)
  have f: "freeable ?k" by (rule freeable_started) simp_all
  have "result_readdir_n a (?v\<lparr>c_errno := e'\<rparr>) =
      Some (entries_answer (fst (read_entries readdir_c (n_dir ?j) (nat count) (os ?s))), (?v\<lparr>c_errno := e'\<rparr>)\<lparr>heap := (heap (?v\<lparr>c_errno := e'\<rparr>))(a := None), blocks := blocks ?s\<rparr>)
      \<and> w = snd (read_entries readdir_c (n_dir ?j) (nat count) (os ?s))"
    by (rule result_readdir_n_correct [OF l(2) _ f]) simp_all
  then have res: "result_readdir_n a (?v\<lparr>c_errno := e'\<rparr>) = Some (entries_answer (fst (read_entries readdir_c dir (nat count) (os s))),
      s\<lparr>c_errno := e', os := w\<rparr>)" and w: "w = snd (read_entries readdir_c dir (nat count) (os s))"
    using assms(1) by (cases s; simp add: fun_upd_idem)+
  show ?thesis unfolding run res by (simp add: w)
qed

section \<open>Properties\<close>

definition demo_readdir_n_job :: job_readdir_n where
  "demo_readdir_n_job = \<lparr>next_job = None, notification_id = 0, worker_fn = [], result_fn = [], job_state = LWT_UNIX_JOB_STATE_DONE,
     fast = 5, job_mutex = Mutex_held, async_method = LWT_UNIX_ASYNC_METHOD_SWITCH, n_dir = 0, n_count = 3, n_error_code = 4, n_entries = []\<rparr>"



end
