(* ===== verification/Libev.thy ===== *)
theory Libev
  imports Runtime
begin

text \<open>
  The stubs for the libev event loop, \<^verbatim>\<open>lwt_libev_stubs.c\<close>: the event loop, the watchers for descriptors and timers,
  their memory, and the garbage collector roots that keep their callbacks alive.

  libev itself is not part of the repository: its functions are the fields of the parameter \<open>L\<close>, and what the stubs
  rely on is the predicate \<open>libev_ok\<close>. The theorem about the watchers considers any sequence of calls by the OCaml program and
  of callbacks by libev.
\<close>

section \<open>Backends\<close>

definition val_EVBACKEND_DEFAULT :: int where "val_EVBACKEND_DEFAULT = 0"
definition val_EVBACKEND_SELECT :: int where "val_EVBACKEND_SELECT = 1"
definition val_EVBACKEND_POLL :: int where "val_EVBACKEND_POLL = 2"
definition val_EVBACKEND_EPOLL :: int where "val_EVBACKEND_EPOLL = 3"
definition val_EVBACKEND_KQUEUE :: int where "val_EVBACKEND_KQUEUE = 4"
definition val_EVBACKEND_DEVPOLL :: int where "val_EVBACKEND_DEVPOLL = 5"
definition val_EVBACKEND_PORT :: int where "val_EVBACKEND_PORT = 6"

lemmas val_EVBACKEND_defs =
  val_EVBACKEND_DEFAULT_def val_EVBACKEND_SELECT_def val_EVBACKEND_POLL_def val_EVBACKEND_EPOLL_def
  val_EVBACKEND_KQUEUE_def val_EVBACKEND_DEVPOLL_def val_EVBACKEND_PORT_def

text \<open>The assertion at the end of the two switches fails: \<open>None\<close>.\<close>

definition backend_val :: "(string \<Rightarrow> int) \<Rightarrow> int \<Rightarrow> int option" where
  "backend_val K v = (let i = c_int v in
     if i = val_EVBACKEND_DEFAULT then Some 0
     else if i = val_EVBACKEND_SELECT then Some (K ''EVBACKEND_SELECT'')
     else if i = val_EVBACKEND_POLL then Some (K ''EVBACKEND_POLL'')
     else if i = val_EVBACKEND_EPOLL then Some (K ''EVBACKEND_EPOLL'')
     else if i = val_EVBACKEND_KQUEUE then Some (K ''EVBACKEND_KQUEUE'')
     else if i = val_EVBACKEND_DEVPOLL then Some (K ''EVBACKEND_DEVPOLL'')
     else if i = val_EVBACKEND_PORT then Some (K ''EVBACKEND_PORT'')
     else None)"

section \<open>Watchers and the functions of libev\<close>

text \<open>
  \<^verbatim>\<open>struct ev_io\<close> and \<^verbatim>\<open>struct ev_timer\<close>, as \<^verbatim>\<open>ev_io_init\<close> and \<^verbatim>\<open>ev_timer_init\<close> fill them: the handler, the
  parameters, and the field \<^verbatim>\<open>data\<close>, which these macros leave alone. A time is of any type \<open>'f\<close> with the operations of
  \<^verbatim>\<open>double\<close> that the code uses.
\<close>

datatype 'f watcher =
    Ev_io (w_handler: string) (w_fd: int) (w_event: int) (w_data: nat)
  | Ev_timer (w_handler: string) (w_at: 'f) (w_repeat: 'f) (w_data: nat)

fun set_data :: "nat \<Rightarrow> 'f watcher \<Rightarrow> 'f watcher" where
  "set_data d (Ev_io h fd event _) = Ev_io h fd event d"
| "set_data d (Ev_timer h at repeat _) = Ev_timer h at repeat d"

text \<open>
  \<open>'ev\<close> is the state of libev. A loop and a watcher are addresses; the functions that start and stop a watcher also
  see its content.
\<close>

record ('ev, 'f) libev =
  ev_loop_new :: "int \<Rightarrow> 'ev \<Rightarrow> nat option \<times> 'ev"
  ev_set_invoke_pending_cb :: "nat \<Rightarrow> string \<Rightarrow> 'ev \<Rightarrow> 'ev"
  ev_backend :: "nat \<Rightarrow> 'ev \<Rightarrow> int"
  ev_loop_destroy :: "nat \<Rightarrow> 'ev \<Rightarrow> 'ev"
  ev_loop :: "nat \<Rightarrow> int \<Rightarrow> 'ev \<Rightarrow> 'ev"
  ev_unloop :: "nat \<Rightarrow> int \<Rightarrow> 'ev \<Rightarrow> 'ev"
  ev_io_start :: "nat \<Rightarrow> nat \<Rightarrow> 'f watcher \<Rightarrow> 'ev \<Rightarrow> 'ev"
  ev_io_stop :: "nat \<Rightarrow> nat \<Rightarrow> 'f watcher \<Rightarrow> 'ev \<Rightarrow> 'ev"
  ev_timer_start :: "nat \<Rightarrow> nat \<Rightarrow> 'f watcher \<Rightarrow> 'ev \<Rightarrow> 'ev"
  ev_timer_stop :: "nat \<Rightarrow> nat \<Rightarrow> 'f watcher \<Rightarrow> 'ev \<Rightarrow> 'ev"
  ev_time :: "'ev \<Rightarrow> 'f"
  ev_now :: "nat \<Rightarrow> 'ev \<Rightarrow> 'f"

text \<open>
  The state the stubs work on: the loops that are alive, the memory of the watchers, the registered roots (a root is the field
  \<^verbatim>\<open>data\<close> of a watcher), whether the thread is in a blocking section, the OCaml closures called so far, and libev.
\<close>

record ('ev, 'f) evst =
  loops :: "nat set"
  watchers :: "nat \<rightharpoonup> 'f watcher"
  ev_roots :: "nat list"
  blocking_section :: bool
  called :: "nat list"
  ev :: 'ev

text \<open>\<^verbatim>\<open>Ev_loop_val\<close>: using a loop that was destroyed is an error.\<close>

definition live_loop :: "nat \<Rightarrow> ('ev, 'f) evst \<Rightarrow> unit option" where
  "live_loop l s = (if l \<in> loops s then Some () else None)"

section \<open>Loops\<close>

text \<open>The difference of two addresses, converted to \<^verbatim>\<open>int\<close>.\<close>

definition compare_loops :: "nat \<Rightarrow> nat \<Rightarrow> int" where
  "compare_loops a b = c_int (int a - int b)"

definition hash_loop :: "nat \<Rightarrow> int" where
  "hash_loop l = c_long (int l)"

definition lwt_libev_init :: "('ev, 'f) libev \<Rightarrow> (string \<Rightarrow> int) \<Rightarrow> int \<Rightarrow> ('ev, 'f) evst
    \<Rightarrow> (caml_value outcome \<times> ('ev, 'f) evst) option" where
  "lwt_libev_init L K backend s = do {
     b \<leftarrow> backend_val K backend;
     let (l, e) = ev_loop_new L (or (K ''EVFLAG_FORKCHECK'') b) (ev s);
     case l of
       None \<Rightarrow> Some (Raise (Failure ''lwt_libev_init''), s\<lparr>ev := e\<rparr>)
     | Some l \<Rightarrow> Some (Ret (Caml_ptr (Some l)), s\<lparr>loops := insert l (loops s), ev := ev_set_invoke_pending_cb L l ''nop'' e\<rparr>)
   }"

definition lwt_libev_backend :: "('ev, 'f) libev \<Rightarrow> (string \<Rightarrow> int) \<Rightarrow> nat \<Rightarrow> ('ev, 'f) evst \<Rightarrow> caml_value option" where
  "lwt_libev_backend L K l s = do {
     live_loop l s;
     let b = ev_backend L l (ev s);
     if b = K ''EVBACKEND_SELECT'' then Some (Val_int val_EVBACKEND_SELECT)
     else if b = K ''EVBACKEND_POLL'' then Some (Val_int val_EVBACKEND_POLL)
     else if b = K ''EVBACKEND_EPOLL'' then Some (Val_int val_EVBACKEND_EPOLL)
     else if b = K ''EVBACKEND_KQUEUE'' then Some (Val_int val_EVBACKEND_KQUEUE)
     else if b = K ''EVBACKEND_DEVPOLL'' then Some (Val_int val_EVBACKEND_DEVPOLL)
     else if b = K ''EVBACKEND_PORT'' then Some (Val_int val_EVBACKEND_PORT)
     else None
   }"

definition lwt_libev_stop :: "('ev, 'f) libev \<Rightarrow> nat \<Rightarrow> ('ev, 'f) evst \<Rightarrow> (caml_value \<times> ('ev, 'f) evst) option" where
  "lwt_libev_stop L l s = do {
     live_loop l s;
     Some (Val_unit, s\<lparr>loops := loops s - {l}, ev := ev_loop_destroy L l (ev s)\<rparr>)
   }"

text \<open>The part of \<^verbatim>\<open>lwt_libev_loop\<close> in the blocking section; nested sections and leaving without entering are errors.\<close>

definition caml_enter_blocking_section :: "('ev, 'f) evst \<Rightarrow> ('ev, 'f) evst option" where
  "caml_enter_blocking_section s = (if blocking_section s then None else Some (s\<lparr>blocking_section := True\<rparr>))"

definition caml_leave_blocking_section :: "('ev, 'f) evst \<Rightarrow> ('ev, 'f) evst option" where
  "caml_leave_blocking_section s = (if blocking_section s then Some (s\<lparr>blocking_section := False\<rparr>) else None)"

definition libev_poll :: "('ev, 'f) libev \<Rightarrow> (string \<Rightarrow> int) \<Rightarrow> nat \<Rightarrow> bool \<Rightarrow> ('ev, 'f) evst \<Rightarrow> ('ev, 'f) evst option" where
  "libev_poll L K l block s = do {
     live_loop l s;
     s \<leftarrow> caml_enter_blocking_section s;
     let s = s\<lparr>ev := ev_loop L l (if block then K ''EVLOOP_ONESHOT'' else or (K ''EVLOOP_ONESHOT'') (K ''EVLOOP_NONBLOCK'')) (ev s)\<rparr>;
     caml_leave_blocking_section s
   }"

text \<open>
  The whole of \<^verbatim>\<open>lwt_libev_loop\<close>. \<open>ev_invoke_pending\<close> is libev's function, which calls the handlers of the pending
  watchers; they run OCaml code, which may call any of these stubs.
\<close>

definition lwt_libev_loop :: "('ev, 'f) libev \<Rightarrow> (string \<Rightarrow> int) \<Rightarrow> (nat \<Rightarrow> ('ev, 'f) evst \<Rightarrow> ('ev, 'f) evst option) \<Rightarrow> nat \<Rightarrow> bool
    \<Rightarrow> ('ev, 'f) evst \<Rightarrow> (caml_value \<times> ('ev, 'f) evst) option" where
  "lwt_libev_loop L K ev_invoke_pending l block s = do {
     s \<leftarrow> libev_poll L K l block s;
     s \<leftarrow> ev_invoke_pending l s;
     Some (Val_unit, s)
   }"

definition lwt_libev_unloop :: "('ev, 'f) libev \<Rightarrow> (string \<Rightarrow> int) \<Rightarrow> nat \<Rightarrow> ('ev, 'f) evst \<Rightarrow> (caml_value \<times> ('ev, 'f) evst) option" where
  "lwt_libev_unloop L K l s = do {
     live_loop l s;
     Some (Val_unit, s\<lparr>ev := ev_unloop L l (K ''EVUNLOOP_ONE'') (ev s)\<rparr>)
   }"

section \<open>Watchers\<close>

definition compare_watchers :: "nat \<Rightarrow> nat \<Rightarrow> int" where
  "compare_watchers a b = c_int (int a - int b)"

definition hash_watcher :: "nat \<Rightarrow> int" where
  "hash_watcher w = c_long (int w)"

text \<open>
  Calling a closure from C: not in a blocking section, and only if the collector knows the field that refers to it.
\<close>

definition caml_callback :: "nat \<Rightarrow> nat \<Rightarrow> ('ev, 'f) evst \<Rightarrow> ('ev, 'f) evst option" where
  "caml_callback w f s = (if blocking_section s \<or> w \<notin> set (ev_roots s) then None else Some (s\<lparr>called := called s @ [f]\<rparr>))"

definition handle_io :: "nat \<Rightarrow> ('ev, 'f) evst \<Rightarrow> ('ev, 'f) evst option" where
  "handle_io w s = do { v \<leftarrow> watchers s w; caml_callback w (w_data v) s }"

definition handle_timer :: "nat \<Rightarrow> ('ev, 'f) evst \<Rightarrow> ('ev, 'f) evst option" where
  "handle_timer w s = do { v \<leftarrow> watchers s w; caml_callback w (w_data v) s }"

text \<open>\<^verbatim>\<open>lwt_unix_new\<close> and \<^verbatim>\<open>free\<close> for watchers, and the roots.\<close>

definition new_watcher :: "nat \<Rightarrow> 'f watcher \<Rightarrow> ('ev, 'f) evst \<Rightarrow> ('ev, 'f) evst option" where
  "new_watcher a v s = (if watchers s a = None then Some (s\<lparr>watchers := (watchers s)(a \<mapsto> v)\<rparr>) else None)"

definition free_watcher :: "nat \<Rightarrow> ('ev, 'f) evst \<Rightarrow> ('ev, 'f) evst option" where
  "free_watcher a s = (if watchers s a = None then None else Some (s\<lparr>watchers := (watchers s)(a := None)\<rparr>))"

definition remove_ev_root :: "nat \<Rightarrow> ('ev, 'f) evst \<Rightarrow> ('ev, 'f) evst option" where
  "remove_ev_root a s = (if a \<in> set (ev_roots s) then Some (s\<lparr>ev_roots := remove1 a (ev_roots s)\<rparr>) else None)"

definition update_watcher :: "nat \<Rightarrow> ('f watcher \<Rightarrow> 'f watcher) \<Rightarrow> ('ev, 'f) evst \<Rightarrow> ('ev, 'f) evst option" where
  "update_watcher a f s = do { v \<leftarrow> watchers s a; Some (s\<lparr>watchers := (watchers s)(a \<mapsto> f v)\<rparr>) }"

definition lwt_libev_io_init :: "('ev, 'f) libev \<Rightarrow> nat \<Rightarrow> nat \<Rightarrow> nat \<Rightarrow> int \<Rightarrow> int \<Rightarrow> nat \<Rightarrow> ('ev, 'f) evst
    \<Rightarrow> (caml_value \<times> ('ev, 'f) evst) option" where
  "lwt_libev_io_init L a d l fd event callback s = do {
     live_loop l s;
     s \<leftarrow> new_watcher a (Ev_io ''handle_io'' fd event d) s;
     s \<leftarrow> update_watcher a (set_data callback) s;
     let s = s\<lparr>ev_roots := a # ev_roots s\<rparr>;
     v \<leftarrow> watchers s a;
     Some (Caml_ptr (Some a), s\<lparr>ev := ev_io_start L l a v (ev s)\<rparr>)
   }"

definition lwt_libev_readable_init :: "('ev, 'f) libev \<Rightarrow> (string \<Rightarrow> int) \<Rightarrow> nat \<Rightarrow> nat \<Rightarrow> nat \<Rightarrow> int \<Rightarrow> nat \<Rightarrow> ('ev, 'f) evst
    \<Rightarrow> (caml_value \<times> ('ev, 'f) evst) option" where
  "lwt_libev_readable_init L K a d l fd callback s = lwt_libev_io_init L a d l (c_int fd) (K ''EV_READ'') callback s"

definition lwt_libev_writable_init :: "('ev, 'f) libev \<Rightarrow> (string \<Rightarrow> int) \<Rightarrow> nat \<Rightarrow> nat \<Rightarrow> nat \<Rightarrow> int \<Rightarrow> nat \<Rightarrow> ('ev, 'f) evst
    \<Rightarrow> (caml_value \<times> ('ev, 'f) evst) option" where
  "lwt_libev_writable_init L K a d l fd callback s = lwt_libev_io_init L a d l (c_int fd) (K ''EV_WRITE'') callback s"

definition lwt_libev_io_stop :: "('ev, 'f) libev \<Rightarrow> nat \<Rightarrow> nat \<Rightarrow> ('ev, 'f) evst \<Rightarrow> (caml_value \<times> ('ev, 'f) evst) option" where
  "lwt_libev_io_stop L l w s = do {
     s \<leftarrow> remove_ev_root w s;
     live_loop l s;
     v \<leftarrow> watchers s w;
     s \<leftarrow> free_watcher w (s\<lparr>ev := ev_io_stop L l w v (ev s)\<rparr>);
     Some (Val_unit, s)
   }"

definition lwt_libev_timer_init :: "('ev, 'f :: {plus, minus, zero}) libev \<Rightarrow> nat \<Rightarrow> nat \<Rightarrow> nat \<Rightarrow> 'f \<Rightarrow> bool \<Rightarrow> nat
    \<Rightarrow> ('ev, 'f) evst \<Rightarrow> (caml_value \<times> ('ev, 'f) evst) option" where
  "lwt_libev_timer_init L a d l delay repeat callback s = do {
     live_loop l s;
     let adjusted_delay = delay + ev_time L (ev s) - ev_now L l (ev s);
     s \<leftarrow> new_watcher a (if repeat then Ev_timer ''handle_timer'' adjusted_delay delay d
                         else Ev_timer ''handle_timer'' adjusted_delay 0 d) s;
     s \<leftarrow> update_watcher a (set_data callback) s;
     let s = s\<lparr>ev_roots := a # ev_roots s\<rparr>;
     v \<leftarrow> watchers s a;
     Some (Caml_ptr (Some a), s\<lparr>ev := ev_timer_start L l a v (ev s)\<rparr>)
   }"

definition lwt_libev_timer_stop :: "('ev, 'f) libev \<Rightarrow> nat \<Rightarrow> nat \<Rightarrow> ('ev, 'f) evst \<Rightarrow> (caml_value \<times> ('ev, 'f) evst) option" where
  "lwt_libev_timer_stop L l w s = do {
     s \<leftarrow> remove_ev_root w s;
     live_loop l s;
     v \<leftarrow> watchers s w;
     s \<leftarrow> free_watcher w (s\<lparr>ev := ev_timer_stop L l w v (ev s)\<rparr>);
     Some (Val_unit, s)
   }"

lemmas libev_defs =
  live_loop_def new_watcher_def free_watcher_def remove_ev_root_def update_watcher_def caml_callback_def
  caml_enter_blocking_section_def caml_leave_blocking_section_def lwt_libev_io_init_def lwt_libev_io_stop_def
  lwt_libev_timer_init_def lwt_libev_timer_stop_def lwt_libev_readable_init_def lwt_libev_writable_init_def
  lwt_libev_stop_def lwt_libev_unloop_def libev_poll_def handle_io_def handle_timer_def Let_def

section \<open>The stubs with the program and libev around them\<close>

text \<open>
  What the stubs rely on. \<open>refs e\<close> is the set of pairs of a loop and a watcher that libev may still use: active or pending
  ones. Starting a watcher adds it, stopping it removes it, and nothing else adds one.
\<close>

definition libev_ok :: "('ev, 'f) libev \<Rightarrow> ('ev \<Rightarrow> (nat \<times> nat) set) \<Rightarrow> bool" where
  "libev_ok L refs \<longleftrightarrow>
     (\<forall>f e. refs (snd (ev_loop_new L f e)) \<subseteq> refs e) \<and>
     (\<forall>l n e. refs (ev_set_invoke_pending_cb L l n e) \<subseteq> refs e) \<and>
     (\<forall>l e. refs (ev_loop_destroy L l e) \<subseteq> refs e) \<and>
     (\<forall>l f e. refs (ev_loop L l f e) \<subseteq> refs e) \<and>
     (\<forall>l f e. refs (ev_unloop L l f e) \<subseteq> refs e) \<and>
     (\<forall>l w v e. refs (ev_io_start L l w v e) \<subseteq> insert (l, w) (refs e)) \<and>
     (\<forall>l w v e. refs (ev_timer_start L l w v e) \<subseteq> insert (l, w) (refs e)) \<and>
     (\<forall>l w v e. refs (ev_io_stop L l w v e) \<subseteq> refs e - {(l, w)}) \<and>
     (\<forall>l w v e. refs (ev_timer_stop L l w v e) \<subseteq> refs e - {(l, w)})"

text \<open>libev calls the handler of a watcher through the function pointer in it.\<close>

definition invoke_handler :: "nat \<Rightarrow> ('ev, 'f) evst \<Rightarrow> ('ev, 'f) evst option" where
  "invoke_handler w s = do {
     v \<leftarrow> watchers s w;
     if w_handler v = ''handle_io'' then handle_io w s
     else if w_handler v = ''handle_timer'' then handle_timer w s
     else None
   }"

text \<open>
  One step of the program. \<open>own\<close> says which watchers the program has started and not stopped: on which loop, whether for
  a descriptor, with which callback. The program stops a watcher once, on its loop, and stops a loop when it has
  no watcher on it; libev calls the handlers of watchers it refers to, possibly changing its own state before (\<open>e\<close>).
\<close>

type_synonym owned = "nat \<rightharpoonup> nat \<times> bool \<times> nat"

inductive ev_step :: "('ev, 'f :: {plus, minus, zero}) libev \<Rightarrow> (string \<Rightarrow> int) \<Rightarrow> ('ev \<Rightarrow> (nat \<times> nat) set)
    \<Rightarrow> ('ev, 'f) evst \<times> owned \<Rightarrow> ('ev, 'f) evst \<times> owned \<Rightarrow> bool"
  for L K refs where
  step_init: "lwt_libev_init L K b s = Some (r, s') \<Longrightarrow> ev_step L K refs (s, own) (s', own)"
| step_readable: "lwt_libev_readable_init L K a d l fd cb s = Some (r, s') \<Longrightarrow> ev_step L K refs (s, own) (s', own(a \<mapsto> (l, True, cb)))"
| step_writable: "lwt_libev_writable_init L K a d l fd cb s = Some (r, s') \<Longrightarrow> ev_step L K refs (s, own) (s', own(a \<mapsto> (l, True, cb)))"
| step_timer: "lwt_libev_timer_init L a d l delay rep cb s = Some (r, s') \<Longrightarrow> ev_step L K refs (s, own) (s', own(a \<mapsto> (l, False, cb)))"
| step_io_stop: "own w = Some (l, True, cb) \<Longrightarrow> lwt_libev_io_stop L l w s = Some (r, s') \<Longrightarrow> ev_step L K refs (s, own) (s', own(w := None))"
| step_timer_stop: "own w = Some (l, False, cb) \<Longrightarrow> lwt_libev_timer_stop L l w s = Some (r, s') \<Longrightarrow> ev_step L K refs (s, own) (s', own(w := None))"
| step_poll: "libev_poll L K l b s = Some s' \<Longrightarrow> ev_step L K refs (s, own) (s', own)"
| step_unloop: "lwt_libev_unloop L K l s = Some (r, s') \<Longrightarrow> ev_step L K refs (s, own) (s', own)"
| step_stop: "\<forall>w k cb. own w \<noteq> Some (l, k, cb) \<Longrightarrow> lwt_libev_stop L l s = Some (r, s') \<Longrightarrow> ev_step L K refs (s, own) (s', own)"
| step_handler: "(l, w) \<in> refs (ev s) \<Longrightarrow> refs e \<subseteq> refs (ev s) \<Longrightarrow> invoke_handler w (s\<lparr>ev := e\<rparr>) = Some s' \<Longrightarrow>
    ev_step L K refs (s, own) (s', own)"

definition ev_start :: "'ev \<Rightarrow> ('ev, 'f) evst \<times> owned" where
  "ev_start e = (\<lparr>loops = {}, watchers = Map.empty, ev_roots = [], blocking_section = False, called = [], ev = e\<rparr>, Map.empty)"

inductive ev_reach :: "('ev, 'f :: {plus, minus, zero}) libev \<Rightarrow> (string \<Rightarrow> int) \<Rightarrow> ('ev \<Rightarrow> (nat \<times> nat) set)
    \<Rightarrow> ('ev, 'f) evst \<times> owned \<Rightarrow> bool"
  for L K refs where
  reach_start: "refs e = {} \<Longrightarrow> ev_reach L K refs (ev_start e)"
| reach_step: "ev_reach L K refs x \<Longrightarrow> ev_step L K refs x y \<Longrightarrow> ev_reach L K refs y"

text \<open>
  The invariant: the watchers in memory, the roots and what the program owns are the same, and libev refers to nothing else.
\<close>

definition owns :: "'f watcher option \<Rightarrow> bool \<Rightarrow> nat \<Rightarrow> bool" where
  "owns v k cb \<longleftrightarrow> (case v of None \<Rightarrow> False | Some v \<Rightarrow> w_data v = cb \<and> w_handler v = (if k then ''handle_io'' else ''handle_timer''))"

definition ev_inv :: "('ev \<Rightarrow> (nat \<times> nat) set) \<Rightarrow> ('ev, 'f) evst \<times> owned \<Rightarrow> bool" where
  "ev_inv refs x \<longleftrightarrow> (case x of (s, own) \<Rightarrow>
     \<not> blocking_section s \<and> dom (watchers s) = dom own \<and> set (ev_roots s) = dom own \<and> distinct (ev_roots s) \<and>
     (\<forall>w l k cb. own w = Some (l, k, cb) \<longrightarrow> l \<in> loops s \<and> owns (watchers s w) k cb) \<and>
     (\<forall>l w. (l, w) \<in> refs (ev s) \<longrightarrow> (\<exists>k cb. own w = Some (l, k, cb))))"

lemma set_data_simps [simp]: "w_data (set_data d v) = d" "w_handler (set_data d v) = w_handler v"
  by (cases v; simp)+

lemma inv_refs: "ev_inv refs (s, own) \<Longrightarrow> (l, w) \<in> refs (ev s) \<Longrightarrow> \<exists>k cb. own w = Some (l, k, cb)"
  by (simp add: ev_inv_def)

text \<open>The two kinds of operations on watchers.\<close>

lemma inv_add:
  assumes "ev_inv refs (s, own)" and "watchers s a = None" and "l \<in> loops s" and "owns (Some v) k cb"
    and "refs e \<subseteq> insert (l, a) (refs (ev s))"
  shows "ev_inv refs (s\<lparr>watchers := (watchers s)(a \<mapsto> v), ev_roots := a # ev_roots s, ev := e\<rparr>, own(a \<mapsto> (l, k, cb)))"
proof -
  have a: "own a = None" using assms(1,2) by (auto simp: ev_inv_def)
  then have "\<forall>m. (m, a) \<notin> refs (ev s)" using inv_refs [OF assms(1)] by fastforce
  with a assms show ?thesis by (auto simp: ev_inv_def)
qed

lemma inv_remove:
  assumes "ev_inv refs (s, own)" and "own w = Some (l, k, cb)" and "refs e \<subseteq> refs (ev s) - {(l, w)}"
  shows "ev_inv refs (s\<lparr>watchers := (watchers s)(w := None), ev_roots := remove1 w (ev_roots s), ev := e\<rparr>, own(w := None))"
proof -
  have "\<forall>m. (m, w) \<in> refs (ev s) \<longrightarrow> m = l" using inv_refs [OF assms(1)] assms(2) by fastforce
  with assms show ?thesis by (auto simp: ev_inv_def)
qed

lemma inv_ev:
  assumes "ev_inv refs (s, own)" and "refs e \<subseteq> refs (ev s)"
  shows "ev_inv refs (s\<lparr>ev := e\<rparr>, own)"
  using assms by (auto simp: ev_inv_def)

lemma inv_handler:
  assumes "ev_inv refs (s, own)" and "(l, w) \<in> refs (ev s)"
  shows "\<exists>k cb. own w = Some (l, k, cb) \<and> invoke_handler w s = Some (s\<lparr>called := called s @ [cb]\<rparr>)"
proof -
  obtain k cb where o: "own w = Some (l, k, cb)" using inv_refs [OF assms] by blast
  then have "owns (watchers s w) k cb" "w \<in> set (ev_roots s)" "\<not> blocking_section s"
    using assms(1) by (auto simp: ev_inv_def)
  then show ?thesis using o
    by (auto simp: invoke_handler_def libev_defs owns_def split: option.splits if_splits)
qed

lemma inv_called: "ev_inv refs (s, own) \<Longrightarrow> ev_inv refs (s\<lparr>called := c\<rparr>, own)"
  by (auto simp: ev_inv_def)


lemma inv_loops:
  assumes "ev_inv refs (s, own)" and "\<forall>w l k cb. own w = Some (l, k, cb) \<longrightarrow> l \<in> m" and "refs e \<subseteq> refs (ev s)"
  shows "ev_inv refs (s\<lparr>loops := m, ev := e\<rparr>, own)"
  using assms by (auto simp: ev_inv_def)

lemma inv_owned_loop: "ev_inv refs (s, own) \<Longrightarrow> own w = Some (l, k, cb) \<Longrightarrow> l \<in> loops s"
  by (auto simp: ev_inv_def)

lemma init_shape:
  assumes "libev_ok L refs" and "lwt_libev_init L K b s = Some (r, s')"
  shows "\<exists>m e. s' = s\<lparr>loops := m, ev := e\<rparr> \<and> loops s \<subseteq> m \<and> refs e \<subseteq> refs (ev s)"
proof -
  obtain f where f: "backend_val K b = Some f" using assms(2) by (auto simp: lwt_libev_init_def bind_Some_iff)
  obtain l e where e: "ev_loop_new L (or (K ''EVFLAG_FORKCHECK'') f) (ev s) = (l, e)" by fastforce
  have r: "refs e \<subseteq> refs (ev s)" using assms(1) e unfolding libev_ok_def by (metis snd_conv)
  show ?thesis
  proof (cases l)
    case None
    with assms(2) f e r show ?thesis by (intro exI [of _ "loops s"] exI [of _ e]) (auto simp: lwt_libev_init_def)
  next
    case (Some a)
    have "refs (ev_set_invoke_pending_cb L a ''nop'' e) \<subseteq> refs e" using assms(1) by (auto simp: libev_ok_def)
    with Some assms(2) f e r show ?thesis
      by (intro exI [of _ "insert a (loops s)"] exI [of _ "ev_set_invoke_pending_cb L a ''nop'' e"]) (auto simp: lwt_libev_init_def)
  qed
qed

lemma io_init_shape:
  assumes "libev_ok L refs" and "lwt_libev_io_init L a d l fd event cb s = Some (r, s')"
  shows "\<exists>v e. s' = s\<lparr>watchers := (watchers s)(a \<mapsto> v), ev_roots := a # ev_roots s, ev := e\<rparr> \<and> watchers s a = None \<and> l \<in> loops s \<and>
     owns (Some v) True cb \<and> refs e \<subseteq> insert (l, a) (refs (ev s))"
  using assms
  by (intro exI [of _ "Ev_io ''handle_io'' fd event cb"] exI [of _ "ev_io_start L l a (Ev_io ''handle_io'' fd event cb) (ev s)"])
    (auto simp: libev_defs owns_def libev_ok_def split: if_splits)

lemma timer_init_shape:
  assumes "libev_ok L refs" and "lwt_libev_timer_init L a d l delay rep cb s = Some (r, s')"
  shows "\<exists>v e. s' = s\<lparr>watchers := (watchers s)(a \<mapsto> v), ev_roots := a # ev_roots s, ev := e\<rparr> \<and> watchers s a = None \<and> l \<in> loops s \<and>
     owns (Some v) False cb \<and> refs e \<subseteq> insert (l, a) (refs (ev s))"
proof -
  let ?v = "Ev_timer ''handle_timer'' (delay + ev_time L (ev s) - ev_now L l (ev s)) (if rep then delay else 0) cb"
  show ?thesis using assms
    by (intro exI [of _ ?v] exI [of _ "ev_timer_start L l a ?v (ev s)"]) (auto simp: libev_defs owns_def libev_ok_def split: if_splits)
qed

lemma stop_shape:
  assumes "libev_ok L refs" and "lwt_libev_io_stop L l w s = Some (r, s') \<or> lwt_libev_timer_stop L l w s = Some (r, s')"
  shows "\<exists>e. s' = s\<lparr>watchers := (watchers s)(w := None), ev_roots := remove1 w (ev_roots s), ev := e\<rparr> \<and> refs e \<subseteq> refs (ev s) - {(l, w)}"
proof -
  have "refs (ev_io_stop L l w v (ev s)) \<subseteq> refs (ev s) - {(l, w)}" "refs (ev_timer_stop L l w v (ev s)) \<subseteq> refs (ev s) - {(l, w)}" for v
    using assms(1) by (auto simp: libev_ok_def)
  with assms(2) show ?thesis by (cases s) (fastforce simp: libev_defs bind_Some_iff split: if_splits)
qed

lemma poll_shape:
  assumes "libev_ok L refs" and "libev_poll L K l b s = Some s'"
  shows "\<exists>e. s' = s\<lparr>ev := e\<rparr> \<and> refs e \<subseteq> refs (ev s)"
  using assms by (cases s) (auto simp: libev_defs libev_ok_def split: if_splits)

lemma inv_step:
  assumes ok: "libev_ok L refs" and "ev_step L K refs x y" and i: "ev_inv refs x"
  shows "ev_inv refs y"
  using assms(2)
proof cases
  case (step_init b s r s' own)
  with init_shape [OF ok] i inv_owned_loop show ?thesis by (blast intro!: inv_loops)
next
  case (step_readable a d l fd cb s r s' own)
  with io_init_shape [OF ok] i show ?thesis by (fastforce simp: lwt_libev_readable_init_def intro!: inv_add)
next
  case (step_writable a d l fd cb s r s' own)
  with io_init_shape [OF ok] i show ?thesis by (fastforce simp: lwt_libev_writable_init_def intro!: inv_add)
next
  case (step_timer a d l delay rep cb s r s' own)
  with timer_init_shape [OF ok] i show ?thesis by (fastforce intro!: inv_add)
next
  case (step_io_stop own w l cb s r s')
  with stop_shape [OF ok] i show ?thesis by (fastforce intro!: inv_remove)
next
  case (step_timer_stop own w l cb s r s')
  with stop_shape [OF ok] i show ?thesis by (fastforce intro!: inv_remove)
next
  case (step_poll l b s s' own)
  with poll_shape [OF ok] i show ?thesis by (fastforce intro!: inv_ev)
next
  case (step_unloop l s r s' own)
  moreover have "refs (ev_unloop L l f (ev s)) \<subseteq> refs (ev s)" for f using ok by (auto simp: libev_ok_def)
  ultimately show ?thesis using i by (auto simp: libev_defs split: if_splits intro!: inv_ev)
next
  case (step_stop own l s r s')
  then have "s' = s\<lparr>loops := loops s - {l}, ev := ev_loop_destroy L l (ev s)\<rparr>" by (auto simp: libev_defs split: if_splits)
  moreover have "refs (ev_loop_destroy L l (ev s)) \<subseteq> refs (ev s)" using ok by (auto simp: libev_ok_def)
  moreover have "\<forall>w m k cb. own w = Some (m, k, cb) \<longrightarrow> m \<in> loops s - {l}" using step_stop i inv_owned_loop by blast
  ultimately have "ev_inv refs (s', own)" using i step_stop(1) by (simp add: inv_loops)
  with step_stop(2) show ?thesis by simp
next
  case (step_handler l w s e s' own)
  have j: "ev_inv refs (s\<lparr>ev := e\<rparr>, own)" using step_handler i by (auto intro: inv_ev)
  obtain k cb where "own w = Some (l, k, cb)" using inv_refs i step_handler by blast
  with j have "owns (watchers s w) k cb" "w \<in> set (ev_roots s)" "\<not> blocking_section s" by (auto simp: ev_inv_def)
  then have "invoke_handler w (s\<lparr>ev := e\<rparr>) = Some (s\<lparr>ev := e, called := called s @ [cb]\<rparr>)"
    by (auto simp: invoke_handler_def libev_defs owns_def split: option.splits if_splits)
  with step_handler inv_called [OF j, of "called s @ [cb]"] show ?thesis by auto
qed

lemma inv_reach:
  assumes "libev_ok L refs" and "ev_reach L K refs x"
  shows "ev_inv refs x"
  using assms(2)
proof induction
  case (reach_start e)
  then show ?case by (simp add: ev_inv_def ev_start_def)
qed (rule inv_step [OF assms(1)])


text \<open>What the invariant gives for the operations.\<close>

lemma inv_stop_ok:
  assumes "ev_inv refs (s, own)" and "own w = Some (l, k, cb)"
  shows "\<exists>r s'. (if k then lwt_libev_io_stop L l w s else lwt_libev_timer_stop L l w s) = Some (r, s')"
proof -
  have "w \<in> set (ev_roots s)" "l \<in> loops s" "\<exists>v. watchers s w = Some v"
    using assms by (auto simp: ev_inv_def)
  then show ?thesis by (auto simp: libev_defs)
qed

lemma inv_poll_ok: "ev_inv refs (s, own) \<Longrightarrow> l \<in> loops s \<Longrightarrow> \<exists>s'. libev_poll L K l b s = Some s'"
  by (auto simp: ev_inv_def libev_defs)

text \<open>libev's loop for the pending watchers does nothing but call handlers, which run program code.\<close>

definition invoke_ok :: "('ev, 'f :: {plus, minus, zero}) libev \<Rightarrow> (string \<Rightarrow> int) \<Rightarrow> ('ev \<Rightarrow> (nat \<times> nat) set)
    \<Rightarrow> (nat \<Rightarrow> ('ev, 'f) evst \<Rightarrow> ('ev, 'f) evst option) \<Rightarrow> bool" where
  "invoke_ok L K refs ip \<longleftrightarrow> (\<forall>l s own. ev_reach L K refs (s, own) \<and> l \<in> loops s \<longrightarrow>
     (\<exists>s' own'. ip l s = Some s' \<and> (ev_step L K refs)\<^sup>*\<^sup>* (s, own) (s', own')))"

lemma reach_steps: "(ev_step L K refs)\<^sup>*\<^sup>* x y \<Longrightarrow> ev_reach L K refs x \<Longrightarrow> ev_reach L K refs y"
  by (induction rule: rtranclp_induct) (auto intro: reach_step)

section \<open>An example\<close>

text \<open>A libev that just keeps the set of watchers it refers to, for the examples.\<close>

definition demo_libev :: "((nat \<times> nat) set, int) libev" where
  "demo_libev = \<lparr>ev_loop_new = (\<lambda>f e. (Some 1, e)), ev_set_invoke_pending_cb = (\<lambda>l n e. e), ev_backend = (\<lambda>l e. 4),
     ev_loop_destroy = (\<lambda>l e. e), ev_loop = (\<lambda>l f e. e), ev_unloop = (\<lambda>l f e. e), ev_io_start = (\<lambda>l w v e. insert (l, w) e),
     ev_io_stop = (\<lambda>l w v e. e - {(l, w)}), ev_timer_start = (\<lambda>l w v e. insert (l, w) e), ev_timer_stop = (\<lambda>l w v e. e - {(l, w)}),
     ev_time = (\<lambda>e. 100), ev_now = (\<lambda>l e. 98)\<rparr>"

definition demo_ev :: "((nat \<times> nat) set, int) evst" where
  "demo_ev = \<lparr>loops = {1}, watchers = [9 \<mapsto> Ev_io ''handle_io'' 5 1 77], ev_roots = [9], blocking_section = False, called = [], ev = {(1, 9)}\<rparr>"

lemma demo_libev_ok: "libev_ok demo_libev (\<lambda>e. e)"
  by (auto simp: libev_ok_def demo_libev_def)

lemma demo_ev_reach: "ev_reach demo_libev (\<lambda>_. 1) (\<lambda>e. e) (demo_ev, [9 \<mapsto> (1, True, 77)])"
proof -
  let ?s = "\<lparr>loops = {1}, watchers = Map.empty, ev_roots = [], blocking_section = False, called = [], ev = {}\<rparr>"
  have "ev_step demo_libev (\<lambda>_. 1) (\<lambda>e. e) (ev_start {}) (?s, Map.empty)"
    unfolding ev_start_def
    by (rule step_init [of _ _ 0 _ "Ret (Caml_ptr (Some 1))"]) (simp add: lwt_libev_init_def backend_val_def demo_libev_def c_int_def val_EVBACKEND_defs)
  moreover have "ev_step demo_libev (\<lambda>_. 1) (\<lambda>e. e) (?s, Map.empty) (demo_ev, [9 \<mapsto> (1, True, 77)])"
    by (rule step_readable [of _ _ 9 0 1 5 77 _ "Caml_ptr (Some 9)"]) (simp add: libev_defs demo_libev_def demo_ev_def c_int_def)
  ultimately show ?thesis using reach_start [of "\<lambda>e. e" "{}"] by (blast intro: reach_step)
qed

section \<open>Properties\<close>

text \<open>
  C17. Watchers are used safely. In every state that the program and libev can reach through the stubs: the watchers in
  memory and the registered roots are exactly those of the watchers the program has started and not stopped, each once; libev
  refers to no other watcher; whenever libev calls the handler of a watcher it refers to, the handler finds the watcher
  in memory and calls exactly the closure given when it was started, outside blocking sections; and stopping a
  watcher succeeds, after which libev no longer refers to it and its memory and root are released.
\<close>

theorem libev_watchers_safe:
  assumes "libev_ok L refs" and "ev_reach L K refs (s, own)"
  shows "dom (watchers s) = dom own \<and> set (ev_roots s) = dom own \<and> distinct (ev_roots s) \<and>
    (\<forall>l w. (l, w) \<in> refs (ev s) \<longrightarrow>
       (\<exists>k cb. own w = Some (l, k, cb) \<and> invoke_handler w s = Some (s\<lparr>called := called s @ [cb]\<rparr>))) \<and>
    (\<forall>w l k cb. own w = Some (l, k, cb) \<longrightarrow>
       (\<exists>r s'. (if k then lwt_libev_io_stop L l w s else lwt_libev_timer_stop L l w s) = Some (r, s') \<and>
          (l, w) \<notin> refs (ev s') \<and> watchers s' w = None \<and> w \<notin> set (ev_roots s') \<and> called s' = called s))"
proof -
  note i = inv_reach [OF assms]
  then have d: "distinct (ev_roots s)" by (simp add: ev_inv_def)
  have "\<exists>r s'. (if k then lwt_libev_io_stop L l w s else lwt_libev_timer_stop L l w s) = Some (r, s') \<and>
      (l, w) \<notin> refs (ev s') \<and> watchers s' w = None \<and> w \<notin> set (ev_roots s') \<and> called s' = called s"
    if o: "own w = Some (l, k, cb)" for w l k cb
  proof -
    obtain r s' where r: "(if k then lwt_libev_io_stop L l w s else lwt_libev_timer_stop L l w s) = Some (r, s')"
      using inv_stop_ok [OF i o, of L] by blast
    then obtain e where "s' = s\<lparr>watchers := (watchers s)(w := None), ev_roots := remove1 w (ev_roots s), ev := e\<rparr>"
      "refs e \<subseteq> refs (ev s) - {(l, w)}"
      using stop_shape [OF assms(1)] by (meson option.inject)
    with r d show ?thesis by auto
  qed
  with i inv_handler [OF i] show ?thesis by (auto simp: ev_inv_def)
qed

theorem libev_watchers_safe_witness:
  "invoke_handler 9 demo_ev = Some (demo_ev\<lparr>called := [77]\<rparr>) \<and>
   (\<exists>r s'. lwt_libev_io_stop demo_libev 1 9 demo_ev = Some (r, s') \<and> ev s' = {} \<and> watchers s' 9 = None \<and> 9 \<notin> set (ev_roots s'))"
proof -
  note w = libev_watchers_safe [OF demo_libev_ok demo_ev_reach]
  have "invoke_handler 9 demo_ev = Some (demo_ev\<lparr>called := [77]\<rparr>)"
    using w [THEN conjunct2, THEN conjunct2, THEN conjunct2, THEN conjunct1, rule_format, of 1 9] by (auto simp: demo_ev_def)
  moreover have "\<exists>r s'. lwt_libev_io_stop demo_libev 1 9 demo_ev = Some (r, s') \<and> watchers s' 9 = None \<and> 9 \<notin> set (ev_roots s')"
    using w [THEN conjunct2, THEN conjunct2, THEN conjunct2, THEN conjunct2, rule_format, of 9 1 True 77] by auto
  ultimately show ?thesis by (auto simp: libev_defs demo_libev_def demo_ev_def)
qed

text \<open>
  One turn of the event loop. \<^verbatim>\<open>lwt_libev_loop\<close> on a live loop returns, in a state that is again covered by the previous
  property and outside any blocking section, when libev's function for the pending watchers only calls handlers.
\<close>

theorem libev_loop_safe:
  assumes "libev_ok L refs" and "ev_reach L K refs (s, own)" and "l \<in> loops s" and "invoke_ok L K refs ip"
  shows "\<exists>s' own'. lwt_libev_loop L K ip l b s = Some (Val_unit, s') \<and> ev_reach L K refs (s', own') \<and> \<not> blocking_section s'"
proof -
  obtain t where t: "libev_poll L K l b s = Some t" using inv_poll_ok [OF inv_reach [OF assms(1,2)] assms(3)] by blast
  have rt: "ev_reach L K refs (t, own)" using assms(2) t by (auto intro: reach_step step_poll)
  have "l \<in> loops t" using poll_shape [OF assms(1) t] assms(3) by auto
  then obtain s' own' where s': "ip l t = Some s'" "(ev_step L K refs)\<^sup>*\<^sup>* (t, own) (s', own')"
    using assms(4) rt unfolding invoke_ok_def by blast
  have "ev_reach L K refs (s', own')" using reach_steps [OF s'(2) rt] .
  moreover have "\<not> blocking_section s'" using inv_reach [OF assms(1) calculation] by (simp add: ev_inv_def)
  ultimately show ?thesis using t s'(1) by (auto simp: lwt_libev_loop_def)
qed

theorem libev_loop_safe_witness:
  "\<exists>s' own'. lwt_libev_loop demo_libev (\<lambda>_. 1) (\<lambda>l. Some) 1 True demo_ev = Some (Val_unit, s') \<and>
     ev_reach demo_libev (\<lambda>_. 1) (\<lambda>e. e) (s', own') \<and> \<not> blocking_section s'"
proof (rule libev_loop_safe [OF demo_libev_ok demo_ev_reach])
  show "1 \<in> loops demo_ev" by (simp add: demo_ev_def)
  show "invoke_ok demo_libev (\<lambda>_. 1) (\<lambda>e. e) (\<lambda>l. Some)" by (auto simp: invoke_ok_def)
qed

text \<open>
  Starting watchers. A watcher for a readable or writable descriptor carries that descriptor and event; a timer is set to the
  requested delay corrected by the time passed since libev last looked at the clock, and it repeats with the delay itself
  exactly when asked to. Both carry the closure, and libev gets the finished watcher.
\<close>

theorem libev_init_correct:
  assumes "watchers s a = None" and "l \<in> loops s"
  shows
    "lwt_libev_readable_init L K a d l fd cb s = (let v = Ev_io ''handle_io'' (c_int fd) (K ''EV_READ'') cb in
       Some (Caml_ptr (Some a), s\<lparr>watchers := (watchers s)(a \<mapsto> v), ev_roots := a # ev_roots s, ev := ev_io_start L l a v (ev s)\<rparr>)) \<and>
     lwt_libev_writable_init L K a d l fd cb s = (let v = Ev_io ''handle_io'' (c_int fd) (K ''EV_WRITE'') cb in
       Some (Caml_ptr (Some a), s\<lparr>watchers := (watchers s)(a \<mapsto> v), ev_roots := a # ev_roots s, ev := ev_io_start L l a v (ev s)\<rparr>)) \<and>
     lwt_libev_timer_init L a d l delay rep cb s =
       (let v = Ev_timer ''handle_timer'' (delay + ev_time L (ev s) - ev_now L l (ev s)) (if rep then delay else 0) cb in
        Some (Caml_ptr (Some a), s\<lparr>watchers := (watchers s)(a \<mapsto> v), ev_roots := a # ev_roots s, ev := ev_timer_start L l a v (ev s)\<rparr>))"
  using assms by (auto simp: libev_defs)

theorem libev_init_correct_witness:
  "\<exists>s'. lwt_libev_timer_init demo_libev 3 0 1 10 True 5 demo_ev = Some (Caml_ptr (Some 3), s') \<and>
     watchers s' 3 = Some (Ev_timer ''handle_timer'' 12 10 5)"
  using libev_init_correct [of demo_ev 3 1 demo_libev "\<lambda>_. 1" 0 4 5 10 True]
  by (simp add: demo_ev_def demo_libev_def)

text \<open>
  Backends. Every backend of the OCaml type is passed to libev as the flag of the same name, and a loop that uses
  the backend it was asked for reports it back as the same OCaml value.
\<close>

theorem libev_backend_roundtrip:
  assumes "1 \<le> v" and "v \<le> 6" and "l \<in> loops s" and "backend_val K v = Some b" and "ev_backend L l (ev s) = b"
    and "distinct (map K [''EVBACKEND_SELECT'', ''EVBACKEND_POLL'', ''EVBACKEND_EPOLL'', ''EVBACKEND_KQUEUE'', ''EVBACKEND_DEVPOLL'', ''EVBACKEND_PORT''])"
  shows "lwt_libev_backend L K l s = Some (Imm v)"
proof -
  consider "v = 1" | "v = 2" | "v = 3" | "v = 4" | "v = 5" | "v = 6" using assms(1,2) by linarith
  then show ?thesis
    using assms(3-6) by cases
      ((simp_all add: lwt_libev_backend_def live_loop_def val_EVBACKEND_defs backend_val_def c_int_id caml_int_id Val_int_def Let_def), auto)
qed

theorem libev_backend_roundtrip_witness:
  "lwt_libev_backend demo_libev (\<lambda>n. int (length n)) 1 demo_ev = None \<and>
   lwt_libev_backend demo_libev (\<lambda>n. if n = ''EVBACKEND_SELECT'' then 1 else if n = ''EVBACKEND_POLL'' then 2 else if n = ''EVBACKEND_EPOLL'' then 4
     else if n = ''EVBACKEND_KQUEUE'' then 8 else if n = ''EVBACKEND_DEVPOLL'' then 16 else 32) 1 demo_ev = Some (Imm 3)"
  using libev_backend_roundtrip [of 3 1 demo_ev "\<lambda>n. if n = ''EVBACKEND_SELECT'' then 1 else if n = ''EVBACKEND_POLL'' then 2 else if n = ''EVBACKEND_EPOLL'' then 4
     else if n = ''EVBACKEND_KQUEUE'' then 8 else if n = ''EVBACKEND_DEVPOLL'' then 16 else 32" 4 demo_libev]
  by (simp add: demo_ev_def demo_libev_def backend_val_def val_EVBACKEND_defs c_int_id lwt_libev_backend_def live_loop_def)

text \<open>
  The comparison of loops and watchers orders the addresses only when they are less than 2 GiB apart: the difference is
  converted to a 32-bit \<^verbatim>\<open>int\<close>, so that two different watchers at a distance of 4 GiB compare as equal, and one that is 2
  GiB above another compares as smaller.
\<close>

theorem libev_compare_truncates:
  "(\<forall>a b. \<bar>int a - int b\<bar> < 2 ^ 31 \<longrightarrow> compare_watchers a b = int a - int b \<and> compare_loops a b = int a - int b) \<and>
   compare_watchers (a + 2 ^ 32) a = 0 \<and> compare_loops (a + 2 ^ 32) a = 0 \<and>
   compare_watchers (a + 2 ^ 31) a < 0 \<and> compare_watchers a (a + 2 ^ 31) < 0"
proof -
  have c: "c_int (2 ^ 32) = 0" "c_int (2 ^ 31) < 0" "c_int (- (2 ^ 31)) < 0" by (simp_all add: c_int_def)
  have d: "int (a + 2 ^ 32) - int a = 2 ^ 32" "int (a + 2 ^ 31) - int a = 2 ^ 31" "int a - int (a + 2 ^ 31) = - (2 ^ 31)" by simp_all
  have "compare_watchers a b = int a - int b \<and> compare_loops a b = int a - int b" if "\<bar>int a - int b\<bar> < 2 ^ 31" for a b
    using that unfolding compare_watchers_def compare_loops_def by (simp add: c_int_id abs_less_iff)
  then show ?thesis using c d unfolding compare_watchers_def compare_loops_def by presburger
qed

theorem libev_compare_truncates_witness:
  "compare_watchers 4096 (4096 + 48) = -48 \<and> compare_watchers (4096 + 2 ^ 32) 4096 = 0"
  using libev_compare_truncates [of 4096] by auto

end
