(* ===== verification/Termios.thy ===== *)
theory Termios
  imports Io_Jobs
begin

text \<open>
  Terminal settings: the conversion between \<^verbatim>\<open>struct termios\<close> and the OCaml record \<^verbatim>\<open>Unix.terminal_io\<close>
  (\<^verbatim>\<open>unix_termios_conversion.c\<close>), which interprets a table of integers, and the jobs \<^verbatim>\<open>unix_tcgetattr_job.c\<close> and \<^verbatim>\<open>unix_tcsetattr_job.c\<close>.

  A locale states what is needed of fields that are read and written one after the other; it is interpreted for the entries
  of the table, and gives the round trip.
\<close>

unbundle bit_operations_syntax

section \<open>The structure and the table\<close>

text \<open>
  The flag words have the width of \<^verbatim>\<open>tcflag_t\<close>, the control characters that of \<^verbatim>\<open>cc_t\<close>. \<open>t_rest\<close> is the rest of the structure, where the
  system keeps the speeds.
\<close>

record 'sp termios =
  c_iflag :: "32 word"
  c_oflag :: "32 word"
  c_cflag :: "32 word"
  c_lflag :: "32 word"
  c_cc :: "8 word list"
  t_rest :: 'sp

text \<open>The enumerations that tag the entries of the table.\<close>

definition Tag_Bool :: int where "Tag_Bool = 0"
definition Tag_Enum :: int where "Tag_Enum = 1"
definition Tag_Speed :: int where "Tag_Speed = 2"
definition Tag_Char :: int where "Tag_Char = 3"
definition Tag_End :: int where "Tag_End = 4"
definition Speed_Input :: int where "Speed_Input = 0"
definition Speed_Output :: int where "Speed_Output = 1"
definition Iflags :: int where "Iflags = 0"
definition Oflags :: int where "Oflags = 1"
definition Cflags :: int where "Cflags = 2"
definition Lflags :: int where "Lflags = 3"

lemmas tag_defs =
  Tag_Bool_def Tag_Enum_def Tag_Speed_def Tag_Char_def Tag_End_def Speed_Input_def Speed_Output_def
  Iflags_def Oflags_def Cflags_def Lflags_def

definition terminal_io_descr :: "(string \<Rightarrow> int) \<Rightarrow> int list" where
  "terminal_io_descr K = [
     Tag_Bool, Iflags, K ''IGNBRK'', Tag_Bool, Iflags, K ''BRKINT'', Tag_Bool, Iflags, K ''IGNPAR'', Tag_Bool,
     Iflags, K ''PARMRK'', Tag_Bool, Iflags, K ''INPCK'', Tag_Bool, Iflags, K ''ISTRIP'', Tag_Bool, Iflags,
     K ''INLCR'', Tag_Bool, Iflags, K ''IGNCR'', Tag_Bool, Iflags, K ''ICRNL'', Tag_Bool, Iflags, K ''IXON'', Tag_Bool,
     Iflags, K ''IXOFF'',
     Tag_Bool, Oflags, K ''OPOST'',
     Tag_Speed, Speed_Output, Tag_Speed, Speed_Input, Tag_Enum, Cflags, 5, 4, K ''CSIZE'', K ''CS5'', K ''CS6'', K ''CS7'', K ''CS8'',
     Tag_Enum, Cflags, 1, 2, K ''CSTOPB'', 0, K ''CSTOPB'', Tag_Bool, Cflags, K ''CREAD'', Tag_Bool, Cflags,
     K ''PARENB'', Tag_Bool, Cflags, K ''PARODD'', Tag_Bool, Cflags, K ''HUPCL'', Tag_Bool, Cflags, K ''CLOCAL'',
     Tag_Bool, Lflags, K ''ISIG'', Tag_Bool, Lflags, K ''ICANON'', Tag_Bool, Lflags, K ''NOFLSH'', Tag_Bool,
     Lflags, K ''ECHO'', Tag_Bool, Lflags, K ''ECHOE'', Tag_Bool, Lflags, K ''ECHOK'', Tag_Bool, Lflags,
     K ''ECHONL'',
     Tag_Char, K ''VINTR'', Tag_Char, K ''VQUIT'', Tag_Char, K ''VERASE'', Tag_Char, K ''VKILL'', Tag_Char, K ''VEOF'', Tag_Char, K ''VEOL'',
     Tag_Char, K ''VMIN'', Tag_Char, K ''VTIME'', Tag_Char, K ''VSTART'', Tag_Char, K ''VSTOP'', Tag_End]"

text \<open>The table of speeds; \<open>D\<close> says which of the optional constants the platform defines.\<close>

definition if_defined :: "(string \<Rightarrow> bool) \<Rightarrow> (string \<Rightarrow> int) \<Rightarrow> string \<Rightarrow> int \<Rightarrow> (int \<times> int) list" where
  "if_defined D K name baud = (if D name then [(K name, baud)] else [])"

definition speedtable :: "(string \<Rightarrow> bool) \<Rightarrow> (string \<Rightarrow> int) \<Rightarrow> (int \<times> int) list" where
  "speedtable D K =
     [(K ''B50'', 50), (K ''B75'', 75), (K ''B110'', 110), (K ''B134'', 134), (K ''B150'', 150)] @
     if_defined D K ''B200'' 200 @
     [(K ''B300'', 300), (K ''B600'', 600), (K ''B1200'', 1200), (K ''B1800'', 1800), (K ''B2400'', 2400),
      (K ''B4800'', 4800), (K ''B9600'', 9600), (K ''B19200'', 19200), (K ''B38400'', 38400)] @
     if_defined D K ''B57600'' 57600 @ if_defined D K ''B115200'' 115200 @ if_defined D K ''B230400'' 230400 @
     [(K ''B0'', 0)] @
     if_defined D K ''B460800'' 460800 @ if_defined D K ''B500000'' 500000 @ if_defined D K ''B576000'' 576000 @
     if_defined D K ''B921600'' 921600 @ if_defined D K ''B1000000'' 1000000 @ if_defined D K ''B1152000'' 1152000 @
     if_defined D K ''B1500000'' 1500000 @ if_defined D K ''B2000000'' 2000000 @ if_defined D K ''B2500000'' 2500000 @
     if_defined D K ''B3000000'' 3000000 @ if_defined D K ''B3500000'' 3500000 @ if_defined D K ''B4000000'' 4000000 @
     if_defined D K ''B7200'' 7200 @ if_defined D K ''B14400'' 14400 @ if_defined D K ''B28800'' 28800 @
     if_defined D K ''B76800'' 76800 @ if_defined D K ''B128000'' 128000 @ if_defined D K ''B256000'' 256000"

section \<open>The conversions\<close>

text \<open>The pointer to a flag word that \<^verbatim>\<open>choose_field\<close> returns; a null pointer is \<open>None\<close>.\<close>

datatype flag_field = F_iflag | F_oflag | F_cflag | F_lflag

definition choose_field :: "int \<Rightarrow> flag_field option" where
  "choose_field field = (
     if field = Iflags then Some F_iflag
     else if field = Oflags then Some F_oflag
     else if field = Cflags then Some F_cflag
     else if field = Lflags then Some F_lflag
     else None)"

fun load :: "flag_field \<Rightarrow> 'sp termios \<Rightarrow> 32 word" where
  "load F_iflag t = c_iflag t"
| "load F_oflag t = c_oflag t"
| "load F_cflag t = c_cflag t"
| "load F_lflag t = c_lflag t"

fun store :: "flag_field \<Rightarrow> 32 word \<Rightarrow> 'sp termios \<Rightarrow> 'sp termios" where
  "store F_iflag v t = t\<lparr>c_iflag := v\<rparr>"
| "store F_oflag v t = t\<lparr>c_oflag := v\<rparr>"
| "store F_cflag v t = t\<lparr>c_cflag := v\<rparr>"
| "store F_lflag v t = t\<lparr>c_lflag := v\<rparr>"

text \<open>\<^verbatim>\<open>Int_val\<close> on an immediate value; the record holds no others.\<close>

fun Int_val :: "caml_value \<Rightarrow> int option" where
  "Int_val (Imm i) = Some (c_int i)"
| "Int_val _ = None"

text \<open>The functions for the speeds, from libc.\<close>

record 'sp speed_fns =
  cfgetospeed :: "'sp termios \<Rightarrow> int"
  cfgetispeed :: "'sp termios \<Rightarrow> int"
  cfsetospeed :: "int \<Rightarrow> 'sp termios \<Rightarrow> int \<Rightarrow> int \<times> int \<times> 'sp termios"
  cfsetispeed :: "int \<Rightarrow> 'sp termios \<Rightarrow> int \<Rightarrow> int \<times> int \<times> 'sp termios"

definition get_speed :: "'sp speed_fns \<Rightarrow> int \<Rightarrow> 'sp termios \<Rightarrow> int" where
  "get_speed S which t = (
     if which = Speed_Output then cfgetospeed S t
     else if which = Speed_Input then cfgetispeed S t else 0)"

definition set_speed :: "'sp speed_fns \<Rightarrow> int \<Rightarrow> int \<Rightarrow> 'sp termios \<Rightarrow> int \<Rightarrow> int \<times> int \<times> 'sp termios" where
  "set_speed S which speed t e = (
     if which = Speed_Output then cfsetospeed S speed t e
     else if which = Speed_Input then cfsetispeed S speed t e else (0, e, t))"

text \<open>The first index \<open>i\<close> with \<^verbatim>\<open>pc[i]\<close> equal to \<open>x\<close>.\<close>

fun first_index :: "int \<Rightarrow> int list \<Rightarrow> nat \<Rightarrow> nat option" where
  "first_index x [] i = None"
| "first_index x (y # ys) i = (if x = y then Some i else first_index x ys (Suc i))"

text \<open>
  One round of the loop of \<^verbatim>\<open>encode_terminal_status\<close> after the tag was read: the value stored in \<^verbatim>\<open>*dst\<close>, which held \<open>d\<close>, and the
  rest of the table.
\<close>

definition encode_step :: "(int \<times> int) list \<Rightarrow> 'sp speed_fns \<Rightarrow> 'sp termios \<Rightarrow> int \<Rightarrow> int list \<Rightarrow> caml_value
    \<Rightarrow> (caml_value \<times> int list) option" where
  "encode_step tbl S t tag pc d = (
     if tag = Tag_Bool then (case pc of
         field # msk # pc \<Rightarrow> do {
           src \<leftarrow> choose_field field;
           Some (Val_bool ((load src t AND word_of_int msk) \<noteq> 0), pc)
         }
       | _ \<Rightarrow> None)
     else if tag = Tag_Enum then (case pc of
         field # ofs # num # msk # pc \<Rightarrow> do {
           src \<leftarrow> choose_field field;
           (if nat num \<le> length pc then Some () else None);
           Some (case first_index (uint (load src t AND word_of_int msk)) (take (nat num) pc) 0 of
                   Some i \<Rightarrow> Val_int (int i + ofs)
                 | None \<Rightarrow> d, drop (nat num) pc)
         }
       | _ \<Rightarrow> None)
     else if tag = Tag_Speed then (case pc of
         which # pc \<Rightarrow>
           let speed = get_speed S which t
           in Some (case find (\<lambda>(s, b). speed = s) tbl of
                      Some (_, baud) \<Rightarrow> Val_int baud
                    | None \<Rightarrow> Val_int 9600, pc)
       | _ \<Rightarrow> None)
     else if tag = Tag_Char then (case pc of
         which # pc \<Rightarrow> do {
           (if 0 \<le> which \<and> nat which < length (c_cc t) then Some () else None);
           Some (Val_int (uint (c_cc t ! nat which)), pc)
         }
       | _ \<Rightarrow> None)
     else Some (d, pc))"

lemma encode_step_shorter: "encode_step tbl S t tag pc d = Some (v, pc') \<Longrightarrow> length pc' \<le> length pc"
  by (auto simp: encode_step_def Let_def bind_Some_iff split: if_splits list.splits)

text \<open>The loop, up to the tag \<^verbatim>\<open>End\<close>; reading past the table or writing past the record fails.\<close>

function encode_terminal_status :: "(int \<times> int) list \<Rightarrow> 'sp speed_fns \<Rightarrow> 'sp termios \<Rightarrow> int list \<Rightarrow> caml_value list
    \<Rightarrow> caml_value list option" where
  "encode_terminal_status tbl S t [] dst = None"
| "encode_terminal_status tbl S t (tag # pc) dst = (
     if tag = Tag_End then Some dst
     else case dst of
       [] \<Rightarrow> None
     | d # dst \<Rightarrow> (case encode_step tbl S t tag pc d of
           None \<Rightarrow> None
         | Some (v, pc') \<Rightarrow> map_option (Cons v) (encode_terminal_status tbl S t pc' dst)))"
  by pat_completeness auto
termination
  by (relation "measure (\<lambda>(tbl, S, t, pc, dst). length pc)") (auto dest: encode_step_shorter)

text \<open>
  One round of \<^verbatim>\<open>decode_terminal_status\<close>: the value to return at once, if any, \<^verbatim>\<open>errno\<close>, the new structure, and the rest of the table.
\<close>

definition decode_step :: "(string \<Rightarrow> int) \<Rightarrow> (int \<times> int) list \<Rightarrow> 'sp speed_fns \<Rightarrow> int \<Rightarrow> int list \<Rightarrow> caml_value \<Rightarrow> 'sp termios \<Rightarrow> int
    \<Rightarrow> (int option \<times> int \<times> 'sp termios \<times> int list) option" where
  "decode_step K tbl S tag pc src t e = (
     if tag = Tag_Bool then (case pc of
         field # msk # pc \<Rightarrow> do {
           dst \<leftarrow> choose_field field;
           v \<leftarrow> Int_val src;
           let m = word_of_int msk;
           Some (None, e, store dst (if v \<noteq> 0 then load dst t OR m else load dst t AND NOT m) t, pc)
         }
       | _ \<Rightarrow> None)
     else if tag = Tag_Enum then (case pc of
         field # ofs # num # msk # pc \<Rightarrow> do {
           dst \<leftarrow> choose_field field;
           v \<leftarrow> Int_val src;
           let i = v - ofs;
           (if nat num \<le> length pc then Some () else None);
           if 0 \<le> i \<and> i < num
           then Some (None, e, store dst ((load dst t AND NOT (word_of_int msk)) OR word_of_int (pc ! nat i)) t, drop (nat num) pc)
           else Some (Some (K ''EINVAL''), K ''EINVAL'', t, pc)
         }
       | _ \<Rightarrow> None)
     else if tag = Tag_Speed then (case pc of
         which # pc \<Rightarrow> do {
           baud \<leftarrow> Int_val src;
           case find (\<lambda>(s, b). baud = b) tbl of
             None \<Rightarrow> Some (Some (K ''EINVAL''), K ''EINVAL'', t, pc)
           | Some (speed, _) \<Rightarrow>
               let res = set_speed S which speed t e
               in Some (if fst res = -1 then Some (fst res) else None, fst (snd res), snd (snd res), pc)
         }
       | _ \<Rightarrow> None)
     else if tag = Tag_Char then (case pc of
         which # pc \<Rightarrow> do {
           v \<leftarrow> Int_val src;
           (if 0 \<le> which \<and> nat which < length (c_cc t) then Some () else None);
           Some (None, e, t\<lparr>c_cc := (c_cc t)[nat which := word_of_int v]\<rparr>, pc)
         }
       | _ \<Rightarrow> None)
     else Some (None, e, t, pc))"

lemma decode_step_shorter: "decode_step K tbl S tag pc src t e = Some (r, e', t', pc') \<Longrightarrow> length pc' \<le> length pc"
  by (auto simp: decode_step_def Let_def bind_Some_iff split: if_splits list.splits option.splits prod.splits)

function decode_terminal_status :: "(string \<Rightarrow> int) \<Rightarrow> (int \<times> int) list \<Rightarrow> 'sp speed_fns \<Rightarrow> int list \<Rightarrow> caml_value list \<Rightarrow> 'sp termios \<Rightarrow> int
    \<Rightarrow> (int \<times> int \<times> 'sp termios) option" where
  "decode_terminal_status K tbl S [] src t e = None"
| "decode_terminal_status K tbl S (tag # pc) src t e = (
     if tag = Tag_End then Some (0, e, t)
     else case src of
       [] \<Rightarrow> None
     | v # src \<Rightarrow> (case decode_step K tbl S tag pc v t e of
           None \<Rightarrow> None
         | Some (r, e, t, pc') \<Rightarrow> (case r of Some r \<Rightarrow> Some (r, e, t) | None \<Rightarrow> decode_terminal_status K tbl S pc' src t e)))"
  by pat_completeness auto
termination
  by (relation "measure (\<lambda>(K, tbl, S, pc, src, t, e). length pc)") (auto dest: decode_step_shorter)

section \<open>The table as a list of entries\<close>

datatype entry =
    E_bool flag_field int
  | E_enum flag_field int int "int list"
  | E_speed int
  | E_char int

fun field_code :: "flag_field \<Rightarrow> int" where
  "field_code F_iflag = Iflags"
| "field_code F_oflag = Oflags"
| "field_code F_cflag = Cflags"
| "field_code F_lflag = Lflags"

lemma choose_field_code [simp]: "choose_field (field_code f) = Some f"
  by (cases f) (simp_all add: choose_field_def tag_defs)

fun flat :: "entry \<Rightarrow> int list" where
  "flat (E_bool f m) = [Tag_Bool, field_code f, m]"
| "flat (E_enum f ofs m cs) = [Tag_Enum, field_code f, ofs, int (length cs), m] @ cs"
| "flat (E_speed w) = [Tag_Speed, w]"
| "flat (E_char w) = [Tag_Char, w]"

definition entries :: "(string \<Rightarrow> int) \<Rightarrow> entry list" where
  "entries K =
     map (\<lambda>n. E_bool F_iflag (K n)) [''IGNBRK'', ''BRKINT'', ''IGNPAR'', ''PARMRK'', ''INPCK'', ''ISTRIP'', ''INLCR'', ''IGNCR'', ''ICRNL'', ''IXON'', ''IXOFF''] @
     [E_bool F_oflag (K ''OPOST''), E_speed Speed_Output, E_speed Speed_Input,
      E_enum F_cflag 5 (K ''CSIZE'') [K ''CS5'', K ''CS6'', K ''CS7'', K ''CS8''], E_enum F_cflag 1 (K ''CSTOPB'') [0, K ''CSTOPB'']] @
     map (\<lambda>n. E_bool F_cflag (K n)) [''CREAD'', ''PARENB'', ''PARODD'', ''HUPCL'', ''CLOCAL''] @
     map (\<lambda>n. E_bool F_lflag (K n)) [''ISIG'', ''ICANON'', ''NOFLSH'', ''ECHO'', ''ECHOE'', ''ECHOK'', ''ECHONL''] @
     map (\<lambda>n. E_char (K n)) [''VINTR'', ''VQUIT'', ''VERASE'', ''VKILL'', ''VEOF'', ''VEOL'', ''VMIN'', ''VTIME'', ''VSTART'', ''VSTOP'']"

lemma descr_entries: "terminal_io_descr K = concat (map flat (entries K)) @ [Tag_End]"
  by (simp add: terminal_io_descr_def entries_def)

lemma length_entries: "length (entries K) = 38"
  by (simp add: entries_def)

text \<open>What one round does for an entry.\<close>

fun get_entry :: "(int \<times> int) list \<Rightarrow> 'sp speed_fns \<Rightarrow> entry \<Rightarrow> caml_value \<Rightarrow> 'sp termios \<Rightarrow> caml_value option" where
  "get_entry tbl S (E_bool f m) d t = Some (Val_bool ((load f t AND word_of_int m) \<noteq> 0))"
| "get_entry tbl S (E_enum f ofs m cs) d t =
     Some (case first_index (uint (load f t AND word_of_int m)) cs 0 of Some i \<Rightarrow> Val_int (int i + ofs) | None \<Rightarrow> d)"
| "get_entry tbl S (E_speed w) d t =
     Some (case find (\<lambda>(s, b). get_speed S w t = s) tbl of Some (_, baud) \<Rightarrow> Val_int baud | None \<Rightarrow> Val_int 9600)"
| "get_entry tbl S (E_char w) d t = (if 0 \<le> w \<and> nat w < length (c_cc t) then Some (Val_int (uint (c_cc t ! nat w))) else None)"

fun put_entry :: "(string \<Rightarrow> int) \<Rightarrow> (int \<times> int) list \<Rightarrow> 'sp speed_fns \<Rightarrow> entry \<Rightarrow> caml_value \<Rightarrow> 'sp termios \<Rightarrow> int \<Rightarrow> (int option \<times> int \<times> 'sp termios) option" where
  "put_entry K tbl S (E_bool f m) v t e = do {
     v \<leftarrow> Int_val v;
     Some (None, e, store f (if v \<noteq> 0 then load f t OR word_of_int m else load f t AND NOT (word_of_int m)) t)
   }"
| "put_entry K tbl S (E_enum f ofs m cs) v t e = do {
     v \<leftarrow> Int_val v;
     let i = v - ofs;
     Some (if 0 \<le> i \<and> i < int (length cs)
           then (None, e, store f ((load f t AND NOT (word_of_int m)) OR word_of_int (cs ! nat i)) t)
           else (Some (K ''EINVAL''), K ''EINVAL'', t))
   }"
| "put_entry K tbl S (E_speed w) v t e = do {
     baud \<leftarrow> Int_val v;
     Some (case find (\<lambda>(s, b). baud = b) tbl of
         None \<Rightarrow> (Some (K ''EINVAL''), K ''EINVAL'', t)
       | Some (speed, _) \<Rightarrow> let res = set_speed S w speed t e in (if fst res = -1 then Some (fst res) else None, fst (snd res), snd (snd res)))
   }"
| "put_entry K tbl S (E_char w) v t e = do {
     v \<leftarrow> Int_val v;
     if 0 \<le> w \<and> nat w < length (c_cc t) then Some (None, e, t\<lparr>c_cc := (c_cc t)[nat w := word_of_int v]\<rparr>) else None
   }"

fun get_all :: "('e \<Rightarrow> 'v \<Rightarrow> 't \<Rightarrow> 'v option) \<Rightarrow> 'e list \<Rightarrow> 'v list \<Rightarrow> 't \<Rightarrow> 'v list option" where
  "get_all get [] ds t = Some ds"
| "get_all get (e # es) [] t = None"
| "get_all get (e # es) (d # ds) t = do { v \<leftarrow> get e d t; vs \<leftarrow> get_all get es ds t; Some (v # vs) }"

fun put_all :: "('e \<Rightarrow> 'v \<Rightarrow> 't \<Rightarrow> int \<Rightarrow> (int option \<times> int \<times> 't) option) \<Rightarrow> 'e list \<Rightarrow> 'v list \<Rightarrow> 't \<Rightarrow> int \<Rightarrow> (int \<times> int \<times> 't) option" where
  "put_all put [] vs t e = Some (0, e, t)"
| "put_all put (x # xs) [] t e = None"
| "put_all put (x # xs) (v # vs) t e = do {
     (r, e, t) \<leftarrow> put x v t e;
     case r of Some r \<Rightarrow> Some (r, e, t) | None \<Rightarrow> put_all put xs vs t e
   }"

lemma tags_distinct [simp]:
  "Tag_Bool \<noteq> Tag_End" "Tag_Enum \<noteq> Tag_End" "Tag_Speed \<noteq> Tag_End" "Tag_Char \<noteq> Tag_End" "Tag_Enum \<noteq> Tag_Bool"
  "Tag_Speed \<noteq> Tag_Bool" "Tag_Speed \<noteq> Tag_Enum" "Tag_Char \<noteq> Tag_Bool" "Tag_Char \<noteq> Tag_Enum" "Tag_Char \<noteq> Tag_Speed"
  by (simp_all add: tag_defs)

lemma encode_entry:
  "encode_terminal_status tbl S t (flat e @ pc) (d # dst) = do {
     v \<leftarrow> get_entry tbl S e d t; vs \<leftarrow> encode_terminal_status tbl S t pc dst; Some (v # vs) }"
  by (cases e) (auto simp: encode_step_def Let_def map_option_case split: option.splits)

lemma decode_entry:
  "decode_terminal_status K tbl S (flat x @ pc) (v # src) t e = do {
     (r, e, t) \<leftarrow> put_entry K tbl S x v t e;
     case r of Some r \<Rightarrow> Some (r, e, t) | None \<Rightarrow> decode_terminal_status K tbl S pc src t e }"
  by (cases x; cases "Int_val v") (auto simp: decode_step_def Let_def nth_append split_beta split: option.splits)

lemma flat_Cons: "\<exists>tag pc. flat e = tag # pc \<and> tag \<noteq> Tag_End"
  by (cases e) simp_all

lemma encode_entries:
  "encode_terminal_status tbl S t (concat (map flat es) @ [Tag_End]) dst = get_all (get_entry tbl S) es dst t"
proof (induction es arbitrary: dst)
  case (Cons e es)
  obtain tag pc where "flat e = tag # pc" "tag \<noteq> Tag_End" using flat_Cons by blast
  then have "encode_terminal_status tbl S t (flat e @ pc) [] = None" for pc by simp
  then show ?case by (cases dst) (simp_all add: encode_entry Cons)
qed simp

lemma decode_entries:
  "decode_terminal_status K tbl S (concat (map flat es) @ [Tag_End]) src t e = put_all (put_entry K tbl S) es src t e"
proof (induction es arbitrary: src t e)
  case (Cons x es)
  obtain tag pc where "flat x = tag # pc" "tag \<noteq> Tag_End" using flat_Cons by blast
  then have "decode_terminal_status K tbl S (flat x @ pc) [] t e = None" for pc by simp
  then show ?case by (cases src) (simp_all add: decode_entry Cons cong: option.case_cong)
qed simp

section \<open>Fields that do not overlap\<close>

text \<open>
  A structure with fields that are written and read one after the other. \<open>get e d t\<close> reads the field \<open>e\<close>, where \<open>d\<close> is the old content of
  the destination; \<open>put e v t err\<close> writes it and may return early or change \<^verbatim>\<open>errno\<close>. A field that is written with a legal
  value is read back, and writing a field does not disturb independent ones.
\<close>

locale fields =
  fixes get :: "'e \<Rightarrow> 'v \<Rightarrow> 't \<Rightarrow> 'v option"
    and put :: "'e \<Rightarrow> 'v \<Rightarrow> 't \<Rightarrow> int \<Rightarrow> (int option \<times> int \<times> 't) option"
    and good :: "'t \<Rightarrow> bool"
    and legal :: "'e \<Rightarrow> 'v \<Rightarrow> bool"
    and indep :: "'e \<Rightarrow> 'e \<Rightarrow> bool"
  assumes put_legal: "good t \<Longrightarrow> legal e v \<Longrightarrow>
      \<exists>t'. put e v t err = Some (None, err, t') \<and> good t' \<and> get e d t' = Some v \<and>
        (\<forall>e' d'. indep e e' \<longrightarrow> get e' d' t' = get e' d' t)"
begin

lemma put_all_legal:
  assumes "good t" and "list_all2 legal es vs"
  shows "\<exists>t'. put_all put es vs t err = Some (0, err, t') \<and> good t' \<and>
    (\<forall>e d. (\<forall>x\<in>set es. indep x e) \<longrightarrow> get e d t' = get e d t) \<and>
    (\<forall>ds. sorted_wrt (\<lambda>e e'. indep e' e) es \<longrightarrow> length ds = length es \<longrightarrow> get_all get es ds t' = Some vs)"
  using assms(2,1)
proof (induction arbitrary: t rule: list_all2_induct)
  case Nil
  then show ?case by simp
next
  case (Cons e es v vs)
  obtain u where u: "put e v t err = Some (None, err, u)" "good u" "\<And>d. get e d u = Some v"
    "\<And>x d. indep e x \<Longrightarrow> get x d u = get x d t"
    using put_legal [OF Cons.prems Cons.hyps(1), of err] by (metis option.inject prod.inject)
  obtain t' where t': "put_all put es vs u err = Some (0, err, t')" "good t'"
    "\<And>e d. (\<forall>x\<in>set es. indep x e) \<Longrightarrow> get e d t' = get e d u"
    "\<And>ds. sorted_wrt (\<lambda>e e'. indep e' e) es \<Longrightarrow> length ds = length es \<Longrightarrow> get_all get es ds t' = Some vs"
    using Cons.IH [OF u(2)] by auto
  have "get_all get (e # es) ds t' = Some (v # vs)"
    if "sorted_wrt (\<lambda>e e'. indep e' e) (e # es)" "length ds = length (e # es)" for ds
    using that t'(3,4) u(3) by (cases ds) auto
  with u t' show ?case by auto
qed

theorem round_trip:
  assumes "good t" and "list_all2 legal es vs" and "sorted_wrt (\<lambda>e e'. indep e' e) es" and "length ds = length es"
  shows "\<exists>t'. put_all put es vs t err = Some (0, err, t') \<and> good t' \<and> get_all get es ds t' = Some vs"
  using put_all_legal [OF assms(1,2)] assms(3,4) by blast

end

text \<open>
  What the conversion relies on: the constants of an entry are sensible, and setting a speed from the table succeeds and is read back.
\<close>

fun entry_ok :: "nat \<Rightarrow> (int \<times> int) list \<Rightarrow> 'sp speed_fns \<Rightarrow> entry \<Rightarrow> bool" where
  "entry_ok n tbl S (E_bool f m) \<longleftrightarrow> (word_of_int m :: 32 word) \<noteq> 0"
| "entry_ok n tbl S (E_enum f ofs m cs) \<longleftrightarrow> distinct cs \<and> 0 \<le> ofs \<and> ofs + int (length cs) < 2 ^ 31 \<and>
     (\<forall>c\<in>set cs. 0 \<le> c \<and> c < 2 ^ 32 \<and> word_of_int c AND word_of_int m = (word_of_int c :: 32 word))"
| "entry_ok n tbl S (E_speed w) \<longleftrightarrow> distinct (map fst tbl) \<and> distinct (map snd tbl) \<and> (\<forall>b\<in>snd ` set tbl. 0 \<le> b \<and> b < 2 ^ 31) \<and>
     (\<forall>s\<in>fst ` set tbl. \<forall>t. \<exists>t'. (\<forall>e. set_speed S w s t e = (0, e, t')) \<and> get_speed S w t' = s \<and> length (c_cc t') = length (c_cc t))"
| "entry_ok n tbl S (E_char w) \<longleftrightarrow> 0 \<le> w \<and> nat w < n"

text \<open>The values that OCaml may pass for an entry.\<close>

fun value_ok :: "(int \<times> int) list \<Rightarrow> entry \<Rightarrow> caml_value \<Rightarrow> bool" where
  "value_ok tbl (E_bool f m) v \<longleftrightarrow> v = Imm 0 \<or> v = Imm 1"
| "value_ok tbl (E_enum f ofs m cs) v \<longleftrightarrow> v \<in> Imm ` {ofs ..< ofs + int (length cs)}"
| "value_ok tbl (E_speed w) v \<longleftrightarrow> v \<in> Imm ` snd ` set tbl"
| "value_ok tbl (E_char w) v \<longleftrightarrow> v \<in> Imm ` {0 ..< 256}"

text \<open>
  Independent entries: different words, disjoint masks, different characters; and the speeds are kept apart from each other and from what
  else the table describes.
\<close>

fun flag_of :: "entry \<Rightarrow> (flag_field \<times> 32 word) option" where
  "flag_of (E_bool f m) = Some (f, word_of_int m)"
| "flag_of (E_enum f ofs m cs) = Some (f, word_of_int m)"
| "flag_of _ = None"

fun indep :: "'sp speed_fns \<Rightarrow> entry \<Rightarrow> entry \<Rightarrow> bool" where
  "indep S (E_char w) (E_char w') \<longleftrightarrow> w \<noteq> w'"
| "indep S (E_char w) (E_speed w') \<longleftrightarrow> (\<forall>t cs. get_speed S w' (t\<lparr>c_cc := cs\<rparr>) = get_speed S w' t)"
| "indep S (E_char w) _ \<longleftrightarrow> True"
| "indep S (E_speed w) (E_speed w') \<longleftrightarrow> w \<noteq> w' \<and> (\<forall>s t e. get_speed S w' (snd (snd (set_speed S w s t e))) = get_speed S w' t)"
| "indep S (E_speed w) (E_char w') \<longleftrightarrow> (\<forall>s t e. c_cc (snd (snd (set_speed S w s t e))) = c_cc t)"
| "indep S (E_speed w) x \<longleftrightarrow> (case flag_of x of Some (f, m) \<Rightarrow>
     \<forall>s t e. load f (snd (snd (set_speed S w s t e))) AND m = load f t AND m | None \<Rightarrow> False)"
| "indep S x y \<longleftrightarrow> (case flag_of x of Some (f, m) \<Rightarrow> (case y of
       E_char w \<Rightarrow> True
     | E_speed w \<Rightarrow> \<forall>t b. b AND m = b \<longrightarrow> get_speed S w (store f ((load f t AND NOT m) OR b) t) = get_speed S w t
     | _ \<Rightarrow> (case flag_of y of Some (g, k) \<Rightarrow> f \<noteq> g \<or> m AND k = 0 | None \<Rightarrow> False)) | None \<Rightarrow> False)"

section \<open>The entries are fields\<close>

lemma load_store [simp]: "load f (store f v t) = v" "f \<noteq> g \<Longrightarrow> load g (store f v t) = load g t" "c_cc (store f v t) = c_cc t"
  by (cases f; cases g; simp)+

lemma masked_write:
  fixes x :: "32 word"
  shows "b AND m = b \<Longrightarrow> ((x AND NOT m) OR b) AND m = b"
    and "b AND m = b \<Longrightarrow> m AND k = 0 \<Longrightarrow> ((x AND NOT m) OR b) AND k = x AND k"
  by (auto simp: bit_eq_iff bit_simps)

lemma flag_bits:
  fixes x :: "32 word"
  shows "x OR m = (x AND NOT m) OR m" and "x AND NOT m = (x AND NOT m) OR 0"
  by (auto simp: bit_eq_iff bit_simps)

lemma find_fst: "distinct (map fst tbl) \<Longrightarrow> (s, b) \<in> set tbl \<Longrightarrow> find (\<lambda>(s', b'). s = s') tbl = Some (s, b)"
  by (induction tbl) (auto simp: image_iff)

lemma find_snd: "distinct (map snd tbl) \<Longrightarrow> (s, b) \<in> set tbl \<Longrightarrow> find (\<lambda>(s', b'). b = b') tbl = Some (s, b)"
  by (induction tbl) (auto simp: image_iff)

lemma first_index_distinct: "distinct cs \<Longrightarrow> i < length cs \<Longrightarrow> first_index (cs ! i) cs k = Some (k + i)"
proof (induction cs arbitrary: i k)
  case (Cons c cs)
  then show ?case by (cases i) (auto simp: nth_mem)
qed simp

text \<open>Writing the bits of one mask.\<close>

lemma flag_frame:
  assumes "flag_of x = Some (f, m)" and "b AND m = b" and "indep S x y"
  shows "get_entry tbl S y d (store f ((load f t AND NOT m) OR b) t) = get_entry tbl S y d t"
proof -
  have "load g (store f ((load f t AND NOT m) OR b) t) AND k = load g t AND k" if "f \<noteq> g \<or> m AND k = 0" for g k
    using that masked_write(2) [OF assms(2), of k "load f t"] by (cases "f = g") auto
  with assms show ?thesis
    by (cases x; cases y) auto
qed

lemma put_bool:
  assumes "(word_of_int m :: 32 word) \<noteq> 0" and "v = Imm 0 \<or> v = Imm 1"
  shows "\<exists>b. b AND word_of_int m = b \<and> put_entry K tbl S (E_bool f m) v t err =
      Some (None, err, store f ((load f t AND NOT (word_of_int m)) OR b) t) \<and> Val_bool (b \<noteq> 0) = v"
proof (cases "v = Imm 0")
  case True
  then show ?thesis
    by (intro exI [of _ 0]) (simp add: Val_bool_def c_int_def)
next
  case False
  then have "v = Imm 1" using assms(2) by simp
  then show ?thesis using assms(1)
    by (intro exI [of _ "word_of_int m"]) (simp add: Val_bool_def c_int_def flag_bits(1) [symmetric])
qed

lemma put_enum:
  assumes "entry_ok n tbl S (E_enum f ofs m cs)" and "value_ok tbl (E_enum f ofs m cs) v"
  shows "\<exists>i < length cs. v = Val_int (int i + ofs) \<and> put_entry K tbl S (E_enum f ofs m cs) v t err =
      Some (None, err, store f ((load f t AND NOT (word_of_int m)) OR word_of_int (cs ! i)) t)"
proof -
  obtain x where x: "v = Imm x" "ofs \<le> x" "x < ofs + int (length cs)" using assms(2) by auto
  have c: "c_int x = x" "caml_int x = x" using x assms(1) by (auto intro: c_int_id caml_int_id)
  show ?thesis
    using x c by (intro exI [of _ "nat (x - ofs)"]) (auto simp: Val_int_def Let_def)
qed

lemma put_speed:
  assumes ok: "entry_ok n tbl S (E_speed w)" and v: "value_ok tbl (E_speed w) v"
  shows "\<exists>s t'. put_entry K tbl S (E_speed w) v t err = Some (None, err, t') \<and> get_entry tbl S (E_speed w) d t' = Some v \<and>
     length (c_cc t') = length (c_cc t) \<and> t' = snd (snd (set_speed S w s t err))"
proof -
  obtain s b where b: "v = Imm b" "(s, b) \<in> set tbl" using v by auto
  obtain t' where t': "\<And>e. set_speed S w s t e = (0, e, t')" "get_speed S w t' = s" "length (c_cc t') = length (c_cc t)"
    using ok b(2) by force
  have "0 \<le> b" "b < 2 ^ 31" using ok b(2) by force+
  then have c: "c_int b = b" "caml_int b = b" by (simp_all add: c_int_id caml_int_id)
  have f: "find (\<lambda>(s', b'). b = b') tbl = Some (s, b)" "find (\<lambda>(s', b'). s = s') tbl = Some (s, b)"
    using ok b(2) by (simp_all add: find_snd find_fst)
  show ?thesis
    using b c f t' by (intro exI [of _ s] exI [of _ t']) (simp add: Val_int_def Let_def)
qed

lemma speed_frame:
  assumes "indep S (E_speed w) y" and "t' = snd (snd (set_speed S w s t err))"
  shows "get_entry tbl S y d t' = get_entry tbl S y d t"
  using assms by (cases y) auto

lemma put_char:
  assumes "nat w < length (c_cc t)" and "0 \<le> w" and "v = Imm c" "0 \<le> c" "c < 256"
  shows "put_entry K tbl S (E_char w) v t err = Some (None, err, t\<lparr>c_cc := (c_cc t)[nat w := word_of_int c]\<rparr>)"
    and "get_entry tbl S (E_char w) d (t\<lparr>c_cc := (c_cc t)[nat w := word_of_int c]\<rparr>) = Some v"
proof -
  have "c_int c = c" "caml_int c = c" "uint (word_of_int c :: 8 word) = c"
    using assms(4,5) by (simp_all add: c_int_id caml_int_id uint_word_of_int)
  with assms show "put_entry K tbl S (E_char w) v t err = Some (None, err, t\<lparr>c_cc := (c_cc t)[nat w := word_of_int c]\<rparr>)"
    and "get_entry tbl S (E_char w) d (t\<lparr>c_cc := (c_cc t)[nat w := word_of_int c]\<rparr>) = Some v"
    by (simp_all add: Val_int_def)
qed

lemma char_frame:
  assumes "indep S (E_char w) y" and "0 \<le> w"
  shows "get_entry tbl S y d (t\<lparr>c_cc := (c_cc t)[nat w := x]\<rparr>) = get_entry tbl S y d t"
proof -
  have "load f (t\<lparr>c_cc := (c_cc t)[nat w := x]\<rparr>) = load f t" for f by (cases f) simp_all
  with assms show ?thesis by (cases y) (auto simp: nth_list_update)
qed

lemma put_entry_legal:
  assumes "length (c_cc t) = n" and "entry_ok n tbl S x" and "value_ok tbl x v"
  shows "\<exists>t'. put_entry K tbl S x v t err = Some (None, err, t') \<and> length (c_cc t') = n \<and> get_entry tbl S x d t' = Some v \<and>
    (\<forall>y d'. indep S x y \<longrightarrow> get_entry tbl S y d' t' = get_entry tbl S y d' t)"
proof (cases x)
  case (E_bool f m)
  obtain b where b: "b AND word_of_int m = b" "put_entry K tbl S (E_bool f m) v t err =
      Some (None, err, store f ((load f t AND NOT (word_of_int m)) OR b) t)" "Val_bool (b \<noteq> 0) = v"
    using put_bool [of m v K tbl S f t err] assms(2,3) E_bool by auto
  then show ?thesis using assms(1) E_bool masked_write(1) [OF b(1)] flag_frame [of x f "word_of_int m" b S]
    by (intro exI [of _ "store f ((load f t AND NOT (word_of_int m)) OR b) t"]) simp
next
  case (E_enum f ofs m cs)
  obtain i where i: "i < length cs" "v = Val_int (int i + ofs)" "put_entry K tbl S x v t err =
      Some (None, err, store f ((load f t AND NOT (word_of_int m)) OR word_of_int (cs ! i)) t)"
    using put_enum [of n tbl S f ofs m cs v K t err] assms(2,3) E_enum by auto
  have c: "0 \<le> cs ! i" "cs ! i < 2 ^ 32" "word_of_int (cs ! i) AND word_of_int m = (word_of_int (cs ! i) :: 32 word)"
    using assms(2) E_enum i(1) nth_mem by force+
  have "uint (word_of_int (cs ! i) :: 32 word) = cs ! i" using c(1,2) by (simp add: uint_word_of_int)
  moreover have "first_index (cs ! i) cs 0 = Some i" using first_index_distinct [of cs i 0] assms(2) E_enum i(1) by simp
  ultimately show ?thesis
    using assms(1) E_enum i masked_write(1) [OF c(3)] flag_frame [of x f "word_of_int m" "word_of_int (cs ! i)" S] c(3)
    by (intro exI [of _ "store f ((load f t AND NOT (word_of_int m)) OR word_of_int (cs ! i)) t"]) simp
next
  case (E_speed w)
  then show ?thesis using put_speed [of n tbl S w v K t err d] assms speed_frame by metis
next
  case (E_char w)
  obtain c where c: "v = Imm c" "0 \<le> c" "c < 256" using assms(3) E_char by auto
  have "nat w < length (c_cc t)" "0 \<le> w" using assms(1,2) E_char by simp_all
  with put_char [OF this c] char_frame [of S w] assms(1) E_char show ?thesis
    by (intro exI [of _ "t\<lparr>c_cc := (c_cc t)[nat w := word_of_int c]\<rparr>"]) (simp del: get_entry.simps put_entry.simps)
qed

interpretation terminal: fields "get_entry tbl S" "put_entry K tbl S" "\<lambda>t. length (c_cc t) = n"
  "\<lambda>x v. entry_ok n tbl S x \<and> value_ok tbl x v" "indep S" for tbl S K n
  by unfold_locales (rule put_entry_legal; simp)

section \<open>The jobs\<close>

text \<open>The number of fields of the OCaml record.\<close>

definition NFIELDS :: nat where
  "NFIELDS = 38"

record 'sp job_tcgetattr = sysjob +
  g_fd :: int
  g_termios :: "'sp termios"

record job_tcsetattr = sysjob +
  s_fd :: int
  s_when :: int
  s_termios :: "caml_value list"

type_synonym 'sp tcgetattr_x = "('sp, unit) job_tcgetattr_ext sys_x"
type_synonym tcsetattr_x = "unit job_tcsetattr_ext sys_x"

definition worker_tcgetattr :: "(int \<Rightarrow> 'sp termios \<Rightarrow> ('os, int \<times> 'sp termios) syscall) \<Rightarrow> nat
    \<Rightarrow> ('sp tcgetattr_x, 'os) cst \<Rightarrow> ('sp tcgetattr_x, 'os) cst option" where
  [job_defs]: "worker_tcgetattr tcgetattr p s = do {
     job \<leftarrow> heap s p;
     let ((r, t), e, w) = tcgetattr (g_fd job) (g_termios job) (c_errno s) (os s);
     s \<leftarrow> set_job p (\<lambda>j. j\<lparr>j_result := r, g_termios := t, j_error_code := e\<rparr>) s;
     Some (s\<lparr>c_errno := e, os := w\<rparr>)
   }"

text \<open>\<^verbatim>\<open>caml_alloc_tuple\<close> fills the new block with \<^verbatim>\<open>Val_unit\<close>.\<close>

definition result_tcgetattr :: "(string \<Rightarrow> int) \<Rightarrow> (int \<times> int) list \<Rightarrow> 'sp speed_fns \<Rightarrow> nat
    \<Rightarrow> ('sp tcgetattr_x, 'os) cst \<Rightarrow> (caml_value outcome \<times> ('sp tcgetattr_x, 'os) cst) option" where
  [job_defs]: "result_tcgetattr K tbl S p s = do {
     job \<leftarrow> heap s p;
     LWT_UNIX_CHECK_JOB p (j_result job < 0) ''tcgetattr'' s (\<lambda>s. do {
       res \<leftarrow> encode_terminal_status tbl S (g_termios job) (terminal_io_descr K) (replicate NFIELDS Val_unit);
       free_and_return p (Block 0 res) s
     })
   }"

definition lwt_unix_tcgetattr_job :: "nat \<Rightarrow> 'sp job_tcgetattr \<Rightarrow> int \<Rightarrow> ('sp tcgetattr_x, 'os) cst
    \<Rightarrow> (caml_value \<times> ('sp tcgetattr_x, 'os) cst) option" where
  [job_defs]: "lwt_unix_tcgetattr_job a u fd s = do {
     s \<leftarrow> LWT_UNIX_INIT_JOB a ''tcgetattr'' u s;
     s \<leftarrow> set_job a (\<lambda>j. j\<lparr>g_fd := c_int fd\<rparr>) s;
     lwt_unix_alloc_job a s
   }"

definition when_flag_table :: "(string \<Rightarrow> int) \<Rightarrow> int list" where
  "when_flag_table K = [K ''TCSANOW'', K ''TCSADRAIN'', K ''TCSAFLUSH'']"

text \<open>The worker of \<^verbatim>\<open>tcsetattr\<close> has its own \<^verbatim>\<open>struct termios\<close> on the stack, with content \<open>t0\<close>.\<close>

definition worker_tcsetattr :: "(string \<Rightarrow> int) \<Rightarrow> (int \<times> int) list \<Rightarrow> 'sp speed_fns \<Rightarrow> 'sp termios
    \<Rightarrow> (int \<Rightarrow> 'sp termios \<Rightarrow> ('os, int \<times> 'sp termios) syscall) \<Rightarrow> (int \<Rightarrow> int \<Rightarrow> 'sp termios \<Rightarrow> ('os, int) syscall) \<Rightarrow> nat
    \<Rightarrow> (tcsetattr_x, 'os) cst \<Rightarrow> (tcsetattr_x, 'os) cst option" where
  [job_defs]: "worker_tcsetattr K tbl S t0 tcgetattr tcsetattr p s = do {
     job \<leftarrow> heap s p;
     let ((result, t), e, w) = tcgetattr (s_fd job) t0 (c_errno s) (os s);
     if result < 0 then do {
       s \<leftarrow> set_job p (\<lambda>j. j\<lparr>j_result := result, j_error_code := e\<rparr>) s;
       Some (s\<lparr>c_errno := e, os := w\<rparr>)
     } else do {
       (result_decode, e, t) \<leftarrow> decode_terminal_status K tbl S (terminal_io_descr K) (s_termios job) t e;
       let (r, e, w) = (if result_decode \<noteq> 0 then (-1, e, w) else tcsetattr (s_fd job) (s_when job) t e w);
       s \<leftarrow> set_job p (\<lambda>j. j\<lparr>j_result := r, j_error_code := e\<rparr>) s;
       Some (s\<lparr>c_errno := e, os := w\<rparr>)
     }
   }"

definition result_tcsetattr :: "nat \<Rightarrow> (tcsetattr_x, 'os) cst \<Rightarrow> (caml_value outcome \<times> (tcsetattr_x, 'os) cst) option" where
  [job_defs]: "result_tcsetattr p s = do {
     job \<leftarrow> heap s p;
     LWT_UNIX_CHECK_JOB p (j_result job < 0) ''tcsetattr'' s (free_and_return p Val_unit)
   }"

text \<open>The fields of the OCaml record are copied with \<^verbatim>\<open>memcpy\<close>; a record with fewer fields would be read out of bounds.\<close>

definition lwt_unix_tcsetattr_job :: "(string \<Rightarrow> int) \<Rightarrow> nat \<Rightarrow> job_tcsetattr \<Rightarrow> int \<Rightarrow> int \<Rightarrow> caml_value list \<Rightarrow> (tcsetattr_x, 'os) cst
    \<Rightarrow> (caml_value \<times> (tcsetattr_x, 'os) cst) option" where
  [job_defs]: "lwt_unix_tcsetattr_job K a u fd when termios s = do {
     s \<leftarrow> LWT_UNIX_INIT_JOB a ''tcsetattr'' u s;
     w \<leftarrow> tbl_get (when_flag_table K) (c_int when);
     (if NFIELDS \<le> length termios then Some () else None);
     s \<leftarrow> set_job a (\<lambda>j. j\<lparr>s_fd := c_int fd, s_when := w, s_termios := take NFIELDS termios\<rparr>) s;
     lwt_unix_alloc_job a s
   }"

section \<open>Correctness of the jobs\<close>

text \<open>
  What the conversion relies on in the constants and functions of the platform: each entry of the table is sensible, and no two entries
  overlap.
\<close>

definition platform_ok :: "(string \<Rightarrow> int) \<Rightarrow> (int \<times> int) list \<Rightarrow> 'sp speed_fns \<Rightarrow> nat \<Rightarrow> bool" where
  "platform_ok K tbl S n \<longleftrightarrow> (\<forall>x\<in>set (entries K). entry_ok n tbl S x) \<and> sorted_wrt (\<lambda>x y. indep S y x) (entries K)"

definition legal_termios :: "(string \<Rightarrow> int) \<Rightarrow> (int \<times> int) list \<Rightarrow> caml_value list \<Rightarrow> bool" where
  "legal_termios K tbl vs \<longleftrightarrow> list_all2 (value_ok tbl) (entries K) vs"

lemma termios_round_trip:
  assumes "platform_ok K tbl S n" and "length (c_cc t) = n" and "legal_termios K tbl vs" and "length dst = NFIELDS"
  shows "\<exists>t'. decode_terminal_status K tbl S (terminal_io_descr K) vs t err = Some (0, err, t') \<and> length (c_cc t') = n \<and>
    encode_terminal_status tbl S t' (terminal_io_descr K) dst = Some vs"
proof -
  have "list_all2 (\<lambda>x v. entry_ok n tbl S x \<and> value_ok tbl x v) (entries K) vs"
    using assms(1,3) unfolding platform_ok_def legal_termios_def by (auto simp: list_all2_conv_all_nth)
  then show ?thesis
    using terminal.round_trip [of t n tbl S "entries K" vs dst K err] assms
    by (simp add: platform_ok_def descr_entries encode_entries decode_entries length_entries NFIELDS_def)
qed

text \<open>An entry that cannot take the value it is given stops the conversion.\<close>

fun refuses :: "(int \<times> int) list \<Rightarrow> entry \<Rightarrow> caml_value \<Rightarrow> bool" where
  "refuses tbl (E_enum f ofs m cs) v \<longleftrightarrow> (\<exists>i. v = Imm i \<and> - (2 ^ 31) \<le> i \<and> i < 2 ^ 31 \<and> \<not> (ofs \<le> i \<and> i < ofs + int (length cs)))"
| "refuses tbl (E_speed w) v \<longleftrightarrow> (\<exists>b. v = Imm b \<and> - (2 ^ 31) \<le> b \<and> b < 2 ^ 31 \<and> b \<notin> snd ` set tbl)"
| "refuses tbl _ v \<longleftrightarrow> False"

lemma put_entry_refused:
  "refuses tbl x v \<Longrightarrow> put_entry K tbl S x v t err = Some (Some (K ''EINVAL''), K ''EINVAL'', t)"
proof (induction tbl x v rule: refuses.induct)
  case (2 tbl w v)
  then obtain b where b: "v = Imm b" "c_int b = b" "b \<notin> snd ` set tbl" by (auto simp: c_int_id)
  then have "find (\<lambda>(s, b'). b = b') tbl = None" by (force simp: find_None_iff)
  with b show ?case by simp
qed (auto simp: c_int_id Let_def)

lemma put_all_refused:
  assumes "list_all2 (\<lambda>x v. entry_ok n tbl S x \<and> value_ok tbl x v) xs us" and "length (c_cc t) = n" and "refuses tbl x v"
  shows "\<exists>t'. put_all (put_entry K tbl S) (xs @ x # ys) (us @ v # vs) t err = Some (K ''EINVAL'', K ''EINVAL'', t')"
  using assms(1,2)
proof (induction arbitrary: t rule: list_all2_induct)
  case Nil
  then show ?case by (simp add: put_entry_refused [OF assms(3)])
next
  case (Cons y xs u us)
  then obtain t' where "put_entry K tbl S y u t err = Some (None, err, t')" "length (c_cc t') = n"
    using put_entry_legal [of t n tbl S y u K err] by blast
  with Cons.IH [of t'] show ?case by simp
qed

text \<open>A terminal: \<^verbatim>\<open>tcgetattr\<close> reports its settings, \<^verbatim>\<open>tcsetattr\<close> replaces them.\<close>

definition tty_ok :: "nat \<Rightarrow> (int \<Rightarrow> 'sp termios \<Rightarrow> ('os, int \<times> 'sp termios) syscall) \<Rightarrow> (int \<Rightarrow> int \<Rightarrow> 'sp termios \<Rightarrow> ('os, int) syscall)
    \<Rightarrow> int \<Rightarrow> ('os \<Rightarrow> 'sp termios) \<Rightarrow> bool" where
  "tty_ok n tcgetattr tcsetattr fd tty \<longleftrightarrow> (\<forall>w. length (c_cc (tty w)) = n) \<and>
     (\<forall>t e w. tcgetattr fd t e w = ((0, tty w), e, w)) \<and>
     (\<forall>a t e w. length (c_cc t) = n \<longrightarrow> (\<exists>w'. tcsetattr fd a t e w = (0, e, w') \<and> tty w' = t))"

lemma tcgetattr_job_run:
  assumes "heap s a = None" and r: "tcgetattr (c_int fd) (g_termios u) (c_errno s) (os s) = ((r, t), e, w)"
    and v: "encode_terminal_status tbl S t (terminal_io_descr K) (replicate NFIELDS Val_unit) = Some vs"
  shows "job_run am e' (lwt_unix_tcgetattr_job a u fd) [''worker_tcgetattr'' \<mapsto> worker_tcgetattr tcgetattr]
      [''result_tcgetattr'' \<mapsto> result_tcgetattr K tbl S] s =
    Some (if r < 0 then Raise (Unix_error e ''tcgetattr'' Nothing) else Ret (Block 0 vs), s\<lparr>c_errno := e', os := w\<rparr>)"
  using assms by (cases s) (simp add: io_defs job_defs fun_upd_idem)

lemma tcsetattr_job_run:
  assumes "heap s a = None" and wh: "tbl_get (when_flag_table K) (c_int wh) = Some act" and len: "length vs = NFIELDS"
    and r: "tcgetattr (c_int fd) t0 (c_errno s) (os s) = ((r, t), e, w)"
    and d: "r \<ge> 0 \<Longrightarrow> decode_terminal_status K tbl S (terminal_io_descr K) vs t e = Some (rd, e1, t1)"
    and x: "(if r < 0 then (r, e, w) else if rd \<noteq> 0 then (-1, e1, w) else tcsetattr (c_int fd) act t1 e1 w) = (r2, e2, w2)"
  shows "job_run am e' (lwt_unix_tcsetattr_job K a u fd wh vs) [''worker_tcsetattr'' \<mapsto> worker_tcsetattr K tbl S t0 tcgetattr tcsetattr]
      [''result_tcsetattr'' \<mapsto> result_tcsetattr] s =
    Some (if r2 < 0 then Raise (Unix_error e2 ''tcsetattr'' Nothing) else Ret Val_unit, s\<lparr>c_errno := e', os := w2\<rparr>)"
proof (cases "r < 0")
  case True
  with assms show ?thesis by (cases s) (auto simp: io_defs job_defs fun_upd_idem)
next
  case False
  let ?s = "if rd \<noteq> 0 then (-1, e1, w) else tcsetattr (c_int fd) act t1 e1 w"
  have "?s = (r2, e2, w2)" using x False by simp
  with assms False show ?thesis by (cases s) (auto simp: io_defs job_defs fun_upd_idem split: if_splits)
qed

section \<open>Properties\<close>

definition demo_K :: "string \<Rightarrow> int" where
  "demo_K n = the (map_of [
     (''IGNBRK'', 1), (''BRKINT'', 2), (''IGNPAR'', 4), (''PARMRK'', 8), (''INPCK'', 16), (''ISTRIP'', 32), (''INLCR'', 64),
     (''IGNCR'', 128), (''ICRNL'', 256), (''IXON'', 1024), (''IXOFF'', 4096), (''OPOST'', 1), (''CSIZE'', 48), (''CS5'', 0),
     (''CS6'', 16), (''CS7'', 32), (''CS8'', 48), (''CSTOPB'', 64), (''CREAD'', 128), (''PARENB'', 256), (''PARODD'', 512),
     (''HUPCL'', 1024), (''CLOCAL'', 2048), (''ISIG'', 1), (''ICANON'', 2), (''NOFLSH'', 128), (''ECHO'', 8), (''ECHOE'',
     16), (''ECHOK'', 32), (''ECHONL'', 64), (''VINTR'', 0), (''VQUIT'', 1), (''VERASE'', 2), (''VKILL'', 3), (''VEOF'', 4),
     (''VEOL'', 11), (''VMIN'', 6), (''VTIME'', 5), (''VSTART'', 8), (''VSTOP'', 9), (''TCSANOW'', 0), (''TCSADRAIN'', 1),
     (''TCSAFLUSH'', 2), (''EINVAL'', 22), (''B50'', 1), (''B75'', 2), (''B110'', 3), (''B134'', 4), (''B150'', 5),
     (''B300'', 7), (''B600'', 8), (''B1200'', 9), (''B1800'', 10), (''B2400'', 11), (''B4800'', 12), (''B9600'', 13),
     (''B19200'', 14), (''B38400'', 15), (''B0'', 0)] n)"

definition demo_speeds :: "(int \<times> int) speed_fns" where
  "demo_speeds = \<lparr>cfgetospeed = (\<lambda>t. fst (t_rest t)), cfgetispeed = (\<lambda>t. snd (t_rest t)),
     cfsetospeed = (\<lambda>s t e. (0, e, t\<lparr>t_rest := (s, snd (t_rest t))\<rparr>)), cfsetispeed = (\<lambda>s t e. (0, e, t\<lparr>t_rest := (fst (t_rest t), s)\<rparr>))\<rparr>"

definition demo_table :: "(int \<times> int) list" where
  "demo_table = speedtable (\<lambda>_. False) demo_K"

lemma demo_entries: "entries demo_K =
  [E_bool F_iflag 1, E_bool F_iflag 2, E_bool F_iflag 4, E_bool F_iflag 8, E_bool F_iflag 16, E_bool F_iflag 32, E_bool F_iflag 64, E_bool F_iflag 128, E_bool F_iflag 256, E_bool F_iflag 1024, E_bool F_iflag 4096, E_bool F_oflag 1, E_speed 1, E_speed 0, E_enum F_cflag 5 48 [0, 16, 32, 48], E_enum F_cflag 1 64 [0, 64], E_bool F_cflag 128, E_bool F_cflag 256, E_bool F_cflag 512, E_bool F_cflag 1024, E_bool F_cflag 2048, E_bool F_lflag 1, E_bool F_lflag 2, E_bool F_lflag 128, E_bool F_lflag 8, E_bool F_lflag 16, E_bool F_lflag 32, E_bool F_lflag 64, E_char 0, E_char 1, E_char 2, E_char 3, E_char 4, E_char 11, E_char 6, E_char 5, E_char 8, E_char 9]"
  by (simp add: entries_def demo_K_def tag_defs)

lemma demo_table_eq: "demo_table = [(1, 50), (2, 75), (3, 110), (4, 134), (5, 150), (7, 300), (8, 600), (9, 1200), (10, 1800), (11, 2400), (12, 4800), (13, 9600), (14, 19200), (15, 38400), (0, 0)]"
  by (simp add: demo_table_def speedtable_def if_defined_def demo_K_def)

lemma demo_platform_ok: "platform_ok demo_K demo_table demo_speeds 19"
proof -
  have st: "t_rest (store f x t) = t_rest t" "load f (t\<lparr>t_rest := r\<rparr>) = load f t" for f x r and t :: "'sp termios"
    by (cases f; simp)+
  have "\<forall>x\<in>set (entries demo_K). entry_ok 19 demo_table demo_speeds x"
    unfolding demo_entries demo_table_eq by (simp add: set_speed_def get_speed_def demo_speeds_def tag_defs)
  moreover have "sorted_wrt (\<lambda>x y. indep demo_speeds y x) (entries demo_K)"
    unfolding demo_entries by (simp add: set_speed_def get_speed_def demo_speeds_def tag_defs st)
  ultimately show ?thesis unfolding platform_ok_def by blast
qed

definition demo_termios :: "(int \<times> int) termios" where
  "demo_termios = \<lparr>c_iflag = 0, c_oflag = 1, c_cflag = 0xABCD, c_lflag = 7, c_cc = replicate 19 0, t_rest = (0, 0)\<rparr>"

definition demo_values :: "caml_value list" where
  "demo_values = replicate 11 (Imm 1) @ [Imm 0, Imm 9600, Imm 38400, Imm 8, Imm 2] @ replicate 12 (Imm 0) @ map Imm [3, 28, 127, 21, 4, 0, 1, 0, 17, 19]"

lemma demo_values_legal: "legal_termios demo_K demo_table demo_values"
  unfolding legal_termios_def demo_entries demo_table_eq demo_values_def by (simp add: numeral_eq_Suc)

definition demo_tcsetattr_job :: job_tcsetattr where
  "demo_tcsetattr_job = \<lparr>next_job = None, notification_id = 0, worker_fn = [], result_fn = [], job_state = LWT_UNIX_JOB_STATE_DONE,
     fast = 5, job_mutex = Mutex_held, async_method = LWT_UNIX_ASYNC_METHOD_SWITCH, j_result = 3, j_error_code = 4, s_fd = 1, s_when = 7, s_termios = []\<rparr>"

definition demo_tcgetattr_job :: "(int \<times> int) job_tcgetattr" where
  "demo_tcgetattr_job = \<lparr>next_job = None, notification_id = 0, worker_fn = [], result_fn = [], job_state = LWT_UNIX_JOB_STATE_DONE,
     fast = 5, job_mutex = Mutex_held, async_method = LWT_UNIX_ASYNC_METHOD_SWITCH, j_result = 3, j_error_code = 4, g_fd = 1, g_termios = demo_termios\<rparr>"

definition demo_tty :: "('x, (int \<times> int) termios) cst" where
  "demo_tty = \<lparr>heap = Map.empty, blocks = Map.empty, bufs = Map.empty, roots = [], c_errno = 0, os = demo_termios\<rparr>"


definition demo_tcgetattr :: "int \<Rightarrow> (int \<times> int) termios \<Rightarrow> ((int \<times> int) termios, int \<times> (int \<times> int) termios) syscall" where
  "demo_tcgetattr fd t e w = ((0, if length (c_cc w) = 19 then w else demo_termios), e, w)"

definition demo_tcsetattr :: "int \<Rightarrow> int \<Rightarrow> (int \<times> int) termios \<Rightarrow> ((int \<times> int) termios, int) syscall" where
  "demo_tcsetattr fd a t e w = (0, e, t)"

lemma demo_tty_ok: "tty_ok 19 demo_tcgetattr demo_tcsetattr fd (\<lambda>w. if length (c_cc w) = 19 then w else demo_termios)"
  by (auto simp: tty_ok_def demo_tcgetattr_def demo_tcsetattr_def demo_termios_def)


text \<open>
  Settings that cannot be expressed are refused. When all fields before some field are legal, and that field is a baud rate that is not in the
  table of speeds or a character size or number of stop bits out of range, the job \<^verbatim>\<open>tcsetattr\<close> raises \<^verbatim>\<open>EINVAL\<close> and does not change the terminal.
\<close>

theorem tcsetattr_refuses_illegal:
  assumes "platform_ok K tbl S n" and "tty_ok n tcgetattr tcsetattr (c_int fd) tty"
    and "entries K = xs @ x # ys" and "list_all2 (value_ok tbl) xs us" and "refuses tbl x v" and "length (us @ v # vs) = NFIELDS"
    and "heap s a = None" and "0 \<le> wh" and "wh \<le> 2" and "K ''EINVAL'' \<noteq> 0"
  shows "job_run am e (lwt_unix_tcsetattr_job K a u fd wh (us @ v # vs)) [''worker_tcsetattr'' \<mapsto> worker_tcsetattr K tbl S t0 tcgetattr tcsetattr]
      [''result_tcsetattr'' \<mapsto> result_tcsetattr] s = Some (Raise (Unix_error (K ''EINVAL'') ''tcsetattr'' Nothing), s\<lparr>c_errno := e\<rparr>)"
proof -
  note tty = assms(2) [unfolded tty_ok_def]
  have "list_all2 (\<lambda>x v. entry_ok n tbl S x \<and> value_ok tbl x v) xs us"
    using assms(1,3,4) unfolding platform_ok_def by (auto simp: list_all2_conv_all_nth)
  then obtain t' where "put_all (put_entry K tbl S) (xs @ x # ys) (us @ v # vs) (tty (os s)) (c_errno s) = Some (K ''EINVAL'', K ''EINVAL'', t')"
    using put_all_refused [of n tbl S xs us "tty (os s)" x v K ys vs "c_errno s"] assms(5) tty by blast
  then have t': "decode_terminal_status K tbl S (terminal_io_descr K) (us @ v # vs) (tty (os s)) (c_errno s) = Some (K ''EINVAL'', K ''EINVAL'', t')"
    unfolding descr_entries decode_entries assms(3) .
  obtain act where act: "tbl_get (when_flag_table K) (c_int wh) = Some act"
    using assms(8,9) tbl_get_Some [of wh "when_flag_table K"] by (simp add: when_flag_table_def c_int_id nat_less_iff)
  show ?thesis
    using tcsetattr_job_run [where K = K and wh = wh and r = 0 and t = "tty (os s)" and e = "c_errno s" and w = "os s" and tcgetattr = tcgetattr
      and ?t0.0 = t0 and fd = fd and rd = "K ''EINVAL''" and ?e1.0 = "K ''EINVAL''" and ?t1.0 = t' and tcsetattr = tcsetattr and act = act and vs = "us @ v # vs"
      and ?r2.0 = "-1" and ?e2.0 = "K ''EINVAL''" and ?w2.0 = "os s" and s = s and a = a and am = am and e' = e and u = u and tbl = tbl and S = S]
      assms(6,7,10) act t' tty
    by (cases s) simp
qed

theorem tcsetattr_refuses_illegal_witness:
  "job_run LWT_UNIX_ASYNC_METHOD_DETACH 0 (lwt_unix_tcsetattr_job demo_K 1 demo_tcsetattr_job 3 2 (replicate 12 (Imm 0) @ Imm 9601 # replicate 25 (Imm 0)))
      [''worker_tcsetattr'' \<mapsto> worker_tcsetattr demo_K demo_table demo_speeds demo_termios demo_tcgetattr demo_tcsetattr]
      [''result_tcsetattr'' \<mapsto> result_tcsetattr] demo_tty = Some (Raise (Unix_error 22 ''tcsetattr'' Nothing), demo_tty\<lparr>c_errno := 0\<rparr>)"
proof -
  have x: "entries demo_K = take 12 (entries demo_K) @ E_speed 1 # drop 13 (entries demo_K)" by (simp add: demo_entries numeral_eq_Suc)
  have l: "list_all2 (value_ok demo_table) (take 12 (entries demo_K)) (replicate 12 (Imm 0))" by (simp add: demo_entries numeral_eq_Suc)
  have r: "refuses demo_table (E_speed 1) (Imm 9601)" by (simp add: demo_table_eq)
  have k: "demo_K ''EINVAL'' = 22" by (simp add: demo_K_def)
  have h: "heap demo_tty 1 = None" by (simp add: demo_tty_def)
  show ?thesis
    using tcsetattr_refuses_illegal [where am = LWT_UNIX_ASYNC_METHOD_DETACH and e = 0 and u = demo_tcsetattr_job and ?t0.0 = demo_termios and fd = 3 and wh = 2
      and vs = "replicate 25 (Imm 0)", OF demo_platform_ok demo_tty_ok x l r _ h] k by (simp add: NFIELDS_def)
qed

end
