(* ===== verification/Value_Types.thy ===== *)
theory Value_Types
  imports Runtime
begin

text \<open>
  Types of OCaml values, as far as the stubs build values that OCaml code takes apart without a check: a stub that returns a value of the
  wrong shape corrupts the program. \<open>has_type\<close> says that a value has the representation of a type. \<open>double_ops\<close> are the operations on
  \<^verbatim>\<open>double\<close>, on the bits of the numbers.
\<close>

section \<open>Types\<close>

text \<open>
  \<open>Enum_t n\<close> is a variant with \<open>n\<close> constant constructors; a record, tuple or array is a block with tag 0.
\<close>

datatype caml_type =
    Int_t
  | Bool_t
  | Char_t
  | Enum_t nat
  | String_t
  | Int64_t
  | Double_t
  | Record_t "caml_type list"
  | Array_t caml_type
  | List_t caml_type
  | Sum_t nat "caml_type list list"

fun list_elems :: "caml_value \<Rightarrow> caml_value list option" where
  "list_elems (Imm i) = (if i = 0 then Some [] else None)"
| "list_elems (Block tag [x, xs]) = (if tag = 0 then map_option (Cons x) (list_elems xs) else None)"
| "list_elems _ = None"

lemma list_elems_Val_list [simp]: "list_elems (Val_list vs) = Some vs"
  by (induction vs) (simp_all add: Val_emptylist_def)

text \<open>A value of \<open>Sum_t n css\<close> is one of \<open>n\<close> constant constructors or a block whose tag selects the types of the arguments.\<close>

primrec has_type :: "caml_type \<Rightarrow> caml_value \<Rightarrow> bool" where
  "has_type Int_t v \<longleftrightarrow> (case v of Imm i \<Rightarrow> - (2 ^ 62) \<le> i \<and> i < 2 ^ 62 | _ \<Rightarrow> False)"
| "has_type Bool_t v \<longleftrightarrow> v = Imm 0 \<or> v = Imm 1"
| "has_type Char_t v \<longleftrightarrow> (case v of Imm i \<Rightarrow> 0 \<le> i \<and> i < 256 | _ \<Rightarrow> False)"
| "has_type (Enum_t n) v \<longleftrightarrow> (case v of Imm i \<Rightarrow> 0 \<le> i \<and> i < int n | _ \<Rightarrow> False)"
| "has_type String_t v \<longleftrightarrow> (case v of Caml_string _ \<Rightarrow> True | _ \<Rightarrow> False)"
| "has_type Int64_t v \<longleftrightarrow> (case v of Caml_int64 i \<Rightarrow> - (2 ^ 63) \<le> i \<and> i < 2 ^ 63 | _ \<Rightarrow> False)"
| "has_type Double_t v \<longleftrightarrow> (case v of Caml_double _ \<Rightarrow> True | _ \<Rightarrow> False)"
| "has_type (Record_t ts) v \<longleftrightarrow> (case v of Block tag vs \<Rightarrow> tag = 0 \<and> list_all2 (\<lambda>P v. P v) (map has_type ts) vs | _ \<Rightarrow> False)"
| "has_type (Array_t t) v \<longleftrightarrow> (case v of Block tag vs \<Rightarrow> tag = 0 \<and> (\<forall>x\<in>set vs. has_type t x) | _ \<Rightarrow> False)"
| "has_type (List_t t) v \<longleftrightarrow> (case list_elems v of Some vs \<Rightarrow> (\<forall>x\<in>set vs. has_type t x) | None \<Rightarrow> False)"
| "has_type (Sum_t n tss) v \<longleftrightarrow> (case v of
     Imm i \<Rightarrow> 0 \<le> i \<and> i < int n
   | Block tag vs \<Rightarrow> tag < length tss \<and> list_all2 (\<lambda>P v. P v) (map (map has_type) tss ! tag) vs
   | _ \<Rightarrow> False)"

lemma caml_int_range: "- (2 ^ 62) \<le> caml_int i" "caml_int i < 2 ^ 62"
  unfolding caml_int_def
  by (rule signed_take_bit_int_greater_eq_minus_exp, rule signed_take_bit_int_less_exp)

lemma has_type_ints [simp]: "has_type Int_t (Val_int i)" "has_type Int_t (Val_long i)"
  using caml_int_range [of i] by (simp_all add: Val_int_def Val_long_def)

lemma has_type_bool [simp]: "has_type Bool_t (Val_bool b)"
  by (simp add: Val_bool_def)

lemma has_type_list [simp]: "has_type (List_t t) (Val_list vs) \<longleftrightarrow> (\<forall>v\<in>set vs. has_type t v)"
  by simp

lemma has_type_enum: "0 \<le> i \<Longrightarrow> i < int n \<Longrightarrow> n \<le> 2 ^ 31 \<Longrightarrow> has_type (Enum_t n) (Val_int i)"
  by (simp add: Val_int_def caml_int_id)

section \<open>Floating point\<close>

record double_ops =
  d_of_int :: "int \<Rightarrow> 64 word"
  d_add :: "64 word \<Rightarrow> 64 word \<Rightarrow> 64 word"
  d_sub :: "64 word \<Rightarrow> 64 word \<Rightarrow> 64 word"
  d_mul :: "64 word \<Rightarrow> 64 word \<Rightarrow> 64 word"
  d_div :: "64 word \<Rightarrow> 64 word \<Rightarrow> 64 word"
  d_eq :: "64 word \<Rightarrow> 64 word \<Rightarrow> bool"
  d_to_int :: "64 word \<Rightarrow> int"

end
