(* ===== verification/Stat_Jobs.thy ===== *)
theory Stat_Jobs
  imports Path_Jobs Value_Types
begin

text \<open>
  File status: the conversion of \<^verbatim>\<open>struct stat\<close> to the OCaml record \<^verbatim>\<open>Unix.stats\<close> and the jobs \<^verbatim>\<open>stat\<close>, \<^verbatim>\<open>lstat\<close> and \<^verbatim>\<open>fstat\<close>, each with a variant
  for 64-bit sizes (\<^verbatim>\<open>unix_stat_job_utils.c\<close>, \<^verbatim>\<open>unix_stat_job.c\<close> and the like); and \<^verbatim>\<open>unix_utimes_job.c\<close>, which sets the times of a file.
\<close>

section \<open>Structures\<close>

record stat =
  st_dev :: int
  st_ino :: int
  st_mode :: int
  st_nlink :: int
  st_uid :: int
  st_gid :: int
  st_rdev :: int
  st_size :: int
  st_atime :: int
  st_mtime :: int
  st_ctime :: int
  st_ansec :: int
  st_mnsec :: int
  st_cnsec :: int

text \<open>\<^verbatim>\<open>struct job_stat\<close> and \<^verbatim>\<open>struct job_lstat\<close> differ in the name of one field only.\<close>

record job_stat = path_job +
  t_stat :: stat

type_synonym job_lstat = job_stat

record job_fstat = sysjob +
  t_fd :: int
  t_fstat :: stat

record timeval =
  tv_sec :: int
  tv_usec :: int

text \<open>\<^verbatim>\<open>times_pointer\<close> is null or points to the array \<^verbatim>\<open>times\<close> of the job itself.\<close>

record job_utimes = path_job +
  u_times_pointer :: "unit option"
  u_times :: "timeval list"

type_synonym stat_x = "unit job_stat_ext path_x"
type_synonym fstat_x = "unit job_fstat_ext sys_x"
type_synonym utimes_x = "unit job_utimes_ext path_x"

section \<open>copy_stat\<close>

text \<open>\<^verbatim>\<open>(double)st_atime + (NANOSEC(buf, a) / 1000000000.0)\<close>, and the same for the other two times.\<close>

definition stat_time :: "double_ops \<Rightarrow> int \<Rightarrow> int \<Rightarrow> caml_value" where
  "stat_time F sec nsec = Caml_double (d_add F (d_of_int F sec) (d_div F (d_of_int F nsec) (d_of_int F 1000000000)))"

text \<open>The switch on the file type.\<close>

definition stat_kind :: "(string \<Rightarrow> int) \<Rightarrow> int \<Rightarrow> caml_value" where
  "stat_kind K mode = (let f = and mode (K ''S_IFMT'') in
     if f = K ''S_IFREG'' then Val_int 0
     else if f = K ''S_IFDIR'' then Val_int 1
     else if f = K ''S_IFCHR'' then Val_int 2
     else if f = K ''S_IFBLK'' then Val_int 3
     else if f = K ''S_IFLNK'' then Val_int 4
     else if f = K ''S_IFIFO'' then Val_int 5
     else if f = K ''S_IFSOCK'' then Val_int 6
     else Val_int 0)"

definition copy_stat :: "(string \<Rightarrow> int) \<Rightarrow> double_ops \<Rightarrow> bool \<Rightarrow> stat \<Rightarrow> caml_value" where
  "copy_stat K F use_64 buf = (
     let offset = (if use_64 then Caml_int64 (c_long (st_size buf)) else Val_int (st_size buf))
     in Block 0 [
       Val_int (st_dev buf), Val_int (st_ino buf), stat_kind K (st_mode buf), Val_int (and (st_mode buf) 4095),
       Val_int (st_nlink buf), Val_int (st_uid buf), Val_int (st_gid buf), Val_int (st_rdev buf), offset,
       stat_time F (st_atime buf) (st_ansec buf), stat_time F (st_mtime buf) (st_mnsec buf), stat_time F (st_ctime buf) (st_cnsec buf)])"

section \<open>stat and lstat\<close>

text \<open>\<^verbatim>\<open>stat (name, buf)\<close> gives its result and the content of the buffer afterwards.\<close>

definition worker_stat :: "(char list \<Rightarrow> ('os, int \<times> stat) syscall) \<Rightarrow> nat \<Rightarrow> (stat_x, 'os) cst \<Rightarrow> (stat_x, 'os) cst option" where
  [job_defs]: "worker_stat stat_c p s = do {
     job \<leftarrow> heap s p;
     name \<leftarrow> job_path job;
     let ((r, st), e, w) = stat_c name (c_errno s) (os s);
     s \<leftarrow> set_job p (\<lambda>j. j\<lparr>j_result := r, t_stat := st, j_error_code := e\<rparr>) s;
     Some (s\<lparr>c_errno := e, os := w\<rparr>)
   }"

definition result_stat :: "(string \<Rightarrow> int) \<Rightarrow> double_ops \<Rightarrow> nat \<Rightarrow> (stat_x, 'os) cst \<Rightarrow> (caml_value outcome \<times> (stat_x, 'os) cst) option" where
  [job_defs]: "result_stat K F p s = do {
     job \<leftarrow> heap s p;
     LWT_UNIX_CHECK_JOB_ARG p (j_result job < 0) ''stat'' (job_path job) s (free_and_return p (copy_stat K F False (t_stat job)))
   }"

definition result_stat_64 :: "(string \<Rightarrow> int) \<Rightarrow> double_ops \<Rightarrow> nat \<Rightarrow> (stat_x, 'os) cst \<Rightarrow> (caml_value outcome \<times> (stat_x, 'os) cst) option" where
  [job_defs]: "result_stat_64 K F p s = do {
     job \<leftarrow> heap s p;
     LWT_UNIX_CHECK_JOB_ARG p (j_result job < 0) ''stat'' (job_path job) s (free_and_return p (copy_stat K F True (t_stat job)))
   }"

definition worker_lstat :: "(char list \<Rightarrow> ('os, int \<times> stat) syscall) \<Rightarrow> nat \<Rightarrow> (stat_x, 'os) cst \<Rightarrow> (stat_x, 'os) cst option" where
  [job_defs]: "worker_lstat lstat_c p s = do {
     job \<leftarrow> heap s p;
     name \<leftarrow> job_path job;
     let ((r, st), e, w) = lstat_c name (c_errno s) (os s);
     s \<leftarrow> set_job p (\<lambda>j. j\<lparr>j_result := r, t_stat := st, j_error_code := e\<rparr>) s;
     Some (s\<lparr>c_errno := e, os := w\<rparr>)
   }"

definition result_lstat :: "(string \<Rightarrow> int) \<Rightarrow> double_ops \<Rightarrow> nat \<Rightarrow> (stat_x, 'os) cst \<Rightarrow> (caml_value outcome \<times> (stat_x, 'os) cst) option" where
  [job_defs]: "result_lstat K F p s = do {
     job \<leftarrow> heap s p;
     LWT_UNIX_CHECK_JOB_ARG p (j_result job < 0) ''lstat'' (job_path job) s (free_and_return p (copy_stat K F False (t_stat job)))
   }"

definition result_lstat_64 :: "(string \<Rightarrow> int) \<Rightarrow> double_ops \<Rightarrow> nat \<Rightarrow> (stat_x, 'os) cst \<Rightarrow> (caml_value outcome \<times> (stat_x, 'os) cst) option" where
  [job_defs]: "result_lstat_64 K F p s = do {
     job \<leftarrow> heap s p;
     LWT_UNIX_CHECK_JOB_ARG p (j_result job < 0) ''lstat'' (job_path job) s (free_and_return p (copy_stat K F True (t_stat job)))
   }"

definition lwt_unix_stat_job :: "nat \<Rightarrow> job_stat \<times> (nat \<Rightarrow> char) \<Rightarrow> char list \<Rightarrow> (stat_x, 'os) cst \<Rightarrow> (caml_value \<times> (stat_x, 'os) cst) option" where
  [job_defs]: "lwt_unix_stat_job a ug name s = do {
     s \<leftarrow> LWT_UNIX_INIT_JOB_STRING a ''stat'' 0 name ug s;
     lwt_unix_alloc_job a s
   }"

definition lwt_unix_stat_64_job :: "nat \<Rightarrow> job_stat \<times> (nat \<Rightarrow> char) \<Rightarrow> char list \<Rightarrow> (stat_x, 'os) cst \<Rightarrow> (caml_value \<times> (stat_x, 'os) cst) option" where
  [job_defs]: "lwt_unix_stat_64_job a ug name s = do {
     s \<leftarrow> LWT_UNIX_INIT_JOB_STRING a ''stat'' 0 name ug s;
     s \<leftarrow> set_job a (\<lambda>j. j\<lparr>result_fn := ''result_stat_64''\<rparr>) s;
     lwt_unix_alloc_job a s
   }"

definition lwt_unix_lstat_job :: "nat \<Rightarrow> job_lstat \<times> (nat \<Rightarrow> char) \<Rightarrow> char list \<Rightarrow> (stat_x, 'os) cst \<Rightarrow> (caml_value \<times> (stat_x, 'os) cst) option" where
  [job_defs]: "lwt_unix_lstat_job a ug name s = do {
     s \<leftarrow> LWT_UNIX_INIT_JOB_STRING a ''lstat'' 0 name ug s;
     lwt_unix_alloc_job a s
   }"

definition lwt_unix_lstat_64_job :: "nat \<Rightarrow> job_lstat \<times> (nat \<Rightarrow> char) \<Rightarrow> char list \<Rightarrow> (stat_x, 'os) cst \<Rightarrow> (caml_value \<times> (stat_x, 'os) cst) option" where
  [job_defs]: "lwt_unix_lstat_64_job a ug name s = do {
     s \<leftarrow> LWT_UNIX_INIT_JOB_STRING a ''lstat'' 0 name ug s;
     s \<leftarrow> set_job a (\<lambda>j. j\<lparr>result_fn := ''result_lstat_64''\<rparr>) s;
     lwt_unix_alloc_job a s
   }"

section \<open>fstat\<close>

definition worker_fstat :: "(int \<Rightarrow> ('os, int \<times> stat) syscall) \<Rightarrow> nat \<Rightarrow> (fstat_x, 'os) cst \<Rightarrow> (fstat_x, 'os) cst option" where
  [job_defs]: "worker_fstat fstat_c p s = do {
     job \<leftarrow> heap s p;
     let ((r, st), e, w) = fstat_c (t_fd job) (c_errno s) (os s);
     s \<leftarrow> set_job p (\<lambda>j. j\<lparr>j_result := r, t_fstat := st, j_error_code := e\<rparr>) s;
     Some (s\<lparr>c_errno := e, os := w\<rparr>)
   }"

definition result_fstat :: "(string \<Rightarrow> int) \<Rightarrow> double_ops \<Rightarrow> nat \<Rightarrow> (fstat_x, 'os) cst \<Rightarrow> (caml_value outcome \<times> (fstat_x, 'os) cst) option" where
  [job_defs]: "result_fstat K F p s = do {
     job \<leftarrow> heap s p;
     LWT_UNIX_CHECK_JOB p (j_result job < 0) ''fstat'' s (free_and_return p (copy_stat K F False (t_fstat job)))
   }"

definition result_fstat_64 :: "(string \<Rightarrow> int) \<Rightarrow> double_ops \<Rightarrow> nat \<Rightarrow> (fstat_x, 'os) cst \<Rightarrow> (caml_value outcome \<times> (fstat_x, 'os) cst) option" where
  [job_defs]: "result_fstat_64 K F p s = do {
     job \<leftarrow> heap s p;
     LWT_UNIX_CHECK_JOB p (j_result job < 0) ''fstat'' s (free_and_return p (copy_stat K F True (t_fstat job)))
   }"

definition lwt_unix_fstat_job :: "nat \<Rightarrow> job_fstat \<Rightarrow> int \<Rightarrow> (fstat_x, 'os) cst \<Rightarrow> (caml_value \<times> (fstat_x, 'os) cst) option" where
  [job_defs]: "lwt_unix_fstat_job a u val_fd s = do {
     s \<leftarrow> LWT_UNIX_INIT_JOB a ''fstat'' u s;
     s \<leftarrow> set_job a (\<lambda>j. j\<lparr>t_fd := c_int val_fd\<rparr>) s;
     lwt_unix_alloc_job a s
   }"

definition lwt_unix_fstat_64_job :: "nat \<Rightarrow> job_fstat \<Rightarrow> int \<Rightarrow> (fstat_x, 'os) cst \<Rightarrow> (caml_value \<times> (fstat_x, 'os) cst) option" where
  [job_defs]: "lwt_unix_fstat_64_job a u val_fd s = do {
     s \<leftarrow> LWT_UNIX_INIT_JOB a ''fstat'' u s;
     s \<leftarrow> set_job a (\<lambda>j. j\<lparr>result_fn := ''result_fstat_64''\<rparr>) s;
     s \<leftarrow> set_job a (\<lambda>j. j\<lparr>t_fd := c_int val_fd\<rparr>) s;
     lwt_unix_alloc_job a s
   }"

section \<open>utimes\<close>

definition worker_utimes :: "(char list \<Rightarrow> timeval list option \<Rightarrow> ('os, int) syscall) \<Rightarrow> nat \<Rightarrow> (utimes_x, 'os) cst \<Rightarrow> (utimes_x, 'os) cst option" where
  [job_defs]: "worker_utimes utimes = worker_sys (\<lambda>job. do {
     path \<leftarrow> job_path job;
     Some (utimes path (map_option (\<lambda>_. u_times job) (u_times_pointer job)))
   })"

definition result_utimes :: "nat \<Rightarrow> (utimes_x, 'os) cst \<Rightarrow> (caml_value outcome \<times> (utimes_x, 'os) cst) option" where
  [job_defs]: "result_utimes p s = do {
     job \<leftarrow> heap s p;
     LWT_UNIX_CHECK_JOB_ARG p (j_result job \<noteq> 0) ''utimes'' (job_path job) s (free_and_return p Val_unit)
   }"

text \<open>\<^verbatim>\<open>tv_sec = t; tv_usec = (t - tv_sec) * 1000000;\<close>\<close>

definition to_timeval :: "double_ops \<Rightarrow> 64 word \<Rightarrow> timeval" where
  "to_timeval F t = (let sec = d_to_int F t
     in \<lparr>tv_sec = sec, tv_usec = d_to_int F (d_mul F (d_sub F t (d_of_int F sec)) (d_of_int F 1000000))\<rparr>)"

definition lwt_unix_utimes_job :: "double_ops \<Rightarrow> nat \<Rightarrow> job_utimes \<times> (nat \<Rightarrow> char) \<Rightarrow> char list \<Rightarrow> 64 word \<Rightarrow> 64 word
    \<Rightarrow> (utimes_x, 'os) cst \<Rightarrow> (caml_value \<times> (utimes_x, 'os) cst) option" where
  [job_defs]: "lwt_unix_utimes_job F a ug path atime mtime s = do {
     s \<leftarrow> LWT_UNIX_INIT_JOB_STRING a ''utimes'' 0 path ug s;
     s \<leftarrow> (if d_eq F atime (d_of_int F 0) \<and> d_eq F mtime (d_of_int F 0)
           then set_job a (\<lambda>j. j\<lparr>u_times_pointer := None\<rparr>) s
           else set_job a (\<lambda>j. j\<lparr>u_times := [to_timeval F atime, to_timeval F mtime], u_times_pointer := Some ()\<rparr>) s);
     lwt_unix_alloc_job a s
   }"

section \<open>The contracts\<close>

definition stat_answer :: "(string \<Rightarrow> int) \<Rightarrow> double_ops \<Rightarrow> bool \<Rightarrow> string \<Rightarrow> caml_value \<Rightarrow> int \<times> stat \<Rightarrow> int \<Rightarrow> caml_value outcome" where
  "stat_answer K F use_64 name arg rs e =
     (if fst rs < 0 then Raise (Unix_error e name arg) else Ret (copy_stat K F use_64 (snd rs)))"

definition stat_finished :: "char list \<Rightarrow> int \<times> stat \<Rightarrow> int \<Rightarrow> stat_x lwt_unix_job_scheme \<Rightarrow> bool" where
  "stat_finished name rs e j \<longleftrightarrow> job_path j = Some (cstring name) \<and> j_result j = fst rs \<and> t_stat j = snd rs \<and> j_error_code j = e"

definition fstat_finished :: "int \<times> stat \<Rightarrow> int \<Rightarrow> fstat_x lwt_unix_job_scheme \<Rightarrow> bool" where
  "fstat_finished rs e j \<longleftrightarrow> j_result j = fst rs \<and> t_fstat j = snd rs \<and> j_error_code j = e"

definition utimes_answer :: "char list \<Rightarrow> int \<Rightarrow> int \<Rightarrow> caml_value outcome" where
  "utimes_answer path r e = (if r \<noteq> 0 then Raise (Unix_error e ''utimes'' (Caml_string (cstring path))) else Ret Val_unit)"

text \<open>The times that \<^verbatim>\<open>utimes\<close> passes: none (the current time) when both are zero.\<close>

definition utimes_arg :: "double_ops \<Rightarrow> 64 word \<Rightarrow> 64 word \<Rightarrow> timeval list option" where
  "utimes_arg F atime mtime = (if d_eq F atime (d_of_int F 0) \<and> d_eq F mtime (d_of_int F 0) then None else Some [to_timeval F atime, to_timeval F mtime])"

lemma job_path_stat [simp]:
  "job_path (j\<lparr>result_fn := r\<rparr>) = job_path j"
  "job_path (j\<lparr>j_result := x, j_error_code := e\<rparr>) = job_path j"
  "job_path (j'\<lparr>j_result := x, t_stat := st, j_error_code := e\<rparr>) = job_path j'"
  "job_path (k\<lparr>u_times_pointer := None\<rparr>) = job_path k"
  "job_path (k\<lparr>u_times := ts, u_times_pointer := tp\<rparr>) = job_path k"
  by (simp_all add: job_path_def)

lemmas stat_contract =
  path_contract stat_answer_def stat_finished_def fstat_finished_def utimes_answer_def utimes_arg_def split_beta

interpretation stat_job: job_impl "''worker_stat''" "''result_stat''" "\<lambda>a ug. lwt_unix_stat_job a ug name" "worker_stat call" "result_stat K F"
    "call (cstring name)" "stat_answer K F False ''stat'' (Caml_string (cstring name))" "path_ready name (\<lambda>j. True)" "stat_finished name" for K F name call
  by unfold_locales (simp_all add: job_defs job_common stat_contract)

interpretation stat_64_job: job_impl "''worker_stat''" "''result_stat_64''" "\<lambda>a ug. lwt_unix_stat_64_job a ug name" "worker_stat call" "result_stat_64 K F"
    "call (cstring name)" "stat_answer K F True ''stat'' (Caml_string (cstring name))" "path_ready name (\<lambda>j. True)" "stat_finished name" for K F name call
  by unfold_locales (simp_all add: job_defs job_common stat_contract)

interpretation lstat_job: job_impl "''worker_lstat''" "''result_lstat''" "\<lambda>a ug. lwt_unix_lstat_job a ug name" "worker_lstat call" "result_lstat K F"
    "call (cstring name)" "stat_answer K F False ''lstat'' (Caml_string (cstring name))" "path_ready name (\<lambda>j. True)" "stat_finished name" for K F name call
  by unfold_locales (simp_all add: job_defs job_common stat_contract)

interpretation lstat_64_job: job_impl "''worker_lstat''" "''result_lstat_64''" "\<lambda>a ug. lwt_unix_lstat_64_job a ug name" "worker_lstat call" "result_lstat_64 K F"
    "call (cstring name)" "stat_answer K F True ''lstat'' (Caml_string (cstring name))" "path_ready name (\<lambda>j. True)" "stat_finished name" for K F name call
  by unfold_locales (simp_all add: job_defs job_common stat_contract)

interpretation fstat_job: job_impl "''worker_fstat''" "''result_fstat''" "\<lambda>a u. lwt_unix_fstat_job a u fd" "worker_fstat call" "result_fstat K F"
    "call (c_int fd)" "stat_answer K F False ''fstat'' Nothing" "\<lambda>j. t_fd j = c_int fd" "fstat_finished" for K F fd call
  by unfold_locales (simp_all add: job_defs job_common stat_contract)

interpretation fstat_64_job: job_impl "''worker_fstat''" "''result_fstat_64''" "\<lambda>a u. lwt_unix_fstat_64_job a u fd" "worker_fstat call" "result_fstat_64 K F"
    "call (c_int fd)" "stat_answer K F True ''fstat'' Nothing" "\<lambda>j. t_fd j = c_int fd" "fstat_finished" for K F fd call
  by unfold_locales (simp_all add: job_defs job_common stat_contract)

interpretation utimes_job: job_impl "''worker_utimes''" "''result_utimes''" "\<lambda>a ug. lwt_unix_utimes_job F a ug path atime mtime" "worker_utimes call" "result_utimes"
    "call (cstring path) (utimes_arg F atime mtime)" "utimes_answer path"
    "path_ready path (\<lambda>j. map_option (\<lambda>_. u_times j) (u_times_pointer j) = utimes_arg F atime mtime)" "path_finished path" for F path atime mtime call
  by unfold_locales (simp_all add: job_defs job_common stat_contract)

lemmas stat_runs =
  stat_job.run_spec stat_64_job.run_spec lstat_job.run_spec lstat_64_job.run_spec fstat_job.run_spec fstat_64_job.run_spec utimes_job.run_spec

section \<open>The record\<close>

text \<open>The OCaml types \<^verbatim>\<open>Unix.stats\<close> and \<^verbatim>\<open>Unix.LargeFile.stats\<close>.\<close>

definition stats_type :: "bool \<Rightarrow> caml_type" where
  "stats_type use_64 = Record_t [Int_t, Int_t, Enum_t 7, Int_t, Int_t, Int_t, Int_t, Int_t, if use_64 then Int64_t else Int_t, Double_t, Double_t, Double_t]"

lemma copy_stat_typed: "has_type (stats_type use_64) (copy_stat K F use_64 buf)"
proof -
  have "has_type (Enum_t 7) (stat_kind K m)" for m
    by (simp add: stat_kind_def Let_def Val_int_def caml_int_id)
  moreover have "- (2 ^ 63) \<le> c_long i" "c_long i < 2 ^ 63" for i
    unfolding c_long_def by (rule signed_take_bit_int_greater_eq_minus_exp, rule signed_take_bit_int_less_exp)
  ultimately show ?thesis
    using caml_int_range by (simp add: stats_type_def copy_stat_def stat_time_def Let_def Val_int_def)
qed

text \<open>The kinds of files, in the order of the constructors of \<^verbatim>\<open>Unix.file_kind\<close>.\<close>

definition kind_names :: "string list" where
  "kind_names = [''S_IFREG'', ''S_IFDIR'', ''S_IFCHR'', ''S_IFBLK'', ''S_IFLNK'', ''S_IFIFO'', ''S_IFSOCK'']"

lemma stat_kind_index:
  assumes "distinct (map K kind_names)" and "i < 7" and "and m (K ''S_IFMT'') = K (kind_names ! i)"
  shows "stat_kind K m = Imm (int i)"
proof -
  consider "i = 0" | "i = 1" | "i = 2" | "i = 3" | "i = 4" | "i = 5" | "i = 6" using assms(2) by linarith
  then show ?thesis
    using assms(1,3) by cases ((simp_all add: stat_kind_def kind_names_def Let_def Val_int_def caml_int_id), auto)
qed

section \<open>Properties\<close>

definition demo_F :: double_ops where
  "demo_F = \<lparr>d_of_int = word_of_int, d_add = (+), d_sub = (-), d_mul = (*), d_div = (\<lambda>x y. x), d_eq = (=), d_to_int = uint\<rparr>"

definition demo_stat :: stat where
  "demo_stat = \<lparr>st_dev = 1, st_ino = 2, st_mode = 16877, st_nlink = 3, st_uid = 4, st_gid = 5, st_rdev = 6, st_size = 7,
     st_atime = 8, st_mtime = 9, st_ctime = 10, st_ansec = 0, st_mnsec = 0, st_cnsec = 0\<rparr>"

definition demo_fstat_job :: job_fstat where
  "demo_fstat_job = \<lparr>next_job = Some 9, notification_id = 9, worker_fn = [], result_fn = [], job_state = LWT_UNIX_JOB_STATE_DONE,
     fast = 5, job_mutex = Mutex_held, async_method = LWT_UNIX_ASYNC_METHOD_SWITCH, j_result = 3, j_error_code = 4, t_fd = 7, t_fstat = demo_stat\<rparr>"

definition demo_S :: "string \<Rightarrow> int" where
  "demo_S n = (if n = ''S_IFMT'' then 61440 else if n = ''S_IFREG'' then 32768 else if n = ''S_IFDIR'' then 16384 else if n = ''S_IFCHR'' then 8192
     else if n = ''S_IFBLK'' then 24576 else if n = ''S_IFLNK'' then 40960 else if n = ''S_IFIFO'' then 4096 else 49152)"

text \<open>
  The status of files. The six jobs \<^verbatim>\<open>stat\<close>, \<^verbatim>\<open>lstat\<close> and \<^verbatim>\<open>fstat\<close> and the job \<^verbatim>\<open>utimes\<close> make exactly one system call on their arguments, free
  their memory, and report an error with the path or the converted structure: a value of the OCaml record type, with the kind of the file
  in the order of the constructors of \<^verbatim>\<open>Unix.file_kind\<close> and the size in the representation the caller asked for. \<^verbatim>\<open>utimes\<close> passes a null pointer exactly
  when both times are zero.
\<close>

theorem stat_jobs_correct:
  assumes "heap s a = None" and "heap t a = None" and "heap u a = None"
  shows
    "job_run am e (lwt_unix_stat_job a ug name) [''worker_stat'' \<mapsto> worker_stat stat_c] [''result_stat'' \<mapsto> result_stat K F] s =
       job_spec (stat_c (cstring name)) (stat_answer K F False ''stat'' (Caml_string (cstring name))) e s \<and>
     job_run am e (lwt_unix_stat_64_job a ug name) [''worker_stat'' \<mapsto> worker_stat stat_c] [''result_stat_64'' \<mapsto> result_stat_64 K F] s =
       job_spec (stat_c (cstring name)) (stat_answer K F True ''stat'' (Caml_string (cstring name))) e s \<and>
     job_run am e (lwt_unix_lstat_job a ug name) [''worker_lstat'' \<mapsto> worker_lstat stat_c] [''result_lstat'' \<mapsto> result_lstat K F] s =
       job_spec (stat_c (cstring name)) (stat_answer K F False ''lstat'' (Caml_string (cstring name))) e s \<and>
     job_run am e (lwt_unix_lstat_64_job a ug name) [''worker_lstat'' \<mapsto> worker_lstat stat_c] [''result_lstat_64'' \<mapsto> result_lstat_64 K F] s =
       job_spec (stat_c (cstring name)) (stat_answer K F True ''lstat'' (Caml_string (cstring name))) e s \<and>
     job_run am e (lwt_unix_fstat_job a v fd) [''worker_fstat'' \<mapsto> worker_fstat fstat_c] [''result_fstat'' \<mapsto> result_fstat K F] t =
       job_spec (fstat_c (c_int fd)) (stat_answer K F False ''fstat'' Nothing) e t \<and>
     job_run am e (lwt_unix_fstat_64_job a v fd) [''worker_fstat'' \<mapsto> worker_fstat fstat_c] [''result_fstat_64'' \<mapsto> result_fstat_64 K F] t =
       job_spec (fstat_c (c_int fd)) (stat_answer K F True ''fstat'' Nothing) e t \<and>
     job_run am e (lwt_unix_utimes_job F a ugu name atime mtime) [''worker_utimes'' \<mapsto> worker_utimes utimes] [''result_utimes'' \<mapsto> result_utimes] u =
       job_spec (utimes (cstring name) (utimes_arg F atime mtime)) (utimes_answer name) e u \<and>
     has_type (stats_type use_64) (copy_stat K F use_64 buf) \<and>
     (distinct (map K kind_names) \<longrightarrow> (\<forall>i < 7. and m (K ''S_IFMT'') = K (kind_names ! i) \<longrightarrow> stat_kind K m = Imm (int i)))"
  by (simp add: assms stat_runs copy_stat_typed stat_kind_index)

theorem stat_jobs_correct_witness:
  "job_run LWT_UNIX_ASYNC_METHOD_DETACH 0 (lwt_unix_fstat_64_job 1 demo_fstat_job 3)
      [''worker_fstat'' \<mapsto> worker_fstat (\<lambda>fd e w. ((0, demo_stat), e, w @ [(fd, fd)]))] [''result_fstat_64'' \<mapsto> result_fstat_64 demo_S demo_F] demo_cst =
    Some (Ret (Block 0 [Imm 1, Imm 2, Imm 1, Imm 493, Imm 3, Imm 4, Imm 5, Imm 6, Caml_int64 7, Caml_double 8, Caml_double 9, Caml_double 10]),
          demo_cst\<lparr>os := [(3, 3)]\<rparr>)"
proof -
  have h: "heap demo_cst 1 = None" by (simp add: demo_cst_def)
  note r = stat_jobs_correct [OF h h h, where am = LWT_UNIX_ASYNC_METHOD_DETACH and e = 0 and fd = 3 and v = demo_fstat_job and K = demo_S and F = demo_F
      and fstat_c = "\<lambda>fd e w. ((0, demo_stat), e, w @ [(fd, fd)])", THEN conjunct2, THEN conjunct2, THEN conjunct2, THEN conjunct2, THEN conjunct2, THEN conjunct1]
  show ?thesis
    unfolding r by (simp add: job_spec_def stat_answer_def copy_stat_def stat_kind_def stat_time_def demo_stat_def demo_F_def demo_S_def demo_cst_def Let_def
        Val_int_def caml_int_id c_long_id c_int_id)
qed

end
