(* ===== verification/Netdb.thy ===== *)
theory Netdb
  imports Value_Types Prelude
begin

text \<open>
  The entries of the network databases in C memory: \<^verbatim>\<open>unix_get_network_information_utils.c\<close> and the functions of
  \<^verbatim>\<open>unix_getprotoby_getservby_job.c\<close> that copy, free and convert entries.

  Where libc has no reentrant functions, \<^verbatim>\<open>gethostbyname\<close> and the like return a pointer to static memory, and the worker thread
  makes a deep copy of the entry. Each \<^verbatim>\<open>malloc\<close> on the way may fail, and then everything copied so far must be freed. The memory is a map from
  addresses to typed cells. The \<open>k\<close>-th call of \<^verbatim>\<open>malloc\<close> with the cells \<open>c\<close> in use returns \<open>l_alloc L k c\<close>, a null pointer (\<open>None\<close>) or an
  address; the other fields of \<open>L\<close> are what the new memory holds.

  This theory holds the definitions; what they guarantee is shown in \<open>Netdb_Copy\<close>.
\<close>

section \<open>Memory\<close>

record hostent =
  h_name :: "nat option"
  h_aliases :: "nat option"
  h_addrtype :: int
  h_length :: int
  h_addr_list :: "nat option"

record protoent =
  p_name :: "nat option"
  p_aliases :: "nat option"
  p_proto :: int

record servent =
  s_name :: "nat option"
  s_aliases :: "nat option"
  s_port :: int
  s_proto :: "nat option"

text \<open>
  Bytes, an array of pointers (\<open>None\<close> is the null pointer), a structure, or a buffer of a given size in which a function of libc has
  placed cells; pointers between those are offsets in the buffer.
\<close>

datatype cell =
    Bytes "char list"
  | Ptrs "nat option list"
  | Hostent hostent
  | Protoent protoent
  | Servent servent
  | Buffer nat "nat \<rightharpoonup> cell"

type_synonym cells = "nat \<rightharpoonup> cell"

record 'w netos =
  cells :: cells
  calls :: nat
  world :: 'w

record libc =
  l_alloc :: "nat \<Rightarrow> cells \<Rightarrow> nat option"
  l_bytes :: "nat \<Rightarrow> char"
  l_ptrs :: "nat \<Rightarrow> nat option"
  l_hostent :: hostent
  l_protoent :: protoent
  l_servent :: servent

definition malloc :: "libc \<Rightarrow> cell \<Rightarrow> 'w netos \<Rightarrow> (nat option \<times> 'w netos) option" where
  "malloc L d m = (case l_alloc L (calls m) (cells m) of
     None \<Rightarrow> Some (None, m\<lparr>calls := calls m + 1\<rparr>)
   | Some a \<Rightarrow> if cells m a = None then Some (Some a, m\<lparr>cells := (cells m)(a \<mapsto> d), calls := calls m + 1\<rparr>) else None)"

definition free_cell :: "nat \<Rightarrow> 'w netos \<Rightarrow> 'w netos option" where
  "free_cell a m = (if cells m a = None then None else Some (m\<lparr>cells := (cells m)(a := None)\<rparr>))"

text \<open>\<^verbatim>\<open>free\<close> does nothing to a null pointer.\<close>

fun free_ptr :: "nat option \<Rightarrow> 'w netos \<Rightarrow> 'w netos option" where
  "free_ptr None m = Some m"
| "free_ptr (Some a) m = free_cell a m"

definition get_bytes :: "cells \<Rightarrow> nat \<Rightarrow> char list option" where
  "get_bytes c a = (case c a of Some (Bytes bs) \<Rightarrow> Some bs | _ \<Rightarrow> None)"

definition get_ptrs :: "cells \<Rightarrow> nat \<Rightarrow> nat option list option" where
  "get_ptrs c a = (case c a of Some (Ptrs ps) \<Rightarrow> Some ps | _ \<Rightarrow> None)"

definition get_str :: "cells \<Rightarrow> nat \<Rightarrow> char list option" where
  "get_str c a = do { bs \<leftarrow> get_bytes c a; cstr_at bs 0 }"

definition store_ptr :: "nat \<Rightarrow> nat \<Rightarrow> nat option \<Rightarrow> 'w netos \<Rightarrow> 'w netos option" where
  "store_ptr a i q m = do {
     ps \<leftarrow> get_ptrs (cells m) a;
     if i < length ps then Some (m\<lparr>cells := (cells m)(a \<mapsto> Ptrs (ps[i := q]))\<rparr>) else None
   }"

text \<open>The number of pointers before the null pointer that ends an array: \<^verbatim>\<open>while (*p) { i++; p++; }\<close>.\<close>

fun count_ptrs :: "nat option list \<Rightarrow> nat option" where
  "count_ptrs [] = None"
| "count_ptrs (None # ps) = Some 0"
| "count_ptrs (Some a # ps) = map_option Suc (count_ptrs ps)"

text \<open>The pointers in the array at \<open>a\<close>, without the null pointer.\<close>

definition ptr_array :: "cells \<Rightarrow> nat \<Rightarrow> nat option list option" where
  "ptr_array c a = do { ps \<leftarrow> get_ptrs c a; n \<leftarrow> count_ptrs ps; Some (take n ps) }"

fun map_opt :: "('a \<Rightarrow> 'b option) \<Rightarrow> 'a list \<Rightarrow> 'b list option" where
  "map_opt f [] = Some []"
| "map_opt f (x # xs) = do { y \<leftarrow> f x; ys \<leftarrow> map_opt f xs; Some (y # ys) }"

section \<open>Copying and freeing\<close>

definition strdup :: "libc \<Rightarrow> nat option \<Rightarrow> 'w netos \<Rightarrow> (nat option \<times> 'w netos) option" where
  "strdup L q m = do { a \<leftarrow> q; str \<leftarrow> get_str (cells m) a; malloc L (Bytes (str @ [NUL])) m }"

definition s_strdup :: "libc \<Rightarrow> nat option \<Rightarrow> 'w netos \<Rightarrow> (nat option \<times> 'w netos) option" where
  "s_strdup L q m = (case q of None \<Rightarrow> malloc L (Bytes [NUL]) m | Some a \<Rightarrow> strdup L (Some a) m)"

text \<open>\<^verbatim>\<open>malloc (addr_len)\<close> and \<^verbatim>\<open>memcpy\<close>; the length is converted to \<^verbatim>\<open>size_t\<close>.\<close>

definition dup_addr :: "libc \<Rightarrow> int \<Rightarrow> nat option \<Rightarrow> 'w netos \<Rightarrow> (nat option \<times> 'w netos) option" where
  "dup_addr L addr_len q m = do {
     let n = nat (take_bit 64 addr_len);
     (r, m) \<leftarrow> malloc L (Bytes (map (l_bytes L) [0..<n])) m;
     case r of
       None \<Rightarrow> Some (None, m)
     | Some b \<Rightarrow> do {
         a \<leftarrow> q;
         src \<leftarrow> get_bytes (cells m) a;
         src \<leftarrow> read_at src 0 n;
         dst \<leftarrow> get_bytes (cells m) b;
         dst \<leftarrow> write_at dst 0 src;
         Some (Some b, m\<lparr>cells := (cells m)(b \<mapsto> Bytes dst)\<rparr>)
       }
   }"

text \<open>The loop of the two functions that copy arrays: element \<open>i\<close> is next; when a copy fails, the ones made so far are freed.\<close>

fun copy_loop :: "(nat option \<Rightarrow> 'w netos \<Rightarrow> (nat option \<times> 'w netos) option) \<Rightarrow> nat \<Rightarrow> nat \<Rightarrow> nat option list \<Rightarrow> 'w netos
    \<Rightarrow> (nat option \<times> 'w netos) option" where
  "copy_loop dup p i [] m = do { m \<leftarrow> store_ptr p i None m; Some (Some p, m) }"
| "copy_loop dup p i (q # qs) m = do {
     (r, m) \<leftarrow> dup q m;
     m \<leftarrow> store_ptr p i r m;
     if r = None then do {
       ps \<leftarrow> get_ptrs (cells m) p;
       m \<leftarrow> iter_opt free_ptr (take i ps) m;
       m \<leftarrow> free_cell p m;
       Some (None, m)
     } else copy_loop dup p (Suc i) qs m
   }"

definition copy_array :: "libc \<Rightarrow> (nat option \<Rightarrow> 'w netos \<Rightarrow> (nat option \<times> 'w netos) option) \<Rightarrow> nat option \<Rightarrow> 'w netos
    \<Rightarrow> (nat option \<times> 'w netos) option" where
  "copy_array L dup src m = (case src of None \<Rightarrow> Some (None, m) | Some a \<Rightarrow> do {
     qs \<leftarrow> ptr_array (cells m) a;
     (r, m) \<leftarrow> malloc L (Ptrs (map (l_ptrs L) [0..<length qs + 1])) m;
     case r of None \<Rightarrow> Some (None, m) | Some p \<Rightarrow> copy_loop dup p 0 qs m
   })"

definition c_copy_addr_array :: "libc \<Rightarrow> nat option \<Rightarrow> int \<Rightarrow> 'w netos \<Rightarrow> (nat option \<times> 'w netos) option" where
  "c_copy_addr_array L src addr_len m = copy_array L (dup_addr L addr_len) src m"

definition c_copy_string_array :: "libc \<Rightarrow> nat option \<Rightarrow> 'w netos \<Rightarrow> (nat option \<times> 'w netos) option" where
  "c_copy_string_array L src m = copy_array L (strdup L) src m"

definition c_free_string_array :: "nat option \<Rightarrow> 'w netos \<Rightarrow> 'w netos option" where
  "c_free_string_array src m = (case src of None \<Rightarrow> Some m | Some a \<Rightarrow> do {
     qs \<leftarrow> ptr_array (cells m) a;
     m \<leftarrow> iter_opt free_ptr qs m;
     free_cell a m
   })"

section \<open>Copies of entries\<close>

definition get_hostent :: "cells \<Rightarrow> nat \<Rightarrow> hostent option" where
  "get_hostent c a = (case c a of Some (Hostent h) \<Rightarrow> Some h | _ \<Rightarrow> None)"

definition get_protoent :: "cells \<Rightarrow> nat \<Rightarrow> protoent option" where
  "get_protoent c a = (case c a of Some (Protoent h) \<Rightarrow> Some h | _ \<Rightarrow> None)"

definition get_servent :: "cells \<Rightarrow> nat \<Rightarrow> servent option" where
  "get_servent c a = (case c a of Some (Servent h) \<Rightarrow> Some h | _ \<Rightarrow> None)"

definition set_hostent :: "nat \<Rightarrow> (hostent \<Rightarrow> hostent) \<Rightarrow> 'w netos \<Rightarrow> 'w netos option" where
  "set_hostent a f m = do { h \<leftarrow> get_hostent (cells m) a; Some (m\<lparr>cells := (cells m)(a \<mapsto> Hostent (f h))\<rparr>) }"

definition set_protoent :: "nat \<Rightarrow> (protoent \<Rightarrow> protoent) \<Rightarrow> 'w netos \<Rightarrow> 'w netos option" where
  "set_protoent a f m = do { h \<leftarrow> get_protoent (cells m) a; Some (m\<lparr>cells := (cells m)(a \<mapsto> Protoent (f h))\<rparr>) }"

definition set_servent :: "nat \<Rightarrow> (servent \<Rightarrow> servent) \<Rightarrow> 'w netos \<Rightarrow> 'w netos option" where
  "set_servent a f m = do { h \<leftarrow> get_servent (cells m) a; Some (m\<lparr>cells := (cells m)(a \<mapsto> Servent (f h))\<rparr>) }"

text \<open>
  \<^verbatim>\<open>hostent_dup\<close>, cut into the part that copies the address list and what follows, the part from the list of aliases on, and the whole;
  \<open>nomem1\<close>, \<open>nomem2\<close> and \<open>nomem3\<close> are the labels at its end.
\<close>

definition hostent_nomem1 :: "nat \<Rightarrow> 'w netos \<Rightarrow> (nat option \<times> 'w netos) option" where
  "hostent_nomem1 h m = do { m \<leftarrow> free_cell h m; Some (None, m) }"

definition hostent_nomem2 :: "nat \<Rightarrow> 'w netos \<Rightarrow> (nat option \<times> 'w netos) option" where
  "hostent_nomem2 h m = do { e \<leftarrow> get_hostent (cells m) h; m \<leftarrow> free_ptr (h_name e) m; hostent_nomem1 h m }"

definition hostent_nomem3 :: "nat \<Rightarrow> 'w netos \<Rightarrow> (nat option \<times> 'w netos) option" where
  "hostent_nomem3 h m = do { e \<leftarrow> get_hostent (cells m) h; m \<leftarrow> c_free_string_array (h_aliases e) m; hostent_nomem2 h m }"

definition hostent_dup_addrs :: "libc \<Rightarrow> hostent \<Rightarrow> nat \<Rightarrow> 'w netos \<Rightarrow> (nat option \<times> 'w netos) option" where
  "hostent_dup_addrs L orig h m = do {
     (r, m) \<leftarrow> (if h_addr_list orig = None then Some (None, m) else c_copy_addr_array L (h_addr_list orig) (h_length orig) m);
     m \<leftarrow> set_hostent h (\<lambda>e. e\<lparr>h_addr_list := r\<rparr>) m;
     if h_addr_list orig \<noteq> None \<and> r = None then hostent_nomem3 h m else do {
       m \<leftarrow> set_hostent h (\<lambda>e. e\<lparr>h_addrtype := h_addrtype orig, h_length := h_length orig\<rparr>) m;
       Some (Some h, m)
     }
   }"

definition hostent_dup_aliases :: "libc \<Rightarrow> hostent \<Rightarrow> nat \<Rightarrow> 'w netos \<Rightarrow> (nat option \<times> 'w netos) option" where
  "hostent_dup_aliases L orig h m = do {
     (r, m) \<leftarrow> (if h_aliases orig = None then Some (None, m) else c_copy_string_array L (h_aliases orig) m);
     m \<leftarrow> set_hostent h (\<lambda>e. e\<lparr>h_aliases := r\<rparr>) m;
     if h_aliases orig \<noteq> None \<and> r = None then hostent_nomem2 h m else hostent_dup_addrs L orig h m
   }"

definition hostent_dup :: "libc \<Rightarrow> nat option \<Rightarrow> 'w netos \<Rightarrow> (nat option \<times> 'w netos) option" where
  "hostent_dup L orig m = (case orig of None \<Rightarrow> Some (None, m) | Some o' \<Rightarrow> do {
     (r, m) \<leftarrow> malloc L (Hostent (l_hostent L)) m;
     case r of None \<Rightarrow> Some (None, m) | Some h \<Rightarrow> do {
       orig \<leftarrow> get_hostent (cells m) o';
       (r, m) \<leftarrow> s_strdup L (h_name orig) m;
       m \<leftarrow> set_hostent h (\<lambda>e. e\<lparr>h_name := r\<rparr>) m;
       if r = None then hostent_nomem1 h m else hostent_dup_aliases L orig h m
     }
   })"

definition hostent_free :: "nat option \<Rightarrow> 'w netos \<Rightarrow> 'w netos option" where
  "hostent_free h m = (case h of None \<Rightarrow> Some m | Some h \<Rightarrow> do {
     e \<leftarrow> get_hostent (cells m) h;
     m \<leftarrow> c_free_string_array (h_addr_list e) m;
     e \<leftarrow> get_hostent (cells m) h;
     m \<leftarrow> c_free_string_array (h_aliases e) m;
     e \<leftarrow> get_hostent (cells m) h;
     m \<leftarrow> free_ptr (h_name e) m;
     free_cell h m
   })"

text \<open>\<^verbatim>\<open>servent_dup\<close> with its labels, cut in the same way.\<close>

definition servent_nomem2 :: "nat \<Rightarrow> 'w netos \<Rightarrow> (nat option \<times> 'w netos) option" where
  "servent_nomem2 s m = do { m \<leftarrow> free_cell s m; Some (None, m) }"

definition servent_nomem3 :: "nat \<Rightarrow> 'w netos \<Rightarrow> (nat option \<times> 'w netos) option" where
  "servent_nomem3 s m = do { e \<leftarrow> get_servent (cells m) s; m \<leftarrow> free_ptr (s_name e) m; servent_nomem2 s m }"

definition servent_nomem4 :: "nat \<Rightarrow> 'w netos \<Rightarrow> (nat option \<times> 'w netos) option" where
  "servent_nomem4 s m = do { e \<leftarrow> get_servent (cells m) s; m \<leftarrow> free_ptr (s_proto e) m; servent_nomem3 s m }"

definition servent_dup_aliases :: "libc \<Rightarrow> servent \<Rightarrow> nat \<Rightarrow> 'w netos \<Rightarrow> (nat option \<times> 'w netos) option" where
  "servent_dup_aliases L serv s m = do {
     (r, m) \<leftarrow> c_copy_string_array L (s_aliases serv) m;
     m \<leftarrow> set_servent s (\<lambda>e. e\<lparr>s_aliases := r\<rparr>) m;
     if r = None \<and> s_aliases serv \<noteq> None then servent_nomem4 s m else do {
       m \<leftarrow> set_servent s (\<lambda>e. e\<lparr>s_port := s_port serv\<rparr>) m;
       Some (Some s, m)
     }
   }"

definition servent_dup_proto :: "libc \<Rightarrow> servent \<Rightarrow> nat \<Rightarrow> 'w netos \<Rightarrow> (nat option \<times> 'w netos) option" where
  "servent_dup_proto L serv s m = do {
     (r, m) \<leftarrow> s_strdup L (s_proto serv) m;
     m \<leftarrow> set_servent s (\<lambda>e. e\<lparr>s_proto := r\<rparr>) m;
     if r = None then servent_nomem3 s m else servent_dup_aliases L serv s m
   }"

definition servent_dup :: "libc \<Rightarrow> nat option \<Rightarrow> 'w netos \<Rightarrow> (nat option \<times> 'w netos) option" where
  "servent_dup L serv m = (case serv of None \<Rightarrow> Some (None, m) | Some o' \<Rightarrow> do {
     (r, m) \<leftarrow> malloc L (Servent (l_servent L)) m;
     case r of None \<Rightarrow> Some (None, m) | Some s \<Rightarrow> do {
       serv \<leftarrow> get_servent (cells m) o';
       (r, m) \<leftarrow> s_strdup L (s_name serv) m;
       m \<leftarrow> set_servent s (\<lambda>e. e\<lparr>s_name := r\<rparr>) m;
       if r = None then servent_nomem2 s m else servent_dup_proto L serv s m
     }
   })"

definition servent_free :: "nat option \<Rightarrow> 'w netos \<Rightarrow> 'w netos option" where
  "servent_free s m = (case s of None \<Rightarrow> Some m | Some s \<Rightarrow> do {
     e \<leftarrow> get_servent (cells m) s;
     m \<leftarrow> free_ptr (s_proto e) m;
     e \<leftarrow> get_servent (cells m) s;
     m \<leftarrow> free_ptr (s_name e) m;
     e \<leftarrow> get_servent (cells m) s;
     m \<leftarrow> c_free_string_array (s_aliases e) m;
     free_cell s m
   })"

text \<open>\<^verbatim>\<open>protoent_dup\<close> with its labels, cut in the same way.\<close>

definition protoent_nomem1 :: "nat \<Rightarrow> 'w netos \<Rightarrow> (nat option \<times> 'w netos) option" where
  "protoent_nomem1 p m = do { m \<leftarrow> free_cell p m; Some (None, m) }"

definition protoent_nomem2 :: "nat \<Rightarrow> 'w netos \<Rightarrow> (nat option \<times> 'w netos) option" where
  "protoent_nomem2 p m = do { e \<leftarrow> get_protoent (cells m) p; m \<leftarrow> free_ptr (p_name e) m; protoent_nomem1 p m }"

definition protoent_dup_aliases :: "libc \<Rightarrow> protoent \<Rightarrow> nat \<Rightarrow> 'w netos \<Rightarrow> (nat option \<times> 'w netos) option" where
  "protoent_dup_aliases L proto p m = do {
     (r, m) \<leftarrow> c_copy_string_array L (p_aliases proto) m;
     m \<leftarrow> set_protoent p (\<lambda>e. e\<lparr>p_aliases := r\<rparr>) m;
     if r = None \<and> p_aliases proto \<noteq> None then protoent_nomem2 p m else do {
       m \<leftarrow> set_protoent p (\<lambda>e. e\<lparr>p_proto := p_proto proto\<rparr>) m;
       Some (Some p, m)
     }
   }"

definition protoent_dup :: "libc \<Rightarrow> nat option \<Rightarrow> 'w netos \<Rightarrow> (nat option \<times> 'w netos) option" where
  "protoent_dup L proto m = (case proto of None \<Rightarrow> Some (None, m) | Some o' \<Rightarrow> do {
     (r, m) \<leftarrow> malloc L (Protoent (l_protoent L)) m;
     case r of None \<Rightarrow> Some (None, m) | Some p \<Rightarrow> do {
       proto \<leftarrow> get_protoent (cells m) o';
       (r, m) \<leftarrow> s_strdup L (p_name proto) m;
       m \<leftarrow> set_protoent p (\<lambda>e. e\<lparr>p_name := r\<rparr>) m;
       if r = None then protoent_nomem1 p m else protoent_dup_aliases L proto p m
     }
   })"

definition protoent_free :: "nat option \<Rightarrow> 'w netos \<Rightarrow> 'w netos option" where
  "protoent_free p m = (case p of None \<Rightarrow> Some m | Some p \<Rightarrow> do {
     e \<leftarrow> get_protoent (cells m) p;
     m \<leftarrow> free_ptr (p_name e) m;
     e \<leftarrow> get_protoent (cells m) p;
     m \<leftarrow> c_free_string_array (p_aliases e) m;
     free_cell p m
   })"

section \<open>Conversion to OCaml values\<close>

text \<open>
  Functions of the OCaml runtime: \<^verbatim>\<open>caml_alloc_array\<close> applies a function to each pointer of an array that ends with a null pointer,
  \<^verbatim>\<open>caml_copy_string_array\<close> copies an array of strings; \<^verbatim>\<open>alloc_inet_addr\<close> and \<^verbatim>\<open>alloc_inet6_addr\<close> make an OCaml string of the bytes of an address.
\<close>

definition caml_alloc_array :: "(nat \<Rightarrow> caml_value option) \<Rightarrow> cells \<Rightarrow> nat \<Rightarrow> caml_value option" where
  "caml_alloc_array f c a = do { qs \<leftarrow> ptr_array c a; vs \<leftarrow> map_opt (\<lambda>q. Option.bind q f) qs; Some (Block 0 vs) }"

definition copy_c_string :: "cells \<Rightarrow> nat \<Rightarrow> caml_value option" where
  "copy_c_string c a = map_option Caml_string (get_str c a)"

definition caml_copy_string_array :: "cells \<Rightarrow> nat \<Rightarrow> caml_value option" where
  "caml_copy_string_array c a = caml_alloc_array (copy_c_string c) c a"

definition alloc_one_addr :: "cells \<Rightarrow> nat \<Rightarrow> caml_value option" where
  "alloc_one_addr c a = do { bs \<leftarrow> get_bytes c a; addr \<leftarrow> read_at bs 0 4; Some (Caml_string addr) }"

definition alloc_one_addr6 :: "cells \<Rightarrow> nat \<Rightarrow> caml_value option" where
  "alloc_one_addr6 c a = do { bs \<leftarrow> get_bytes c a; addr \<leftarrow> read_at bs 0 16; Some (Caml_string addr) }"

definition alloc_host_entry :: "(string \<Rightarrow> int) \<Rightarrow> cells \<Rightarrow> hostent \<Rightarrow> caml_value option" where
  "alloc_host_entry K c entry = do {
     name \<leftarrow> Option.bind (h_name entry) (copy_c_string c);
     aliases \<leftarrow> (case h_aliases entry of Some a \<Rightarrow> caml_copy_string_array c a | None \<Rightarrow> Some (Block 0 []));
     l \<leftarrow> h_addr_list entry;
     addr_list \<leftarrow> (if h_length entry = 16 then caml_alloc_array (alloc_one_addr6 c) c l else caml_alloc_array (alloc_one_addr c) c l);
     Some (Block 0 [name, aliases,
       (if h_addrtype entry = K ''PF_UNIX'' then Val_int 0 else if h_addrtype entry = K ''PF_INET'' then Val_int 1 else Val_int 2),
       addr_list])
   }"

definition alloc_protoent :: "cells \<Rightarrow> protoent \<Rightarrow> caml_value option" where
  "alloc_protoent c entry = do {
     name \<leftarrow> Option.bind (p_name entry) (copy_c_string c);
     aliases \<leftarrow> Option.bind (p_aliases entry) (caml_copy_string_array c);
     Some (Block 0 [name, aliases, Val_int (p_proto entry)])
   }"

text \<open>\<^verbatim>\<open>ntohs\<close> and \<^verbatim>\<open>htons\<close> convert a 16-bit number between network and host byte order; the host is little endian.\<close>

definition ntohs :: "int \<Rightarrow> int" where
  "ntohs i = push_bit 8 (take_bit 8 i) + take_bit 8 (drop_bit 8 i)"

definition htons :: "int \<Rightarrow> int" where
  "htons i = push_bit 8 (take_bit 8 i) + take_bit 8 (drop_bit 8 i)"

definition alloc_servent :: "cells \<Rightarrow> servent \<Rightarrow> caml_value option" where
  "alloc_servent c entry = do {
     name \<leftarrow> Option.bind (s_name entry) (copy_c_string c);
     aliases \<leftarrow> Option.bind (s_aliases entry) (caml_copy_string_array c);
     proto \<leftarrow> Option.bind (s_proto entry) (copy_c_string c);
     Some (Block 0 [name, aliases, Val_int (ntohs (s_port entry)), proto])
   }"

end
