(* ===== verification/Netdb_Copy.thy ===== *)
theory Netdb_Copy
  imports Netdb
begin

text \<open>
  The functions of \<open>Netdb\<close> that copy entries are correct and leak nothing, whichever call of \<^verbatim>\<open>malloc\<close> fails.

  What the cells mean is given by views (\<open>host_view\<close> and the like), what belongs to a pointer by \<open>owns\<close>: a set of cells that the function that
  frees the pointer frees, in any memory that agrees on them. \<open>allocates\<close> is the shape of every result: a null pointer and the memory as it was,
  or a pointer with its new cells. The locale \<open>duplicator\<close> is the contract of the function that copies one element of an array of pointers;
  copying a whole array is proved correct once in it, for strings and for addresses.
\<close>

section \<open>The meaning of memory\<close>

text \<open>
  What the cells hold for the programmer: a string (a null pointer counts as the empty string), an array of strings, an array of
  addresses of \<open>n\<close> bytes, and from them the three kinds of entries.
\<close>

definition str_view :: "cells \<Rightarrow> nat option \<Rightarrow> char list option" where
  "str_view c q = (case q of None \<Rightarrow> Some [] | Some a \<Rightarrow> get_str c a)"

definition array_view :: "(nat option \<Rightarrow> 'b option) \<Rightarrow> cells \<Rightarrow> nat option \<Rightarrow> 'b list option option" where
  "array_view f c q = (case q of None \<Rightarrow> Some None | Some a \<Rightarrow> do { qs \<leftarrow> ptr_array c a; vs \<leftarrow> map_opt f qs; Some (Some vs) })"

definition str_elem :: "cells \<Rightarrow> nat option \<Rightarrow> char list option" where
  "str_elem c q = Option.bind q (get_str c)"

definition addr_elem :: "int \<Rightarrow> cells \<Rightarrow> nat option \<Rightarrow> char list option" where
  "addr_elem n c q = do { a \<leftarrow> q; bs \<leftarrow> get_bytes c a; read_at bs 0 (nat (take_bit 64 n)) }"

type_synonym host_data = "char list \<times> char list list option \<times> int \<times> int \<times> char list list option"
type_synonym proto_data = "char list \<times> char list list option \<times> int"
type_synonym serv_data = "char list \<times> char list list option \<times> int \<times> char list"

definition host_view :: "cells \<Rightarrow> hostent \<Rightarrow> host_data option" where
  "host_view c e = do {
     name \<leftarrow> str_view c (h_name e);
     aliases \<leftarrow> array_view (str_elem c) c (h_aliases e);
     addrs \<leftarrow> array_view (addr_elem (h_length e) c) c (h_addr_list e);
     Some (name, aliases, h_addrtype e, h_length e, addrs)
   }"

definition proto_view :: "cells \<Rightarrow> protoent \<Rightarrow> proto_data option" where
  "proto_view c e = do {
     name \<leftarrow> str_view c (p_name e);
     aliases \<leftarrow> array_view (str_elem c) c (p_aliases e);
     Some (name, aliases, p_proto e)
   }"

definition serv_view :: "cells \<Rightarrow> servent \<Rightarrow> serv_data option" where
  "serv_view c e = do {
     name \<leftarrow> str_view c (s_name e);
     aliases \<leftarrow> array_view (str_elem c) c (s_aliases e);
     proto \<leftarrow> str_view c (s_proto e);
     Some (name, aliases, s_port e, proto)
   }"

section \<open>Ownership\<close>

text \<open>\<^verbatim>\<open>malloc\<close> returns memory that is not in use; it is reliable when it never fails.\<close>

definition alloc_fresh :: "libc \<Rightarrow> bool" where
  "alloc_fresh L \<longleftrightarrow> (\<forall>k c a. l_alloc L k c = Some a \<longrightarrow> c a = None)"

definition reliable :: "libc \<Rightarrow> bool" where
  "reliable L \<longleftrightarrow> (\<forall>k c. l_alloc L k c \<noteq> None)"

text \<open>The cells \<open>S\<close> are what \<open>free\<close> frees, in any memory that agrees with \<open>c\<close> on them.\<close>

definition owns :: "('w netos \<Rightarrow> 'w netos option) \<Rightarrow> nat set \<Rightarrow> cells \<Rightarrow> bool" where
  "owns free S c \<longleftrightarrow> (\<forall>m. (\<forall>x\<in>S. cells m x = c x) \<longrightarrow> free m = Some (m\<lparr>cells := cells m |` (- S)\<rparr>))"

text \<open>
  The memory has grown by the cells \<open>S\<close> and is otherwise unchanged. The outcome of a function that allocates: either a null pointer, with the
  memory as before, because \<^verbatim>\<open>malloc\<close> failed, or a pointer to new cells \<open>S\<close> that satisfy \<open>P\<close>.
\<close>

definition frame :: "'w netos \<Rightarrow> nat set \<Rightarrow> 'w netos \<Rightarrow> bool" where
  "frame m S m' \<longleftrightarrow> world m' = world m \<and> (\<forall>x\<in>S. cells m x = None \<and> cells m' x \<noteq> None) \<and> (\<forall>x. x \<notin> S \<longrightarrow> cells m' x = cells m x)"

definition allocates :: "libc \<Rightarrow> 'w netos \<Rightarrow> (nat option \<times> 'w netos) option \<Rightarrow> (nat \<Rightarrow> nat set \<Rightarrow> cells \<Rightarrow> bool) \<Rightarrow> bool" where
  "allocates L m res P \<longleftrightarrow>
     (\<exists>m'. res = Some (None, m') \<and> cells m' = cells m \<and> world m' = world m \<and> \<not> reliable L) \<or>
     (\<exists>a S m'. res = Some (Some a, m') \<and> frame m S m' \<and> P a S (cells m'))"

lemma allocatesE:
  assumes "allocates L m res P"
  obtains (fails) m' where "res = Some (None, m')" "cells m' = cells m" "world m' = world m" "\<not> reliable L"
  | (succeeds) a S m' where "res = Some (Some a, m')" "frame m S m'" "P a S (cells m')"
  using assms unfolding allocates_def by blast

lemma allocates_None: "cells m' = cells m \<Longrightarrow> world m' = world m \<Longrightarrow> \<not> reliable L \<Longrightarrow> allocates L m (Some (None, m')) P"
  by (simp add: allocates_def)

lemma allocates_Some:
  "frame m S m' \<Longrightarrow> P a S (cells m') \<Longrightarrow>
     allocates L m (Some (Some a, m')) P"
  by (auto simp: allocates_def)

lemma allocates_cong:
  "cells m = cells m2 \<Longrightarrow> world m = world m2 \<Longrightarrow> allocates L m res P \<Longrightarrow> allocates L m2 res P"
  by (simp add: allocates_def frame_def)

lemma frame_new: "cells m a = None \<Longrightarrow> cells m' = (cells m)(a \<mapsto> d) \<Longrightarrow> world m' = world m \<Longrightarrow> frame m {a} m'"
  by (simp add: frame_def)

lemma allocates_mono: "allocates L m res P \<Longrightarrow> (\<And>a S c. P a S c \<Longrightarrow> Q a S c) \<Longrightarrow> allocates L m res Q"
  unfolding allocates_def by blast

lemma malloc_allocates: "alloc_fresh L \<Longrightarrow> allocates L m (malloc L d m) (\<lambda>a S c. S = {a} \<and> c a = Some d)"
proof (cases "l_alloc L (calls m) (cells m)")
  case None
  then have "\<not> reliable L" unfolding reliable_def by blast
  with None show ?thesis by (simp add: malloc_def allocates_None)
next
  case (Some a)
  moreover assume "alloc_fresh L"
  ultimately have "cells m a = None" by (auto simp: alloc_fresh_def)
  with Some show ?thesis by (auto simp: malloc_def intro!: allocates_Some [where S = "{a}"] frame_new)
qed

lemma netos_eqI: "cells m = cells m' \<Longrightarrow> calls m = calls m' \<Longrightarrow> world m = world m' \<Longrightarrow> (m :: 'w netos) = m'"
  by (cases m; cases m') simp

lemma owns_cong: "owns free S c \<Longrightarrow> (\<And>x. x \<in> S \<Longrightarrow> c' x = c x) \<Longrightarrow> owns free S c'"
  by (simp add: owns_def)

lemma owns_free: "owns free S (cells m) \<Longrightarrow> free m = Some (m\<lparr>cells := cells m |` (- S)\<rparr>)"
  by (simp add: owns_def)

lemma owns_cell: "c a \<noteq> None \<Longrightarrow> owns (free_cell a) {a} c"
  by (auto simp: owns_def free_cell_def restrict_map_def fun_eq_iff intro!: netos_eqI)

lemma owns_ptr: "c a \<noteq> None \<Longrightarrow> owns (free_ptr (Some a)) {a} c"
  using owns_cell [of c a] by (simp add: owns_def)

text \<open>Freeing two things with no cell in common, one after the other.\<close>

lemma owns_seq:
  assumes "owns f S c" and "owns g T c" and "S \<inter> T = {}"
  shows "owns (\<lambda>m. Option.bind (f m) g) (S \<union> T) c"
  unfolding owns_def
proof (intro allI impI)
  fix m :: "'a netos" assume a: "\<forall>x\<in>S \<union> T. cells m x = c x"
  let ?m = "m\<lparr>cells := cells m |` (- S)\<rparr>"
  have "f m = Some ?m" using assms(1) a by (simp add: owns_def)
  moreover have "\<forall>x\<in>T. cells ?m x = c x" using assms(3) a by (auto simp: restrict_map_def)
  then have "g ?m = Some (?m\<lparr>cells := cells ?m |` (- T)\<rparr>)" using assms(2) unfolding owns_def by blast
  moreover have "?m\<lparr>cells := cells ?m |` (- T)\<rparr> = m\<lparr>cells := cells m |` (- (S \<union> T))\<rparr>"
    by (auto intro!: netos_eqI simp: restrict_map_def fun_eq_iff)
  ultimately show "Option.bind (f m) g = Some (m\<lparr>cells := cells m |` (- (S \<union> T))\<rparr>)" by simp
qed

lemma owns_nothing: "owns Some {} c"
  by (auto simp: owns_def intro!: netos_eqI)

lemma owns_ptrs: "distinct qs \<Longrightarrow> \<forall>q\<in>set qs. c q \<noteq> None \<Longrightarrow> owns (iter_opt free_ptr (map Some qs)) (set qs) c"
proof (induction qs)
  case (Cons q qs)
  then have q: "c q \<noteq> None" "{q} \<inter> set qs = {}" "distinct qs" "\<forall>q\<in>set qs. c q \<noteq> None" by auto
  from owns_seq [OF owns_ptr [of c q, OF q(1)] Cons.IH [OF q(3,4)] q(2)] show ?case by simp
qed (use owns_nothing in \<open>simp add: owns_def\<close>)

lemma count_ptrs_array [simp]: "count_ptrs (map Some qs @ None # rest) = Some (length qs)"
  by (induction qs) simp_all

lemma ptr_array_Ptrs [simp]: "c a = Some (Ptrs (map Some qs @ None # rest)) \<Longrightarrow> ptr_array c a = Some (map Some qs)"
  by (simp add: ptr_array_def get_ptrs_def)

text \<open>An array of pointers to blocks of bytes, all its own.\<close>

definition array_at :: "cells \<Rightarrow> nat \<Rightarrow> nat set \<Rightarrow> char list list \<Rightarrow> bool" where
  "array_at c a S bss \<longleftrightarrow> (\<exists>qs. distinct (a # qs) \<and> S = set (a # qs) \<and> c a = Some (Ptrs (map Some qs @ [None])) \<and> map c qs = map (Some \<circ> Bytes) bss)"

lemma map_eq_Some: "map c qs = map (Some \<circ> f) bss \<Longrightarrow> q \<in> set qs \<Longrightarrow> c q \<noteq> None"
proof
  assume "map c qs = map (Some \<circ> f) bss" "q \<in> set qs" "c q = None"
  then have "None \<in> set (map (Some \<circ> f) bss)" by (metis image_eqI list.set_map)
  then show False by auto
qed

lemma owns_array:
  assumes "array_at c a S bss" shows "owns (c_free_string_array (Some a)) S c"
proof -
  obtain qs where qs: "distinct (a # qs)" "S = set (a # qs)" "c a = Some (Ptrs (map Some qs @ [None]))" "map c qs = map (Some \<circ> Bytes) bss"
    using assms unfolding array_at_def by blast
  have "owns (\<lambda>m. Option.bind (iter_opt free_ptr (map Some qs) m) (free_cell a)) (set qs \<union> {a}) c"
    using qs map_eq_Some [OF qs(4)] by (intro owns_seq owns_ptrs owns_cell) auto
  then show ?thesis using qs(2,3) unfolding owns_def
    by (auto simp: c_free_string_array_def Un_commute)
qed

lemma array_at_cong: "array_at c a S bss \<Longrightarrow> (\<And>x. x \<in> S \<Longrightarrow> c' x = c x) \<Longrightarrow> array_at c' a S bss"
  unfolding array_at_def by (metis (no_types, lifting) list.set_intros(1) list.set_intros(2) map_eq_conv)


section \<open>Copying arrays\<close>

text \<open>
  The contract of a function \<open>dup\<close> that copies one element: it allocates one block, whose content \<open>elem\<close> is a function of the element and
  survives the allocation of other memory.
\<close>

locale duplicator =
  fixes L :: libc
    and dup :: "nat option \<Rightarrow> 'w netos \<Rightarrow> (nat option \<times> 'w netos) option"
    and elem :: "cells \<Rightarrow> nat option \<Rightarrow> char list option"
  assumes dup_allocates: "alloc_fresh L \<Longrightarrow> elem (cells m) q = Some bs \<Longrightarrow> allocates L m (dup q m) (\<lambda>a S c. S = {a} \<and> c a = Some (Bytes bs))"
    and elem_mono: "elem c q = Some bs \<Longrightarrow> c \<subseteq>\<^sub>m c' \<Longrightarrow> elem c' q = Some bs"
begin

text \<open>
  The state of the loop: \<open>qs\<close> are the copies made so far, of contents \<open>bss\<close>, in the cells up to \<open>i\<close> of the new array \<open>p\<close> with \<open>n\<close> cells;
  \<open>c0\<close> is the memory before.
\<close>

definition loop_inv :: "cells \<Rightarrow> nat \<Rightarrow> nat \<Rightarrow> nat list \<Rightarrow> char list list \<Rightarrow> cells \<Rightarrow> bool" where
  "loop_inv c0 p n qs bss c \<longleftrightarrow> (\<exists>ps. c p = Some (Ptrs ps) \<and> length ps = n \<and> take (length qs) ps = map Some qs \<and> length qs \<le> n) \<and>
     distinct (p # qs) \<and> map c qs = map (Some \<circ> Bytes) bss \<and> (\<forall>x\<in>set (p # qs). c0 x = None) \<and> (\<forall>x. x \<notin> set (p # qs) \<longrightarrow> c x = c0 x)"

lemma loop_inv_mono: "loop_inv c0 p n qs bss c \<Longrightarrow> c0 \<subseteq>\<^sub>m c"
  unfolding loop_inv_def map_le_def by (metis domIff)

lemma loop_inv_cleanup:
  assumes "loop_inv c0 p n qs bss (cells m)" and "length qs < n"
  shows "\<exists>m'. store_ptr p (length qs) None m = Some m' \<and> (do {
       ps \<leftarrow> get_ptrs (cells m') p;
       m \<leftarrow> iter_opt free_ptr (take (length qs) ps) m';
       m \<leftarrow> free_cell p m;
       Some (None :: nat option, m) }) = Some (None, m\<lparr>cells := c0\<rparr>)"
proof -
  obtain ps where ps: "cells m p = Some (Ptrs ps)" "length ps = n" "take (length qs) ps = map Some qs"
    using assms(1) unfolding loop_inv_def by blast
  let ?m = "m\<lparr>cells := (cells m)(p \<mapsto> Ptrs (ps[length qs := None]))\<rparr>"
  have st: "store_ptr p (length qs) None m = Some ?m" using ps assms(2) by (simp add: store_ptr_def get_ptrs_def)
  have i: "distinct (p # qs)" "map (cells m) qs = map (Some \<circ> Bytes) bss" "\<forall>x\<in>set (p # qs). c0 x = None" "\<forall>x. x \<notin> set (p # qs) \<longrightarrow> cells m x = c0 x"
    using assms(1) unfolding loop_inv_def by blast+
  have "\<forall>q\<in>set qs. cells ?m q \<noteq> None" using i(1) map_eq_Some [OF i(2)] by auto
  then have "owns (\<lambda>m. Option.bind (iter_opt free_ptr (map Some qs) m) (free_cell p)) (set qs \<union> {p}) (cells ?m)"
    using i(1) by (intro owns_seq owns_ptrs owns_cell) auto
  then have "Option.bind (iter_opt free_ptr (map Some qs) ?m) (free_cell p) = Some (?m\<lparr>cells := cells ?m |` (- (set qs \<union> {p}))\<rparr>)"
    by (rule owns_free)
  moreover have "?m\<lparr>cells := cells ?m |` (- (set qs \<union> {p}))\<rparr> = m\<lparr>cells := c0\<rparr>"
    using i(3,4) by (intro netos_eqI) (auto simp: restrict_map_def fun_eq_iff)
  ultimately obtain x where "iter_opt free_ptr (map Some qs) ?m = Some x" "free_cell p x = Some (m\<lparr>cells := c0\<rparr>)"
    by (auto simp: bind_Some_iff)
  then show ?thesis using st ps by (intro exI [of _ ?m]) (simp add: get_ptrs_def)
qed

lemma loop_inv_step:
  assumes "loop_inv c0 p n qs bss c" and "c b = None" and "length qs < n" and "c' = c(b \<mapsto> Bytes bs)" and "cells m = c'"
  shows "\<exists>m'. store_ptr p (length qs) (Some b) m = Some m' \<and> loop_inv c0 p n (qs @ [b]) (bss @ [bs]) (cells m') \<and> world m' = world m"
proof -
  obtain ps where ps: "c p = Some (Ptrs ps)" "length ps = n" "take (length qs) ps = map Some qs"
    using assms(1) unfolding loop_inv_def by blast
  have i: "distinct (p # qs)" "map c qs = map (Some \<circ> Bytes) bss" "\<forall>x\<in>set (p # qs). c0 x = None" "\<forall>x. x \<notin> set (p # qs) \<longrightarrow> c x = c0 x"
    using assms(1) unfolding loop_inv_def by blast+
  let ?m = "m\<lparr>cells := (cells m)(p \<mapsto> Ptrs (ps[length qs := Some b]))\<rparr>"
  have bp: "b \<noteq> p" "b \<notin> set qs" using ps(1) assms(2) map_eq_Some [OF i(2), of b] by auto
  have "store_ptr p (length qs) (Some b) m = Some ?m" using ps assms(3-5) bp by (simp add: store_ptr_def get_ptrs_def)
  moreover have "c0 b = None" using i(4) bp assms(2) by auto
  moreover have "take (length (qs @ [b])) (ps[length qs := Some b]) = map Some (qs @ [b])"
    using ps assms(3) by (simp add: take_Suc_update)
  moreover have "map (cells ?m) qs = map c qs" using i(1) bp assms(4,5) by auto
  ultimately show ?thesis using i bp ps(2) assms(3-5)
    by (intro exI [of _ ?m]) (auto simp: loop_inv_def)
qed

lemma copy_loop_allocates:
  assumes fresh: "alloc_fresh L" and "loop_inv c0 p n qs bss (cells m)" and "n = length qs + length rest + 1" and "map_opt (elem c0) rest = Some bss'"
  shows "allocates L (m\<lparr>cells := c0\<rparr>) (copy_loop dup p (length qs) rest m) (\<lambda>a S c. array_at c a S (bss @ bss'))"
  using assms(2-)
proof (induction rest arbitrary: qs bss m bss')
  case Nil
  obtain ps where ps: "cells m p = Some (Ptrs ps)" "length ps = Suc (length qs)" "take (length qs) ps = map Some qs"
    using Nil.prems(1,2) unfolding loop_inv_def by auto
  then have "length (drop (length qs) ps) = Suc 0" by simp
  then obtain x where "drop (length qs) ps = [x]" unfolding length_Suc_conv by auto
  then have x: "ps = map Some qs @ [x]" using ps(3) append_take_drop_id [of "length qs" ps] by simp
  let ?m = "m\<lparr>cells := (cells m)(p \<mapsto> Ptrs (map Some qs @ [None]))\<rparr>"
  have i: "distinct (p # qs)" "map (cells m) qs = map (Some \<circ> Bytes) bss" "\<forall>x\<in>set (p # qs). c0 x = None" "\<forall>x. x \<notin> set (p # qs) \<longrightarrow> cells m x = c0 x"
    using Nil.prems(1) unfolding loop_inv_def by blast+
  have "map (cells ?m) qs = map (cells m) qs" using i(1) by auto
  then have at: "array_at (cells ?m) p (set (p # qs)) (bss @ bss')" using i(1,2) Nil.prems(3) unfolding array_at_def by auto
  have eq: "copy_loop dup p (length qs) [] m = Some (Some p, ?m)" using ps x by (simp add: store_ptr_def get_ptrs_def list_update_append)
  have "frame (m\<lparr>cells := c0\<rparr>) (set (p # qs)) ?m" using i map_eq_Some [OF i(2)] by (auto simp: frame_def)
  then show ?case unfolding eq using at by (rule allocates_Some)
next
  case (Cons q rest)
  obtain bs bss'' where e: "elem c0 q = Some bs" "map_opt (elem c0) rest = Some bss''" "bss' = bs # bss''"
    using Cons.prems(3) by (auto simp: bind_Some_iff)
  have "elem (cells m) q = Some bs" using elem_mono [OF e(1) loop_inv_mono [OF Cons.prems(1)]] .
  from dup_allocates [OF fresh this] show ?case
  proof (cases rule: allocatesE)
    case (fails m')
    have "loop_inv c0 p n qs bss (cells m')" "length qs < n" using Cons.prems fails by simp_all
    from loop_inv_cleanup [OF this] show ?thesis using fails by (auto intro!: allocates_None)
  next
    case (succeeds b S m')
    then have "cells m b = None" "cells m' = (cells m)(b \<mapsto> Bytes bs)" "world m' = world m" by (auto simp: frame_def)
    with loop_inv_step [OF Cons.prems(1) this(1) _ refl, where m = m'] Cons.prems(2) obtain m'' where
      m'': "store_ptr p (length qs) (Some b) m' = Some m''" "loop_inv c0 p n (qs @ [b]) (bss @ [bs]) (cells m'')" "world m'' = world m" by auto
    have "n = length (qs @ [b]) + length rest + 1" using Cons.prems(2) by simp
    from allocates_cong [OF _ _ Cons.IH [OF m''(2) this e(2)], of "m\<lparr>cells := c0\<rparr>"]
    have "allocates L (m\<lparr>cells := c0\<rparr>) (copy_loop dup p (Suc (length qs)) rest m'') (\<lambda>a S c. array_at c a S (bss @ bss'))"
      using m''(3) e(3) by simp
    then show ?thesis using succeeds(1) m''(1) by simp
  qed
qed

lemma copy_array_allocates:
  assumes fresh: "alloc_fresh L" and "array_view (elem (cells m)) (cells m) (Some a) = Some (Some bss)"
  shows "allocates L m (copy_array L dup (Some a) m) (\<lambda>p S c. array_at c p S bss)"
proof -
  obtain qs where qs: "ptr_array (cells m) a = Some qs" "map_opt (elem (cells m)) qs = Some bss"
    using assms(2) by (auto simp: array_view_def bind_Some_iff)
  from malloc_allocates [OF fresh, of m "Ptrs (map (l_ptrs L) [0..<length qs + 1])"] show ?thesis
  proof (cases rule: allocatesE)
    case (fails m')
    with qs(1) show ?thesis by (simp add: copy_array_def allocates_None)
  next
    case (succeeds p S m')
    then have p: "cells m p = None" "cells m' = (cells m)(p \<mapsto> Ptrs (map (l_ptrs L) [0..<length qs + 1]))" "world m' = world m" by (auto simp: frame_def)
    then have "loop_inv (cells m) p (length qs + 1) [] [] (cells m')" by (auto simp: loop_inv_def)
    from copy_loop_allocates [OF fresh this _ qs(2)]
    have "allocates L m (copy_loop dup p 0 qs m') (\<lambda>p S c. array_at c p S bss)"
      by (auto intro: allocates_cong [rotated 2] simp: p(3))
    then show ?thesis using succeeds(1) qs(1) by (simp add: copy_array_def)
  qed
qed

end

lemma map_le_get: "c \<subseteq>\<^sub>m c' \<Longrightarrow> c a = Some x \<Longrightarrow> c' a = Some x"
  by (metis domI map_le_def)

lemma get_bytes_iff: "get_bytes c a = Some bs \<longleftrightarrow> c a = Some (Bytes bs)"
  by (auto simp: get_bytes_def split: option.splits cell.splits)

lemma get_bytes_mono: "get_bytes c a = Some bs \<Longrightarrow> c \<subseteq>\<^sub>m c' \<Longrightarrow> get_bytes c' a = Some bs"
  using map_le_get unfolding get_bytes_iff .

lemma get_str_mono: "get_str c a = Some bs \<Longrightarrow> c \<subseteq>\<^sub>m c' \<Longrightarrow> get_str c' a = Some bs"
  unfolding get_str_def bind_Some_iff using get_bytes_mono by blast

definition str_bytes :: "cells \<Rightarrow> nat option \<Rightarrow> char list option" where
  "str_bytes c q = map_option (\<lambda>str. str @ [NUL]) (str_elem c q)"

interpretation strings: duplicator L "strdup L" str_bytes for L
proof unfold_locales
  show "allocates L m (strdup L q m) (\<lambda>a S c. S = {a} \<and> c a = Some (Bytes bs))" if "alloc_fresh L" "str_bytes (cells m) q = Some bs" for m :: "'a netos" and q bs
    using that malloc_allocates [OF that(1)] by (auto simp: str_bytes_def str_elem_def strdup_def bind_Some_iff)
  show "str_bytes c' q = Some bs" if "str_bytes c q = Some bs" "c \<subseteq>\<^sub>m c'" for c c' q bs
    using that(1) get_str_mono [OF _ that(2)] by (auto simp: str_bytes_def str_elem_def bind_Some_iff)
qed

interpretation addrs: duplicator L "dup_addr L n" "addr_elem n" for L n
proof unfold_locales
  show "addr_elem n c' q = Some bs" if "addr_elem n c q = Some bs" "c \<subseteq>\<^sub>m c'" for c c' q bs
    using that(1) get_bytes_mono [OF _ that(2)] by (auto simp: addr_elem_def bind_Some_iff)
  show "allocates L m (dup_addr L n q m) (\<lambda>a S c. S = {a} \<and> c a = Some (Bytes bs))" if "alloc_fresh L" "addr_elem n (cells m) q = Some bs" for m :: "'a netos" and q bs
  proof -
    let ?n = "nat (take_bit 64 n)"
    note view = that(2)
    obtain a d where a: "q = Some a" "cells m a = Some (Bytes d)" "?n \<le> length d" "bs = take ?n d"
      using view by (auto simp: addr_elem_def bind_Some_iff get_bytes_iff read_at_def split: if_splits)
    from malloc_allocates [OF that(1), of m "Bytes (map (l_bytes L) [0..<?n])"] show ?thesis
    proof (cases rule: allocatesE)
      case (fails m')
      then show ?thesis by (simp add: dup_addr_def Let_def allocates_None)
    next
      case (succeeds b S m')
      then have f: "cells m b = None" "cells m' = (cells m)(b \<mapsto> Bytes (map (l_bytes L) [0..<?n]))" "world m' = world m" by (auto simp: frame_def)
      then have b: "cells m' a = Some (Bytes d)" "b \<noteq> a" using a(2) by auto
      then have "dup_addr L n q m = Some (Some b, m'\<lparr>cells := (cells m')(b \<mapsto> Bytes bs)\<rparr>)"
        using a f(2) succeeds(1) by (simp add: dup_addr_def Let_def get_bytes_def)
      moreover have "frame m {b} (m'\<lparr>cells := (cells m')(b \<mapsto> Bytes bs)\<rparr>)" using f by (intro frame_new [where d = "Bytes bs"]) simp_all
      ultimately show ?thesis by (simp add: allocates_Some)
    qed
  qed
qed


text \<open>What the copies look like to a reader.\<close>

lemma array_at_view:
  assumes "array_at c a S bss" and "\<And>q bs. c q = Some (Bytes bs) \<Longrightarrow> bs \<in> set bss \<Longrightarrow> f (Some q) = Some (g bs)"
  shows "array_view f c (Some a) = Some (Some (map g bss))"
proof -
  obtain qs where qs: "c a = Some (Ptrs (map Some qs @ [None]))" "map c qs = map (Some \<circ> Bytes) bss"
    using assms(1) unfolding array_at_def by blast
  have "map_opt f (map Some qs) = Some (map g bss)" using qs(2) assms(2)
  proof (induction qs arbitrary: bss)
    case (Cons q qs)
    then show ?case by (cases bss) auto
  qed simp
  then show ?thesis using qs(1) by (simp add: array_view_def)
qed

lemma map_opt_map: "map_opt f xs = Some ys \<Longrightarrow> map_opt (\<lambda>x. map_option g (f x)) xs = Some (map g ys)"
  by (induction xs arbitrary: ys) (auto simp: bind_Some_iff)

lemma map_opt_Some_set: "map_opt f xs = Some ys \<Longrightarrow> y \<in> set ys \<Longrightarrow> \<exists>x\<in>set xs. f x = Some y"
  by (induction xs arbitrary: ys) (auto simp: bind_Some_iff)

lemma get_str_no_nul: "get_str c a = Some s \<Longrightarrow> NUL \<notin> set s"
  by (auto simp: get_str_def bind_Some_iff cstr_at_def split: if_splits dest: set_takeWhileD)

lemma get_str_Bytes: "c a = Some (Bytes (s @ [NUL])) \<Longrightarrow> NUL \<notin> set s \<Longrightarrow> get_str c a = Some s"
  using cstr_at_caml_bytes [of s] by (simp add: get_str_def get_bytes_def caml_bytes_def cstring_id)

lemma strings_at_view:
  assumes "array_at c p S (map (\<lambda>s. s @ [NUL]) ss)" and "\<forall>s\<in>set ss. NUL \<notin> set s"
  shows "array_view (str_elem c) c (Some p) = Some (Some ss)"
proof -
  have "str_elem c (Some q) = Some (butlast bs)" if "c q = Some (Bytes bs)" "bs \<in> set (map (\<lambda>s. s @ [NUL]) ss)" for q bs
    using that assms(2) get_str_Bytes [of c q] by (auto simp: str_elem_def)
  from array_at_view [OF assms(1), where f = "str_elem c" and g = butlast, OF this] show ?thesis by (simp add: comp_def)
qed

lemma addrs_at_view:
  assumes "array_at c p S bss" and "\<forall>bs\<in>set bss. length bs = nat (take_bit 64 n)"
  shows "array_view (addr_elem n c) c (Some p) = Some (Some bss)"
proof -
  have "addr_elem n c (Some q) = Some bs" if "c q = Some (Bytes bs)" "bs \<in> set bss" for q bs
    using assms(2) that by (simp add: addr_elem_def get_bytes_def)
  from array_at_view [OF assms(1), where f = "addr_elem n c" and g = "\<lambda>x. x", OF this] show ?thesis by simp
qed

lemma strings_copied:
  assumes "alloc_fresh L" and "array_view (str_elem (cells m)) (cells m) (Some a) = Some (Some ss)"
  shows "allocates L m (c_copy_string_array L (Some a) m) (\<lambda>p S c. array_at c p S (map (\<lambda>s. s @ [NUL]) ss) \<and> (\<forall>s\<in>set ss. NUL \<notin> set s))"
proof -
  have v: "array_view (str_bytes (cells m)) (cells m) (Some a) = Some (Some (map (\<lambda>s. s @ [NUL]) ss))"
    using assms(2) map_opt_map [of "str_elem (cells m)" _ ss "\<lambda>s. s @ [NUL]", folded str_bytes_def] by (auto simp: array_view_def bind_Some_iff)
  have n: "NUL \<notin> set s" if "s \<in> set ss" for s
    using assms(2) that get_str_no_nul by (auto simp: array_view_def bind_Some_iff str_elem_def dest!: map_opt_Some_set)
  show ?thesis unfolding c_copy_string_array_def
    by (rule allocates_mono [OF strings.copy_array_allocates [OF assms(1) v]]) (use n in blast)
qed

lemma addrs_copied:
  assumes "alloc_fresh L" and "array_view (addr_elem n (cells m)) (cells m) (Some a) = Some (Some bss)"
  shows "allocates L m (c_copy_addr_array L (Some a) n m) (\<lambda>p S c. array_at c p S bss \<and> (\<forall>bs\<in>set bss. length bs = nat (take_bit 64 n)))"
proof -
  have l: "length bs = nat (take_bit 64 n)" if "bs \<in> set bss" for bs
    using assms(2) that by (auto simp: array_view_def bind_Some_iff addr_elem_def read_at_def split: if_splits dest!: map_opt_Some_set)
  show ?thesis unfolding c_copy_addr_array_def
    by (rule allocates_mono [OF addrs.copy_array_allocates [OF assms]]) (use l in blast)
qed

lemma name_copied:
  assumes "alloc_fresh L" and "str_view (cells m) q = Some s"
  shows "allocates L m (s_strdup L q m) (\<lambda>a S c. S = {a} \<and> c a = Some (Bytes (s @ [NUL])) \<and> NUL \<notin> set s)"
proof (cases q)
  case None
  then show ?thesis using assms malloc_allocates [OF assms(1)] by (simp add: str_view_def s_strdup_def)
next
  case (Some a)
  then have s: "get_str (cells m) a = Some s" using assms(2) by (simp add: str_view_def)
  then show ?thesis using Some malloc_allocates [OF assms(1), of m "Bytes (s @ [NUL])"] get_str_no_nul [OF s] by (simp add: s_strdup_def strdup_def)
qed


section \<open>Copying entries\<close>

text \<open>
  \<open>array_copy f c q S v\<close>: the cells \<open>S\<close> are a complete copy of an array with the elements \<open>v\<close>, or nothing if the array is a null pointer. The
  definition speaks of all memories that agree on \<open>S\<close>, so the fact survives whatever happens elsewhere.
\<close>

definition array_copy :: "(cells \<Rightarrow> nat option \<Rightarrow> char list option) \<Rightarrow> 'w itself \<Rightarrow> cells \<Rightarrow> nat option \<Rightarrow> nat set \<Rightarrow> char list list option \<Rightarrow> bool" where
  "array_copy f t c q S v \<longleftrightarrow> (\<forall>c'. (\<forall>x\<in>S. c' x = c x) \<longrightarrow>
     owns (c_free_string_array q :: 'w netos \<Rightarrow> 'w netos option) S c' \<and> array_view (f c') c' q = Some v)"

lemma array_copy_cong: "array_copy f t c q S v \<Longrightarrow> (\<And>x. x \<in> S \<Longrightarrow> c' x = c x) \<Longrightarrow> array_copy f t c' q S v"
  by (simp add: array_copy_def)

lemma array_copyD:
  assumes "array_copy f (t :: 'w itself) c q S v"
  shows "owns (c_free_string_array q :: 'w netos \<Rightarrow> 'w netos option) S c" "array_view (f c) c q = Some v"
  using assms by (simp_all add: array_copy_def)

lemma array_copy_None: "array_copy f t c None {} None"
  by (auto simp: array_copy_def owns_def c_free_string_array_def array_view_def intro!: netos_eqI)

text \<open>The outcome of copying an array that may be a null pointer.\<close>

definition copies_array :: "(cells \<Rightarrow> nat option \<Rightarrow> char list option) \<Rightarrow> libc \<Rightarrow> nat option \<Rightarrow> 'w netos \<Rightarrow> (nat option \<times> 'w netos) option \<Rightarrow> char list list option \<Rightarrow> bool" where
  "copies_array f L q m res v \<longleftrightarrow>
     (\<exists>m'. q \<noteq> None \<and> res = Some (None, m') \<and> cells m' = cells m \<and> world m' = world m \<and> \<not> reliable L) \<or>
     (\<exists>r S m'. res = Some (r, m') \<and> (r = None \<longleftrightarrow> q = None) \<and> frame m S m' \<and> array_copy f TYPE('w) (cells m') r S v)"

lemma copies_arrayE:
  assumes "copies_array f L q (m :: 'w netos) res v"
  obtains (fails) m' where "q \<noteq> None" "res = Some (None, m')" "cells m' = cells m" "world m' = world m" "\<not> reliable L"
  | (succeeds) r S m' where "res = Some (r, m')" "r = None \<longleftrightarrow> q = None" "frame m S m'" "array_copy f TYPE('w) (cells m') r S v"
  using assms unfolding copies_array_def by blast

lemma allocates_copies:
  fixes m :: "'w netos"
  assumes "allocates L m res (\<lambda>p S c. array_copy f TYPE('w) c (Some p) S v)"
  shows "copies_array f L (Some a) m res v"
  using assms unfolding allocates_def copies_array_def by auto

lemma copy_null:
  fixes m :: "'w netos"
  assumes "array_view (f (cells m)) (cells m) None = Some v" shows "copies_array f L None m (Some (None, m)) v"
proof -
  have "v = None" "frame m {} m" using assms by (simp_all add: array_view_def frame_def)
  then show ?thesis using array_copy_None [of f "TYPE('w)" "cells m"] unfolding copies_array_def by blast
qed

lemma copies_strings:
  fixes m :: "'w netos"
  assumes "alloc_fresh L" and "array_view (str_elem (cells m)) (cells m) q = Some v"
  shows "copies_array str_elem L q m (c_copy_string_array L q m) v"
proof (cases q)
  case None
  then show ?thesis using copy_null assms(2) by (simp add: c_copy_string_array_def copy_array_def)
next
  case (Some a)
  then obtain ss where ss: "v = Some ss" using assms(2) by (auto simp: array_view_def bind_Some_iff)
  have "array_copy str_elem TYPE('w) c (Some p) S v" if "array_at c p S (map (\<lambda>s. s @ [NUL]) ss)" "\<forall>s\<in>set ss. NUL \<notin> set s" for c p S
    unfolding array_copy_def ss using array_at_cong [OF that(1)] that(2) by (auto intro!: owns_array strings_at_view)
  then show ?thesis unfolding Some
    by (intro allocates_copies allocates_mono [OF strings_copied [OF assms(1), of m a ss]]) (use assms(2) Some ss in auto)
qed

lemma copies_addrs:
  fixes m :: "'w netos"
  assumes "alloc_fresh L" and "array_view (addr_elem n (cells m)) (cells m) q = Some v"
  shows "copies_array (addr_elem n) L q m (c_copy_addr_array L q n m) v"
proof (cases q)
  case None
  then show ?thesis using copy_null [of "addr_elem n"] assms(2) by (simp add: c_copy_addr_array_def copy_array_def)
next
  case (Some a)
  then obtain bss where bss: "v = Some bss" using assms(2) by (auto simp: array_view_def bind_Some_iff)
  have "array_copy (addr_elem n) TYPE('w) c (Some p) S v" if "array_at c p S bss" "\<forall>bs\<in>set bss. length bs = nat (take_bit 64 n)" for c p S
    unfolding array_copy_def bss using array_at_cong [OF that(1)] that(2) by (auto intro!: owns_array addrs_at_view)
  then show ?thesis unfolding Some
    by (intro allocates_copies allocates_mono [OF addrs_copied [OF assms(1), of n m a bss]]) (use assms(2) Some bss in auto)
qed


text \<open>Growing memory: what was there can still be read, and several new parts are disjoint.\<close>

lemma frame_le: "frame m S m' \<Longrightarrow> cells m \<subseteq>\<^sub>m cells m'"
  unfolding frame_def map_le_def by (metis domIff)

lemma frame_trans: "frame m S m' \<Longrightarrow> frame m' T m'' \<Longrightarrow> frame m (S \<union> T) m''"
  unfolding frame_def by (metis UnE UnI1 UnI2)

lemma frame_disjoint: "frame m S m' \<Longrightarrow> frame m' T m'' \<Longrightarrow> S \<inter> T = {}"
  unfolding frame_def by blast

lemma frame_store: "frame m S m' \<Longrightarrow> a \<in> S \<Longrightarrow> frame m S (m'\<lparr>cells := (cells m')(a \<mapsto> d)\<rparr>)"
  unfolding frame_def by auto

lemma frame_same: "frame m S m' \<Longrightarrow> cells m'' = cells m' \<Longrightarrow> world m'' = world m' \<Longrightarrow> frame m S m''"
  by (simp add: frame_def)

lemma frame_restore: "frame m S m' \<Longrightarrow> cells m' |` (- S) = cells m"
  by (auto simp: frame_def restrict_map_def fun_eq_iff)

text \<open>Giving up: when everything allocated so far is freed, the outcome is a failure that leaves no trace.\<close>

lemma give_up:
  assumes "frame m S m'" and "owns cleanup S (cells m')" and "\<not> reliable L"
  shows "allocates L m (Option.bind (cleanup m') (\<lambda>m. Some (None, m))) P"
  using owns_free [OF assms(2)] frame_restore [OF assms(1)] assms(1,3) by (auto simp: frame_def intro!: allocates_None)

lemma map_opt_mono: "map_opt f xs = Some ys \<Longrightarrow> (\<And>x y. f x = Some y \<Longrightarrow> g x = Some y) \<Longrightarrow> map_opt g xs = Some ys"
  by (induction xs arbitrary: ys) (auto simp: bind_Some_iff)

lemma ptr_array_mono: "ptr_array c a = Some qs \<Longrightarrow> c \<subseteq>\<^sub>m c' \<Longrightarrow> ptr_array c' a = Some qs"
proof -
  assume a: "ptr_array c a = Some qs" and le: "c \<subseteq>\<^sub>m c'"
  then obtain ps where "c a = Some (Ptrs ps)" by (auto simp: ptr_array_def get_ptrs_def bind_Some_iff split: option.splits cell.splits)
  with map_le_get [OF le] a show ?thesis by (simp add: ptr_array_def get_ptrs_def)
qed

lemma str_view_mono: "str_view c q = Some s \<Longrightarrow> c \<subseteq>\<^sub>m c' \<Longrightarrow> str_view c' q = Some s"
  by (cases q) (simp_all add: str_view_def, rule get_str_mono)

lemma array_view_mono:
  assumes "array_view (f c) c q = Some v" and "c \<subseteq>\<^sub>m c'" and "\<And>q bs. f c q = Some bs \<Longrightarrow> f c' q = Some bs"
  shows "array_view (f c') c' q = Some v"
proof (cases q)
  case (Some a)
  then obtain qs vs where "ptr_array c a = Some qs" "map_opt (f c) qs = Some vs" "v = Some vs" using assms(1) by (auto simp: array_view_def bind_Some_iff)
  with ptr_array_mono [OF _ assms(2)] map_opt_mono [of "f c" qs vs "f c'", OF _ assms(3)] Some show ?thesis by (simp add: array_view_def)
qed (use assms(1) in \<open>simp add: array_view_def\<close>)

lemma str_elem_mono: "str_elem c q = Some bs \<Longrightarrow> c \<subseteq>\<^sub>m c' \<Longrightarrow> str_elem c' q = Some bs"
  by (cases q) (simp_all add: str_elem_def, rule get_str_mono)

lemma strs_view_mono: "array_view (str_elem c) c q = Some v \<Longrightarrow> c \<subseteq>\<^sub>m c' \<Longrightarrow> array_view (str_elem c') c' q = Some v"
  using array_view_mono [of str_elem] str_elem_mono by blast

lemma addrs_view_mono: "array_view (addr_elem n c) c q = Some v \<Longrightarrow> c \<subseteq>\<^sub>m c' \<Longrightarrow> array_view (addr_elem n c') c' q = Some v"
  using array_view_mono [of "addr_elem n"] addrs.elem_mono by blast

text \<open>A copied name.\<close>

lemma str_view_copy: "c a = Some (Bytes (s @ [NUL])) \<Longrightarrow> NUL \<notin> set s \<Longrightarrow> str_view c (Some a) = Some s"
  by (simp add: str_view_def get_str_Bytes)


lemma free_cell_restrict: "cells m a \<noteq> None \<Longrightarrow> free_cell a m = Some (m\<lparr>cells := cells m |` (- {a})\<rparr>)"
  using owns_free [OF owns_cell] .

lemma restrict_eq: "S = T \<Longrightarrow> m\<lparr>cells := c |` S\<rparr> = m\<lparr>cells := c |` T\<rparr>"
  by simp

lemma copy_null_strings: "(if q = None then Some (None, m) else c_copy_string_array L q m) = c_copy_string_array L q m"
  by (simp add: c_copy_string_array_def copy_array_def)

lemma copy_null_addrs: "(if q = None then Some (None, m) else c_copy_addr_array L q n m) = c_copy_addr_array L q n m"
  by (simp add: c_copy_addr_array_def copy_array_def)

subsection \<open>Hosts\<close>

text \<open>A copy in progress: the structure at \<open>h\<close> with a name at \<open>n\<close>, and perhaps a list of aliases in the cells \<open>A\<close>.\<close>

definition host_part :: "nat \<Rightarrow> nat \<Rightarrow> char list \<Rightarrow> hostent \<Rightarrow> 'w netos \<Rightarrow> bool" where
  "host_part h n name e m \<longleftrightarrow> h \<noteq> n \<and> cells m h = Some (Hostent e) \<and> h_name e = Some n \<and> cells m n = Some (Bytes (name @ [NUL])) \<and> NUL \<notin> set name"

definition host_copy :: "'w itself \<Rightarrow> host_data \<Rightarrow> nat \<Rightarrow> nat set \<Rightarrow> cells \<Rightarrow> bool" where
  "host_copy t v h S c \<longleftrightarrow> owns (hostent_free (Some h) :: 'w netos \<Rightarrow> 'w netos option) S c \<and>
     (\<exists>e. c h = Some (Hostent e) \<and> host_view c e = Some v \<and> h_name e \<noteq> None)"

lemma hostent_nomem2_restores:
  assumes "host_part h n name e m'" and "frame m {h, n} m'" and "\<not> reliable L"
  shows "allocates L m (hostent_nomem2 h m') P"
proof -
  have "hostent_nomem2 h m' = Some (None, m'\<lparr>cells := cells m' |` (- {h, n})\<rparr>)"
    using assms(1) by (simp add: host_part_def hostent_nomem2_def hostent_nomem1_def get_hostent_def free_cell_restrict) (auto intro!: restrict_eq)
  then show ?thesis using frame_restore [OF assms(2)] assms(2,3) by (auto simp: frame_def intro!: allocates_None)
qed

lemma hostent_nomem3_restores:
  fixes m :: "'w netos"
  assumes "host_part h n name e m'" and "array_copy f TYPE('w) (cells m') (h_aliases e) A v" and "{h, n} \<inter> A = {}"
    and "frame m ({h, n} \<union> A) m'" and "\<not> reliable L"
  shows "allocates L m (hostent_nomem3 h m') P"
proof -
  have "hostent_nomem3 h m' = Some (None, m'\<lparr>cells := cells m' |` (- ({h, n} \<union> A))\<rparr>)"
    using assms(1,3) owns_free [OF array_copyD(1) [OF assms(2)]]
    by (simp add: host_part_def hostent_nomem3_def hostent_nomem2_def hostent_nomem1_def get_hostent_def free_cell_restrict) (auto intro!: restrict_eq)
  then show ?thesis using frame_restore [OF assms(4)] assms(4,5) by (auto simp: frame_def intro!: allocates_None)
qed

lemma hostent_owned:
  assumes "host_part h n name e m'" and "array_copy f TYPE('w) (cells m') (h_aliases e) A v" and "array_copy g TYPE('w) (cells m') (h_addr_list e) B w"
    and "{h, n} \<inter> A = {}" and "({h, n} \<union> A) \<inter> B = {}"
  shows "owns (hostent_free (Some h) :: 'w netos \<Rightarrow> 'w netos option) ({h, n} \<union> A \<union> B) (cells m')"
  unfolding owns_def
proof (intro allI impI)
  fix m :: "'w netos" assume m: "\<forall>x\<in>{h, n} \<union> A \<union> B. cells m x = cells m' x"
  have p: "host_part h n name e m" using assms(1) m by (simp add: host_part_def)
  have B: "owns (c_free_string_array (h_addr_list e) :: 'w netos \<Rightarrow> 'w netos option) B (cells m)"
    by (rule array_copyD(1), rule array_copy_cong [OF assms(3)]) (use m in auto)
  let ?m = "m\<lparr>cells := cells m |` (- B)\<rparr>"
  have A: "owns (c_free_string_array (h_aliases e) :: 'w netos \<Rightarrow> 'w netos option) A (cells ?m)"
    by (rule array_copyD(1), rule array_copy_cong [OF assms(2)]) (use m assms(5) in \<open>auto simp: restrict_map_def\<close>)
  show "hostent_free (Some h) m = Some (m\<lparr>cells := cells m |` (- ({h, n} \<union> A \<union> B))\<rparr>)"
    using p owns_free [OF B] owns_free [OF A] assms(4,5)
    by (simp add: hostent_free_def host_part_def get_hostent_def free_cell_restrict) (auto intro!: restrict_eq)
qed

lemma hostent_dup_addrs_copies:
  fixes m :: "'w netos"
  assumes fresh: "alloc_fresh L" and p: "host_part h n name e m'" and a: "array_copy str_elem TYPE('w) (cells m') (h_aliases e) A aliases" "{h, n} \<inter> A = {}"
    and f: "frame m ({h, n} \<union> A) m'"
    and v: "array_view (addr_elem (h_length orig) (cells m')) (cells m') (h_addr_list orig) = Some addrs"
  shows "allocates L m (hostent_dup_addrs L orig h m') (host_copy TYPE('w) (name, aliases, h_addrtype orig, h_length orig, addrs))"
  using copies_addrs [OF fresh v]
proof (cases rule: copies_arrayE)
  case (fails m2)
  let ?e = "e\<lparr>h_addr_list := None\<rparr>" let ?m = "m2\<lparr>cells := (cells m2)(h \<mapsto> Hostent ?e)\<rparr>"
  have "hostent_dup_addrs L orig h m' = hostent_nomem3 h ?m"
    using p fails by (simp add: hostent_dup_addrs_def copy_null_addrs host_part_def set_hostent_def get_hostent_def)
  moreover have p2: "host_part h n name ?e ?m" using p fails(3) by (simp add: host_part_def)
  have A: "array_copy str_elem TYPE('w) (cells ?m) (h_aliases ?e) A aliases"
    by (rule array_copy_cong [of _ _ "cells m'"]) (use a fails(3) in auto)
  have "frame m ({h, n} \<union> A) ?m" using frame_store [OF frame_same [OF f fails(3,4)]] by simp
  from hostent_nomem3_restores [OF p2 A a(2) this fails(5)] have "allocates L m (hostent_nomem3 h ?m) P" for P .
  ultimately show ?thesis by simp
next
  case (succeeds r B m2)
  let ?e = "e\<lparr>h_addr_list := r, h_addrtype := h_addrtype orig, h_length := h_length orig\<rparr>" let ?m = "m2\<lparr>cells := (cells m2)(h \<mapsto> Hostent ?e)\<rparr>"
  have d: "({h, n} \<union> A) \<inter> B = {}" and f2: "frame m ({h, n} \<union> A \<union> B) m2" using frame_disjoint [OF f succeeds(3)] frame_trans [OF f succeeds(3)] by simp_all
  have c: "cells m2 x = cells m' x" if "x \<notin> B" for x using succeeds(3) that by (simp add: frame_def)
  have p2: "host_part h n name ?e ?m" using p d c by (auto simp: host_part_def)
  have A: "array_copy str_elem TYPE('w) (cells ?m) (h_aliases ?e) A aliases"
    by (rule array_copy_cong [of _ _ "cells m'"]) (use a d c in auto)
  have B: "array_copy (addr_elem (h_length orig)) TYPE('w) (cells ?m) r B addrs"
    by (rule array_copy_cong [OF succeeds(4)]) (use d in auto)
  have eq: "hostent_dup_addrs L orig h m' = Some (Some h, ?m)"
    using p c d succeeds(1,2) by (auto simp: hostent_dup_addrs_def copy_null_addrs host_part_def set_hostent_def get_hostent_def)
  have "owns (hostent_free (Some h) :: 'w netos \<Rightarrow> 'w netos option) ({h, n} \<union> A \<union> B) (cells ?m)"
    by (rule hostent_owned [OF p2 A _ a(2) d]) (use B in simp)
  moreover have "host_view (cells ?m) ?e = Some (name, aliases, h_addrtype orig, h_length orig, addrs)"
    using p2 array_copyD(2) [OF A] array_copyD(2) [OF B] str_view_copy [of "cells ?m" n name] by (auto simp: host_view_def host_part_def)
  moreover have "frame m ({h, n} \<union> A \<union> B) ?m" using frame_store [OF f2] by simp
  ultimately show ?thesis unfolding eq host_copy_def using p2 by (intro allocates_Some) (auto simp: host_part_def)
qed


lemma hostent_dup_aliases_copies:
  fixes m :: "'w netos"
  assumes fresh: "alloc_fresh L" and p: "host_part h n name e m'" and f: "frame m {h, n} m'"
    and v: "array_view (str_elem (cells m')) (cells m') (h_aliases orig) = Some aliases"
    and w: "array_view (addr_elem (h_length orig) (cells m)) (cells m) (h_addr_list orig) = Some addrs"
  shows "allocates L m (hostent_dup_aliases L orig h m') (host_copy TYPE('w) (name, aliases, h_addrtype orig, h_length orig, addrs))"
  using copies_strings [OF fresh v]
proof (cases rule: copies_arrayE)
  case (fails m2)
  let ?e = "e\<lparr>h_aliases := None\<rparr>" let ?m = "m2\<lparr>cells := (cells m2)(h \<mapsto> Hostent ?e)\<rparr>"
  have "hostent_dup_aliases L orig h m' = hostent_nomem2 h ?m"
    using p fails by (simp add: hostent_dup_aliases_def copy_null_strings host_part_def set_hostent_def get_hostent_def)
  moreover have "host_part h n name ?e ?m" using p fails(3) by (simp add: host_part_def)
  moreover have "frame m {h, n} ?m" using frame_store [OF frame_same [OF f fails(3,4)]] by simp
  ultimately show ?thesis using hostent_nomem2_restores fails(5) by simp
next
  case (succeeds r A m2)
  let ?e = "e\<lparr>h_aliases := r\<rparr>" let ?m = "m2\<lparr>cells := (cells m2)(h \<mapsto> Hostent ?e)\<rparr>"
  have d: "{h, n} \<inter> A = {}" and f2: "frame m ({h, n} \<union> A) m2" using frame_disjoint [OF f succeeds(3)] frame_trans [OF f succeeds(3)] by simp_all
  have c: "cells m2 x = cells m' x" if "x \<notin> A" for x using succeeds(3) that by (simp add: frame_def)
  have f3: "frame m ({h, n} \<union> A) ?m" using frame_store [OF f2] by simp
  have "hostent_dup_aliases L orig h m' = hostent_dup_addrs L orig h ?m"
    using p c d succeeds(1,2) by (auto simp: hostent_dup_aliases_def copy_null_strings host_part_def set_hostent_def get_hostent_def)
  moreover have "host_part h n name ?e ?m" using p d c by (auto simp: host_part_def)
  moreover have "array_copy str_elem TYPE('w) (cells ?m) (h_aliases ?e) A aliases"
    by (rule array_copy_cong [of _ _ "cells m2"]) (use succeeds(4) d in auto)
  ultimately show ?thesis using hostent_dup_addrs_copies [OF fresh _ _ d f3 addrs_view_mono [OF w frame_le [OF f3]]] by simp
qed

lemma hostent_dup_copies:
  fixes m :: "'w netos"
  assumes fresh: "alloc_fresh L" and orig: "cells m o' = Some (Hostent orig)" and view: "host_view (cells m) orig = Some v"
  shows "allocates L m (hostent_dup L (Some o') m) (host_copy TYPE('w) v)"
proof -
  obtain name aliases addrs where v: "v = (name, aliases, h_addrtype orig, h_length orig, addrs)" "str_view (cells m) (h_name orig) = Some name"
    "array_view (str_elem (cells m)) (cells m) (h_aliases orig) = Some aliases"
    "array_view (addr_elem (h_length orig) (cells m)) (cells m) (h_addr_list orig) = Some addrs"
    using view by (auto simp: host_view_def bind_Some_iff)
  from malloc_allocates [OF fresh, of m "Hostent (l_hostent L)"] show ?thesis
  proof (cases rule: allocatesE)
    case (fails m')
    then show ?thesis by (simp add: hostent_dup_def allocates_None)
  next
    case h: (succeeds h S m1)
    have f: "frame m {h} m1" and m1: "cells m1 h = Some (Hostent (l_hostent L))" using h(2,3) by simp_all
    have o1: "get_hostent (cells m1) o' = Some orig" using map_le_get [OF frame_le [OF f] orig] by (simp add: get_hostent_def)
    from name_copied [OF fresh str_view_mono [OF v(2) frame_le [OF f]]] show ?thesis
    proof (cases rule: allocatesE)
      case (fails m2)
      let ?m = "m2\<lparr>cells := (cells m2)(h \<mapsto> Hostent ((l_hostent L)\<lparr>h_name := None\<rparr>))\<rparr>"
      have "hostent_dup L (Some o') m = Option.bind (free_cell h ?m) (\<lambda>m. Some (None, m))"
        using h(1) o1 m1 fails by (simp add: hostent_dup_def set_hostent_def get_hostent_def hostent_nomem1_def)
      then show ?thesis using give_up [OF frame_store [OF frame_same [OF f fails(2,3)]] owns_cell fails(4)] by simp
    next
      case n: (succeeds n S2 m2)
      let ?e = "(l_hostent L)\<lparr>h_name := Some n\<rparr>" let ?m = "m2\<lparr>cells := (cells m2)(h \<mapsto> Hostent ?e)\<rparr>"
      have f2: "frame m1 {n} m2" and d: "h \<noteq> n" using n(2,3) m1 by (auto simp: frame_def)
      then have c: "cells m2 h = cells m1 h" by (simp add: frame_def)
      have f3: "frame m {h, n} ?m" using frame_store [OF frame_trans [OF f f2]] by (simp add: insert_commute)
      have "hostent_dup L (Some o') m = hostent_dup_aliases L orig h ?m"
        using h(1) o1 m1 n(1) c by (simp add: hostent_dup_def set_hostent_def get_hostent_def)
      moreover have "host_part h n name ?e ?m" using n(3) d by (simp add: host_part_def)
      ultimately show ?thesis
        using hostent_dup_aliases_copies [OF fresh _ f3 strs_view_mono [OF v(3) frame_le [OF f3]] v(4)] v(1) by simp
    qed
  qed
qed


subsection \<open>Protocols\<close>

definition proto_part :: "nat \<Rightarrow> nat \<Rightarrow> char list \<Rightarrow> protoent \<Rightarrow> 'w netos \<Rightarrow> bool" where
  "proto_part p n name e m \<longleftrightarrow> p \<noteq> n \<and> cells m p = Some (Protoent e) \<and> p_name e = Some n \<and> cells m n = Some (Bytes (name @ [NUL])) \<and> NUL \<notin> set name"

definition proto_copy :: "'w itself \<Rightarrow> proto_data \<Rightarrow> nat \<Rightarrow> nat set \<Rightarrow> cells \<Rightarrow> bool" where
  "proto_copy t v p S c \<longleftrightarrow> owns (protoent_free (Some p) :: 'w netos \<Rightarrow> 'w netos option) S c \<and>
     (\<exists>e. c p = Some (Protoent e) \<and> proto_view c e = Some v \<and> p_name e \<noteq> None)"

lemma protoent_nomem2_restores:
  assumes "proto_part p n name e m'" and "frame m {p, n} m'" and "\<not> reliable L"
  shows "allocates L m (protoent_nomem2 p m') P"
proof -
  have "protoent_nomem2 p m' = Some (None, m'\<lparr>cells := cells m' |` (- {p, n})\<rparr>)"
    using assms(1) by (simp add: proto_part_def protoent_nomem2_def protoent_nomem1_def get_protoent_def free_cell_restrict) (auto intro!: restrict_eq)
  then show ?thesis using frame_restore [OF assms(2)] assms(2,3) by (auto simp: frame_def intro!: allocates_None)
qed

lemma protoent_owned:
  assumes "proto_part p n name e m'" and "array_copy f TYPE('w) (cells m') (p_aliases e) A v" and "{p, n} \<inter> A = {}"
  shows "owns (protoent_free (Some p) :: 'w netos \<Rightarrow> 'w netos option) ({p, n} \<union> A) (cells m')"
  unfolding owns_def
proof (intro allI impI)
  fix m :: "'w netos" assume m: "\<forall>x\<in>{p, n} \<union> A. cells m x = cells m' x"
  have q: "proto_part p n name e m" using assms(1) m by (simp add: proto_part_def)
  let ?m = "m\<lparr>cells := cells m |` (- {n})\<rparr>"
  have A: "owns (c_free_string_array (p_aliases e) :: 'w netos \<Rightarrow> 'w netos option) A (cells ?m)"
    by (rule array_copyD(1), rule array_copy_cong [OF assms(2)]) (use m assms(3) in \<open>auto simp: restrict_map_def\<close>)
  show "protoent_free (Some p) m = Some (m\<lparr>cells := cells m |` (- ({p, n} \<union> A))\<rparr>)"
    using q owns_free [OF A] assms(3)
    by (simp add: protoent_free_def proto_part_def get_protoent_def free_cell_restrict) (auto intro!: restrict_eq)
qed

lemma protoent_dup_aliases_copies:
  fixes m :: "'w netos"
  assumes fresh: "alloc_fresh L" and p: "proto_part h n name e m'" and f: "frame m {h, n} m'"
    and v: "array_view (str_elem (cells m')) (cells m') (p_aliases orig) = Some aliases"
  shows "allocates L m (protoent_dup_aliases L orig h m') (proto_copy TYPE('w) (name, aliases, p_proto orig))"
  using copies_strings [OF fresh v]
proof (cases rule: copies_arrayE)
  case (fails m2)
  let ?e = "e\<lparr>p_aliases := None\<rparr>" let ?m = "m2\<lparr>cells := (cells m2)(h \<mapsto> Protoent ?e)\<rparr>"
  have "protoent_dup_aliases L orig h m' = protoent_nomem2 h ?m"
    using p fails by (simp add: protoent_dup_aliases_def proto_part_def set_protoent_def get_protoent_def)
  moreover have "proto_part h n name ?e ?m" using p fails(3) by (simp add: proto_part_def)
  moreover have "frame m {h, n} ?m" using frame_store [OF frame_same [OF f fails(3,4)]] by simp
  ultimately show ?thesis using protoent_nomem2_restores fails(5) by simp
next
  case (succeeds r A m2)
  let ?e = "e\<lparr>p_aliases := r, p_proto := p_proto orig\<rparr>" let ?m = "m2\<lparr>cells := (cells m2)(h \<mapsto> Protoent ?e)\<rparr>"
  have d: "{h, n} \<inter> A = {}" and f2: "frame m ({h, n} \<union> A) m2" using frame_disjoint [OF f succeeds(3)] frame_trans [OF f succeeds(3)] by simp_all
  have c: "cells m2 x = cells m' x" if "x \<notin> A" for x using succeeds(3) that by (simp add: frame_def)
  have eq: "protoent_dup_aliases L orig h m' = Some (Some h, ?m)"
    using p c d succeeds(1,2) by (auto simp: protoent_dup_aliases_def proto_part_def set_protoent_def get_protoent_def)
  have p2: "proto_part h n name ?e ?m" using p d c by (auto simp: proto_part_def)
  have A: "array_copy str_elem TYPE('w) (cells ?m) (p_aliases ?e) A aliases"
    by (rule array_copy_cong [of _ _ "cells m2"]) (use succeeds(4) d in auto)
  have "proto_view (cells ?m) ?e = Some (name, aliases, p_proto orig)"
    using p2 array_copyD(2) [OF A] str_view_copy [of "cells ?m" n name] by (auto simp: proto_view_def proto_part_def)
  moreover have "frame m ({h, n} \<union> A) ?m" using frame_store [OF f2] by simp
  ultimately show ?thesis unfolding eq proto_copy_def using p2 protoent_owned [OF p2 A d] by (intro allocates_Some) (auto simp: proto_part_def)
qed

lemma protoent_dup_copies:
  fixes m :: "'w netos"
  assumes fresh: "alloc_fresh L" and orig: "cells m o' = Some (Protoent orig)" and view: "proto_view (cells m) orig = Some v"
  shows "allocates L m (protoent_dup L (Some o') m) (proto_copy TYPE('w) v)"
proof -
  obtain name aliases where v: "v = (name, aliases, p_proto orig)" "str_view (cells m) (p_name orig) = Some name"
    "array_view (str_elem (cells m)) (cells m) (p_aliases orig) = Some aliases"
    using view by (auto simp: proto_view_def bind_Some_iff)
  from malloc_allocates [OF fresh, of m "Protoent (l_protoent L)"] show ?thesis
  proof (cases rule: allocatesE)
    case (fails m')
    then show ?thesis by (simp add: protoent_dup_def allocates_None)
  next
    case h: (succeeds h S m1)
    have f: "frame m {h} m1" and m1: "cells m1 h = Some (Protoent (l_protoent L))" using h(2,3) by simp_all
    have o1: "get_protoent (cells m1) o' = Some orig" using map_le_get [OF frame_le [OF f] orig] by (simp add: get_protoent_def)
    from name_copied [OF fresh str_view_mono [OF v(2) frame_le [OF f]]] show ?thesis
    proof (cases rule: allocatesE)
      case (fails m2)
      let ?m = "m2\<lparr>cells := (cells m2)(h \<mapsto> Protoent ((l_protoent L)\<lparr>p_name := None\<rparr>))\<rparr>"
      have "protoent_dup L (Some o') m = Option.bind (free_cell h ?m) (\<lambda>m. Some (None, m))"
        using h(1) o1 m1 fails by (simp add: protoent_dup_def set_protoent_def get_protoent_def protoent_nomem1_def)
      then show ?thesis using give_up [OF frame_store [OF frame_same [OF f fails(2,3)]] owns_cell fails(4)] by simp
    next
      case n: (succeeds n S2 m2)
      let ?e = "(l_protoent L)\<lparr>p_name := Some n\<rparr>" let ?m = "m2\<lparr>cells := (cells m2)(h \<mapsto> Protoent ?e)\<rparr>"
      have f2: "frame m1 {n} m2" and d: "h \<noteq> n" using n(2,3) m1 by (auto simp: frame_def)
      then have c: "cells m2 h = cells m1 h" by (simp add: frame_def)
      have f3: "frame m {h, n} ?m" using frame_store [OF frame_trans [OF f f2]] by (simp add: insert_commute)
      have "protoent_dup L (Some o') m = protoent_dup_aliases L orig h ?m"
        using h(1) o1 m1 n(1) c by (simp add: protoent_dup_def set_protoent_def get_protoent_def)
      moreover have "proto_part h n name ?e ?m" using n(3) d by (simp add: proto_part_def)
      ultimately show ?thesis
        using protoent_dup_aliases_copies [OF fresh _ f3 strs_view_mono [OF v(3) frame_le [OF f3]]] v(1) by simp
    qed
  qed
qed


subsection \<open>Services\<close>

definition serv_part :: "nat \<Rightarrow> nat \<Rightarrow> nat \<Rightarrow> char list \<Rightarrow> char list \<Rightarrow> servent \<Rightarrow> 'w netos \<Rightarrow> bool" where
  "serv_part h n q name proto e m \<longleftrightarrow> distinct [h, n, q] \<and> cells m h = Some (Servent e) \<and> s_name e = Some n \<and> s_proto e = Some q \<and>
     cells m n = Some (Bytes (name @ [NUL])) \<and> NUL \<notin> set name \<and> cells m q = Some (Bytes (proto @ [NUL])) \<and> NUL \<notin> set proto"

definition serv_copy :: "'w itself \<Rightarrow> serv_data \<Rightarrow> nat \<Rightarrow> nat set \<Rightarrow> cells \<Rightarrow> bool" where
  "serv_copy t v h S c \<longleftrightarrow> owns (servent_free (Some h) :: 'w netos \<Rightarrow> 'w netos option) S c \<and>
     (\<exists>e. c h = Some (Servent e) \<and> serv_view c e = Some v \<and> s_name e \<noteq> None \<and> s_proto e \<noteq> None)"

lemma servent_nomem4_restores:
  assumes "serv_part h n q name proto e m'" and "frame m {h, n, q} m'" and "\<not> reliable L"
  shows "allocates L m (servent_nomem4 h m') P"
proof -
  have "servent_nomem4 h m' = Some (None, m'\<lparr>cells := cells m' |` (- {h, n, q})\<rparr>)"
    using assms(1) by (simp add: serv_part_def servent_nomem4_def servent_nomem3_def servent_nomem2_def get_servent_def free_cell_restrict) (auto intro!: restrict_eq)
  then show ?thesis using frame_restore [OF assms(2)] assms(2,3) by (auto simp: frame_def intro!: allocates_None)
qed

lemma servent_owned:
  assumes "serv_part h n q name proto e m'" and "array_copy f TYPE('w) (cells m') (s_aliases e) A v" and "{h, n, q} \<inter> A = {}"
  shows "owns (servent_free (Some h) :: 'w netos \<Rightarrow> 'w netos option) ({h, n, q} \<union> A) (cells m')"
  unfolding owns_def
proof (intro allI impI)
  fix m :: "'w netos" assume m: "\<forall>x\<in>{h, n, q} \<union> A. cells m x = cells m' x"
  have p: "serv_part h n q name proto e m" using assms(1) m by (simp add: serv_part_def)
  let ?m = "m\<lparr>cells := cells m |` (- {q} \<inter> - {n})\<rparr>"
  have A: "owns (c_free_string_array (s_aliases e) :: 'w netos \<Rightarrow> 'w netos option) A (cells ?m)"
    by (rule array_copyD(1), rule array_copy_cong [OF assms(2)]) (use m assms(3) in \<open>auto simp: restrict_map_def\<close>)
  show "servent_free (Some h) m = Some (m\<lparr>cells := cells m |` (- ({h, n, q} \<union> A))\<rparr>)"
    using p owns_free [OF A] assms(3)
    by (simp add: servent_free_def serv_part_def get_servent_def free_cell_restrict) (auto intro!: restrict_eq)
qed

lemma servent_dup_aliases_copies:
  fixes m :: "'w netos"
  assumes fresh: "alloc_fresh L" and p: "serv_part h n q name proto e m'" and f: "frame m {h, n, q} m'"
    and v: "array_view (str_elem (cells m')) (cells m') (s_aliases orig) = Some aliases"
  shows "allocates L m (servent_dup_aliases L orig h m') (serv_copy TYPE('w) (name, aliases, s_port orig, proto))"
  using copies_strings [OF fresh v]
proof (cases rule: copies_arrayE)
  case (fails m2)
  let ?e = "e\<lparr>s_aliases := None\<rparr>" let ?m = "m2\<lparr>cells := (cells m2)(h \<mapsto> Servent ?e)\<rparr>"
  have "servent_dup_aliases L orig h m' = servent_nomem4 h ?m"
    using p fails by (simp add: servent_dup_aliases_def serv_part_def set_servent_def get_servent_def)
  moreover have "serv_part h n q name proto ?e ?m" using p fails(3) by (simp add: serv_part_def)
  moreover have "frame m {h, n, q} ?m" using frame_store [OF frame_same [OF f fails(3,4)]] by simp
  ultimately show ?thesis using servent_nomem4_restores fails(5) by simp
next
  case (succeeds r A m2)
  let ?e = "e\<lparr>s_aliases := r, s_port := s_port orig\<rparr>" let ?m = "m2\<lparr>cells := (cells m2)(h \<mapsto> Servent ?e)\<rparr>"
  have d: "{h, n, q} \<inter> A = {}" and f2: "frame m ({h, n, q} \<union> A) m2" using frame_disjoint [OF f succeeds(3)] frame_trans [OF f succeeds(3)] by simp_all
  have c: "cells m2 x = cells m' x" if "x \<notin> A" for x using succeeds(3) that by (simp add: frame_def)
  have eq: "servent_dup_aliases L orig h m' = Some (Some h, ?m)"
    using p c d succeeds(1,2) by (auto simp: servent_dup_aliases_def serv_part_def set_servent_def get_servent_def)
  have p2: "serv_part h n q name proto ?e ?m" using p d c by (auto simp: serv_part_def)
  have A: "array_copy str_elem TYPE('w) (cells ?m) (s_aliases ?e) A aliases"
    by (rule array_copy_cong [of _ _ "cells m2"]) (use succeeds(4) d in auto)
  have "serv_view (cells ?m) ?e = Some (name, aliases, s_port orig, proto)"
    using p2 array_copyD(2) [OF A] str_view_copy [of "cells ?m" n name] str_view_copy [of "cells ?m" q proto] by (auto simp: serv_view_def serv_part_def)
  moreover have "frame m ({h, n, q} \<union> A) ?m" using frame_store [OF f2] by simp
  ultimately show ?thesis unfolding eq serv_copy_def using p2 servent_owned [OF p2 A d] by (intro allocates_Some) (auto simp: serv_part_def)
qed

lemma servent_dup_proto_copies:
  fixes m :: "'w netos"
  assumes fresh: "alloc_fresh L" and h: "cells m' h = Some (Servent e)" "s_name e = Some n" "h \<noteq> n"
    and n: "cells m' n = Some (Bytes (name @ [NUL]))" "NUL \<notin> set name" and f: "frame m {h, n} m'"
    and v: "str_view (cells m') (s_proto orig) = Some proto" "array_view (str_elem (cells m)) (cells m) (s_aliases orig) = Some aliases"
  shows "allocates L m (servent_dup_proto L orig h m') (serv_copy TYPE('w) (name, aliases, s_port orig, proto))"
  using name_copied [OF fresh v(1)]
proof (cases rule: allocatesE)
  case (fails m2)
  let ?m = "m2\<lparr>cells := (cells m2)(h \<mapsto> Servent (e\<lparr>s_proto := None\<rparr>))\<rparr>"
  have "servent_dup_proto L orig h m' = servent_nomem3 h ?m"
    using h fails by (simp add: servent_dup_proto_def set_servent_def get_servent_def)
  also have "\<dots> = Option.bind (Option.bind (free_ptr (Some n) ?m) (free_cell h)) (\<lambda>m. Some (None, m))"
    using h(2) by (simp add: servent_nomem3_def servent_nomem2_def get_servent_def)
  finally have eq: "servent_dup_proto L orig h m' = \<dots>" .
  have "owns (\<lambda>m :: 'w netos. Option.bind (free_ptr (Some n) m) (free_cell h)) ({n} \<union> {h}) (cells ?m)"
    using h n(1) fails(2) by (intro owns_seq owns_ptr owns_cell) auto
  moreover have "frame m ({n} \<union> {h}) ?m" using frame_store [OF frame_same [OF f fails(2,3)]] by (simp add: insert_commute)
  ultimately show ?thesis unfolding eq using give_up fails(4) by blast
next
  case (succeeds q S m2)
  let ?e = "e\<lparr>s_proto := Some q\<rparr>" let ?m = "m2\<lparr>cells := (cells m2)(h \<mapsto> Servent ?e)\<rparr>"
  have f2: "frame m' {q} m2" and q: "cells m2 q = Some (Bytes (proto @ [NUL]))" "NUL \<notin> set proto" using succeeds(2,3) by auto
  have d: "q \<noteq> h" "q \<noteq> n" using frame_disjoint [OF f f2] by auto
  then have c: "cells m2 h = cells m' h" "cells m2 n = cells m' n" using f2 by (auto simp: frame_def)
  have f3: "frame m {h, n, q} ?m" using frame_store [OF frame_trans [OF f f2]] by (simp add: insert_commute)
  have "servent_dup_proto L orig h m' = servent_dup_aliases L orig h ?m"
    using succeeds(1) h c by (simp add: servent_dup_proto_def set_servent_def get_servent_def)
  moreover have "serv_part h n q name proto ?e ?m" using h n q c d by (auto simp: serv_part_def)
  ultimately show ?thesis using servent_dup_aliases_copies [OF fresh _ f3 strs_view_mono [OF v(2) frame_le [OF f3]]] by simp
qed

lemma servent_dup_copies:
  fixes m :: "'w netos"
  assumes fresh: "alloc_fresh L" and orig: "cells m o' = Some (Servent orig)" and view: "serv_view (cells m) orig = Some v"
  shows "allocates L m (servent_dup L (Some o') m) (serv_copy TYPE('w) v)"
proof -
  obtain name aliases proto where v: "v = (name, aliases, s_port orig, proto)" "str_view (cells m) (s_name orig) = Some name"
    "array_view (str_elem (cells m)) (cells m) (s_aliases orig) = Some aliases" "str_view (cells m) (s_proto orig) = Some proto"
    using view by (auto simp: serv_view_def bind_Some_iff)
  from malloc_allocates [OF fresh, of m "Servent (l_servent L)"] show ?thesis
  proof (cases rule: allocatesE)
    case (fails m')
    then show ?thesis by (simp add: servent_dup_def allocates_None)
  next
    case h: (succeeds h S m1)
    have f: "frame m {h} m1" and m1: "cells m1 h = Some (Servent (l_servent L))" using h(2,3) by simp_all
    have o1: "get_servent (cells m1) o' = Some orig" using map_le_get [OF frame_le [OF f] orig] by (simp add: get_servent_def)
    from name_copied [OF fresh str_view_mono [OF v(2) frame_le [OF f]]] show ?thesis
    proof (cases rule: allocatesE)
      case (fails m2)
      let ?m = "m2\<lparr>cells := (cells m2)(h \<mapsto> Servent ((l_servent L)\<lparr>s_name := None\<rparr>))\<rparr>"
      have "servent_dup L (Some o') m = Option.bind (free_cell h ?m) (\<lambda>m. Some (None, m))"
        using h(1) o1 m1 fails by (simp add: servent_dup_def set_servent_def get_servent_def servent_nomem2_def)
      then show ?thesis using give_up [OF frame_store [OF frame_same [OF f fails(2,3)]] owns_cell fails(4)] by simp
    next
      case n: (succeeds n S2 m2)
      let ?e = "(l_servent L)\<lparr>s_name := Some n\<rparr>" let ?m = "m2\<lparr>cells := (cells m2)(h \<mapsto> Servent ?e)\<rparr>"
      have f2: "frame m1 {n} m2" and d: "h \<noteq> n" using n(2,3) m1 by (auto simp: frame_def)
      then have c: "cells m2 h = cells m1 h" by (simp add: frame_def)
      have f3: "frame m {h, n} ?m" using frame_store [OF frame_trans [OF f f2]] by (simp add: insert_commute)
      have eq: "servent_dup L (Some o') m = servent_dup_proto L orig h ?m"
        using h(1) o1 m1 n(1) c by (simp add: servent_dup_def set_servent_def get_servent_def)
      show ?thesis unfolding eq v(1)
        by (rule servent_dup_proto_copies [OF fresh _ _ d _ _ f3 str_view_mono [OF v(4) frame_le [OF f3]] v(3), where e = ?e]) (use n(3) d in auto)
    qed
  qed
qed


section \<open>What OCaml gets\<close>

text \<open>The OCaml values of the entries, as \<^verbatim>\<open>Unix.host_entry\<close>, \<^verbatim>\<open>Unix.protocol_entry\<close> and \<^verbatim>\<open>Unix.service_entry\<close> describe them.\<close>

definition strings_value :: "char list list \<Rightarrow> caml_value" where
  "strings_value ss = Block 0 (map Caml_string ss)"

definition host_value :: "(string \<Rightarrow> int) \<Rightarrow> host_data \<Rightarrow> caml_value" where
  "host_value K v = (case v of (name, aliases, addrtype, len, addrs) \<Rightarrow>
     Block 0 [Caml_string name, strings_value (case aliases of None \<Rightarrow> [] | Some ss \<Rightarrow> ss),
       Imm (if addrtype = K ''PF_UNIX'' then 0 else if addrtype = K ''PF_INET'' then 1 else 2), strings_value (case addrs of None \<Rightarrow> [] | Some as \<Rightarrow> as)])"

definition proto_value :: "proto_data \<Rightarrow> caml_value" where
  "proto_value v = (case v of (name, aliases, proto) \<Rightarrow>
     Block 0 [Caml_string name, strings_value (case aliases of None \<Rightarrow> [] | Some ss \<Rightarrow> ss), Val_int proto])"

definition serv_value :: "serv_data \<Rightarrow> caml_value" where
  "serv_value v = (case v of (name, aliases, port, proto) \<Rightarrow>
     Block 0 [Caml_string name, strings_value (case aliases of None \<Rightarrow> [] | Some ss \<Rightarrow> ss), Val_int (ntohs port), Caml_string proto])"

text \<open>A complete host entry: an address list, of addresses of the Internet protocol, version 4 or 6.\<close>

definition host_complete :: "host_data \<Rightarrow> bool" where
  "host_complete v \<longleftrightarrow> (case v of (_, _, _, len, addrs) \<Rightarrow> (len = 4 \<or> len = 16) \<and> addrs \<noteq> None)"

lemma copy_strings_view:
  assumes "array_view (str_elem c) c (Some a) = Some (Some ss)"
  shows "caml_copy_string_array c a = Some (strings_value ss)"
proof -
  obtain qs where qs: "ptr_array c a = Some qs" "map_opt (str_elem c) qs = Some ss" using assms by (auto simp: array_view_def bind_Some_iff)
  have "(\<lambda>q. Option.bind q (copy_c_string c)) = (\<lambda>q. map_option Caml_string (str_elem c q))"
    by (auto simp: fun_eq_iff copy_c_string_def str_elem_def map_option_bind comp_def split: bind_splits)
  with map_opt_map [OF qs(2), of Caml_string] qs(1) show ?thesis by (simp add: caml_copy_string_array_def caml_alloc_array_def strings_value_def)
qed

lemma copy_addrs_view:
  assumes "array_view (addr_elem n c) c (Some a) = Some (Some bss)"
    and f: "\<And>q x. addr_elem n c (Some q) = Some x \<Longrightarrow> f q = Some (Caml_string x)"
  shows "caml_alloc_array f c a = Some (strings_value bss)"
proof -
  obtain qs where qs: "ptr_array c a = Some qs" "map_opt (addr_elem n c) qs = Some bss" using assms(1) by (auto simp: array_view_def bind_Some_iff)
  have "map_opt (\<lambda>q. map_option Caml_string (addr_elem n c q)) qs = Some (map Caml_string bss)" by (rule map_opt_map [OF qs(2)])
  then have "map_opt (\<lambda>q. Option.bind q f) qs = Some (map Caml_string bss)"
  proof (rule map_opt_mono)
    fix q y assume y: "map_option Caml_string (addr_elem n c q) = Some y"
    then obtain b where "q = Some b" by (cases q) (auto simp: addr_elem_def)
    with y f show "Option.bind q f = Some y" by auto
  qed
  with qs(1) show ?thesis by (simp add: caml_alloc_array_def strings_value_def)
qed

lemma alloc_host_entry_view:
  assumes "host_view c e = Some v" and "h_name e \<noteq> None" and "host_complete v"
  shows "alloc_host_entry K c e = Some (host_value K v)"
proof -
  obtain name aliases addrs where w: "v = (name, aliases, h_addrtype e, h_length e, addrs)" "str_view c (h_name e) = Some name"
    "array_view (str_elem c) c (h_aliases e) = Some aliases" "array_view (addr_elem (h_length e) c) c (h_addr_list e) = Some addrs"
    using assms(1) by (auto simp: host_view_def bind_Some_iff)
  obtain n where n: "h_name e = Some n" "get_str c n = Some name" using assms(2) w(2) by (auto simp: str_view_def)
  obtain bss where bss: "addrs = Some bss" using assms(3) w(1) by (auto simp: host_complete_def)
  then obtain l where "h_addr_list e = Some l" using w(4) by (cases "h_addr_list e") (auto simp: array_view_def)
  with w n bss have v: "v = (name, aliases, h_addrtype e, h_length e, Some bss)" "h_name e = Some n" "get_str c n = Some name"
    "array_view (str_elem c) c (h_aliases e) = Some aliases" "array_view (addr_elem (h_length e) c) c (Some l) = Some (Some bss)" "h_addr_list e = Some l"
    by simp_all
  have len: "h_length e = 4 \<or> h_length e = 16" using assms(3) v(1) by (simp add: host_complete_def)
  have "(case h_aliases e of Some a \<Rightarrow> caml_copy_string_array c a | None \<Rightarrow> Some (Block 0 [])) = Some (strings_value (case aliases of None \<Rightarrow> [] | Some ss \<Rightarrow> ss))"
  proof (cases "h_aliases e")
    case None
    then show ?thesis using v(4) by (simp add: array_view_def strings_value_def)
  next
    case (Some a)
    then obtain ss where "aliases = Some ss" using v(4) by (auto simp: array_view_def bind_Some_iff)
    then show ?thesis using Some v(4) copy_strings_view by simp
  qed
  moreover have "(if h_length e = 16 then caml_alloc_array (alloc_one_addr6 c) c l else caml_alloc_array (alloc_one_addr c) c l) = Some (strings_value bss)"
    using len v(5) by (auto intro!: copy_addrs_view [of "h_length e" c l bss] simp: alloc_one_addr_def alloc_one_addr6_def addr_elem_def bind_Some_iff)
  ultimately show ?thesis using v by (simp add: alloc_host_entry_def host_value_def copy_c_string_def Val_int_def caml_int_id)
qed

lemma alloc_protoent_view:
  assumes "proto_view c e = Some v" and "p_name e \<noteq> None" and "p_aliases e \<noteq> None"
  shows "alloc_protoent c e = Some (proto_value v)"
  using assms copy_strings_view [of c]
  by (auto simp: alloc_protoent_def proto_view_def proto_value_def bind_Some_iff str_view_def copy_c_string_def array_view_def)

lemma alloc_servent_view:
  assumes "serv_view c e = Some v" and "s_name e \<noteq> None" and "s_aliases e \<noteq> None" and "s_proto e \<noteq> None"
  shows "alloc_servent c e = Some (serv_value v)"
  using assms copy_strings_view [of c]
  by (auto simp: alloc_servent_def serv_view_def serv_value_def bind_Some_iff str_view_def copy_c_string_def array_view_def)

section \<open>Properties\<close>

definition demo_libc :: "nat \<Rightarrow> libc" where
  "demo_libc k = \<lparr>l_alloc = (\<lambda>i c. if i = k \<or> c (100 + i) \<noteq> None then None else Some (100 + i)),
     l_bytes = (\<lambda>_. CHR ''?''), l_ptrs = (\<lambda>_. Some 99), l_hostent = \<lparr>h_name = Some 99, h_aliases = Some 99, h_addrtype = 0, h_length = 0, h_addr_list = Some 99\<rparr>,
     l_protoent = \<lparr>p_name = Some 99, p_aliases = Some 99, p_proto = 0\<rparr>,
     l_servent = \<lparr>s_name = Some 99, s_aliases = Some 99, s_port = 0, s_proto = Some 99\<rparr>\<rparr>"

lemma demo_libc_fresh: "alloc_fresh (demo_libc k)"
  by (auto simp: alloc_fresh_def demo_libc_def split: if_splits)

definition demo_hostent :: hostent where
  "demo_hostent = \<lparr>h_name = Some 11, h_aliases = Some 12, h_addrtype = 2, h_length = 4, h_addr_list = Some 14\<rparr>"

definition demo_protoent :: protoent where
  "demo_protoent = \<lparr>p_name = Some 11, p_aliases = Some 12, p_proto = 6\<rparr>"

definition demo_servent :: servent where
  "demo_servent = \<lparr>s_name = Some 11, s_aliases = Some 12, s_port = 20480, s_proto = Some 13\<rparr>"

definition demo_cells :: cells where
  "demo_cells = [1 \<mapsto> Hostent demo_hostent, 2 \<mapsto> Protoent demo_protoent, 3 \<mapsto> Servent demo_servent, 11 \<mapsto> Bytes [CHR ''h'', NUL], 12 \<mapsto> Ptrs [Some 13, None],
     13 \<mapsto> Bytes [CHR ''a'', NUL], 14 \<mapsto> Ptrs [Some 15, None], 15 \<mapsto> Bytes [CHR ''1'', CHR ''2'', CHR ''3'', CHR ''4'']]"

definition demo_netos :: "unit netos" where
  "demo_netos = \<lparr>cells = demo_cells, calls = 0, world = ()\<rparr>"

lemma demo_views:
  "host_view demo_cells demo_hostent = Some (''h'', Some [''a''], 2, 4, Some [''1234''])"
  "proto_view demo_cells demo_protoent = Some (''h'', Some [''a''], 6)"
  "serv_view demo_cells demo_servent = Some (''h'', Some [''a''], 20480, ''a'')"
  by (simp_all add: host_view_def proto_view_def serv_view_def demo_hostent_def demo_protoent_def demo_servent_def demo_cells_def str_view_def array_view_def
      str_elem_def addr_elem_def get_str_def get_bytes_def ptr_array_def get_ptrs_def cstr_at_def NUL_def read_at_def take_bit_eq_mod)

text \<open>
  C18. Copies of database entries. \<^verbatim>\<open>hostent_dup\<close>, \<^verbatim>\<open>protoent_dup\<close> and \<^verbatim>\<open>servent_dup\<close> on any well-formed entry, with any calls of \<^verbatim>\<open>malloc\<close>
  failing, either return a pointer to a copy that means the same as the original, made of new memory, which the corresponding function \<^verbatim>\<open>..._free\<close>
  frees completely and nothing else, or a null pointer with the memory exactly as before, and that only if \<^verbatim>\<open>malloc\<close> can fail. No step reads or frees
  memory that is not allocated.
\<close>

theorem netdb_copies_safe:
  fixes m :: "'w netos"
  assumes "alloc_fresh L" and "cells m a = Some (Hostent h)" and "host_view (cells m) h = Some hv"
    and "cells m b = Some (Protoent p)" and "proto_view (cells m) p = Some pv"
    and "cells m c = Some (Servent s)" and "serv_view (cells m) s = Some sv"
  shows "allocates L m (hostent_dup L (Some a) m) (host_copy TYPE('w) hv) \<and>
    allocates L m (protoent_dup L (Some b) m) (proto_copy TYPE('w) pv) \<and>
    allocates L m (servent_dup L (Some c) m) (serv_copy TYPE('w) sv)"
  by (intro conjI hostent_dup_copies protoent_dup_copies servent_dup_copies) (fact assms)+

theorem netdb_copies_safe_witness:
  "allocates (demo_libc 3) demo_netos (hostent_dup (demo_libc 3) (Some 1) demo_netos) (host_copy TYPE(unit) (''h'', Some [''a''], 2, 4, Some [''1234''])) \<and>
   allocates (demo_libc 3) demo_netos (protoent_dup (demo_libc 3) (Some 2) demo_netos) (proto_copy TYPE(unit) (''h'', Some [''a''], 6)) \<and>
   allocates (demo_libc 3) demo_netos (servent_dup (demo_libc 3) (Some 3) demo_netos) (serv_copy TYPE(unit) (''h'', Some [''a''], 20480, ''a''))"
proof -
  have c: "cells demo_netos = demo_cells" by (simp add: demo_netos_def)
  show ?thesis
    by (rule netdb_copies_safe [of "demo_libc 3" demo_netos 1 demo_hostent _ 2 demo_protoent _ 3 demo_servent, OF demo_libc_fresh])
      (simp_all only: c demo_views, simp_all add: demo_cells_def)
qed

end
