(* ===== verification/Host_Jobs.thy ===== *)
theory Host_Jobs
  imports Netdb_Copy Path_Jobs
begin

text \<open>
  \<^verbatim>\<open>unix_gethostbyname_job.c\<close> and \<^verbatim>\<open>unix_gethostbyaddr_job.c\<close>, in the three configurations of libc: a reentrant function that returns a pointer
  (\<^verbatim>\<open>HAS_GETHOSTBYNAME_R == 5\<close>, \<^verbatim>\<open>HAS_GETHOSTBYADDR_R == 7\<close>), a reentrant function that returns an error code (\<^verbatim>\<open>6\<close>, \<^verbatim>\<open>8\<close>), and a function that returns a pointer
  to static memory, whose entry is copied (suffix \<open>nr\<close>).

  A reentrant function stores an entry in the structure of the job and its strings in a buffer there; pointers in the entry are offsets in the
  buffer. The fields \<open>j_result\<close> and \<open>j_error_code\<close> of the common part are not used.
\<close>

definition NETDB_BUFFER_SIZE :: nat where
  "NETDB_BUFFER_SIZE = 10000"

record job_gethostbyname = path_job +
  g_entry :: hostent
  g_ptr :: "nat option"
  g_buffer :: cells

record job_gethostbyaddr = sysjob +
  a_addr :: "char list"
  a_entry :: hostent
  a_ptr :: "nat option"
  a_buffer :: cells

type_synonym gethostbyname_x = "unit job_gethostbyname_ext path_x"
type_synonym gethostbyaddr_x = "unit job_gethostbyaddr_ext sys_x"

section \<open>gethostbyname\<close>

definition worker_gethostbyname_5 :: "(char list \<Rightarrow> nat \<Rightarrow> ('os, nat option \<times> hostent \<times> cells) syscall) \<Rightarrow> nat
    \<Rightarrow> (gethostbyname_x, 'os) cst \<Rightarrow> (gethostbyname_x, 'os) cst option" where
  "worker_gethostbyname_5 gethostbyname_r p s = do {
     job \<leftarrow> heap s p;
     name \<leftarrow> job_path job;
     let ((ptr, entry, buffer), e, w) = gethostbyname_r name NETDB_BUFFER_SIZE (c_errno s) (os s);
     s \<leftarrow> set_job p (\<lambda>j. j\<lparr>g_entry := entry, g_ptr := ptr, g_buffer := buffer\<rparr>) s;
     Some (s\<lparr>c_errno := e, os := w\<rparr>)
   }"

definition worker_gethostbyname_6 :: "(char list \<Rightarrow> nat \<Rightarrow> ('os, int \<times> nat option \<times> hostent \<times> cells) syscall) \<Rightarrow> nat
    \<Rightarrow> (gethostbyname_x, 'os) cst \<Rightarrow> (gethostbyname_x, 'os) cst option" where
  "worker_gethostbyname_6 gethostbyname_r p s = do {
     job \<leftarrow> heap s p;
     name \<leftarrow> job_path job;
     let ((r, ptr, entry, buffer), e, w) = gethostbyname_r name NETDB_BUFFER_SIZE (c_errno s) (os s);
     s \<leftarrow> set_job p (\<lambda>j. j\<lparr>g_entry := entry, g_ptr := ptr, g_buffer := buffer\<rparr>) s;
     s \<leftarrow> (if r \<noteq> 0 then set_job p (\<lambda>j. j\<lparr>g_ptr := None\<rparr>) s else Some s);
     Some (s\<lparr>c_errno := e, os := w\<rparr>)
   }"

definition worker_gethostbyname_nr :: "libc \<Rightarrow> (char list \<Rightarrow> ('w netos, nat option) syscall) \<Rightarrow> nat
    \<Rightarrow> (gethostbyname_x, 'w netos) cst \<Rightarrow> (gethostbyname_x, 'w netos) cst option" where
  "worker_gethostbyname_nr L gethostbyname_c p s = do {
     job \<leftarrow> heap s p;
     name \<leftarrow> job_path job;
     let (ptr, e, w) = gethostbyname_c name (c_errno s) (os s);
     s \<leftarrow> set_job p (\<lambda>j. j\<lparr>g_ptr := ptr\<rparr>) (s\<lparr>c_errno := e, os := w\<rparr>);
     if ptr = None then Some s else do {
       (ptr, w) \<leftarrow> hostent_dup L ptr (os s);
       s \<leftarrow> set_job p (\<lambda>j. j\<lparr>g_ptr := ptr\<rparr>) (s\<lparr>os := w\<rparr>);
       case ptr of None \<Rightarrow> Some s | Some a \<Rightarrow> do {
         entry \<leftarrow> get_hostent (cells (os s)) a;
         set_job p (\<lambda>j. j\<lparr>g_entry := entry\<rparr>) s
       }
     }
   }"

definition result_gethostbyname :: "(string \<Rightarrow> int) \<Rightarrow> nat \<Rightarrow> (gethostbyname_x, 'os) cst \<Rightarrow> (caml_value outcome \<times> (gethostbyname_x, 'os) cst) option" where
  "result_gethostbyname K p s = do {
     job \<leftarrow> heap s p;
     if g_ptr job = None then do { s \<leftarrow> free_job p s; Some (Raise Not_found, s) }
     else do {
       entry \<leftarrow> alloc_host_entry K (g_buffer job) (g_entry job);
       free_and_return p entry s
     }
   }"

definition result_gethostbyname_nr :: "(string \<Rightarrow> int) \<Rightarrow> nat \<Rightarrow> (gethostbyname_x, 'w netos) cst
    \<Rightarrow> (caml_value outcome \<times> (gethostbyname_x, 'w netos) cst) option" where
  "result_gethostbyname_nr K p s = do {
     job \<leftarrow> heap s p;
     if g_ptr job = None then do { s \<leftarrow> free_job p s; Some (Raise Not_found, s) }
     else do {
       entry \<leftarrow> alloc_host_entry K (cells (os s)) (g_entry job);
       w \<leftarrow> hostent_free (g_ptr job) (os s);
       free_and_return p entry (s\<lparr>os := w\<rparr>)
     }
   }"

definition lwt_unix_gethostbyname_job :: "nat \<Rightarrow> job_gethostbyname \<times> (nat \<Rightarrow> char) \<Rightarrow> char list
    \<Rightarrow> (gethostbyname_x, 'os) cst \<Rightarrow> (caml_value \<times> (gethostbyname_x, 'os) cst) option" where
  "lwt_unix_gethostbyname_job a ug name s = do {
     s \<leftarrow> LWT_UNIX_INIT_JOB_STRING a ''gethostbyname'' 0 name ug s;
     lwt_unix_alloc_job a s
   }"

section \<open>gethostbyaddr\<close>

definition worker_gethostbyaddr_7 :: "(char list \<Rightarrow> nat \<Rightarrow> ('os, nat option \<times> hostent \<times> cells) syscall) \<Rightarrow> nat
    \<Rightarrow> (gethostbyaddr_x, 'os) cst \<Rightarrow> (gethostbyaddr_x, 'os) cst option" where
  "worker_gethostbyaddr_7 gethostbyaddr_r p s = do {
     job \<leftarrow> heap s p;
     let ((ptr, entry, buffer), e, w) = gethostbyaddr_r (a_addr job) NETDB_BUFFER_SIZE (c_errno s) (os s);
     s \<leftarrow> set_job p (\<lambda>j. j\<lparr>a_entry := entry, a_ptr := ptr, a_buffer := buffer\<rparr>) s;
     Some (s\<lparr>c_errno := e, os := w\<rparr>)
   }"

definition worker_gethostbyaddr_8 :: "(char list \<Rightarrow> nat \<Rightarrow> ('os, int \<times> nat option \<times> hostent \<times> cells) syscall) \<Rightarrow> nat
    \<Rightarrow> (gethostbyaddr_x, 'os) cst \<Rightarrow> (gethostbyaddr_x, 'os) cst option" where
  "worker_gethostbyaddr_8 gethostbyaddr_r p s = do {
     job \<leftarrow> heap s p;
     let ((r, ptr, entry, buffer), e, w) = gethostbyaddr_r (a_addr job) NETDB_BUFFER_SIZE (c_errno s) (os s);
     s \<leftarrow> set_job p (\<lambda>j. j\<lparr>a_entry := entry, a_ptr := ptr, a_buffer := buffer\<rparr>) s;
     s \<leftarrow> (if r \<noteq> 0 then set_job p (\<lambda>j. j\<lparr>a_ptr := None\<rparr>) s else Some s);
     Some (s\<lparr>c_errno := e, os := w\<rparr>)
   }"

definition worker_gethostbyaddr_nr :: "libc \<Rightarrow> (char list \<Rightarrow> ('w netos, nat option) syscall) \<Rightarrow> nat
    \<Rightarrow> (gethostbyaddr_x, 'w netos) cst \<Rightarrow> (gethostbyaddr_x, 'w netos) cst option" where
  "worker_gethostbyaddr_nr L gethostbyaddr_c p s = do {
     job \<leftarrow> heap s p;
     let (ptr, e, w) = gethostbyaddr_c (a_addr job) (c_errno s) (os s);
     s \<leftarrow> set_job p (\<lambda>j. j\<lparr>a_ptr := ptr\<rparr>) (s\<lparr>c_errno := e, os := w\<rparr>);
     if ptr = None then Some s else do {
       (ptr, w) \<leftarrow> hostent_dup L ptr (os s);
       s \<leftarrow> set_job p (\<lambda>j. j\<lparr>a_ptr := ptr\<rparr>) (s\<lparr>os := w\<rparr>);
       case ptr of None \<Rightarrow> Some s | Some a \<Rightarrow> do {
         entry \<leftarrow> get_hostent (cells (os s)) a;
         set_job p (\<lambda>j. j\<lparr>a_entry := entry\<rparr>) s
       }
     }
   }"

definition result_gethostbyaddr :: "(string \<Rightarrow> int) \<Rightarrow> nat \<Rightarrow> (gethostbyaddr_x, 'os) cst \<Rightarrow> (caml_value outcome \<times> (gethostbyaddr_x, 'os) cst) option" where
  "result_gethostbyaddr K p s = do {
     job \<leftarrow> heap s p;
     if a_ptr job = None then do { s \<leftarrow> free_job p s; Some (Raise Not_found, s) }
     else do {
       entry \<leftarrow> alloc_host_entry K (a_buffer job) (a_entry job);
       free_and_return p entry s
     }
   }"

definition result_gethostbyaddr_nr :: "(string \<Rightarrow> int) \<Rightarrow> nat \<Rightarrow> (gethostbyaddr_x, 'w netos) cst
    \<Rightarrow> (caml_value outcome \<times> (gethostbyaddr_x, 'w netos) cst) option" where
  "result_gethostbyaddr_nr K p s = do {
     job \<leftarrow> heap s p;
     if a_ptr job = None then do { s \<leftarrow> free_job p s; Some (Raise Not_found, s) }
     else do {
       entry \<leftarrow> alloc_host_entry K (cells (os s)) (a_entry job);
       w \<leftarrow> hostent_free (a_ptr job) (os s);
       free_and_return p entry (s\<lparr>os := w\<rparr>)
     }
   }"

text \<open>\<^verbatim>\<open>GET_INET_ADDR\<close> reads a \<^verbatim>\<open>struct in_addr\<close>, four bytes, from the beginning of the OCaml string.\<close>

definition GET_INET_ADDR :: "char list \<Rightarrow> char list option" where
  "GET_INET_ADDR v = read_at (caml_bytes v) 0 4"

definition lwt_unix_gethostbyaddr_job :: "nat \<Rightarrow> job_gethostbyaddr \<Rightarrow> char list
    \<Rightarrow> (gethostbyaddr_x, 'os) cst \<Rightarrow> (caml_value \<times> (gethostbyaddr_x, 'os) cst) option" where
  "lwt_unix_gethostbyaddr_job a u val_addr s = do {
     s \<leftarrow> LWT_UNIX_INIT_JOB a ''gethostbyaddr'' u s;
     addr \<leftarrow> GET_INET_ADDR val_addr;
     s \<leftarrow> set_job a (\<lambda>j. j\<lparr>a_addr := addr\<rparr>) s;
     lwt_unix_alloc_job a s
   }"


section \<open>What libc does\<close>

text \<open>
  \<open>db key w\<close> is the entry for a name or an address, with the number of bytes its strings need in a buffer. A reentrant function finds an
  entry that fits into the buffer. A function that is not reentrant returns a pointer to memory of its own.
\<close>

type_synonym 'os host_db = "char list \<Rightarrow> 'os \<Rightarrow> (host_data \<times> nat) option"

definition found_in :: "(host_data \<times> nat) option \<Rightarrow> nat \<Rightarrow> host_data option" where
  "found_in r n = (case r of None \<Rightarrow> None | Some (v, need) \<Rightarrow> if need \<le> n then Some v else None)"

definition found :: "(host_data \<times> nat) option \<Rightarrow> host_data option" where
  "found r = map_option fst r"

definition stores_host :: "host_data option \<Rightarrow> nat option \<Rightarrow> hostent \<Rightarrow> cells \<Rightarrow> bool" where
  "stores_host r ptr entry c \<longleftrightarrow> (case r of
     None \<Rightarrow> ptr = None
   | Some v \<Rightarrow> ptr \<noteq> None \<and> host_view c entry = Some v \<and> h_name entry \<noteq> None \<and> host_complete v)"

definition host_ptr_ok :: "(char list \<Rightarrow> nat \<Rightarrow> ('os, nat option \<times> hostent \<times> cells) syscall) \<Rightarrow> 'os host_db \<Rightarrow> bool" where
  "host_ptr_ok call db \<longleftrightarrow> (\<forall>key n e w. case call key n e w of ((ptr, entry, buffer), _) \<Rightarrow> stores_host (found_in (db key w) n) ptr entry buffer)"

text \<open>The error code is not 0 for an error; when there is no entry, it is 0 and the pointer is null.\<close>

definition host_code_ok :: "(char list \<Rightarrow> nat \<Rightarrow> ('os, int \<times> nat option \<times> hostent \<times> cells) syscall) \<Rightarrow> 'os host_db \<Rightarrow> bool" where
  "host_code_ok call db \<longleftrightarrow> (\<forall>key n e w. case call key n e w of ((r, ptr, entry, buffer), _) \<Rightarrow>
     stores_host (found_in (db key w) n) (if r \<noteq> 0 then None else ptr) entry buffer)"

definition host_static_ok :: "(char list \<Rightarrow> ('w netos, nat option) syscall) \<Rightarrow> 'w netos host_db \<Rightarrow> bool" where
  "host_static_ok call db \<longleftrightarrow> (\<forall>key e w. case call key e w of (ptr, _, w') \<Rightarrow> (case found (db key w) of
     None \<Rightarrow> ptr = None
   | Some v \<Rightarrow> host_complete v \<and> (\<exists>a h. ptr = Some a \<and> cells w' a = Some (Hostent h) \<and> host_view (cells w') h = Some v)))"

definition host_answer :: "(string \<Rightarrow> int) \<Rightarrow> host_data option \<Rightarrow> caml_value outcome" where
  "host_answer K r = (case r of None \<Rightarrow> Raise Not_found | Some v \<Rightarrow> Ret (host_value K v))"

text \<open>The specification of a job in the configurations that are reentrant, and in the other one.\<close>

definition host_r_spec :: "(string \<Rightarrow> int) \<Rightarrow> ('os, 'r) syscall \<Rightarrow> (host_data \<times> nat) option \<Rightarrow> int \<Rightarrow> ('x, 'os) cst
    \<Rightarrow> (caml_value outcome \<times> ('x, 'os) cst) option" where
  "host_r_spec K call r e' s = (case call (c_errno s) (os s) of (_, _, w) \<Rightarrow> Some (host_answer K (found_in r NETDB_BUFFER_SIZE), s\<lparr>c_errno := e', os := w\<rparr>))"

definition host_nr_spec :: "(string \<Rightarrow> int) \<Rightarrow> libc \<Rightarrow> ('w netos, 'r) syscall \<Rightarrow> (host_data \<times> nat) option \<Rightarrow> int \<Rightarrow> ('x, 'w netos) cst
    \<Rightarrow> (caml_value outcome \<times> ('x, 'w netos) cst) option \<Rightarrow> bool" where
  "host_nr_spec K L call r e' s res \<longleftrightarrow> (case call (c_errno s) (os s) of (_, _, w) \<Rightarrow>
     \<exists>ans w'. res = Some (ans, s\<lparr>c_errno := e', os := w'\<rparr>) \<and> cells w' = cells w \<and> world w' = world w \<and>
       (ans = host_answer K (found r) \<or> ans = Raise Not_found \<and> \<not> reliable L))"

section \<open>Reentrant configurations\<close>

lemma stores_host_alloc:
  assumes "stores_host r ptr entry c"
  shows "(if ptr = None then Some (Raise Not_found) else map_option Ret (alloc_host_entry K c entry)) = Some (host_answer K r)"
  using assms alloc_host_entry_view [of c entry] by (auto simp: stores_host_def host_answer_def split: option.splits)

lemmas host_defs = worker_gethostbyname_5_def worker_gethostbyname_6_def result_gethostbyname_def lwt_unix_gethostbyname_job_def
  worker_gethostbyaddr_7_def worker_gethostbyaddr_8_def result_gethostbyaddr_def lwt_unix_gethostbyaddr_job_def

lemma host_ptr_okD:
  assumes "host_ptr_ok call db" and "call key n e w = ((ptr, entry, buffer), e', w')"
  shows "stores_host (found_in (db key w) n) ptr entry buffer"
proof -
  have "case call key n e w of ((ptr, entry, buffer), _) \<Rightarrow> stores_host (found_in (db key w) n) ptr entry buffer"
    by (rule assms(1) [unfolded host_ptr_ok_def, THEN spec, THEN spec, THEN spec, THEN spec])
  with assms(2) show ?thesis by simp
qed

lemma host_code_okD:
  assumes "host_code_ok call db" and "call key n e w = ((r, ptr, entry, buffer), e', w')"
  shows "stores_host (found_in (db key w) n) (if r \<noteq> 0 then None else ptr) entry buffer"
proof -
  have "case call key n e w of ((r, ptr, entry, buffer), _) \<Rightarrow> stores_host (found_in (db key w) n) (if r \<noteq> 0 then None else ptr) entry buffer"
    by (rule assms(1) [unfolded host_code_ok_def, THEN spec, THEN spec, THEN spec, THEN spec])
  with assms(2) show ?thesis by simp
qed

lemma gethostbyname_5_run:
  assumes "heap s a = None" and "host_ptr_ok call db"
  shows "job_run am e' (lwt_unix_gethostbyname_job a ug name) [''worker_gethostbyname'' \<mapsto> worker_gethostbyname_5 call]
      [''result_gethostbyname'' \<mapsto> result_gethostbyname K] s =
    host_r_spec K (call (cstring name) NETDB_BUFFER_SIZE) (db (cstring name) (os s)) e' s"
proof -
  obtain ptr entry buffer e w where c: "call (cstring name) NETDB_BUFFER_SIZE (c_errno s) (os s) = ((ptr, entry, buffer), e, w)" by (metis prod_cases5 surj_pair)
  show ?thesis using assms(1) c stores_host_alloc [OF host_ptr_okD [OF assms(2) c], of K]
    by (cases s) (auto simp: job_run_def host_defs host_r_spec_def job_common freeable_def fun_upd_idem split: if_splits)
qed


lemma gethostbyname_6_run:
  assumes "heap s a = None" and "host_code_ok call db"
  shows "job_run am e' (lwt_unix_gethostbyname_job a ug name) [''worker_gethostbyname'' \<mapsto> worker_gethostbyname_6 call]
      [''result_gethostbyname'' \<mapsto> result_gethostbyname K] s =
    host_r_spec K (call (cstring name) NETDB_BUFFER_SIZE) (db (cstring name) (os s)) e' s"
proof -
  obtain r ptr entry buffer e w where c: "call (cstring name) NETDB_BUFFER_SIZE (c_errno s) (os s) = ((r, ptr, entry, buffer), e, w)" by (metis prod_cases6 surj_pair)
  show ?thesis using assms(1) c stores_host_alloc [OF host_code_okD [OF assms(2) c], of K]
    by (cases s) (auto simp: job_run_def host_defs host_r_spec_def job_common freeable_def fun_upd_idem split: if_splits)
qed

lemma GET_INET_ADDR_4: "4 \<le> length v \<Longrightarrow> GET_INET_ADDR v = Some (take 4 v)"
  by (simp add: GET_INET_ADDR_def caml_bytes_def)

lemma gethostbyaddr_7_run:
  assumes "heap s a = None" and "4 \<le> length addr" and "host_ptr_ok call db"
  shows "job_run am e' (lwt_unix_gethostbyaddr_job a u addr) [''worker_gethostbyaddr'' \<mapsto> worker_gethostbyaddr_7 call]
      [''result_gethostbyaddr'' \<mapsto> result_gethostbyaddr K] s =
    host_r_spec K (call (take 4 addr) NETDB_BUFFER_SIZE) (db (take 4 addr) (os s)) e' s"
proof -
  obtain ptr entry buffer e w where c: "call (take 4 addr) NETDB_BUFFER_SIZE (c_errno s) (os s) = ((ptr, entry, buffer), e, w)" by (metis prod_cases5 surj_pair)
  show ?thesis using assms(1,2) c stores_host_alloc [OF host_ptr_okD [OF assms(3) c], of K]
    by (cases s) (auto simp: job_run_def host_defs GET_INET_ADDR_4 host_r_spec_def job_common freeable_def fun_upd_idem split: if_splits)
qed

lemma gethostbyaddr_8_run:
  assumes "heap s a = None" and "4 \<le> length addr" and "host_code_ok call db"
  shows "job_run am e' (lwt_unix_gethostbyaddr_job a u addr) [''worker_gethostbyaddr'' \<mapsto> worker_gethostbyaddr_8 call]
      [''result_gethostbyaddr'' \<mapsto> result_gethostbyaddr K] s =
    host_r_spec K (call (take 4 addr) NETDB_BUFFER_SIZE) (db (take 4 addr) (os s)) e' s"
proof -
  obtain r ptr entry buffer e w where c: "call (take 4 addr) NETDB_BUFFER_SIZE (c_errno s) (os s) = ((r, ptr, entry, buffer), e, w)" by (metis prod_cases6 surj_pair)
  show ?thesis using assms(1,2) c stores_host_alloc [OF host_code_okD [OF assms(3) c], of K]
    by (cases s) (auto simp: job_run_def host_defs GET_INET_ADDR_4 host_r_spec_def job_common freeable_def fun_upd_idem split: if_splits)
qed

section \<open>The configuration with static memory\<close>

lemma host_static_okD:
  assumes "host_static_ok call db" and "call key e w = (ptr, e', w')"
  shows "case found (db key w) of None \<Rightarrow> ptr = None
   | Some v \<Rightarrow> host_complete v \<and> (\<exists>a h. ptr = Some a \<and> cells w' a = Some (Hostent h) \<and> host_view (cells w') h = Some v)"
proof -
  have "case call key e w of (ptr, _, w') \<Rightarrow> (case found (db key w) of None \<Rightarrow> ptr = None
   | Some v \<Rightarrow> host_complete v \<and> (\<exists>a h. ptr = Some a \<and> cells w' a = Some (Hostent h) \<and> host_view (cells w') h = Some v))"
    by (rule assms(1) [unfolded host_static_ok_def, THEN spec, THEN spec, THEN spec])
  with assms(2) show ?thesis by simp
qed

text \<open>The copy that the worker makes serves the result function, which frees it.\<close>

lemma host_copy_used:
  fixes w :: "'w netos"
  assumes "alloc_fresh L" and "cells w a = Some (Hostent h)" and "host_view (cells w) h = Some v" and "host_complete v"
  obtains (no_memory) w' where "hostent_dup L (Some a) w = Some (None, w')" "cells w' = cells w" "world w' = world w" "\<not> reliable L"
  | (copied) b w' w'' entry where "hostent_dup L (Some a) w = Some (Some b, w')" "get_hostent (cells w') b = Some entry"
    "alloc_host_entry K (cells w') entry = Some (host_value K v)" "hostent_free (Some b) w' = Some w''" "cells w'' = cells w" "world w'' = world w"
  using hostent_dup_copies [OF assms(1-3)]
proof (cases rule: allocatesE)
  case (fails m')
  then show ?thesis using no_memory by blast
next
  case (succeeds b S w')
  then obtain entry where e: "cells w' b = Some (Hostent entry)" "host_view (cells w') entry = Some v" "h_name entry \<noteq> None"
    and o': "owns (hostent_free (Some b) :: 'w netos \<Rightarrow> 'w netos option) S (cells w')" by (auto simp: host_copy_def)
  show ?thesis
    by (rule copied [OF succeeds(1) _ alloc_host_entry_view [OF e(2,3) assms(4)] owns_free [OF o']])
      (use e(1) frame_restore [OF succeeds(2)] succeeds(2) in \<open>simp_all add: get_hostent_def frame_def\<close>)
qed

lemmas host_nr_defs = worker_gethostbyname_nr_def result_gethostbyname_nr_def lwt_unix_gethostbyname_job_def
  worker_gethostbyaddr_nr_def result_gethostbyaddr_nr_def lwt_unix_gethostbyaddr_job_def

lemma gethostbyname_nr_run:
  assumes "heap s a = None" and "host_static_ok call db" and "alloc_fresh L"
  shows "host_nr_spec K L (call (cstring name)) (db (cstring name) (os s)) e' s
    (job_run am e' (lwt_unix_gethostbyname_job a ug name) [''worker_gethostbyname'' \<mapsto> worker_gethostbyname_nr L call]
      [''result_gethostbyname'' \<mapsto> result_gethostbyname_nr K] s)"
proof -
  obtain ptr e w where c: "call (cstring name) (c_errno s) (os s) = (ptr, e, w)" by (metis prod_cases3)
  note ok = host_static_okD [OF assms(2) c]
  show ?thesis
  proof (cases "found (db (cstring name) (os s))")
    case None
    with ok c assms(1) show ?thesis
      by (cases s) (auto simp: job_run_def host_nr_defs host_nr_spec_def host_answer_def job_common freeable_def fun_upd_idem split: if_splits)
  next
    case (Some v)
    with ok obtain b h where b: "host_complete v" "ptr = Some b" "cells w b = Some (Hostent h)" "host_view (cells w) h = Some v" by auto
    from assms(3) b(3,4,1) show ?thesis
    proof (cases rule: host_copy_used [where K = K])
      case (no_memory w')
      with b c assms(1) show ?thesis
        by (cases s) (auto simp: job_run_def host_nr_defs host_nr_spec_def host_answer_def job_common freeable_def fun_upd_idem split: if_splits)
    next
      case (copied b' w' w'' entry)
      with b c assms(1) Some show ?thesis
        by (cases s) (auto simp: job_run_def host_nr_defs host_nr_spec_def host_answer_def job_common freeable_def fun_upd_idem split: if_splits)
    qed
  qed
qed

lemma gethostbyaddr_nr_run:
  assumes "heap s a = None" and "4 \<le> length addr" and "host_static_ok call db" and "alloc_fresh L"
  shows "host_nr_spec K L (call (take 4 addr)) (db (take 4 addr) (os s)) e' s
    (job_run am e' (lwt_unix_gethostbyaddr_job a u addr) [''worker_gethostbyaddr'' \<mapsto> worker_gethostbyaddr_nr L call]
      [''result_gethostbyaddr'' \<mapsto> result_gethostbyaddr_nr K] s)"
proof -
  obtain ptr e w where c: "call (take 4 addr) (c_errno s) (os s) = (ptr, e, w)" by (metis prod_cases3)
  note ok = host_static_okD [OF assms(3) c]
  show ?thesis
  proof (cases "found (db (take 4 addr) (os s))")
    case None
    with ok c assms(1,2) show ?thesis
      by (cases s) (auto simp: job_run_def host_nr_defs GET_INET_ADDR_4 host_nr_spec_def host_answer_def job_common freeable_def fun_upd_idem split: if_splits)
  next
    case (Some v)
    with ok obtain b h where b: "host_complete v" "ptr = Some b" "cells w b = Some (Hostent h)" "host_view (cells w) h = Some v" by auto
    from assms(4) b(3,4,1) show ?thesis
    proof (cases rule: host_copy_used [where K = K])
      case (no_memory w')
      with b c assms(1,2) show ?thesis
        by (cases s) (auto simp: job_run_def host_nr_defs GET_INET_ADDR_4 host_nr_spec_def host_answer_def job_common freeable_def fun_upd_idem split: if_splits)
    next
      case (copied b' w' w'' entry)
      with b c assms(1,2) Some show ?thesis
        by (cases s) (auto simp: job_run_def host_nr_defs GET_INET_ADDR_4 host_nr_spec_def host_answer_def job_common freeable_def fun_upd_idem split: if_splits)
    qed
  qed
qed


section \<open>Properties\<close>

definition demo_gethostbyname_job :: job_gethostbyname where
  "demo_gethostbyname_job = \<lparr>next_job = None, notification_id = 0, worker_fn = [], result_fn = [], job_state = LWT_UNIX_JOB_STATE_DONE,
     fast = 5, job_mutex = Mutex_held, async_method = LWT_UNIX_ASYNC_METHOD_SWITCH, j_result = 1, j_error_code = 2, j_path = 3, j_data = [],
     g_entry = demo_hostent, g_ptr = Some 5, g_buffer = Map.empty\<rparr>"

definition demo_gethostbyaddr_job :: job_gethostbyaddr where
  "demo_gethostbyaddr_job = \<lparr>next_job = None, notification_id = 0, worker_fn = [], result_fn = [], job_state = LWT_UNIX_JOB_STATE_DONE,
     fast = 5, job_mutex = Mutex_held, async_method = LWT_UNIX_ASYNC_METHOD_SWITCH, j_result = 1, j_error_code = 2,
     a_addr = [], a_entry = demo_hostent, a_ptr = Some 5, a_buffer = Map.empty\<rparr>"

definition demo_net :: "('x, unit netos) cst" where
  "demo_net = \<lparr>heap = Map.empty, blocks = Map.empty, bufs = Map.empty, roots = [], c_errno = 0, os = demo_netos\<rparr>"

text \<open>A database with one entry, for every key, in the memory \<open>demo_cells\<close>.\<close>

definition demo_host :: host_data where
  "demo_host = (''h'', Some [''a''], 2, 4, Some [''1234''])"

definition demo_db :: "unit netos host_db" where
  "demo_db key w = (if cells w = demo_cells then Some (demo_host, 40) else None)"

definition demo_host_ptr :: "char list \<Rightarrow> nat \<Rightarrow> (unit netos, nat option \<times> hostent \<times> cells) syscall" where
  "demo_host_ptr key n e w = ((if cells w = demo_cells \<and> 40 \<le> n then Some 7 else None, demo_hostent, demo_cells), e, w)"

definition demo_host_code :: "char list \<Rightarrow> nat \<Rightarrow> (unit netos, int \<times> nat option \<times> hostent \<times> cells) syscall" where
  "demo_host_code key n e w = ((if 40 \<le> n then 0 else 34, if cells w = demo_cells then Some 7 else None, demo_hostent, demo_cells), e, w)"

definition demo_host_static :: "char list \<Rightarrow> (unit netos, nat option) syscall" where
  "demo_host_static key e w = (if cells w = demo_cells then Some 1 else None, e, w)"

lemma demo_host_ok: "host_ptr_ok demo_host_ptr demo_db" "host_code_ok demo_host_code demo_db" "host_static_ok demo_host_static demo_db"
  by (auto simp: host_ptr_ok_def host_code_ok_def host_static_ok_def demo_host_ptr_def demo_host_code_def demo_host_static_def demo_db_def stores_host_def
      found_in_def found_def demo_host_def demo_views(1) [unfolded demo_hostent_def] host_complete_def demo_hostent_def demo_cells_def [THEN fun_cong])



text \<open>
  Reverse lookups of version 6 addresses go wrong. \<^verbatim>\<open>Unix.inet_addr\<close> holds 4 bytes for version 4 of the Internet protocol and 16 for version 6. The job
  takes the first four bytes in both cases and asks for a version 4 address, so that for a version 6 address OCaml gets the
  host of an unrelated version 4 address, the same for all addresses with the same beginning.
\<close>

theorem gethostbyaddr_ipv6_wrong:
  assumes "length addr = 16" and "heap s a = None"
  shows "job_run am e (lwt_unix_gethostbyaddr_job a u addr) workers results s =
      job_run am e (lwt_unix_gethostbyaddr_job a u (take 4 addr)) workers results s \<and>
    (\<exists>t j. lwt_unix_gethostbyaddr_job a u addr s = Some (Caml_ptr (Some a), t) \<and> heap t a = Some j \<and> length (a_addr j) = 4)"
  using assms by (auto simp: job_run_def lwt_unix_gethostbyaddr_job_def GET_INET_ADDR_4 lwt_unix_alloc_job_def)

theorem gethostbyaddr_ipv6_wrong_witness:
  "job_run LWT_UNIX_ASYNC_METHOD_DETACH 0 (lwt_unix_gethostbyaddr_job 1 demo_gethostbyaddr_job ''1234567890123456'')
      [''worker_gethostbyaddr'' \<mapsto> worker_gethostbyaddr_8 demo_host_code] [''result_gethostbyaddr'' \<mapsto> result_gethostbyaddr (\<lambda>_. 2)] demo_net =
   job_run LWT_UNIX_ASYNC_METHOD_DETACH 0 (lwt_unix_gethostbyaddr_job 1 demo_gethostbyaddr_job ''1234'')
      [''worker_gethostbyaddr'' \<mapsto> worker_gethostbyaddr_8 demo_host_code] [''result_gethostbyaddr'' \<mapsto> result_gethostbyaddr (\<lambda>_. 2)] demo_net"
proof -
  have h: "heap demo_net 1 = None" "length ''1234567890123456'' = 16" by (simp_all add: demo_net_def)
  show ?thesis using gethostbyaddr_ipv6_wrong [OF h(2,1), THEN conjunct1] by simp
qed

end
