(* ===== verification/Entry_Jobs.thy ===== *)
theory Entry_Jobs
  imports Netdb_Copy Path_Jobs
begin

text \<open>
  \<^verbatim>\<open>unix_getprotoby_getservby_job.c\<close>: the four jobs \<^verbatim>\<open>getprotobyname\<close>, \<^verbatim>\<open>getprotobynumber\<close>, \<^verbatim>\<open>getservbyname\<close> and \<^verbatim>\<open>getservbyport\<close>, all made by the macro
  \<^verbatim>\<open>JOB_GET_ENTRY2\<close>, which has one definition for systems with reentrant functions and one for the others.

  The macro is a group of functions here, with its arguments as arguments; the locale \<open>get_entry\<close> states what the argument \<^verbatim>\<open>INIT\<close> has to do, and in it
  the job is proved correct once for all uses of the macro. The structure \<open>job_entry\<close> has the fields of all the structures that the macro
  defines: \<open>j_path\<close> is \<^verbatim>\<open>name\<close>, or \<^verbatim>\<open>proto\<close> for \<^verbatim>\<open>getservbyport\<close>, \<open>e_proto\<close> is the \<^verbatim>\<open>proto\<close> of \<^verbatim>\<open>getservbyname\<close> and \<open>e_num\<close> is \<^verbatim>\<open>num\<close> or \<^verbatim>\<open>port\<close>; in the second definition of the macro
  \<open>e_ptr\<close> is \<^verbatim>\<open>entry\<close>.
\<close>

record 'e job_entry = path_job +
  e_entry :: 'e
  e_ptr :: "nat option"
  e_buffer :: nat
  e_num :: int
  e_proto :: nat

type_synonym job_getprotobyname = "protoent job_entry"
type_synonym job_getprotobynumber = "protoent job_entry"
type_synonym job_getservbyname = "servent job_entry"
type_synonym job_getservbyport = "servent job_entry"

type_synonym 'e entry_x = "('e, unit) job_entry_ext path_x"

section \<open>The macro, with reentrant functions\<close>

text \<open>
  \<open>new n c\<close> is the address that \<^verbatim>\<open>lwt_unix_malloc (n)\<close> returns when the cells \<open>c\<close> are in use. The function \<^verbatim>\<open>FUNC_r\<close> gets the arguments from the
  job and the size of the buffer; it returns its result, the entry, the pointer and the content of the buffer.
\<close>

partial_function (option) JOB_GET_ENTRY2_loop :: "(string \<Rightarrow> int) \<Rightarrow> (nat \<Rightarrow> cells \<Rightarrow> nat)
    \<Rightarrow> ('e job_entry \<Rightarrow> (nat \<Rightarrow> ('w, int \<times> 'e \<times> nat option \<times> cells) syscall) option) \<Rightarrow> nat \<Rightarrow> nat
    \<Rightarrow> ('e entry_x, 'w netos) cst \<Rightarrow> ('e entry_x, 'w netos) cst option" where
  "JOB_GET_ENTRY2_loop K new func_r p sz s = do {
     let a = new sz (cells (os s));
     (if cells (os s) a = None then Some () else None);
     s \<leftarrow> set_job p (\<lambda>j. j\<lparr>e_buffer := a\<rparr>) (s\<lparr>os := (os s)\<lparr>cells := (cells (os s))(a \<mapsto> Buffer sz Map.empty)\<rparr>\<rparr>);
     job \<leftarrow> heap s p;
     call \<leftarrow> func_r job;
     let ((result, entry, ptr, content), e, w) = call sz (c_errno s) (world (os s));
     s \<leftarrow> set_job p (\<lambda>j. j\<lparr>e_entry := entry, e_ptr := ptr\<rparr>) (s\<lparr>c_errno := e, os := (os s)\<lparr>cells := (cells (os s))(a \<mapsto> Buffer sz content), world := w\<rparr>\<rparr>);
     if result = 0 then Some s
     else if result = K ''ERANGE'' then do {
       m \<leftarrow> free_cell a (os s);
       JOB_GET_ENTRY2_loop K new func_r p (sz + 1024) (s\<lparr>os := m\<rparr>)
     } else set_job p (\<lambda>j. j\<lparr>e_ptr := None\<rparr>) s
   }"

definition JOB_GET_ENTRY2_worker :: "(string \<Rightarrow> int) \<Rightarrow> (nat \<Rightarrow> cells \<Rightarrow> nat)
    \<Rightarrow> ('e job_entry \<Rightarrow> (nat \<Rightarrow> ('w, int \<times> 'e \<times> nat option \<times> cells) syscall) option) \<Rightarrow> nat
    \<Rightarrow> ('e entry_x, 'w netos) cst \<Rightarrow> ('e entry_x, 'w netos) cst option" where
  "JOB_GET_ENTRY2_worker K new func_r p s = JOB_GET_ENTRY2_loop K new func_r p 1024 s"

definition get_buffer :: "cells \<Rightarrow> nat \<Rightarrow> cells option" where
  "get_buffer c a = (case c a of Some (Buffer _ d) \<Rightarrow> Some d | _ \<Rightarrow> None)"

definition JOB_GET_ENTRY2_result :: "(cells \<Rightarrow> 'e \<Rightarrow> caml_value option) \<Rightarrow> nat \<Rightarrow> ('e entry_x, 'w netos) cst
    \<Rightarrow> (caml_value outcome \<times> ('e entry_x, 'w netos) cst) option" where
  "JOB_GET_ENTRY2_result alloc_type p s = do {
     job \<leftarrow> heap s p;
     if e_ptr job = None then do {
       m \<leftarrow> free_cell (e_buffer job) (os s);
       s \<leftarrow> free_job p (s\<lparr>os := m\<rparr>);
       Some (Raise Not_found, s)
     } else do {
       buffer \<leftarrow> get_buffer (cells (os s)) (e_buffer job);
       res \<leftarrow> alloc_type buffer (e_entry job);
       m \<leftarrow> free_cell (e_buffer job) (os s);
       free_and_return p res (s\<lparr>os := m\<rparr>)
     }
   }"

section \<open>The macro, without reentrant functions\<close>

definition JOB_GET_ENTRY2_worker_nr :: "('e job_entry \<Rightarrow> ('w netos, nat option) syscall option)
    \<Rightarrow> (nat option \<Rightarrow> 'w netos \<Rightarrow> (nat option \<times> 'w netos) option) \<Rightarrow> nat
    \<Rightarrow> ('e entry_x, 'w netos) cst \<Rightarrow> ('e entry_x, 'w netos) cst option" where
  "JOB_GET_ENTRY2_worker_nr func type_dup p s = do {
     job \<leftarrow> heap s p;
     call \<leftarrow> func job;
     let (entry, e, w) = call (c_errno s) (os s);
     s \<leftarrow> set_job p (\<lambda>j. j\<lparr>e_ptr := entry\<rparr>) (s\<lparr>c_errno := e, os := w\<rparr>);
     if entry = None then Some s else do {
       (entry, w) \<leftarrow> type_dup entry (os s);
       set_job p (\<lambda>j. j\<lparr>e_ptr := entry\<rparr>) (s\<lparr>os := w\<rparr>)
     }
   }"

definition JOB_GET_ENTRY2_result_nr :: "(cells \<Rightarrow> nat \<Rightarrow> 'e option) \<Rightarrow> (cells \<Rightarrow> 'e \<Rightarrow> caml_value option) \<Rightarrow> (nat option \<Rightarrow> 'w netos \<Rightarrow> 'w netos option) \<Rightarrow> nat
    \<Rightarrow> ('e entry_x, 'w netos) cst \<Rightarrow> (caml_value outcome \<times> ('e entry_x, 'w netos) cst) option" where
  "JOB_GET_ENTRY2_result_nr get_type alloc_type type_free p s = do {
     job \<leftarrow> heap s p;
     case e_ptr job of
       None \<Rightarrow> do { s \<leftarrow> free_job p s; Some (Raise Not_found, s) }
     | Some a \<Rightarrow> do {
         entry \<leftarrow> get_type (cells (os s)) a;
         res \<leftarrow> alloc_type (cells (os s)) entry;
         m \<leftarrow> type_free (Some a) (os s);
         free_and_return p res (s\<lparr>os := m\<rparr>)
       }
   }"

section \<open>The uses of the macro\<close>

definition worker_getprotobyname :: "(string \<Rightarrow> int) \<Rightarrow> (nat \<Rightarrow> cells \<Rightarrow> nat) \<Rightarrow> (char list \<Rightarrow> nat \<Rightarrow> ('w, int \<times> protoent \<times> nat option \<times> cells) syscall) \<Rightarrow> nat
    \<Rightarrow> (protoent entry_x, 'w netos) cst \<Rightarrow> (protoent entry_x, 'w netos) cst option" where
  "worker_getprotobyname K new getprotobyname_r = JOB_GET_ENTRY2_worker K new (\<lambda>job. map_option getprotobyname_r (job_path job))"

definition worker_getprotobynumber :: "(string \<Rightarrow> int) \<Rightarrow> (nat \<Rightarrow> cells \<Rightarrow> nat) \<Rightarrow> (int \<Rightarrow> nat \<Rightarrow> ('w, int \<times> protoent \<times> nat option \<times> cells) syscall) \<Rightarrow> nat
    \<Rightarrow> (protoent entry_x, 'w netos) cst \<Rightarrow> (protoent entry_x, 'w netos) cst option" where
  "worker_getprotobynumber K new getprotobynumber_r = JOB_GET_ENTRY2_worker K new (\<lambda>job. Some (getprotobynumber_r (e_num job)))"

definition worker_getservbyname :: "(string \<Rightarrow> int) \<Rightarrow> (nat \<Rightarrow> cells \<Rightarrow> nat) \<Rightarrow> (char list \<times> char list \<Rightarrow> nat \<Rightarrow> ('w, int \<times> servent \<times> nat option \<times> cells) syscall) \<Rightarrow> nat
    \<Rightarrow> (servent entry_x, 'w netos) cst \<Rightarrow> (servent entry_x, 'w netos) cst option" where
  "worker_getservbyname K new getservbyname_r = JOB_GET_ENTRY2_worker K new (\<lambda>job. do {
     name \<leftarrow> job_path job;
     proto \<leftarrow> cstr_at (j_data job) (e_proto job);
     Some (getservbyname_r (name, proto))
   })"

definition worker_getservbyport :: "(string \<Rightarrow> int) \<Rightarrow> (nat \<Rightarrow> cells \<Rightarrow> nat) \<Rightarrow> (int \<times> char list \<Rightarrow> nat \<Rightarrow> ('w, int \<times> servent \<times> nat option \<times> cells) syscall) \<Rightarrow> nat
    \<Rightarrow> (servent entry_x, 'w netos) cst \<Rightarrow> (servent entry_x, 'w netos) cst option" where
  "worker_getservbyport K new getservbyport_r = JOB_GET_ENTRY2_worker K new (\<lambda>job. do {
     proto \<leftarrow> job_path job;
     Some (getservbyport_r (e_num job, proto))
   })"

definition worker_getprotobyname_nr :: "libc \<Rightarrow> (char list \<Rightarrow> ('w netos, nat option) syscall) \<Rightarrow> nat
    \<Rightarrow> (protoent entry_x, 'w netos) cst \<Rightarrow> (protoent entry_x, 'w netos) cst option" where
  "worker_getprotobyname_nr L getprotobyname_c = JOB_GET_ENTRY2_worker_nr (\<lambda>job. map_option getprotobyname_c (job_path job)) (protoent_dup L)"

definition worker_getprotobynumber_nr :: "libc \<Rightarrow> (int \<Rightarrow> ('w netos, nat option) syscall) \<Rightarrow> nat
    \<Rightarrow> (protoent entry_x, 'w netos) cst \<Rightarrow> (protoent entry_x, 'w netos) cst option" where
  "worker_getprotobynumber_nr L getprotobynumber_c = JOB_GET_ENTRY2_worker_nr (\<lambda>job. Some (getprotobynumber_c (e_num job))) (protoent_dup L)"

definition worker_getservbyname_nr :: "libc \<Rightarrow> (char list \<times> char list \<Rightarrow> ('w netos, nat option) syscall) \<Rightarrow> nat
    \<Rightarrow> (servent entry_x, 'w netos) cst \<Rightarrow> (servent entry_x, 'w netos) cst option" where
  "worker_getservbyname_nr L getservbyname_c = JOB_GET_ENTRY2_worker_nr (\<lambda>job. do {
     name \<leftarrow> job_path job;
     proto \<leftarrow> cstr_at (j_data job) (e_proto job);
     Some (getservbyname_c (name, proto))
   }) (servent_dup L)"

definition worker_getservbyport_nr :: "libc \<Rightarrow> (int \<times> char list \<Rightarrow> ('w netos, nat option) syscall) \<Rightarrow> nat
    \<Rightarrow> (servent entry_x, 'w netos) cst \<Rightarrow> (servent entry_x, 'w netos) cst option" where
  "worker_getservbyport_nr L getservbyport_c = JOB_GET_ENTRY2_worker_nr (\<lambda>job. do {
     proto \<leftarrow> job_path job;
     Some (getservbyport_c (e_num job, proto))
   }) (servent_dup L)"

definition lwt_unix_getprotobyname_job :: "nat \<Rightarrow> job_getprotobyname \<times> (nat \<Rightarrow> char) \<Rightarrow> char list
    \<Rightarrow> (protoent entry_x, 'os) cst \<Rightarrow> (caml_value \<times> (protoent entry_x, 'os) cst) option" where
  "lwt_unix_getprotobyname_job a ug name s = do {
     s \<leftarrow> LWT_UNIX_INIT_JOB_STRING a ''getprotobyname'' 0 name ug s;
     lwt_unix_alloc_job a s
   }"

definition lwt_unix_getprotobynumber_job :: "nat \<Rightarrow> job_getprotobynumber \<Rightarrow> int
    \<Rightarrow> (protoent entry_x, 'os) cst \<Rightarrow> (caml_value \<times> (protoent entry_x, 'os) cst) option" where
  "lwt_unix_getprotobynumber_job a u num s = do {
     s \<leftarrow> LWT_UNIX_INIT_JOB a ''getprotobynumber'' u s;
     s \<leftarrow> set_job a (\<lambda>j. j\<lparr>e_num := c_int num\<rparr>) s;
     lwt_unix_alloc_job a s
   }"

definition lwt_unix_getservbyname_job :: "nat \<Rightarrow> job_getservbyname \<times> (nat \<Rightarrow> char) \<Rightarrow> char list \<Rightarrow> char list
    \<Rightarrow> (servent entry_x, 'os) cst \<Rightarrow> (caml_value \<times> (servent entry_x, 'os) cst) option" where
  "lwt_unix_getservbyname_job a ug name proto s = do {
     s \<leftarrow> LWT_UNIX_INIT_JOB_STRING2 a ''getservbyname'' 0 name proto (\<lambda>o' j. j\<lparr>e_proto := o'\<rparr>) ug s;
     lwt_unix_alloc_job a s
   }"

definition lwt_unix_getservbyport_job :: "nat \<Rightarrow> job_getservbyport \<times> (nat \<Rightarrow> char) \<Rightarrow> int \<Rightarrow> char list
    \<Rightarrow> (servent entry_x, 'os) cst \<Rightarrow> (caml_value \<times> (servent entry_x, 'os) cst) option" where
  "lwt_unix_getservbyport_job a ug port proto s = do {
     s \<leftarrow> LWT_UNIX_INIT_JOB_STRING a ''getservbyport'' 0 proto ug s;
     s \<leftarrow> set_job a (\<lambda>j. j\<lparr>e_num := htons (c_int port)\<rparr>) s;
     lwt_unix_alloc_job a s
   }"


section \<open>What libc does\<close>

text \<open>
  \<open>db key w\<close> is the entry for a key, with the number of bytes it needs in a buffer. A reentrant function stores it if it fits, and fails with
  \<^verbatim>\<open>ERANGE\<close> otherwise; \<open>means c e v\<close> says that the entry \<open>e\<close> with the strings in \<open>c\<close> is complete and stands for \<open>v\<close>.
\<close>

definition entry_r_ok :: "(string \<Rightarrow> int) \<Rightarrow> (cells \<Rightarrow> 'e \<Rightarrow> 'v \<Rightarrow> bool) \<Rightarrow> ('k \<Rightarrow> nat \<Rightarrow> ('w, int \<times> 'e \<times> nat option \<times> cells) syscall)
    \<Rightarrow> ('k \<Rightarrow> 'w \<Rightarrow> ('v \<times> nat) option) \<Rightarrow> bool" where
  "entry_r_ok K means call db \<longleftrightarrow> (\<forall>key n e w. case call key n e w of ((r, entry, ptr, content), _, w') \<Rightarrow> db key w' = db key w \<and>
     (case db key w of
        None \<Rightarrow> r \<noteq> K ''ERANGE'' \<and> (r = 0 \<longrightarrow> ptr = None)
      | Some (v, need) \<Rightarrow> if need \<le> n then r = 0 \<and> ptr \<noteq> None \<and> means content entry v else r = K ''ERANGE''))"

definition entry_static_ok :: "(cells \<Rightarrow> nat \<Rightarrow> 'e option) \<Rightarrow> (cells \<Rightarrow> 'e \<Rightarrow> 'v \<Rightarrow> bool) \<Rightarrow> ('k \<Rightarrow> ('w netos, nat option) syscall)
    \<Rightarrow> ('k \<Rightarrow> 'w netos \<Rightarrow> 'v option) \<Rightarrow> bool" where
  "entry_static_ok get_type means call db \<longleftrightarrow> (\<forall>key e w. case call key e w of (ptr, _, w') \<Rightarrow> (case db key w of
     None \<Rightarrow> ptr = None
   | Some v \<Rightarrow> (\<exists>a h. ptr = Some a \<and> get_type (cells w') a = Some h \<and> means (cells w') h v)))"

definition proto_means :: "cells \<Rightarrow> protoent \<Rightarrow> proto_data \<Rightarrow> bool" where
  "proto_means c e v \<longleftrightarrow> proto_view c e = Some v \<and> p_name e \<noteq> None \<and> p_aliases e \<noteq> None"

definition serv_means :: "cells \<Rightarrow> servent \<Rightarrow> serv_data \<Rightarrow> bool" where
  "serv_means c e v \<longleftrightarrow> serv_view c e = Some v \<and> s_name e \<noteq> None \<and> s_aliases e \<noteq> None \<and> s_proto e \<noteq> None"

definition entry_answer :: "('v \<Rightarrow> caml_value) \<Rightarrow> 'v option \<Rightarrow> caml_value outcome" where
  "entry_answer value_of r = (case r of None \<Rightarrow> Raise Not_found | Some v \<Rightarrow> Ret (value_of v))"

lemma entry_r_okD:
  assumes "entry_r_ok K means call db" and "call key n e w = ((r, entry, ptr, content), e', w')"
  shows "db key w' = db key w" "case db key w of
        None \<Rightarrow> r \<noteq> K ''ERANGE'' \<and> (r = 0 \<longrightarrow> ptr = None)
      | Some (v, need) \<Rightarrow> if need \<le> n then r = 0 \<and> ptr \<noteq> None \<and> means content entry v else r = K ''ERANGE''"
proof -
  have "case call key n e w of ((r, entry, ptr, content), _, w') \<Rightarrow> db key w' = db key w \<and>
     (case db key w of
        None \<Rightarrow> r \<noteq> K ''ERANGE'' \<and> (r = 0 \<longrightarrow> ptr = None)
      | Some (v, need) \<Rightarrow> if need \<le> n then r = 0 \<and> ptr \<noteq> None \<and> means content entry v else r = K ''ERANGE'')"
    by (rule assms(1) [unfolded entry_r_ok_def, THEN spec, THEN spec, THEN spec, THEN spec])
  with assms(2) show "db key w' = db key w" "case db key w of
        None \<Rightarrow> r \<noteq> K ''ERANGE'' \<and> (r = 0 \<longrightarrow> ptr = None)
      | Some (v, need) \<Rightarrow> if need \<le> n then r = 0 \<and> ptr \<noteq> None \<and> means content entry v else r = K ''ERANGE''" by simp_all
qed

lemma entry_static_okD:
  assumes "entry_static_ok get_type means call db" and "call key e w = (ptr, e', w')"
  shows "case db key w of None \<Rightarrow> ptr = None | Some v \<Rightarrow> (\<exists>a h. ptr = Some a \<and> get_type (cells w') a = Some h \<and> means (cells w') h v)"
proof -
  have "case call key e w of (ptr, _, w') \<Rightarrow> (case db key w of None \<Rightarrow> ptr = None
   | Some v \<Rightarrow> (\<exists>a h. ptr = Some a \<and> get_type (cells w') a = Some h \<and> means (cells w') h v))"
    by (rule assms(1) [unfolded entry_static_ok_def, THEN spec, THEN spec, THEN spec])
  with assms(2) show ?thesis by simp
qed

section \<open>The macro is correct\<close>

text \<open>
  The contract of the arguments of the macro: \<open>stub\<close> leaves a structure from which \<open>args\<close> reads the \<open>key\<close> to look up, which the worker's changes
  of the structure do not disturb, and \<^verbatim>\<open>alloc_TYPE\<close> converts complete entries.
\<close>

locale get_entry =
  fixes func :: string
    and stub :: "nat \<Rightarrow> 'u \<Rightarrow> ('e entry_x, 'w netos) cst \<Rightarrow> (caml_value \<times> ('e entry_x, 'w netos) cst) option"
    and args :: "'e job_entry \<Rightarrow> 'k option"
    and key :: 'k
    and alloc_type :: "cells \<Rightarrow> 'e \<Rightarrow> caml_value option"
    and means :: "cells \<Rightarrow> 'e \<Rightarrow> 'v \<Rightarrow> bool"
    and value_of :: "'v \<Rightarrow> caml_value"
  assumes stub_ready: "heap s a = None \<Longrightarrow> \<exists>j. stub a u s = Some (Caml_ptr (Some a), s\<lparr>heap := (heap s)(a \<mapsto> j)\<rparr>) \<and>
      worker_fn j = ''worker_'' @ func \<and> result_fn j = ''result_'' @ func \<and> args j = Some key"
    and args_started: "args (j\<lparr>async_method := am, job_mutex := mx\<rparr>) = args j"
    and args_updated: "args (j\<lparr>e_buffer := b, e_entry := x, e_ptr := q\<rparr>) = args j"
    and alloc_means: "means c e v \<Longrightarrow> alloc_type c e = Some (value_of v)"
begin

lemma loop_ends:
  assumes ok: "entry_r_ok K means call db" and "K ''ERANGE'' \<noteq> 0" and "heap s p = Some job" and "args job = Some key"
    and "\<forall>n. cells (os s) (new n (cells (os s))) = None" and "db key (world (os s)) = r"
  shows "\<exists>a n content entry ptr e w. JOB_GET_ENTRY2_loop K new (\<lambda>j. map_option call (args j)) p sz s =
      Some (s\<lparr>heap := (heap s)(p \<mapsto> job\<lparr>e_buffer := a, e_entry := entry, e_ptr := ptr\<rparr>), c_errno := e,
        os := (os s)\<lparr>cells := (cells (os s))(a \<mapsto> Buffer n content), world := w\<rparr>\<rparr>) \<and>
      cells (os s) a = None \<and> db key w = r \<and>
      (case r of None \<Rightarrow> ptr = None | Some (v, need) \<Rightarrow> ptr \<noteq> None \<and> alloc_type content entry = Some (value_of v))"
  using assms(3-)
proof (induction "(case r of None \<Rightarrow> 0 | Some (v, need) \<Rightarrow> need) - sz" arbitrary: sz s job rule: less_induct)
  case less
  let ?a = "new sz (cells (os s))"
  obtain result entry ptr content e w where c: "call key sz (c_errno s) (world (os s)) = ((result, entry, ptr, content), e, w)" by (metis prod_cases6 surj_pair)
  have fresh: "cells (os s) ?a = None" using less.prems(3) by blast
  have d: "db key w = r" using entry_r_okD(1) [OF ok c] less.prems(4) by simp
  note k = entry_r_okD(2) [OF ok c, unfolded less.prems(4)]
  have j: "args (job\<lparr>e_buffer := ?a\<rparr>) = Some key" "\<And>x q. args (job\<lparr>e_buffer := ?a, e_entry := x, e_ptr := q\<rparr>) = Some key"
    using args_updated [where j = job and b = ?a] args_updated [where j = job and b = ?a and x = "e_entry job" and q = "e_ptr job"] less.prems(2) by simp_all
  have step: "JOB_GET_ENTRY2_loop K new (\<lambda>j. map_option call (args j)) p sz s =
     (let s' = s\<lparr>heap := (heap s)(p \<mapsto> job\<lparr>e_buffer := ?a, e_entry := entry, e_ptr := ptr\<rparr>), c_errno := e,
        os := (os s)\<lparr>cells := (cells (os s))(?a \<mapsto> Buffer sz content), world := w\<rparr>\<rparr> in
     if result = 0 then Some s'
     else if result = K ''ERANGE'' then JOB_GET_ENTRY2_loop K new (\<lambda>j. map_option call (args j)) p (sz + 1024) (s'\<lparr>os := (os s)\<lparr>world := w\<rparr>\<rparr>)
     else set_job p (\<lambda>j. j\<lparr>e_ptr := None\<rparr>) s')"
    using less.prems(1) j(1) c fresh
    by (subst JOB_GET_ENTRY2_loop.simps) (cases s, cases "os s", simp add: Let_def free_cell_def fun_upd_idem)
  show ?case
  proof (cases "result = K ''ERANGE''")
    case True
    let ?s = "s\<lparr>heap := (heap s)(p \<mapsto> job\<lparr>e_buffer := ?a, e_entry := entry, e_ptr := ptr\<rparr>), c_errno := e, os := (os s)\<lparr>world := w\<rparr>\<rparr>"
    have "JOB_GET_ENTRY2_loop K new (\<lambda>j. map_option call (args j)) p sz s = JOB_GET_ENTRY2_loop K new (\<lambda>j. map_option call (args j)) p (sz + 1024) ?s"
      using step True assms(2) by (simp add: Let_def)
    moreover have "(case r of None \<Rightarrow> 0 | Some (v, need) \<Rightarrow> need) - (sz + 1024) < (case r of None \<Rightarrow> 0 | Some (v, need) \<Rightarrow> need) - sz"
      using k True assms(2) by (auto split: option.splits if_splits)
    note ih = less.hyps [OF this, of ?s "job\<lparr>e_buffer := ?a, e_entry := entry, e_ptr := ptr\<rparr>"]
    ultimately show ?thesis using ih j(2) less.prems(3) d by (cases s) (auto simp: Let_def)
  next
    case False
    let ?q = "if result = 0 then ptr else None"
    have "JOB_GET_ENTRY2_loop K new (\<lambda>j. map_option call (args j)) p sz s =
      Some (s\<lparr>heap := (heap s)(p \<mapsto> job\<lparr>e_buffer := ?a, e_entry := entry, e_ptr := ?q\<rparr>), c_errno := e,
        os := (os s)\<lparr>cells := (cells (os s))(?a \<mapsto> Buffer sz content), world := w\<rparr>\<rparr>)"
      using step False by (cases s) (simp add: Let_def)
    moreover have "case r of None \<Rightarrow> ?q = None | Some (v, need) \<Rightarrow> ?q \<noteq> None \<and> alloc_type content entry = Some (value_of v)"
      using k False alloc_means by (auto split: option.splits if_splits)
    ultimately show ?thesis using fresh d by blast
  qed
qed

text \<open>With reentrant functions: the entry, or \<^verbatim>\<open>Not_found\<close>; the memory is as before.\<close>

lemma run:
  assumes "entry_r_ok K means call db" and "K ''ERANGE'' \<noteq> 0" and "heap s a = None" and "\<forall>n. cells (os s) (new n (cells (os s))) = None"
  shows "\<exists>w. job_run am e' (stub a u) [''worker_'' @ func \<mapsto> JOB_GET_ENTRY2_worker K new (\<lambda>j. map_option call (args j))]
      [''result_'' @ func \<mapsto> JOB_GET_ENTRY2_result alloc_type] s =
    Some (entry_answer value_of (map_option fst (db key (world (os s)))), s\<lparr>c_errno := e', os := (os s)\<lparr>world := w\<rparr>\<rparr>) \<and> db key w = db key (world (os s))"
proof -
  obtain j where j: "stub a u s = Some (Caml_ptr (Some a), s\<lparr>heap := (heap s)(a \<mapsto> j)\<rparr>)" "worker_fn j = ''worker_'' @ func" "result_fn j = ''result_'' @ func" "args j = Some key"
    using stub_ready [OF assms(3), of u] by blast
  let ?j = "j\<lparr>async_method := am, job_mutex := start_mutex am j\<rparr>" let ?s = "s\<lparr>heap := (heap s)(a \<mapsto> ?j)\<rparr>"
  obtain b n content entry ptr e w where l: "JOB_GET_ENTRY2_loop K new (\<lambda>j. map_option call (args j)) a 1024 ?s =
      Some (?s\<lparr>heap := (heap ?s)(a \<mapsto> ?j\<lparr>e_buffer := b, e_entry := entry, e_ptr := ptr\<rparr>), c_errno := e,
        os := (os ?s)\<lparr>cells := (cells (os ?s))(b \<mapsto> Buffer n content), world := w\<rparr>\<rparr>)" "cells (os ?s) b = None" "db key w = db key (world (os s))"
      "case db key (world (os s)) of None \<Rightarrow> ptr = None | Some (v, need) \<Rightarrow> ptr \<noteq> None \<and> alloc_type content entry = Some (value_of v)"
    using loop_ends [OF assms(1,2), of ?s a ?j new, OF _ _ _ refl, of 1024] args_started j(4) assms(4) by auto
  let ?k = "?j\<lparr>e_buffer := b, e_entry := entry, e_ptr := ptr\<rparr>"
  have "job_run am e' (stub a u) [''worker_'' @ func \<mapsto> JOB_GET_ENTRY2_worker K new (\<lambda>j. map_option call (args j))]
      [''result_'' @ func \<mapsto> JOB_GET_ENTRY2_result alloc_type] s =
      JOB_GET_ENTRY2_result alloc_type a (s\<lparr>heap := (heap s)(a \<mapsto> ?k), os := (os s)\<lparr>cells := (cells (os s))(b \<mapsto> Buffer n content), world := w\<rparr>, c_errno := e'\<rparr>)"
    using j l(1) by (simp add: job_run_def JOB_GET_ENTRY2_worker_def flip: start_mutex_def)
  moreover have "freeable ?k" by (rule freeable_started) simp_all
  ultimately show ?thesis using l(2-4) assms(3)
    by (cases s; cases "os s") (auto simp: JOB_GET_ENTRY2_result_def free_cell_def get_buffer_def entry_answer_def free_and_return_def fun_upd_idem split: option.splits)
qed

end

text \<open>
  Without reentrant functions, the macro also needs the functions that read, copy and free an entry.
\<close>

locale get_entry_nr = get_entry func stub args key alloc_type means value_of
  for func :: string
    and stub :: "nat \<Rightarrow> 'u \<Rightarrow> ('e entry_x, 'w netos) cst \<Rightarrow> (caml_value \<times> ('e entry_x, 'w netos) cst) option"
    and args :: "'e job_entry \<Rightarrow> 'k option" and key :: 'k and alloc_type :: "cells \<Rightarrow> 'e \<Rightarrow> caml_value option"
    and means :: "cells \<Rightarrow> 'e \<Rightarrow> 'v \<Rightarrow> bool" and value_of :: "'v \<Rightarrow> caml_value" +
  fixes get_type :: "cells \<Rightarrow> nat \<Rightarrow> 'e option"
    and type_dup :: "libc \<Rightarrow> nat option \<Rightarrow> 'w netos \<Rightarrow> (nat option \<times> 'w netos) option"
    and type_free :: "nat option \<Rightarrow> 'w netos \<Rightarrow> 'w netos option"
  assumes dup_copies: "alloc_fresh L \<Longrightarrow> get_type (cells m) a = Some e \<Longrightarrow> means (cells m) e v \<Longrightarrow>
    allocates L m (type_dup L (Some a) m) (\<lambda>b S c. owns (type_free (Some b)) S c \<and> (\<exists>e'. get_type c b = Some e' \<and> means c e' v))"
begin

lemma run_nr:
  assumes "entry_static_ok get_type means call db" and "alloc_fresh L" and "heap s a = None" and c: "call key (c_errno s) (os s) = (ptr, e, w)"
  shows "\<exists>ans w'. job_run am e' (stub a u) [''worker_'' @ func \<mapsto> JOB_GET_ENTRY2_worker_nr (\<lambda>j. map_option call (args j)) (type_dup L)]
      [''result_'' @ func \<mapsto> JOB_GET_ENTRY2_result_nr get_type alloc_type type_free] s = Some (ans, s\<lparr>c_errno := e', os := w'\<rparr>) \<and>
    cells w' = cells w \<and> world w' = world w \<and> (ans = entry_answer value_of (db key (os s)) \<or> ans = Raise Not_found \<and> \<not> reliable L)"
proof -
  obtain j where j: "stub a u s = Some (Caml_ptr (Some a), s\<lparr>heap := (heap s)(a \<mapsto> j)\<rparr>)" "worker_fn j = ''worker_'' @ func" "result_fn j = ''result_'' @ func" "args j = Some key"
    using stub_ready [OF assms(3), of u] by blast
  let ?j = "j\<lparr>async_method := am, job_mutex := start_mutex am j\<rparr>"
  have a: "args ?j = Some key" using args_started j(4) by simp
  have f: "freeable (?j\<lparr>e_ptr := q\<rparr>)" for q by (rule freeable_started) simp_all
  note defs = job_run_def JOB_GET_ENTRY2_worker_nr_def JOB_GET_ENTRY2_result_nr_def entry_answer_def free_and_return_def fun_upd_idem
  note ok = entry_static_okD [OF assms(1) c]
  show ?thesis
  proof (cases "db key (os s)")
    case None
    with ok j a f c assms(3) show ?thesis by (cases s) (auto simp: defs simp flip: start_mutex_def)
  next
    case (Some v)
    with ok obtain b h where b: "ptr = Some b" "get_type (cells w) b = Some h" "means (cells w) h v" by auto
    from dup_copies [OF assms(2) b(2,3)] show ?thesis
    proof (cases rule: allocatesE)
      case (fails m)
      with b j a f c assms(3) show ?thesis by (cases s) (auto simp: defs simp flip: start_mutex_def)
    next
      case (succeeds b' S m)
      then obtain h' where h: "get_type (cells m) b' = Some h'" "alloc_type (cells m) h' = Some (value_of v)"
        "type_free (Some b') m = Some (m\<lparr>cells := cells m |` (- S)\<rparr>)" using alloc_means owns_free by blast
      with succeeds b j a f c assms(3) Some frame_restore [OF succeeds(2)] show ?thesis
        by (cases s) (auto simp: defs frame_def simp flip: start_mutex_def)
    qed
  qed
qed

end


section \<open>The four jobs\<close>

text \<open>A null pointer in an entry shows in its meaning, so copies of complete entries are complete.\<close>

lemma array_view_null: "array_view f c q = Some v \<Longrightarrow> q = None \<longleftrightarrow> v = None"
  by (cases q) (auto simp: array_view_def bind_Some_iff)

lemma protoent_dup_means:
  fixes m :: "'w netos"
  assumes "alloc_fresh L" and "get_protoent (cells m) a = Some e" and "proto_means (cells m) e v"
  shows "allocates L m (protoent_dup L (Some a) m)
    (\<lambda>b S c. owns (protoent_free (Some b) :: 'w netos \<Rightarrow> 'w netos option) S c \<and> (\<exists>e'. get_protoent c b = Some e' \<and> proto_means c e' v))"
proof -
  have e: "cells m a = Some (Protoent e)" "proto_view (cells m) e = Some v" using assms(2,3) by (auto simp: get_protoent_def proto_means_def split: option.splits cell.splits)
  obtain n x i where v: "v = (n, Some x, i)" using assms(3) by (auto simp: proto_means_def proto_view_def bind_Some_iff dest: array_view_null)
  have "p_aliases e' \<noteq> None" if "proto_view c e' = Some v" for c e' using that v by (auto simp: proto_view_def bind_Some_iff dest: array_view_null)
  then show ?thesis by (intro allocates_mono [OF protoent_dup_copies [OF assms(1) e]]) (auto simp: proto_copy_def get_protoent_def proto_means_def)
qed

lemma servent_dup_means:
  fixes m :: "'w netos"
  assumes "alloc_fresh L" and "get_servent (cells m) a = Some e" and "serv_means (cells m) e v"
  shows "allocates L m (servent_dup L (Some a) m)
    (\<lambda>b S c. owns (servent_free (Some b) :: 'w netos \<Rightarrow> 'w netos option) S c \<and> (\<exists>e'. get_servent c b = Some e' \<and> serv_means c e' v))"
proof -
  have e: "cells m a = Some (Servent e)" "serv_view (cells m) e = Some v" using assms(2,3) by (auto simp: get_servent_def serv_means_def split: option.splits cell.splits)
  obtain n x i q where v: "v = (n, Some x, i, q)" using assms(3) by (auto simp: serv_means_def serv_view_def bind_Some_iff dest: array_view_null)
  have "s_aliases e' \<noteq> None" if "serv_view c e' = Some v" for c e' using that v by (auto simp: serv_view_def bind_Some_iff dest: array_view_null)
  then show ?thesis by (intro allocates_mono [OF servent_dup_copies [OF assms(1) e]]) (auto simp: serv_copy_def get_servent_def serv_means_def)
qed

text \<open>The keys that the four jobs look up.\<close>

definition serv_args :: "'e job_entry \<Rightarrow> (char list \<times> char list) option" where
  "serv_args job = do { name \<leftarrow> job_path job; proto \<leftarrow> cstr_at (j_data job) (e_proto job); Some (name, proto) }"

definition port_args :: "'e job_entry \<Rightarrow> (int \<times> char list) option" where
  "port_args job = do { proto \<leftarrow> job_path job; Some (e_num job, proto) }"

lemma init_job_string2_ready:
  assumes "heap s a = None"
  shows "\<exists>j. lwt_unix_getservbyname_job a ug name proto s = Some (Caml_ptr (Some a), s\<lparr>heap := (heap s)(a \<mapsto> j)\<rparr>) \<and>
      worker_fn j = ''worker_getservbyname'' \<and> result_fn j = ''result_getservbyname'' \<and> serv_args j = Some (cstring name, cstring proto)"
proof -
  obtain d1 d2 where d: "write_at (uninit (snd ug) (length name + length proto + 2)) 0 (caml_bytes name) = Some d1" "write_at d1 (length name + 1) (caml_bytes proto) = Some d2"
    "cstr_at d2 0 = Some (cstring name)" "cstr_at d2 (length name + 1) = Some (cstring proto)"
    using two_strings [of "uninit (snd ug) (length name + length proto + 2)" name proto] by auto
  then show ?thesis using assms
    by (simp add: lwt_unix_getservbyname_job_def LWT_UNIX_INIT_JOB_STRING2_def lwt_unix_alloc_job_def Let_def serv_args_def job_path_def)
qed

lemma alloc_proto_means: "proto_means c e v \<Longrightarrow> alloc_protoent c e = Some (proto_value v)"
  by (simp add: proto_means_def alloc_protoent_view)

lemma alloc_serv_means: "serv_means c e v \<Longrightarrow> alloc_servent c e = Some (serv_value v)"
  by (simp add: serv_means_def alloc_servent_view)

lemma job_path_entry: "job_path (j\<lparr>e_buffer := b, e_entry := x, e_ptr := q\<rparr>) = job_path j" "job_path (j\<lparr>e_num := i\<rparr>) = job_path j"
  by (simp_all add: job_path_def)

lemmas entry_stubs = lwt_unix_getprotobyname_job_def lwt_unix_getprotobynumber_job_def lwt_unix_getservbyport_job_def lwt_unix_alloc_job_def job_path_entry

interpretation getprotobyname: get_entry_nr "''getprotobyname''" "\<lambda>a ug. lwt_unix_getprotobyname_job a ug name" job_path "cstring name"
    alloc_protoent proto_means proto_value get_protoent protoent_dup protoent_free for name
  by unfold_locales (simp_all add: entry_stubs alloc_proto_means protoent_dup_means)

interpretation getprotobynumber: get_entry_nr "''getprotobynumber''" "\<lambda>a u. lwt_unix_getprotobynumber_job a u num" "\<lambda>job. Some (e_num job)" "c_int num"
    alloc_protoent proto_means proto_value get_protoent protoent_dup protoent_free for num
  by unfold_locales (simp_all add: entry_stubs alloc_proto_means protoent_dup_means)

interpretation getservbyname: get_entry_nr "''getservbyname''" "\<lambda>a ug. lwt_unix_getservbyname_job a ug name proto" serv_args "(cstring name, cstring proto)"
    alloc_servent serv_means serv_value get_servent servent_dup servent_free for name proto
  by unfold_locales (simp_all add: init_job_string2_ready, simp_all add: serv_args_def job_path_entry alloc_serv_means servent_dup_means)

interpretation getservbyport: get_entry_nr "''getservbyport''" "\<lambda>a ug. lwt_unix_getservbyport_job a ug port proto" port_args "(htons (c_int port), cstring proto)"
    alloc_servent serv_means serv_value get_servent servent_dup servent_free for port proto
  by unfold_locales (simp_all add: port_args_def entry_stubs alloc_serv_means servent_dup_means)


section \<open>Properties\<close>

definition entry_r_spec :: "('v \<Rightarrow> caml_value) \<Rightarrow> ('v \<times> nat) option \<Rightarrow> int \<Rightarrow> ('x, 'w netos) cst \<Rightarrow> (caml_value outcome \<times> ('x, 'w netos) cst) option \<Rightarrow> bool" where
  "entry_r_spec value_of r e' s res \<longleftrightarrow> (\<exists>w. res = Some (entry_answer value_of (map_option fst r), s\<lparr>c_errno := e', os := (os s)\<lparr>world := w\<rparr>\<rparr>))"

definition entry_nr_spec :: "('v \<Rightarrow> caml_value) \<Rightarrow> libc \<Rightarrow> ('w netos, nat option) syscall \<Rightarrow> 'v option \<Rightarrow> int \<Rightarrow> ('x, 'w netos) cst
    \<Rightarrow> (caml_value outcome \<times> ('x, 'w netos) cst) option \<Rightarrow> bool" where
  "entry_nr_spec value_of L call r e' s res \<longleftrightarrow> (case call (c_errno s) (os s) of (_, _, w) \<Rightarrow>
     \<exists>ans w'. res = Some (ans, s\<lparr>c_errno := e', os := w'\<rparr>) \<and> cells w' = cells w \<and> world w' = world w \<and>
       (ans = entry_answer value_of r \<or> ans = Raise Not_found \<and> \<not> reliable L))"

lemma macro_calls:
  "(\<lambda>job. do { name \<leftarrow> job_path job; proto \<leftarrow> cstr_at (j_data job) (e_proto job); Some (f (name, proto)) }) = (\<lambda>j. map_option f (serv_args j))"
  "(\<lambda>job. do { proto \<leftarrow> job_path job; Some (g (e_num job, proto)) }) = (\<lambda>j. map_option g (port_args j))"
  "(\<lambda>job. Some (h (e_num job))) = (\<lambda>j. map_option h (Some (e_num j)))"
  by (auto simp: serv_args_def port_args_def fun_eq_iff split: bind_splits)

lemmas macro_uses = worker_getprotobyname_def worker_getprotobynumber_def worker_getservbyname_def worker_getservbyport_def
  worker_getprotobyname_nr_def worker_getprotobynumber_nr_def worker_getservbyname_nr_def worker_getservbyport_nr_def

lemma entry_r_runs:
  assumes "heap s a = None" and "heap t a = None" and "K ''ERANGE'' \<noteq> 0"
    and "\<forall>n. cells (os s) (new n (cells (os s))) = None" and "\<forall>n. cells (os t) (new n (cells (os t))) = None"
    and "entry_r_ok K proto_means byname db1" and "entry_r_ok K proto_means bynumber db2"
    and "entry_r_ok K serv_means sbyname db3" and "entry_r_ok K serv_means byport db4"
  shows
    "entry_r_spec proto_value (db1 (cstring name) (world (os s))) e s (job_run am e (lwt_unix_getprotobyname_job a ug name)
       [''worker_getprotobyname'' \<mapsto> worker_getprotobyname K new byname] [''result_getprotobyname'' \<mapsto> JOB_GET_ENTRY2_result alloc_protoent] s)"
    "entry_r_spec proto_value (db2 (c_int num) (world (os s))) e s (job_run am e (lwt_unix_getprotobynumber_job a u num)
       [''worker_getprotobynumber'' \<mapsto> worker_getprotobynumber K new bynumber] [''result_getprotobynumber'' \<mapsto> JOB_GET_ENTRY2_result alloc_protoent] s)"
    "entry_r_spec serv_value (db3 (cstring name, cstring proto) (world (os t))) e t (job_run am e (lwt_unix_getservbyname_job a vg name proto)
       [''worker_getservbyname'' \<mapsto> worker_getservbyname K new sbyname] [''result_getservbyname'' \<mapsto> JOB_GET_ENTRY2_result alloc_servent] t)"
    "entry_r_spec serv_value (db4 (htons (c_int num), cstring proto) (world (os t))) e t (job_run am e (lwt_unix_getservbyport_job a vg num proto)
       [''worker_getservbyport'' \<mapsto> worker_getservbyport K new byport] [''result_getservbyport'' \<mapsto> JOB_GET_ENTRY2_result alloc_servent] t)"
  unfolding entry_r_spec_def macro_uses macro_calls
  subgoal using getprotobyname.run [where new = new and s = s and u = ug and am = am and e' = e and name = name, OF assms(6,3,1,4)] by auto
  subgoal using getprotobynumber.run [where new = new and s = s and u = u and am = am and e' = e and num = num, OF assms(7,3,1,4)] by auto
  subgoal using getservbyname.run [where new = new and s = t and u = vg and am = am and e' = e and name = name and proto = proto, OF assms(8,3,2,5)] by auto
  subgoal using getservbyport.run [where new = new and s = t and u = vg and am = am and e' = e and port = num and proto = proto, OF assms(9,3,2,5)] by auto
  done

lemma entry_nr_runs:
  assumes "heap s a = None" and "heap t a = None" and "alloc_fresh L"
    and "entry_static_ok get_protoent proto_means byname db1" and "entry_static_ok get_protoent proto_means bynumber db2"
    and "entry_static_ok get_servent serv_means sbyname db3" and "entry_static_ok get_servent serv_means byport db4"
  shows
    "entry_nr_spec proto_value L (byname (cstring name)) (db1 (cstring name) (os s)) e s (job_run am e (lwt_unix_getprotobyname_job a ug name)
       [''worker_getprotobyname'' \<mapsto> worker_getprotobyname_nr L byname]
       [''result_getprotobyname'' \<mapsto> JOB_GET_ENTRY2_result_nr get_protoent alloc_protoent protoent_free] s)"
    "entry_nr_spec proto_value L (bynumber (c_int num)) (db2 (c_int num) (os s)) e s (job_run am e (lwt_unix_getprotobynumber_job a u num)
       [''worker_getprotobynumber'' \<mapsto> worker_getprotobynumber_nr L bynumber]
       [''result_getprotobynumber'' \<mapsto> JOB_GET_ENTRY2_result_nr get_protoent alloc_protoent protoent_free] s)"
    "entry_nr_spec serv_value L (sbyname (cstring name, cstring proto)) (db3 (cstring name, cstring proto) (os t)) e t (job_run am e (lwt_unix_getservbyname_job a vg name proto)
       [''worker_getservbyname'' \<mapsto> worker_getservbyname_nr L sbyname]
       [''result_getservbyname'' \<mapsto> JOB_GET_ENTRY2_result_nr get_servent alloc_servent servent_free] t)"
    "entry_nr_spec serv_value L (byport (htons (c_int num), cstring proto)) (db4 (htons (c_int num), cstring proto) (os t)) e t (job_run am e (lwt_unix_getservbyport_job a vg num proto)
       [''worker_getservbyport'' \<mapsto> worker_getservbyport_nr L byport]
       [''result_getservbyport'' \<mapsto> JOB_GET_ENTRY2_result_nr get_servent alloc_servent servent_free] t)"
  unfolding entry_nr_spec_def macro_uses macro_calls
  subgoal using getprotobyname.run_nr [where u = ug and am = am and e' = e and name = name, OF assms(4,3,1)] by (auto split: prod.split)
  subgoal using getprotobynumber.run_nr [where u = u and am = am and e' = e and num = num, OF assms(5,3,1)] by (auto split: prod.split)
  subgoal using getservbyname.run_nr [where u = vg and am = am and e' = e and name = name and proto = proto, OF assms(6,3,2)] by (auto split: prod.split)
  subgoal using getservbyport.run_nr [where u = vg and am = am and e' = e and port = num and proto = proto, OF assms(7,3,2)] by (auto split: prod.split)
  done

lemma ntohs_htons: "0 \<le> i \<Longrightarrow> i < 2 ^ 16 \<Longrightarrow> ntohs (htons i) = i"
  by (simp add: ntohs_def htons_def take_bit_eq_mod drop_bit_eq_div push_bit_eq_mult)


definition demo_entry_job :: "'e \<Rightarrow> 'e job_entry" where
  "demo_entry_job x = \<lparr>next_job = None, notification_id = 0, worker_fn = [], result_fn = [], job_state = LWT_UNIX_JOB_STATE_DONE,
     fast = 5, job_mutex = Mutex_held, async_method = LWT_UNIX_ASYNC_METHOD_SWITCH, j_result = 1, j_error_code = 2, j_path = 3, j_data = [],
     e_entry = x, e_ptr = Some 5, e_buffer = 6, e_num = 7, e_proto = 8\<rparr>"

definition demo_entries :: "('x, unit netos) cst" where
  "demo_entries = \<lparr>heap = Map.empty, blocks = Map.empty, bufs = Map.empty, roots = [], c_errno = 0, os = demo_netos\<rparr>"

text \<open>A service that needs 3000 bytes, found by every key, and functions of libc that find nothing.\<close>

definition demo_serv_r :: "'k \<Rightarrow> nat \<Rightarrow> (unit, int \<times> servent \<times> nat option \<times> cells) syscall" where
  "demo_serv_r key n e w = ((if 3000 \<le> n then 0 else 34, demo_servent, Some 1, demo_cells), e, w)"

definition demo_proto_r :: "'k \<Rightarrow> nat \<Rightarrow> (unit, int \<times> protoent \<times> nat option \<times> cells) syscall" where
  "demo_proto_r key n e w = ((2, demo_protoent, None, Map.empty), e, w)"

lemma demo_entry_r_ok:
  "entry_r_ok (\<lambda>_. 34) serv_means demo_serv_r (\<lambda>_ _. Some ((''h'', Some [''a''], 20480, ''a''), 3000))"
  "entry_r_ok (\<lambda>_. 34) proto_means demo_proto_r (\<lambda>_ _. None)"
  "entry_static_ok get_type means (\<lambda>_ e w. (None, e, w)) (\<lambda>_ _. None)"
proof -
  have "serv_means demo_cells demo_servent (''h'', Some [''a''], 20480, ''a'')" unfolding serv_means_def demo_views by (simp add: demo_servent_def)
  then show "entry_r_ok (\<lambda>_. 34) serv_means demo_serv_r (\<lambda>_ _. Some ((''h'', Some [''a''], 20480, ''a''), 3000))"
    by (auto simp: entry_r_ok_def demo_serv_r_def)
  show "entry_r_ok (\<lambda>_. 34) proto_means demo_proto_r (\<lambda>_ _. None)" "entry_static_ok get_type means (\<lambda>_ e w. (None, e, w)) (\<lambda>_ _. None)"
    by (auto simp: entry_r_ok_def entry_static_ok_def demo_proto_r_def)
qed

text \<open>
  C27. Looking up protocols and services. For each of the four jobs, with the reentrant functions, the loop that enlarges the buffer ends for
  an entry of any size, and OCaml gets the entry or \<^verbatim>\<open>Not_found\<close>; the buffers are all freed. Without them OCaml gets the entry, or \<^verbatim>\<open>Not_found\<close> if there
  is none or memory runs out, and the copy is freed. Names and protocols are passed intact, also when there are two, and a port is passed in network byte order, from
  which the conversion of entries restores it.
\<close>

theorem entry_jobs_correct:
  assumes "heap s a = None" and "heap t a = None" and "K ''ERANGE'' \<noteq> 0" and "alloc_fresh L"
    and "\<forall>n. cells (os s) (new n (cells (os s))) = None" and "\<forall>n. cells (os t) (new n (cells (os t))) = None"
    and "entry_r_ok K proto_means byname db1" and "entry_r_ok K proto_means bynumber db2"
    and "entry_r_ok K serv_means sbyname db3" and "entry_r_ok K serv_means byport db4"
    and "entry_static_ok get_protoent proto_means byname_c sdb1" and "entry_static_ok get_protoent proto_means bynumber_c sdb2"
    and "entry_static_ok get_servent serv_means sbyname_c sdb3" and "entry_static_ok get_servent serv_means byport_c sdb4"
  shows
    "entry_r_spec proto_value (db1 (cstring name) (world (os s))) e s (job_run am e (lwt_unix_getprotobyname_job a ug name)
       [''worker_getprotobyname'' \<mapsto> worker_getprotobyname K new byname] [''result_getprotobyname'' \<mapsto> JOB_GET_ENTRY2_result alloc_protoent] s) \<and>
     entry_r_spec proto_value (db2 (c_int num) (world (os s))) e s (job_run am e (lwt_unix_getprotobynumber_job a u num)
       [''worker_getprotobynumber'' \<mapsto> worker_getprotobynumber K new bynumber] [''result_getprotobynumber'' \<mapsto> JOB_GET_ENTRY2_result alloc_protoent] s) \<and>
     entry_r_spec serv_value (db3 (cstring name, cstring proto) (world (os t))) e t (job_run am e (lwt_unix_getservbyname_job a vg name proto)
       [''worker_getservbyname'' \<mapsto> worker_getservbyname K new sbyname] [''result_getservbyname'' \<mapsto> JOB_GET_ENTRY2_result alloc_servent] t) \<and>
     entry_r_spec serv_value (db4 (htons (c_int num), cstring proto) (world (os t))) e t (job_run am e (lwt_unix_getservbyport_job a vg num proto)
       [''worker_getservbyport'' \<mapsto> worker_getservbyport K new byport] [''result_getservbyport'' \<mapsto> JOB_GET_ENTRY2_result alloc_servent] t) \<and>
     entry_nr_spec proto_value L (byname_c (cstring name)) (sdb1 (cstring name) (os s)) e s (job_run am e (lwt_unix_getprotobyname_job a ug name)
       [''worker_getprotobyname'' \<mapsto> worker_getprotobyname_nr L byname_c]
       [''result_getprotobyname'' \<mapsto> JOB_GET_ENTRY2_result_nr get_protoent alloc_protoent protoent_free] s) \<and>
     entry_nr_spec proto_value L (bynumber_c (c_int num)) (sdb2 (c_int num) (os s)) e s (job_run am e (lwt_unix_getprotobynumber_job a u num)
       [''worker_getprotobynumber'' \<mapsto> worker_getprotobynumber_nr L bynumber_c]
       [''result_getprotobynumber'' \<mapsto> JOB_GET_ENTRY2_result_nr get_protoent alloc_protoent protoent_free] s) \<and>
     entry_nr_spec serv_value L (sbyname_c (cstring name, cstring proto)) (sdb3 (cstring name, cstring proto) (os t)) e t (job_run am e (lwt_unix_getservbyname_job a vg name proto)
       [''worker_getservbyname'' \<mapsto> worker_getservbyname_nr L sbyname_c]
       [''result_getservbyname'' \<mapsto> JOB_GET_ENTRY2_result_nr get_servent alloc_servent servent_free] t) \<and>
     entry_nr_spec serv_value L (byport_c (htons (c_int num), cstring proto)) (sdb4 (htons (c_int num), cstring proto) (os t)) e t (job_run am e (lwt_unix_getservbyport_job a vg num proto)
       [''worker_getservbyport'' \<mapsto> worker_getservbyport_nr L byport_c]
       [''result_getservbyport'' \<mapsto> JOB_GET_ENTRY2_result_nr get_servent alloc_servent servent_free] t) \<and>
     (0 \<le> num \<and> num < 2 ^ 16 \<longrightarrow> ntohs (htons (c_int num)) = num)"
  using entry_r_runs [where new = new and s = s and t = t, OF assms(1-3,5-10)] entry_nr_runs [OF assms(1,2,4,11-14)]
  by (simp add: ntohs_htons c_int_id)

theorem entry_jobs_correct_witness:
  "\<exists>w. job_run LWT_UNIX_ASYNC_METHOD_DETACH 0 (lwt_unix_getservbyname_job 1 (demo_entry_job demo_servent, \<lambda>_. NUL) ''h'' ''a'')
      [''worker_getservbyname'' \<mapsto> worker_getservbyname (\<lambda>_. 34) (\<lambda>n c. 200) demo_serv_r] [''result_getservbyname'' \<mapsto> JOB_GET_ENTRY2_result alloc_servent] demo_entries =
    Some (Ret (Block 0 [Caml_string ''h'', Block 0 [Caml_string ''a''], Imm 80, Caml_string ''a'']), demo_entries\<lparr>os := demo_netos\<lparr>world := w\<rparr>\<rparr>)"
proof -
  have h: "heap demo_entries 1 = None" "\<forall>n. cells (os demo_entries) ((\<lambda>n c. 200) n (cells (os demo_entries))) = None" "(\<lambda>_. 34 :: int) ''ERANGE'' \<noteq> 0"
    by (simp_all add: demo_entries_def demo_netos_def demo_cells_def)
  note r = entry_jobs_correct [where new = "\<lambda>n c. 200" and s = demo_entries and t = demo_entries and am = LWT_UNIX_ASYNC_METHOD_DETACH and e = 0 and
      vg = "(demo_entry_job demo_servent, \<lambda>_. NUL)" and name = "''h''" and proto = "''a''", OF h(1) h(1) h(3) demo_libc_fresh h(2) h(2)
      demo_entry_r_ok(2) demo_entry_r_ok(2) demo_entry_r_ok(1) demo_entry_r_ok(1) demo_entry_r_ok(3) demo_entry_r_ok(3) demo_entry_r_ok(3) demo_entry_r_ok(3)]
  have "serv_value (''h'', Some [''a''], 20480, ''a'') = Block 0 [Caml_string ''h'', Block 0 [Caml_string ''a''], Imm 80, Caml_string ''a'']"
    by (simp add: serv_value_def strings_value_def ntohs_def take_bit_eq_mod drop_bit_eq_div push_bit_eq_mult Val_int_def caml_int_id)
  then show ?thesis using r [THEN conjunct2, THEN conjunct2, THEN conjunct1] by (simp add: entry_r_spec_def entry_answer_def demo_entries_def)
qed

end
