(* ===== verification/User_Jobs.thy ===== *)
theory User_Jobs
  imports Entry_Jobs
begin

text \<open>
  \<^verbatim>\<open>unix_get_pw_gr_nam_id_job.c\<close>: the four jobs \<^verbatim>\<open>getpwnam\<close>, \<^verbatim>\<open>getgrnam\<close>, \<^verbatim>\<open>getpwuid\<close> and \<^verbatim>\<open>getgrgid\<close>, made by the macro \<^verbatim>\<open>JOB_GET_ENTRY\<close>.

  As for the network databases, the macro is a group of functions with its arguments as arguments, and it is proved correct once, in the locale
  \<open>get_user\<close>. The structure \<open>job_user\<close> has the fields of the structures that the macro defines: \<open>j_path\<close> is \<^verbatim>\<open>name\<close>, \<open>u_id\<close> is \<^verbatim>\<open>uid\<close> or \<^verbatim>\<open>gid\<close>, and
  \<open>j_result\<close> is \<^verbatim>\<open>result\<close>; \<open>j_error_code\<close> is not used. Pointers in an entry are offsets in the buffer.
\<close>

section \<open>Entries\<close>

record passwd =
  pw_name :: nat
  pw_passwd :: nat
  pw_uid :: int
  pw_gid :: int
  pw_gecos :: nat
  pw_dir :: nat
  pw_shell :: nat

record grp =
  gr_name :: nat
  gr_passwd :: nat
  gr_gid :: int
  gr_mem :: nat

definition alloc_passwd_entry :: "cells \<Rightarrow> passwd \<Rightarrow> caml_value option" where
  "alloc_passwd_entry c entry = do {
     name \<leftarrow> copy_c_string c (pw_name entry);
     passwd \<leftarrow> copy_c_string c (pw_passwd entry);
     gecos \<leftarrow> copy_c_string c (pw_gecos entry);
     dir \<leftarrow> copy_c_string c (pw_dir entry);
     shell \<leftarrow> copy_c_string c (pw_shell entry);
     Some (Block 0 [name, passwd, Val_int (pw_uid entry), Val_int (pw_gid entry), gecos, dir, shell])
   }"

definition alloc_group_entry :: "cells \<Rightarrow> grp \<Rightarrow> caml_value option" where
  "alloc_group_entry c entry = do {
     name \<leftarrow> copy_c_string c (gr_name entry);
     pass \<leftarrow> copy_c_string c (gr_passwd entry);
     mem \<leftarrow> caml_copy_string_array c (gr_mem entry);
     Some (Block 0 [name, pass, Val_int (gr_gid entry), mem])
   }"

section \<open>The macro\<close>

record 'e job_user = path_job +
  u_entry :: 'e
  u_ptr :: "nat option"
  u_buffer :: nat
  u_id :: int

type_synonym job_getpwnam = "passwd job_user"
type_synonym job_getpwuid = "passwd job_user"
type_synonym job_getgrnam = "grp job_user"
type_synonym job_getgrgid = "grp job_user"

type_synonym 'e user_x = "('e, unit) job_user_ext path_x"

text \<open>The loop. Sizes have type \<^verbatim>\<open>size_t\<close>.\<close>

partial_function (option) JOB_GET_ENTRY_loop :: "(string \<Rightarrow> int) \<Rightarrow> (nat \<Rightarrow> cells \<Rightarrow> nat)
    \<Rightarrow> ('e job_user \<Rightarrow> (nat \<Rightarrow> ('w, int \<times> 'e \<times> nat option \<times> cells) syscall) option) \<Rightarrow> nat \<Rightarrow> nat
    \<Rightarrow> ('e user_x, 'w netos) cst \<Rightarrow> ('e user_x, 'w netos) cst option" where
  "JOB_GET_ENTRY_loop K new func_r p buffer_size s = do {
     let a = new buffer_size (cells (os s));
     (if cells (os s) a = None then Some () else None);
     s \<leftarrow> set_job p (\<lambda>j. j\<lparr>u_buffer := a\<rparr>) (s\<lparr>os := (os s)\<lparr>cells := (cells (os s))(a \<mapsto> Buffer buffer_size Map.empty)\<rparr>\<rparr>);
     job \<leftarrow> heap s p;
     call \<leftarrow> func_r job;
     let ((result, entry, ptr, content), e, w) = call buffer_size (c_errno s) (world (os s));
     s \<leftarrow> set_job p (\<lambda>j. j\<lparr>j_result := result, u_entry := entry, u_ptr := ptr\<rparr>)
            (s\<lparr>c_errno := e, os := (os s)\<lparr>cells := (cells (os s))(a \<mapsto> Buffer buffer_size content), world := w\<rparr>\<rparr>);
     if result \<noteq> K ''ERANGE'' then Some s
     else if 2 ^ 20 < buffer_size * 2 mod 2 ^ 64 then Some s
     else do {
       m \<leftarrow> free_cell a (os s);
       JOB_GET_ENTRY_loop K new func_r p (buffer_size * 2 mod 2 ^ 64) (s\<lparr>os := m\<rparr>)
     }
   }"

text \<open>The first size: \<open>conf\<close> is what \<^verbatim>\<open>sysconf\<close> says, converted to \<^verbatim>\<open>size_t\<close>.\<close>

definition first_size :: "int \<Rightarrow> nat" where
  "first_size conf = (let buffer_size = nat (take_bit 64 conf) in if buffer_size = nat (take_bit 64 (-1 :: int)) then 16384 else buffer_size)"

definition JOB_GET_ENTRY_worker :: "(string \<Rightarrow> int) \<Rightarrow> (nat \<Rightarrow> cells \<Rightarrow> nat) \<Rightarrow> int
    \<Rightarrow> ('e job_user \<Rightarrow> (nat \<Rightarrow> ('w, int \<times> 'e \<times> nat option \<times> cells) syscall) option) \<Rightarrow> nat
    \<Rightarrow> ('e user_x, 'w netos) cst \<Rightarrow> ('e user_x, 'w netos) cst option" where
  "JOB_GET_ENTRY_worker K new conf func_r p s = JOB_GET_ENTRY_loop K new func_r p (first_size conf) s"

definition JOB_GET_ENTRY_result :: "string \<Rightarrow> (cells \<Rightarrow> 'e \<Rightarrow> caml_value option) \<Rightarrow> ('e job_user \<Rightarrow> caml_value option) \<Rightarrow> nat \<Rightarrow> ('e user_x, 'w netos) cst
    \<Rightarrow> (caml_value outcome \<times> ('e user_x, 'w netos) cst) option" where
  "JOB_GET_ENTRY_result func alloc_type fail_arg p s = do {
     job \<leftarrow> heap s p;
     let result = j_result job;
     if result \<noteq> 0 then do {
       arg \<leftarrow> fail_arg job;
       m \<leftarrow> free_cell (u_buffer job) (os s);
       s \<leftarrow> free_job p (s\<lparr>os := m\<rparr>);
       Some (Raise (Unix_error result func arg), s)
     } else if u_ptr job = None then do {
       m \<leftarrow> free_cell (u_buffer job) (os s);
       s \<leftarrow> free_job p (s\<lparr>os := m\<rparr>);
       Some (Raise Not_found, s)
     } else do {
       buffer \<leftarrow> get_buffer (cells (os s)) (u_buffer job);
       entry \<leftarrow> alloc_type buffer (u_entry job);
       m \<leftarrow> free_cell (u_buffer job) (os s);
       free_and_return p entry (s\<lparr>os := m\<rparr>)
     }
   }"

section \<open>The uses of the macro\<close>

definition worker_getpwnam :: "(string \<Rightarrow> int) \<Rightarrow> (nat \<Rightarrow> cells \<Rightarrow> nat) \<Rightarrow> int \<Rightarrow> (char list \<Rightarrow> nat \<Rightarrow> ('w, int \<times> passwd \<times> nat option \<times> cells) syscall) \<Rightarrow> nat
    \<Rightarrow> (passwd user_x, 'w netos) cst \<Rightarrow> (passwd user_x, 'w netos) cst option" where
  "worker_getpwnam K new conf getpwnam_r = JOB_GET_ENTRY_worker K new conf (\<lambda>job. map_option getpwnam_r (job_path job))"

definition worker_getgrnam :: "(string \<Rightarrow> int) \<Rightarrow> (nat \<Rightarrow> cells \<Rightarrow> nat) \<Rightarrow> int \<Rightarrow> (char list \<Rightarrow> nat \<Rightarrow> ('w, int \<times> grp \<times> nat option \<times> cells) syscall) \<Rightarrow> nat
    \<Rightarrow> (grp user_x, 'w netos) cst \<Rightarrow> (grp user_x, 'w netos) cst option" where
  "worker_getgrnam K new conf getgrnam_r = JOB_GET_ENTRY_worker K new conf (\<lambda>job. map_option getgrnam_r (job_path job))"

definition worker_getpwuid :: "(string \<Rightarrow> int) \<Rightarrow> (nat \<Rightarrow> cells \<Rightarrow> nat) \<Rightarrow> int \<Rightarrow> (int \<Rightarrow> nat \<Rightarrow> ('w, int \<times> passwd \<times> nat option \<times> cells) syscall) \<Rightarrow> nat
    \<Rightarrow> (passwd user_x, 'w netos) cst \<Rightarrow> (passwd user_x, 'w netos) cst option" where
  "worker_getpwuid K new conf getpwuid_r = JOB_GET_ENTRY_worker K new conf (\<lambda>job. map_option getpwuid_r (Some (u_id job)))"

definition worker_getgrgid :: "(string \<Rightarrow> int) \<Rightarrow> (nat \<Rightarrow> cells \<Rightarrow> nat) \<Rightarrow> int \<Rightarrow> (int \<Rightarrow> nat \<Rightarrow> ('w, int \<times> grp \<times> nat option \<times> cells) syscall) \<Rightarrow> nat
    \<Rightarrow> (grp user_x, 'w netos) cst \<Rightarrow> (grp user_x, 'w netos) cst option" where
  "worker_getgrgid K new conf getgrgid_r = JOB_GET_ENTRY_worker K new conf (\<lambda>job. map_option getgrgid_r (Some (u_id job)))"

text \<open>The argument \<^verbatim>\<open>FAIL_ARG\<close>: the name, or nothing.\<close>

definition fail_name :: "'e job_user \<Rightarrow> caml_value option" where
  "fail_name job = map_option caml_copy_string (job_path job)"

definition result_getpwnam :: "nat \<Rightarrow> (passwd user_x, 'w netos) cst \<Rightarrow> (caml_value outcome \<times> (passwd user_x, 'w netos) cst) option" where
  "result_getpwnam = JOB_GET_ENTRY_result ''getpwnam'' alloc_passwd_entry fail_name"

definition result_getgrnam :: "nat \<Rightarrow> (grp user_x, 'w netos) cst \<Rightarrow> (caml_value outcome \<times> (grp user_x, 'w netos) cst) option" where
  "result_getgrnam = JOB_GET_ENTRY_result ''getgrnam'' alloc_group_entry fail_name"

definition result_getpwuid :: "nat \<Rightarrow> (passwd user_x, 'w netos) cst \<Rightarrow> (caml_value outcome \<times> (passwd user_x, 'w netos) cst) option" where
  "result_getpwuid = JOB_GET_ENTRY_result ''getpwuid'' alloc_passwd_entry (\<lambda>_. Some Nothing)"

definition result_getgrgid :: "nat \<Rightarrow> (grp user_x, 'w netos) cst \<Rightarrow> (caml_value outcome \<times> (grp user_x, 'w netos) cst) option" where
  "result_getgrgid = JOB_GET_ENTRY_result ''getgrgid'' alloc_group_entry (\<lambda>_. Some Nothing)"

definition lwt_unix_getpwnam_job :: "nat \<Rightarrow> job_getpwnam \<times> (nat \<Rightarrow> char) \<Rightarrow> char list
    \<Rightarrow> (passwd user_x, 'os) cst \<Rightarrow> (caml_value \<times> (passwd user_x, 'os) cst) option" where
  "lwt_unix_getpwnam_job a ug name s = do {
     s \<leftarrow> LWT_UNIX_INIT_JOB_STRING a ''getpwnam'' 0 name ug s;
     lwt_unix_alloc_job a s
   }"

definition lwt_unix_getgrnam_job :: "nat \<Rightarrow> job_getgrnam \<times> (nat \<Rightarrow> char) \<Rightarrow> char list
    \<Rightarrow> (grp user_x, 'os) cst \<Rightarrow> (caml_value \<times> (grp user_x, 'os) cst) option" where
  "lwt_unix_getgrnam_job a ug name s = do {
     s \<leftarrow> LWT_UNIX_INIT_JOB_STRING a ''getgrnam'' 0 name ug s;
     lwt_unix_alloc_job a s
   }"

definition lwt_unix_getpwuid_job :: "nat \<Rightarrow> job_getpwuid \<Rightarrow> int \<Rightarrow> (passwd user_x, 'os) cst \<Rightarrow> (caml_value \<times> (passwd user_x, 'os) cst) option" where
  "lwt_unix_getpwuid_job a u uid s = do {
     s \<leftarrow> LWT_UNIX_INIT_JOB a ''getpwuid'' u s;
     s \<leftarrow> set_job a (\<lambda>j. j\<lparr>u_id := c_int uid\<rparr>) s;
     lwt_unix_alloc_job a s
   }"

definition lwt_unix_getgrgid_job :: "nat \<Rightarrow> job_getgrgid \<Rightarrow> int \<Rightarrow> (grp user_x, 'os) cst \<Rightarrow> (caml_value \<times> (grp user_x, 'os) cst) option" where
  "lwt_unix_getgrgid_job a u gid s = do {
     s \<leftarrow> LWT_UNIX_INIT_JOB a ''getgrgid'' u s;
     s \<leftarrow> set_job a (\<lambda>j. j\<lparr>u_id := c_int gid\<rparr>) s;
     lwt_unix_alloc_job a s
   }"

section \<open>What libc does\<close>

text \<open>
  \<open>db key w\<close> is an error, or the entry for a key, if any, with the number of bytes it needs. The sizes tried are the first size, its double,
  and so on while they do not exceed 1 MiB; \<open>last_size\<close> is the last of them.
\<close>

type_synonym ('k, 'w, 'v) user_db = "'k \<Rightarrow> 'w \<Rightarrow> int + ('v \<times> nat) option"

type_synonym passwd_data = "char list \<times> char list \<times> int \<times> int \<times> char list \<times> char list \<times> char list"
type_synonym group_data = "char list \<times> char list \<times> int \<times> char list list"

definition passwd_view :: "cells \<Rightarrow> passwd \<Rightarrow> passwd_data option" where
  "passwd_view c e = do {
     name \<leftarrow> get_str c (pw_name e); passwd \<leftarrow> get_str c (pw_passwd e); gecos \<leftarrow> get_str c (pw_gecos e);
     dir \<leftarrow> get_str c (pw_dir e); shell \<leftarrow> get_str c (pw_shell e);
     Some (name, passwd, pw_uid e, pw_gid e, gecos, dir, shell)
   }"

definition group_view :: "cells \<Rightarrow> grp \<Rightarrow> group_data option" where
  "group_view c e = do {
     name \<leftarrow> get_str c (gr_name e); pass \<leftarrow> get_str c (gr_passwd e);
     qs \<leftarrow> ptr_array c (gr_mem e); mem \<leftarrow> map_opt (str_elem c) qs;
     Some (name, pass, gr_gid e, mem)
   }"

definition passwd_value :: "passwd_data \<Rightarrow> caml_value" where
  "passwd_value v = (case v of (name, passwd, uid, gid, gecos, dir, shell) \<Rightarrow>
     Block 0 [Caml_string name, Caml_string passwd, Val_int uid, Val_int gid, Caml_string gecos, Caml_string dir, Caml_string shell])"

definition group_value :: "group_data \<Rightarrow> caml_value" where
  "group_value v = (case v of (name, pass, gid, mem) \<Rightarrow> Block 0 [Caml_string name, Caml_string pass, Val_int gid, strings_value mem])"

definition user_r_ok :: "(string \<Rightarrow> int) \<Rightarrow> (cells \<Rightarrow> 'e \<Rightarrow> 'v option) \<Rightarrow> ('k \<Rightarrow> nat \<Rightarrow> ('w, int \<times> 'e \<times> nat option \<times> cells) syscall)
    \<Rightarrow> ('k, 'w, 'v) user_db \<Rightarrow> bool" where
  "user_r_ok K view call db \<longleftrightarrow> (\<forall>key n e w. case call key n e w of ((r, entry, ptr, content), _, w') \<Rightarrow> db key w' = db key w \<and>
     (case db key w of
        Inl err \<Rightarrow> r = err \<and> err \<noteq> 0 \<and> err \<noteq> K ''ERANGE''
      | Inr None \<Rightarrow> r = 0 \<and> ptr = None
      | Inr (Some (v, need)) \<Rightarrow> if need \<le> n then r = 0 \<and> ptr \<noteq> None \<and> view content entry = Some v else r = K ''ERANGE''))"

function last_size :: "nat \<Rightarrow> nat" where
  "last_size n = (if 0 < n \<and> n * 2 \<le> 2 ^ 20 then last_size (n * 2) else n)"
  by auto
termination by (relation "measure (\<lambda>n. 2 ^ 20 - n)") auto

declare last_size.simps [simp del]

definition user_answer :: "(string \<Rightarrow> int) \<Rightarrow> string \<Rightarrow> caml_value \<Rightarrow> ('v \<Rightarrow> caml_value) \<Rightarrow> nat \<Rightarrow> int + ('v \<times> nat) option \<Rightarrow> caml_value outcome" where
  "user_answer K func arg value_of n r = (case r of
     Inl err \<Rightarrow> Raise (Unix_error err func arg)
   | Inr None \<Rightarrow> Raise Not_found
   | Inr (Some (v, need)) \<Rightarrow> if need \<le> last_size n then Ret (value_of v) else Raise (Unix_error (K ''ERANGE'') func arg))"

lemma last_size_bounds: "0 < n \<Longrightarrow> n \<le> last_size n" "n \<le> 2 ^ 20 \<Longrightarrow> last_size n \<le> 2 ^ 20" "0 < n \<Longrightarrow> 2 ^ 20 < 2 * last_size n"
proof (induction n rule: last_size.induct)
  case (1 n)
  { case 1 then show ?case using "1.IH"(1) by (subst last_size.simps) auto }
  { case 2 then show ?case using "1.IH"(2) by (subst last_size.simps) auto }
  { case 3 then show ?case using "1.IH"(3) by (subst last_size.simps) auto }
qed


lemma alloc_passwd_view: "passwd_view c e = Some v \<Longrightarrow> alloc_passwd_entry c e = Some (passwd_value v)"
  by (auto simp: passwd_view_def alloc_passwd_entry_def passwd_value_def copy_c_string_def bind_Some_iff)

lemma alloc_group_view: "group_view c e = Some v \<Longrightarrow> alloc_group_entry c e = Some (group_value v)"
  using copy_strings_view [of c "gr_mem e"]
  by (auto simp: group_view_def alloc_group_entry_def group_value_def copy_c_string_def array_view_def bind_Some_iff)

lemma user_r_okD:
  assumes "user_r_ok K view call db" and "call key n e w = ((r, entry, ptr, content), e', w')"
  shows "db key w' = db key w" "case db key w of
        Inl err \<Rightarrow> r = err \<and> err \<noteq> 0 \<and> err \<noteq> K ''ERANGE''
      | Inr None \<Rightarrow> r = 0 \<and> ptr = None
      | Inr (Some (v, need)) \<Rightarrow> if need \<le> n then r = 0 \<and> ptr \<noteq> None \<and> view content entry = Some v else r = K ''ERANGE''"
proof -
  have "case call key n e w of ((r, entry, ptr, content), _, w') \<Rightarrow> db key w' = db key w \<and>
     (case db key w of
        Inl err \<Rightarrow> r = err \<and> err \<noteq> 0 \<and> err \<noteq> K ''ERANGE''
      | Inr None \<Rightarrow> r = 0 \<and> ptr = None
      | Inr (Some (v, need)) \<Rightarrow> if need \<le> n then r = 0 \<and> ptr \<noteq> None \<and> view content entry = Some v else r = K ''ERANGE'')"
    by (rule assms(1) [unfolded user_r_ok_def, THEN spec, THEN spec, THEN spec, THEN spec])
  with assms(2) show "db key w' = db key w" "case db key w of
        Inl err \<Rightarrow> r = err \<and> err \<noteq> 0 \<and> err \<noteq> K ''ERANGE''
      | Inr None \<Rightarrow> r = 0 \<and> ptr = None
      | Inr (Some (v, need)) \<Rightarrow> if need \<le> n then r = 0 \<and> ptr \<noteq> None \<and> view content entry = Some v else r = K ''ERANGE''" by simp_all
qed

section \<open>The macro is correct\<close>

text \<open>What the worker has stored when it is done: the result, and an entry if there is one.\<close>

definition user_done :: "(string \<Rightarrow> int) \<Rightarrow> (cells \<Rightarrow> 'e \<Rightarrow> 'v option) \<Rightarrow> nat \<Rightarrow> int + ('v \<times> nat) option \<Rightarrow> int \<Rightarrow> nat option \<Rightarrow> cells \<Rightarrow> 'e \<Rightarrow> bool" where
  "user_done K view n r result ptr content entry \<longleftrightarrow> (case r of
     Inl err \<Rightarrow> result = err \<and> err \<noteq> 0
   | Inr None \<Rightarrow> result = 0 \<and> ptr = None
   | Inr (Some (v, need)) \<Rightarrow> if need \<le> last_size n then result = 0 \<and> ptr \<noteq> None \<and> view content entry = Some v else result = K ''ERANGE'')"

locale get_user =
  fixes func :: string
    and stub :: "nat \<Rightarrow> 'u \<Rightarrow> ('e user_x, 'w netos) cst \<Rightarrow> (caml_value \<times> ('e user_x, 'w netos) cst) option"
    and args :: "'e job_user \<Rightarrow> 'k option"
    and key :: 'k
    and fail_arg :: "'e job_user \<Rightarrow> caml_value option"
    and arg :: caml_value
    and alloc_type :: "cells \<Rightarrow> 'e \<Rightarrow> caml_value option"
    and view :: "cells \<Rightarrow> 'e \<Rightarrow> 'v option"
    and value_of :: "'v \<Rightarrow> caml_value"
  assumes stub_ready: "heap s a = None \<Longrightarrow> \<exists>j. stub a u s = Some (Caml_ptr (Some a), s\<lparr>heap := (heap s)(a \<mapsto> j)\<rparr>) \<and>
      worker_fn j = ''worker_'' @ func \<and> result_fn j = ''result_'' @ func \<and> args j = Some key \<and> fail_arg j = Some arg"
    and args_started: "args (j\<lparr>async_method := am, job_mutex := mx\<rparr>) = args j" "fail_arg (j\<lparr>async_method := am, job_mutex := mx\<rparr>) = fail_arg j"
    and args_updated: "args (j\<lparr>u_buffer := b, j_result := r, u_entry := x, u_ptr := q\<rparr>) = args j"
      "fail_arg (j\<lparr>u_buffer := b, j_result := r, u_entry := x, u_ptr := q\<rparr>) = fail_arg j"
    and alloc_view: "view c e = Some v \<Longrightarrow> alloc_type c e = Some (value_of v)"
begin

lemma loop_ends:
  assumes ok: "user_r_ok K view call db" and e0: "K ''ERANGE'' \<noteq> 0" and "heap s p = Some job" and "args job = Some key"
    and "\<forall>n. cells (os s) (new n (cells (os s))) = None" and "db key (world (os s)) = r" and "0 < sz" and "sz < 2 ^ 63"
  shows "\<exists>a n content entry ptr result e w. JOB_GET_ENTRY_loop K new (\<lambda>j. map_option call (args j)) p sz s =
      Some (s\<lparr>heap := (heap s)(p \<mapsto> job\<lparr>u_buffer := a, j_result := result, u_entry := entry, u_ptr := ptr\<rparr>), c_errno := e,
        os := (os s)\<lparr>cells := (cells (os s))(a \<mapsto> Buffer n content), world := w\<rparr>\<rparr>) \<and>
      cells (os s) a = None \<and> user_done K view sz r result ptr content entry"
  using assms(3-)
proof (induction sz arbitrary: s job rule: last_size.induct)
  case (1 sz)
  let ?a = "new sz (cells (os s))"
  obtain result entry ptr content e w where c: "call key sz (c_errno s) (world (os s)) = ((result, entry, ptr, content), e, w)" by (metis prod_cases6 surj_pair)
  have fresh: "cells (os s) ?a = None" using "1.prems"(3) by blast
  have d: "db key w = r" using user_r_okD(1) [OF ok c] "1.prems"(4) by simp
  note k = user_r_okD(2) [OF ok c, unfolded "1.prems"(4)]
  have wrap: "sz * 2 mod 2 ^ 64 = sz * 2" using "1.prems"(6) by simp
  let ?j = "job\<lparr>u_buffer := ?a, j_result := result, u_entry := entry, u_ptr := ptr\<rparr>"
  have j: "args (job\<lparr>u_buffer := ?a\<rparr>) = Some key" "args ?j = Some key"
    using args_updated(1) [where j = job and b = ?a] args_updated(1) [where j = job and b = ?a and r = "j_result job" and x = "u_entry job" and q = "u_ptr job"] "1.prems"(2) by simp_all
  let ?t = "s\<lparr>heap := (heap s)(p \<mapsto> ?j), c_errno := e, os := (os s)\<lparr>cells := (cells (os s))(?a \<mapsto> Buffer sz content), world := w\<rparr>\<rparr>"
  let ?s = "s\<lparr>heap := (heap s)(p \<mapsto> ?j), c_errno := e, os := (os s)\<lparr>world := w\<rparr>\<rparr>"
  have step: "JOB_GET_ENTRY_loop K new (\<lambda>j. map_option call (args j)) p sz s =
     (if result \<noteq> K ''ERANGE'' \<or> 2 ^ 20 < sz * 2 then Some ?t else JOB_GET_ENTRY_loop K new (\<lambda>j. map_option call (args j)) p (sz * 2) ?s)"
    using "1.prems"(1) j(1) c fresh wrap
    by (subst JOB_GET_ENTRY_loop.simps) (cases s, cases "os s", simp add: Let_def free_cell_def fun_upd_idem)
  show ?case
  proof (cases "result \<noteq> K ''ERANGE'' \<or> 2 ^ 20 < sz * 2")
    case True
    then have "JOB_GET_ENTRY_loop K new (\<lambda>j. map_option call (args j)) p sz s = Some ?t" using step by simp
    moreover have "user_done K view sz r result ptr content entry"
      using k True last_size_bounds(1) [of sz] "1.prems"(5) last_size.simps [of sz] e0
      by (auto simp: user_done_def split: sum.splits option.splits if_splits)
    ultimately show ?thesis using fresh by blast
  next
    case False
    then have sz: "0 < sz \<and> sz * 2 \<le> 2 ^ 20" "last_size (sz * 2) = last_size sz" using "1.prems"(5) last_size.simps [of sz] by auto
    have "JOB_GET_ENTRY_loop K new (\<lambda>j. map_option call (args j)) p sz s = JOB_GET_ENTRY_loop K new (\<lambda>j. map_option call (args j)) p (sz * 2) ?s"
      using step False by simp
    moreover have "heap ?s p = Some ?j" "\<forall>n. cells (os ?s) (new n (cells (os ?s))) = None" "db key (world (os ?s)) = r" "0 < sz * 2" "sz * 2 < 2 ^ 63"
      using "1.prems"(3) d sz(1) by simp_all
    then obtain a' n' content' entry' ptr' result' e' w' where "JOB_GET_ENTRY_loop K new (\<lambda>j. map_option call (args j)) p (sz * 2) ?s =
      Some (?s\<lparr>heap := (heap ?s)(p \<mapsto> ?j\<lparr>u_buffer := a', j_result := result', u_entry := entry', u_ptr := ptr'\<rparr>), c_errno := e',
        os := (os ?s)\<lparr>cells := (cells (os ?s))(a' \<mapsto> Buffer n' content'), world := w'\<rparr>\<rparr>)" "cells (os ?s) a' = None" "user_done K view (sz * 2) r result' ptr' content' entry'"
      using "1.IH" [OF sz(1), of ?s ?j, OF _ j(2)] by blast
    moreover have "user_done K view (sz * 2) r = user_done K view sz r" unfolding fun_eq_iff user_done_def sz(2) by simp
    ultimately have "JOB_GET_ENTRY_loop K new (\<lambda>j. map_option call (args j)) p sz s =
      Some (s\<lparr>heap := (heap s)(p \<mapsto> job\<lparr>u_buffer := a', j_result := result', u_entry := entry', u_ptr := ptr'\<rparr>), c_errno := e',
        os := (os s)\<lparr>cells := (cells (os s))(a' \<mapsto> Buffer n' content'), world := w'\<rparr>\<rparr>)" "cells (os s) a' = None" "user_done K view sz r result' ptr' content' entry'"
      by simp_all
    then show ?thesis by blast
  qed
qed

lemma run:
  assumes ok: "user_r_ok K view call db" and e0: "K ''ERANGE'' \<noteq> 0" and h: "heap s a = None" and fresh: "\<forall>n. cells (os s) (new n (cells (os s))) = None"
    and sz: "0 < first_size conf" "first_size conf < 2 ^ 63"
  shows "\<exists>w. job_run am e' (stub a u) [''worker_'' @ func \<mapsto> JOB_GET_ENTRY_worker K new conf (\<lambda>j. map_option call (args j))]
      [''result_'' @ func \<mapsto> JOB_GET_ENTRY_result func alloc_type fail_arg] s =
    Some (user_answer K func arg value_of (first_size conf) (db key (world (os s))), s\<lparr>c_errno := e', os := (os s)\<lparr>world := w\<rparr>\<rparr>)"
proof -
  obtain j where j: "stub a u s = Some (Caml_ptr (Some a), s\<lparr>heap := (heap s)(a \<mapsto> j)\<rparr>)" "worker_fn j = ''worker_'' @ func" "result_fn j = ''result_'' @ func"
    "args j = Some key" "fail_arg j = Some arg"
    using stub_ready [OF h, of u] by blast
  let ?j = "j\<lparr>async_method := am, job_mutex := start_mutex am j\<rparr>" let ?s = "s\<lparr>heap := (heap s)(a \<mapsto> ?j)\<rparr>"
  obtain b n content entry ptr result e w where l: "JOB_GET_ENTRY_loop K new (\<lambda>j. map_option call (args j)) a (first_size conf) ?s =
      Some (?s\<lparr>heap := (heap ?s)(a \<mapsto> ?j\<lparr>u_buffer := b, j_result := result, u_entry := entry, u_ptr := ptr\<rparr>), c_errno := e,
        os := (os ?s)\<lparr>cells := (cells (os ?s))(b \<mapsto> Buffer n content), world := w\<rparr>\<rparr>)" "cells (os ?s) b = None"
      "user_done K view (first_size conf) (db key (world (os s))) result ptr content entry"
    using loop_ends [OF ok e0, of ?s a ?j new, OF _ _ _ refl sz] args_started(1) j(4) fresh by auto
  let ?k = "?j\<lparr>u_buffer := b, j_result := result, u_entry := entry, u_ptr := ptr\<rparr>"
  have "job_run am e' (stub a u) [''worker_'' @ func \<mapsto> JOB_GET_ENTRY_worker K new conf (\<lambda>j. map_option call (args j))]
      [''result_'' @ func \<mapsto> JOB_GET_ENTRY_result func alloc_type fail_arg] s =
      JOB_GET_ENTRY_result func alloc_type fail_arg a (s\<lparr>heap := (heap s)(a \<mapsto> ?k), os := (os s)\<lparr>cells := (cells (os s))(b \<mapsto> Buffer n content), world := w\<rparr>, c_errno := e'\<rparr>)"
    using j l(1) by (simp add: job_run_def JOB_GET_ENTRY_worker_def flip: start_mutex_def)
  moreover have "freeable ?k" by (rule freeable_started) simp_all
  moreover have "fail_arg ?k = Some arg" using args_started(2) args_updated(2) j(5) by simp
  ultimately show ?thesis using l(2,3) h alloc_view e0
    by (cases s; cases "os s") (auto simp: JOB_GET_ENTRY_result_def free_cell_def get_buffer_def user_answer_def user_done_def free_and_return_def fun_upd_idem
        split: sum.splits option.splits if_splits)
qed

end

section \<open>The four jobs\<close>

lemma job_path_user:
  "job_path (j\<lparr>u_buffer := b, j_result := r, u_entry := x, u_ptr := q\<rparr>) = job_path j" "job_path (j\<lparr>u_id := i\<rparr>) = job_path j"
  by (simp_all add: job_path_def)

lemmas user_stubs = lwt_unix_getpwnam_job_def lwt_unix_getgrnam_job_def lwt_unix_getpwuid_job_def lwt_unix_getgrgid_job_def lwt_unix_alloc_job_def
  job_path_user fail_name_def caml_copy_string_def alloc_passwd_view alloc_group_view

interpretation getpwnam: get_user "''getpwnam''" "\<lambda>a ug. lwt_unix_getpwnam_job a ug name" job_path "cstring name" fail_name "Caml_string (cstring name)"
    alloc_passwd_entry passwd_view passwd_value for name
  by unfold_locales (simp_all add: user_stubs)

interpretation getgrnam: get_user "''getgrnam''" "\<lambda>a ug. lwt_unix_getgrnam_job a ug name" job_path "cstring name" fail_name "Caml_string (cstring name)"
    alloc_group_entry group_view group_value for name
  by unfold_locales (simp_all add: user_stubs)

interpretation getpwuid: get_user "''getpwuid''" "\<lambda>a u. lwt_unix_getpwuid_job a u uid" "\<lambda>job. Some (u_id job)" "c_int uid" "\<lambda>_. Some Nothing" Nothing
    alloc_passwd_entry passwd_view passwd_value for uid
  by unfold_locales (simp_all add: user_stubs)

interpretation getgrgid: get_user "''getgrgid''" "\<lambda>a u. lwt_unix_getgrgid_job a u gid" "\<lambda>job. Some (u_id job)" "c_int gid" "\<lambda>_. Some Nothing" Nothing
    alloc_group_entry group_view group_value for gid
  by unfold_locales (simp_all add: user_stubs)


section \<open>Properties\<close>

definition user_spec :: "caml_value outcome \<Rightarrow> int \<Rightarrow> ('x, 'w netos) cst \<Rightarrow> (caml_value outcome \<times> ('x, 'w netos) cst) option \<Rightarrow> bool" where
  "user_spec ans e' s res \<longleftrightarrow> (\<exists>w. res = Some (ans, s\<lparr>c_errno := e', os := (os s)\<lparr>world := w\<rparr>\<rparr>))"

text \<open>\<^verbatim>\<open>sysconf\<close> returns -1 or a positive number.\<close>

lemma first_size_positive:
  assumes "conf = -1 \<or> 0 < conf \<and> conf < 2 ^ 63"
  shows "0 < first_size conf" "first_size conf < 2 ^ 63" "first_size conf = (if conf = -1 then 16384 else nat conf)"
proof -
  have "nat (take_bit 64 (-1 :: int)) = 2 ^ 64 - 1" by (simp add: take_bit_eq_mod)
  moreover have "nat (take_bit 64 conf) = nat conf" if "0 < conf" "conf < 2 ^ 63" using that by (simp add: take_bit_eq_mod)
  ultimately show "first_size conf = (if conf = -1 then 16384 else nat conf)"
    using assms unfolding first_size_def Let_def by auto
  with assms show "0 < first_size conf" "first_size conf < 2 ^ 63" by auto
qed

definition demo_user_job :: "'e \<Rightarrow> 'e job_user" where
  "demo_user_job x = \<lparr>next_job = None, notification_id = 0, worker_fn = [], result_fn = [], job_state = LWT_UNIX_JOB_STATE_DONE,
     fast = 5, job_mutex = Mutex_held, async_method = LWT_UNIX_ASYNC_METHOD_SWITCH, j_result = 1, j_error_code = 2, j_path = 3, j_data = [],
     u_entry = x, u_ptr = Some 5, u_buffer = 6, u_id = 7\<rparr>"

definition demo_passwd :: passwd where
  "demo_passwd = \<lparr>pw_name = 11, pw_passwd = 13, pw_uid = 1000, pw_gid = 100, pw_gecos = 13, pw_dir = 11, pw_shell = 11\<rparr>"

definition demo_pw_r :: "'k \<Rightarrow> nat \<Rightarrow> (unit, int \<times> passwd \<times> nat option \<times> cells) syscall" where
  "demo_pw_r key n e w = ((if 3000 \<le> n then 0 else 34, demo_passwd, Some 1, demo_cells), e, w)"

definition demo_gr_r :: "'k \<Rightarrow> nat \<Rightarrow> (unit, int \<times> grp \<times> nat option \<times> cells) syscall" where
  "demo_gr_r key n e w = ((5, \<lparr>gr_name = 1, gr_passwd = 2, gr_gid = 3, gr_mem = 4\<rparr>, None, Map.empty), e, w)"

lemma demo_user_ok:
  "user_r_ok (\<lambda>_. 34) passwd_view demo_pw_r (\<lambda>_ _. Inr (Some ((''h'', ''a'', 1000, 100, ''a'', ''h'', ''h''), 3000)))"
  "user_r_ok (\<lambda>_. 34) group_view demo_gr_r (\<lambda>_ _. Inl 5)"
  by (simp_all add: user_r_ok_def demo_pw_r_def demo_gr_r_def passwd_view_def demo_passwd_def demo_cells_def get_str_def get_bytes_def cstr_at_def NUL_def)

text \<open>
  C28. Looking up users and groups. For each of the four jobs OCaml gets the entry, \<^verbatim>\<open>Not_found\<close> if there is none, or the error of the system with the name as
  its argument. The buffer grows from what \<^verbatim>\<open>sysconf\<close> suggests (16384 bytes if nothing) by doubling up to 1 MiB, so the loop always ends; an entry that
  needs more than the last size tried is reported as \<^verbatim>\<open>ERANGE\<close>, and that size is more than half a MiB. All buffers are freed, also the one that was too small.
\<close>

theorem user_jobs_correct:
  assumes "heap s a = None" and "heap t a = None" and "K ''ERANGE'' \<noteq> 0" and "conf = -1 \<or> 0 < conf \<and> conf < 2 ^ 63"
    and "\<forall>n. cells (os s) (new n (cells (os s))) = None" and "\<forall>n. cells (os t) (new n (cells (os t))) = None"
    and "user_r_ok K passwd_view pwnam db1" and "user_r_ok K passwd_view pwuid db2"
    and "user_r_ok K group_view grnam db3" and "user_r_ok K group_view grgid db4"
  shows
    "user_spec (user_answer K ''getpwnam'' (Caml_string (cstring name)) passwd_value (first_size conf) (db1 (cstring name) (world (os s)))) e s
       (job_run am e (lwt_unix_getpwnam_job a ug name) [''worker_getpwnam'' \<mapsto> worker_getpwnam K new conf pwnam] [''result_getpwnam'' \<mapsto> result_getpwnam] s) \<and>
     user_spec (user_answer K ''getpwuid'' Nothing passwd_value (first_size conf) (db2 (c_int i) (world (os s)))) e s
       (job_run am e (lwt_unix_getpwuid_job a u i) [''worker_getpwuid'' \<mapsto> worker_getpwuid K new conf pwuid] [''result_getpwuid'' \<mapsto> result_getpwuid] s) \<and>
     user_spec (user_answer K ''getgrnam'' (Caml_string (cstring name)) group_value (first_size conf) (db3 (cstring name) (world (os t)))) e t
       (job_run am e (lwt_unix_getgrnam_job a vg name) [''worker_getgrnam'' \<mapsto> worker_getgrnam K new conf grnam] [''result_getgrnam'' \<mapsto> result_getgrnam] t) \<and>
     user_spec (user_answer K ''getgrgid'' Nothing group_value (first_size conf) (db4 (c_int i) (world (os t)))) e t
       (job_run am e (lwt_unix_getgrgid_job a v i) [''worker_getgrgid'' \<mapsto> worker_getgrgid K new conf grgid] [''result_getgrgid'' \<mapsto> result_getgrgid] t) \<and>
     2 ^ 20 < 2 * last_size (first_size conf) \<and> (first_size conf \<le> 2 ^ 20 \<longrightarrow> last_size (first_size conf) \<le> 2 ^ 20)"
proof (intro conjI)
  note sz = first_size_positive(1,2) [OF assms(4)]
  note defs = user_spec_def worker_getpwnam_def worker_getpwuid_def worker_getgrnam_def worker_getgrgid_def result_getpwnam_def result_getpwuid_def result_getgrnam_def result_getgrgid_def
  show "user_spec (user_answer K ''getpwnam'' (Caml_string (cstring name)) passwd_value (first_size conf) (db1 (cstring name) (world (os s)))) e s
       (job_run am e (lwt_unix_getpwnam_job a ug name) [''worker_getpwnam'' \<mapsto> worker_getpwnam K new conf pwnam] [''result_getpwnam'' \<mapsto> result_getpwnam] s)"
    using getpwnam.run [where new = new and s = s, OF assms(7,3,1,5) sz, where u = ug and am = am and e' = e and name = name] unfolding defs by simp
  show "user_spec (user_answer K ''getpwuid'' Nothing passwd_value (first_size conf) (db2 (c_int i) (world (os s)))) e s
       (job_run am e (lwt_unix_getpwuid_job a u i) [''worker_getpwuid'' \<mapsto> worker_getpwuid K new conf pwuid] [''result_getpwuid'' \<mapsto> result_getpwuid] s)"
    using getpwuid.run [where new = new and s = s, OF assms(8,3,1,5) sz, where u = u and am = am and e' = e and uid = i] unfolding defs by simp
  show "user_spec (user_answer K ''getgrnam'' (Caml_string (cstring name)) group_value (first_size conf) (db3 (cstring name) (world (os t)))) e t
       (job_run am e (lwt_unix_getgrnam_job a vg name) [''worker_getgrnam'' \<mapsto> worker_getgrnam K new conf grnam] [''result_getgrnam'' \<mapsto> result_getgrnam] t)"
    using getgrnam.run [where new = new and s = t, OF assms(9,3,2,6) sz, where u = vg and am = am and e' = e and name = name] unfolding defs by simp
  show "user_spec (user_answer K ''getgrgid'' Nothing group_value (first_size conf) (db4 (c_int i) (world (os t)))) e t
       (job_run am e (lwt_unix_getgrgid_job a v i) [''worker_getgrgid'' \<mapsto> worker_getgrgid K new conf grgid] [''result_getgrgid'' \<mapsto> result_getgrgid] t)"
    using getgrgid.run [where new = new and s = t, OF assms(10,3,2,6) sz, where u = v and am = am and e' = e and gid = i] unfolding defs by simp
  show "2 ^ 20 < 2 * last_size (first_size conf)" "first_size conf \<le> 2 ^ 20 \<longrightarrow> last_size (first_size conf) \<le> 2 ^ 20"
    using last_size_bounds sz(1) by auto
qed

theorem user_jobs_correct_witness:
  "\<exists>w. job_run LWT_UNIX_ASYNC_METHOD_DETACH 0 (lwt_unix_getpwnam_job 1 (demo_user_job demo_passwd, \<lambda>_. NUL) ''h'')
      [''worker_getpwnam'' \<mapsto> worker_getpwnam (\<lambda>_. 34) (\<lambda>n c. 200) 1024 demo_pw_r] [''result_getpwnam'' \<mapsto> result_getpwnam] demo_entries =
    Some (Ret (Block 0 [Caml_string ''h'', Caml_string ''a'', Imm 1000, Imm 100, Caml_string ''a'', Caml_string ''h'', Caml_string ''h'']), demo_entries\<lparr>os := demo_netos\<lparr>world := w\<rparr>\<rparr>)"
proof -
  have h: "heap demo_entries 1 = None" "\<forall>n. cells (os demo_entries) ((\<lambda>n c. 200) n (cells (os demo_entries))) = None" "(\<lambda>_. 34 :: int) ''ERANGE'' \<noteq> 0"
    "(1024 :: int) = -1 \<or> 0 < (1024 :: int) \<and> (1024 :: int) < 2 ^ 63"
    by (simp_all add: demo_entries_def demo_netos_def demo_cells_def)
  have "3000 \<le> last_size 1024" using last_size_bounds(3) [of 1024] by simp
  moreover have "passwd_value (''h'', ''a'', 1000, 100, ''a'', ''h'', ''h'') = Block 0 [Caml_string ''h'', Caml_string ''a'', Imm 1000, Imm 100, Caml_string ''a'', Caml_string ''h'', Caml_string ''h'']"
    by (simp add: passwd_value_def Val_int_def caml_int_id)
  ultimately show ?thesis
    using user_jobs_correct [where new = "\<lambda>n c. 200" and s = demo_entries and t = demo_entries and am = LWT_UNIX_ASYNC_METHOD_DETACH and e = 0 and
      ug = "(demo_user_job demo_passwd, \<lambda>_. NUL)" and name = "''h''", OF h(1) h(1) h(3) h(4) h(2) h(2) demo_user_ok(1) demo_user_ok(1) demo_user_ok(2) demo_user_ok(2), THEN conjunct1]
    by (simp add: user_spec_def user_answer_def first_size_positive(3) [OF h(4)] demo_entries_def)
qed

end
