(* ===== verification/Sockets.thy ===== *)
theory Sockets
  imports Vectors
begin

text \<open>
  Messages on sockets: \<^verbatim>\<open>unix_recv.c\<close>, \<^verbatim>\<open>unix_send.c\<close>, \<^verbatim>\<open>unix_recvfrom.c\<close>, \<^verbatim>\<open>unix_sendto.c\<close> and their variants
  for Bigarrays, and \<^verbatim>\<open>unix_recv_send_utils.c\<close> with \<^verbatim>\<open>unix_recv_msg.c\<close> and \<^verbatim>\<open>unix_send_msg.c\<close>, which receive and send
  several slices at once together with file descriptors.

  Socket addresses are byte strings. Their conversion from and to OCaml values belongs to the Unix library of OCaml and is a parameter:
  \<open>get_sockaddr\<close> gives the bytes it stores or raises an exception, \<open>alloc_sockaddr\<close> reads an address of the given length and, when it
  raises, closes the descriptor it was given (unless that is -1).
\<close>

section \<open>Receiving and sending\<close>

definition msg_flag_table :: "(string \<Rightarrow> int) \<Rightarrow> int list" where
  "msg_flag_table K = [K ''MSG_OOB'', K ''MSG_DONTROUTE'', K ''MSG_PEEK'']"

text \<open>The results have type \<^verbatim>\<open>ssize_t\<close> and are stored in an \<^verbatim>\<open>int\<close>.\<close>

definition lwt_unix_recv :: "(string \<Rightarrow> int) \<Rightarrow> (int \<Rightarrow> nat \<Rightarrow> int \<Rightarrow> ('os, int \<times> char list) syscall) \<Rightarrow> int \<Rightarrow> nat \<Rightarrow> int \<Rightarrow> int \<Rightarrow> int list
    \<Rightarrow> ('x, 'os) cst \<Rightarrow> (caml_value outcome \<times> ('x, 'os) cst) option" where
  "lwt_unix_recv K recv_c fd buf ofs len flags s = do {
     fl \<leftarrow> flags_of (msg_flag_table K) flags;
     dst \<leftarrow> bufs s buf;
     let ((r, bs), e, w) = recv_c (c_int fd) (nat len) fl (c_errno s) (os s);
     dst \<leftarrow> write_at dst (nat ofs) bs;
     let ret = c_int r;
     let s = s\<lparr>bufs := (bufs s)(buf \<mapsto> dst), c_errno := e, os := w\<rparr>;
     if ret = -1 then Some (Raise (Unix_error e ''recv'' Nothing), s)
     else Some (Ret (Val_int ret), s)
   }"

definition lwt_unix_bytes_recv :: "(string \<Rightarrow> int) \<Rightarrow> (int \<Rightarrow> nat \<Rightarrow> int \<Rightarrow> ('os, int \<times> char list) syscall) \<Rightarrow> int \<Rightarrow> nat \<Rightarrow> int \<Rightarrow> int \<Rightarrow> int list
    \<Rightarrow> ('x, 'os) cst \<Rightarrow> (caml_value outcome \<times> ('x, 'os) cst) option" where
  "lwt_unix_bytes_recv K recv_c fd buf ofs len flags s = do {
     fl \<leftarrow> flags_of (msg_flag_table K) flags;
     dst \<leftarrow> bufs s buf;
     let ((r, bs), e, w) = recv_c (c_int fd) (nat len) fl (c_errno s) (os s);
     dst \<leftarrow> write_at dst (nat ofs) bs;
     let ret = c_int r;
     let s = s\<lparr>bufs := (bufs s)(buf \<mapsto> dst), c_errno := e, os := w\<rparr>;
     if ret = -1 then Some (Raise (Unix_error e ''recv'' Nothing), s)
     else Some (Ret (Val_int ret), s)
   }"

definition lwt_unix_send :: "(string \<Rightarrow> int) \<Rightarrow> (int \<Rightarrow> char list \<Rightarrow> int \<Rightarrow> ('os, int) syscall) \<Rightarrow> int \<Rightarrow> nat \<Rightarrow> int \<Rightarrow> int \<Rightarrow> int list
    \<Rightarrow> ('x, 'os) cst \<Rightarrow> (caml_value outcome \<times> ('x, 'os) cst) option" where
  "lwt_unix_send K send_c fd buf ofs len flags s = do {
     fl \<leftarrow> flags_of (msg_flag_table K) flags;
     d \<leftarrow> bufs s buf;
     src \<leftarrow> read_at d (nat ofs) (nat len);
     let (r, e, w) = send_c (c_int fd) src fl (c_errno s) (os s);
     let ret = c_int r;
     let s = s\<lparr>c_errno := e, os := w\<rparr>;
     if ret = -1 then Some (Raise (Unix_error e ''send'' Nothing), s)
     else Some (Ret (Val_int ret), s)
   }"

definition lwt_unix_bytes_send :: "(string \<Rightarrow> int) \<Rightarrow> (int \<Rightarrow> char list \<Rightarrow> int \<Rightarrow> ('os, int) syscall) \<Rightarrow> int \<Rightarrow> nat \<Rightarrow> int \<Rightarrow> int \<Rightarrow> int list
    \<Rightarrow> ('x, 'os) cst \<Rightarrow> (caml_value outcome \<times> ('x, 'os) cst) option" where
  "lwt_unix_bytes_send K send_c fd buf ofs len flags s = do {
     fl \<leftarrow> flags_of (msg_flag_table K) flags;
     d \<leftarrow> bufs s buf;
     src \<leftarrow> read_at d (nat ofs) (nat len);
     let (r, e, w) = send_c (c_int fd) src fl (c_errno s) (os s);
     let ret = c_int r;
     let s = s\<lparr>c_errno := e, os := w\<rparr>;
     if ret = -1 then Some (Raise (Unix_error e ''send'' Nothing), s)
     else Some (Ret (Val_int ret), s)
   }"

text \<open>
  \<^verbatim>\<open>recvfrom\<close> also stores the address of the sender, at most as many bytes as there is room for, and its length. \<open>SA\<close> is the size
  of \<^verbatim>\<open>union sock_addr_union\<close>, and \<open>g\<close> the unspecified content of that local variable.
\<close>

definition lwt_unix_recvfrom :: "(string \<Rightarrow> int) \<Rightarrow> nat \<Rightarrow> (nat \<Rightarrow> char)
    \<Rightarrow> (int \<Rightarrow> nat \<Rightarrow> int \<Rightarrow> nat \<Rightarrow> ('os, int \<times> char list \<times> char list \<times> nat) syscall)
    \<Rightarrow> (char list \<Rightarrow> nat \<Rightarrow> int \<Rightarrow> ('os, caml_value outcome) syscall)
    \<Rightarrow> int \<Rightarrow> nat \<Rightarrow> int \<Rightarrow> int \<Rightarrow> int list \<Rightarrow> ('x, 'os) cst \<Rightarrow> (caml_value outcome \<times> ('x, 'os) cst) option" where
  "lwt_unix_recvfrom K SA g recvfrom_c alloc_sockaddr fd buf ofs len flags s = do {
     fl \<leftarrow> flags_of (msg_flag_table K) flags;
     dst \<leftarrow> bufs s buf;
     let ((r, bs, sender, addr_len), e, w) = recvfrom_c (c_int fd) (nat len) fl SA (c_errno s) (os s);
     dst \<leftarrow> write_at dst (nat ofs) bs;
     addr \<leftarrow> write_at (uninit g SA) 0 sender;
     let ret = c_int r;
     let s = s\<lparr>bufs := (bufs s)(buf \<mapsto> dst), c_errno := e, os := w\<rparr>;
     if ret = -1 then Some (Raise (Unix_error e ''recvfrom'' Nothing), s)
     else let (a, e, w) = alloc_sockaddr addr addr_len (-1) (c_errno s) (os s);
              s = s\<lparr>c_errno := e, os := w\<rparr>
          in case a of Raise x \<Rightarrow> Some (Raise x, s)
             | Ret address \<Rightarrow> Some (Ret (Block 0 [Val_int ret, address]), s)
   }"

definition lwt_unix_bytes_recvfrom :: "(string \<Rightarrow> int) \<Rightarrow> nat \<Rightarrow> (nat \<Rightarrow> char)
    \<Rightarrow> (int \<Rightarrow> nat \<Rightarrow> int \<Rightarrow> nat \<Rightarrow> ('os, int \<times> char list \<times> char list \<times> nat) syscall)
    \<Rightarrow> (char list \<Rightarrow> nat \<Rightarrow> int \<Rightarrow> ('os, caml_value outcome) syscall)
    \<Rightarrow> int \<Rightarrow> nat \<Rightarrow> int \<Rightarrow> int \<Rightarrow> int list \<Rightarrow> ('x, 'os) cst \<Rightarrow> (caml_value outcome \<times> ('x, 'os) cst) option" where
  "lwt_unix_bytes_recvfrom K SA g recvfrom_c alloc_sockaddr fd buf ofs len flags s = do {
     fl \<leftarrow> flags_of (msg_flag_table K) flags;
     dst \<leftarrow> bufs s buf;
     let ((r, bs, sender, addr_len), e, w) = recvfrom_c (c_int fd) (nat len) fl SA (c_errno s) (os s);
     dst \<leftarrow> write_at dst (nat ofs) bs;
     addr \<leftarrow> write_at (uninit g SA) 0 sender;
     let ret = c_int r;
     let s = s\<lparr>bufs := (bufs s)(buf \<mapsto> dst), c_errno := e, os := w\<rparr>;
     if ret = -1 then Some (Raise (Unix_error e ''recvfrom'' Nothing), s)
     else let (a, e, w) = alloc_sockaddr addr addr_len (-1) (c_errno s) (os s);
              s = s\<lparr>c_errno := e, os := w\<rparr>
          in case a of Raise x \<Rightarrow> Some (Raise x, s)
             | Ret address \<Rightarrow> Some (Ret (Block 0 [Val_int ret, address]), s)
   }"

text \<open>\<^verbatim>\<open>sendto\<close>: the address is converted first, so an address that cannot be converted sends nothing. The error is reported as one of \<^verbatim>\<open>send\<close>.\<close>

definition lwt_unix_sendto :: "(string \<Rightarrow> int) \<Rightarrow> (caml_value \<Rightarrow> char list outcome) \<Rightarrow> (int \<Rightarrow> char list \<Rightarrow> int \<Rightarrow> char list \<Rightarrow> ('os, int) syscall)
    \<Rightarrow> int \<Rightarrow> nat \<Rightarrow> int \<Rightarrow> int \<Rightarrow> int list \<Rightarrow> caml_value \<Rightarrow> ('x, 'os) cst \<Rightarrow> (caml_value outcome \<times> ('x, 'os) cst) option" where
  "lwt_unix_sendto K get_sockaddr sendto_c fd buf ofs len flags dest s =
     (case get_sockaddr dest of
        Raise x \<Rightarrow> Some (Raise x, s)
      | Ret addr \<Rightarrow> do {
          fl \<leftarrow> flags_of (msg_flag_table K) flags;
          d \<leftarrow> bufs s buf;
          src \<leftarrow> read_at d (nat ofs) (nat len);
          let (r, e, w) = sendto_c (c_int fd) src fl addr (c_errno s) (os s);
          let ret = c_int r;
          let s = s\<lparr>c_errno := e, os := w\<rparr>;
          if ret = -1 then Some (Raise (Unix_error e ''send'' Nothing), s)
          else Some (Ret (Val_int ret), s)
        })"

definition lwt_unix_bytes_sendto :: "(string \<Rightarrow> int) \<Rightarrow> (caml_value \<Rightarrow> char list outcome) \<Rightarrow> (int \<Rightarrow> char list \<Rightarrow> int \<Rightarrow> char list \<Rightarrow> ('os, int) syscall)
    \<Rightarrow> int \<Rightarrow> nat \<Rightarrow> int \<Rightarrow> int \<Rightarrow> int list \<Rightarrow> caml_value \<Rightarrow> ('x, 'os) cst \<Rightarrow> (caml_value outcome \<times> ('x, 'os) cst) option" where
  "lwt_unix_bytes_sendto K get_sockaddr sendto_c fd buf ofs len flags dest s =
     (case get_sockaddr dest of
        Raise x \<Rightarrow> Some (Raise x, s)
      | Ret addr \<Rightarrow> do {
          fl \<leftarrow> flags_of (msg_flag_table K) flags;
          d \<leftarrow> bufs s buf;
          src \<leftarrow> read_at d (nat ofs) (nat len);
          let (r, e, w) = sendto_c (c_int fd) src fl addr (c_errno s) (os s);
          let ret = c_int r;
          let s = s\<lparr>c_errno := e, os := w\<rparr>;
          if ret = -1 then Some (Raise (Unix_error e ''send'' Nothing), s)
          else Some (Ret (Val_int ret), s)
        })"

section \<open>Slices and file descriptors\<close>

text \<open>An \<^verbatim>\<open>int\<close> in memory, least significant byte first.\<close>

definition int_bytes :: "int \<Rightarrow> char list" where
  "int_bytes i = map (\<lambda>k. char_of (drop_bit (8 * k) i)) [0..<4]"

definition int_at :: "char list \<Rightarrow> nat \<Rightarrow> int option" where
  "int_at d i = do { bs \<leftarrow> read_at d (4 * i) 4; Some (c_int (horner_sum of_char 256 bs)) }"

text \<open>An ancillary message: its level, its type and its data, the bytes between \<^verbatim>\<open>CMSG_DATA\<close> and \<^verbatim>\<open>cmsg_len\<close>.\<close>

record cmsg =
  cmsg_level :: int
  cmsg_type :: int
  cmsg_data :: "char list"

text \<open>\<^verbatim>\<open>CMSG_ALIGN\<close>: the data area of a message that \<^verbatim>\<open>CMSG_SPACE (n)\<close> makes room for has \<open>cmsg_align n\<close> bytes.\<close>

definition cmsg_align :: "nat \<Rightarrow> nat" where
  "cmsg_align n = (n + 7) div 8 * 8"

text \<open>The inner loop of \<^verbatim>\<open>wrapper_recv_msg\<close>: \<open>i\<close> descriptors are left, and \<open>list\<close> is built from its end.\<close>

fun cons_fds :: "char list \<Rightarrow> nat \<Rightarrow> caml_value \<Rightarrow> caml_value option" where
  "cons_fds fds 0 xs = Some xs"
| "cons_fds fds (Suc i) xs = do { x \<leftarrow> int_at fds i; cons_fds fds i (Block 0 [Val_int x, xs]) }"

text \<open>The outer loop, which ends at the first message with descriptors.\<close>

fun find_rights :: "(string \<Rightarrow> int) \<Rightarrow> cmsg list \<Rightarrow> caml_value option" where
  "find_rights K [] = Some (Val_int 0)"
| "find_rights K (cm # cms) =
     (if cmsg_level cm = K ''SOL_SOCKET'' \<and> cmsg_type cm = K ''SCM_RIGHTS''
      then cons_fds (cmsg_data cm) (length (cmsg_data cm) div 4) (Val_int 0)
      else find_rights K cms)"

text \<open>
  \<^verbatim>\<open>recvmsg\<close> gets the descriptor, the total length of the vectors and the room for control messages. \<open>fd_passing\<close> is \<^verbatim>\<open>HAVE_FD_PASSING\<close>; without it
  there is no room for control messages and they are not looked at.
\<close>

definition wrapper_recv_msg :: "bool \<Rightarrow> (string \<Rightarrow> int) \<Rightarrow> (int \<Rightarrow> nat \<Rightarrow> nat \<Rightarrow> ('os, int \<times> char list \<times> cmsg list) syscall) \<Rightarrow> int \<Rightarrow> iovec list
    \<Rightarrow> ('x, 'os) cst \<Rightarrow> (caml_value outcome \<times> ('x, 'os) cst) option" where
  "wrapper_recv_msg fd_passing K recvmsg_c fd iovs s = do {
     let room = (if fd_passing then cmsg_align (256 * 4) else 0);
     let ((r, bs, cms), e, w) = recvmsg_c fd (sum_list (map iov_len iovs)) room (c_errno s) (os s);
     s \<leftarrow> scatter iovs bs s;
     let ret = c_int r;
     let s = s\<lparr>c_errno := e, os := w\<rparr>;
     if ret = -1 then Some (Raise (Unix_error e ''recv_msg'' Nothing), s)
     else do {
       xs \<leftarrow> (if fd_passing then find_rights K cms else Some (Val_int 0));
       Some (Ret (Block 0 [Val_int ret, xs]), s)
     }
   }"

definition lwt_unix_recv_msg :: "bool \<Rightarrow> (string \<Rightarrow> int) \<Rightarrow> (int \<Rightarrow> nat \<Rightarrow> nat \<Rightarrow> ('os, int \<times> char list \<times> cmsg list) syscall) \<Rightarrow> int \<Rightarrow> int \<Rightarrow> io_vector list
    \<Rightarrow> ('x, 'os) cst \<Rightarrow> (caml_value outcome \<times> ('x, 'os) cst) option" where
  "lwt_unix_recv_msg fd_passing K recvmsg_c val_fd val_n_iovs val_iovs s = do {
     let n_iovs = c_int val_n_iovs;
     (iovs, _, _, s) \<leftarrow> flatten_io_vectors False False (nat n_iovs) val_iovs [] (\<lambda>_. NUL) s;
     wrapper_recv_msg fd_passing K recvmsg_c (c_int val_fd) iovs s
   }"

text \<open>
  The block of \<^verbatim>\<open>wrapper_send_msg\<close> for the destination. \<open>locals\<close> holds the variables with block scope that are alive: the variable \<^verbatim>\<open>addr\<close>, here at
  address 0, whose lifetime ends with the block. \<^verbatim>\<open>msg_name\<close> is an address of \<open>locals\<close> and \<^verbatim>\<open>msg_namelen\<close> the length.
\<close>

definition send_dest :: "(caml_value \<Rightarrow> char list outcome) \<Rightarrow> caml_value option \<Rightarrow> (nat option \<times> nat \<times> (nat \<rightharpoonup> char list)) outcome" where
  "send_dest get_sockaddr dest =
     (let locals = Map.empty in
      case dest of
        None \<Rightarrow> Ret (None, 0, locals)
      | Some d \<Rightarrow>
          (case get_sockaddr d of
             Raise x \<Rightarrow> Raise x
           | Ret addr \<Rightarrow>
               let locals = locals(0 \<mapsto> addr);
                   msg_name = Some 0;
                   msg_namelen = length addr
               in Ret (msg_name, msg_namelen, locals(0 := None))))"

text \<open>What \<^verbatim>\<open>sendmsg\<close> reads through \<^verbatim>\<open>msg_name\<close>: \<open>None\<close> when the object it points to is not alive.\<close>

definition read_name :: "nat option \<Rightarrow> nat \<Rightarrow> (nat \<rightharpoonup> char list) \<Rightarrow> char list option option" where
  "read_name name len locals =
     (case name of None \<Rightarrow> Some None
      | Some p \<Rightarrow> do { d \<leftarrow> locals p; bs \<leftarrow> read_at d 0 len; Some (Some bs) })"

text \<open>The loop that stores the descriptors after one another, as many as the OCaml list has.\<close>

fun store_fds :: "int list \<Rightarrow> nat \<Rightarrow> char list \<Rightarrow> char list option" where
  "store_fds [] i d = Some d"
| "store_fds (x # xs) i d = do { d \<leftarrow> write_at d (4 * i) (int_bytes (c_int x)); store_fds xs (i + 1) d }"

text \<open>The control message: \<open>CMSG_LEN\<close> covers the data of \<open>n_fds\<close> descriptors of the zeroed area.\<close>

definition send_control :: "(string \<Rightarrow> int) \<Rightarrow> int \<Rightarrow> int list \<Rightarrow> cmsg list option" where
  "send_control K n_fds fds =
     (if n_fds > 0 then do {
        let n = nat n_fds * 4;
        area \<leftarrow> store_fds fds 0 (replicate (cmsg_align n) NUL);
        Some [\<lparr>cmsg_level = K ''SOL_SOCKET'', cmsg_type = K ''SCM_RIGHTS'', cmsg_data = take n area\<rparr>]
      } else Some [])"

definition wrapper_send_msg :: "bool \<Rightarrow> (string \<Rightarrow> int) \<Rightarrow> (caml_value \<Rightarrow> char list outcome)
    \<Rightarrow> (int \<Rightarrow> char list option \<Rightarrow> char list \<Rightarrow> cmsg list \<Rightarrow> ('os, int) syscall) \<Rightarrow> int \<Rightarrow> iovec list \<Rightarrow> int \<Rightarrow> int list \<Rightarrow> caml_value option
    \<Rightarrow> ('x, 'os) cst \<Rightarrow> (caml_value outcome \<times> ('x, 'os) cst) option" where
  "wrapper_send_msg fd_passing K get_sockaddr sendmsg_c fd iovs val_n_fds val_fds dest s =
     (case send_dest get_sockaddr dest of
        Raise x \<Rightarrow> Some (Raise x, s)
      | Ret (msg_name, msg_namelen, locals) \<Rightarrow>
          let n_fds = c_int val_n_fds in
          if \<not> fd_passing \<and> n_fds > 0 then Some (lwt_unix_not_available ''fd_passing'', s)
          else do {
            cms \<leftarrow> (if fd_passing then send_control K n_fds val_fds else Some []);
            src \<leftarrow> gather iovs s;
            name \<leftarrow> read_name msg_name msg_namelen locals;
            let (r, e, w) = sendmsg_c fd name src cms (c_errno s) (os s);
            let ret = c_int r;
            let s = s\<lparr>c_errno := e, os := w\<rparr>;
            if ret = -1 then Some (Raise (Unix_error e ''send_msg'' Nothing), s)
            else Some (Ret (Val_int ret), s)
          })"

definition lwt_unix_send_msg :: "bool \<Rightarrow> (string \<Rightarrow> int) \<Rightarrow> (caml_value \<Rightarrow> char list outcome)
    \<Rightarrow> (int \<Rightarrow> char list option \<Rightarrow> char list \<Rightarrow> cmsg list \<Rightarrow> ('os, int) syscall) \<Rightarrow> int \<Rightarrow> int \<Rightarrow> io_vector list \<Rightarrow> int \<Rightarrow> int list \<Rightarrow> caml_value option
    \<Rightarrow> ('x, 'os) cst \<Rightarrow> (caml_value outcome \<times> ('x, 'os) cst) option" where
  "lwt_unix_send_msg fd_passing K get_sockaddr sendmsg_c val_fd val_n_iovs val_iovs val_n_fds val_fds val_dest s = do {
     let n_iovs = c_int val_n_iovs;
     (iovs, _, _, s) \<leftarrow> flatten_io_vectors False False (nat n_iovs) val_iovs [] (\<lambda>_. NUL) s;
     wrapper_send_msg fd_passing K get_sockaddr sendmsg_c (c_int val_fd) iovs val_n_fds val_fds val_dest s
   }"

section \<open>Specification of the transfers\<close>

definition overwrite :: "char list \<Rightarrow> nat \<Rightarrow> char list \<Rightarrow> char list" where
  "overwrite d off bs = take off d @ bs @ drop (off + length bs) d"

definition answer_int :: "string \<Rightarrow> int \<Rightarrow> int \<Rightarrow> caml_value outcome" where
  "answer_int name r e = (if r = -1 then Raise (Unix_error e name Nothing) else Ret (Val_int r))"

text \<open>One system call; the bytes it returns replace those of the buffer from the offset on, and nothing else changes.\<close>

definition recv_spec :: "nat \<Rightarrow> nat \<Rightarrow> ('os, int \<times> char list) syscall \<Rightarrow> ('x, 'os) cst \<Rightarrow> caml_value outcome \<times> ('x, 'os) cst" where
  "recv_spec buf ofs c s = (case c (c_errno s) (os s) of ((r, bs), e, w) \<Rightarrow>
     (answer_int ''recv'' r e, s\<lparr>bufs := (bufs s)(buf \<mapsto> overwrite (the (bufs s buf)) ofs bs), c_errno := e, os := w\<rparr>))"

text \<open>The same with the address of the sender, which is read back from exactly the bytes that the system stored.\<close>

definition recvfrom_spec :: "nat \<Rightarrow> (char list \<Rightarrow> nat \<Rightarrow> int \<Rightarrow> ('os, caml_value outcome) syscall) \<Rightarrow> nat \<Rightarrow> nat
    \<Rightarrow> ('os, int \<times> char list \<times> char list \<times> nat) syscall \<Rightarrow> ('x, 'os) cst \<Rightarrow> caml_value outcome \<times> ('x, 'os) cst" where
  "recvfrom_spec SA alloc_sockaddr buf ofs c s = (case c (c_errno s) (os s) of ((r, bs, sender, len), e, w) \<Rightarrow>
     let s = s\<lparr>bufs := (bufs s)(buf \<mapsto> overwrite (the (bufs s buf)) ofs bs)\<rparr> in
     if r = -1 then (Raise (Unix_error e ''recvfrom'' Nothing), s\<lparr>c_errno := e, os := w\<rparr>)
     else case alloc_sockaddr (sender @ replicate (SA - length sender) NUL) len (-1) e w of (a, e, w) \<Rightarrow>
       (case a of Raise x \<Rightarrow> Raise x | Ret address \<Rightarrow> Ret (Block 0 [Val_int r, address]), s\<lparr>c_errno := e, os := w\<rparr>))"

definition send_spec :: "string \<Rightarrow> ('os, int) syscall \<Rightarrow> ('x, 'os) cst \<Rightarrow> caml_value outcome \<times> ('x, 'os) cst" where
  "send_spec name c s = (case c (c_errno s) (os s) of (r, e, w) \<Rightarrow> (answer_int name r e, s\<lparr>c_errno := e, os := w\<rparr>))"

text \<open>
  What the code relies on: \<^verbatim>\<open>recvfrom\<close> stores at most what it was asked for and truncates the address to the room it has, and
  the conversion of an address reads only its first bytes.
\<close>

definition recvfrom_contract :: "nat \<Rightarrow> nat \<Rightarrow> ('os, int \<times> char list \<times> char list \<times> nat) syscall \<Rightarrow> bool" where
  "recvfrom_contract len SA c \<longleftrightarrow> (\<forall>e w. case c e w of ((r, bs, sender, n), _) \<Rightarrow>
     -1 \<le> r \<and> r \<le> int len \<and> length bs = nat r \<and> length sender = min n SA)"

definition sockaddr_contract :: "nat \<Rightarrow> (char list \<Rightarrow> nat \<Rightarrow> int \<Rightarrow> ('os, caml_value outcome) syscall) \<Rightarrow> bool" where
  "sockaddr_contract SA alloc_sockaddr \<longleftrightarrow> (\<forall>a b n fd. length a = SA \<longrightarrow> length b = SA \<longrightarrow> take n a = take n b \<longrightarrow>
     alloc_sockaddr a n fd = alloc_sockaddr b n fd)"

text \<open>The system never sends more than it is given.\<close>

definition send_contract :: "nat \<Rightarrow> ('os, int) syscall \<Rightarrow> bool" where
  "send_contract len c \<longleftrightarrow> (\<forall>e w. case c e w of (r, _) \<Rightarrow> -1 \<le> r \<and> r \<le> int len)"

lemma send_contractD: "send_contract len c \<Longrightarrow> c e w = (r, e', w') \<Longrightarrow> int len < 2 ^ 31 \<Longrightarrow> c_int r = r"
  by (subst c_int_id) (auto simp: send_contract_def dest!: spec [of _ e] spec [of _ w])

lemma read_contract_c_int: "read_contract len c \<Longrightarrow> c e w = ((r, bs), e', w') \<Longrightarrow> int len < 2 ^ 31 \<Longrightarrow> c_int r = r"
  by (subst c_int_id) (auto simp: read_contract_def dest!: spec [of _ e] spec [of _ w])

lemma recv_correct:
  assumes b: "in_buffer buf ofs len s" and l: "len < 2 ^ 31" and fl: "flags_of (msg_flag_table K) flags = Some fl"
    and c: "read_contract (nat len) (recv_c (c_int fd) (nat len) fl)"
  shows "lwt_unix_recv K recv_c fd buf ofs len flags s = Some (recv_spec buf (nat ofs) (recv_c (c_int fd) (nat len) fl) s)"
proof -
  obtain r bs e w where r: "recv_c (c_int fd) (nat len) fl (c_errno s) (os s) = ((r, bs), e, w)" by (metis prod.collapse)
  obtain d where d: "bufs s buf = Some d" "0 \<le> len" "nat ofs + nat len \<le> length d" using b unfolding in_buffer_def by auto
  have i: "c_int r = r" using l d by (intro read_contract_c_int [OF c r]) auto
  have "nat ofs + length bs \<le> length d" using read_contractD [OF c r] d by auto
  then show ?thesis using d fl r i by (simp add: lwt_unix_recv_def recv_spec_def overwrite_def answer_int_def)
qed

lemma bytes_recv_eq: "lwt_unix_bytes_recv = lwt_unix_recv"
  by (intro ext) (simp add: lwt_unix_bytes_recv_def lwt_unix_recv_def)

text \<open>The requested range of a buffer.\<close>

definition range_of :: "nat \<Rightarrow> int \<Rightarrow> int \<Rightarrow> ('x, 'os) cst \<Rightarrow> char list" where
  "range_of buf ofs len s = take (nat len) (drop (nat ofs) (the (bufs s buf)))"

lemma send_correct:
  assumes b: "in_buffer buf ofs len s" and l: "len < 2 ^ 31" and fl: "flags_of (msg_flag_table K) flags = Some fl"
    and c: "send_contract (nat len) (send_c (c_int fd) (range_of buf ofs len s) fl)"
  shows "lwt_unix_send K send_c fd buf ofs len flags s = Some (send_spec ''send'' (send_c (c_int fd) (range_of buf ofs len s) fl) s)"
proof -
  obtain d where d: "bufs s buf = Some d" "0 \<le> len" "nat ofs + nat len \<le> length d" using b unfolding in_buffer_def by auto
  obtain r e w where r: "send_c (c_int fd) (range_of buf ofs len s) fl (c_errno s) (os s) = (r, e, w)" by (metis prod_cases3)
  have "c_int r = r" using l d by (intro send_contractD [OF c r]) auto
  with d fl r show ?thesis by (simp add: lwt_unix_send_def send_spec_def answer_int_def range_of_def)
qed

lemma bytes_send_eq: "lwt_unix_bytes_send = lwt_unix_send"
  by (intro ext) (simp add: lwt_unix_bytes_send_def lwt_unix_send_def)

text \<open>With the address fixed, \<^verbatim>\<open>sendto\<close> is \<^verbatim>\<open>send\<close>.\<close>

lemma sendto_send:
  "lwt_unix_sendto K get_sockaddr sendto_c fd buf ofs len flags dest s = (case get_sockaddr dest of Raise x \<Rightarrow> Some (Raise x, s)
     | Ret addr \<Rightarrow> lwt_unix_send K (\<lambda>fd src fl. sendto_c fd src fl addr) fd buf ofs len flags s)"
  by (simp add: lwt_unix_sendto_def lwt_unix_send_def split: outcome.split)

lemma bytes_sendto_eq: "lwt_unix_bytes_sendto = lwt_unix_sendto"
  by (intro ext) (simp add: lwt_unix_bytes_sendto_def lwt_unix_sendto_def)

lemma recvfrom_correct:
  assumes b: "in_buffer buf ofs len s" and l: "len < 2 ^ 31" and fl: "flags_of (msg_flag_table K) flags = Some fl"
    and c: "recvfrom_contract (nat len) SA (recvfrom_c (c_int fd) (nat len) fl SA)" and sa: "sockaddr_contract SA alloc_sockaddr"
  shows "lwt_unix_recvfrom K SA g recvfrom_c alloc_sockaddr fd buf ofs len flags s =
    Some (recvfrom_spec SA alloc_sockaddr buf (nat ofs) (recvfrom_c (c_int fd) (nat len) fl SA) s)"
proof -
  obtain r bs sender n e w where r: "recvfrom_c (c_int fd) (nat len) fl SA (c_errno s) (os s) = ((r, bs, sender, n), e, w)"
    by (metis prod.collapse)
  obtain d where d: "bufs s buf = Some d" "0 \<le> len" "nat ofs + nat len \<le> length d" using b unfolding in_buffer_def by auto
  have k: "-1 \<le> r" "r \<le> len" "length bs = nat r" "length sender = min n SA"
    using c [unfolded recvfrom_contract_def, rule_format, of "c_errno s" "os s"] r d by auto
  have i: "c_int r = r" using k l by (intro c_int_id) auto
  have f: "write_at d (nat ofs) bs = Some (overwrite d (nat ofs) bs)" using k d by (simp add: overwrite_def)
  let ?a = "sender @ drop (length sender) (uninit g SA)" and ?b = "sender @ replicate (SA - length sender) NUL"
  have a: "write_at (uninit g SA) 0 sender = Some ?a" using k by simp
  have "take n ?a = take n ?b" using k by (cases "n \<le> SA") auto
  then have "alloc_sockaddr ?a n (-1) = alloc_sockaddr ?b n (-1)"
    using sa k unfolding sockaddr_contract_def by auto
  with d fl r i f a show ?thesis
    by (simp add: lwt_unix_recvfrom_def recvfrom_spec_def Let_def split: prod.split outcome.split)
qed

lemma bytes_recvfrom_eq: "lwt_unix_bytes_recvfrom = lwt_unix_recvfrom"
  by (intro ext) (simp add: lwt_unix_bytes_recvfrom_def lwt_unix_recvfrom_def)

lemmas bytes_eqs = bytes_recv_eq bytes_send_eq bytes_recvfrom_eq bytes_sendto_eq

section \<open>Messages with descriptors\<close>

lemma horner_int_bytes: "horner_sum of_char 256 (int_bytes i) = i mod 2 ^ 32" for i :: int
proof -
  have "horner_sum of_char 256 (int_bytes i) =
      i mod 256 + 256 * (i div 256 mod 256 + 256 * (i div 256 div 256 mod 256 + 256 * (i div 256 div 256 div 256 mod 256)))"
    by (simp add: int_bytes_def upt_rec drop_bit_eq_div of_char_of zdiv_zmult2_eq [symmetric])
  also have "\<dots> = i mod (256 * (256 * (256 * 256)))" by (simp only: zmod_zmult2_eq) simp
  finally show ?thesis by simp
qed

lemma length_int_bytes [simp]: "length (int_bytes i) = 4"
  by (simp add: int_bytes_def)

lemma int_at_int_bytes: "int_at (xs @ int_bytes x @ ys) i = Some (c_int x)" if "length xs = 4 * i"
proof -
  have "c_int (horner_sum of_char 256 (int_bytes x)) = c_int x"
    by (simp only: horner_int_bytes c_int_def take_bit_eq_mod [symmetric] signed_take_bit_take_bit) simp
  then show ?thesis using that by (simp add: int_at_def)
qed

definition fds_bytes :: "int list \<Rightarrow> char list" where
  "fds_bytes fds = concat (map int_bytes fds)"

lemma length_fds_bytes [simp]: "length (fds_bytes fds) = 4 * length fds"
  by (induction fds) (simp_all add: fds_bytes_def)

lemma fds_bytes_append: "fds_bytes (xs @ ys) = fds_bytes xs @ fds_bytes ys"
  by (simp add: fds_bytes_def)

lemma cons_fds_prefix:
  "cons_fds (fds_bytes fds @ ys) (length fds) (Val_list vs) = Some (Val_list (map (\<lambda>x. Val_int (c_int x)) fds @ vs))"
proof (induction fds arbitrary: ys vs rule: rev_induct)
  case (snoc x fds)
  have "int_at (fds_bytes fds @ int_bytes x @ ys) (length fds) = Some (c_int x)" by (rule int_at_int_bytes) simp
  moreover have "fds_bytes (fds @ [x]) @ ys = fds_bytes fds @ int_bytes x @ ys" by (simp add: fds_bytes_def)
  ultimately show ?case using snoc [of "int_bytes x @ ys" "Val_int (c_int x) # vs"] by simp
qed (simp add: fds_bytes_def)

text \<open>The control message for a list of descriptors.\<close>

definition fd_message :: "(string \<Rightarrow> int) \<Rightarrow> int list \<Rightarrow> cmsg list" where
  "fd_message K fds = (if fds = [] then [] else [\<lparr>cmsg_level = K ''SOL_SOCKET'', cmsg_type = K ''SCM_RIGHTS'', cmsg_data = fds_bytes fds\<rparr>])"

lemma find_rights_message:
  "\<forall>x\<in>set fds. c_int x = x \<Longrightarrow> find_rights K (fd_message K fds) = Some (Val_list (map Val_int fds))"
  using cons_fds_prefix [of fds "[]" "[]"]
  by (auto simp: fd_message_def Val_emptylist_def Val_int_def caml_int_id cong: map_cong)

lemma store_fds_prefix:
  "length xs = 4 * i \<Longrightarrow> 4 * length fds \<le> length ys \<Longrightarrow> \<forall>x\<in>set fds. c_int x = x \<Longrightarrow>
     store_fds fds i (xs @ ys) = Some (xs @ fds_bytes fds @ drop (4 * length fds) ys)"
proof (induction fds arbitrary: i xs ys)
  case (Cons x fds)
  have "write_at (xs @ ys) (4 * i) (int_bytes (c_int x)) = Some ((xs @ int_bytes x) @ drop 4 ys)" using Cons.prems by simp
  with Cons.IH [of "xs @ int_bytes x" "i + 1" "drop 4 ys"] Cons.prems show ?case by (simp add: fds_bytes_def add.commute)
qed (simp add: fds_bytes_def)

lemma cmsg_align_ge: "n \<le> cmsg_align n"
  unfolding cmsg_align_def by presburger

lemma send_control_message:
  assumes "\<forall>x\<in>set fds. c_int x = x"
  shows "send_control K (int (length fds)) fds = Some (fd_message K fds)"
proof (cases "fds = []")
  case False
  have "store_fds fds 0 (replicate (cmsg_align (length fds * 4)) NUL) =
      Some (fds_bytes fds @ drop (4 * length fds) (replicate (cmsg_align (length fds * 4)) NUL))"
    using store_fds_prefix [of "[]" 0 fds "replicate (cmsg_align (length fds * 4)) NUL"] assms cmsg_align_ge [of "length fds * 4"] by simp
  with False show ?thesis by (simp add: send_control_def fd_message_def)
qed (simp add: send_control_def fd_message_def)

section \<open>Receiving into several slices\<close>

definition apart :: "io_vector \<Rightarrow> io_vector \<Rightarrow> bool" where
  "apart u v \<longleftrightarrow> buffer_id (v_buffer u) \<noteq> buffer_id (v_buffer v) \<or>
     nat (v_offset u) + nat (v_length u) \<le> nat (v_offset v) \<or> nat (v_offset v) + nat (v_length v) \<le> nat (v_offset u)"

lemma apart_sym: "apart u v \<Longrightarrow> apart v u"
  by (auto simp: apart_def)

lemma overwrite_slice:
  assumes "length bs \<le> l" and "off + l \<le> length d"
  shows "take l (drop off (overwrite d off bs)) = bs @ drop (length bs) (take l (drop off d))"
  using assms by (simp add: overwrite_def drop_take add.commute)

lemma overwrite_apart:
  assumes "off + length bs \<le> length d" and "k \<le> off \<or> off + length bs \<le> n" and "n \<le> k"
  shows "take (k - n) (drop n (overwrite d off bs)) = take (k - n) (drop n d)"
proof (cases "k \<le> off")
  case True
  then show ?thesis using assms by (simp add: overwrite_def drop_take)
next
  case False
  then show ?thesis using assms by (simp add: overwrite_def add.commute)
qed

lemma slice_store:
  assumes "slice_ok B v" and "length bs \<le> nat (v_length v)"
    and "B' = B(buffer_id (v_buffer v) \<mapsto> overwrite (the (B (buffer_id (v_buffer v)))) (nat (v_offset v)) bs)"
  shows "slice B' v = bs @ drop (length bs) (slice B v)"
    and "slice_ok B u \<Longrightarrow> slice_ok B' u" and "slice_ok B u \<Longrightarrow> apart v u \<Longrightarrow> slice B' u = slice B u"
proof -
  obtain d where d: "B (buffer_id (v_buffer v)) = Some d" "nat (v_offset v) + nat (v_length v) \<le> length d"
    using assms(1) by (auto simp: slice_ok_def)
  show "slice B' v = bs @ drop (length bs) (slice B v)"
    using assms(2,3) d by (simp add: slice_def overwrite_slice)
  have len: "length (overwrite d (nat (v_offset v)) bs) = length d" using d assms(2) by (simp add: overwrite_def)
  then show "slice_ok B u \<Longrightarrow> slice_ok B' u" using d assms(3) by (auto simp: slice_ok_def)
  show "slice B' u = slice B u" if "slice_ok B u" "apart v u"
    using overwrite_apart [of "nat (v_offset v)" bs d "nat (v_offset u) + nat (v_length u)" "nat (v_offset u)"] that d assms(2,3)
    by (auto simp: slice_def apart_def)
qed

lemma iov_len_direct [simp]: "iov_len (direct_iovec v) = nat (v_length v)"
  by (simp add: direct_iovec_def)

lemma fill_append:
  assumes "length x = l"
  shows "(take l bs @ drop (length (take l bs)) x) @ drop l bs @ drop (length (drop l bs)) y = bs @ drop (length bs) (x @ y)"
proof (cases "length bs \<le> l")
  case False
  then have "drop (length (take l bs)) x = []" "drop (length bs) (x @ y) = drop (length (drop l bs)) y" using assms by simp_all
  then show ?thesis by (metis append.right_neutral append_assoc append_take_drop_id)
qed (use assms in simp)

lemma scatter_apart:
  assumes "\<forall>v\<in>set vs. slice_ok (bufs s) v" and "sorted_wrt apart vs" and "length bs \<le> sum_list (map (\<lambda>v. nat (v_length v)) vs)"
  shows "\<exists>B. scatter (map direct_iovec vs) bs s = Some (s\<lparr>bufs := B\<rparr>) \<and>
    concat (map (slice B) vs) = bs @ drop (length bs) (concat (map (slice (bufs s)) vs)) \<and>
    (\<forall>u. slice_ok (bufs s) u \<longrightarrow> (\<forall>v\<in>set vs. apart v u) \<longrightarrow> slice B u = slice (bufs s) u)"
  using assms
proof (induction vs arbitrary: bs s)
  case Nil
  then show ?case by (auto intro!: exI [of _ "bufs s"])
next
  case (Cons v vs)
  let ?l = "nat (v_length v)" and ?b = "buffer_id (v_buffer v)"
  define B' where "B' = (bufs s)(?b \<mapsto> overwrite (the (bufs s ?b)) (nat (v_offset v)) (take ?l bs))"
  have ok: "slice_ok (bufs s) v" using Cons.prems by simp
  have le: "length (take ?l bs) \<le> ?l" by simp
  note st = slice_store [OF ok le B'_def]
  have sl: "length (slice (bufs s) v) = ?l" using ok by (auto simp: slice_ok_def slice_def)
  have eq: "map (slice B') vs = map (slice (bufs s)) vs" using Cons.prems st(3) by auto
  have rest: "length (drop ?l bs) \<le> sum_list (map (\<lambda>v. nat (v_length v)) vs)" using Cons.prems(3) by simp
  have "store (direct_iovec v) (take ?l bs) s = Some (s\<lparr>bufs := B'\<rparr>)"
    using ok by (auto simp: store_def direct_iovec_def slice_ok_def B'_def overwrite_def)
  moreover have "\<forall>u\<in>set vs. slice_ok (bufs (s\<lparr>bufs := B'\<rparr>)) u" using Cons.prems(1) st(2) by simp
  note Cons.IH [OF this _ rest]
  then obtain B where B: "scatter (map direct_iovec vs) (drop ?l bs) (s\<lparr>bufs := B'\<rparr>) = Some (s\<lparr>bufs := B\<rparr>)"
      "concat (map (slice B) vs) = drop ?l bs @ drop (length (drop ?l bs)) (concat (map (slice (bufs s)) vs))"
      "\<And>u. slice_ok B' u \<Longrightarrow> \<forall>v\<in>set vs. apart v u \<Longrightarrow> slice B u = slice B' u"
    using Cons.prems(2) by (auto simp: eq)
  moreover have "slice B v = take ?l bs @ drop (length (take ?l bs)) (slice (bufs s) v)"
    using B(3) [of v] Cons.prems(2) st(1) st(2) [OF ok] by (simp add: apart_sym)
  moreover have "concat (map (slice B) (v # vs)) = bs @ drop (length bs) (concat (map (slice (bufs s)) (v # vs)))"
    using fill_append [OF sl, of bs "concat (map (slice (bufs s)) vs)"] calculation(3,5) by simp
  ultimately show ?case using st(2,3) by (intro exI [of _ B] conjI) simp_all
qed

text \<open>What the code relies on for \<^verbatim>\<open>recvmsg\<close>.\<close>

definition recvmsg_contract :: "nat \<Rightarrow> ('os, int \<times> char list \<times> cmsg list) syscall \<Rightarrow> bool" where
  "recvmsg_contract len c \<longleftrightarrow> (\<forall>e w. case c e w of ((r, bs, _), _) \<Rightarrow> -1 \<le> r \<and> r \<le> int len \<and> length bs = nat r)"

definition iov_total :: "io_vector list \<Rightarrow> nat" where
  "iov_total vs = sum_list (map (\<lambda>v. nat (v_length v)) vs)"

lemma recv_msg_correct:
  assumes n: "length vs < 2 ^ 31" and ok: "\<forall>v\<in>set vs. slice_ok (bufs s) v" and ap: "sorted_wrt apart vs" and t: "int (iov_total vs) < 2 ^ 31"
    and c: "recvmsg_contract (iov_total vs) (recvmsg_c (c_int fd) (iov_total vs) 1024)"
    and r: "recvmsg_c (c_int fd) (iov_total vs) 1024 (c_errno s) (os s) = ((r, bs, fd_message K fds), e, w)" and fds: "\<forall>x\<in>set fds. c_int x = x"
  shows "\<exists>B. lwt_unix_recv_msg True K recvmsg_c fd (int (length vs)) vs s =
      Some (if r = -1 then Raise (Unix_error e ''recv_msg'' Nothing) else Ret (Block 0 [Val_int r, Val_list (map Val_int fds)]),
        s\<lparr>bufs := B, c_errno := e, os := w\<rparr>) \<and>
    concat (map (slice B) vs) = bs @ drop (length bs) (concat (map (slice (bufs s)) vs)) \<and>
    (\<forall>u. slice_ok (bufs s) u \<longrightarrow> (\<forall>v\<in>set vs. apart v u) \<longrightarrow> slice B u = slice (bufs s) u)"
proof -
  have k: "-1 \<le> r" "r \<le> int (iov_total vs)" "length bs = nat r"
    using c [unfolded recvmsg_contract_def, rule_format, of "c_errno s" "os s"] r by auto
  have b: "length bs \<le> sum_list (map (\<lambda>v. nat (v_length v)) vs)" using k(2,3) unfolding iov_total_def by linarith
  have i: "c_int r = r" using k t by (intro c_int_id) auto
  have m: "c_int (int (length vs)) = int (length vs)" using n by (intro c_int_id) auto
  have tot: "sum_list (map iov_len (map direct_iovec vs)) = iov_total vs" by (simp add: iov_total_def comp_def)
  obtain B where B: "scatter (map direct_iovec vs) bs s = Some (s\<lparr>bufs := B\<rparr>)"
    "concat (map (slice B) vs) = bs @ drop (length bs) (concat (map (slice (bufs s)) vs))"
    "\<forall>u. slice_ok (bufs s) u \<longrightarrow> (\<forall>v\<in>set vs. apart v u) \<longrightarrow> slice B u = slice (bufs s) u"
    using scatter_apart [OF ok ap, of bs] b by auto
  have room: "cmsg_align 1024 = 1024" by (simp add: cmsg_align_def)
  have "lwt_unix_recv_msg True K recvmsg_c fd (int (length vs)) vs s =
      Some (if r = -1 then Raise (Unix_error e ''recv_msg'' Nothing) else Ret (Block 0 [Val_int r, Val_list (map Val_int fds)]),
        s\<lparr>bufs := B, c_errno := e, os := w\<rparr>)"
    using m r i B(1) find_rights_message [OF fds, of K]
    by (simp add: lwt_unix_recv_msg_def wrapper_recv_msg_def flatten_direct tot room del: map_map)
  with B show ?thesis by blast
qed

lemma send_msg_correct:
  assumes n: "length vs < 2 ^ 31" and ok: "\<forall>v\<in>set vs. slice_ok (bufs s) v" and t: "int (iov_total vs) < 2 ^ 31"
    and m: "length fds < 2 ^ 31" and fds: "\<forall>x\<in>set fds. c_int x = x"
    and c: "send_contract (iov_total vs) (sendmsg_c (c_int fd) None (concat (map (slice (bufs s)) vs)) (fd_message K fds))"
  shows "lwt_unix_send_msg True K get_sockaddr sendmsg_c fd (int (length vs)) vs (int (length fds)) fds None s =
    Some (send_spec ''send_msg'' (sendmsg_c (c_int fd) None (concat (map (slice (bufs s)) vs)) (fd_message K fds)) s)"
proof -
  obtain r e w where r: "sendmsg_c (c_int fd) None (concat (map (slice (bufs s)) vs)) (fd_message K fds) (c_errno s) (os s) = (r, e, w)"
    by (metis prod_cases3)
  have i: "c_int r = r" by (rule send_contractD [OF c r t])
  have j: "c_int (int (length vs)) = int (length vs)" "c_int (int (length fds)) = int (length fds)"
    using n m by (auto intro!: c_int_id)
  show ?thesis using i j r gather_direct [OF ok] send_control_message [OF fds, of K]
    by (simp add: lwt_unix_send_msg_def wrapper_send_msg_def flatten_direct send_dest_def read_name_def send_spec_def answer_int_def)
qed

section \<open>Properties\<close>

text \<open>
  C20. Receiving and sending on a socket, with byte strings and with Bigarrays: each primitive makes exactly one system call with the right
  flags. Sending passes exactly the bytes of the requested range. Receiving stores exactly the received bytes at the offset, leaves the rest of the buffer
  alone, and the address of the sender is converted from the bytes the system stored, whatever the uninitialised variable held before. An address that
  cannot be converted raises before anything is sent. Nothing is accessed out of bounds.
\<close>

theorem socket_transfers_correct:
  assumes "in_buffer buf ofs len s" and "len < 2 ^ 31" and "flags_of (msg_flag_table K) flags = Some fl"
    and "read_contract (nat len) (recv_c (c_int fd) (nat len) fl)"
    and "recvfrom_contract (nat len) SA (recvfrom_c (c_int fd) (nat len) fl SA)" and "sockaddr_contract SA alloc_sockaddr"
    and "send_contract (nat len) (send_c (c_int fd) (range_of buf ofs len s) fl)"
    and "\<And>addr. send_contract (nat len) (sendto_c (c_int fd) (range_of buf ofs len s) fl addr)"
  shows "(lwt_unix_recv K recv_c fd buf ofs len flags s = Some (recv_spec buf (nat ofs) (recv_c (c_int fd) (nat len) fl) s)) \<and>
    (lwt_unix_bytes_recv K recv_c fd buf ofs len flags s = lwt_unix_recv K recv_c fd buf ofs len flags s) \<and>
    (lwt_unix_recvfrom K SA g recvfrom_c alloc_sockaddr fd buf ofs len flags s =
      Some (recvfrom_spec SA alloc_sockaddr buf (nat ofs) (recvfrom_c (c_int fd) (nat len) fl SA) s)) \<and>
    (lwt_unix_bytes_recvfrom K SA g recvfrom_c alloc_sockaddr fd buf ofs len flags s =
      lwt_unix_recvfrom K SA g recvfrom_c alloc_sockaddr fd buf ofs len flags s) \<and>
    (lwt_unix_send K send_c fd buf ofs len flags s = Some (send_spec ''send'' (send_c (c_int fd) (range_of buf ofs len s) fl) s)) \<and>
    (lwt_unix_bytes_send K send_c fd buf ofs len flags s = lwt_unix_send K send_c fd buf ofs len flags s) \<and>
    (lwt_unix_sendto K get_sockaddr sendto_c fd buf ofs len flags dest s = Some (case get_sockaddr dest of Raise x \<Rightarrow> (Raise x, s)
      | Ret addr \<Rightarrow> send_spec ''send'' (sendto_c (c_int fd) (range_of buf ofs len s) fl addr) s)) \<and>
    (lwt_unix_bytes_sendto K get_sockaddr sendto_c fd buf ofs len flags dest s =
      lwt_unix_sendto K get_sockaddr sendto_c fd buf ofs len flags dest s)"
  using recv_correct [where recv_c = recv_c, OF assms(1-4)]
    recvfrom_correct [where recvfrom_c = recvfrom_c, OF assms(1-3,5,6)]
    send_correct [where send_c = send_c, OF assms(1-3,7)]
    send_correct [where send_c = "\<lambda>fd src fl. sendto_c fd src fl addr" for addr, OF assms(1-3,8)]
  by (simp add: bytes_eqs sendto_send split: outcome.split)

definition demo_recvfrom :: "int \<Rightarrow> nat \<Rightarrow> int \<Rightarrow> nat \<Rightarrow> (nat, int \<times> char list \<times> char list \<times> nat) syscall" where
  "demo_recvfrom fd n fl sz e w = ((2, ''ZZ'', ''me'', 2), e, w + n)"

definition demo_alloc_sockaddr :: "char list \<Rightarrow> nat \<Rightarrow> int \<Rightarrow> (nat, caml_value outcome) syscall" where
  "demo_alloc_sockaddr a n fd e w = (Ret (Caml_string (take n a)), e, w)"

theorem socket_transfers_correct_witness:
  "lwt_unix_recvfrom (\<lambda>_. 1) 16 (\<lambda>_. CHR ''x'') demo_recvfrom demo_alloc_sockaddr 3 5 1 4 [] demo_io =
    Some (Ret (Block 0 [Imm 2, Caml_string ''me'']), demo_io\<lparr>bufs := [5 \<mapsto> ''aZZdef''], os := 4\<rparr>)"
proof -
  have "lwt_unix_recvfrom (\<lambda>_. 1) 16 (\<lambda>_. CHR ''x'') demo_recvfrom demo_alloc_sockaddr 3 5 1 4 [] demo_io =
    Some (recvfrom_spec 16 demo_alloc_sockaddr 5 (nat 1) (demo_recvfrom (c_int 3) (nat 4) 0 16) demo_io)"
    by (rule socket_transfers_correct [where recv_c = "\<lambda>fd n fl e w. ((2, ''ZZ''), e, w)" and send_c = "\<lambda>fd src fl e w. (0, e, w)" and
          sendto_c = "\<lambda>fd src fl addr e w. (0, e, w)", THEN conjunct2, THEN conjunct2, THEN conjunct1])
      (simp_all add: in_buffer_def demo_io_def read_contract_def recvfrom_contract_def sockaddr_contract_def send_contract_def
        demo_recvfrom_def demo_alloc_sockaddr_def fun_eq_iff)
  then show ?thesis
    by (simp add: recvfrom_spec_def demo_recvfrom_def demo_alloc_sockaddr_def demo_io_def overwrite_def Let_def Val_int_def caml_int_id numeral_eq_Suc)
qed

text \<open>
  C19. Passing file descriptors: \<^verbatim>\<open>send_msg\<close> without a destination makes one \<^verbatim>\<open>sendmsg\<close> call with exactly the bytes of the slices, in order, and a control
  message with the descriptors (none for an empty list); when a \<^verbatim>\<open>recvmsg\<close> call delivers that control message, \<^verbatim>\<open>recv_msg\<close> returns the same list of descriptors
  in the same order, the slices receive the bytes in order, and what was not received, in these slices or outside of them, keeps its content. The control area is
  never overrun, for any number of descriptors.
\<close>

theorem fd_passing_roundtrip:
  assumes "length vs < 2 ^ 31" and "\<forall>v\<in>set vs. slice_ok (bufs s) v" and "int (iov_total vs) < 2 ^ 31"
    and "length fds < 2 ^ 31" and fds: "\<forall>x\<in>set fds. c_int x = x"
    and snd: "\<And>src cms. send_contract (iov_total vs) (sendmsg_c (c_int fd) None src cms)"
    and "length ws < 2 ^ 31" and "\<forall>v\<in>set ws. slice_ok (bufs t) v" and "sorted_wrt apart ws" and "int (iov_total ws) < 2 ^ 31"
    and rcv: "recvmsg_contract (iov_total ws) (recvmsg_c (c_int fd') (iov_total ws) 1024)"
    and r: "recvmsg_c (c_int fd') (iov_total ws) 1024 (c_errno t) (os t) = ((r, bs, fd_message K fds), e, w)"
  shows "lwt_unix_send_msg True K get_sockaddr sendmsg_c fd (int (length vs)) vs (int (length fds)) fds None s =
      Some (send_spec ''send_msg'' (sendmsg_c (c_int fd) None (concat (map (slice (bufs s)) vs)) (fd_message K fds)) s) \<and>
    (\<exists>B. lwt_unix_recv_msg True K recvmsg_c fd' (int (length ws)) ws t =
        Some (if r = -1 then Raise (Unix_error e ''recv_msg'' Nothing) else Ret (Block 0 [Val_int r, Val_list (map Val_int fds)]),
          t\<lparr>bufs := B, c_errno := e, os := w\<rparr>) \<and>
      concat (map (slice B) ws) = bs @ drop (length bs) (concat (map (slice (bufs t)) ws)) \<and>
      (\<forall>u. slice_ok (bufs t) u \<longrightarrow> (\<forall>v\<in>set ws. apart v u) \<longrightarrow> slice B u = slice (bufs t) u))"
  by (intro conjI send_msg_correct [where sendmsg_c = sendmsg_c, OF assms(1-5) snd]
      recv_msg_correct [where recvmsg_c = recvmsg_c, OF assms(7-10) rcv r fds])

definition demo_recvmsg :: "int \<Rightarrow> nat \<Rightarrow> nat \<Rightarrow> (nat, int \<times> char list \<times> cmsg list) syscall" where
  "demo_recvmsg fd n room e w = ((3, ''XYZ'', fd_message (\<lambda>_. 1) [7, 9]), e, w)"

definition demo_sendmsg :: "int \<Rightarrow> char list option \<Rightarrow> char list \<Rightarrow> cmsg list \<Rightarrow> (nat, int) syscall" where
  "demo_sendmsg fd name src cms e w = (6, e, w + length src)"

theorem fd_passing_roundtrip_witness:
  "\<exists>B. lwt_unix_recv_msg True (\<lambda>_. 1) demo_recvmsg 4 3 demo_vectors (demo_vio :: (unit, nat) cst) =
      Some (Ret (Block 0 [Val_int 3, Val_list [Val_int 7, Val_int 9]]), demo_vio\<lparr>bufs := B\<rparr>) \<and>
    concat (map (slice B) demo_vectors) = ''XYZhie''"
proof -
  let ?s = "demo_vio :: (unit, nat) cst"
  have t: "iov_total demo_vectors = 6" "length demo_vectors = 3" by (simp_all add: iov_total_def demo_vectors_def)
  have ok: "\<forall>v\<in>set demo_vectors. slice_ok (bufs ?s) v" "sorted_wrt apart demo_vectors"
    by (auto simp: demo_vectors_def demo_vio_def slice_ok_def buffer_id_def apart_def)
  have src: "concat (map (slice (bufs ?s)) demo_vectors) = ''bcghie''"
    by (simp add: demo_vio_def demo_vectors_def slice_def buffer_id_def numeral_eq_Suc)
  have st: "?s\<lparr>bufs := B, c_errno := 0, os := 0\<rparr> = ?s\<lparr>bufs := B\<rparr>" "c_errno ?s = 0" "os ?s = 0" for B by (simp_all add: demo_vio_def)
  have "\<exists>B. lwt_unix_recv_msg True (\<lambda>_. 1) demo_recvmsg 4 (int (length demo_vectors)) demo_vectors ?s =
        Some (if (3 :: int) = -1 then Raise (Unix_error 0 ''recv_msg'' Nothing) else Ret (Block 0 [Val_int 3, Val_list (map Val_int [7, 9])]),
          ?s\<lparr>bufs := B, c_errno := 0, os := 0\<rparr>) \<and>
      concat (map (slice B) demo_vectors) = ''XYZ'' @ drop (length ''XYZ'') (concat (map (slice (bufs ?s)) demo_vectors)) \<and>
      (\<forall>u. slice_ok (bufs ?s) u \<longrightarrow> (\<forall>v\<in>set demo_vectors. apart v u) \<longrightarrow> slice B u = slice (bufs ?s) u)"
    by (rule fd_passing_roundtrip [where s = ?s and vs = demo_vectors and fds = "[7, 9]" and fd = 3
          and K = "\<lambda>_. 1" and sendmsg_c = demo_sendmsg and recvmsg_c = demo_recvmsg, THEN conjunct2])
      (use t ok st in \<open>simp_all add: c_int_id send_contract_def recvmsg_contract_def demo_sendmsg_def demo_recvmsg_def\<close>)
  then obtain B where "lwt_unix_recv_msg True (\<lambda>_. 1) demo_recvmsg 4 3 demo_vectors ?s =
        Some (Ret (Block 0 [Val_int 3, Val_list (map Val_int [7, 9])]), ?s\<lparr>bufs := B\<rparr>)" "concat (map (slice B) demo_vectors) = ''XYZhie''"
    unfolding t src st by auto
  then show ?thesis by auto
qed

text \<open>
  C40. \<^verbatim>\<open>send_msg\<close> with a destination is undefined: \<^verbatim>\<open>msg_name\<close> points to the variable \<^verbatim>\<open>addr\<close> of a block that has ended when \<^verbatim>\<open>sendmsg\<close> reads
  it. This holds for every destination that can be converted, whatever the message is.
\<close>

theorem send_msg_destination_undefined:
  "get_sockaddr d = Ret addr \<Longrightarrow> 
   lwt_unix_send_msg True K get_sockaddr sendmsg_c fd n vs m fds (Some d) s = None"
  by (auto simp: lwt_unix_send_msg_def wrapper_send_msg_def send_dest_def read_name_def Let_def bind_eq_None_conv split: if_splits)

theorem send_msg_destination_undefined_witness:
  "lwt_unix_send_msg True (\<lambda>_. 1) (\<lambda>_. Ret ''addr'') demo_sendmsg 3 0 [] 0 [] (Some (Imm 0)) (demo_vio :: (unit, nat) cst) = None \<and>
   lwt_unix_send_msg True (\<lambda>_. 1) (\<lambda>_. Ret ''addr'') demo_sendmsg 3 0 [] 0 [] None (demo_vio :: (unit, nat) cst) = Some (Ret (Imm 6), demo_vio)"
  using send_msg_destination_undefined [of "\<lambda>_. Ret ''addr''" "Imm 0" "''addr''" "\<lambda>_. 1" demo_sendmsg 3 0 "[]" 0 "[]" "demo_vio :: (unit, nat) cst"]
  by (simp add: lwt_unix_send_msg_def wrapper_send_msg_def send_dest_def read_name_def send_control_def c_int_id demo_sendmsg_def demo_vio_def
      Val_int_def caml_int_id)

end
