(* ===== verification/Addr_Jobs.thy ===== *)
theory Addr_Jobs
  imports Sockets
begin

text \<open>
  Jobs on socket addresses: \<^verbatim>\<open>unix_getaddrinfo_job.c\<close>, \<^verbatim>\<open>unix_getnameinfo_job.c\<close> and \<^verbatim>\<open>unix_bind_job.c\<close>. The list that
  \<^verbatim>\<open>getaddrinfo\<close> returns is a chain of nodes in memory that belongs to the C library until \<^verbatim>\<open>freeaddrinfo\<close>; it is part of the state of
  the system here, so that the theorems can state that it is released. The OCaml tables \<^verbatim>\<open>caml_unix_socket_domain_table\<close> and
  \<^verbatim>\<open>caml_unix_socket_type_table\<close> are parameters.
\<close>

section \<open>Data\<close>

record addrinfo =
  ai_flags :: int
  ai_family :: int
  ai_socktype :: int
  ai_protocol :: int
  ai_addrlen :: nat
  ai_addr :: "char list"
  ai_canonname :: "char list option"
  ai_next :: "nat option"

text \<open>The nodes that \<^verbatim>\<open>getaddrinfo\<close> allocated, and the rest of the world.\<close>

record 'w addros =
  nodes :: "nat \<rightharpoonup> addrinfo"
  world :: 'w

record job_getaddrinfo = path_job +
  i_service :: nat
  i_hints :: addrinfo
  i_info :: "nat option"

type_synonym getaddrinfo_x = "unit job_getaddrinfo_ext path_x"

text \<open>An OCaml value of type \<^verbatim>\<open>Unix.getaddrinfo_option\<close>: a block with its tag and an integer field, or a constant.\<close>

datatype hint = Hint_block nat int | Hint_const int

section \<open>getaddrinfo\<close>

fun cst_search :: "int \<Rightarrow> int list \<Rightarrow> nat \<Rightarrow> nat \<Rightarrow> int \<Rightarrow> caml_value option" where
  "cst_search n tbl i 0 deflt = Some (Val_int deflt)"
| "cst_search n tbl i (Suc k) deflt =
     do { x \<leftarrow> tbl_get tbl (int i); if n = x then Some (Val_int (int i)) else cst_search n tbl (i + 1) k deflt }"

definition cst_to_constr :: "int \<Rightarrow> int list \<Rightarrow> nat \<Rightarrow> int \<Rightarrow> caml_value option" where
  "cst_to_constr n tbl sz deflt = cst_search n tbl 0 sz deflt"

text \<open>\<open>SA\<close> is the size of \<^verbatim>\<open>union sock_addr_union\<close> and \<open>g\<close> the content of the uninitialised variable \<^verbatim>\<open>sa\<close>.\<close>

definition convert_addrinfo :: "nat \<Rightarrow> (nat \<Rightarrow> char) \<Rightarrow> int list \<Rightarrow> int list \<Rightarrow> (char list \<Rightarrow> nat \<Rightarrow> int \<Rightarrow> ('os, caml_value outcome) syscall)
    \<Rightarrow> addrinfo \<Rightarrow> int \<times> 'os \<Rightarrow> (caml_value outcome \<times> int \<times> 'os) option" where
  "convert_addrinfo SA g domains types alloc_sockaddr a ew = do {
     let len = (if ai_addrlen a > SA then SA else ai_addrlen a);
     src \<leftarrow> read_at (ai_addr a) 0 len;
     sa \<leftarrow> write_at (uninit g SA) 0 src;
     let (r, e, w) = alloc_sockaddr sa len (-1) (fst ew) (snd ew);
     case r of
       Raise x \<Rightarrow> Some (Raise x, e, w)
     | Ret vaddr \<Rightarrow> do {
         let vcanonname = caml_copy_string (case ai_canonname a of None \<Rightarrow> [] | Some c \<Rightarrow> c);
         family \<leftarrow> cst_to_constr (ai_family a) domains 3 0;
         socktype \<leftarrow> cst_to_constr (ai_socktype a) types 4 0;
         Some (Ret (Block 0 [family, socktype, Val_int (ai_protocol a), vaddr, vcanonname]), e, w)
       }
   }"

text \<open>A string that is empty is passed as a null pointer.\<close>

definition or_null :: "char list \<Rightarrow> char list option" where
  "or_null xs = (if xs = [] then None else Some xs)"

definition worker_getaddrinfo :: "(char list option \<Rightarrow> char list option \<Rightarrow> addrinfo \<Rightarrow> nat option \<Rightarrow> ('w addros, int \<times> nat option) syscall) \<Rightarrow> nat
    \<Rightarrow> (getaddrinfo_x, 'w addros) cst \<Rightarrow> (getaddrinfo_x, 'w addros) cst option" where
  [job_defs]: "worker_getaddrinfo getaddrinfo_c p s = do {
     job \<leftarrow> heap s p;
     node \<leftarrow> job_path job;
     service \<leftarrow> cstr_at (j_data job) (i_service job);
     let ((r, info), e, w) = getaddrinfo_c (or_null node) (or_null service) (i_hints job) (i_info job) (c_errno s) (os s);
     s \<leftarrow> set_job p (\<lambda>j. j\<lparr>j_result := r, i_info := info\<rparr>) s;
     Some (s\<lparr>c_errno := e, os := w\<rparr>)
   }"

text \<open>The loop of \<^verbatim>\<open>result_getaddrinfo\<close>, which puts each entry in front of the list; a null pointer ends it, and a cycle does not.\<close>

partial_function (option) addrinfo_loop :: "nat \<Rightarrow> (nat \<Rightarrow> char) \<Rightarrow> int list \<Rightarrow> int list
    \<Rightarrow> (char list \<Rightarrow> nat \<Rightarrow> int \<Rightarrow> ('w addros, caml_value outcome) syscall) \<Rightarrow> nat option \<Rightarrow> caml_value \<Rightarrow> int \<times> 'w addros
    \<Rightarrow> (caml_value outcome \<times> int \<times> 'w addros) option" where
  "addrinfo_loop SA g domains types alloc_sockaddr r vres ew =
     (case r of
        None \<Rightarrow> Some (Ret vres, ew)
      | Some q \<Rightarrow> do {
          a \<leftarrow> nodes (snd ew) q;
          (x, ew) \<leftarrow> convert_addrinfo SA g domains types alloc_sockaddr a ew;
          case x of Raise x \<Rightarrow> Some (Raise x, ew)
          | Ret e \<Rightarrow> addrinfo_loop SA g domains types alloc_sockaddr (ai_next a) (Block 0 [e, vres]) ew
        })"

text \<open>\<^verbatim>\<open>freeaddrinfo\<close> of the C library: it releases a whole chain.\<close>

partial_function (option) freeaddrinfo :: "nat option \<Rightarrow> (nat \<rightharpoonup> addrinfo) \<Rightarrow> (nat \<rightharpoonup> addrinfo) option" where
  "freeaddrinfo r m = (case r of None \<Rightarrow> Some m
     | Some q \<Rightarrow> do { a \<leftarrow> m q; freeaddrinfo (ai_next a) (m(q := None)) })"

definition result_getaddrinfo :: "nat \<Rightarrow> (nat \<Rightarrow> char) \<Rightarrow> int list \<Rightarrow> int list \<Rightarrow> (char list \<Rightarrow> nat \<Rightarrow> int \<Rightarrow> ('w addros, caml_value outcome) syscall)
    \<Rightarrow> nat \<Rightarrow> (getaddrinfo_x, 'w addros) cst \<Rightarrow> (caml_value outcome \<times> (getaddrinfo_x, 'w addros) cst) option" where
  [job_defs]: "result_getaddrinfo SA g domains types alloc_sockaddr p s = do {
     job \<leftarrow> heap s p;
     (v, e, w) \<leftarrow> (if j_result job = 0 then addrinfo_loop SA g domains types alloc_sockaddr (i_info job) (Val_int 0) (c_errno s, os s)
                  else Some (Ret (Val_int 0), c_errno s, os s));
     let s = s\<lparr>c_errno := e, os := w\<rparr>;
     case v of
       Raise x \<Rightarrow> Some (Raise x, s)
     | Ret vres \<Rightarrow> do {
         m \<leftarrow> (if i_info job \<noteq> None then freeaddrinfo (i_info job) (nodes (os s)) else Some (nodes (os s)));
         free_and_return p vres (s\<lparr>os := (os s)\<lparr>nodes := m\<rparr>\<rparr>)
       }
   }"

text \<open>One turn of the loop over the options.\<close>

definition add_hint :: "(string \<Rightarrow> int) \<Rightarrow> int list \<Rightarrow> int list \<Rightarrow> hint \<Rightarrow> addrinfo \<Rightarrow> addrinfo option" where
  "add_hint K domains types h a =
     (case h of
        Hint_block tag x \<Rightarrow>
          if tag = 0 then do { d \<leftarrow> tbl_get domains (c_int x); Some (a\<lparr>ai_family := d\<rparr>) }
          else if tag = 1 then do { d \<leftarrow> tbl_get types (c_int x); Some (a\<lparr>ai_socktype := d\<rparr>) }
          else if tag = 2 then Some (a\<lparr>ai_protocol := c_int x\<rparr>)
          else Some a
      | Hint_const x \<Rightarrow>
          if c_int x = 0 then Some (a\<lparr>ai_flags := or (ai_flags a) (K ''AI_NUMERICHOST'')\<rparr>)
          else if c_int x = 1 then Some (a\<lparr>ai_flags := or (ai_flags a) (K ''AI_CANONNAME'')\<rparr>)
          else if c_int x = 2 then Some (a\<lparr>ai_flags := or (ai_flags a) (K ''AI_PASSIVE'')\<rparr>)
          else Some a)"

definition no_hints :: "(string \<Rightarrow> int) \<Rightarrow> addrinfo" where
  "no_hints K = \<lparr>ai_flags = 0, ai_family = K ''PF_UNSPEC'', ai_socktype = 0, ai_protocol = 0, ai_addrlen = 0, ai_addr = [],
     ai_canonname = None, ai_next = None\<rparr>"

definition lwt_unix_getaddrinfo_job :: "(string \<Rightarrow> int) \<Rightarrow> int list \<Rightarrow> int list \<Rightarrow> nat \<Rightarrow> job_getaddrinfo \<times> (nat \<Rightarrow> char) \<Rightarrow> char list \<Rightarrow> char list \<Rightarrow> hint list
    \<Rightarrow> (getaddrinfo_x, 'os) cst \<Rightarrow> (caml_value \<times> (getaddrinfo_x, 'os) cst) option" where
  [job_defs]: "lwt_unix_getaddrinfo_job K domains types a ug node service hints s = do {
     s \<leftarrow> LWT_UNIX_INIT_JOB_STRING2 a ''getaddrinfo'' 0 node service (\<lambda>p j. j\<lparr>i_service := p\<rparr>) ug s;
     s \<leftarrow> set_job a (\<lambda>j. j\<lparr>i_info := None, i_hints := no_hints K\<rparr>) s;
     job \<leftarrow> heap s a;
     h \<leftarrow> iter_opt (add_hint K domains types) hints (i_hints job);
     s \<leftarrow> set_job a (\<lambda>j. j\<lparr>i_hints := h\<rparr>) s;
     lwt_unix_alloc_job a s
   }"

section \<open>getnameinfo\<close>

record job_getnameinfo = sysjob +
  n_addr :: "char list"
  n_opts :: int
  n_host :: "char list"
  n_serv :: "char list"

type_synonym getnameinfo_x = "unit job_getnameinfo_ext sys_x"

definition getnameinfo_flag_table :: "(string \<Rightarrow> int) \<Rightarrow> int list" where
  "getnameinfo_flag_table K = [K ''NI_NOFQDN'', K ''NI_NUMERICHOST'', K ''NI_NAMEREQD'', K ''NI_NUMERICSERV'', K ''NI_DGRAM'']"

text \<open>The two arrays of the structure have 4096 and 1024 bytes; \<^verbatim>\<open>getnameinfo\<close> stores a prefix of each.\<close>

definition worker_getnameinfo :: "(char list \<Rightarrow> nat \<Rightarrow> nat \<Rightarrow> int \<Rightarrow> ('os, int \<times> char list \<times> char list) syscall) \<Rightarrow> nat
    \<Rightarrow> (getnameinfo_x, 'os) cst \<Rightarrow> (getnameinfo_x, 'os) cst option" where
  [job_defs]: "worker_getnameinfo getnameinfo_c p s = do {
     job \<leftarrow> heap s p;
     let ((r, h, v), e, w) = getnameinfo_c (n_addr job) (length (n_host job)) (length (n_serv job)) (n_opts job) (c_errno s) (os s);
     host \<leftarrow> write_at (n_host job) 0 h;
     serv \<leftarrow> write_at (n_serv job) 0 v;
     s \<leftarrow> set_job p (\<lambda>j. j\<lparr>j_result := r, n_host := host, n_serv := serv\<rparr>) s;
     Some (s\<lparr>c_errno := e, os := w\<rparr>)
   }"

definition result_getnameinfo :: "nat \<Rightarrow> (getnameinfo_x, 'os) cst \<Rightarrow> (caml_value outcome \<times> (getnameinfo_x, 'os) cst) option" where
  [job_defs]: "result_getnameinfo p s = do {
     job \<leftarrow> heap s p;
     if j_result job \<noteq> 0 then do {
       s \<leftarrow> free_job p s;
       Some (Raise Not_found, s)
     } else do {
       host \<leftarrow> cstr_at (n_host job) 0;
       serv \<leftarrow> cstr_at (n_serv job) 0;
       free_and_return p (Block 0 [caml_copy_string host, caml_copy_string serv]) s
     }
   }"

text \<open>\<^verbatim>\<open>get_sockaddr\<close> stores the address and its length into the job, or raises.\<close>

definition lwt_unix_getnameinfo_job :: "(string \<Rightarrow> int) \<Rightarrow> (caml_value \<Rightarrow> char list outcome) \<Rightarrow> nat \<Rightarrow> job_getnameinfo \<times> (nat \<Rightarrow> char) \<Rightarrow> caml_value \<Rightarrow> int list
    \<Rightarrow> (getnameinfo_x, 'os) cst \<Rightarrow> (caml_value outcome \<times> (getnameinfo_x, 'os) cst) option" where
  [job_defs]: "lwt_unix_getnameinfo_job K get_sockaddr a ug sockaddr opts s = do {
     s \<leftarrow> LWT_UNIX_INIT_JOB a ''getnameinfo'' ((fst ug)\<lparr>n_host := uninit (snd ug) 4096, n_serv := uninit (snd ug) 1024\<rparr>) s;
     case get_sockaddr sockaddr of
       Raise x \<Rightarrow> Some (Raise x, s)
     | Ret addr \<Rightarrow> do {
         fl \<leftarrow> flags_of (getnameinfo_flag_table K) opts;
         s \<leftarrow> set_job a (\<lambda>j. j\<lparr>n_addr := addr, n_opts := fl\<rparr>) s;
         (v, s) \<leftarrow> lwt_unix_alloc_job a s;
         Some (Ret v, s)
       }
   }"

section \<open>bind\<close>

record job_bind = sysjob +
  b_fd :: int
  b_addr :: "char list"

type_synonym bind_x = "unit job_bind_ext sys_x"

definition worker_bind :: "(int \<Rightarrow> char list \<Rightarrow> ('os, int) syscall) \<Rightarrow> nat \<Rightarrow> (bind_x, 'os) cst \<Rightarrow> (bind_x, 'os) cst option" where
  [job_defs]: "worker_bind bind_c p s = do {
     job \<leftarrow> heap s p;
     let (r, e, w) = bind_c (b_fd job) (b_addr job) (c_errno s) (os s);
     s \<leftarrow> set_job p (\<lambda>j. j\<lparr>j_result := r, j_error_code := e\<rparr>) s;
     Some (s\<lparr>c_errno := e, os := w\<rparr>)
   }"

definition result_bind :: "nat \<Rightarrow> (bind_x, 'os) cst \<Rightarrow> (caml_value outcome \<times> (bind_x, 'os) cst) option" where
  [job_defs]: "result_bind p s = do {
     job \<leftarrow> heap s p;
     LWT_UNIX_CHECK_JOB p (j_result job \<noteq> 0) ''bind'' s (free_and_return p Val_unit)
   }"

definition lwt_unix_bind_job :: "(caml_value \<Rightarrow> char list outcome) \<Rightarrow> nat \<Rightarrow> job_bind \<Rightarrow> int \<Rightarrow> caml_value
    \<Rightarrow> (bind_x, 'os) cst \<Rightarrow> (caml_value outcome \<times> (bind_x, 'os) cst) option" where
  [job_defs]: "lwt_unix_bind_job get_sockaddr a u fd address s = do {
     s \<leftarrow> LWT_UNIX_INIT_JOB a ''bind'' u s;
     s \<leftarrow> set_job a (\<lambda>j. j\<lparr>b_fd := c_int fd\<rparr>) s;
     case get_sockaddr address of
       Raise x \<Rightarrow> Some (Raise x, s)
     | Ret addr \<Rightarrow> do {
         s \<leftarrow> set_job a (\<lambda>j. j\<lparr>b_addr := addr\<rparr>) s;
         (v, s) \<leftarrow> lwt_unix_alloc_job a s;
         Some (Ret v, s)
       }
   }"

section \<open>Chains of nodes\<close>

abbreviation chain :: "(nat \<rightharpoonup> addrinfo) \<Rightarrow> nat option \<Rightarrow> nat list \<Rightarrow> bool" where
  "chain \<equiv> linked ai_next"

lemma freeaddrinfo_chain:
  "chain m r qs \<Longrightarrow> distinct qs \<Longrightarrow> freeaddrinfo r m = Some (\<lambda>q. if q \<in> set qs then None else m q)"
proof (induction qs arbitrary: r m)
  case Nil
  then show ?case by (simp add: freeaddrinfo.simps)
next
  case (Cons q qs)
  then obtain a where a: "r = Some q" "m q = Some a" "chain m (ai_next a) qs" by auto
  have "chain (m(q := None)) (ai_next a) qs" using a(3) Cons.prems(2) by (simp add: linked_upd)
  then have "freeaddrinfo (ai_next a) (m(q := None)) = Some (\<lambda>x. if x \<in> set qs then None else (m(q := None)) x)"
    by (rule Cons.IH) (use Cons.prems(2) in simp)
  with a show ?case by (subst freeaddrinfo.simps) (auto simp: fun_eq_iff)
qed

section \<open>Conversion of the entries\<close>

text \<open>The position of a constant among the first \<open>k\<close> of a table, or 0.\<close>

definition constr_of :: "int \<Rightarrow> int list \<Rightarrow> nat \<Rightarrow> int" where
  "constr_of n tbl k = (if n \<in> set (take k tbl) then int (length (takeWhile (\<lambda>x. x \<noteq> n) tbl)) else 0)"

lemma cst_search_drop:
  "i + k \<le> length tbl \<Longrightarrow> cst_search n tbl i k d = Some (Val_int (if n \<in> set (take k (drop i tbl))
     then int (i + length (takeWhile (\<lambda>x. x \<noteq> n) (drop i tbl))) else d))"
proof (induction k arbitrary: i)
  case (Suc k)
  then have d: "drop i tbl = tbl ! i # drop (i + 1) tbl" by (simp add: Cons_nth_drop_Suc)
  have "tbl_get tbl (int i) = Some (tbl ! i)" using Suc.prems by (simp add: tbl_get_def)
  then show ?case using Suc.IH [of "i + 1"] Suc.prems by (simp add: d)
qed simp

lemma cst_to_constr_correct: "k \<le> length tbl \<Longrightarrow> cst_to_constr n tbl k 0 = Some (Val_int (constr_of n tbl k))"
  using cst_search_drop [of 0 k tbl n 0] by (simp add: cst_to_constr_def constr_of_def)

text \<open>
  What the code relies on: the tables have their three and four entries, each address is as long as its length says, and the conversion \<open>conv\<close> of an
  address by OCaml reads its bytes and does not fail.
\<close>

definition converts :: "nat \<Rightarrow> (char list \<Rightarrow> nat \<Rightarrow> int \<Rightarrow> ('os, caml_value outcome) syscall) \<Rightarrow> (char list \<Rightarrow> caml_value) \<Rightarrow> bool" where
  "converts SA alloc_sockaddr conv \<longleftrightarrow>
     (\<forall>a n e w. length a = SA \<longrightarrow> n \<le> SA \<longrightarrow> alloc_sockaddr a n (-1) e w = (Ret (conv (take n a)), e, w))"

definition addrinfo_value :: "nat \<Rightarrow> int list \<Rightarrow> int list \<Rightarrow> (char list \<Rightarrow> caml_value) \<Rightarrow> addrinfo \<Rightarrow> caml_value" where
  "addrinfo_value SA domains types conv a =
     Block 0 [Val_int (constr_of (ai_family a) domains 3), Val_int (constr_of (ai_socktype a) types 4), Val_int (ai_protocol a),
       conv (take (min SA (ai_addrlen a)) (ai_addr a)), caml_copy_string (case ai_canonname a of None \<Rightarrow> [] | Some c \<Rightarrow> c)]"

lemma convert_addrinfo_correct:
  assumes "converts SA alloc_sockaddr conv" and "3 \<le> length domains" and "4 \<le> length types" and "ai_addrlen a \<le> length (ai_addr a)"
  shows "convert_addrinfo SA g domains types alloc_sockaddr a (e, w) = Some (Ret (addrinfo_value SA domains types conv a), e, w)"
proof -
  define n where "n = min SA (ai_addrlen a)"
  have n: "(if ai_addrlen a > SA then SA else ai_addrlen a) = n" "n \<le> SA" "n \<le> length (ai_addr a)" using assms(4) by (auto simp: n_def)
  let ?sa = "take n (ai_addr a) @ drop n (uninit g SA)"
  have "alloc_sockaddr ?sa n (-1) e w = (Ret (conv (take n (ai_addr a))), e, w)"
    using assms(1) [unfolded converts_def, rule_format, of ?sa n e w] n by simp
  with n assms(2,3) show ?thesis
    by (simp add: convert_addrinfo_def cst_to_constr_correct addrinfo_value_def n_def [symmetric])
qed

lemma addrinfo_loop_chain:
  assumes "converts SA alloc_sockaddr conv" and "3 \<le> length domains" and "4 \<le> length types"
    and "chain (nodes w) r qs" and "\<And>q a. q \<in> set qs \<Longrightarrow> nodes w q = Some a \<Longrightarrow> ai_addrlen a \<le> length (ai_addr a)"
  shows "addrinfo_loop SA g domains types alloc_sockaddr r (Val_list vs) (e, w) =
    Some (Ret (Val_list (rev (map (\<lambda>q. addrinfo_value SA domains types conv (the (nodes w q))) qs) @ vs)), e, w)"
  using assms(4,5)
proof (induction qs arbitrary: r vs)
  case Nil
  then show ?case by (simp add: addrinfo_loop.simps)
next
  case (Cons q qs)
  then obtain a where a: "r = Some q" "nodes w q = Some a" "chain (nodes w) (ai_next a) qs" by auto
  have "convert_addrinfo SA g domains types alloc_sockaddr a (e, w) = Some (Ret (addrinfo_value SA domains types conv a), e, w)"
    by (rule convert_addrinfo_correct) (use assms Cons.prems a in auto)
  moreover have "addrinfo_loop SA g domains types alloc_sockaddr (ai_next a) (Val_list (addrinfo_value SA domains types conv a # vs)) (e, w) =
    Some (Ret (Val_list (rev (map (\<lambda>q. addrinfo_value SA domains types conv (the (nodes w q))) qs) @
      addrinfo_value SA domains types conv a # vs)), e, w)"
    by (rule Cons.IH [OF a(3)]) (rule Cons.prems(2); simp)
  ultimately show ?case using a by (subst addrinfo_loop.simps) simp
qed

section \<open>The getaddrinfo job\<close>

lemma getaddrinfo_job_run:
  assumes "heap s a = None" and h: "iter_opt (add_hint K domains types) hints (no_hints K) = Some h"
    and tabs: "converts SA alloc_sockaddr conv" "3 \<le> length domains" "4 \<le> length types"
    and c: "getaddrinfo_c (or_null (cstring node)) (or_null (cstring service)) h None (c_errno s) (os s) = ((r, info), e, w)"
    and ch: "chain (nodes w) info qs" "distinct qs" "r \<noteq> 0 \<longrightarrow> qs = []"
    and fresh: "nodes (os s) = (\<lambda>q. if q \<in> set qs then None else nodes w q)"
    and len: "\<And>q a. q \<in> set qs \<Longrightarrow> nodes w q = Some a \<Longrightarrow> ai_addrlen a \<le> length (ai_addr a)"
  shows "job_run am e' (lwt_unix_getaddrinfo_job K domains types a ug node service hints)
      [''worker_getaddrinfo'' \<mapsto> worker_getaddrinfo getaddrinfo_c]
      [''result_getaddrinfo'' \<mapsto> result_getaddrinfo SA g domains types alloc_sockaddr] s =
    Some (Ret (Val_list (rev (map (\<lambda>q. addrinfo_value SA domains types conv (the (nodes w q))) qs))),
      s\<lparr>c_errno := e', os := w\<lparr>nodes := nodes (os s)\<rparr>\<rparr>)"
proof -
  let ?d = "uninit (snd ug) (length node + length service + 2)"
  obtain d1 d2 where d: "write_at ?d 0 (caml_bytes node) = Some d1" "write_at d1 (length node + 1) (caml_bytes service) = Some d2"
    "cstr_at d2 0 = Some (cstring node)" "cstr_at d2 (length node + 1) = Some (cstring service)"
    using two_strings [of ?d node service] by auto
  define j where "j = (fst ug)\<lparr>worker_fn := ''worker_getaddrinfo'', result_fn := ''result_getaddrinfo'', j_path := 0, j_data := d2,
     i_service := length node + 1, i_info := None, i_hints := h\<rparr>"
  have j: "worker_fn j = ''worker_getaddrinfo''" "result_fn j = ''result_getaddrinfo''" "job_path j = Some (cstring node)"
    "cstr_at (j_data j) (i_service j) = Some (cstring service)" "i_info j = None" "i_hints j = h"
    using d by (simp_all add: j_def job_path_def)
  have stub: "lwt_unix_getaddrinfo_job K domains types a ug node service hints s = Some (Caml_ptr (Some a), s\<lparr>heap := (heap s)(a \<mapsto> j)\<rparr>)"
    using assms(1) h d by (simp add: job_defs job_common LWT_UNIX_INIT_JOB_STRING2_def j_def)
  define k where "k = j\<lparr>async_method := am, job_mutex := start_mutex am j, j_result := r, i_info := info\<rparr>"
  have k: "result_fn k = ''result_getaddrinfo''" "j_result k = r" "i_info k = info" "freeable k"
    using j(2) by (simp_all add: k_def freeable_started [of _ am j])
  let ?s = "s\<lparr>heap := (heap s)(a \<mapsto> k), c_errno := e, os := w\<rparr>"
  have wk: "worker_getaddrinfo getaddrinfo_c a (s\<lparr>heap := (heap s)(a \<mapsto> j\<lparr>async_method := am, job_mutex := start_mutex am j\<rparr>)\<rparr>) = Some ?s"
    using c j by (simp add: worker_getaddrinfo_def k_def)
  have loop: "addrinfo_loop SA g domains types alloc_sockaddr info (Val_list []) (e', w) =
      Some (Ret (Val_list (rev (map (\<lambda>q. addrinfo_value SA domains types conv (the (nodes w q))) qs) @ [])), e', w)"
    by (rule addrinfo_loop_chain [OF tabs ch(1) len])
  have fr: "(if info \<noteq> None then freeaddrinfo info (nodes w) else Some (nodes w)) = Some (nodes (os s))"
    using freeaddrinfo_chain [OF ch(1,2)] ch(1) fresh by (cases qs) (auto simp: freeaddrinfo.simps)
  have "result_getaddrinfo SA g domains types alloc_sockaddr a (?s\<lparr>c_errno := e'\<rparr>) =
    Some (Ret (Val_list (rev (map (\<lambda>q. addrinfo_value SA domains types conv (the (nodes w q))) qs))),
      s\<lparr>c_errno := e', os := w\<lparr>nodes := nodes (os s)\<rparr>\<rparr>)"
    using loop fr ch assms(1) k
    by (cases s; cases "r = 0"; cases info) (simp_all add: job_defs job_common Val_emptylist_def Val_int_def caml_int_id fun_upd_idem)
  then show ?thesis
    using j(1) k(1) by (simp add: job_run_def stub wk flip: start_mutex_def)
qed

section \<open>Jobs whose stub can raise\<close>

definition job_run_try :: "lwt_unix_async_method \<Rightarrow> int \<Rightarrow> (('x, 'os) cst \<Rightarrow> (caml_value outcome \<times> ('x, 'os) cst) option)
    \<Rightarrow> (string \<rightharpoonup> (nat \<Rightarrow> ('x, 'os) cst \<Rightarrow> ('x, 'os) cst option))
    \<Rightarrow> (string \<rightharpoonup> (nat \<Rightarrow> ('x, 'os) cst \<Rightarrow> (caml_value outcome \<times> ('x, 'os) cst) option))
    \<Rightarrow> ('x, 'os) cst \<Rightarrow> (caml_value outcome \<times> ('x, 'os) cst) option" where
  "job_run_try am e stub workers results s = do {
     (r, s) \<leftarrow> stub s;
     case r of Raise x \<Rightarrow> Some (Raise x, s) | Ret v \<Rightarrow> job_run am e (\<lambda>s. Some (v, s)) workers results s
   }"

text \<open>
  \<^verbatim>\<open>getnameinfo\<close> stores two strings with their NUL bytes inside the arrays when it succeeds (and possibly something when it fails).
\<close>

definition getnameinfo_contract :: "(nat \<Rightarrow> nat \<Rightarrow> ('os, int \<times> char list \<times> char list) syscall) \<Rightarrow> bool" where
  "getnameinfo_contract c \<longleftrightarrow> (\<forall>m n e w. case c m n e w of ((r, h, v), _) \<Rightarrow>
     length h \<le> m \<and> length v \<le> n \<and> (r = 0 \<longrightarrow> NUL \<in> set h \<and> NUL \<in> set v))"

definition getnameinfo_answer :: "int \<times> char list \<times> char list \<Rightarrow> int \<Rightarrow> caml_value outcome" where
  "getnameinfo_answer r e = (case r of (r, h, v) \<Rightarrow>
     if r \<noteq> 0 then Raise Not_found else Ret (Block 0 [caml_copy_string h, caml_copy_string v]))"

lemma getnameinfo_job_run:
  assumes "heap s a = None" and addr: "get_sockaddr sockaddr = Ret addr" and fl: "flags_of (getnameinfo_flag_table K) opts = Some fl"
    and c: "getnameinfo_contract (\<lambda>m n. getnameinfo_c addr m n fl)"
  shows "job_run_try am e' (lwt_unix_getnameinfo_job K get_sockaddr a ug sockaddr opts) [''worker_getnameinfo'' \<mapsto> worker_getnameinfo getnameinfo_c]
      [''result_getnameinfo'' \<mapsto> result_getnameinfo] s = job_spec (getnameinfo_c addr 4096 1024 fl) getnameinfo_answer e' s"
proof -
  obtain r h v e w where r: "getnameinfo_c addr 4096 1024 fl (c_errno s) (os s) = ((r, h, v), e, w)" by (metis prod.collapse)
  have k: "length h \<le> 4096" "length v \<le> 1024" "r = 0 \<longrightarrow> NUL \<in> set h \<and> NUL \<in> set v"
    using c [unfolded getnameinfo_contract_def, rule_format, of 4096 1024 "c_errno s" "os s"] r by auto
  then show ?thesis using assms(1) addr fl r
    by (cases s) (auto simp: job_run_try_def job_run_def job_defs job_common job_spec_def getnameinfo_answer_def freeable_def fun_upd_idem
        cstr_at_prefix caml_copy_string_def)
qed

lemma bind_job_run:
  assumes "heap s a = None" and "get_sockaddr address = Ret addr"
  shows "job_run_try am e' (lwt_unix_bind_job get_sockaddr a u fd address) [''worker_bind'' \<mapsto> worker_bind bind_c] [''result_bind'' \<mapsto> result_bind] s =
    job_spec (bind_c (c_int fd) addr) (\<lambda>r e. if r \<noteq> 0 then Raise (Unix_error e ''bind'' Nothing) else Ret Val_unit) e' s"
proof -
  obtain r e w where "bind_c (c_int fd) addr (c_errno s) (os s) = (r, e, w)" by (metis prod_cases3)
  with assms show ?thesis
    by (cases s) (auto simp: job_run_try_def job_run_def job_defs job_common job_spec_def freeable_def fun_upd_idem)
qed

section \<open>Properties\<close>

definition demo_bind_job :: job_bind where
  "demo_bind_job = sysjob.extend demo_sysjob \<lparr>b_fd = 0, b_addr = []\<rparr>"

definition demo_getnameinfo_job :: job_getnameinfo where
  "demo_getnameinfo_job = sysjob.extend demo_sysjob \<lparr>n_addr = [], n_opts = 0, n_host = [], n_serv = []\<rparr>"

definition demo_getaddrinfo_job :: job_getaddrinfo where
  "demo_getaddrinfo_job = \<lparr>next_job = None, notification_id = 0, worker_fn = [], result_fn = [], job_state = LWT_UNIX_JOB_STATE_DONE,
     fast = 5, job_mutex = Mutex_held, async_method = LWT_UNIX_ASYNC_METHOD_SWITCH, j_result = 3, j_error_code = 4, j_path = 0, j_data = [],
     i_service = 0, i_hints = no_hints (\<lambda>_. 0), i_info = None\<rparr>"


definition demo_ai :: "nat \<Rightarrow> nat option \<Rightarrow> addrinfo" where
  "demo_ai p nxt = \<lparr>ai_flags = 0, ai_family = 2, ai_socktype = 1, ai_protocol = int p, ai_addrlen = 2, ai_addr = ''ab'', ai_canonname = None, ai_next = nxt\<rparr>"

definition demo_getaddrinfo :: "char list option \<Rightarrow> char list option \<Rightarrow> addrinfo \<Rightarrow> nat option \<Rightarrow> (unit addros, int \<times> nat option) syscall" where
  "demo_getaddrinfo node service h info e w = ((0, Some 7), e, w\<lparr>nodes := (nodes w)(7 \<mapsto> demo_ai 6 (Some 8), 8 \<mapsto> demo_ai 17 None)\<rparr>)"

definition demo_addr :: "('x, unit addros) cst" where
  "demo_addr = \<lparr>heap = Map.empty, blocks = Map.empty, bufs = Map.empty, roots = [], c_errno = 0, os = \<lparr>nodes = Map.empty, world = ()\<rparr>\<rparr>"


text \<open>
  When the address cannot be converted, for instance because the path of a Unix socket is too long, \<^verbatim>\<open>bind_job\<close> and \<^verbatim>\<open>getnameinfo_job\<close> raise
  after they have allocated the job structure, which nothing refers to any more: it is never freed.
\<close>

theorem address_error_leaks_job:
  assumes "get_sockaddr address = Raise x" and "heap s a = None" and "heap t a = None"
  shows "(\<exists>j. job_run_try am e' (lwt_unix_bind_job get_sockaddr a ub fd address) [''worker_bind'' \<mapsto> worker_bind bind_c] [''result_bind'' \<mapsto> result_bind] s =
      Some (Raise x, s\<lparr>heap := (heap s)(a \<mapsto> j)\<rparr>)) \<and>
    (\<exists>j. job_run_try am e' (lwt_unix_getnameinfo_job K get_sockaddr a un address opts) [''worker_getnameinfo'' \<mapsto> worker_getnameinfo getnameinfo_c]
        [''result_getnameinfo'' \<mapsto> result_getnameinfo] t = Some (Raise x, t\<lparr>heap := (heap t)(a \<mapsto> j)\<rparr>))"
  using assms by (auto simp: job_run_try_def job_defs job_common)

theorem address_error_leaks_job_witness:
  "\<exists>j. job_run_try LWT_UNIX_ASYNC_METHOD_DETACH 0 (lwt_unix_bind_job (\<lambda>_. Raise (Unix_error 36 [] Nothing)) 1 demo_bind_job 3 (Caml_string ''path''))
      [''worker_bind'' \<mapsto> worker_bind (\<lambda>fd addr e w. (0, e, w))] [''result_bind'' \<mapsto> result_bind] demo_addr =
    Some (Raise (Unix_error 36 [] Nothing), demo_addr\<lparr>heap := [1 \<mapsto> j]\<rparr>)"
  using address_error_leaks_job [of "\<lambda>_. Raise (Unix_error 36 [] Nothing)" "Caml_string ''path''" "Unix_error 36 [] Nothing" "demo_addr" 1 "demo_addr"
      LWT_UNIX_ASYNC_METHOD_DETACH 0 demo_bind_job 3 "\<lambda>fd addr e w. (0, e, w)"]
  by (simp add: demo_addr_def)

end
