(* ===== verification/Socket_Ops.thy ===== *)
theory Socket_Ops
  imports Sockets
begin

text \<open>
  Operations on sockets other than the transfer of data: \<^verbatim>\<open>unix_accept4.c\<close>, \<^verbatim>\<open>unix_get_credentials.c\<close>, and the multicast options of
  \<^verbatim>\<open>unix_mcast_utils.c\<close>, \<^verbatim>\<open>unix_mcast_set_loop.c\<close>, \<^verbatim>\<open>unix_mcast_set_ttl.c\<close> and \<^verbatim>\<open>unix_mcast_modify_membership.c\<close>.
\<close>

section \<open>accept4\<close>

text \<open>\<open>None\<close> for \<^verbatim>\<open>vcloexec\<close> is OCaml's \<^verbatim>\<open>None\<close>; \<open>SA\<close> and \<open>g\<close> are as for \<^verbatim>\<open>recvfrom\<close>.\<close>

definition lwt_unix_accept4 :: "(string \<Rightarrow> int) \<Rightarrow> nat \<Rightarrow> (nat \<Rightarrow> char) \<Rightarrow> (int \<Rightarrow> nat \<Rightarrow> int \<Rightarrow> ('os, int \<times> char list \<times> nat) syscall)
    \<Rightarrow> (char list \<Rightarrow> nat \<Rightarrow> int \<Rightarrow> ('os, caml_value outcome) syscall) \<Rightarrow> bool option \<Rightarrow> bool \<Rightarrow> int
    \<Rightarrow> ('x, 'os) cst \<Rightarrow> (caml_value outcome \<times> ('x, 'os) cst) option" where
  "lwt_unix_accept4 K SA g accept4_c alloc_sockaddr vcloexec vnonblock vsock s = do {
     let cloexec = (if vcloexec = Some True then K ''SOCK_CLOEXEC'' else 0);
     let nonblock = (if vnonblock then K ''SOCK_NONBLOCK'' else 0);
     let ((fd, peer, addr_len), e, w) = accept4_c (c_int vsock) SA (or cloexec nonblock) (c_errno s) (os s);
     addr \<leftarrow> write_at (uninit g SA) 0 peer;
     let s = s\<lparr>c_errno := e, os := w\<rparr>;
     if fd = -1 then Some (Raise (Unix_error e ''accept'' Nothing), s)
     else let (a, e, w) = alloc_sockaddr addr addr_len fd (c_errno s) (os s);
              s = s\<lparr>c_errno := e, os := w\<rparr>
          in case a of Raise x \<Rightarrow> Some (Raise x, s)
             | Ret vaddr \<Rightarrow> Some (Ret (Block 0 [Val_int fd, vaddr]), s)
   }"

section \<open>Credentials of the peer\<close>

text \<open>The variant for systems with \<^verbatim>\<open>SO_PEERCRED\<close>, and the one with \<^verbatim>\<open>getpeereid\<close>, which does not know the process.\<close>

definition lwt_unix_get_credentials :: "(int \<Rightarrow> ('os, int \<times> int \<times> int \<times> int) syscall) \<Rightarrow> int \<Rightarrow> ('x, 'os) cst \<Rightarrow> (caml_value outcome \<times> ('x, 'os) cst) option" where
  "lwt_unix_get_credentials getsockopt_peercred fd s =
     (let ((r, pid, uid, gid), e, w) = getsockopt_peercred (c_int fd) (c_errno s) (os s);
          s = s\<lparr>c_errno := e, os := w\<rparr>
      in if r = -1 then Some (Raise (Unix_error e ''get_credentials'' Nothing), s)
         else Some (Ret (Block 0 [Val_int pid, Val_int uid, Val_int gid]), s))"

definition lwt_unix_get_credentials_peereid :: "(int \<Rightarrow> ('os, int \<times> int \<times> int) syscall) \<Rightarrow> int \<Rightarrow> ('x, 'os) cst \<Rightarrow> (caml_value outcome \<times> ('x, 'os) cst) option" where
  "lwt_unix_get_credentials_peereid getpeereid fd s =
     (let ((r, euid, egid), e, w) = getpeereid (c_int fd) (c_errno s) (os s);
          s = s\<lparr>c_errno := e, os := w\<rparr>
      in if r = -1 then Some (Raise (Unix_error e ''get_credentials'' Nothing), s)
         else Some (Ret (Block 0 [Val_int (-1), Val_int euid, Val_int egid]), s))"

section \<open>Multicast\<close>

text \<open>\<^verbatim>\<open>getsockname\<close> gives its result and the family field of the address.\<close>

definition socket_domain :: "(string \<Rightarrow> int) \<Rightarrow> (int \<Rightarrow> ('os, int \<times> int) syscall) \<Rightarrow> int \<Rightarrow> ('x, 'os) cst \<Rightarrow> int outcome \<times> ('x, 'os) cst" where
  "socket_domain K getsockname_c fd s =
     (let ((r, sa_family), e, w) = getsockname_c fd (c_errno s) (os s);
          s = s\<lparr>c_errno := e, os := w\<rparr>
      in if r = -1 then (Raise (Unix_error e ''getsockname'' Nothing), s)
         else if sa_family = K ''AF_INET'' then (Ret (K ''PF_INET''), s)
         else if sa_family = K ''AF_INET6'' then (Ret (K ''PF_INET6''), s)
         else (Raise (Invalid_argument ''Not an Internet socket''), s))"

text \<open>\<^verbatim>\<open>setsockopt\<close> gets the descriptor, the level, the option and the bytes of the value.\<close>

type_synonym 'os setsockopt = "int \<Rightarrow> int \<Rightarrow> int \<Rightarrow> char list \<Rightarrow> ('os, int) syscall"

definition lwt_unix_mcast_set_loop :: "(string \<Rightarrow> int) \<Rightarrow> (int \<Rightarrow> ('os, int \<times> int) syscall) \<Rightarrow> 'os setsockopt \<Rightarrow> int \<Rightarrow> bool
    \<Rightarrow> ('x, 'os) cst \<Rightarrow> caml_value outcome \<times> ('x, 'os) cst" where
  "lwt_unix_mcast_set_loop K getsockname_c setsockopt_c fd flag s =
     (case socket_domain K getsockname_c (c_int fd) s of
        (Raise x, s) \<Rightarrow> (Raise x, s)
      | (Ret t, s) \<Rightarrow>
          let f = (if flag then 1 else 0) in
          if t = K ''PF_INET'' then
            let (r, e, w) = setsockopt_c (c_int fd) (K ''IPPROTO_IP'') (K ''IP_MULTICAST_LOOP'') (int_bytes f) (c_errno s) (os s);
                s = s\<lparr>c_errno := e, os := w\<rparr>
            in if r = -1 then (Raise (Unix_error e ''setsockopt'' Nothing), s) else (Ret Val_unit, s)
          else (Raise (Invalid_argument ''lwt_unix_mcast_set_loop''), s))"

definition lwt_unix_mcast_set_ttl :: "(string \<Rightarrow> int) \<Rightarrow> (int \<Rightarrow> ('os, int \<times> int) syscall) \<Rightarrow> 'os setsockopt \<Rightarrow> int \<Rightarrow> int
    \<Rightarrow> ('x, 'os) cst \<Rightarrow> caml_value outcome \<times> ('x, 'os) cst" where
  "lwt_unix_mcast_set_ttl K getsockname_c setsockopt_c fd ttl s =
     (let fd_sock = c_int fd in
      case socket_domain K getsockname_c fd_sock s of
        (Raise x, s) \<Rightarrow> (Raise x, s)
      | (Ret t, s) \<Rightarrow>
          let v = c_int ttl in
          if t = K ''PF_INET'' then
            let (r, e, w) = setsockopt_c fd_sock (K ''IPPROTO_IP'') (K ''IP_MULTICAST_TTL'') (int_bytes v) (c_errno s) (os s);
                s = s\<lparr>c_errno := e, os := w\<rparr>
            in if r = -1 then (Raise (Unix_error e ''setsockopt'' Nothing), s) else (Ret Val_unit, s)
          else (Raise (Invalid_argument ''lwt_unix_mcast_set_ttl''), s))"

text \<open>\<^verbatim>\<open>struct ip_mreq\<close> holds the group address and then the address of the interface. The action 0 is \<^verbatim>\<open>VAL_MCAST_ACTION_ADD\<close>.\<close>

definition lwt_unix_mcast_modify_membership :: "(string \<Rightarrow> int) \<Rightarrow> (int \<Rightarrow> ('os, int \<times> int) syscall) \<Rightarrow> 'os setsockopt \<Rightarrow> int \<Rightarrow> int \<Rightarrow> char list \<Rightarrow> char list
    \<Rightarrow> ('x, 'os) cst \<Rightarrow> caml_value outcome \<times> ('x, 'os) cst" where
  "lwt_unix_mcast_modify_membership K getsockname_c setsockopt_c fd v_action if_addr group_addr s =
     (let fd_sock = c_int fd in
      case socket_domain K getsockname_c fd_sock s of
        (Raise x, s) \<Rightarrow> (Raise x, s)
      | (Ret t, s) \<Rightarrow>
          if t = K ''PF_INET'' then
            if length group_addr \<noteq> 4 \<or> length if_addr \<noteq> 4 then (Raise (Invalid_argument ''lwt_unix_mcast_modify: Not an IPV4 address''), s)
            else
              let mreq = take 4 group_addr @ take 4 if_addr;
                  optname = (if v_action = 0 then K ''IP_ADD_MEMBERSHIP'' else K ''IP_DROP_MEMBERSHIP'');
                  (r, e, w) = setsockopt_c fd_sock (K ''IPPROTO_IP'') optname mreq (c_errno s) (os s);
                  s = s\<lparr>c_errno := e, os := w\<rparr>
              in if r = -1 then (Raise (Unix_error e ''setsockopt'' Nothing), s) else (Ret Val_unit, s)
          else (Raise (Invalid_argument ''lwt_unix_mcast_modify_membership''), s))"

section \<open>Specifications\<close>

text \<open>
  \<^verbatim>\<open>accept4\<close>: the new descriptor goes to OCaml, or the conversion of the address fails with the descriptor as its argument, so that it is closed; the
  address is converted from the bytes that the system stored.
\<close>

definition accept4_spec :: "nat \<Rightarrow> (char list \<Rightarrow> nat \<Rightarrow> int \<Rightarrow> ('os, caml_value outcome) syscall) \<Rightarrow> ('os, int \<times> char list \<times> nat) syscall
    \<Rightarrow> ('x, 'os) cst \<Rightarrow> caml_value outcome \<times> ('x, 'os) cst" where
  "accept4_spec SA alloc_sockaddr c s = (case c (c_errno s) (os s) of ((fd, peer, n), e, w) \<Rightarrow>
     if fd = -1 then (Raise (Unix_error e ''accept'' Nothing), s\<lparr>c_errno := e, os := w\<rparr>)
     else case alloc_sockaddr (peer @ replicate (SA - length peer) NUL) n fd e w of (a, e, w) \<Rightarrow>
       (case a of Raise x \<Rightarrow> Raise x | Ret address \<Rightarrow> Ret (Block 0 [Val_int fd, address]), s\<lparr>c_errno := e, os := w\<rparr>))"

definition accept4_contract :: "nat \<Rightarrow> ('os, int \<times> char list \<times> nat) syscall \<Rightarrow> bool" where
  "accept4_contract SA c \<longleftrightarrow> (\<forall>e w. case c e w of ((fd, peer, n), _) \<Rightarrow> length peer = min n SA)"

lemma accept4_correct:
  assumes c: "accept4_contract SA (accept4_c (c_int vsock) SA (or (if vcloexec = Some True then K ''SOCK_CLOEXEC'' else 0) (if vnonblock then K ''SOCK_NONBLOCK'' else 0)))"
    and sa: "sockaddr_contract SA alloc_sockaddr"
  shows "lwt_unix_accept4 K SA g accept4_c alloc_sockaddr vcloexec vnonblock vsock s =
    Some (accept4_spec SA alloc_sockaddr
      (accept4_c (c_int vsock) SA (or (if vcloexec = Some True then K ''SOCK_CLOEXEC'' else 0) (if vnonblock then K ''SOCK_NONBLOCK'' else 0))) s)"
proof -
  let ?fl = "or (if vcloexec = Some True then K ''SOCK_CLOEXEC'' else 0) (if vnonblock then K ''SOCK_NONBLOCK'' else 0)"
  obtain fd peer n e w where r: "accept4_c (c_int vsock) SA ?fl (c_errno s) (os s) = ((fd, peer, n), e, w)" by (metis prod.collapse)
  have k: "length peer = min n SA" using c [unfolded accept4_contract_def, rule_format, of "c_errno s" "os s"] unfolding r by simp
  let ?a = "peer @ drop (length peer) (uninit g SA)" and ?b = "peer @ replicate (SA - length peer) NUL"
  have a: "write_at (uninit g SA) 0 peer = Some ?a" using k by simp
  have "take n ?a = take n ?b" using k by (cases "n \<le> SA") auto
  then have "alloc_sockaddr ?a n fd = alloc_sockaddr ?b n fd" using sa k unfolding sockaddr_contract_def by auto
  with a show ?thesis
    unfolding lwt_unix_accept4_def accept4_spec_def Let_def r by (simp split: prod.split outcome.split)
qed

text \<open>A multicast option is set with one call on a socket of the Internet protocol version 4, and refused on any other, before any option is changed.\<close>

definition set_ipv4_option :: "(string \<Rightarrow> int) \<Rightarrow> (int \<Rightarrow> ('os, int \<times> int) syscall) \<Rightarrow> 'os setsockopt \<Rightarrow> int \<Rightarrow> int \<Rightarrow> char list \<Rightarrow> string
    \<Rightarrow> ('x, 'os) cst \<Rightarrow> caml_value outcome \<times> ('x, 'os) cst" where
  "set_ipv4_option K getsockname_c setsockopt_c fd optname v name s =
     (case getsockname_c fd (c_errno s) (os s) of ((r, family), e, w) \<Rightarrow>
        if r = -1 then (Raise (Unix_error e ''getsockname'' Nothing), s\<lparr>c_errno := e, os := w\<rparr>)
        else if family = K ''AF_INET'' then
          (case setsockopt_c fd (K ''IPPROTO_IP'') optname v e w of (r, e, w) \<Rightarrow>
             (if r = -1 then Raise (Unix_error e ''setsockopt'' Nothing) else Ret Val_unit, s\<lparr>c_errno := e, os := w\<rparr>))
        else (Raise (Invalid_argument (if family = K ''AF_INET6'' then name else ''Not an Internet socket'')), s\<lparr>c_errno := e, os := w\<rparr>))"

lemmas mcast_defs = lwt_unix_mcast_set_loop_def lwt_unix_mcast_set_ttl_def lwt_unix_mcast_modify_membership_def socket_domain_def set_ipv4_option_def Let_def

lemma mcast_set_loop_correct:
  "K ''PF_INET6'' \<noteq> K ''PF_INET'' \<Longrightarrow> lwt_unix_mcast_set_loop K getsockname_c setsockopt_c fd flag s =
     set_ipv4_option K getsockname_c setsockopt_c (c_int fd) (K ''IP_MULTICAST_LOOP'') (int_bytes (if flag then 1 else 0)) ''lwt_unix_mcast_set_loop'' s"
  by (simp add: mcast_defs split: prod.split)

lemma mcast_set_ttl_correct:
  "K ''PF_INET6'' \<noteq> K ''PF_INET'' \<Longrightarrow> lwt_unix_mcast_set_ttl K getsockname_c setsockopt_c fd ttl s =
     set_ipv4_option K getsockname_c setsockopt_c (c_int fd) (K ''IP_MULTICAST_TTL'') (int_bytes (c_int ttl)) ''lwt_unix_mcast_set_ttl'' s"
  by (simp add: mcast_defs split: prod.split)

lemma mcast_modify_membership_correct:
  "K ''PF_INET6'' \<noteq> K ''PF_INET'' \<Longrightarrow> length group_addr = 4 \<Longrightarrow> length if_addr = 4 \<Longrightarrow>
   lwt_unix_mcast_modify_membership K getsockname_c setsockopt_c fd v_action if_addr group_addr s =
     set_ipv4_option K getsockname_c setsockopt_c (c_int fd) (K (if v_action = 0 then ''IP_ADD_MEMBERSHIP'' else ''IP_DROP_MEMBERSHIP''))
       (group_addr @ if_addr) ''lwt_unix_mcast_modify_membership'' s"
  by (simp add: mcast_defs split: prod.split)

section \<open>Properties\<close>

text \<open>
  \<^verbatim>\<open>accept4\<close> returns the new descriptor with the address of the peer, converted from exactly the bytes the system stored; when the address cannot be converted the
  descriptor is handed to the conversion to be closed, so it does not leak. The multicast options are set by one \<^verbatim>\<open>setsockopt\<close> call with the
  right option and value on IPv4 sockets; IPv6 and other sockets are refused without a change.
\<close>

theorem socket_options_correct:
  assumes "K ''PF_INET6'' \<noteq> K ''PF_INET''" and "length group_addr = 4" and "length if_addr = 4"
    and "accept4_contract SA (accept4_c (c_int fd) SA (or (if vcloexec = Some True then K ''SOCK_CLOEXEC'' else 0) (if vnonblock then K ''SOCK_NONBLOCK'' else 0)))"
    and "sockaddr_contract SA alloc_sockaddr"
  shows "lwt_unix_accept4 K SA g accept4_c alloc_sockaddr vcloexec vnonblock fd s =
      Some (accept4_spec SA alloc_sockaddr
        (accept4_c (c_int fd) SA (or (if vcloexec = Some True then K ''SOCK_CLOEXEC'' else 0) (if vnonblock then K ''SOCK_NONBLOCK'' else 0))) s) \<and>
    lwt_unix_mcast_set_loop K getsockname_c setsockopt_c fd flag s =
      set_ipv4_option K getsockname_c setsockopt_c (c_int fd) (K ''IP_MULTICAST_LOOP'') (int_bytes (if flag then 1 else 0)) ''lwt_unix_mcast_set_loop'' s \<and>
    lwt_unix_mcast_set_ttl K getsockname_c setsockopt_c fd ttl s =
      set_ipv4_option K getsockname_c setsockopt_c (c_int fd) (K ''IP_MULTICAST_TTL'') (int_bytes (c_int ttl)) ''lwt_unix_mcast_set_ttl'' s \<and>
    lwt_unix_mcast_modify_membership K getsockname_c setsockopt_c fd v_action if_addr group_addr s =
      set_ipv4_option K getsockname_c setsockopt_c (c_int fd) (K (if v_action = 0 then ''IP_ADD_MEMBERSHIP'' else ''IP_DROP_MEMBERSHIP''))
        (group_addr @ if_addr) ''lwt_unix_mcast_modify_membership'' s"
  by (intro conjI accept4_correct mcast_set_loop_correct mcast_set_ttl_correct mcast_modify_membership_correct assms)

theorem socket_options_correct_witness:
  "lwt_unix_accept4 (\<lambda>k. if k = ''PF_INET'' then 2 else 10) 16 (\<lambda>_. CHR ''x'') (\<lambda>fd n fl e w. ((7, ''me'', 2), e, w + nat fl)) demo_alloc_sockaddr (Some True) False 3 demo_io =
    Some (Ret (Block 0 [Imm 7, Caml_string ''me'']), demo_io\<lparr>os := 10\<rparr>)"
proof -
  have "lwt_unix_accept4 (\<lambda>k. if k = ''PF_INET'' then 2 else 10) 16 (\<lambda>_. CHR ''x'') (\<lambda>fd n fl e w. ((7, ''me'', 2), e, w + nat fl)) demo_alloc_sockaddr (Some True) False 3 demo_io =
    Some (accept4_spec 16 demo_alloc_sockaddr (\<lambda>e w. ((7, ''me'', 2), e, w + 10)) demo_io)"
    using socket_options_correct [where K = "\<lambda>k. if k = ''PF_INET'' then 2 else 10" and group_addr = "''abcd''" and if_addr = "''abcd''" and SA = 16
        and accept4_c = "\<lambda>fd n fl e w. ((7, ''me'', 2), e, w + nat fl)" and alloc_sockaddr = demo_alloc_sockaddr and vcloexec = "Some True"
        and vnonblock = False and fd = 3 and s = demo_io, THEN conjunct1]
    by (simp add: accept4_contract_def sockaddr_contract_def demo_alloc_sockaddr_def fun_eq_iff)
  then show ?thesis by (simp add: accept4_spec_def demo_alloc_sockaddr_def demo_io_def Val_int_def caml_int_id)
qed

end
