(* ===== verification/Sys_Info.thy ===== *)
theory Sys_Info
  imports Io_Jobs Value_Types
begin

text \<open>
  Primitives that ask the system about processes, processors and memory: \<^verbatim>\<open>unix_get_affinity.c\<close>, \<^verbatim>\<open>unix_set_affinity.c\<close>, \<^verbatim>\<open>unix_get_cpu.c\<close>,
  \<^verbatim>\<open>unix_wait4.c\<close>, \<^verbatim>\<open>unix_readable.c\<close>, \<^verbatim>\<open>unix_writable.c\<close>, \<^verbatim>\<open>unix_get_page_size.c\<close>, \<^verbatim>\<open>unix_madvise.c\<close>, \<^verbatim>\<open>unix_mincore.c\<close> and the job
  \<^verbatim>\<open>unix_wait_mincore_job.c\<close>.
\<close>

section \<open>Processor sets\<close>

text \<open>
  A \<^verbatim>\<open>cpu_set_t\<close> is a list of bits; the macros of the C library ignore processors outside of the set.
\<close>

definition CPU_ZERO :: "nat \<Rightarrow> bool list" where
  "CPU_ZERO ncpu = replicate ncpu False"

definition CPU_SET :: "int \<Rightarrow> bool list \<Rightarrow> bool list" where
  "CPU_SET i cpus = (if 0 \<le> i \<and> i < int (length cpus) then cpus[nat i := True] else cpus)"

definition CPU_ISSET :: "nat \<Rightarrow> bool list \<Rightarrow> bool" where
  "CPU_ISSET i cpus \<longleftrightarrow> i < length cpus \<and> cpus ! i"

text \<open>The loop from the last processor down to the first; \<open>i\<close> are left.\<close>

fun affinity_loop :: "nat \<Rightarrow> bool list \<Rightarrow> caml_value \<Rightarrow> caml_value" where
  "affinity_loop 0 cpus xs = xs"
| "affinity_loop (Suc i) cpus xs = affinity_loop i cpus (if CPU_ISSET i cpus then Block 0 [Val_int (int i), xs] else xs)"

definition lwt_unix_get_affinity :: "nat \<Rightarrow> (int \<Rightarrow> ('os, int \<times> bool list) syscall) \<Rightarrow> int \<Rightarrow> ('x, 'os) cst \<Rightarrow> caml_value outcome \<times> ('x, 'os) cst" where
  "lwt_unix_get_affinity ncpu sched_getaffinity val_pid s =
     (let ((r, cpus), e, w) = sched_getaffinity (c_int val_pid) (c_errno s) (os s);
          s = s\<lparr>c_errno := e, os := w\<rparr>
      in if r < 0 then (Raise (Unix_error e ''sched_getaffinity'' Nothing), s)
         else (Ret (affinity_loop ncpu cpus (Val_int 0)), s))"

fun set_cpus :: "int list \<Rightarrow> bool list \<Rightarrow> bool list" where
  "set_cpus [] cpus = cpus"
| "set_cpus (i # is) cpus = set_cpus is (CPU_SET (c_int i) cpus)"

definition lwt_unix_set_affinity :: "nat \<Rightarrow> (int \<Rightarrow> bool list \<Rightarrow> ('os, int) syscall) \<Rightarrow> int \<Rightarrow> int list \<Rightarrow> ('x, 'os) cst \<Rightarrow> caml_value outcome \<times> ('x, 'os) cst" where
  "lwt_unix_set_affinity ncpu sched_setaffinity val_pid val_cpus s =
     (let cpus = set_cpus val_cpus (CPU_ZERO ncpu);
          (r, e, w) = sched_setaffinity (c_int val_pid) cpus (c_errno s) (os s);
          s = s\<lparr>c_errno := e, os := w\<rparr>
      in if r < 0 then (Raise (Unix_error e ''sched_setaffinity'' Nothing), s)
         else (Ret Val_unit, s))"

definition lwt_unix_get_cpu :: "('os, int) syscall \<Rightarrow> ('x, 'os) cst \<Rightarrow> caml_value outcome \<times> ('x, 'os) cst" where
  "lwt_unix_get_cpu sched_getcpu s =
     (let (cpu, e, w) = sched_getcpu (c_errno s) (os s);
          s = s\<lparr>c_errno := e, os := w\<rparr>
      in if cpu < 0 then (Raise (Unix_error e ''sched_getcpu'' Nothing), s) else (Ret (Val_int cpu), s))"

section \<open>Processes\<close>

text \<open>
  How a status word is read. The source defines the macros for systems that lack them, in the style of old Unix systems; other systems
  have their own, so they are a parameter.
\<close>

record wait_macros =
  WIFEXITED :: "int \<Rightarrow> bool"
  WEXITSTATUS :: "int \<Rightarrow> int"
  WIFSTOPPED :: "int \<Rightarrow> bool"
  WSTOPSIG :: "int \<Rightarrow> int"
  WTERMSIG :: "int \<Rightarrow> int"

definition v7_macros :: wait_macros where
  "v7_macros = \<lparr>WIFEXITED = (\<lambda>status. and status 0xFF = 0), WEXITSTATUS = (\<lambda>status. and (drop_bit 8 status) 0xFF),
     WIFSTOPPED = (\<lambda>status. and status 0xFF = 0xFF), WSTOPSIG = (\<lambda>status. and (drop_bit 8 status) 0xFF), WTERMSIG = (\<lambda>status. and status 0x3F)\<rparr>"

definition TAG_WEXITED :: nat where "TAG_WEXITED = 0"
definition TAG_WSIGNALED :: nat where "TAG_WSIGNALED = 1"
definition TAG_WSTOPPED :: nat where "TAG_WSTOPPED = 2"

text \<open>\<open>conv\<close> is \<^verbatim>\<open>caml_rev_convert_signal_number\<close>.\<close>

definition alloc_process_status :: "wait_macros \<Rightarrow> (int \<Rightarrow> int) \<Rightarrow> int \<Rightarrow> caml_value" where
  "alloc_process_status W conv status =
     (if WIFEXITED W status then Block TAG_WEXITED [Val_int (WEXITSTATUS W status)]
      else if WIFSTOPPED W status then Block TAG_WSTOPPED [Val_int (conv (WSTOPSIG W status))]
      else Block TAG_WSIGNALED [Val_int (conv (WTERMSIG W status))])"

definition wait_flag_table :: "(string \<Rightarrow> int) \<Rightarrow> int list" where
  "wait_flag_table K = [K ''WNOHANG'', K ''WUNTRACED'']"

record rusage =
  ru_utime :: "int \<times> int"
  ru_stime :: "int \<times> int"

text \<open>
  \<open>wait4_c\<close> gives its result and what it stores, if it stores anything: \<open>status0\<close> and \<open>ru0\<close> are the contents of the two uninitialised variables.
  254 is \<^verbatim>\<open>Double_array_tag\<close>.
\<close>

definition rusage_time :: "double_ops \<Rightarrow> int \<times> int \<Rightarrow> caml_value" where
  "rusage_time F t = Caml_double (d_add F (d_of_int F (fst t)) (d_div F (d_of_int F (snd t)) (d_of_int F 1000000)))"

definition lwt_unix_wait4 :: "wait_macros \<Rightarrow> (int \<Rightarrow> int) \<Rightarrow> (string \<Rightarrow> int) \<Rightarrow> double_ops
    \<Rightarrow> (int \<Rightarrow> int \<Rightarrow> ('os, int \<times> int option \<times> rusage option) syscall) \<Rightarrow> int \<Rightarrow> rusage \<Rightarrow> int list \<Rightarrow> int
    \<Rightarrow> ('x, 'os) cst \<Rightarrow> (caml_value outcome \<times> ('x, 'os) cst) option" where
  "lwt_unix_wait4 W conv K F wait4_c status0 ru0 flags pid_req s = do {
     cv_flags \<leftarrow> flags_of (wait_flag_table K) flags;
     let ((pid, st, u), e, w) = wait4_c (c_int pid_req) cv_flags (c_errno s) (os s);
     let status = (case st of Some x \<Rightarrow> x | None \<Rightarrow> status0);
     let ru = (case u of Some x \<Rightarrow> x | None \<Rightarrow> ru0);
     let s = s\<lparr>c_errno := e, os := w\<rparr>;
     if pid = -1 then Some (Raise (Unix_error e ''wait4'' Nothing), s)
     else Some (Ret (Block 0 [Val_int pid, alloc_process_status W conv status,
                              Block 254 [rusage_time F (ru_utime ru), rusage_time F (ru_stime ru)]]), s)
   }"

section \<open>Descriptors\<close>

text \<open>\<^verbatim>\<open>poll\<close> on one descriptor with no delay; it gives its result and \<^verbatim>\<open>revents\<close>, which is 0 when it stores nothing.\<close>

definition lwt_unix_readable :: "(string \<Rightarrow> int) \<Rightarrow> (int \<Rightarrow> int \<Rightarrow> ('os, int \<times> int) syscall) \<Rightarrow> int \<Rightarrow> ('x, 'os) cst \<Rightarrow> caml_value outcome \<times> ('x, 'os) cst" where
  "lwt_unix_readable K poll_c fd s =
     (let ((r, revents), e, w) = poll_c (c_int fd) (K ''POLLIN'') (c_errno s) (os s);
          s = s\<lparr>c_errno := e, os := w\<rparr>
      in if r < 0 then (Raise (Unix_error e ''readable'' Nothing), s)
         else (Ret (Val_bool (and revents (K ''POLLIN'') \<noteq> 0)), s))"

definition lwt_unix_writable :: "(string \<Rightarrow> int) \<Rightarrow> (int \<Rightarrow> int \<Rightarrow> ('os, int \<times> int) syscall) \<Rightarrow> int \<Rightarrow> ('x, 'os) cst \<Rightarrow> caml_value outcome \<times> ('x, 'os) cst" where
  "lwt_unix_writable K poll_c fd s =
     (let ((r, revents), e, w) = poll_c (c_int fd) (K ''POLLOUT'') (c_errno s) (os s);
          s = s\<lparr>c_errno := e, os := w\<rparr>
      in if r < 0 then (Raise (Unix_error e ''writable'' Nothing), s)
         else (Ret (Val_bool (and revents (K ''POLLOUT'') \<noteq> 0)), s))"

section \<open>Memory\<close>

definition lwt_unix_get_page_size :: "int \<Rightarrow> caml_value" where
  "lwt_unix_get_page_size sysconf_pagesize = (let page_size = sysconf_pagesize in
     Val_long (if page_size < 0 then 4096 else page_size))"

text \<open>Advice that the system does not know is 0 in the table; \<open>defined\<close> tells which macros exist.\<close>

definition advise_table :: "(string \<Rightarrow> bool) \<Rightarrow> (string \<Rightarrow> int) \<Rightarrow> int list" where
  "advise_table defined K = [K ''MADV_NORMAL'', K ''MADV_RANDOM'', K ''MADV_SEQUENTIAL'', K ''MADV_WILLNEED'', K ''MADV_DONTNEED'',
     if defined ''MADV_MERGEABLE'' then K ''MADV_MERGEABLE'' else 0,
     if defined ''MADV_UNMERGEABLE'' then K ''MADV_UNMERGEABLE'' else 0,
     if defined ''MADV_HUGEPAGE'' then K ''MADV_HUGEPAGE'' else 0,
     if defined ''MADV_NOHUGEPAGE'' then K ''MADV_NOHUGEPAGE'' else 0]"

definition lwt_unix_madvise :: "(string \<Rightarrow> bool) \<Rightarrow> (string \<Rightarrow> int) \<Rightarrow> (nat \<Rightarrow> int \<Rightarrow> int \<Rightarrow> int \<Rightarrow> ('os, int) syscall) \<Rightarrow> nat \<Rightarrow> int \<Rightarrow> int \<Rightarrow> int
    \<Rightarrow> ('x, 'os) cst \<Rightarrow> (caml_value outcome \<times> ('x, 'os) cst) option" where
  "lwt_unix_madvise defined K madvise_c val_buffer val_offset val_length val_advice s = do {
     advice \<leftarrow> tbl_get (advise_table defined K) (c_int val_advice);
     let (ret, e, w) = madvise_c val_buffer val_offset val_length advice (c_errno s) (os s);
     let s = s\<lparr>c_errno := e, os := w\<rparr>;
     if ret = -1 then Some (Raise (Unix_error e ''madvise'' Nothing), s) else Some (Ret Val_unit, s)
   }"

text \<open>
  \<^verbatim>\<open>mincore\<close> stores one byte per page. The array \<^verbatim>\<open>vec\<close> has the length of the OCaml array \<^verbatim>\<open>states\<close> and uninitialised content \<open>g\<close>. The function gives
  the new content of \<^verbatim>\<open>states\<close>.
\<close>

definition lwt_unix_mincore :: "(nat \<Rightarrow> char) \<Rightarrow> (nat \<Rightarrow> int \<Rightarrow> int \<Rightarrow> ('os, int \<times> char list) syscall) \<Rightarrow> nat \<Rightarrow> int \<Rightarrow> int \<Rightarrow> caml_value list
    \<Rightarrow> ('x, 'os) cst \<Rightarrow> (caml_value \<times> caml_value list \<times> ('x, 'os) cst) option" where
  "lwt_unix_mincore g mincore_c val_buffer val_offset val_length val_states s = do {
     let len = length val_states;
     let ((r, pages), e, w) = mincore_c val_buffer val_offset val_length (c_errno s) (os s);
     vec \<leftarrow> write_at (uninit g len) 0 pages;
     Some (Val_unit, map (\<lambda>c. Val_bool (odd (of_char c :: int))) vec, s\<lparr>c_errno := e, os := w\<rparr>)
   }"

record job_wait_mincore = sysjob +
  m_ocaml_buffer :: nat
  m_ptr :: int

type_synonym wait_mincore_x = "unit job_wait_mincore_ext sys_x"

definition worker_wait_mincore :: "nat \<Rightarrow> (wait_mincore_x, 'os) cst \<Rightarrow> (wait_mincore_x, 'os) cst option" where
  [job_defs]: "worker_wait_mincore p s = do {
     job \<leftarrow> heap s p;
     d \<leftarrow> rooted_buf p (m_ocaml_buffer job) s;
     dummy \<leftarrow> read_at d (nat (m_ptr job)) 1;
     Some s
   }"

definition result_wait_mincore :: "nat \<Rightarrow> (wait_mincore_x, 'os) cst \<Rightarrow> (caml_value outcome \<times> (wait_mincore_x, 'os) cst) option" where
  [job_defs]: "result_wait_mincore p s = do {
     s \<leftarrow> remove_root p s;
     free_and_return p Val_unit s
   }"

definition lwt_unix_wait_mincore_job :: "nat \<Rightarrow> job_wait_mincore \<Rightarrow> nat \<Rightarrow> int \<Rightarrow> (wait_mincore_x, 'os) cst \<Rightarrow> (caml_value \<times> (wait_mincore_x, 'os) cst) option" where
  [job_defs]: "lwt_unix_wait_mincore_job a u val_buffer val_offset s = do {
     s \<leftarrow> LWT_UNIX_INIT_JOB a ''wait_mincore'' u s;
     s \<leftarrow> set_job a (\<lambda>j. j\<lparr>m_ptr := val_offset, m_ocaml_buffer := val_buffer\<rparr>) s;
     lwt_unix_alloc_job a (register_root a s)
   }"

section \<open>Processor sets: what the loops compute\<close>

lemma length_set_cpus [simp]: "length (set_cpus is cpus) = length cpus"
  by (induction "is" arbitrary: cpus) (simp_all add: CPU_SET_def)

lemma nth_set_cpus:
  "i < length cpus \<Longrightarrow> set_cpus is cpus ! i \<longleftrightarrow> cpus ! i \<or> int i \<in> c_int ` set is"
proof (induction "is" arbitrary: cpus)
  case (Cons x xs)
  have "CPU_SET (c_int x) cpus ! i \<longleftrightarrow> cpus ! i \<or> int i = c_int x" using Cons.prems by (auto simp: CPU_SET_def nth_list_update)
  with Cons show ?case by (auto simp: CPU_SET_def)
qed simp

lemma affinity_loop_list:
  "affinity_loop n cpus (Val_list vs) = Val_list (map (\<lambda>i. Val_int (int i)) (filter (\<lambda>i. CPU_ISSET i cpus) [0..<n]) @ vs)"
proof (induction n arbitrary: vs)
  case (Suc n)
  then show ?case using Suc.IH [of "Val_int (int n) # vs"] by simp
qed simp

section \<open>The job that loads a page\<close>

lemma wait_mincore_job_run:
  assumes "heap s a = None" and "bufs s buf = Some d" and "0 \<le> ofs" and "ofs < int (length d)"
  shows "job_run am e' (lwt_unix_wait_mincore_job a u buf ofs) [''worker_wait_mincore'' \<mapsto> worker_wait_mincore]
    [''result_wait_mincore'' \<mapsto> result_wait_mincore] s = Some (Ret Val_unit, s\<lparr>c_errno := e'\<rparr>)"
proof -
  have "nat ofs + 1 \<le> length d" using assms(3,4) by auto
  then show ?thesis using assms(1,2)
    by (cases s) (simp add: io_defs job_defs fun_upd_idem)
qed

section \<open>Properties\<close>

text \<open>
  Processor affinity: the set that \<^verbatim>\<open>set_affinity\<close> gives to the system contains exactly the processors of the list that exist, and \<^verbatim>\<open>get_affinity\<close> returns the
  processors of a set in increasing order, so reading the affinity back gives the sorted list without duplicates.
\<close>

theorem affinity_roundtrip:
  assumes "sched_setaffinity (c_int pid) bits (c_errno s) (os s) = (0, e, w)" and "sched_getaffinity (c_int pid) e w = ((0, bits), e', w')"
    and "bits = map (\<lambda>i. int i \<in> c_int ` set cpus) [0..<ncpu]"
  shows "lwt_unix_set_affinity ncpu sched_setaffinity pid cpus s = (Ret Val_unit, s\<lparr>c_errno := e, os := w\<rparr>) \<and>
    lwt_unix_get_affinity ncpu sched_getaffinity pid (s\<lparr>c_errno := e, os := w\<rparr>) =
      (Ret (Val_list (map (\<lambda>i. Val_int (int i)) (filter (\<lambda>i. int i \<in> c_int ` set cpus) [0..<ncpu]))), s\<lparr>c_errno := e', os := w'\<rparr>)"
proof
  have "set_cpus cpus (CPU_ZERO ncpu) = bits"
    by (rule nth_equalityI) (simp_all add: assms(3) CPU_ZERO_def nth_set_cpus)
  then show "lwt_unix_set_affinity ncpu sched_setaffinity pid cpus s = (Ret Val_unit, s\<lparr>c_errno := e, os := w\<rparr>)"
    using assms(1) by (simp add: lwt_unix_set_affinity_def)
  have "filter (\<lambda>i. CPU_ISSET i bits) [0..<ncpu] = filter (\<lambda>i. int i \<in> c_int ` set cpus) [0..<ncpu]"
    by (rule filter_cong) (auto simp: CPU_ISSET_def assms(3))
  with affinity_loop_list [of ncpu bits "[]"] assms(2)
  show "lwt_unix_get_affinity ncpu sched_getaffinity pid (s\<lparr>c_errno := e, os := w\<rparr>) =
      (Ret (Val_list (map (\<lambda>i. Val_int (int i)) (filter (\<lambda>i. int i \<in> c_int ` set cpus) [0..<ncpu]))), s\<lparr>c_errno := e', os := w'\<rparr>)"
    by (simp add: lwt_unix_get_affinity_def Val_emptylist_def Val_int_def caml_int_id)
qed

theorem affinity_roundtrip_witness:
  "lwt_unix_get_affinity 4 (\<lambda>pid e w. ((0, [False, True, False, True]), e, w)) 0 demo_io = (Ret (Val_list [Val_int 1, Val_int 3]), demo_io)"
proof -
  have ci: "c_int ` set [3, 1, 9, 3] = {1, 3, 9}" by (auto simp: c_int_id)
  have s: "demo_io\<lparr>c_errno := 0, os := 0\<rparr> = demo_io" by (simp add: demo_io_def)
  have "lwt_unix_get_affinity 4 (\<lambda>pid e w. ((0, [False, True, False, True]), e, w)) 0 (demo_io\<lparr>c_errno := 0, os := 0\<rparr>) =
    (Ret (Val_list (map (\<lambda>i. Val_int (int i)) (filter (\<lambda>i. int i \<in> c_int ` set [3, 1, 9, 3]) [0..<4]))), demo_io\<lparr>c_errno := 0, os := 0\<rparr>)"
    by (rule affinity_roundtrip [where sched_setaffinity = "\<lambda>pid bits e w. (0, e, w)" and bits = "[False, True, False, True]", THEN conjunct2])
      (simp_all add: demo_io_def c_int_id upt_rec)
  then show ?thesis unfolding s ci by (simp add: upt_rec)
qed

text \<open>
  \<^verbatim>\<open>lwt_unix_mincore\<close> ignores the result of \<^verbatim>\<open>mincore\<close>: when the call fails, nothing is raised and every state is computed from the uninitialised array \<open>g\<close>. When
  it succeeds the states are the lowest bits of the bytes that the system stored.
\<close>

theorem mincore_ignores_errors:
  assumes "mincore_c buf ofs len (c_errno s) (os s) = ((r, pages), e, w)" and "r = 0 \<longrightarrow> length pages = length states" and "r \<noteq> 0 \<longrightarrow> pages = []"
  shows "lwt_unix_mincore g mincore_c buf ofs len states s =
    Some (Val_unit, map (\<lambda>i. Val_bool (odd (of_char (if r = 0 then pages ! i else g i) :: int))) [0..<length states], s\<lparr>c_errno := e, os := w\<rparr>)"
proof (cases "r = 0")
  case True
  then have "map (\<lambda>i. Val_bool (odd (of_char (pages ! i) :: int))) [0..<length states] = map (\<lambda>c. Val_bool (odd (of_char c :: int))) pages"
    using assms(2) by (intro nth_equalityI) simp_all
  with True assms(1,2) show ?thesis by (simp add: lwt_unix_mincore_def)
next
  case False
  with assms(1,3) show ?thesis by (simp add: lwt_unix_mincore_def uninit_def comp_def)
qed

theorem mincore_ignores_errors_witness:
  "lwt_unix_mincore (\<lambda>i. if i = 0 then CHR 0x01 else CHR 0x00) (\<lambda>b ofs len e w. ((-1, []), 22, w)) 5 1 2 [Imm 0, Imm 0] demo_io =
    Some (Val_unit, [Val_bool True, Val_bool False], demo_io\<lparr>c_errno := 22\<rparr>)"
  using mincore_ignores_errors [where mincore_c = "\<lambda>b ofs len e w. ((-1, []), 22, w)" and r = "-1" and pages = "[]" and e = 22 and w = 0 and s = demo_io
      and buf = 5 and ofs = 1 and len = 2 and states = "[Imm 0, Imm 0]" and g = "\<lambda>i. if i = 0 then CHR 0x01 else CHR 0x00"]
  by (simp add: demo_io_def upt_rec)

end
