(* ===== verification/Bytes.thy ===== *)
theory Bytes
  imports Io_Jobs
begin

text \<open>
  The operations on Bigarrays of \<^verbatim>\<open>lwt_unix_stubs.c\<close> that \<^verbatim>\<open>Lwt_bytes\<close> is built on: copies between Bigarrays, byte strings and strings,
  filling, and the test for a mapped file; and the byte order of the system. The OCaml code checks the ranges before it calls them.
\<close>

section \<open>Operations\<close>

text \<open>
  \<^verbatim>\<open>memmove\<close> is defined also for ranges that overlap; \<^verbatim>\<open>memcpy\<close> is not, and an OCaml string and a Bigarray never overlap.
\<close>

definition memmove :: "nat \<Rightarrow> nat \<Rightarrow> nat \<Rightarrow> nat \<Rightarrow> nat \<Rightarrow> ('x, 'os) cst \<Rightarrow> ('x, 'os) cst option" where
  "memmove dst dofs src sofs n s = do {
     d \<leftarrow> bufs s src;
     bs \<leftarrow> read_at d sofs n;
     d \<leftarrow> bufs s dst;
     d \<leftarrow> write_at d dofs bs;
     Some (s\<lparr>bufs := (bufs s)(dst \<mapsto> d)\<rparr>)
   }"

definition memcpy :: "nat \<Rightarrow> nat \<Rightarrow> nat \<Rightarrow> nat \<Rightarrow> nat \<Rightarrow> ('x, 'os) cst \<Rightarrow> ('x, 'os) cst option" where
  "memcpy dst dofs src sofs n s =
     (if dst = src \<and> 0 < n \<and> dofs < sofs + n \<and> sofs < dofs + n then None else memmove dst dofs src sofs n s)"

definition lwt_unix_blit :: "nat \<Rightarrow> int \<Rightarrow> nat \<Rightarrow> int \<Rightarrow> int \<Rightarrow> ('x, 'os) cst \<Rightarrow> (caml_value \<times> ('x, 'os) cst) option" where
  "lwt_unix_blit buf1 ofs1 buf2 ofs2 len s = do {
     s \<leftarrow> memmove buf2 (nat ofs2) buf1 (nat ofs1) (nat len) s;
     Some (Val_unit, s)
   }"

definition lwt_unix_blit_from_bytes :: "nat \<Rightarrow> int \<Rightarrow> nat \<Rightarrow> int \<Rightarrow> int \<Rightarrow> ('x, 'os) cst \<Rightarrow> (caml_value \<times> ('x, 'os) cst) option" where
  "lwt_unix_blit_from_bytes buf1 ofs1 buf2 ofs2 len s = do {
     s \<leftarrow> memcpy buf2 (nat ofs2) buf1 (nat ofs1) (nat len) s;
     Some (Val_unit, s)
   }"

text \<open>The source is an immutable string, given by its bytes.\<close>

definition lwt_unix_blit_from_string :: "char list \<Rightarrow> int \<Rightarrow> nat \<Rightarrow> int \<Rightarrow> int \<Rightarrow> ('x, 'os) cst \<Rightarrow> (caml_value \<times> ('x, 'os) cst) option" where
  "lwt_unix_blit_from_string str ofs1 buf2 ofs2 len s = do {
     bs \<leftarrow> read_at str (nat ofs1) (nat len);
     d \<leftarrow> bufs s buf2;
     d \<leftarrow> write_at d (nat ofs2) bs;
     Some (Val_unit, s\<lparr>bufs := (bufs s)(buf2 \<mapsto> d)\<rparr>)
   }"

definition lwt_unix_blit_to_bytes :: "nat \<Rightarrow> int \<Rightarrow> nat \<Rightarrow> int \<Rightarrow> int \<Rightarrow> ('x, 'os) cst \<Rightarrow> (caml_value \<times> ('x, 'os) cst) option" where
  "lwt_unix_blit_to_bytes buf1 ofs1 buf2 ofs2 len s = do {
     s \<leftarrow> memcpy buf2 (nat ofs2) buf1 (nat ofs1) (nat len) s;
     Some (Val_unit, s)
   }"

text \<open>\<^verbatim>\<open>memset\<close> converts its argument to an unsigned byte.\<close>

definition lwt_unix_fill_bytes :: "nat \<Rightarrow> int \<Rightarrow> int \<Rightarrow> int \<Rightarrow> ('x, 'os) cst \<Rightarrow> (caml_value \<times> ('x, 'os) cst) option" where
  "lwt_unix_fill_bytes buf ofs len ch s = do {
     d \<leftarrow> bufs s buf;
     d \<leftarrow> write_at d (nat ofs) (replicate (nat len) (char_of (c_int ch)));
     Some (Val_unit, s\<lparr>bufs := (bufs s)(buf \<mapsto> d)\<rparr>)
   }"

definition lwt_unix_mapped :: "(string \<Rightarrow> int) \<Rightarrow> int \<Rightarrow> caml_value" where
  "lwt_unix_mapped K flags = Val_bool (and flags (K ''CAML_BA_MAPPED_FILE'') \<noteq> 0)"

definition lwt_unix_system_byte_order :: "bool \<Rightarrow> caml_value" where
  "lwt_unix_system_byte_order big_endian = (if big_endian then Val_int 1 else Val_int 0)"

section \<open>What a copy does\<close>

text \<open>The bytes \<open>bs\<close> are in the buffer at the offset, and nothing else has changed.\<close>

definition stored :: "nat \<Rightarrow> nat \<Rightarrow> char list \<Rightarrow> ('x, 'os) cst \<Rightarrow> ('x, 'os) cst \<Rightarrow> bool" where
  "stored buf ofs bs s t \<longleftrightarrow> (\<exists>d d'. bufs s buf = Some d \<and> t = s\<lparr>bufs := (bufs s)(buf \<mapsto> d')\<rparr> \<and> length d' = length d \<and>
     (\<forall>i < length d. d' ! i = (if ofs \<le> i \<and> i < ofs + length bs then bs ! (i - ofs) else d ! i)))"

definition range_bytes :: "nat \<Rightarrow> int \<Rightarrow> int \<Rightarrow> ('x, 'os) cst \<Rightarrow> char list" where
  "range_bytes buf ofs len s = take (nat len) (drop (nat ofs) (the (bufs s buf)))"

lemma stored_write:
  assumes "bufs s buf = Some d" and "write_at d ofs bs = Some d'"
  shows "stored buf ofs bs s (s\<lparr>bufs := (bufs s)(buf \<mapsto> d')\<rparr>)"
  using assms unfolding stored_def
  by (intro exI [of _ d] exI [of _ d']) (auto simp: write_at_def nth_append split: if_splits)

lemma memmove_stored:
  assumes "in_buffer src sofs len s" and "in_buffer dst dofs len s"
  shows "\<exists>t. memmove dst (nat dofs) src (nat sofs) (nat len) s = Some t \<and> stored dst (nat dofs) (range_bytes src sofs len s) s t"
proof -
  obtain a b where ab: "bufs s src = Some a" "nat sofs + nat len \<le> length a" "bufs s dst = Some b" "nat dofs + nat len \<le> length b"
    using assms unfolding in_buffer_def by (auto simp flip: nat_add_distrib)
  define bs where "bs = take (nat len) (drop (nat sofs) a)"
  have bs: "read_at a (nat sofs) (nat len) = Some bs" "range_bytes src sofs len s = bs" "nat dofs + length bs \<le> length b"
    using ab by (simp_all add: bs_def range_bytes_def)
  then obtain b' where "write_at b (nat dofs) bs = Some b'" by (auto simp: write_at_def)
  with ab bs stored_write [of s dst b "nat dofs" bs b'] show ?thesis by (simp add: memmove_def)
qed

lemma memcpy_memmove: "dst \<noteq> src \<Longrightarrow> memcpy dst dofs src sofs n s = memmove dst dofs src sofs n s"
  by (simp add: memcpy_def)

lemma stored_range:
  assumes "stored buf (nat ofs) bs s t" and "in_buffer buf ofs len s" and "length bs = nat len"
  shows "range_bytes buf ofs len t = bs" and "in_buffer buf ofs len t"
proof -
  obtain d d' where d: "bufs s buf = Some d" "t = s\<lparr>bufs := (bufs s)(buf \<mapsto> d')\<rparr>" "length d' = length d"
    "\<And>i. i < length d \<Longrightarrow> d' ! i = (if nat ofs \<le> i \<and> i < nat ofs + length bs then bs ! (i - nat ofs) else d ! i)"
    using assms(1) unfolding stored_def by blast
  have l: "nat ofs + nat len \<le> length d" using assms(2) d(1) unfolding in_buffer_def by auto
  show "range_bytes buf ofs len t = bs"
    using d l assms(3) by (intro nth_equalityI) (simp_all add: range_bytes_def)
  show "in_buffer buf ofs len t" using assms(2) d unfolding in_buffer_def by auto
qed

section \<open>Properties\<close>

text \<open>
  Copying and filling: for ranges inside the buffers the bytes of the source range are stored at the destination offset, the rest of the destination, its length
  and every other buffer are unchanged. Between two Bigarrays, and inside one, the ranges may overlap: the destination then gets the old content of the source. What was copied from a byte string into
  a Bigarray is returned unchanged when it is copied back.
\<close>

theorem blits_correct:
  assumes "in_buffer b1 o1 len s" and "in_buffer b2 o2 len s" and "0 \<le> o1" and "0 \<le> len" and "o1 + len \<le> int (length str)"
  shows "(\<exists>t. lwt_unix_blit b1 o1 b2 o2 len s = Some (Val_unit, t) \<and> stored b2 (nat o2) (range_bytes b1 o1 len s) s t) \<and>
    (\<exists>t. lwt_unix_blit_from_string str o1 b2 o2 len s = Some (Val_unit, t) \<and> stored b2 (nat o2) (take (nat len) (drop (nat o1) str)) s t) \<and>
    (\<exists>t. lwt_unix_fill_bytes b2 o2 len ch s = Some (Val_unit, t) \<and> stored b2 (nat o2) (replicate (nat len) (char_of (c_int ch))) s t) \<and>
    (b1 \<noteq> b2 \<longrightarrow> (\<exists>t u. lwt_unix_blit_from_bytes b1 o1 b2 o2 len s = Some (Val_unit, t) \<and> stored b2 (nat o2) (range_bytes b1 o1 len s) s t \<and>
      lwt_unix_blit_to_bytes b2 o2 b1 o1 len t = Some (Val_unit, u) \<and> u = t))"
proof (intro conjI impI)
  show "\<exists>t. lwt_unix_blit b1 o1 b2 o2 len s = Some (Val_unit, t) \<and> stored b2 (nat o2) (range_bytes b1 o1 len s) s t"
    using memmove_stored [OF assms(1,2)] by (auto simp: lwt_unix_blit_def)
  obtain d where d: "bufs s b2 = Some d" "nat o2 + nat len \<le> length d" using assms(2) unfolding in_buffer_def by auto
  have str: "nat o1 + nat len \<le> length str" using assms(3-5) by auto
  obtain d1 d2 where w: "write_at d (nat o2) (take (nat len) (drop (nat o1) str)) = Some d1"
    "write_at d (nat o2) (replicate (nat len) (char_of (c_int ch))) = Some d2" using d str by (simp add: write_at_def)
  show "\<exists>t. lwt_unix_blit_from_string str o1 b2 o2 len s = Some (Val_unit, t) \<and> stored b2 (nat o2) (take (nat len) (drop (nat o1) str)) s t"
    using stored_write [OF d(1) w(1)] d(1) w(1) str by (simp add: lwt_unix_blit_from_string_def)
  show "\<exists>t. lwt_unix_fill_bytes b2 o2 len ch s = Some (Val_unit, t) \<and> stored b2 (nat o2) (replicate (nat len) (char_of (c_int ch))) s t"
    using stored_write [OF d(1) w(2)] d(1) w(2) by (simp add: lwt_unix_fill_bytes_def)
  assume ne: "b1 \<noteq> b2"
  obtain t where t: "memmove b2 (nat o2) b1 (nat o1) (nat len) s = Some t" "stored b2 (nat o2) (range_bytes b1 o1 len s) s t"
    using memmove_stored [OF assms(1,2)] by auto
  obtain a where a: "bufs s b1 = Some a" "nat o1 + nat len \<le> length a" using assms(1) unfolding in_buffer_def by auto
  have ta: "bufs t b1 = Some a" using t(2) a(1) ne unfolding stored_def by auto
  have "length (range_bytes b1 o1 len s) = nat len" using a by (simp add: range_bytes_def)
  from stored_range [OF t(2) assms(2) this] obtain c where c: "bufs t b2 = Some c" "nat o2 + nat len \<le> length c"
    "take (nat len) (drop (nat o2) c) = take (nat len) (drop (nat o1) a)"
    using a unfolding in_buffer_def range_bytes_def by auto
  have "take (nat o1) a @ take (nat len) (drop (nat o1) a) @ drop (nat o1 + nat len) a = a"
    by (metis add.commute append_take_drop_id drop_drop)
  then have "memmove b1 (nat o1) b2 (nat o2) (nat len) t = Some t"
    using ta c a by (cases t) (simp add: memmove_def fun_upd_idem)
  then show "\<exists>t u. lwt_unix_blit_from_bytes b1 o1 b2 o2 len s = Some (Val_unit, t) \<and> stored b2 (nat o2) (range_bytes b1 o1 len s) s t \<and>
      lwt_unix_blit_to_bytes b2 o2 b1 o1 len t = Some (Val_unit, u) \<and> u = t"
    using t ne by (auto simp: lwt_unix_blit_from_bytes_def lwt_unix_blit_to_bytes_def memcpy_memmove)
qed

theorem blits_correct_witness:
  "\<exists>t. lwt_unix_blit 5 1 5 2 3 demo_io = Some (Val_unit, t) \<and> stored 5 2 ''bcd'' demo_io t"
  using blits_correct [of 5 1 3 demo_io 5 2 "''abcd''" 0, THEN conjunct1]
  by (simp add: in_buffer_def range_bytes_def demo_io_def numeral_eq_Suc)

end
