(* ===== verification/Threads.thy ===== *)
theory Threads
  imports Runtime
begin

text \<open>
  The threading layer of \<^verbatim>\<open>lwt_unix_stubs.c\<close>: starting a thread, on POSIX systems and on Windows, and the condition variables that the code implements itself on Windows. (On
  POSIX systems mutexes and conditions are those of the pthread library.)

  A condition variable on Windows is a linked list of nodes, each on the stack of a waiting thread, with an event that the thread waits for. The
  functions are cut into atomic steps, and any number of threads run them in any order. \<open>Undefined\<close> is a step that follows a dangling pointer or uses a closed
  handle; \<open>Blocked\<close> one that has to wait.
\<close>

section \<open>Starting a thread\<close>

text \<open>
  A signal mask is a list of bits. \<open>threads\<close> are the threads created: start function, argument, whether detached, and signal mask. \<open>attrs\<close> counts the
  attribute objects that exist.
\<close>

record ('f, 'd) thread_env =
  sigmask :: "bool list"
  attrs :: nat
  threads :: "('f \<times> 'd \<times> bool \<times> bool list) list"

definition sigfillset :: "bool list \<Rightarrow> bool list" where
  "sigfillset m = replicate (length m) True"

text \<open>\<open>created\<close> is the result of \<^verbatim>\<open>pthread_create\<close>: 0, or an error number when no thread is created. A new thread inherits the signal mask of its creator.\<close>

definition pthread_create :: "int \<Rightarrow> bool \<Rightarrow> 'f \<Rightarrow> 'd \<Rightarrow> ('f, 'd) thread_env \<Rightarrow> int \<times> ('f, 'd) thread_env" where
  "pthread_create created detached start data s =
     (created, if created = 0 then s\<lparr>threads := (start, data, detached, sigmask s) # threads s\<rparr> else s)"

definition lwt_unix_launch_thread :: "int \<Rightarrow> 'f \<Rightarrow> 'd \<Rightarrow> ('f, 'd) thread_env \<Rightarrow> int \<times> ('f, 'd) thread_env" where
  "lwt_unix_launch_thread created start data s =
     (let s = s\<lparr>attrs := attrs s + 1\<rparr>;
          detached = True;
          old_mask = sigmask s;
          s = s\<lparr>sigmask := sigfillset (sigmask s)\<rparr>;
          (zero_if_created_otherwise_errno, s) = pthread_create created detached start data s;
          s = s\<lparr>sigmask := old_mask\<rparr>;
          s = s\<lparr>attrs := attrs s - 1\<rparr>
      in (zero_if_created_otherwise_errno, s))"

text \<open>On Windows: \<open>handle\<close> tells whether \<^verbatim>\<open>CreateThread\<close> succeeded. The result is 0 in both cases.\<close>

definition lwt_unix_launch_thread_win :: "bool \<Rightarrow> 'f \<Rightarrow> 'd \<Rightarrow> ('f, 'd) thread_env \<Rightarrow> int \<times> ('f, 'd) thread_env" where
  "lwt_unix_launch_thread_win handle start data s =
     (0, if handle then s\<lparr>threads := (start, data, True, sigmask s) # threads s\<rparr> else s)"

lemma launch_thread_correct:
  "lwt_unix_launch_thread created start data s =
     (created, if created = 0 then s\<lparr>threads := (start, data, True, replicate (length (sigmask s)) True) # threads s\<rparr> else s)"
  by (cases s) (simp add: lwt_unix_launch_thread_def pthread_create_def sigfillset_def Let_def)

section \<open>Condition variables on Windows\<close>

text \<open>A node: its event (\<open>None\<close> once the handle is closed) and the next node. The node of a thread is identified with the thread.\<close>

record wait_list =
  event :: "bool option"
  wl_next :: "nat option"

datatype pc =
    Idle
  | Wait_enter | Wait_link | Wait_leave | Wait_unlock | Wait_event | Wait_close | Wait_relock
  | Signal_enter | Signal_pop | Signal_set nat | Signal_leave
  | Broadcast_enter | Broadcast_test "nat option" | Broadcast_next nat

text \<open>\<open>cmutex\<close> and \<open>umutex\<close> are the owners of the critical section of the condition and of the mutex of the user; \<open>nodes\<close> are the stack variables alive.\<close>

record cond_st =
  cmutex :: "nat option"
  waiters :: "nat option"
  umutex :: "nat option"
  nodes :: "nat \<rightharpoonup> wait_list"
  pcs :: "nat \<Rightarrow> pc"

datatype 's move = Blocked | Undefined | Next 's

definition goto :: "nat \<Rightarrow> pc \<Rightarrow> cond_st \<Rightarrow> cond_st" where
  "goto t p s = s\<lparr>pcs := (pcs s)(t := p)\<rparr>"

text \<open>\<^verbatim>\<open>EnterCriticalSection\<close> of the condition waits for its owner.\<close>

definition enter_cond :: "nat \<Rightarrow> pc \<Rightarrow> cond_st \<Rightarrow> cond_st move" where
  "enter_cond t p s = (if cmutex s = None then Next (goto t p (s\<lparr>cmutex := Some t\<rparr>)) else Blocked)"

definition leave_cond :: "nat \<Rightarrow> pc \<Rightarrow> cond_st \<Rightarrow> cond_st move" where
  "leave_cond t p s = (if cmutex s = Some t then Next (goto t p (s\<lparr>cmutex := None\<rparr>)) else Undefined)"

definition SetEvent :: "nat \<Rightarrow> cond_st \<Rightarrow> cond_st option" where
  "SetEvent n s = (case nodes s n of None \<Rightarrow> None
     | Some nd \<Rightarrow> if event nd = None then None else Some (s\<lparr>nodes := (nodes s)(n \<mapsto> nd\<lparr>event := Some True\<rparr>)\<rparr>))"

definition lwt_unix_condition_init :: "cond_st \<Rightarrow> cond_st" where
  "lwt_unix_condition_init s = s\<lparr>cmutex := None, waiters := None\<rparr>"

text \<open>The steps of \<^verbatim>\<open>lwt_unix_condition_wait\<close> after the event has been created; the caller owns the mutex. The last step ends the life of the node.\<close>

fun condition_wait :: "nat \<Rightarrow> pc \<Rightarrow> cond_st \<Rightarrow> cond_st move" where
  "condition_wait t Wait_enter s = enter_cond t Wait_link s"
| "condition_wait t Wait_link s = (case nodes s t of None \<Rightarrow> Undefined
     | Some nd \<Rightarrow> Next (goto t Wait_leave (s\<lparr>nodes := (nodes s)(t \<mapsto> nd\<lparr>wl_next := waiters s\<rparr>), waiters := Some t\<rparr>)))"
| "condition_wait t Wait_leave s = leave_cond t Wait_unlock s"
| "condition_wait t Wait_unlock s = (if umutex s = Some t then Next (goto t Wait_event (s\<lparr>umutex := None\<rparr>)) else Undefined)"
| "condition_wait t Wait_event s = (case nodes s t of None \<Rightarrow> Undefined
     | Some nd \<Rightarrow> (case event nd of None \<Rightarrow> Undefined | Some False \<Rightarrow> Blocked
         | Some True \<Rightarrow> Next (goto t Wait_close (s\<lparr>nodes := (nodes s)(t \<mapsto> nd\<lparr>event := Some False\<rparr>)\<rparr>))))"
| "condition_wait t Wait_close s = (case nodes s t of None \<Rightarrow> Undefined
     | Some nd \<Rightarrow> Next (goto t Wait_relock (s\<lparr>nodes := (nodes s)(t \<mapsto> nd\<lparr>event := None\<rparr>)\<rparr>)))"
| "condition_wait t Wait_relock s =
     (if umutex s = None then Next (goto t Idle (s\<lparr>umutex := Some t, nodes := (nodes s)(t := None)\<rparr>)) else Blocked)"
| "condition_wait t _ s = Blocked"

text \<open>The steps of \<^verbatim>\<open>lwt_unix_condition_signal\<close>.\<close>

fun condition_signal_win :: "nat \<Rightarrow> pc \<Rightarrow> cond_st \<Rightarrow> cond_st move" where
  "condition_signal_win t Signal_enter s = enter_cond t Signal_pop s"
| "condition_signal_win t Signal_pop s = (case waiters s of
       None \<Rightarrow> Next (goto t Signal_leave s)
     | Some n \<Rightarrow> (case nodes s n of None \<Rightarrow> Undefined
         | Some nd \<Rightarrow> Next (goto t (Signal_set n) (s\<lparr>waiters := wl_next nd\<rparr>))))"
| "condition_signal_win t (Signal_set n) s = (case SetEvent n s of None \<Rightarrow> Undefined | Some s \<Rightarrow> Next (goto t Signal_leave s))"
| "condition_signal_win t Signal_leave s = leave_cond t Idle s"
| "condition_signal_win t _ s = Blocked"

text \<open>
  The steps of \<^verbatim>\<open>lwt_unix_condition_broadcast\<close>: the loop sets the event of a node and then reads the next pointer of the same node.
\<close>

fun condition_broadcast :: "nat \<Rightarrow> pc \<Rightarrow> cond_st \<Rightarrow> cond_st move" where
  "condition_broadcast t Broadcast_enter s =
     (if cmutex s = None then Next (goto t (Broadcast_test (waiters s)) (s\<lparr>cmutex := Some t\<rparr>)) else Blocked)"
| "condition_broadcast t (Broadcast_test (Some n)) s = (case SetEvent n s of None \<Rightarrow> Undefined | Some s \<Rightarrow> Next (goto t (Broadcast_next n) s))"
| "condition_broadcast t (Broadcast_next n) s = (case nodes s n of None \<Rightarrow> Undefined | Some nd \<Rightarrow> Next (goto t (Broadcast_test (wl_next nd)) s))"
| "condition_broadcast t (Broadcast_test None) s = leave_cond t Idle (s\<lparr>waiters := None\<rparr>)"
| "condition_broadcast t _ s = Blocked"

definition cond_step :: "nat \<Rightarrow> cond_st \<Rightarrow> cond_st move" where
  "cond_step t s = (case pcs s t of
       Idle \<Rightarrow> Blocked
     | Broadcast_enter \<Rightarrow> condition_broadcast t (pcs s t) s
     | Broadcast_test _ \<Rightarrow> condition_broadcast t (pcs s t) s
     | Broadcast_next _ \<Rightarrow> condition_broadcast t (pcs s t) s
     | Signal_enter \<Rightarrow> condition_signal_win t (pcs s t) s
     | Signal_pop \<Rightarrow> condition_signal_win t (pcs s t) s
     | Signal_set _ \<Rightarrow> condition_signal_win t (pcs s t) s
     | Signal_leave \<Rightarrow> condition_signal_win t (pcs s t) s
     | _ \<Rightarrow> condition_wait t (pcs s t) s)"

text \<open>
  The threads: an idle thread may lock or release the mutex, start to wait when it owns the mutex (which creates the event), signal, or, when \<open>bc\<close>, broadcast; a
  thread inside one of the functions makes its next step.
\<close>

inductive cond_reach :: "bool \<Rightarrow> cond_st \<Rightarrow> bool" for bc :: bool where
  init: "cond_reach bc (lwt_unix_condition_init \<lparr>cmutex = None, waiters = None, umutex = None, nodes = Map.empty, pcs = (\<lambda>_. Idle)\<rparr>)"
| lock: "cond_reach bc s \<Longrightarrow> pcs s t = Idle \<Longrightarrow> umutex s = None \<Longrightarrow> cond_reach bc (s\<lparr>umutex := Some t\<rparr>)"
| unlock: "cond_reach bc s \<Longrightarrow> pcs s t = Idle \<Longrightarrow> umutex s = Some t \<Longrightarrow> cond_reach bc (s\<lparr>umutex := None\<rparr>)"
| wait: "cond_reach bc s \<Longrightarrow> pcs s t = Idle \<Longrightarrow> umutex s = Some t \<Longrightarrow>
    cond_reach bc (goto t Wait_enter (s\<lparr>nodes := (nodes s)(t \<mapsto> \<lparr>event = Some False, wl_next = junk\<rparr>)\<rparr>))"
| signal: "cond_reach bc s \<Longrightarrow> pcs s t = Idle \<Longrightarrow> cond_reach bc (goto t Signal_enter s)"
| broadcast: "cond_reach bc s \<Longrightarrow> bc \<Longrightarrow> pcs s t = Idle \<Longrightarrow> cond_reach bc (goto t Broadcast_enter s)"
| step: "cond_reach bc s \<Longrightarrow> cond_step t s = Next s' \<Longrightarrow> cond_reach bc s'"

section \<open>The invariant of the condition variable\<close>

text \<open>
  A waiting thread that has entered its node is in the list with its event unset, or its event is set, or a thread that signals has taken its node from
  the list and is about to set the event.
\<close>

definition queued :: "nat list \<Rightarrow> cond_st \<Rightarrow> nat \<Rightarrow> bool" where
  "queued ws s t \<longleftrightarrow> (\<exists>nd. nodes s t = Some nd \<and>
     (t \<in> set ws \<and> event nd = Some False \<or> t \<notin> set ws \<and> event nd = Some True \<or>
      t \<notin> set ws \<and> event nd = Some False \<and> (\<exists>u. pcs s u = Signal_set t)))"

definition thread_ok :: "nat list \<Rightarrow> cond_st \<Rightarrow> nat \<Rightarrow> bool" where
  "thread_ok ws s t \<longleftrightarrow> (case pcs s t of
       Idle \<Rightarrow> nodes s t = None
     | Wait_enter \<Rightarrow> (\<exists>nd. nodes s t = Some nd \<and> event nd = Some False) \<and> t \<notin> set ws \<and> umutex s = Some t
     | Wait_link \<Rightarrow> (\<exists>nd. nodes s t = Some nd \<and> event nd = Some False) \<and> t \<notin> set ws \<and> umutex s = Some t \<and> cmutex s = Some t
     | Wait_leave \<Rightarrow> t \<in> set ws \<and> queued ws s t \<and> umutex s = Some t \<and> cmutex s = Some t
     | Wait_unlock \<Rightarrow> queued ws s t \<and> umutex s = Some t
     | Wait_event \<Rightarrow> queued ws s t
     | Wait_close \<Rightarrow> nodes s t \<noteq> None \<and> t \<notin> set ws
     | Wait_relock \<Rightarrow> nodes s t \<noteq> None \<and> t \<notin> set ws
     | Signal_enter \<Rightarrow> nodes s t = None
     | Signal_pop \<Rightarrow> nodes s t = None \<and> cmutex s = Some t
     | Signal_set n \<Rightarrow> nodes s t = None \<and> cmutex s = Some t \<and> n \<notin> set ws \<and> pcs s n \<in> {Wait_unlock, Wait_event} \<and>
         (\<exists>nd. nodes s n = Some nd \<and> event nd = Some False)
     | Signal_leave \<Rightarrow> nodes s t = None \<and> cmutex s = Some t
     | _ \<Rightarrow> False)"

definition cond_inv :: "cond_st \<Rightarrow> bool" where
  "cond_inv s \<longleftrightarrow> (\<exists>ws. linked wl_next (nodes s) (waiters s) ws \<and> distinct ws \<and> (\<forall>t. thread_ok ws s t))"

lemma cond_invE:
  assumes "cond_inv s"
  obtains ws where "linked wl_next (nodes s) (waiters s) ws" and "distinct ws" and "\<And>t. thread_ok ws s t"
  using assms unfolding cond_inv_def by blast

lemma ok_node: "thread_ok ws s t \<Longrightarrow> pcs s t = Idle \<or> pcs s t = Signal_enter \<or> pcs s t = Signal_pop \<or> pcs s t = Signal_leave \<Longrightarrow> nodes s t = None"
  by (auto simp: thread_ok_def)

text \<open>Who owns the critical section is alone in it.\<close>

lemma cmutex_exclusive:
  assumes "thread_ok ws s u" and "cmutex s \<noteq> Some u"
  shows "pcs s u \<notin> {Wait_link, Wait_leave, Signal_pop, Signal_leave}" and "pcs s u \<noteq> Signal_set n"
  using assms by (auto simp: thread_ok_def)

lemmas move_defs = goto_def enter_cond_def leave_cond_def SetEvent_def

text \<open>Changing the program counter of a thread that is not about to set an event keeps the other threads in order.\<close>

lemma queued_goto:
  assumes "\<And>n. pcs s t \<noteq> Signal_set n" and "nodes s' = nodes s" and "pcs s' = (pcs s)(t := p)" and "queued ws s u"
  shows "queued ws s' u"
  using assms unfolding queued_def by (metis fun_upd_apply)

lemma ok_goto:
  assumes "thread_ok ws s u" and "u \<noteq> t" and "\<And>n. pcs s t \<noteq> Signal_set n" and "pcs s t \<notin> {Wait_unlock, Wait_event} \<or> p \<in> {Wait_unlock, Wait_event}"
    and "nodes s' = nodes s" and "pcs s' = (pcs s)(t := p)"
    and "umutex s' = umutex s \<or> umutex s \<noteq> Some u" and "cmutex s' = cmutex s \<or> cmutex s \<noteq> Some u"
  shows "thread_ok ws s' u"
proof -
  have q: "queued ws s u \<Longrightarrow> queued ws s' u" by (rule queued_goto) (use assms in auto)
  show ?thesis
    using assms(1,2,4-8) q unfolding thread_ok_def by (auto split: pc.splits)
qed

lemma inv_goto:
  assumes "cond_inv s" and "\<And>n. pcs s t \<noteq> Signal_set n" and "pcs s t \<notin> {Wait_unlock, Wait_event} \<or> p \<in> {Wait_unlock, Wait_event}"
    and "nodes s' = nodes s" and "waiters s' = waiters s" and "pcs s' = (pcs s)(t := p)"
    and "\<And>u. u \<noteq> t \<Longrightarrow> umutex s' = umutex s \<or> umutex s \<noteq> Some u" and "\<And>u. u \<noteq> t \<Longrightarrow> cmutex s' = cmutex s \<or> cmutex s \<noteq> Some u"
    and "\<And>ws. linked wl_next (nodes s) (waiters s) ws \<Longrightarrow> thread_ok ws s t \<Longrightarrow> (\<And>ws u. queued ws s u \<Longrightarrow> queued ws s' u) \<Longrightarrow> thread_ok ws s' t"
  shows "cond_inv s'"
proof -
  obtain ws where ws: "linked wl_next (nodes s) (waiters s) ws" "distinct ws" "\<And>t. thread_ok ws s t" by (rule cond_invE [OF assms(1)]) blast
  have "thread_ok ws s' u" for u
  proof (cases "u = t")
    case True
    have "queued ws s u \<Longrightarrow> queued ws s' u" for ws u by (rule queued_goto) (use assms in auto)
    then show ?thesis using assms(9) [OF ws(1,3)] True by blast
  next
    case False
    then show ?thesis using ok_goto [OF ws(3) False assms(2,3,4,6) assms(7,8)] by blast
  qed
  then show ?thesis unfolding cond_inv_def using ws assms(4,5) by auto
qed

text \<open>Changing the node of a thread that is not in the list, and its program counter.\<close>

lemma inv_own_node:
  assumes "cond_inv s" and "\<And>n. pcs s t \<noteq> Signal_set n" and "\<And>u. pcs s u \<noteq> Signal_set t"
    and "nodes s' = (nodes s)(t := x)" and "waiters s' = waiters s" and "pcs s' = (pcs s)(t := p)" and "cmutex s' = cmutex s"
    and "\<And>u. u \<noteq> t \<Longrightarrow> umutex s' = umutex s \<or> umutex s \<noteq> Some u"
    and out: "\<And>ws. linked wl_next (nodes s) (waiters s) ws \<Longrightarrow> thread_ok ws s t \<Longrightarrow> t \<notin> set ws"
    and own: "\<And>ws. t \<notin> set ws \<Longrightarrow> thread_ok ws s t \<Longrightarrow> thread_ok ws s' t"
  shows "cond_inv s'"
proof -
  obtain ws where ws: "linked wl_next (nodes s) (waiters s) ws" "distinct ws" "\<And>t. thread_ok ws s t" by (rule cond_invE [OF assms(1)]) blast
  have t: "t \<notin> set ws" using out ws by blast
  have "thread_ok ws s' u" for u
  proof (cases "u = t")
    case True
    then show ?thesis using own t ws(3) by blast
  next
    case False
    have q: "queued ws s u \<Longrightarrow> queued ws s' u" using False assms(2,4,6) unfolding queued_def by (metis fun_upd_apply)
    have n: "pcs s u = Signal_set n \<Longrightarrow> n \<noteq> t" for n using assms(3) by metis
    show ?thesis using ws(3) [of u] q n False assms(4,6,7) assms(8) [OF False] unfolding thread_ok_def by (auto split: pc.splits)
  qed
  then show ?thesis unfolding cond_inv_def using ws assms(4,5) t by (metis linked_upd)
qed

lemma queued_same:
  assumes "queued ws s u" and "nodes s' u = nodes s u" and "u \<in> set ws' \<longleftrightarrow> u \<in> set ws"
    and "\<And>v. pcs s v = Signal_set u \<Longrightarrow> pcs s' v = Signal_set u"
  shows "queued ws' s' u"
  using assms unfolding queued_def by metis

text \<open>What a thread that is about to set an event relies on.\<close>

lemma inv_target:
  assumes "cond_inv s" and "pcs s u = Signal_set t"
  shows "pcs s t = Wait_unlock \<or> pcs s t = Wait_event" and "\<exists>nd. nodes s t = Some nd \<and> event nd = Some False"
proof -
  obtain ws where "thread_ok ws s u" by (rule cond_invE [OF assms(1)]) blast
  then show "pcs s t = Wait_unlock \<or> pcs s t = Wait_event" and "\<exists>nd. nodes s t = Some nd \<and> event nd = Some False"
    using assms(2) by (auto simp: thread_ok_def)
qed

lemma inv_link:
  assumes inv: "cond_inv s" and pc: "pcs s t = Wait_link" and nd: "nodes s t = Some nd"
  shows "cond_inv (goto t Wait_leave (s\<lparr>nodes := (nodes s)(t \<mapsto> nd\<lparr>wl_next := waiters s\<rparr>), waiters := Some t\<rparr>))" (is "cond_inv ?s")
proof -
  obtain ws where ws: "linked wl_next (nodes s) (waiters s) ws" "distinct ws" "\<And>t. thread_ok ws s t" by (rule cond_invE [OF inv]) blast
  have t: "t \<notin> set ws" "event nd = Some False" "umutex s = Some t" "cmutex s = Some t" using ws(3) [of t] pc nd by (auto simp: thread_ok_def)
  have ok: "thread_ok (t # ws) ?s u" for u
  proof (cases "u = t")
    case True
    then show ?thesis using t by (simp add: thread_ok_def queued_def goto_def)
  next
    case False
    have q: "queued (t # ws) ?s u" if "queued ws s u"
      by (rule queued_same [OF that]) (use False pc in \<open>auto simp: goto_def\<close>)
    have n: "pcs s u = Signal_set n \<Longrightarrow> n \<noteq> t" for n using inv_target(1) [OF inv, of u n] pc by auto
    show ?thesis using ws(3) [of u] False q n unfolding thread_ok_def by (auto simp: goto_def split: pc.splits)
  qed
  have "linked wl_next (nodes ?s) (waiters ?s) (t # ws)" using ws(1) t(1) by (simp add: goto_def linked_upd)
  with ok ws(2) t(1) show ?thesis unfolding cond_inv_def by (metis distinct.simps(2))
qed

lemma inv_pop:
  assumes inv: "cond_inv s" and pc: "pcs s t = Signal_pop" and n: "waiters s = Some n" "nodes s n = Some nd"
  shows "cond_inv (goto t (Signal_set n) (s\<lparr>waiters := wl_next nd\<rparr>))" (is "cond_inv ?s")
proof -
  obtain ws where ws: "linked wl_next (nodes s) (waiters s) ws" "distinct ws" "\<And>t. thread_ok ws s t" by (rule cond_invE [OF inv]) blast
  then obtain qs where qs: "ws = n # qs" "linked wl_next (nodes s) (wl_next nd) qs" "n \<notin> set qs" "distinct qs"
    using n by (auto simp: linked_Some)
  have t: "nodes s t = None" "cmutex s = Some t" using ws(3) [of t] pc by (auto simp: thread_ok_def)
  have nt: "n \<noteq> t" using t n by auto
  have np: "pcs s n \<in> {Wait_unlock, Wait_event}" "event nd = Some False"
    using ws(3) [of n] qs(1) n(2) t(2) nt by (auto simp: thread_ok_def queued_def split: pc.splits)
  have ok: "thread_ok qs ?s u" for u
  proof (cases "u = t")
    case True
    then show ?thesis using t qs np nt n by (simp add: thread_ok_def goto_def)
  next
    case False
    have n': "pcs s v \<noteq> Signal_set m" for v m using cmutex_exclusive(2) [OF ws(3)] t(2) pc by (cases "v = t") auto
    have q: "queued qs ?s u" if "queued ws s u"
    proof (cases "u = n")
      case True
      then show ?thesis using qs(3) n(2) np(2) by (auto simp: queued_def goto_def)
    next
      case False
      show ?thesis by (rule queued_same [OF that]) (use False qs(1) n' in \<open>auto simp: goto_def\<close>)
    qed
    show ?thesis using ws(3) [of u] False q n' t(2) qs(1) unfolding thread_ok_def by (auto simp: goto_def split: pc.splits)
  qed
  have "linked wl_next (nodes ?s) (waiters ?s) qs" using qs(2) by (simp add: goto_def)
  with ok qs(4) show ?thesis unfolding cond_inv_def by blast
qed

lemma inv_set:
  assumes inv: "cond_inv s" and pc: "pcs s t = Signal_set n" and n: "nodes s n = Some nd"
  shows "cond_inv (goto t Signal_leave (s\<lparr>nodes := (nodes s)(n \<mapsto> nd\<lparr>event := Some True\<rparr>)\<rparr>))" (is "cond_inv ?s")
proof -
  obtain ws where ws: "linked wl_next (nodes s) (waiters s) ws" "distinct ws" "\<And>t. thread_ok ws s t" by (rule cond_invE [OF inv]) blast
  have t: "nodes s t = None" "cmutex s = Some t" "n \<notin> set ws" "pcs s n \<in> {Wait_unlock, Wait_event}" using ws(3) [of t] pc by (auto simp: thread_ok_def)
  have nt: "n \<noteq> t" using t n by auto
  have only: "pcs s u = Signal_set m \<Longrightarrow> u = t" for u m using cmutex_exclusive(2) [OF ws(3), of u m] t(2) by auto
  have ok: "thread_ok ws ?s u" for u
  proof (cases "u = t \<or> u = n")
    case True
    then show ?thesis
    proof
      assume "u = t"
      then show ?thesis using t nt by (simp add: thread_ok_def goto_def)
    next
      assume "u = n"
      then show ?thesis using t nt ws(3) [of n] by (auto simp: thread_ok_def goto_def queued_def)
    qed
  next
    case False
    have n': "pcs s u \<noteq> Signal_set m" for m using only False by auto
    have q: "queued ws ?s u" if "queued ws s u"
      by (rule queued_same [OF that]) (use False pc in \<open>auto simp: goto_def\<close>)
    show ?thesis using ws(3) [of u] False q n' unfolding thread_ok_def by (auto simp: goto_def split: pc.splits)
  qed
  have "linked wl_next (nodes ?s) (waiters ?s) ws" using ws(1) t(3) by (simp add: goto_def linked_upd)
  with ok ws(2) show ?thesis unfolding cond_inv_def by blast
qed

text \<open>No step of a function other than the broadcast is undefined.\<close>

lemma inv_safe:
  assumes inv: "cond_inv s"
  shows "cond_step t s \<noteq> Undefined"
proof -
  obtain ws where ws: "linked wl_next (nodes s) (waiters s) ws" "distinct ws" "\<And>t. thread_ok ws s t" by (rule cond_invE [OF inv]) blast
  have head: "waiters s = Some n \<Longrightarrow> nodes s n \<noteq> None" for n using ws(1) by (auto simp: linked_Some)
  show ?thesis
    using ws(3) [of t] head
    by (cases "pcs s t") (auto simp: thread_ok_def cond_step_def queued_def move_defs split: option.split bool.split)
qed


text \<open>A thread whose node is not waited for by a signaller: the threads outside \<open>Wait_unlock\<close> and \<open>Wait_event\<close>, and the thread whose event is set.\<close>

lemma not_target:
  assumes "cond_inv s" and "pcs s t \<notin> {Wait_unlock, Wait_event} \<or> nodes s t = Some nd \<and> event nd = Some True"
  shows "pcs s u \<noteq> Signal_set t"
  using inv_target [OF assms(1), of u t] assms(2) by auto

text \<open>The steps of a waiting thread, and of a thread that signals, keep the invariant.\<close>

lemma inv_wait_step:
  assumes inv: "cond_inv s" and step: "condition_wait t (pcs s t) s = Next s'"
  shows "cond_inv s'"
proof (cases "pcs s t")
  case Wait_enter
  then have s': "cmutex s = None" "s' = goto t Wait_link (s\<lparr>cmutex := Some t\<rparr>)" using step by (auto simp: move_defs split: if_splits)
  show ?thesis by (rule inv_goto [OF inv, of t Wait_link]) (use Wait_enter s' in \<open>auto simp: goto_def thread_ok_def\<close>)
next
  case Wait_link
  then obtain nd where "nodes s t = Some nd" "s' = goto t Wait_leave (s\<lparr>nodes := (nodes s)(t \<mapsto> nd\<lparr>wl_next := waiters s\<rparr>), waiters := Some t\<rparr>)"
    using step by (auto split: option.splits)
  then show ?thesis using inv_link [OF inv Wait_link] by simp
next
  case Wait_leave
  then have s': "cmutex s = Some t" "s' = goto t Wait_unlock (s\<lparr>cmutex := None\<rparr>)" using step by (auto simp: move_defs split: if_splits)
  show ?thesis by (rule inv_goto [OF inv, of t Wait_unlock]) (use Wait_leave s' in \<open>auto simp: goto_def thread_ok_def\<close>)
next
  case Wait_unlock
  then have s': "umutex s = Some t" "s' = goto t Wait_event (s\<lparr>umutex := None\<rparr>)" using step by (auto simp: move_defs split: if_splits)
  show ?thesis by (rule inv_goto [OF inv, of t Wait_event]) (use Wait_unlock s' in \<open>auto simp: goto_def thread_ok_def\<close>)
next
  case Wait_event
  then obtain nd where nd: "nodes s t = Some nd" "event nd = Some True"
    and s': "s' = goto t Wait_close (s\<lparr>nodes := (nodes s)(t \<mapsto> nd\<lparr>event := Some False\<rparr>)\<rparr>)"
    using step by (auto split: option.splits bool.splits)
  have "pcs s u \<noteq> Signal_set t" for u using not_target [OF inv] nd by blast
  then show ?thesis
    by (rule inv_own_node [OF inv, of t _ "Some (nd\<lparr>event := Some False\<rparr>)" Wait_close, rotated]) (use Wait_event nd s' in \<open>auto simp: goto_def thread_ok_def queued_def\<close>)
next
  case Wait_close
  then obtain nd where s': "nodes s t = Some nd" "s' = goto t Wait_relock (s\<lparr>nodes := (nodes s)(t \<mapsto> nd\<lparr>event := None\<rparr>)\<rparr>)"
    using step by (auto split: option.splits)
  have "pcs s u \<noteq> Signal_set t" for u using not_target [OF inv] Wait_close by simp
  then show ?thesis
    by (rule inv_own_node [OF inv, of t _ "Some (nd\<lparr>event := None\<rparr>)" Wait_relock, rotated]) (use Wait_close s' in \<open>auto simp: goto_def thread_ok_def\<close>)
next
  case Wait_relock
  then have s': "umutex s = None" "s' = goto t Idle (s\<lparr>umutex := Some t, nodes := (nodes s)(t := None)\<rparr>)" using step by (auto split: if_splits)
  have "pcs s u \<noteq> Signal_set t" for u using not_target [OF inv] Wait_relock by simp
  then show ?thesis
    by (rule inv_own_node [OF inv, of t _ None Idle, rotated]) (use Wait_relock s' in \<open>auto simp: goto_def thread_ok_def\<close>)
qed (use step in simp_all)

lemma inv_signal_step:
  assumes inv: "cond_inv s" and step: "condition_signal_win t (pcs s t) s = Next s'"
  shows "cond_inv s'"
proof (cases "pcs s t")
  case Signal_enter
  then have s': "cmutex s = None" "s' = goto t Signal_pop (s\<lparr>cmutex := Some t\<rparr>)" using step by (auto simp: move_defs split: if_splits)
  show ?thesis by (rule inv_goto [OF inv, of t Signal_pop]) (use Signal_enter s' in \<open>auto simp: goto_def thread_ok_def\<close>)
next
  case Signal_pop
  show ?thesis
  proof (cases "waiters s")
    case None
    then have s': "s' = goto t Signal_leave s" using step Signal_pop by simp
    show ?thesis by (rule inv_goto [OF inv, of t Signal_leave]) (use Signal_pop s' in \<open>auto simp: goto_def thread_ok_def\<close>)
  next
    case (Some n)
    then obtain nd where "nodes s n = Some nd" "s' = goto t (Signal_set n) (s\<lparr>waiters := wl_next nd\<rparr>)"
      using step Signal_pop by (auto split: option.splits)
    then show ?thesis using inv_pop [OF inv Signal_pop Some] by simp
  qed
next
  case (Signal_set n)
  then obtain nd where "nodes s n = Some nd" "s' = goto t Signal_leave (s\<lparr>nodes := (nodes s)(n \<mapsto> nd\<lparr>event := Some True\<rparr>)\<rparr>)"
    using step by (auto simp: SetEvent_def split: option.splits if_splits)
  then show ?thesis using inv_set [OF inv Signal_set] by simp
next
  case Signal_leave
  then have s': "cmutex s = Some t" "s' = goto t Idle (s\<lparr>cmutex := None\<rparr>)" using step by (auto simp: move_defs split: if_splits)
  show ?thesis by (rule inv_goto [OF inv, of t Idle]) (use Signal_leave s' in \<open>auto simp: goto_def thread_ok_def\<close>)
qed (use step in simp_all)

lemma cond_inv_step:
  assumes inv: "cond_inv s" and step: "cond_step t s = Next s'"
  shows "cond_inv s'"
proof -
  obtain ws where "thread_ok ws s t" by (rule cond_invE [OF inv]) blast
  then have "condition_wait t (pcs s t) s = Next s' \<or> condition_signal_win t (pcs s t) s = Next s'"
    using step by (cases "pcs s t") (simp_all add: cond_step_def thread_ok_def)
  then show ?thesis using inv_wait_step [OF inv] inv_signal_step [OF inv] by blast
qed


lemma cond_reach_inv: "cond_reach False s \<Longrightarrow> cond_inv s"
proof (induction rule: cond_reach.induct)
  case init
  show ?case by (auto simp: cond_inv_def lwt_unix_condition_init_def thread_ok_def linked_None intro!: exI [of _ "[]"])
next
  case (lock s t)
  show ?case by (rule inv_goto [OF lock(4), of t Idle]) (use lock in \<open>auto simp: thread_ok_def\<close>)
next
  case (unlock s t)
  show ?case by (rule inv_goto [OF unlock(4), of t Idle]) (use unlock in \<open>auto simp: thread_ok_def\<close>)
next
  case (wait s t junk)
  have "pcs s u \<noteq> Signal_set t" for u using not_target [OF wait(4)] wait(2) by simp
  then show ?case
    by (rule inv_own_node [OF wait(4), of t _ "Some \<lparr>event = Some False, wl_next = junk\<rparr>" Wait_enter, rotated])
      (use wait in \<open>auto simp: goto_def thread_ok_def dest: linked_live\<close>)
next
  case (signal s t)
  show ?case by (rule inv_goto [OF signal(3), of t Signal_enter]) (use signal in \<open>auto simp: goto_def thread_ok_def\<close>)
next
  case (step s t s')
  show ?case by (rule cond_inv_step [OF step(3,2)])
qed simp


section \<open>A run\<close>

fun run_steps :: "nat list \<Rightarrow> cond_st \<Rightarrow> cond_st option" where
  "run_steps [] s = Some s"
| "run_steps (t # ts) s = (case cond_step t s of Next s \<Rightarrow> run_steps ts s | _ \<Rightarrow> None)"

lemma cond_reach_run: "cond_reach bc s \<Longrightarrow> run_steps ts s = Some s' \<Longrightarrow> cond_reach bc s'"
  by (induction ts s rule: run_steps.induct) (auto split: move.splits intro: cond_reach.step)

text \<open>A state in which thread 0 waits for its event: it has locked the mutex, entered its node in the list and released the mutex.\<close>

definition waiting_state :: cond_st where
  "waiting_state = \<lparr>cmutex = None, waiters = Some 0, umutex = None, nodes = [0 \<mapsto> \<lparr>event = Some False, wl_next = None\<rparr>], pcs = (\<lambda>_. Idle)(0 := Wait_event)\<rparr>"

lemma reach_waiting: "cond_reach bc waiting_state"
proof -
  define s where "s = lwt_unix_condition_init \<lparr>cmutex = None, waiters = None, umutex = None, nodes = Map.empty, pcs = (\<lambda>_. Idle)\<rparr>"
  have "cond_reach bc (s\<lparr>umutex := Some 0\<rparr>)"
    using cond_reach.lock [OF cond_reach.init, of 0] by (simp add: s_def lwt_unix_condition_init_def)
  from cond_reach.wait [OF this, of 0 None]
  have "cond_reach bc (goto 0 Wait_enter (s\<lparr>umutex := Some 0, nodes := [0 \<mapsto> \<lparr>event = Some False, wl_next = None\<rparr>]\<rparr>))"
    by (simp add: s_def lwt_unix_condition_init_def)
  from cond_reach_run [OF this, of "[0, 0, 0, 0]"] show ?thesis
    by (simp add: s_def lwt_unix_condition_init_def cond_step_def move_defs waiting_state_def)
qed


text \<open>
  C37. With a broadcast this safety is lost: there is a reachable state in which a step follows a pointer to a node that is gone. The loop of
  \<^verbatim>\<open>lwt_unix_condition_broadcast\<close> sets the event of a node and then reads the next pointer of the same node, which lies on the stack of the thread just woken up; that
  thread closes the event and returns without taking the critical section of the condition, so the node may be gone.
\<close>

theorem win_broadcast_race: "\<exists>s t. cond_reach True s \<and> cond_step t s = Undefined"
proof -
  define s where "s = \<lparr>cmutex = Some 1, waiters = Some 0, umutex = Some 0, nodes = Map.empty, pcs = (\<lambda>_. Idle)(0 := Idle, 1 := Broadcast_next 0)\<rparr>"
  have "cond_reach True (goto 1 Broadcast_enter waiting_state)"
    by (rule cond_reach.broadcast [OF reach_waiting]) (simp_all add: waiting_state_def)
  moreover have "run_steps [1, 1, 0, 0, 0] (goto 1 Broadcast_enter waiting_state) = Some s"
    by (simp add: waiting_state_def cond_step_def move_defs s_def fun_upd_twist)
  ultimately have "cond_reach True s" by (rule cond_reach_run)
  moreover have "cond_step 1 s = Undefined" by (simp add: s_def cond_step_def)
  ultimately show ?thesis by blast
qed

end
