(* ===== verification/Win_Sockets.thy ===== *)
theory Win_Sockets
  imports Signals "HOL-Library.Multiset"
begin

text \<open>
  The part of \<^verbatim>\<open>lwt_unix_stubs.c\<close> that only Windows has: a pair of connected sockets made with a listener on the loopback interface, the notification channel on top of it, and
  the handler of Ctrl+C.

  The state has the last error of the thread, the sockets that are open, and the world; the calls of Winsock are parameters. The theorems show that no path leaks a socket.
\<close>

section \<open>State and calls\<close>

record 'os wsock =
  wsa_error :: int
  sockets :: "int list"
  wos :: 'os

text \<open>An address: family, whether the host is the loopback address, and port.\<close>

type_synonym sockaddr_w = "int \<times> bool \<times> int"

record 'os winsock =
  WSASocket :: "int \<Rightarrow> int \<Rightarrow> int \<Rightarrow> int \<Rightarrow> ('os, int) syscall"
  closesocket_c :: "int \<Rightarrow> ('os, int) syscall"
  setsockopt_c :: "int \<Rightarrow> int \<Rightarrow> int \<Rightarrow> int \<Rightarrow> ('os, int) syscall"
  bind_c :: "int \<Rightarrow> sockaddr_w \<Rightarrow> int \<Rightarrow> ('os, int) syscall"
  getsockname_c :: "int \<Rightarrow> ('os, int \<times> sockaddr_w) syscall"
  listen_c :: "int \<Rightarrow> int \<Rightarrow> ('os, int) syscall"
  connect_c :: "int \<Rightarrow> sockaddr_w \<Rightarrow> int \<Rightarrow> ('os, int) syscall"
  accept_c :: "int \<Rightarrow> ('os, int) syscall"
  SetHandleInformation :: "int \<Rightarrow> int \<Rightarrow> int \<Rightarrow> ('os, bool) syscall"
  send_w :: "int \<Rightarrow> char list \<Rightarrow> ('os, int) syscall"
  recv_w :: "int \<Rightarrow> nat \<Rightarrow> ('os, int) syscall"

abbreviation INVALID_SOCKET :: int where
  "INVALID_SOCKET \<equiv> - 1"

abbreviation SOCKET_ERROR :: int where
  "SOCKET_ERROR \<equiv> - 1"

definition wcall :: "('os, 'r) syscall \<Rightarrow> 'os wsock \<Rightarrow> 'r \<times> 'os wsock" where
  "wcall f s = (case f (wsa_error s) (wos s) of (r, e, w) \<Rightarrow> (r, s\<lparr>wsa_error := e, wos := w\<rparr>))"

text \<open>A call that opens a socket, and the call that closes one.\<close>

definition new_socket :: "('os, int) syscall \<Rightarrow> 'os wsock \<Rightarrow> int \<times> 'os wsock" where
  "new_socket f s = (case wcall f s of (r, s) \<Rightarrow> (r, if r = INVALID_SOCKET then s else s\<lparr>sockets := r # sockets s\<rparr>))"

definition closesocket :: "'os winsock \<Rightarrow> int \<Rightarrow> 'os wsock \<Rightarrow> 'os wsock" where
  "closesocket A h s = (case wcall (closesocket_c A h) s of (r, s) \<Rightarrow> if r = 0 then s\<lparr>sockets := remove1 h (sockets s)\<rparr> else s)"

section \<open>A pair of sockets\<close>

definition win_set_inherit :: "'os winsock \<Rightarrow> (string \<Rightarrow> int) \<Rightarrow> int \<Rightarrow> bool \<Rightarrow> 'os wsock \<Rightarrow> int \<times> 'os wsock" where
  "win_set_inherit A K fd inherit s =
     (case wcall (SetHandleInformation A fd (K ''HANDLE_FLAG_INHERIT'') (if inherit then K ''HANDLE_FLAG_INHERIT'' else 0)) s of
        (ok, s) \<Rightarrow> (if \<not> ok then -1 else 0, s))"

definition lwt_win_socket :: "'os winsock \<Rightarrow> (string \<Rightarrow> int) \<Rightarrow> int \<Rightarrow> int \<Rightarrow> int \<Rightarrow> bool \<Rightarrow> 'os wsock \<Rightarrow> int \<times> 'os wsock" where
  "lwt_win_socket A K domain type protocol inherit s =
     (let flags = K ''WSA_FLAG_OVERLAPPED'';
          flags = (if \<not> inherit then or flags (K ''WSA_FLAG_NO_HANDLE_INHERIT'') else flags)
      in case new_socket (WSASocket A domain type protocol flags) s of
           (r, s) \<Rightarrow>
             if r = INVALID_SOCKET then
               if \<not> inherit \<and> wsa_error s = K ''WSAEINVAL'' then
                 let flags = and flags (c_dword (not (K ''WSA_FLAG_NO_HANDLE_INHERIT'')))
                 in case new_socket (WSASocket A domain type protocol flags) s of
                      (r, s) \<Rightarrow>
                        if r = INVALID_SOCKET then (INVALID_SOCKET, s)
                        else (case win_set_inherit A K r False s of (_, s) \<Rightarrow> (r, s))
               else (INVALID_SOCKET, s)
             else (r, s))"

text \<open>The label \<^verbatim>\<open>failure\<close>.\<close>

definition socketpair_failure :: "'os winsock \<Rightarrow> (int \<Rightarrow> int) \<Rightarrow> int \<Rightarrow> int \<Rightarrow> int \<Rightarrow> 'os wsock \<Rightarrow> 'a outcome \<times> 'os wsock" where
  "socketpair_failure A maperr listener s0 s1 s =
     (let err = wsa_error s;
          s = closesocket A listener s;
          s = closesocket A s0 s;
          s = closesocket A s1 s
      in (Raise (Unix_error (maperr err) ''socketpair'' Nothing), s))"

definition lwt_unix_socketpair :: "'os winsock \<Rightarrow> (string \<Rightarrow> int) \<Rightarrow> (int \<Rightarrow> int) \<Rightarrow> int \<Rightarrow> int \<Rightarrow> int \<Rightarrow> bool \<Rightarrow> 'os wsock \<Rightarrow> (int \<times> int) outcome \<times> 'os wsock" where
  "lwt_unix_socketpair A K maperr domain type protocol inherit s =
     (if domain \<noteq> K ''PF_INET'' \<and> domain \<noteq> K ''PF_INET6'' then (Raise (Unix_error (K ''ENOPROTOOPT'') ''socketpair'' Nothing), s)
      else case lwt_win_socket A K domain type protocol inherit s of (listener, s) \<Rightarrow>
        if listener = INVALID_SOCKET then socketpair_failure A maperr listener INVALID_SOCKET INVALID_SOCKET s
        else case wcall (setsockopt_c A listener (K ''SOL_SOCKET'') (K ''SO_REUSEADDR'') 1) s of (r, s) \<Rightarrow>
        if r = -1 then socketpair_failure A maperr listener INVALID_SOCKET INVALID_SOCKET s
        else let a = (domain, True, 0); addrlen = (if domain = K ''PF_INET'' then 16 else 28)
        in case wcall (bind_c A listener a addrlen) s of (r, s) \<Rightarrow>
        if r = SOCKET_ERROR then socketpair_failure A maperr listener INVALID_SOCKET INVALID_SOCKET s
        else case wcall (getsockname_c A listener) s of ((r, a), s) \<Rightarrow>
        if r = SOCKET_ERROR then socketpair_failure A maperr listener INVALID_SOCKET INVALID_SOCKET s
        else let a = (if domain = K ''PF_INET'' then K ''AF_INET'' else K ''AF_INET6'', True, snd (snd a))
        in case wcall (listen_c A listener 1) s of (r, s) \<Rightarrow>
        if r = SOCKET_ERROR then socketpair_failure A maperr listener INVALID_SOCKET INVALID_SOCKET s
        else case lwt_win_socket A K domain type protocol inherit s of (s0, s) \<Rightarrow>
        if s0 = INVALID_SOCKET then socketpair_failure A maperr listener s0 INVALID_SOCKET s
        else case wcall (connect_c A s0 a addrlen) s of (r, s) \<Rightarrow>
        if r = SOCKET_ERROR then socketpair_failure A maperr listener s0 INVALID_SOCKET s
        else case new_socket (accept_c A listener) s of (s1, s) \<Rightarrow>
        if s1 = INVALID_SOCKET then socketpair_failure A maperr listener s0 s1 s
        else (Ret (s0, s1), closesocket A listener s))"

definition socket_domain_table :: "(string \<Rightarrow> int) \<Rightarrow> int list" where
  "socket_domain_table K = map K [''PF_UNIX'', ''PF_INET'', ''PF_INET6'']"

definition socket_type_table :: "(string \<Rightarrow> int) \<Rightarrow> int list" where
  "socket_type_table K = map K [''SOCK_STREAM'', ''SOCK_DGRAM'', ''SOCK_RAW'', ''SOCK_SEQPACKET'']"

text \<open>\<open>win_alloc_socket\<close> of the OCaml runtime makes a descriptor of a socket; \<open>cloexec\<close> is the result of \<^verbatim>\<open>unix_cloexec_p\<close>.\<close>

definition lwt_unix_socketpair_stub :: "'os winsock \<Rightarrow> (string \<Rightarrow> int) \<Rightarrow> (int \<Rightarrow> int) \<Rightarrow> (int \<Rightarrow> caml_value) \<Rightarrow> bool \<Rightarrow> int \<Rightarrow> int \<Rightarrow> int \<Rightarrow> 'os wsock
    \<Rightarrow> (caml_value outcome \<times> 'os wsock) option" where
  "lwt_unix_socketpair_stub A K maperr win_alloc_socket cloexec domain type protocol s = do {
     d \<leftarrow> tbl_get (socket_domain_table K) domain;
     t \<leftarrow> tbl_get (socket_type_table K) type;
     (case lwt_unix_socketpair A K maperr d t (c_int protocol) (\<not> cloexec) s of
        (Raise e, s) \<Rightarrow> Some (Raise e, s)
      | (Ret (s0, s1), s) \<Rightarrow> Some (Ret (Block 0 [win_alloc_socket s0, win_alloc_socket s1]), s))
   }"

section \<open>The notification channel\<close>

text \<open>
  The buffer of theory \<open>Notifications\<close>, without a world of its own, and the two sockets. \<open>windows_fns\<close>: the function pointers \<^verbatim>\<open>notification_send\<close> and \<^verbatim>\<open>notification_recv\<close> point to
  the functions below.
\<close>

record 'os wnotif =
  buffer :: "unit notif"
  wst :: "'os wsock"
  socket_r :: int
  socket_w :: int
  windows_fns :: bool

definition windows_notification_send :: "'os winsock \<Rightarrow> 'os wnotif \<Rightarrow> int \<times> 'os wnotif" where
  "windows_notification_send A s = (case wcall (send_w A (socket_w s) ''!'') (wst s) of (r, w) \<Rightarrow> (r, s\<lparr>wst := w\<rparr>))"

definition windows_notification_recv :: "'os winsock \<Rightarrow> 'os wnotif \<Rightarrow> int \<times> 'os wnotif" where
  "windows_notification_recv A s = (case wcall (recv_w A (socket_r s) 1) (wst s) of (r, w) \<Rightarrow> (r, s\<lparr>wst := w\<rparr>))"

definition lwt_unix_init_notification_win :: "'os winsock \<Rightarrow> (string \<Rightarrow> int) \<Rightarrow> (int \<Rightarrow> int) \<Rightarrow> (int \<Rightarrow> caml_value) \<Rightarrow> 'os wnotif \<Rightarrow> caml_value outcome \<times> 'os wnotif" where
  "lwt_unix_init_notification_win A K maperr win_alloc_socket s =
     (let old = (case notification_mode (buffer s) of
            NOTIFICATION_MODE_NOT_INITIALIZED \<Rightarrow> Some (s\<lparr>buffer := init_notifications (buffer s\<lparr>notification_mode := NOTIFICATION_MODE_NONE\<rparr>)\<rparr>)
          | NOTIFICATION_MODE_WINDOWS \<Rightarrow>
              Some (s\<lparr>buffer := buffer s\<lparr>notification_mode := NOTIFICATION_MODE_NONE\<rparr>,
                      wst := closesocket A (socket_w s) (closesocket A (socket_r s) (wst s))\<rparr>)
          | NOTIFICATION_MODE_NONE \<Rightarrow> Some s
          | _ \<Rightarrow> None)
      in case old of
           None \<Rightarrow> (Raise (Failure ''notification system in unknown state''), s)
         | Some s \<Rightarrow>
             (case lwt_unix_socketpair A K maperr (K ''AF_INET'') (K ''SOCK_STREAM'') (K ''IPPROTO_TCP'') False (wst s) of
                (Raise e, w) \<Rightarrow> (Raise e, s\<lparr>wst := w\<rparr>)
              | (Ret (s0, s1), w) \<Rightarrow>
                  (Ret (win_alloc_socket s0),
                   s\<lparr>wst := w, socket_r := s0, socket_w := s1, windows_fns := True,
                     buffer := buffer s\<lparr>notification_mode := NOTIFICATION_MODE_WINDOWS\<rparr>\<rparr>)))"

text \<open>Sending: unlike the POSIX branch it ignores the error of a Winsock library that is shut down.\<close>

definition lwt_unix_send_notification_win :: "'os winsock \<Rightarrow> (string \<Rightarrow> int) \<Rightarrow> (int \<Rightarrow> int) \<Rightarrow> int \<Rightarrow> 'os wnotif \<Rightarrow> (unit outcome \<times> 'os wnotif) option" where
  "lwt_unix_send_notification_win A K maperr nid s = do {
     b \<leftarrow> lock_notifications (buffer s);
     if notification_index b > 0 then do {
       let b = (if notification_index b = notification_count b then resize_notifications b else b);
       b \<leftarrow> store_notification nid b;
       b \<leftarrow> unlock_notifications b;
       Some (Ret (), s\<lparr>buffer := b\<rparr>)
     } else do {
       b \<leftarrow> store_notification nid b;
       if \<not> windows_fns s then None
       else do {
         let (ret, s) = windows_notification_send A s;
         let error = wsa_error (wst s);
         b \<leftarrow> unlock_notifications b;
         if ret = SOCKET_ERROR \<and> error \<noteq> K ''WSANOTINITIALISED''
         then Some (Raise (Unix_error (maperr error) ''send_notification'' Nothing), s\<lparr>buffer := b\<rparr>)
         else Some (Ret (), s\<lparr>buffer := b\<rparr>)
       }
     }
   }"

text \<open>Several sends one after the other, by any threads, and the receiver, whose allocation loop they interfere with as in theory \<open>Notifications\<close>. Both indices have 32 bits on Windows.\<close>

fun send_all_win :: "'os winsock \<Rightarrow> (string \<Rightarrow> int) \<Rightarrow> (int \<Rightarrow> int) \<Rightarrow> int list \<Rightarrow> 'os wnotif \<Rightarrow> 'os wnotif option" where
  "send_all_win A K maperr [] s = Some s"
| "send_all_win A K maperr (nid # ids) s = do { (_, s) \<leftarrow> lwt_unix_send_notification_win A K maperr nid s; send_all_win A K maperr ids s }"

fun recv_alloc_loop_win :: "'os winsock \<Rightarrow> (string \<Rightarrow> int) \<Rightarrow> (int \<Rightarrow> int) \<Rightarrow> int list list \<Rightarrow> 'os wnotif \<Rightarrow> (int \<times> 'os wnotif) option" where
  "recv_alloc_loop_win A K maperr [] s = do {
     let current_index = c_int (int (notification_index (buffer s)));
     b \<leftarrow> unlock_notifications (buffer s);
     b \<leftarrow> lock_notifications b;
     if current_index \<noteq> c_int (int (notification_index b)) then None else Some (current_index, s\<lparr>buffer := b\<rparr>)
   }"
| "recv_alloc_loop_win A K maperr (ids # rest) s = do {
     let current_index = c_int (int (notification_index (buffer s)));
     b \<leftarrow> unlock_notifications (buffer s);
     s \<leftarrow> send_all_win A K maperr ids (s\<lparr>buffer := b\<rparr>);
     b \<leftarrow> lock_notifications (buffer s);
     if current_index \<noteq> c_int (int (notification_index b)) then recv_alloc_loop_win A K maperr rest (s\<lparr>buffer := b\<rparr>)
     else Some (current_index, s\<lparr>buffer := b\<rparr>)
   }"

definition lwt_unix_recv_notifications_win :: "'os winsock \<Rightarrow> (string \<Rightarrow> int) \<Rightarrow> (int \<Rightarrow> int) \<Rightarrow> int list list \<Rightarrow> 'os wnotif \<Rightarrow> (caml_value outcome \<times> 'os wnotif) option" where
  "lwt_unix_recv_notifications_win A K maperr interference s = do {
     b \<leftarrow> lock_notifications (buffer s);
     if \<not> windows_fns s then None
     else do {
       let (ret, s) = windows_notification_recv A (s\<lparr>buffer := b\<rparr>);
       if ret = SOCKET_ERROR then do {
         let error = wsa_error (wst s);
         b \<leftarrow> unlock_notifications (buffer s);
         Some (Raise (Unix_error (maperr error) ''recv_notifications'' Nothing), s\<lparr>buffer := b\<rparr>)
       } else do {
         (current_index, s) \<leftarrow> recv_alloc_loop_win A K maperr interference s;
         result \<leftarrow> read_notifications current_index (buffer s);
         b \<leftarrow> unlock_notifications (buffer s\<lparr>notification_index := 0\<rparr>);
         Some (Ret result, s\<lparr>buffer := b\<rparr>)
       }
     }
   }"

text \<open>The handler of Ctrl+C, which runs in a thread of its own. \<open>table\<close> is \<^verbatim>\<open>signal_notifications\<close>.\<close>

definition handle_break :: "'os winsock \<Rightarrow> (string \<Rightarrow> int) \<Rightarrow> (int \<Rightarrow> int) \<Rightarrow> int list \<Rightarrow> int \<Rightarrow> 'os wnotif \<Rightarrow> (bool outcome \<times> 'os wnotif) option" where
  "handle_break A K maperr table event s = do {
     nid \<leftarrow> tbl_get table (K ''SIGINT'');
     if nid = -1 \<or> (event \<noteq> K ''CTRL_C_EVENT'' \<and> event \<noteq> K ''CTRL_BREAK_EVENT'') then Some (Ret False, s)
     else do {
       (r, s) \<leftarrow> lwt_unix_send_notification_win A K maperr nid s;
       Some (case r of Ret _ \<Rightarrow> Ret True | Raise e \<Rightarrow> Raise e, s)
     }
   }"

section \<open>No socket leaks\<close>

text \<open>What the code relies on: closing an open socket succeeds.\<close>

definition closes :: "'os winsock \<Rightarrow> bool" where
  "closes A \<longleftrightarrow> (\<forall>h e w. h \<noteq> INVALID_SOCKET \<longrightarrow> fst (closesocket_c A h e w) = 0)"

lemma wcall_sockets: "wcall f s = (r, s') \<Longrightarrow> sockets s' = sockets s"
  by (auto simp: wcall_def split: prod.splits)

lemma new_socket_sockets: "new_socket f s = (r, s') \<Longrightarrow> sockets s' = (if r = INVALID_SOCKET then sockets s else r # sockets s)"
  by (auto simp: new_socket_def dest: wcall_sockets split: prod.splits)

lemma close_sockets: "closes A \<Longrightarrow> h \<noteq> INVALID_SOCKET \<Longrightarrow> sockets (closesocket A h s) = remove1 h (sockets s)"
  by (auto simp: closesocket_def closes_def wcall_def split: prod.splits) (metis fst_conv)

lemma close_invalid: "INVALID_SOCKET \<notin> set (sockets s) \<Longrightarrow> sockets (closesocket A INVALID_SOCKET s) = sockets s"
  by (auto simp: closesocket_def wcall_def remove1_idem split: prod.splits)

lemma win_set_inherit_sockets: "win_set_inherit A K fd b s = (r, s') \<Longrightarrow> sockets s' = sockets s"
  by (auto simp: win_set_inherit_def dest: wcall_sockets split: prod.splits)

lemma win_socket_sockets:
  "lwt_win_socket A K d t p i s = (r, s') \<Longrightarrow> sockets s' = (if r = INVALID_SOCKET then sockets s else r # sockets s)"
  by (auto simp: lwt_win_socket_def Let_def dest!: new_socket_sockets win_set_inherit_sockets split: prod.splits if_splits)


lemma failure_sockets:
  assumes "closes A" and "INVALID_SOCKET \<notin> set base" and "s1 = INVALID_SOCKET"
    and "sockets s = filter (\<lambda>h. h \<noteq> INVALID_SOCKET) [s0, listener] @ base"
  shows "sockets (snd (socketpair_failure A maperr listener s0 s1 s)) = base"
    and "fst (socketpair_failure A maperr listener s0 s1 s) = Raise (Unix_error (maperr (wsa_error s)) ''socketpair'' Nothing)"
proof -
  have c: "sockets (closesocket A h s) = remove1 h (sockets s)" if "INVALID_SOCKET \<notin> set (sockets s)" for h s
    using that assms(1) close_invalid [of s A] close_sockets [of A h s] by (cases "h = INVALID_SOCKET") (simp_all add: remove1_idem)
  have n: "INVALID_SOCKET \<notin> set (remove1 h xs)" if "INVALID_SOCKET \<notin> set xs" for h xs using that by (meson notin_set_remove1)
  have "INVALID_SOCKET \<notin> set (sockets s)" using assms by simp
  then have "sockets (snd (socketpair_failure A maperr listener s0 s1 s)) = remove1 s1 (remove1 s0 (remove1 listener (sockets s)))"
    by (simp add: socketpair_failure_def Let_def c n)
  also have "\<dots> = base" using assms(2-4) by (auto simp: remove1_idem)
  finally show "sockets (snd (socketpair_failure A maperr listener s0 s1 s)) = base" .
  show "fst (socketpair_failure A maperr listener s0 s1 s) = Raise (Unix_error (maperr (wsa_error s)) ''socketpair'' Nothing)"
    by (simp add: socketpair_failure_def Let_def)
qed

text \<open>The outcome that a step of the function must lead to: a new pair and nothing else open, or an exception and the sockets as they were.\<close>

definition pair_or_none :: "int list \<Rightarrow> (int \<times> int) outcome \<times> 'os wsock \<Rightarrow> bool" where
  "pair_or_none base r \<longleftrightarrow> (case r of
       (Ret (a, b), s) \<Rightarrow> a \<noteq> INVALID_SOCKET \<and> b \<noteq> INVALID_SOCKET \<and> mset (sockets s) = {#a, b#} + mset base
     | (Raise e, s) \<Rightarrow> (\<exists>c. e = Unix_error c ''socketpair'' Nothing) \<and> sockets s = base)"

lemma pair_failure:
  assumes "closes A" and "INVALID_SOCKET \<notin> set base" and "sockets s = filter (\<lambda>h. h \<noteq> INVALID_SOCKET) [s0, listener] @ base"
  shows "pair_or_none base (socketpair_failure A maperr listener s0 INVALID_SOCKET s)"
  by (simp add: pair_or_none_def split_beta failure_sockets [OF assms(1,2) refl assms(3)])

text \<open>One call at a time.\<close>

lemma pair_steps:
  "(\<And>r s'. sockets s' = sockets s \<Longrightarrow> pair_or_none base (F r s')) \<Longrightarrow> pair_or_none base (case wcall f s of (r, s') \<Rightarrow> F r s')"
  "(\<And>r x s'. sockets s' = sockets s \<Longrightarrow> pair_or_none base (H r x s')) \<Longrightarrow> pair_or_none base (case wcall g s of ((r, x), s') \<Rightarrow> H r x s')"
  "(\<And>r s'. sockets s' = (if r = INVALID_SOCKET then sockets s else r # sockets s) \<Longrightarrow> pair_or_none base (F r s')) \<Longrightarrow>
     pair_or_none base (case new_socket f s of (r, s') \<Rightarrow> F r s')"
  "(\<And>r s'. sockets s' = (if r = INVALID_SOCKET then sockets s else r # sockets s) \<Longrightarrow> pair_or_none base (F r s')) \<Longrightarrow>
     pair_or_none base (case lwt_win_socket A K d t p i s of (r, s') \<Rightarrow> F r s')"
  "(c \<Longrightarrow> pair_or_none base y) \<Longrightarrow> (\<not> c \<Longrightarrow> pair_or_none base z) \<Longrightarrow> pair_or_none base (if c then y else z)"
  by (auto dest: wcall_sockets new_socket_sockets win_socket_sockets split: prod.split)

lemma socketpair_pair:
  assumes c: "closes A" and b: "INVALID_SOCKET \<notin> set (sockets s)"
  shows "pair_or_none (sockets s) (lwt_unix_socketpair A K maperr domain type protocol inherit s)"
proof -
  have raise: "pair_or_none (sockets s) (Raise (Unix_error (K ''ENOPROTOOPT'') ''socketpair'' Nothing), s)" by (simp add: pair_or_none_def)
  have finish: "pair_or_none (sockets s) (Ret (s0, s1), closesocket A l s')"
    if "sockets s' = s1 # s0 # l # sockets s" "s0 \<noteq> INVALID_SOCKET" "s1 \<noteq> INVALID_SOCKET" "l \<noteq> INVALID_SOCKET" for s0 s1 l s'
    using that c by (auto simp: pair_or_none_def close_sockets)
  show ?thesis unfolding lwt_unix_socketpair_def Let_def
    by (intro pair_steps raise) (simp_all add: pair_failure [OF c b] finish)
qed

text \<open>The sockets of the notification channel, in the mode that uses them.\<close>

definition channel_sockets :: "'os wnotif \<Rightarrow> int multiset" where
  "channel_sockets s = (if notification_mode (buffer s) = NOTIFICATION_MODE_WINDOWS then {#socket_r s, socket_w s#} else {#})"


lemma pair_or_noneD:
  "pair_or_none base (Ret (a, b), s) \<Longrightarrow> a \<noteq> INVALID_SOCKET \<and> b \<noteq> INVALID_SOCKET \<and> mset (sockets s) = {#a, b#} + mset base"
  "pair_or_none base (Raise e, s) \<Longrightarrow> (\<exists>c. e = Unix_error c ''socketpair'' Nothing) \<and> sockets s = base"
  by (simp_all add: pair_or_none_def)

section \<open>Notifications on Windows\<close>

definition wnotif_ready :: "'os wnotif \<Rightarrow> bool" where
  "wnotif_ready s \<longleftrightarrow> notif_wf (buffer s) \<and> notification_mutex (buffer s) = Mutex_free \<and> windows_fns s"

text \<open>A send appends its id whatever the socket says, and signals only when nothing was pending; the error of a Winsock that is shut down is no exception.\<close>

lemma send_notification_win_spec:
  assumes "wnotif_ready s"
  shows "\<exists>r s'. lwt_unix_send_notification_win A K maperr nid s = Some (r, s') \<and> wnotif_ready s' \<and> pending (buffer s') = pending (buffer s) @ [nid] \<and>
     (if pending (buffer s) \<noteq> [] then r = Ret () \<and> wst s' = wst s
      else (case wcall (send_w A (socket_w s) ''!'') (wst s) of (ret, w) \<Rightarrow> wst s' = w \<and>
        r = (if ret = SOCKET_ERROR \<and> wsa_error w \<noteq> K ''WSANOTINITIALISED'' then Raise (Unix_error (maperr (wsa_error w)) ''send_notification'' Nothing) else Ret ())))"
proof -
  let ?b = "buffer s\<lparr>notification_mutex := Mutex_held\<rparr>"
  have wf: "notif_wf ?b" and lock: "lock_notifications (buffer s) = Some ?b" and fns: "windows_fns s"
    using assms by (simp_all add: wnotif_ready_def lock_defs)
  have pend: "pending (buffer s) \<noteq> [] \<longleftrightarrow> 0 < notification_index ?b"
    using pending_empty_iff [OF wf] by simp
  define b where "b = (if 0 < notification_index ?b then make_room ?b else ?b)"
  have b: "notif_wf b" "pending b = pending (buffer s)" "notification_index b < length (notifications b)" "notification_mutex b = Mutex_held"
    using wf make_room [OF wf] by (auto simp: b_def notif_wf_def)
  obtain b' where b': "store_notification nid b = Some b'" using store_Some [OF b(3)] by blast
  note f = store_wf [OF b(1) b'] store_pending [OF b'] store_frame(1) [OF b']
  have un: "unlock_notifications b' = Some (b'\<lparr>notification_mutex := Mutex_free\<rparr>)" using f(3) b(4) by (simp add: lock_defs)
  show ?thesis
  proof (cases "0 < notification_index ?b")
    case True
    then have "store_notification nid (if notification_index ?b = notification_count ?b then resize_notifications ?b else ?b) = Some b'"
      using b' by (simp add: b_def make_room_def)
    then show ?thesis using True lock un f b(2) pend fns by (auto simp: lwt_unix_send_notification_win_def wnotif_ready_def)
  next
    case False
    then have "store_notification nid ?b = Some b'" using b' by (simp add: b_def)
    then show ?thesis using False lock un f b(2) pend fns
      by (auto simp: lwt_unix_send_notification_win_def wnotif_ready_def windows_notification_send_def Let_def split: prod.split)
  qed
qed

definition post_notification_win :: "'os winsock \<Rightarrow> (string \<Rightarrow> int) \<Rightarrow> (int \<Rightarrow> int) \<Rightarrow> int \<Rightarrow> 'os wnotif \<Rightarrow> 'os wnotif option" where
  "post_notification_win A K maperr nid s = map_option snd (lwt_unix_send_notification_win A K maperr nid s)"

interpretation wbox: mailbox "post_notification_win A K maperr" "\<lambda>s. pending (buffer s)" wnotif_ready for A K maperr
proof unfold_locales
  fix s :: "'a wnotif" and x
  assume "wnotif_ready s"
  then show "\<exists>s'. post_notification_win A K maperr x s = Some s' \<and> wnotif_ready s' \<and> pending (buffer s') = pending (buffer s) @ [x]"
    using send_notification_win_spec [of s A K maperr x] by (auto simp: post_notification_win_def)
qed

lemma send_all_win_iter: "send_all_win A K maperr ids s = iter_opt (post_notification_win A K maperr) ids s"
proof (induction ids arbitrary: s)
  case (Cons i ids)
  then show ?case by (cases "lwt_unix_send_notification_win A K maperr i s") (auto simp: post_notification_win_def)
qed simp

lemma send_all_win_spec:
  "wnotif_ready s \<Longrightarrow> \<exists>s'. send_all_win A K maperr ids s = Some s' \<and> wnotif_ready s' \<and> pending (buffer s') = pending (buffer s) @ ids"
  using wbox.post_all [of s A K maperr ids] by (simp add: send_all_win_iter)

definition wnotif_locked :: "'os wnotif \<Rightarrow> bool" where
  "wnotif_locked s \<longleftrightarrow> notif_wf (buffer s) \<and> notification_mutex (buffer s) = Mutex_held \<and> windows_fns s"

lemma wnotif_lockedD:
  assumes "wnotif_locked s"
  shows "unlock_notifications (buffer s) = Some (buffer s\<lparr>notification_mutex := Mutex_free\<rparr>)"
    "wnotif_ready (s\<lparr>buffer := buffer s\<lparr>notification_mutex := Mutex_free\<rparr>\<rparr>)"
  using assms by (auto simp: wnotif_locked_def wnotif_ready_def lock_defs)

lemma lock_wnotif:
  assumes "wnotif_ready s"
  shows "lock_notifications (buffer s) = Some (buffer s\<lparr>notification_mutex := Mutex_held\<rparr>)" "wnotif_locked (s\<lparr>buffer := buffer s\<lparr>notification_mutex := Mutex_held\<rparr>\<rparr>)"
  using assms by (auto simp: wnotif_locked_def wnotif_ready_def lock_defs)

lemma recv_alloc_loop_win_spec:
  assumes "wnotif_locked s" and "length (pending (buffer s) @ interfering bs) < 2 ^ 31"
  shows "\<exists>s'. recv_alloc_loop_win A K maperr bs s = Some (int (notification_index (buffer s')), s') \<and> wnotif_locked s' \<and>
    pending (buffer s') = pending (buffer s) @ interfering bs"
  using assms
proof (induction bs arbitrary: s)
  case Nil
  note lk = wnotif_lockedD [OF Nil.prems(1)]
  have "c_int (int (notification_index (buffer s))) = int (notification_index (buffer s))"
    using Nil.prems by (intro index_fits) (auto simp: wnotif_locked_def)
  with Nil.prems lk lock_wnotif [OF lk(2)] show ?case by (simp add: wnotif_locked_def)
next
  case (Cons b bs)
  note lk = wnotif_lockedD [OF Cons.prems(1)]
  obtain t where t: "send_all_win A K maperr b (s\<lparr>buffer := buffer s\<lparr>notification_mutex := Mutex_free\<rparr>\<rparr>) = Some t" "wnotif_ready t"
    "pending (buffer t) = pending (buffer s) @ b" using send_all_win_spec [OF lk(2)] by fastforce
  note lt = lock_wnotif [OF t(2)]
  have wf: "notif_wf (buffer s)" "notif_wf (buffer t)" using Cons.prems(1) t(2) by (auto simp: wnotif_locked_def wnotif_ready_def)
  have idx: "notification_index (buffer t) = notification_index (buffer s) + length b" using t(3) wf by (metis length_append length_pending)
  have fits: "c_int (int (notification_index (buffer s))) = int (notification_index (buffer s))" using Cons.prems(2) wf by (intro index_fits) auto
  show ?case
  proof (cases "b = []")
    case True
    with lk lock_wnotif [OF lk(2)] fits Cons.prems show ?thesis by (simp add: wnotif_locked_def)
  next
    case False
    have "length (pending (buffer t)) < 2 ^ 31" using Cons.prems(2) False t(3) by simp
    then have "c_int (int (notification_index (buffer t))) = int (notification_index (buffer t))" using wf by (intro index_fits) auto
    moreover have "length (pending (buffer (t\<lparr>buffer := buffer t\<lparr>notification_mutex := Mutex_held\<rparr>\<rparr>)) @ interfering bs) < 2 ^ 31"
      using Cons.prems(2) False t(3) by simp
    ultimately show ?thesis using Cons.IH [OF lt(2)] False t lt lk fits idx by auto
  qed
qed

lemma recv_notifications_win_spec:
  assumes ready: "wnotif_ready s" and call: "wcall (recv_w A (socket_r s) 1) (wst s) = (ret, w)" and fits: "length (pending (buffer s) @ interfering bs) < 2 ^ 31"
  shows "\<exists>s'. lwt_unix_recv_notifications_win A K maperr bs s =
       Some (if ret = SOCKET_ERROR then Raise (Unix_error (maperr (wsa_error w)) ''recv_notifications'' Nothing)
             else Ret (Block 0 (map Val_long (pending (buffer s) @ interfering bs))), s') \<and>
     wnotif_ready s' \<and> pending (buffer s') = (if ret = SOCKET_ERROR then pending (buffer s) else [])"
proof -
  note lk = lock_wnotif [OF ready]
  let ?t = "s\<lparr>buffer := buffer s\<lparr>notification_mutex := Mutex_held\<rparr>, wst := w\<rparr>"
  have locked: "wnotif_locked ?t" using lk(2) by (simp add: wnotif_locked_def)
  have fns: "windows_fns s" using ready by (simp add: wnotif_ready_def)
  show ?thesis
  proof (cases "ret = SOCKET_ERROR")
    case True
    with lk wnotif_lockedD [OF locked] call fns show ?thesis
      by (simp add: lwt_unix_recv_notifications_win_def windows_notification_recv_def Let_def wnotif_ready_def)
  next
    case False
    obtain v where v: "recv_alloc_loop_win A K maperr bs ?t = Some (int (notification_index (buffer v)), v)" "wnotif_locked v"
      "pending (buffer v) = pending (buffer s) @ interfering bs"
      using recv_alloc_loop_win_spec [OF locked, of bs A K maperr] fits by auto
    have rd: "read_notifications (int (notification_index (buffer v))) (buffer v) = Some (Block 0 (map Val_long (pending (buffer s) @ interfering bs)))"
      using v(2,3) by (simp add: read_notifications_def wnotif_locked_def notif_wf_def pending_def)
    have "unlock_notifications (buffer v\<lparr>notification_index := 0\<rparr>) = Some (buffer v\<lparr>notification_index := 0, notification_mutex := Mutex_free\<rparr>)"
      using v(2) by (simp add: wnotif_locked_def lock_defs)
    with False lk call v rd fns show ?thesis
      by (simp add: lwt_unix_recv_notifications_win_def windows_notification_recv_def wnotif_ready_def wnotif_locked_def notif_wf_def) (simp add: pending_def)
  qed
qed

text \<open>Ctrl+C posts the id registered for \<^verbatim>\<open>SIGINT\<close> once, and nothing when the signal is not monitored or the event is another one.\<close>

lemma handle_break_spec:
  assumes "wnotif_ready s" and "tbl_get table (K ''SIGINT'') = Some nid"
  shows "\<exists>r s'. handle_break A K maperr table event s = Some (r, s') \<and> wnotif_ready s' \<and>
     (if nid = -1 \<or> event \<noteq> K ''CTRL_C_EVENT'' \<and> event \<noteq> K ''CTRL_BREAK_EVENT'' then r = Ret False \<and> s' = s
      else r \<noteq> Ret False \<and> pending (buffer s') = pending (buffer s) @ [nid])"
proof -
  obtain r s' where "lwt_unix_send_notification_win A K maperr nid s = Some (r, s')" "wnotif_ready s'" "pending (buffer s') = pending (buffer s) @ [nid]"
    using send_notification_win_spec [OF assms(1), of A K maperr nid] by blast
  with assms show ?thesis by (cases r) (auto simp: handle_break_def)
qed

section \<open>Properties\<close>

text \<open>Calls that succeed until the listener accepts a connection, which fails.\<close>

definition demo_winsock :: "nat winsock" where
  "demo_winsock = \<lparr>WSASocket = (\<lambda>_ _ _ _ e w. (int w, e, w + 1)), closesocket_c = (\<lambda>_ e w. (0, e, w)), setsockopt_c = (\<lambda>_ _ _ _ e w. (0, e, w)),
     bind_c = (\<lambda>_ _ _ e w. (0, e, w)), getsockname_c = (\<lambda>_ e w. ((0, 2, False, 999), e, w)), listen_c = (\<lambda>_ _ e w. (0, e, w)),
     connect_c = (\<lambda>_ _ _ e w. (0, e, w)), accept_c = (\<lambda>_ e w. (-1, 10055, w)), SetHandleInformation = (\<lambda>_ _ _ e w. (True, e, w)),
     send_w = (\<lambda>_ _ e w. (1, e, w)), recv_w = (\<lambda>_ _ e w. (1, e, w))\<rparr>"

text \<open>
  C34. Making a pair of sockets on Windows leaks nothing, whichever of its eight calls fails: on success exactly the two sockets of the pair are open in addition to those that were
  open before (the listener is closed), and on failure exactly those that were open before; the exception then is a \<^verbatim>\<open>Unix_error\<close> of \<^verbatim>\<open>socketpair\<close>.
\<close>

theorem win_socketpair_no_leak:
  assumes "closes A" and "INVALID_SOCKET \<notin> set (sockets s)"
  shows "case lwt_unix_socketpair A K maperr domain type protocol inherit s of
      (Ret (a, b), s') \<Rightarrow> a \<noteq> INVALID_SOCKET \<and> b \<noteq> INVALID_SOCKET \<and> mset (sockets s') = {#a, b#} + mset (sockets s)
    | (Raise e, s') \<Rightarrow> (\<exists>c. e = Unix_error c ''socketpair'' Nothing) \<and> sockets s' = sockets s"
  using socketpair_pair [OF assms, of K maperr domain type protocol inherit] unfolding pair_or_none_def .

theorem win_socketpair_no_leak_witness:
  "lwt_unix_socketpair demo_winsock (\<lambda>_. 2) (\<lambda>e. e) 2 1 6 False \<lparr>wsa_error = 0, sockets = [3], wos = 5\<rparr> =
     (Raise (Unix_error 10055 ''socketpair'' Nothing), \<lparr>wsa_error = 10055, sockets = [3], wos = 7\<rparr>) \<and>
   (case lwt_unix_socketpair demo_winsock (\<lambda>_. 2) (\<lambda>e. e) 2 1 6 False \<lparr>wsa_error = 0, sockets = [3], wos = 5\<rparr> of
      (Ret (a, b), s') \<Rightarrow> a \<noteq> INVALID_SOCKET \<and> b \<noteq> INVALID_SOCKET \<and> mset (sockets s') = {#a, b#} + mset [3]
    | (Raise e, s') \<Rightarrow> (\<exists>c. e = Unix_error c ''socketpair'' Nothing) \<and> sockets s' = [3])"
proof
  show "lwt_unix_socketpair demo_winsock (\<lambda>_. 2) (\<lambda>e. e) 2 1 6 False \<lparr>wsa_error = 0, sockets = [3], wos = 5\<rparr> =
     (Raise (Unix_error 10055 ''socketpair'' Nothing), \<lparr>wsa_error = 10055, sockets = [3], wos = 7\<rparr>)"
    by (simp add: lwt_unix_socketpair_def lwt_win_socket_def new_socket_def wcall_def socketpair_failure_def closesocket_def demo_winsock_def)
  have "closes demo_winsock" by (simp add: closes_def demo_winsock_def)
  from win_socketpair_no_leak [OF this, of "\<lparr>wsa_error = 0, sockets = [3], wos = 5\<rparr>" "\<lambda>_. 2" "\<lambda>e. e" 2 1 6 False]
  show "case lwt_unix_socketpair demo_winsock (\<lambda>_. 2) (\<lambda>e. e) 2 1 6 False \<lparr>wsa_error = 0, sockets = [3], wos = 5\<rparr> of
      (Ret (a, b), s') \<Rightarrow> a \<noteq> INVALID_SOCKET \<and> b \<noteq> INVALID_SOCKET \<and> mset (sockets s') = {#a, b#} + mset [3]
    | (Raise e, s') \<Rightarrow> (\<exists>c. e = Unix_error c ''socketpair'' Nothing) \<and> sockets s' = [3]"
    by (simp cong: outcome.case_cong)
qed

text \<open>
  Initialising the notifications on Windows, for the first time or again, keeps the sockets balanced: the open sockets are always those of the channel and those of the rest of the
  program, and a failure leaves a mode in which the old sockets are not closed a second time.
\<close>

theorem win_init_notification_balanced:
  assumes "closes A" and "INVALID_SOCKET \<notin> set (sockets (wst s))" and "INVALID_SOCKET \<notin># channel_sockets s"
    and "mset (sockets (wst s)) = channel_sockets s + rest" and "notification_mode (buffer s) \<notin> {NOTIFICATION_MODE_EVENTFD, NOTIFICATION_MODE_PIPE}"
  shows "case lwt_unix_init_notification_win A K maperr win_alloc_socket s of (r, s') \<Rightarrow>
      mset (sockets (wst s')) = channel_sockets s' + rest \<and> INVALID_SOCKET \<notin># channel_sockets s' \<and>
      (case r of Ret _ \<Rightarrow> notification_mode (buffer s') = NOTIFICATION_MODE_WINDOWS \<and> windows_fns s' | Raise _ \<Rightarrow> notification_mode (buffer s') = NOTIFICATION_MODE_NONE)"
proof -
  have fin: "case (case lwt_unix_socketpair A K maperr d t p False (wst u) of
                (Raise e, w) \<Rightarrow> (Raise e, u\<lparr>wst := w\<rparr>)
              | (Ret (s0, s1), w) \<Rightarrow> (Ret (win_alloc_socket s0), u\<lparr>wst := w, socket_r := s0, socket_w := s1, windows_fns := True,
                     buffer := buffer u\<lparr>notification_mode := NOTIFICATION_MODE_WINDOWS\<rparr>\<rparr>)) of (r, s') \<Rightarrow>
      mset (sockets (wst s')) = channel_sockets s' + rest \<and> INVALID_SOCKET \<notin># channel_sockets s' \<and>
      (case r of Ret _ \<Rightarrow> notification_mode (buffer s') = NOTIFICATION_MODE_WINDOWS \<and> windows_fns s' | Raise _ \<Rightarrow> notification_mode (buffer s') = NOTIFICATION_MODE_NONE)"
    if u: "INVALID_SOCKET \<notin> set (sockets (wst u))" "mset (sockets (wst u)) = rest" "notification_mode (buffer u) = NOTIFICATION_MODE_NONE" for u d t p
    using socketpair_pair [OF assms(1) u(1), of K maperr d t p False] u(2,3)
    by (auto simp: channel_sockets_def dest!: pair_or_noneD split: prod.splits outcome.splits)
  consider (first) "notification_mode (buffer s) = NOTIFICATION_MODE_NOT_INITIALIZED" | (none) "notification_mode (buffer s) = NOTIFICATION_MODE_NONE"
    | (again) "notification_mode (buffer s) = NOTIFICATION_MODE_WINDOWS"
    using assms(5) by (cases "notification_mode (buffer s)") auto
  then show ?thesis
  proof cases
    case again
    have r: "socket_r s \<noteq> INVALID_SOCKET" "socket_w s \<noteq> INVALID_SOCKET" using assms(3) again by (auto simp: channel_sockets_def)
    let ?w = "closesocket A (socket_w s) (closesocket A (socket_r s) (wst s))"
    have w: "sockets ?w = remove1 (socket_w s) (remove1 (socket_r s) (sockets (wst s)))" using assms(1) r by (simp add: close_sockets)
    have "INVALID_SOCKET \<notin> set (sockets ?w)" unfolding w using assms(2) by (meson notin_set_remove1)
    moreover have "mset (sockets ?w) = rest" unfolding w using assms(4) again by (simp add: channel_sockets_def)
    ultimately show ?thesis
      using fin [of "s\<lparr>buffer := buffer s\<lparr>notification_mode := NOTIFICATION_MODE_NONE\<rparr>, wst := ?w\<rparr>" "K ''AF_INET''" "K ''SOCK_STREAM''" "K ''IPPROTO_TCP''"] again
      by (simp add: lwt_unix_init_notification_win_def)
  next
    case first
    have "mset (sockets (wst s)) = rest" using assms(4) first by (simp add: channel_sockets_def)
    moreover have "notification_mode (init_notifications b) = notification_mode b" for b :: "unit notif" by (simp add: init_notifications_def)
    ultimately show ?thesis
      using fin [of "s\<lparr>buffer := init_notifications (buffer s\<lparr>notification_mode := NOTIFICATION_MODE_NONE\<rparr>)\<rparr>" "K ''AF_INET''" "K ''SOCK_STREAM''" "K ''IPPROTO_TCP''"]
        assms(2) first by (simp add: lwt_unix_init_notification_win_def)
  next
    case none
    have "mset (sockets (wst s)) = rest" using assms(4) none by (simp add: channel_sockets_def)
    then show ?thesis using fin [of s "K ''AF_INET''" "K ''SOCK_STREAM''" "K ''IPPROTO_TCP''"] assms(2) none
      by (simp add: lwt_unix_init_notification_win_def)
  qed
qed

end
