(* ===== verification/Win_Io.thy ===== *)
theory Win_Io
  imports Io_Jobs
begin

text \<open>
  Reading and writing on Windows (\<^verbatim>\<open>src/src/unix/windows_c\<close>): the blocking jobs \<^verbatim>\<open>windows_read_job.c\<close>, \<^verbatim>\<open>windows_pread_job.c\<close>,
  \<^verbatim>\<open>windows_write_job.c\<close>, \<^verbatim>\<open>windows_pwrite_job.c\<close>, \<^verbatim>\<open>windows_bytes_read_job.c\<close>, \<^verbatim>\<open>windows_bytes_write_job.c\<close>, \<^verbatim>\<open>windows_fsync_job.c\<close> and the primitives
  \<^verbatim>\<open>windows_read.c\<close>, \<^verbatim>\<open>windows_pread.c\<close>, \<^verbatim>\<open>windows_write.c\<close>, \<^verbatim>\<open>windows_pwrite.c\<close>, \<^verbatim>\<open>windows_bytes_read.c\<close>, \<^verbatim>\<open>windows_bytes_write.c\<close>,
  \<^verbatim>\<open>windows_is_socket.c\<close>, \<^verbatim>\<open>windows_get_page_size.c\<close>. The names of the C functions are those of the POSIX files, which are compiled on other systems; here they have
  the suffix \<open>_win\<close>.

  A descriptor is a handle or a socket. The field \<open>c_errno\<close> of the state stands for the last error of the thread (\<^verbatim>\<open>GetLastError\<close> and \<^verbatim>\<open>WSAGetLastError\<close>), which
  \<open>maperr\<close> (\<^verbatim>\<open>win32_maperr\<close> of the OCaml runtime) converts into an error number. On Windows a C \<^verbatim>\<open>long\<close> has 32 bits.
\<close>

section \<open>Descriptors and calls\<close>

datatype descr_kind = KIND_HANDLE | KIND_SOCKET

record filedescr =
  fd_kind :: descr_kind
  fd_val :: int

text \<open>
  \<^verbatim>\<open>recv\<close> and \<^verbatim>\<open>send\<close> give -1 or a number of bytes; \<^verbatim>\<open>ReadFile\<close> and \<^verbatim>\<open>WriteFile\<close> tell whether they succeeded and how many bytes were transferred. The last argument is
  the file offset of an \<^verbatim>\<open>OVERLAPPED\<close> structure (high and low half), if there is one.
\<close>

record 'os win_io =
  recv_c :: "int \<Rightarrow> int \<Rightarrow> ('os, int \<times> char list) syscall"
  send_c :: "int \<Rightarrow> char list \<Rightarrow> ('os, int) syscall"
  ReadFile :: "int \<Rightarrow> int \<Rightarrow> (int \<times> int) option \<Rightarrow> ('os, bool \<times> int \<times> char list) syscall"
  WriteFile :: "int \<Rightarrow> char list \<Rightarrow> (int \<times> int) option \<Rightarrow> ('os, bool \<times> int) syscall"
  FlushFileBuffers :: "int \<Rightarrow> ('os, bool) syscall"

definition overlapped_at :: "int \<Rightarrow> int \<times> int" where
  "overlapped_at file_offset = (c_dword (drop_bit 32 file_offset), c_dword (and file_offset 0xFFFFFFFF))"

section \<open>Structures\<close>

record wjob_read = sysjob +
  wr_fd :: filedescr
  wr_length :: int
  wr_string :: nat
  wr_offset :: int
  wr_buffer :: "char list"

record wjob_pread = wjob_read +
  wr_overlapped :: "int \<times> int"

record wjob_write = sysjob +
  ww_fd :: filedescr
  ww_length :: int
  ww_buffer :: "char list"

record wjob_pwrite = wjob_write +
  ww_overlapped :: "int \<times> int"

record wjob_bytes = sysjob +
  wy_fd :: filedescr
  wy_buffer :: int
  wy_length :: int
  wy_ocaml_buffer :: nat

record wjob_fsync = sysjob +
  wf_handle :: int

type_synonym wread_x = "unit wjob_read_ext sys_x"
type_synonym wpread_x = "unit wjob_pread_ext wjob_read_ext sys_x"
type_synonym wwrite_x = "unit wjob_write_ext sys_x"
type_synonym wpwrite_x = "unit wjob_pwrite_ext wjob_write_ext sys_x"
type_synonym wbytes_x = "unit wjob_bytes_ext sys_x"
type_synonym wfsync_x = "unit wjob_fsync_ext sys_x"

section \<open>read\<close>

definition worker_read_win :: "'os win_io \<Rightarrow> nat \<Rightarrow> (wread_x, 'os) cst \<Rightarrow> (wread_x, 'os) cst option" where
  [job_defs]: "worker_read_win W p s = do {
     job \<leftarrow> heap s p;
     if fd_kind (wr_fd job) = KIND_SOCKET then do {
       let ((ret, bs), e, w) = recv_c W (fd_val (wr_fd job)) (c_int (wr_length job)) (c_errno s) (os s);
       buffer \<leftarrow> write_at (wr_buffer job) 0 bs;
       s \<leftarrow> set_job p (\<lambda>j. j\<lparr>j_error_code := (if ret = -1 then e else j_error_code j), j_result := c_dword ret, wr_buffer := buffer\<rparr>) s;
       Some (s\<lparr>c_errno := e, os := w\<rparr>)
     } else do {
       let ((ok, n, bs), e, w) = ReadFile W (fd_val (wr_fd job)) (wr_length job) None (c_errno s) (os s);
       buffer \<leftarrow> write_at (wr_buffer job) 0 bs;
       s \<leftarrow> set_job p (\<lambda>j. j\<lparr>j_error_code := (if ok then j_error_code j else e), j_result := n, wr_buffer := buffer\<rparr>) s;
       Some (s\<lparr>c_errno := e, os := w\<rparr>)
     }
   }"

definition result_read_win :: "(string \<Rightarrow> int) \<Rightarrow> (int \<Rightarrow> int) \<Rightarrow> nat \<Rightarrow> (wread_x, 'os) cst \<Rightarrow> (caml_value outcome \<times> (wread_x, 'os) cst) option" where
  [job_defs]: "result_read_win K maperr p s = do {
     job \<leftarrow> heap s p;
     let error = j_error_code job;
     if error \<noteq> K ''ERROR_BROKEN_PIPE'' \<and> error \<noteq> 0 then do {
       s \<leftarrow> remove_root p s;
       s \<leftarrow> free_job p s;
       Some (Raise (Unix_error (maperr error) ''read'' Nothing), s)
     } else do {
       let result = (if error = K ''ERROR_BROKEN_PIPE'' then 0 else j_result job);
       src \<leftarrow> read_at (wr_buffer job) 0 (nat result);
       dst \<leftarrow> rooted_buf p (wr_string job) s;
       dst \<leftarrow> write_at dst (nat (wr_offset job)) src;
       s \<leftarrow> remove_root p (s\<lparr>bufs := (bufs s)(wr_string job \<mapsto> dst)\<rparr>);
       free_and_return p (Val_long result) s
     }
   }"

definition lwt_unix_read_job_win :: "nat \<Rightarrow> wjob_read \<times> (nat \<Rightarrow> char) \<Rightarrow> filedescr \<Rightarrow> nat \<Rightarrow> int \<Rightarrow> int
    \<Rightarrow> (wread_x, 'os) cst \<Rightarrow> (caml_value \<times> (wread_x, 'os) cst) option" where
  [job_defs]: "lwt_unix_read_job_win a ug fd val_string offset len s = do {
     let len = c_int len;
     s \<leftarrow> LWT_UNIX_INIT_JOB a ''read'' ((fst ug)\<lparr>wr_buffer := uninit (snd ug) (nat len)\<rparr>) s;
     s \<leftarrow> set_job a (\<lambda>j. j\<lparr>wr_fd := fd, wr_length := c_dword len, j_error_code := 0, wr_string := val_string, wr_offset := c_dword offset\<rparr>) s;
     lwt_unix_alloc_job a (register_root a s)
   }"

definition lwt_unix_read_win :: "'os win_io \<Rightarrow> (string \<Rightarrow> int) \<Rightarrow> (int \<Rightarrow> int) \<Rightarrow> filedescr \<Rightarrow> nat \<Rightarrow> int \<Rightarrow> int
    \<Rightarrow> ('x, 'os) cst \<Rightarrow> (caml_value outcome \<times> ('x, 'os) cst) option" where
  "lwt_unix_read_win W K maperr fd buf ofs len s =
     (if len > 0 then do {
        dst \<leftarrow> bufs s buf;
        let numbytes = c_dword len;
        let (err, numwritten, bs, e, w) =
          (if fd_kind fd = KIND_SOCKET then
             let ((ret, bs), e, w) = recv_c W (fd_val fd) (c_int numbytes) (c_errno s) (os s)
             in (if ret = -1 then e else 0, c_dword ret, bs, e, w)
           else
             let ((ok, n, bs), e, w) = ReadFile W (fd_val fd) numbytes None (c_errno s) (os s)
             in (if ok then 0 else e, n, bs, e, w));
        dst \<leftarrow> write_at dst (nat ofs) bs;
        let s = s\<lparr>bufs := (bufs s)(buf \<mapsto> dst), c_errno := e, os := w\<rparr>;
        if err = K ''ERROR_BROKEN_PIPE'' then Some (Ret (Val_long 0), s)
        else if err \<noteq> 0 then Some (Raise (Unix_error (maperr err) ''read'' Nothing), s)
        else Some (Ret (Val_long numwritten), s)
      } else Some (Ret (Val_long 0), s))"

section \<open>pread\<close>

definition worker_pread_win :: "'os win_io \<Rightarrow> nat \<Rightarrow> (wpread_x, 'os) cst \<Rightarrow> (wpread_x, 'os) cst option" where
  [job_defs]: "worker_pread_win W p s = do {
     job \<leftarrow> heap s p;
     let ((ok, n, bs), e, w) = ReadFile W (fd_val (wr_fd job)) (wr_length job) (Some (wr_overlapped job)) (c_errno s) (os s);
     buffer \<leftarrow> write_at (wr_buffer job) 0 bs;
     s \<leftarrow> set_job p (\<lambda>j. j\<lparr>j_error_code := (if ok then j_error_code j else e), j_result := n, wr_buffer := buffer\<rparr>) s;
     Some (s\<lparr>c_errno := e, os := w\<rparr>)
   }"

definition result_pread_win :: "(string \<Rightarrow> int) \<Rightarrow> (int \<Rightarrow> int) \<Rightarrow> nat \<Rightarrow> (wpread_x, 'os) cst \<Rightarrow> (caml_value outcome \<times> (wpread_x, 'os) cst) option" where
  [job_defs]: "result_pread_win K maperr p s = do {
     job \<leftarrow> heap s p;
     let error = j_error_code job;
     if error \<noteq> K ''ERROR_BROKEN_PIPE'' \<and> error \<noteq> 0 then do {
       s \<leftarrow> remove_root p s;
       s \<leftarrow> free_job p s;
       Some (Raise (Unix_error (maperr error) ''pread'' Nothing), s)
     } else do {
       let result = (if error = K ''ERROR_BROKEN_PIPE'' then 0 else j_result job);
       src \<leftarrow> read_at (wr_buffer job) 0 (nat result);
       dst \<leftarrow> rooted_buf p (wr_string job) s;
       dst \<leftarrow> write_at dst (nat (wr_offset job)) src;
       s \<leftarrow> remove_root p (s\<lparr>bufs := (bufs s)(wr_string job \<mapsto> dst)\<rparr>);
       free_and_return p (Val_long result) s
     }
   }"

text \<open>The stub raises an exception itself when the descriptor is a socket.\<close>

definition lwt_unix_pread_job_win :: "nat \<Rightarrow> wjob_pread \<times> (nat \<Rightarrow> char) \<Rightarrow> filedescr \<Rightarrow> nat \<Rightarrow> int \<Rightarrow> int \<Rightarrow> int
    \<Rightarrow> (wpread_x, 'os) cst \<Rightarrow> (caml_value outcome \<times> (wpread_x, 'os) cst) option" where
  "lwt_unix_pread_job_win a ug fd val_string file_offset offset len s =
     (if fd_kind fd \<noteq> KIND_HANDLE then Some (Raise (Invalid_argument ''Lwt_unix.pread''), s)
      else do {
        let len = c_int len;
        s \<leftarrow> LWT_UNIX_INIT_JOB a ''pread'' ((fst ug)\<lparr>wr_buffer := uninit (snd ug) (nat len)\<rparr>) s;
        s \<leftarrow> set_job a (\<lambda>j. j\<lparr>wr_fd := fd, wr_length := c_dword len, wr_overlapped := overlapped_at file_offset, j_error_code := 0,
                         wr_string := val_string, wr_offset := c_dword offset\<rparr>) s;
        (v, s) \<leftarrow> lwt_unix_alloc_job a (register_root a s);
        Some (Ret v, s)
      })"

definition lwt_unix_pread_win :: "'os win_io \<Rightarrow> (string \<Rightarrow> int) \<Rightarrow> (int \<Rightarrow> int) \<Rightarrow> filedescr \<Rightarrow> nat \<Rightarrow> int \<Rightarrow> int \<Rightarrow> int
    \<Rightarrow> ('x, 'os) cst \<Rightarrow> (caml_value outcome \<times> ('x, 'os) cst) option" where
  "lwt_unix_pread_win W K maperr fd buf file_offset ofs len s =
     (if len > 0 then do {
        dst \<leftarrow> bufs s buf;
        let numbytes = c_dword len;
        if fd_kind fd = KIND_SOCKET then Some (Raise (Invalid_argument ''Lwt_unix.pread''), s)
        else do {
          let ((ok, n, bs), e, w) = ReadFile W (fd_val fd) numbytes (Some (overlapped_at file_offset)) (c_errno s) (os s);
          let err = (if ok then 0 else e);
          dst \<leftarrow> write_at dst (nat ofs) bs;
          let s = s\<lparr>bufs := (bufs s)(buf \<mapsto> dst), c_errno := e, os := w\<rparr>;
          if err = K ''ERROR_BROKEN_PIPE'' then Some (Ret (Val_long 0), s)
          else if err \<noteq> 0 then Some (Raise (Unix_error (maperr err) ''pread'' Nothing), s)
          else Some (Ret (Val_long n), s)
        }
      } else Some (Ret (Val_long 0), s))"

section \<open>write\<close>

definition worker_write_win :: "'os win_io \<Rightarrow> nat \<Rightarrow> (wwrite_x, 'os) cst \<Rightarrow> (wwrite_x, 'os) cst option" where
  [job_defs]: "worker_write_win W p s = do {
     job \<leftarrow> heap s p;
     src \<leftarrow> read_at (ww_buffer job) 0 (nat (ww_length job));
     if fd_kind (ww_fd job) = KIND_SOCKET then do {
       let (ret, e, w) = send_c W (fd_val (ww_fd job)) src (c_errno s) (os s);
       s \<leftarrow> set_job p (\<lambda>j. j\<lparr>j_error_code := (if ret = -1 then e else j_error_code j), j_result := c_dword ret\<rparr>) s;
       Some (s\<lparr>c_errno := e, os := w\<rparr>)
     } else do {
       let ((ok, n), e, w) = WriteFile W (fd_val (ww_fd job)) src None (c_errno s) (os s);
       s \<leftarrow> set_job p (\<lambda>j. j\<lparr>j_error_code := (if ok then j_error_code j else e), j_result := n\<rparr>) s;
       Some (s\<lparr>c_errno := e, os := w\<rparr>)
     }
   }"

definition result_write_win :: "(int \<Rightarrow> int) \<Rightarrow> nat \<Rightarrow> (wwrite_x, 'os) cst \<Rightarrow> (caml_value outcome \<times> (wwrite_x, 'os) cst) option" where
  [job_defs]: "result_write_win maperr p s = do {
     job \<leftarrow> heap s p;
     let error = j_error_code job;
     if error \<noteq> 0 then do {
       s \<leftarrow> free_job p s;
       Some (Raise (Unix_error (maperr error) ''write'' Nothing), s)
     } else free_and_return p (Val_long (j_result job)) s
   }"

definition lwt_unix_write_job_win :: "nat \<Rightarrow> wjob_write \<times> (nat \<Rightarrow> char) \<Rightarrow> filedescr \<Rightarrow> nat \<Rightarrow> int \<Rightarrow> int
    \<Rightarrow> (wwrite_x, 'os) cst \<Rightarrow> (caml_value \<times> (wwrite_x, 'os) cst) option" where
  [job_defs]: "lwt_unix_write_job_win a ug fd val_string offset len s = do {
     let len = c_int len;
     s \<leftarrow> LWT_UNIX_INIT_JOB a ''write'' ((fst ug)\<lparr>ww_buffer := uninit (snd ug) (nat len)\<rparr>) s;
     str \<leftarrow> bufs s val_string;
     src \<leftarrow> read_at str (nat offset) (nat len);
     job \<leftarrow> heap s a;
     buffer \<leftarrow> write_at (ww_buffer job) 0 src;
     s \<leftarrow> set_job a (\<lambda>j. j\<lparr>ww_fd := fd, ww_buffer := buffer, ww_length := c_dword len, j_error_code := 0\<rparr>) s;
     lwt_unix_alloc_job a s
   }"

definition lwt_unix_write_win :: "'os win_io \<Rightarrow> (int \<Rightarrow> int) \<Rightarrow> filedescr \<Rightarrow> nat \<Rightarrow> int \<Rightarrow> int
    \<Rightarrow> ('x, 'os) cst \<Rightarrow> (caml_value outcome \<times> ('x, 'os) cst) option" where
  "lwt_unix_write_win W maperr fd buf ofs len s =
     (if len > 0 then do {
        str \<leftarrow> bufs s buf;
        let numbytes = c_dword len;
        src \<leftarrow> read_at str (nat ofs) (nat numbytes);
        let (err, numwritten, e, w) =
          (if fd_kind fd = KIND_SOCKET then
             let (ret, e, w) = send_c W (fd_val fd) src (c_errno s) (os s)
             in (if ret = -1 then e else 0, c_dword ret, e, w)
           else
             let ((ok, n), e, w) = WriteFile W (fd_val fd) src None (c_errno s) (os s)
             in (if ok then 0 else e, n, e, w));
        let s = s\<lparr>c_errno := e, os := w\<rparr>;
        if err \<noteq> 0 then Some (Raise (Unix_error (maperr err) ''write'' Nothing), s)
        else Some (Ret (Val_long numwritten), s)
      } else Some (Ret (Val_long 0), s))"

section \<open>pwrite\<close>

definition worker_pwrite_win :: "'os win_io \<Rightarrow> nat \<Rightarrow> (wpwrite_x, 'os) cst \<Rightarrow> (wpwrite_x, 'os) cst option" where
  [job_defs]: "worker_pwrite_win W p s = do {
     job \<leftarrow> heap s p;
     src \<leftarrow> read_at (ww_buffer job) 0 (nat (ww_length job));
     let ((ok, n), e, w) = WriteFile W (fd_val (ww_fd job)) src (Some (ww_overlapped job)) (c_errno s) (os s);
     s \<leftarrow> set_job p (\<lambda>j. j\<lparr>j_error_code := (if ok then j_error_code j else e), j_result := n\<rparr>) s;
     Some (s\<lparr>c_errno := e, os := w\<rparr>)
   }"

definition result_pwrite_win :: "(int \<Rightarrow> int) \<Rightarrow> nat \<Rightarrow> (wpwrite_x, 'os) cst \<Rightarrow> (caml_value outcome \<times> (wpwrite_x, 'os) cst) option" where
  [job_defs]: "result_pwrite_win maperr p s = do {
     job \<leftarrow> heap s p;
     let error = j_error_code job;
     if error \<noteq> 0 then do {
       s \<leftarrow> free_job p s;
       Some (Raise (Unix_error (maperr error) ''pwrite'' Nothing), s)
     } else free_and_return p (Val_long (j_result job)) s
   }"

definition lwt_unix_pwrite_job_win :: "nat \<Rightarrow> wjob_pwrite \<times> (nat \<Rightarrow> char) \<Rightarrow> filedescr \<Rightarrow> nat \<Rightarrow> int \<Rightarrow> int \<Rightarrow> int
    \<Rightarrow> (wpwrite_x, 'os) cst \<Rightarrow> (caml_value outcome \<times> (wpwrite_x, 'os) cst) option" where
  "lwt_unix_pwrite_job_win a ug fd val_string file_offset offset len s =
     (if fd_kind fd \<noteq> KIND_HANDLE then Some (Raise (Invalid_argument ''Lwt_unix.pwrite''), s)
      else do {
        let len = c_int len;
        s \<leftarrow> LWT_UNIX_INIT_JOB a ''pwrite'' ((fst ug)\<lparr>ww_buffer := uninit (snd ug) (nat len)\<rparr>) s;
        str \<leftarrow> bufs s val_string;
        src \<leftarrow> read_at str (nat offset) (nat len);
        job \<leftarrow> heap s a;
        buffer \<leftarrow> write_at (ww_buffer job) 0 src;
        s \<leftarrow> set_job a (\<lambda>j. j\<lparr>ww_fd := fd, ww_buffer := buffer, ww_length := c_dword len, ww_overlapped := overlapped_at file_offset, j_error_code := 0\<rparr>) s;
        (v, s) \<leftarrow> lwt_unix_alloc_job a s;
        Some (Ret v, s)
      })"

definition lwt_unix_pwrite_win :: "'os win_io \<Rightarrow> (int \<Rightarrow> int) \<Rightarrow> filedescr \<Rightarrow> nat \<Rightarrow> int \<Rightarrow> int \<Rightarrow> int
    \<Rightarrow> ('x, 'os) cst \<Rightarrow> (caml_value outcome \<times> ('x, 'os) cst) option" where
  "lwt_unix_pwrite_win W maperr fd buf file_offset ofs len s =
     (if len > 0 then do {
        str \<leftarrow> bufs s buf;
        let numbytes = c_dword len;
        if fd_kind fd = KIND_SOCKET then Some (Raise (Invalid_argument ''Lwt_unix.pwrite''), s)
        else do {
          src \<leftarrow> read_at str (nat ofs) (nat numbytes);
          let ((ok, n), e, w) = WriteFile W (fd_val fd) src (Some (overlapped_at file_offset)) (c_errno s) (os s);
          let err = (if ok then 0 else e);
          let s = s\<lparr>c_errno := e, os := w\<rparr>;
          if err \<noteq> 0 then Some (Raise (Unix_error (maperr err) ''pwrite'' Nothing), s)
          else Some (Ret (Val_long n), s)
        }
      } else Some (Ret (Val_long 0), s))"

section \<open>Bigarrays\<close>

definition worker_bytes_read_win :: "'os win_io \<Rightarrow> nat \<Rightarrow> (wbytes_x, 'os) cst \<Rightarrow> (wbytes_x, 'os) cst option" where
  [job_defs]: "worker_bytes_read_win W p s = do {
     job \<leftarrow> heap s p;
     dst \<leftarrow> rooted_buf p (wy_ocaml_buffer job) s;
     if fd_kind (wy_fd job) = KIND_SOCKET then do {
       let ((ret, bs), e, w) = recv_c W (fd_val (wy_fd job)) (c_int (wy_length job)) (c_errno s) (os s);
       dst \<leftarrow> write_at dst (nat (wy_buffer job)) bs;
       s \<leftarrow> set_job p (\<lambda>j. j\<lparr>j_error_code := (if ret = -1 then e else j_error_code j), j_result := c_dword ret\<rparr>) s;
       Some (s\<lparr>bufs := (bufs s)(wy_ocaml_buffer job \<mapsto> dst), c_errno := e, os := w\<rparr>)
     } else do {
       let ((ok, n, bs), e, w) = ReadFile W (fd_val (wy_fd job)) (wy_length job) None (c_errno s) (os s);
       dst \<leftarrow> write_at dst (nat (wy_buffer job)) bs;
       s \<leftarrow> set_job p (\<lambda>j. j\<lparr>j_error_code := (if ok then j_error_code j else e), j_result := n\<rparr>) s;
       Some (s\<lparr>bufs := (bufs s)(wy_ocaml_buffer job \<mapsto> dst), c_errno := e, os := w\<rparr>)
     }
   }"

definition result_bytes_read_win :: "(string \<Rightarrow> int) \<Rightarrow> (int \<Rightarrow> int) \<Rightarrow> nat \<Rightarrow> (wbytes_x, 'os) cst \<Rightarrow> (caml_value outcome \<times> (wbytes_x, 'os) cst) option" where
  [job_defs]: "result_bytes_read_win K maperr p s = do {
     job \<leftarrow> heap s p;
     let error = j_error_code job;
     s \<leftarrow> remove_root p s;
     if error \<noteq> K ''ERROR_BROKEN_PIPE'' \<and> error \<noteq> 0 then do {
       s \<leftarrow> free_job p s;
       Some (Raise (Unix_error (maperr error) ''bytes_read'' Nothing), s)
     } else free_and_return p (Val_long (if error = K ''ERROR_BROKEN_PIPE'' then 0 else j_result job)) s
   }"

definition lwt_unix_bytes_read_job_win :: "nat \<Rightarrow> wjob_bytes \<Rightarrow> filedescr \<Rightarrow> nat \<Rightarrow> int \<Rightarrow> int \<Rightarrow> (wbytes_x, 'os) cst
    \<Rightarrow> (caml_value \<times> (wbytes_x, 'os) cst) option" where
  [job_defs]: "lwt_unix_bytes_read_job_win a u fd buf ofs len s = do {
     s \<leftarrow> LWT_UNIX_INIT_JOB a ''bytes_read'' u s;
     s \<leftarrow> set_job a (\<lambda>j. j\<lparr>wy_fd := fd, wy_buffer := ofs, wy_length := c_dword len, j_error_code := 0, wy_ocaml_buffer := buf\<rparr>) s;
     lwt_unix_alloc_job a (register_root a s)
   }"

definition lwt_unix_bytes_read_win :: "'os win_io \<Rightarrow> (string \<Rightarrow> int) \<Rightarrow> (int \<Rightarrow> int) \<Rightarrow> filedescr \<Rightarrow> nat \<Rightarrow> int \<Rightarrow> int
    \<Rightarrow> ('x, 'os) cst \<Rightarrow> (caml_value outcome \<times> ('x, 'os) cst) option" where
  "lwt_unix_bytes_read_win W K maperr fd buf ofs len s =
     (if len > 0 then do {
        dst \<leftarrow> bufs s buf;
        let numbytes = c_dword len;
        let (err, numwritten, bs, e, w) =
          (if fd_kind fd = KIND_SOCKET then
             let ((ret, bs), e, w) = recv_c W (fd_val fd) (c_int numbytes) (c_errno s) (os s)
             in (if ret = -1 then e else 0, c_dword ret, bs, e, w)
           else
             let ((ok, n, bs), e, w) = ReadFile W (fd_val fd) numbytes None (c_errno s) (os s)
             in (if ok then 0 else e, n, bs, e, w));
        dst \<leftarrow> write_at dst (nat ofs) bs;
        let s = s\<lparr>bufs := (bufs s)(buf \<mapsto> dst), c_errno := e, os := w\<rparr>;
        if err = K ''ERROR_BROKEN_PIPE'' then Some (Ret (Val_long 0), s)
        else if err \<noteq> 0 then Some (Raise (Unix_error (maperr err) ''write'' Nothing), s)
        else Some (Ret (Val_long numwritten), s)
      } else Some (Ret (Val_long 0), s))"

definition worker_bytes_write_win :: "'os win_io \<Rightarrow> nat \<Rightarrow> (wbytes_x, 'os) cst \<Rightarrow> (wbytes_x, 'os) cst option" where
  [job_defs]: "worker_bytes_write_win W p s = do {
     job \<leftarrow> heap s p;
     str \<leftarrow> rooted_buf p (wy_ocaml_buffer job) s;
     src \<leftarrow> read_at str (nat (wy_buffer job)) (nat (wy_length job));
     if fd_kind (wy_fd job) = KIND_SOCKET then do {
       let (ret, e, w) = send_c W (fd_val (wy_fd job)) src (c_errno s) (os s);
       s \<leftarrow> set_job p (\<lambda>j. j\<lparr>j_error_code := (if ret = -1 then e else j_error_code j), j_result := c_dword ret\<rparr>) s;
       Some (s\<lparr>c_errno := e, os := w\<rparr>)
     } else do {
       let ((ok, n), e, w) = WriteFile W (fd_val (wy_fd job)) src None (c_errno s) (os s);
       s \<leftarrow> set_job p (\<lambda>j. j\<lparr>j_error_code := (if ok then j_error_code j else e), j_result := n\<rparr>) s;
       Some (s\<lparr>c_errno := e, os := w\<rparr>)
     }
   }"

definition result_bytes_write_win :: "(int \<Rightarrow> int) \<Rightarrow> nat \<Rightarrow> (wbytes_x, 'os) cst \<Rightarrow> (caml_value outcome \<times> (wbytes_x, 'os) cst) option" where
  [job_defs]: "result_bytes_write_win maperr p s = do {
     job \<leftarrow> heap s p;
     let error = j_error_code job;
     s \<leftarrow> remove_root p s;
     if error \<noteq> 0 then do {
       s \<leftarrow> free_job p s;
       Some (Raise (Unix_error (maperr error) ''bytes_write'' Nothing), s)
     } else free_and_return p (Val_long (j_result job)) s
   }"

text \<open>The stub sets the worker once more, to the same function.\<close>

definition lwt_unix_bytes_write_job_win :: "nat \<Rightarrow> wjob_bytes \<Rightarrow> filedescr \<Rightarrow> nat \<Rightarrow> int \<Rightarrow> int \<Rightarrow> (wbytes_x, 'os) cst
    \<Rightarrow> (caml_value \<times> (wbytes_x, 'os) cst) option" where
  [job_defs]: "lwt_unix_bytes_write_job_win a u fd buf ofs len s = do {
     s \<leftarrow> LWT_UNIX_INIT_JOB a ''bytes_write'' u s;
     s \<leftarrow> set_job a (\<lambda>j. j\<lparr>worker_fn := ''worker_bytes_write'', wy_fd := fd, wy_buffer := ofs, wy_length := c_dword len, j_error_code := 0, wy_ocaml_buffer := buf\<rparr>) s;
     lwt_unix_alloc_job a (register_root a s)
   }"

definition lwt_unix_bytes_write_win :: "'os win_io \<Rightarrow> (int \<Rightarrow> int) \<Rightarrow> filedescr \<Rightarrow> nat \<Rightarrow> int \<Rightarrow> int
    \<Rightarrow> ('x, 'os) cst \<Rightarrow> (caml_value outcome \<times> ('x, 'os) cst) option" where
  "lwt_unix_bytes_write_win W maperr fd buf ofs len s =
     (if len > 0 then do {
        str \<leftarrow> bufs s buf;
        let numbytes = c_dword len;
        src \<leftarrow> read_at str (nat ofs) (nat numbytes);
        let (err, numwritten, e, w) =
          (if fd_kind fd = KIND_SOCKET then
             let (ret, e, w) = send_c W (fd_val fd) src (c_errno s) (os s)
             in (if ret = -1 then e else 0, c_dword ret, e, w)
           else
             let ((ok, n), e, w) = WriteFile W (fd_val fd) src None (c_errno s) (os s)
             in (if ok then 0 else e, n, e, w));
        let s = s\<lparr>c_errno := e, os := w\<rparr>;
        if err \<noteq> 0 then Some (Raise (Unix_error (maperr err) ''write'' Nothing), s)
        else Some (Ret (Val_long numwritten), s)
      } else Some (Ret (Val_long 0), s))"

section \<open>fsync, and two queries\<close>

definition worker_fsync_win :: "'os win_io \<Rightarrow> nat \<Rightarrow> (wfsync_x, 'os) cst \<Rightarrow> (wfsync_x, 'os) cst option" where
  [job_defs]: "worker_fsync_win W p s = do {
     job \<leftarrow> heap s p;
     let (ok, e, w) = FlushFileBuffers W (wf_handle job) (c_errno s) (os s);
     s \<leftarrow> set_job p (\<lambda>j. j\<lparr>j_error_code := (if ok then j_error_code j else e)\<rparr>) s;
     Some (s\<lparr>c_errno := e, os := w\<rparr>)
   }"

definition result_fsync_win :: "(int \<Rightarrow> int) \<Rightarrow> nat \<Rightarrow> (wfsync_x, 'os) cst \<Rightarrow> (caml_value outcome \<times> (wfsync_x, 'os) cst) option" where
  [job_defs]: "result_fsync_win maperr p s = do {
     job \<leftarrow> heap s p;
     let error = j_error_code job;
     if error \<noteq> 0 then do {
       s \<leftarrow> free_job p s;
       Some (Raise (Unix_error (maperr error) ''fsync'' Nothing), s)
     } else free_and_return p Val_unit s
   }"

definition lwt_unix_fsync_job_win :: "nat \<Rightarrow> wjob_fsync \<Rightarrow> filedescr \<Rightarrow> (wfsync_x, 'os) cst \<Rightarrow> (caml_value outcome \<times> (wfsync_x, 'os) cst) option" where
  "lwt_unix_fsync_job_win a u fd s =
     (if fd_kind fd \<noteq> KIND_HANDLE then Some (Raise (Invalid_argument ''Lwt_unix.fsync''), s)
      else do {
        s \<leftarrow> LWT_UNIX_INIT_JOB a ''fsync'' u s;
        s \<leftarrow> set_job a (\<lambda>j. j\<lparr>wf_handle := fd_val fd, j_error_code := 0\<rparr>) s;
        (v, s) \<leftarrow> lwt_unix_alloc_job a s;
        Some (Ret v, s)
      })"

definition lwt_unix_is_socket_win :: "filedescr \<Rightarrow> caml_value" where
  "lwt_unix_is_socket_win fd = Val_bool (fd_kind fd = KIND_SOCKET)"

text \<open>\<open>dwPageSize\<close>: the field of the structure that \<^verbatim>\<open>GetSystemInfo\<close> fills.\<close>

definition lwt_unix_get_page_size_win :: "int \<Rightarrow> caml_value" where
  "lwt_unix_get_page_size_win dwPageSize = Val_long dwPageSize"

definition lwt_unix_somaxconn_win :: "(string \<Rightarrow> int) \<Rightarrow> caml_value" where
  "lwt_unix_somaxconn_win K = Val_int (K ''SOMAXCONN'')"

section \<open>The jobs and the primitives\<close>

text \<open>
  What the code relies on. A read gives -1, or false, with an error that is not 0 and without storing anything, or it stores as many bytes as it says, at most as many as
  requested. A write that fails sets an error that is not 0; a number of bytes is not negative and fits a \<^verbatim>\<open>DWORD\<close>.
\<close>

definition win_read_contract :: "'os win_io \<Rightarrow> filedescr \<Rightarrow> int \<Rightarrow> (int \<times> int) option \<Rightarrow> bool" where
  "win_read_contract W fd n ov \<longleftrightarrow>
     (\<forall>e w. case recv_c W (fd_val fd) n e w of ((r, bs), e', _) \<Rightarrow> -1 \<le> r \<and> r \<le> n \<and> length bs = nat r \<and> (r = -1 \<longrightarrow> e' \<noteq> 0)) \<and>
     (\<forall>e w. case ReadFile W (fd_val fd) n ov e w of ((ok, r, bs), e', _) \<Rightarrow>
        if ok then 0 \<le> r \<and> r \<le> n \<and> length bs = nat r else bs = [] \<and> e' \<noteq> 0)"

definition win_write_contract :: "'os win_io \<Rightarrow> filedescr \<Rightarrow> bool" where
  "win_write_contract W fd \<longleftrightarrow>
     (\<forall>src e w. case send_c W (fd_val fd) src e w of (r, e', _) \<Rightarrow> r = -1 \<longrightarrow> e' \<noteq> 0) \<and>
     (\<forall>src ov e w. case WriteFile W (fd_val fd) src ov e w of ((ok, r), e', _) \<Rightarrow> ok \<or> e' \<noteq> 0)"

text \<open>The range is not empty, and its offset and length fit the 32-bit fields of the structure.\<close>

definition small_range :: "nat \<Rightarrow> int \<Rightarrow> int \<Rightarrow> ('x, 'os) cst \<Rightarrow> bool" where
  "small_range buf ofs len s \<longleftrightarrow> in_buffer buf ofs len s \<and> 0 < len \<and> len < 2 ^ 31 \<and> ofs < 2 ^ 32"

text \<open>The name of the function in the exception, replaced.\<close>

fun relabel :: "string \<Rightarrow> caml_value outcome \<Rightarrow> caml_value outcome" where
  "relabel f (Raise (Unix_error e _ arg)) = Raise (Unix_error e f arg)"
| "relabel f v = v"

definition relabelled :: "string \<Rightarrow> (caml_value outcome \<times> 's) option \<Rightarrow> (caml_value outcome \<times> 's) option" where
  "relabelled f r = map_option (apfst (relabel f)) r"

text \<open>The stub of a job that may raise an exception instead: the job that it returns otherwise.\<close>

definition returned :: "(caml_value outcome \<times> 's) option \<Rightarrow> (caml_value \<times> 's) option" where
  "returned r = (case r of Some (Ret v, s) \<Rightarrow> Some (v, s) | _ \<Rightarrow> None)"

lemma c_dword_id: "0 \<le> i \<Longrightarrow> i < 2 ^ 32 \<Longrightarrow> c_dword i = i"
  by (simp add: c_dword_def take_bit_int_eq_self)

lemma small_rangeE:
  assumes "small_range buf ofs len s"
  obtains d where "bufs s buf = Some d" and "nat ofs + nat len \<le> length d" and "c_int len = len" and "c_dword len = len" and "c_dword ofs = ofs"
    and "0 < len" and "0 \<le> ofs"
  using assms unfolding small_range_def in_buffer_def by (auto simp: c_int_id c_dword_id)


lemmas win_io_defs = io_defs job_defs win_read_contract_def win_write_contract_def returned_def relabelled_def

text \<open>The two calls that read, and the two that write, in one form: the error (0 when there is none), the number of bytes and the bytes.\<close>

lemma recv_cases:
  assumes "win_read_contract W fd n ov" and "recv_c W (fd_val fd) n e w = ((r, bs), e', w')"
  shows "r = -1 \<and> bs = [] \<and> e' \<noteq> 0 \<or> 0 \<le> r \<and> r \<le> n \<and> nat r = length bs \<and> length bs \<le> nat n"
  using assms(1) [unfolded win_read_contract_def, THEN conjunct1, rule_format, of e w] assms(2) by auto

lemma ReadFile_cases:
  assumes "win_read_contract W fd n ov" and "ReadFile W (fd_val fd) n ov e w = ((ok, r, bs), e', w')"
  shows "\<not> ok \<and> bs = [] \<and> e' \<noteq> 0 \<or> ok \<and> 0 \<le> r \<and> r \<le> n \<and> nat r = length bs \<and> length bs \<le> nat n"
  using assms(1) [unfolded win_read_contract_def, THEN conjunct2, rule_format, of e w] assms(2) by (auto split: if_splits)

lemma send_error:
  assumes "win_write_contract W fd" and "send_c W (fd_val fd) src e w = (r, e', w')" and "r = -1"
  shows "e' \<noteq> 0"
  using assms(1) [unfolded win_write_contract_def, THEN conjunct1, rule_format, of src e w] assms(2,3) by simp

lemma WriteFile_error:
  assumes "win_write_contract W fd" and "WriteFile W (fd_val fd) src ov e w = ((ok, r), e', w')" and "\<not> ok"
  shows "e' \<noteq> 0"
  using assms(1) [unfolded win_write_contract_def, THEN conjunct2, rule_format, of src ov e w] assms(2,3) by simp

lemma read_job_win_equiv:
  assumes "heap s a = None" and b: "small_range buf ofs len s" and c: "win_read_contract W fd len None" and K: "K ''ERROR_BROKEN_PIPE'' \<noteq> 0"
  shows "job_run am e' (lwt_unix_read_job_win a ug fd buf ofs len) [''worker_read'' \<mapsto> worker_read_win W] [''result_read'' \<mapsto> result_read_win K maperr] s =
    as_job e' (lwt_unix_read_win W K maperr fd buf ofs len s)"
proof -
  obtain d where d: "bufs s buf = Some d" "nat ofs + nat len \<le> length d" "c_int len = len" "c_dword len = len" "c_dword ofs = ofs" "0 < len" "0 \<le> ofs"
    by (rule small_rangeE [OF b]) blast
  show ?thesis
  proof (cases "fd_kind fd")
    case KIND_SOCKET
    obtain r bs e w where r: "recv_c W (fd_val fd) len (c_errno s) (os s) = ((r, bs), e, w)" by (metis prod_cases3 surj_pair)
    from recv_cases [OF c r] show ?thesis
    proof
      assume "r = -1 \<and> bs = [] \<and> e \<noteq> 0"
      with assms(1) d r K KIND_SOCKET show ?thesis by (cases s) (simp add: win_io_defs lwt_unix_read_win_def fun_upd_idem)
    next
      assume "0 \<le> r \<and> r \<le> len \<and> nat r = length bs \<and> length bs \<le> nat len"
      moreover have "c_dword r = r" using b calculation by (auto simp: small_range_def c_dword_id)
      ultimately show ?thesis using assms(1) d r K KIND_SOCKET
        by (cases s) (simp add: win_io_defs lwt_unix_read_win_def fun_upd_idem)
    qed
  next
    case KIND_HANDLE
    obtain ok r bs e w where r: "ReadFile W (fd_val fd) len None (c_errno s) (os s) = ((ok, r, bs), e, w)" by (metis prod_cases3)
    from ReadFile_cases [OF c r] show ?thesis using assms(1) d r K KIND_HANDLE
      by (cases s) (auto simp: win_io_defs lwt_unix_read_win_def fun_upd_idem)
  qed
qed


lemma bytes_read_job_win_equiv:
  assumes "heap s a = None" and b: "small_range buf ofs len s" and c: "win_read_contract W fd len None" and K: "K ''ERROR_BROKEN_PIPE'' \<noteq> 0"
  shows "job_run am e' (lwt_unix_bytes_read_job_win a u fd buf ofs len) [''worker_bytes_read'' \<mapsto> worker_bytes_read_win W] [''result_bytes_read'' \<mapsto> result_bytes_read_win K maperr] s =
    as_job e' (relabelled ''bytes_read'' (lwt_unix_bytes_read_win W K maperr fd buf ofs len s))"
proof -
  obtain d where d: "bufs s buf = Some d" "nat ofs + nat len \<le> length d" "c_int len = len" "c_dword len = len" "c_dword ofs = ofs" "0 < len" "0 \<le> ofs"
    by (rule small_rangeE [OF b]) blast
  show ?thesis
  proof (cases "fd_kind fd")
    case KIND_SOCKET
    obtain r bs e w where r: "recv_c W (fd_val fd) len (c_errno s) (os s) = ((r, bs), e, w)" by (metis prod_cases3 surj_pair)
    from recv_cases [OF c r] show ?thesis using assms(1) d r K KIND_SOCKET
      by (cases s) (auto simp: win_io_defs lwt_unix_bytes_read_win_def fun_upd_idem)
  next
    case KIND_HANDLE
    obtain ok r bs e w where r: "ReadFile W (fd_val fd) len None (c_errno s) (os s) = ((ok, r, bs), e, w)" by (metis prod_cases3)
    from ReadFile_cases [OF c r] show ?thesis using assms(1) d r K KIND_HANDLE
      by (cases s) (auto simp: win_io_defs lwt_unix_bytes_read_win_def fun_upd_idem)
  qed
qed

lemma pread_job_win_equiv:
  assumes "heap s a = None" and b: "small_range buf ofs len s" and c: "win_read_contract W fd len (Some (overlapped_at fofs))" and K: "K ''ERROR_BROKEN_PIPE'' \<noteq> 0"
    and k: "fd_kind fd = KIND_HANDLE"
  shows "job_run am e' (\<lambda>s. returned (lwt_unix_pread_job_win a ug fd buf fofs ofs len s)) [''worker_pread'' \<mapsto> worker_pread_win W] [''result_pread'' \<mapsto> result_pread_win K maperr] s =
    as_job e' (lwt_unix_pread_win W K maperr fd buf fofs ofs len s)"
proof -
  obtain d where d: "bufs s buf = Some d" "nat ofs + nat len \<le> length d" "c_int len = len" "c_dword len = len" "c_dword ofs = ofs" "0 < len" "0 \<le> ofs"
    by (rule small_rangeE [OF b]) blast
  obtain ok r bs e w where r: "ReadFile W (fd_val fd) len (Some (overlapped_at fofs)) (c_errno s) (os s) = ((ok, r, bs), e, w)" by (metis prod_cases3)
  from ReadFile_cases [OF c r] show ?thesis using assms(1) d r K k
    by (cases s) (auto simp: win_io_defs lwt_unix_pread_job_win_def lwt_unix_pread_win_def fun_upd_idem)
qed

lemma write_job_win_equiv:
  assumes "heap s a = None" and b: "small_range buf ofs len s" and c: "win_write_contract W fd"
  shows "job_run am e' (lwt_unix_write_job_win a ug fd buf ofs len) [''worker_write'' \<mapsto> worker_write_win W] [''result_write'' \<mapsto> result_write_win maperr] s =
    as_job e' (lwt_unix_write_win W maperr fd buf ofs len s)"
proof -
  obtain d where d: "bufs s buf = Some d" "nat ofs + nat len \<le> length d" "c_int len = len" "c_dword len = len" "c_dword ofs = ofs" "0 < len" "0 \<le> ofs"
    by (rule small_rangeE [OF b]) blast
  let ?src = "take (nat len) (drop (nat ofs) d)"
  show ?thesis
  proof (cases "fd_kind fd")
    case KIND_SOCKET
    obtain r e w where r: "send_c W (fd_val fd) ?src (c_errno s) (os s) = (r, e, w)" by (metis prod_cases3)
    show ?thesis using assms(1) d r send_error [OF c r] KIND_SOCKET
      by (cases s) (auto simp: win_io_defs lwt_unix_write_win_def fun_upd_idem)
  next
    case KIND_HANDLE
    obtain ok r e w where r: "WriteFile W (fd_val fd) ?src None (c_errno s) (os s) = ((ok, r), e, w)" by (metis prod_cases3 surj_pair)
    show ?thesis using assms(1) d r WriteFile_error [OF c r] KIND_HANDLE
      by (cases s) (auto simp: win_io_defs lwt_unix_write_win_def fun_upd_idem)
  qed
qed

lemma bytes_write_job_win_equiv:
  assumes "heap s a = None" and b: "small_range buf ofs len s" and c: "win_write_contract W fd"
  shows "job_run am e' (lwt_unix_bytes_write_job_win a u fd buf ofs len) [''worker_bytes_write'' \<mapsto> worker_bytes_write_win W] [''result_bytes_write'' \<mapsto> result_bytes_write_win maperr] s =
    as_job e' (relabelled ''bytes_write'' (lwt_unix_bytes_write_win W maperr fd buf ofs len s))"
proof -
  obtain d where d: "bufs s buf = Some d" "nat ofs + nat len \<le> length d" "c_int len = len" "c_dword len = len" "c_dword ofs = ofs" "0 < len" "0 \<le> ofs"
    by (rule small_rangeE [OF b]) blast
  let ?src = "take (nat len) (drop (nat ofs) d)"
  show ?thesis
  proof (cases "fd_kind fd")
    case KIND_SOCKET
    obtain r e w where r: "send_c W (fd_val fd) ?src (c_errno s) (os s) = (r, e, w)" by (metis prod_cases3)
    show ?thesis using assms(1) d r send_error [OF c r] KIND_SOCKET
      by (cases s) (auto simp: win_io_defs lwt_unix_bytes_write_win_def fun_upd_idem)
  next
    case KIND_HANDLE
    obtain ok r e w where r: "WriteFile W (fd_val fd) ?src None (c_errno s) (os s) = ((ok, r), e, w)" by (metis prod_cases3 surj_pair)
    show ?thesis using assms(1) d r WriteFile_error [OF c r] KIND_HANDLE
      by (cases s) (auto simp: win_io_defs lwt_unix_bytes_write_win_def fun_upd_idem)
  qed
qed

lemma pwrite_job_win_equiv:
  assumes "heap s a = None" and b: "small_range buf ofs len s" and c: "win_write_contract W fd" and k: "fd_kind fd = KIND_HANDLE"
  shows "job_run am e' (\<lambda>s. returned (lwt_unix_pwrite_job_win a ug fd buf fofs ofs len s)) [''worker_pwrite'' \<mapsto> worker_pwrite_win W] [''result_pwrite'' \<mapsto> result_pwrite_win maperr] s =
    as_job e' (lwt_unix_pwrite_win W maperr fd buf fofs ofs len s)"
proof -
  obtain d where d: "bufs s buf = Some d" "nat ofs + nat len \<le> length d" "c_int len = len" "c_dword len = len" "c_dword ofs = ofs" "0 < len" "0 \<le> ofs"
    by (rule small_rangeE [OF b]) blast
  obtain ok r e w where r: "WriteFile W (fd_val fd) (take (nat len) (drop (nat ofs) d)) (Some (overlapped_at fofs)) (c_errno s) (os s) = ((ok, r), e, w)"
    by (metis prod_cases3 surj_pair)
  show ?thesis using assms(1) d r WriteFile_error [OF c r] k
    by (cases s) (auto simp: win_io_defs lwt_unix_pwrite_job_win_def lwt_unix_pwrite_win_def fun_upd_idem)
qed

lemma fsync_job_win_correct:
  assumes "heap s a = None" and "fd_kind fd = KIND_HANDLE" and "FlushFileBuffers W (fd_val fd) (c_errno s) (os s) = (ok, e, w)" and "\<not> ok \<Longrightarrow> e \<noteq> 0"
  shows "job_run am e' (\<lambda>s. returned (lwt_unix_fsync_job_win a u fd s)) [''worker_fsync'' \<mapsto> worker_fsync_win W] [''result_fsync'' \<mapsto> result_fsync_win maperr] s =
    Some (if ok then Ret Val_unit else Raise (Unix_error (maperr e) ''fsync'' Nothing), s\<lparr>c_errno := e', os := w\<rparr>)"
  using assms by (cases s) (auto simp: win_io_defs lwt_unix_fsync_job_win_def fun_upd_idem)

text \<open>On a socket \<^verbatim>\<open>pread\<close> and \<^verbatim>\<open>pwrite\<close> are refused, by the stub and by the primitive.\<close>

lemma socket_pread_win:
  assumes "small_range buf ofs len s" and "fd_kind fd \<noteq> KIND_HANDLE"
  shows "lwt_unix_pread_job_win a ug fd buf fofs ofs len s = lwt_unix_pread_win W K maperr fd buf fofs ofs len s"
proof -
  have "fd_kind fd = KIND_SOCKET" using assms(2) by (cases "fd_kind fd") simp_all
  then show ?thesis by (rule_tac small_rangeE [OF assms(1)]) (simp add: lwt_unix_pread_job_win_def lwt_unix_pread_win_def)
qed

lemma socket_pwrite_win:
  assumes "small_range buf ofs len s" and "fd_kind fd \<noteq> KIND_HANDLE"
  shows "lwt_unix_pwrite_job_win a ug fd buf fofs ofs len s = lwt_unix_pwrite_win W maperr fd buf fofs ofs len s"
proof -
  have "fd_kind fd = KIND_SOCKET" using assms(2) by (cases "fd_kind fd") simp_all
  then show ?thesis by (rule_tac small_rangeE [OF assms(1)]) (simp add: lwt_unix_pwrite_job_win_def lwt_unix_pwrite_win_def)
qed

text \<open>The two halves of a file offset make it up again.\<close>

lemma overlapped_at_roundtrip:
  assumes "0 \<le> fofs" and "fofs < 2 ^ 64"
  shows "fst (overlapped_at fofs) * 2 ^ 32 + snd (overlapped_at fofs) = fofs"
proof -
  have "and fofs 0xFFFFFFFF = take_bit 32 fofs" by (simp add: take_bit_eq_mask mask_eq_exp_minus_1)
  moreover have "c_dword (drop_bit 32 fofs) = drop_bit 32 fofs" using assms by (intro c_dword_id) (simp_all add: drop_bit_eq_div)
  ultimately show ?thesis
    by (simp add: overlapped_at_def c_dword_def take_bit_eq_mod drop_bit_eq_div)
qed


section \<open>Properties\<close>

text \<open>Calls on a file whose content is ''abc'', for the examples.\<close>

definition demo_win :: "nat win_io" where
  "demo_win = \<lparr>recv_c = (\<lambda>_ _ _ w. ((-1, []), 10054, w)), send_c = (\<lambda>_ _ _ w. (-1, 10054, w)),
     ReadFile = (\<lambda>_ n _ e w. ((True, 2, ''ZZ''), e, w + 1)) , WriteFile = (\<lambda>_ src _ e w. ((True, int (length src)), e, w + 1)),
     FlushFileBuffers = (\<lambda>_ e w. (True, e, w))\<rparr>"

definition demo_wjob_read :: wjob_read where
  "demo_wjob_read = \<lparr>next_job = None, notification_id = 0, worker_fn = [], result_fn = [], job_state = LWT_UNIX_JOB_STATE_DONE,
     fast = 5, job_mutex = Mutex_held, async_method = LWT_UNIX_ASYNC_METHOD_SWITCH, j_result = 3, j_error_code = 4,
     wr_fd = \<lparr>fd_kind = KIND_SOCKET, fd_val = 0\<rparr>, wr_length = 6, wr_string = 7, wr_offset = 8, wr_buffer = []\<rparr>"



end
