(* ===== verification/Win_Process.thy ===== *)
theory Win_Process
  imports Win_Io "HOL-Library.Multiset"
begin

text \<open>
  Processes on Windows: \<^verbatim>\<open>src/src/unix/lwt_process_stubs.c\<close> (\<^verbatim>\<open>CreateProcess\<close> with redirected standard handles, waiting for a process, terminating it) and
  \<^verbatim>\<open>src/src/unix/windows_c/windows_system_job.c\<close>.

  The state of the first part has the last error of the thread and the handles that this process holds; the calls of Windows are parameters. The theorems show which handles are open
  afterwards, and that the environment block that the child gets is not the one that OCaml built.
\<close>

section \<open>State and calls\<close>

record 'os wproc =
  last_error :: int
  handles :: "int list"
  pos :: 'os

text \<open>\<^verbatim>\<open>PROCESS_INFORMATION\<close>: the process id and the handles of the process and of its main thread.\<close>

type_synonym proc_info = "int \<times> int \<times> int"

text \<open>
  \<^verbatim>\<open>CreateProcess\<close> gets the program, the command line, the flags, the environment block, the directory and the three standard handles, and gives whether it succeeded and the process
  information.
\<close>

record 'os win_proc =
  GetHandleInformation :: "int \<Rightarrow> ('os, bool \<times> int) syscall"
  DuplicateHandle :: "int \<Rightarrow> ('os, bool \<times> int) syscall"
  CloseHandle_c :: "int \<Rightarrow> ('os, bool) syscall"
  CreateProcess :: "char list option \<Rightarrow> char list \<Rightarrow> int \<Rightarrow> char list option \<Rightarrow> char list option \<Rightarrow> (int \<times> int \<times> int) option \<Rightarrow> ('os, bool \<times> proc_info) syscall"
  WaitForSingleObject :: "int \<Rightarrow> ('os, unit) syscall"
  GetExitCodeProcess :: "int \<Rightarrow> ('os, bool \<times> int) syscall"
  TerminateProcess :: "int \<Rightarrow> int \<Rightarrow> ('os, bool) syscall"

abbreviation INVALID_HANDLE_VALUE :: int where
  "INVALID_HANDLE_VALUE \<equiv> - 1"

definition pcall :: "('os, 'r) syscall \<Rightarrow> 'os wproc \<Rightarrow> 'r \<times> 'os wproc" where
  "pcall f s = (case f (last_error s) (pos s) of (r, e, w) \<Rightarrow> (r, s\<lparr>last_error := e, pos := w\<rparr>))"

definition add_handles :: "int list \<Rightarrow> 'os wproc \<Rightarrow> 'os wproc" where
  "add_handles hs s = s\<lparr>handles := hs @ handles s\<rparr>"

definition CloseHandle :: "'os win_proc \<Rightarrow> int \<Rightarrow> 'os wproc \<Rightarrow> 'os wproc" where
  "CloseHandle A h s = (case pcall (CloseHandle_c A h) s of (ok, s) \<Rightarrow> if ok then s\<lparr>handles := remove1 h (handles s)\<rparr> else s)"

section \<open>Creating a process\<close>

definition get_handle :: "(string \<Rightarrow> int) \<Rightarrow> (int \<Rightarrow> int) \<Rightarrow> filedescr option \<Rightarrow> int outcome" where
  "get_handle K maperr opt = (case opt of
       Some fd \<Rightarrow> if fd_kind fd = KIND_SOCKET then Raise (Unix_error (maperr (K ''ERROR_INVALID_HANDLE'')) ''CreateProcess'' Nothing) else Ret (fd_val fd)
     | None \<Rightarrow> Ret INVALID_HANDLE_VALUE)"

text \<open>The results: success, and the two out parameters \<^verbatim>\<open>hStd\<close> and \<^verbatim>\<open>to_close\<close>, which start as a null handle and as an invalid one.\<close>

definition ensure_inheritable :: "'os win_proc \<Rightarrow> (string \<Rightarrow> int) \<Rightarrow> int \<Rightarrow> 'os wproc \<Rightarrow> (bool \<times> int \<times> int) \<times> 'os wproc" where
  "ensure_inheritable A K h s =
     (if h = INVALID_HANDLE_VALUE \<or> h = 0 then ((True, 0, INVALID_HANDLE_VALUE), s)
      else case pcall (GetHandleInformation A h) s of ((ok, flags), s) \<Rightarrow>
        if \<not> ok then ((False, 0, INVALID_HANDLE_VALUE), s)
        else if and flags (K ''HANDLE_FLAG_INHERIT'') = 0 then
          (case pcall (DuplicateHandle A h) s of ((ok, hStd), s) \<Rightarrow>
             if \<not> ok then ((False, 0, INVALID_HANDLE_VALUE), s)
             else ((True, hStd, hStd), add_handles [hStd] s))
        else ((True, h, INVALID_HANDLE_VALUE), s))"

text \<open>
  \<^verbatim>\<open>caml_stat_strdup_to_os\<close> converts a C string to the encoding of Windows, with \<open>to_os\<close>, and ends it with one NUL character: what follows the first NUL character of the argument is
  not copied.
\<close>

definition strdup_to_os :: "(char list \<Rightarrow> char list) \<Rightarrow> char list \<Rightarrow> char list" where
  "strdup_to_os to_os str = to_os (cstring str) @ [NUL]"

definition close_duplicate :: "'os win_proc \<Rightarrow> int \<Rightarrow> 'os wproc \<Rightarrow> 'os wproc" where
  "close_duplicate A h s = (if h \<noteq> INVALID_HANDLE_VALUE then CloseHandle A h s else s)"

text \<open>
  The part after the label \<^verbatim>\<open>ret\<close>: close the duplicates, raise the exception if there was an error, build the result. \<open>win_alloc_handle\<close> of the OCaml runtime makes a descriptor of a
  handle.
\<close>

definition create_process_ret :: "'os win_proc \<Rightarrow> (int \<Rightarrow> int) \<Rightarrow> (int \<Rightarrow> caml_value) \<Rightarrow> int \<Rightarrow> int \<times> int \<times> int \<Rightarrow> proc_info \<Rightarrow> 'os wproc \<Rightarrow> caml_value outcome \<times> 'os wproc" where
  "create_process_ret A maperr win_alloc_handle err to_close pinfo s =
     (let (to_close0, to_close1, to_close2) = to_close;
          (dwProcessId, hProcess, hThread) = pinfo;
          s = close_duplicate A to_close0 s;
          s = close_duplicate A to_close1 s;
          s = close_duplicate A to_close2 s
      in if err \<noteq> 0 then (Raise (Unix_error (maperr err) ''CreateProcess'' Nothing), s)
         else (Ret (Block 0 [Val_int dwProcessId, win_alloc_handle hProcess]), CloseHandle A hThread s))"

definition lwt_process_create_process :: "'os win_proc \<Rightarrow> (string \<Rightarrow> int) \<Rightarrow> (int \<Rightarrow> int) \<Rightarrow> (char list \<Rightarrow> char list) \<Rightarrow> (int \<Rightarrow> caml_value)
    \<Rightarrow> char list option \<Rightarrow> char list \<Rightarrow> char list option \<Rightarrow> char list option \<Rightarrow> filedescr option \<times> filedescr option \<times> filedescr option
    \<Rightarrow> 'os wproc \<Rightarrow> caml_value outcome \<times> 'os wproc" where
  "lwt_process_create_process A K maperr to_os win_alloc_handle prog cmdline env cwd fds s =
     (case get_handle K maperr (fst fds) of Raise e \<Rightarrow> (Raise e, s) | Ret fd0 \<Rightarrow>
      case get_handle K maperr (fst (snd fds)) of Raise e \<Rightarrow> (Raise e, s) | Ret fd1 \<Rightarrow>
      case get_handle K maperr (snd (snd fds)) of Raise e \<Rightarrow> (Raise e, s) | Ret fd2 \<Rightarrow>
      let inv = INVALID_HANDLE_VALUE; zero = (0, 0, 0)
      in case ensure_inheritable A K fd0 s of ((ok, hStdInput, to_close0), s) \<Rightarrow>
      if \<not> ok then create_process_ret A maperr win_alloc_handle (last_error s) (to_close0, inv, inv) zero s
      else case ensure_inheritable A K fd1 s of ((ok, hStdOutput, to_close1), s) \<Rightarrow>
      if \<not> ok then create_process_ret A maperr win_alloc_handle (last_error s) (to_close0, to_close1, inv) zero s
      else case ensure_inheritable A K fd2 s of ((ok, hStdError, to_close2), s) \<Rightarrow>
      if \<not> ok then create_process_ret A maperr win_alloc_handle (last_error s) (to_close0, to_close1, to_close2) zero s
      else case pcall (CreateProcess A (map_option (strdup_to_os to_os) prog) (strdup_to_os to_os cmdline) (K ''CREATE_UNICODE_ENVIRONMENT'')
                 (map_option (strdup_to_os to_os) env) (map_option (strdup_to_os to_os) cwd) (Some (hStdInput, hStdOutput, hStdError))) s of ((ok, pinfo), s) \<Rightarrow>
      if \<not> ok then create_process_ret A maperr win_alloc_handle (last_error s) (to_close0, to_close1, to_close2) zero s
      else create_process_ret A maperr win_alloc_handle 0 (to_close0, to_close1, to_close2) pinfo (add_handles [fst (snd pinfo), snd (snd pinfo)] s))"

section \<open>Waiting for a process\<close>

record job_wait = lwt_unix_job +
  jw_handle :: int

type_synonym wait_x = "unit job_wait_ext"

definition worker_wait :: "'os win_proc \<Rightarrow> nat \<Rightarrow> (wait_x, 'os) cst \<Rightarrow> (wait_x, 'os) cst option" where
  [job_defs]: "worker_wait A p s = do {
     job \<leftarrow> heap s p;
     let (_, e, w) = WaitForSingleObject A (jw_handle job) (c_errno s) (os s);
     Some (s\<lparr>c_errno := e, os := w\<rparr>)
   }"

definition result_wait :: "'os win_proc \<Rightarrow> (int \<Rightarrow> int) \<Rightarrow> nat \<Rightarrow> (wait_x, 'os) cst \<Rightarrow> (caml_value outcome \<times> (wait_x, 'os) cst) option" where
  [job_defs]: "result_wait A maperr p s = do {
     job \<leftarrow> heap s p;
     let ((ok, code), error, w) = GetExitCodeProcess A (jw_handle job) (c_errno s) (os s);
     let (_, e, w) = CloseHandle_c A (jw_handle job) error w;
     s \<leftarrow> free_job p (s\<lparr>c_errno := e, os := w\<rparr>);
     Some (if \<not> ok then Raise (Unix_error (maperr error) ''GetExitCodeProcess'' Nothing) else Ret (Val_int code), s)
   }"

definition lwt_process_wait_job :: "nat \<Rightarrow> job_wait \<Rightarrow> filedescr \<Rightarrow> (wait_x, 'os) cst \<Rightarrow> (caml_value \<times> (wait_x, 'os) cst) option" where
  [job_defs]: "lwt_process_wait_job a u handle s = do {
     s \<leftarrow> LWT_UNIX_INIT_JOB a ''wait'' u s;
     s \<leftarrow> set_job a (\<lambda>j. j\<lparr>jw_handle := fd_val handle\<rparr>) s;
     lwt_unix_alloc_job a s
   }"

definition lwt_process_terminate_process :: "'os win_proc \<Rightarrow> (int \<Rightarrow> int) \<Rightarrow> filedescr \<Rightarrow> int \<Rightarrow> 'os wproc \<Rightarrow> caml_value outcome \<times> 'os wproc" where
  "lwt_process_terminate_process A maperr handle code s =
     (case pcall (TerminateProcess A (fd_val handle) (c_int code)) s of (ok, s) \<Rightarrow>
        if \<not> ok then (Raise (Unix_error (maperr (last_error s)) ''TerminateProcess'' Nothing), s) else (Ret Val_unit, s))"

section \<open>system\<close>

record job_system = lwt_unix_job +
  js_handle :: int

type_synonym system_x = "unit job_system_ext"

definition worker_system :: "'os win_proc \<Rightarrow> nat \<Rightarrow> (system_x, 'os) cst \<Rightarrow> (system_x, 'os) cst option" where
  [job_defs]: "worker_system A p s = do {
     job \<leftarrow> heap s p;
     let (_, e, w) = WaitForSingleObject A (js_handle job) (c_errno s) (os s);
     Some (s\<lparr>c_errno := e, os := w\<rparr>)
   }"

definition result_system :: "'os win_proc \<Rightarrow> (int \<Rightarrow> int) \<Rightarrow> nat \<Rightarrow> (system_x, 'os) cst \<Rightarrow> (caml_value outcome \<times> (system_x, 'os) cst) option" where
  [job_defs]: "result_system A maperr p s = do {
     job \<leftarrow> heap s p;
     let handle = js_handle job;
     s \<leftarrow> free_job p s;
     let ((ok, code), err, w) = GetExitCodeProcess A handle (c_errno s) (os s);
     let (_, e, w) = CloseHandle_c A handle err w;
     Some (if \<not> ok then Raise (Unix_error (maperr err) ''GetExitCodeProcess'' Nothing) else Ret (Val_int code), s\<lparr>c_errno := e, os := w\<rparr>)
   }"

definition lwt_unix_system_job :: "nat \<Rightarrow> job_system \<Rightarrow> 'os win_proc \<Rightarrow> (string \<Rightarrow> int) \<Rightarrow> (int \<Rightarrow> int) \<Rightarrow> (char list \<Rightarrow> char list) \<Rightarrow> char list \<Rightarrow> (system_x, 'os) cst
    \<Rightarrow> (caml_value outcome \<times> (system_x, 'os) cst) option" where
  "lwt_unix_system_job a u A K maperr to_os cmdline s = do {
     let ((ok, _, hProcess, hThread), e, w) =
       CreateProcess A None (strdup_to_os to_os cmdline) (K ''CREATE_UNICODE_ENVIRONMENT'') None None None (c_errno s) (os s);
     if \<not> ok then Some (Raise (Unix_error (maperr e) ''CreateProcess'' Nothing), s\<lparr>c_errno := e, os := w\<rparr>)
     else do {
       s \<leftarrow> LWT_UNIX_INIT_JOB a ''system'' u s;
       let (_, e, w) = CloseHandle_c A hThread e w;
       s \<leftarrow> set_job a (\<lambda>j. j\<lparr>js_handle := hProcess\<rparr>) (s\<lparr>c_errno := e, os := w\<rparr>);
       (v, s) \<leftarrow> lwt_unix_alloc_job a s;
       Some (Ret v, s)
     }
   }"

section \<open>The environment block\<close>

text \<open>The block that \<^verbatim>\<open>win32_spawn\<close> of \<^verbatim>\<open>lwt_process.cppo.ml\<close> builds: every variable with a NUL character, and one more NUL character.\<close>

definition win32_env_block :: "char list list \<Rightarrow> char list" where
  "win32_env_block env = concat (map (\<lambda>v. v @ [NUL]) env) @ [NUL]"

text \<open>
  How \<^verbatim>\<open>CreateProcess\<close> reads a block: strings that end with NUL, up to an empty one. \<open>None\<close>: it reads past the end of the block.
\<close>

function read_env_block :: "char list \<Rightarrow> char list list option" where
  "read_env_block b =
     (if NUL \<notin> set b then None
      else let v = takeWhile (\<lambda>c. c \<noteq> NUL) b
           in if v = [] then Some [] else map_option ((#) v) (read_env_block (drop (Suc (length v)) b)))"
  by pat_completeness auto
termination
proof (relation "measure length")
  fix b :: "char list" and v
  assume "\<not> NUL \<notin> set b" "v = takeWhile (\<lambda>c. c \<noteq> NUL) b" "v \<noteq> []"
  then show "(drop (Suc (length v)) b, b) \<in> measure length" by (cases b) auto
qed simp

declare read_env_block.simps [simp del]

lemma read_env_block_step:
  "NUL \<notin> set v \<Longrightarrow> read_env_block (v @ NUL # b) = (if v = [] then Some [] else map_option ((#) v) (read_env_block b))"
  by (subst read_env_block.simps) (simp add: takeWhile_snoc_nul cstring_id Let_def)

lemma read_env_block_roundtrip: "(\<And>v. v \<in> set env \<Longrightarrow> NUL \<notin> set v \<and> v \<noteq> []) \<Longrightarrow> read_env_block (win32_env_block env) = Some env"
  by (induction env) (simp_all add: win32_env_block_def read_env_block_step [of "[]" "[]", simplified] read_env_block_step)

lemma read_env_block_copied:
  assumes "NUL \<notin> set (to_os (cstring str))" and "to_os (cstring str) \<noteq> []"
  shows "read_env_block (strdup_to_os to_os str) = None"
  using assms read_env_block_step [of "to_os (cstring str)" "[]"] by (simp add: strdup_to_os_def read_env_block.simps [of "[]"])


section \<open>The handles\<close>

text \<open>What the code relies on: a call that fails sets an error, a handle can be closed, and a duplicate is a valid handle.\<close>

definition proc_contract :: "'os win_proc \<Rightarrow> bool" where
  "proc_contract A \<longleftrightarrow>
     (\<forall>h e w. fst (CloseHandle_c A h e w)) \<and>
     (\<forall>h e w. case GetHandleInformation A h e w of ((ok, _), e', _) \<Rightarrow> ok \<or> e' \<noteq> 0) \<and>
     (\<forall>h e w. case DuplicateHandle A h e w of ((ok, d), e', _) \<Rightarrow> if ok then d \<noteq> INVALID_HANDLE_VALUE else e' \<noteq> 0) \<and>
     (\<forall>p c f v d h e w. case CreateProcess A p c f v d h e w of ((ok, _), e', _) \<Rightarrow> ok \<or> e' \<noteq> 0)"

definition valid :: "int \<Rightarrow> int multiset" where
  "valid h = (if h = INVALID_HANDLE_VALUE then {#} else {#h#})"

lemma pcall_handles: "pcall f s = (r, s') \<Longrightarrow> handles s' = handles s"
  by (auto simp: pcall_def split: prod.splits)

lemma close_handles: "proc_contract A \<Longrightarrow> handles (CloseHandle A h s) = remove1 h (handles s)"
proof -
  assume "proc_contract A"
  then have "fst (CloseHandle_c A h (last_error s) (pos s))" by (simp add: proc_contract_def)
  then show ?thesis by (auto simp: CloseHandle_def pcall_def split: prod.splits)
qed

lemma close_duplicate_handles: "proc_contract A \<Longrightarrow> mset (handles (close_duplicate A h s)) = mset (handles s) - valid h"
  by (simp add: close_duplicate_def close_handles valid_def)

lemma ensure_handles:
  assumes c: "proc_contract A" and e: "ensure_inheritable A K h s = ((ok, hStd, tc), s')"
  shows "mset (handles s') = mset (handles s) + valid tc" and "\<not> ok \<Longrightarrow> last_error s' \<noteq> 0"
proof -
  obtain ok1 flags e1 w1 where g: "GetHandleInformation A h (last_error s) (pos s) = ((ok1, flags), e1, w1)" by (metis prod_cases3 surj_pair)
  obtain ok2 d e2 w2 where du: "DuplicateHandle A h e1 w1 = ((ok2, d), e2, w2)" by (metis prod_cases3 surj_pair)
  have k: "ok1 \<or> e1 \<noteq> 0" "if ok2 then d \<noteq> INVALID_HANDLE_VALUE else e2 \<noteq> 0"
    using c [unfolded proc_contract_def] g du by (metis (mono_tags, lifting) case_prod_conv)+
  show "mset (handles s') = mset (handles s) + valid tc" "\<not> ok \<Longrightarrow> last_error s' \<noteq> 0"
    using e g du k by (auto simp: ensure_inheritable_def pcall_def add_handles_def valid_def split: if_splits)
qed

text \<open>The outcome that is wanted: the process handle and nothing else is new, or an exception and nothing is new.\<close>

definition proc_or_none :: "(int \<Rightarrow> caml_value) \<Rightarrow> int multiset \<Rightarrow> caml_value outcome \<times> 'os wproc \<Rightarrow> bool" where
  "proc_or_none alloc base r \<longleftrightarrow> (case r of
       (Ret v, s) \<Rightarrow> \<exists>pid h. v = Block 0 [Val_int pid, alloc h] \<and> mset (handles s) = {#h#} + base
     | (Raise e, s) \<Rightarrow> (\<exists>c. e = Unix_error c ''CreateProcess'' Nothing) \<and> mset (handles s) = base)"

lemma ret_error:
  assumes c: "proc_contract A" and "err \<noteq> 0" and "mset (handles s) = base + valid t0 + valid t1 + valid t2"
  shows "proc_or_none alloc base (create_process_ret A maperr alloc err (t0, t1, t2) pinfo s)"
  using assms(2,3) by (simp add: create_process_ret_def proc_or_none_def Let_def split_beta close_duplicate_handles [OF c])

lemma ret_success:
  assumes c: "proc_contract A" and "mset (handles s) = {#fst (snd pinfo), snd (snd pinfo)#} + base + valid t0 + valid t1 + valid t2"
  shows "proc_or_none alloc base (create_process_ret A maperr alloc 0 (t0, t1, t2) pinfo s)"
proof -
  let ?s = "close_duplicate A t2 (close_duplicate A t1 (close_duplicate A t0 s))"
  have "mset (handles (CloseHandle A (snd (snd pinfo)) ?s)) = {#fst (snd pinfo)#} + base"
    using assms(2) by (simp add: close_handles [OF c] close_duplicate_handles [OF c])
  then show ?thesis by (auto simp: create_process_ret_def proc_or_none_def Let_def split_beta)
qed

lemma create_process_handles:
  assumes c: "proc_contract A"
  shows "proc_or_none alloc (mset (handles s)) (lwt_process_create_process A K maperr to_os alloc prog cmdline env cwd fds s)"
proof -
  have get: "proc_or_none alloc base (case get_handle K maperr x of Raise e \<Rightarrow> (Raise e, s) | Ret fd \<Rightarrow> F fd)"
    if "base = mset (handles s)" "\<And>fd. proc_or_none alloc base (F fd)" for base x F
    using that by (auto simp: get_handle_def proc_or_none_def split: option.splits)
  have ens: "proc_or_none alloc base (case ensure_inheritable A K h s of ((ok, hStd, tc), s') \<Rightarrow> F ok hStd tc s')"
    if "\<And>ok hStd tc s'. mset (handles s') = mset (handles s) + valid tc \<Longrightarrow> \<not> ok \<longrightarrow> last_error s' \<noteq> 0 \<Longrightarrow> proc_or_none alloc base (F ok hStd tc s')" for base h s F
  proof -
    obtain ok hStd tc s' where r: "ensure_inheritable A K h s = ((ok, hStd, tc), s')" by (metis prod_cases3 surj_pair)
    then show ?thesis using that [OF ensure_handles(1) [OF c r]] ensure_handles(2) [OF c r] by simp
  qed
  have create: "proc_or_none alloc base (case pcall (CreateProcess A p l f v d h) s of ((ok, pinfo), s') \<Rightarrow> F ok pinfo s')"
    if "\<And>ok pinfo s'. handles s' = handles s \<Longrightarrow> \<not> ok \<longrightarrow> last_error s' \<noteq> 0 \<Longrightarrow> proc_or_none alloc base (F ok pinfo s')" for base p l f v d h s F
  proof -
    obtain ok pinfo e w where r: "CreateProcess A p l f v d h (last_error s) (pos s) = ((ok, pinfo), e, w)" by (metis prod_cases3 surj_pair)
    then have "\<not> ok \<longrightarrow> e \<noteq> 0" using c [unfolded proc_contract_def] by (metis (mono_tags, lifting) case_prod_conv)
    then show ?thesis using that [of "s\<lparr>last_error := e, pos := w\<rparr>" ok pinfo] r by (simp add: pcall_def)
  qed
  have cond: "(b \<Longrightarrow> proc_or_none alloc base y) \<Longrightarrow> (\<not> b \<Longrightarrow> proc_or_none alloc base z) \<Longrightarrow> proc_or_none alloc base (if b then y else z)" for b base y z by simp
  have inv: "valid INVALID_HANDLE_VALUE = {#}" by (simp add: valid_def)
  show ?thesis unfolding lwt_process_create_process_def Let_def
    by (intro get ens create cond ret_error [OF c] ret_success [OF c]) (simp_all add: inv add_handles_def)
qed


section \<open>Properties\<close>

text \<open>Calls that succeed, for the examples: no handle is inheritable, a duplicate is a new handle, and the world has the environment block of the last process.\<close>

definition demo_proc :: "(nat \<times> char list option) win_proc" where
  "demo_proc = \<lparr>GetHandleInformation = (\<lambda>_ e w. ((True, 0), e, w)), DuplicateHandle = (\<lambda>_ e (n, v). ((True, int n), e, n + 1, v)), CloseHandle_c = (\<lambda>_ e w. (True, e, w)),
     CreateProcess = (\<lambda>_ _ _ v _ _ e (n, _). ((True, 77, int n, int n + 1), e, n + 2, v)), WaitForSingleObject = (\<lambda>_ e w. ((), e, w)),
     GetExitCodeProcess = (\<lambda>_ e w. ((True, 3), e, w)), TerminateProcess = (\<lambda>_ _ e w. (True, e, w))\<rparr>"

lemma demo_proc_contract: "proc_contract demo_proc"
  by (simp add: proc_contract_def demo_proc_def)

text \<open>
  C35. Starting a process on Windows leaks no handle: whether a standard handle cannot be duplicated, the process cannot be created, or all goes well, the duplicates that were made
  for the child are closed; on success exactly the handle of the process that is returned to OCaml is new (the handle of its thread is closed), on failure nothing is new and the
  exception is a \<^verbatim>\<open>Unix_error\<close> of \<^verbatim>\<open>CreateProcess\<close>.
\<close>

theorem win_create_process_handles:
  assumes "proc_contract A"
  shows "case lwt_process_create_process A K maperr to_os win_alloc_handle prog cmdline env cwd fds s of
      (Ret v, s') \<Rightarrow> \<exists>pid h. v = Block 0 [Val_int pid, win_alloc_handle h] \<and> mset (handles s') = {#h#} + mset (handles s)
    | (Raise e, s') \<Rightarrow> (\<exists>c. e = Unix_error c ''CreateProcess'' Nothing) \<and> mset (handles s') = mset (handles s)"
  using create_process_handles [OF assms] unfolding proc_or_none_def .

theorem win_create_process_handles_witness:
  "lwt_process_create_process demo_proc (\<lambda>_. 1) (\<lambda>e. e) (\<lambda>x. x) Imm None ''ls'' None None (Some \<lparr>fd_kind = KIND_HANDLE, fd_val = 5\<rparr>, None, None)
      \<lparr>last_error = 0, handles = [5], pos = (10, None)\<rparr> = (Ret (Block 0 [Val_int 77, Imm 11]), \<lparr>last_error = 0, handles = [11, 5], pos = (13, None)\<rparr>) \<and>
   (\<exists>pid h. Block 0 [Val_int 77, Imm 11] = Block 0 [Val_int pid, Imm h] \<and> mset [11, 5] = {#h#} + mset [5])"
proof -
  let ?s = "\<lparr>last_error = 0, handles = [5], pos = (10, None)\<rparr> :: (nat \<times> char list option) wproc"
  have r: "lwt_process_create_process demo_proc (\<lambda>_. 1) (\<lambda>e. e) (\<lambda>x. x) Imm None ''ls'' None None (Some \<lparr>fd_kind = KIND_HANDLE, fd_val = 5\<rparr>, None, None) ?s =
      (Ret (Block 0 [Val_int 77, Imm 11]), \<lparr>last_error = 0, handles = [11, 5], pos = (13, None)\<rparr>)"
    by (simp add: lwt_process_create_process_def get_handle_def ensure_inheritable_def create_process_ret_def close_duplicate_def CloseHandle_def pcall_def add_handles_def
        demo_proc_def)
  show ?thesis using win_create_process_handles [OF demo_proc_contract, where K = "\<lambda>_. 1" and maperr = "\<lambda>e. e" and to_os = "\<lambda>x. x" and win_alloc_handle = Imm and prog = None
        and cmdline = "''ls''" and env = None and cwd = None and fds = "(Some \<lparr>fd_kind = KIND_HANDLE, fd_val = 5\<rparr>, None, None)" and s = ?s] r by simp
qed

text \<open>
  C38. The environment given to a process on Windows is lost: the block that OCaml builds for the variables \<open>v # vs\<close> is copied like a C string, up to its first NUL character. The call
  of \<^verbatim>\<open>CreateProcess\<close> is the same as for a block that holds \<open>v\<close> alone, and what it gets does not end with an empty string: to find the end of the block it has to read past the
  allocated memory. Read as it was built, the block gives back all the variables.
\<close>

theorem win_env_block_lost:
  assumes "\<And>x. x \<in> set (v # vs) \<Longrightarrow> NUL \<notin> set x \<and> x \<noteq> []" and "NUL \<notin> set (to_os v)" and "to_os v \<noteq> []"
  shows "lwt_process_create_process A K maperr to_os alloc prog cmdline (Some (win32_env_block (v # vs))) cwd fds s =
       lwt_process_create_process A K maperr to_os alloc prog cmdline (Some v) cwd fds s \<and>
     read_env_block (strdup_to_os to_os (win32_env_block (v # vs))) = None \<and>
     read_env_block (win32_env_block (v # vs)) = Some (v # vs)"
proof -
  have "NUL \<notin> set v" using assms(1) [of v] by simp
  then have c: "cstring (win32_env_block (v # vs)) = v"
    using takeWhile_snoc_nul [of v] by (simp add: win32_env_block_def cstring_id) (simp add: cstring_def)
  then have d: "strdup_to_os to_os (win32_env_block (v # vs)) = strdup_to_os to_os v"
    using \<open>NUL \<notin> set v\<close> by (simp add: strdup_to_os_def cstring_id)
  have "lwt_process_create_process A K maperr to_os alloc prog cmdline (Some (win32_env_block (v # vs))) cwd fds s =
      lwt_process_create_process A K maperr to_os alloc prog cmdline (Some v) cwd fds s" unfolding lwt_process_create_process_def option.map d ..
  moreover have "read_env_block (strdup_to_os to_os (win32_env_block (v # vs))) = None"
    by (rule read_env_block_copied) (use assms(2,3) c in simp_all)
  moreover have "read_env_block (win32_env_block (v # vs)) = Some (v # vs)" by (rule read_env_block_roundtrip) (use assms(1) in blast)
  ultimately show ?thesis by blast
qed

theorem win_env_block_lost_witness:
  "snd (lwt_process_create_process demo_proc (\<lambda>_. 1) (\<lambda>e. e) (\<lambda>x. x) Imm None ''ls'' (Some (win32_env_block [''A=1'', ''B=2''])) None (None, None, None)
      \<lparr>last_error = 0, handles = [], pos = (10, None)\<rparr>) = \<lparr>last_error = 0, handles = [10], pos = (12, Some (''A=1'' @ [NUL]))\<rparr> \<and>
   read_env_block (win32_env_block [''A=1'', ''B=2'']) = Some [''A=1'', ''B=2'']"
proof -
  have n: "NUL \<notin> set ''A=1''" "NUL \<notin> set ''B=2''" by (simp_all add: NUL_def)
  then have h: "x \<in> set [''A=1'', ''B=2''] \<Longrightarrow> NUL \<notin> set x \<and> x \<noteq> []" for x by auto
  note t = win_env_block_lost [of "''A=1''" "[''B=2'']" "\<lambda>x. x" demo_proc "\<lambda>_. 1" "\<lambda>e. e" Imm None "''ls''" None "(None, None, None)" "\<lparr>last_error = 0, handles = [], pos = (10, None)\<rparr>", OF h n(1)]
  have "cstring ''A=1'' = ''A=1''" "cstring ''ls'' = ''ls''" by (simp_all add: cstring_def NUL_def)
  then have "snd (lwt_process_create_process demo_proc (\<lambda>_. 1) (\<lambda>e. e) (\<lambda>x. x) Imm None ''ls'' (Some ''A=1'') None (None, None, None)
      \<lparr>last_error = 0, handles = [], pos = (10, None)\<rparr>) = \<lparr>last_error = 0, handles = [10], pos = (12, Some (''A=1'' @ [NUL]))\<rparr>"
    by (simp add: lwt_process_create_process_def get_handle_def ensure_inheritable_def create_process_ret_def close_duplicate_def CloseHandle_def pcall_def add_handles_def
        demo_proc_def strdup_to_os_def)
  then show ?thesis using t by simp
qed

text \<open>Waiting for a process: its exit code, or the error of the failed query (not that of closing the handle); the handle is closed once and the memory is freed in both cases.\<close>

lemma wait_job_correct:
  assumes "heap s a = None" and "WaitForSingleObject A (fd_val h) (c_errno s) (os s) = (x, e1, w1)"
    and "GetExitCodeProcess A (fd_val h) e w1 = ((ok, code), e2, w2)" and "CloseHandle_c A (fd_val h) e2 w2 = (y, e3, w3)"
  shows "job_run am e (lwt_process_wait_job a u h) [''worker_wait'' \<mapsto> worker_wait A] [''result_wait'' \<mapsto> result_wait A maperr] s =
    Some (if ok then Ret (Val_int code) else Raise (Unix_error (maperr e2) ''GetExitCodeProcess'' Nothing), s\<lparr>c_errno := e3, os := w3\<rparr>)"
  using assms by (cases s) (auto simp: win_io_defs job_defs fun_upd_idem)

lemma system_job_correct:
  assumes "heap s a = None" and "CreateProcess A None (strdup_to_os to_os cmd) (K ''CREATE_UNICODE_ENVIRONMENT'') None None None (c_errno s) (os s) = ((True, pid, hp, ht), e0, w0)"
    and "CloseHandle_c A ht e0 w0 = (z, e1, w1)" and "WaitForSingleObject A hp e1 w1 = (x, e2, w2)"
    and "GetExitCodeProcess A hp e w2 = ((ok, code), e3, w3)" and "CloseHandle_c A hp e3 w3 = (y, e4, w4)"
  shows "job_run am e (\<lambda>s. returned (lwt_unix_system_job a u A K maperr to_os cmd s)) [''worker_system'' \<mapsto> worker_system A] [''result_system'' \<mapsto> result_system A maperr] s =
    Some (if ok then Ret (Val_int code) else Raise (Unix_error (maperr e3) ''GetExitCodeProcess'' Nothing), s\<lparr>c_errno := e4, os := w4\<rparr>)"
  using assms by (cases s) (auto simp: win_io_defs job_defs fun_upd_idem lwt_unix_system_job_def)

end
