(* ===== verification/Availability.thy ===== *)
theory Availability
  imports Runtime
begin

text \<open>
  Functions that a platform does not have: the macros \<^verbatim>\<open>LWT_NOT_AVAILABLE\<close>\<open>n\<close> of \<^verbatim>\<open>lwt_unix.h\<close> and the tables made with them (\<^verbatim>\<open>windows_not_available.c\<close>, \<^verbatim>\<open>unix_not_available.c\<close>, the end of
  \<^verbatim>\<open>lwt_libev_stubs.c\<close>), and four small functions: \<^verbatim>\<open>unix_iov_max.c\<close>, \<^verbatim>\<open>unix_somaxconn.c\<close>, \<^verbatim>\<open>unix_valid_dir.c\<close>, \<^verbatim>\<open>unix_invalidate_dir.c\<close>.

  A stub has a name and a number of parameters. OCaml calls it with the number of arguments of its \<^verbatim>\<open>external\<close> declaration; a C function called with another number of arguments than it
  has is undefined behaviour. The functions for the bytecode interpreter (\<^verbatim>\<open>_byte\<close>) get an array and its size.
\<close>

section \<open>The macros\<close>

record stub =
  stub_name :: string
  stub_params :: nat
  stub_body :: "caml_value outcome"

definition LWT_NOT_AVAILABLE :: "nat \<Rightarrow> string \<Rightarrow> stub" where
  "LWT_NOT_AVAILABLE n prim = \<lparr>stub_name = ''lwt_'' @ prim, stub_params = n, stub_body = lwt_unix_not_available prim\<rparr>"

text \<open>The function for bytecode has two parameters: the array of the arguments and their number.\<close>

definition LWT_NOT_AVAILABLE_BYTE :: "string \<Rightarrow> stub" where
  "LWT_NOT_AVAILABLE_BYTE prim = \<lparr>stub_name = ''lwt_'' @ prim, stub_params = 2, stub_body = lwt_unix_not_available prim\<rparr>"

definition call_stub :: "stub list \<Rightarrow> string \<Rightarrow> caml_value list \<Rightarrow> caml_value outcome option" where
  "call_stub stubs f args = (case find (\<lambda>st. stub_name st = f) stubs of
       None \<Rightarrow> None
     | Some st \<Rightarrow> if length args = stub_params st then Some (stub_body st) else None)"

section \<open>The tables\<close>

definition windows_not_available :: "stub list" where
  "windows_not_available =
     [
      LWT_NOT_AVAILABLE 1 ''unix_readable'', LWT_NOT_AVAILABLE 1 ''unix_writable'', LWT_NOT_AVAILABLE 6 ''unix_madvise'',
      LWT_NOT_AVAILABLE 4 ''unix_mincore'', LWT_NOT_AVAILABLE 1 ''unix_iov_max'', LWT_NOT_AVAILABLE 3 ''unix_writev'',
      LWT_NOT_AVAILABLE 3 ''unix_writev_job'', LWT_NOT_AVAILABLE 3 ''unix_readv'', LWT_NOT_AVAILABLE 3 ''unix_readv_job'',
      LWT_NOT_AVAILABLE 5 ''unix_recv'', LWT_NOT_AVAILABLE 5 ''unix_send'', LWT_NOT_AVAILABLE 5 ''unix_bytes_recv'',
      LWT_NOT_AVAILABLE 5 ''unix_bytes_send'', LWT_NOT_AVAILABLE 5 ''unix_recvfrom'', LWT_NOT_AVAILABLE 5 ''unix_bytes_recvfrom'',
      LWT_NOT_AVAILABLE 6 ''unix_sendto'', LWT_NOT_AVAILABLE_BYTE ''unix_sendto_byte'', LWT_NOT_AVAILABLE 6 ''unix_bytes_sendto'',
      LWT_NOT_AVAILABLE_BYTE ''unix_bytes_sendto_byte'', LWT_NOT_AVAILABLE 3 ''unix_recv_msg'', LWT_NOT_AVAILABLE 6 ''unix_send_msg'',
      LWT_NOT_AVAILABLE 1 ''unix_get_credentials'', LWT_NOT_AVAILABLE 2 ''unix_mcast_set_loop'', LWT_NOT_AVAILABLE 2 ''unix_mcast_set_ttl'',
      LWT_NOT_AVAILABLE 4 ''unix_mcast_modify_membership'', LWT_NOT_AVAILABLE 4 ''unix_wait4'', LWT_NOT_AVAILABLE 1 ''unix_get_cpu'',
      LWT_NOT_AVAILABLE 1 ''unix_get_affinity'', LWT_NOT_AVAILABLE 2 ''unix_set_affinity'', LWT_NOT_AVAILABLE 1 ''unix_guess_blocking_job'',
      LWT_NOT_AVAILABLE 2 ''unix_wait_mincore_job'', LWT_NOT_AVAILABLE 1 ''unix_open_job'', LWT_NOT_AVAILABLE 1 ''unix_stat_job'',
      LWT_NOT_AVAILABLE 1 ''unix_stat_64_job'', LWT_NOT_AVAILABLE 1 ''unix_lstat_job'', LWT_NOT_AVAILABLE 1 ''unix_lstat_64_job'',
      LWT_NOT_AVAILABLE 1 ''unix_fstat_job'', LWT_NOT_AVAILABLE 1 ''unix_fstat_64_job'', LWT_NOT_AVAILABLE 3 ''unix_utimes_job'',
      LWT_NOT_AVAILABLE 1 ''unix_isatty_job'', LWT_NOT_AVAILABLE 1 ''unix_opendir_job'', LWT_NOT_AVAILABLE 1 ''unix_closedir_job'',
      LWT_NOT_AVAILABLE 1 ''unix_valid_dir'', LWT_NOT_AVAILABLE 1 ''unix_invalidate_dir'', LWT_NOT_AVAILABLE 1 ''unix_rewinddir_job'',
      LWT_NOT_AVAILABLE 1 ''unix_readdir_job'', LWT_NOT_AVAILABLE 2 ''unix_readdir_n_job'', LWT_NOT_AVAILABLE 1 ''unix_readlink_job'',
      LWT_NOT_AVAILABLE 3 ''unix_lockf_job'', LWT_NOT_AVAILABLE 1 ''unix_getlogin_job'', LWT_NOT_AVAILABLE 1 ''unix_getpwnam_job'',
      LWT_NOT_AVAILABLE 1 ''unix_getgrnam_job'', LWT_NOT_AVAILABLE 1 ''unix_getpwuid_job'', LWT_NOT_AVAILABLE 1 ''unix_getgrgid_job'',
      LWT_NOT_AVAILABLE 1 ''unix_gethostname_job'', LWT_NOT_AVAILABLE 1 ''unix_gethostbyname_job'', LWT_NOT_AVAILABLE 1 ''unix_gethostbyaddr_job'',
      LWT_NOT_AVAILABLE 1 ''unix_getprotobyname_job'', LWT_NOT_AVAILABLE 1 ''unix_getprotobynumber_job'', LWT_NOT_AVAILABLE 2 ''unix_getservbyname_job'',
      LWT_NOT_AVAILABLE 2 ''unix_getservbyport_job'', LWT_NOT_AVAILABLE 3 ''unix_getaddrinfo_job'', LWT_NOT_AVAILABLE 2 ''unix_getnameinfo_job'',
      LWT_NOT_AVAILABLE 2 ''unix_bind_job'', LWT_NOT_AVAILABLE 1 ''unix_getcwd_job'', LWT_NOT_AVAILABLE 1 ''unix_tcgetattr_job'',
      LWT_NOT_AVAILABLE 3 ''unix_tcsetattr_job'', LWT_NOT_AVAILABLE_BYTE ''unix_send_msg_byte''
     ]"

definition unix_not_available :: "stub list" where
  "unix_not_available =
     [
      LWT_NOT_AVAILABLE 1 ''unix_is_socket'', LWT_NOT_AVAILABLE 1 ''unix_system_job'', LWT_NOT_AVAILABLE 1 ''unix_socketpair_stub'',
      LWT_NOT_AVAILABLE 4 ''process_create_process'', LWT_NOT_AVAILABLE 1 ''process_wait_job'', LWT_NOT_AVAILABLE 2 ''process_terminate_process''
     ]"

definition libev_not_available :: "stub list" where
  "libev_not_available =
     [
      LWT_NOT_AVAILABLE 1 ''libev_backend'', LWT_NOT_AVAILABLE 1 ''libev_init'', LWT_NOT_AVAILABLE 1 ''libev_stop'',
      LWT_NOT_AVAILABLE 2 ''libev_loop'', LWT_NOT_AVAILABLE 1 ''libev_unloop'', LWT_NOT_AVAILABLE 3 ''libev_readable_init'',
      LWT_NOT_AVAILABLE 3 ''libev_writable_init'', LWT_NOT_AVAILABLE 2 ''libev_io_stop'', LWT_NOT_AVAILABLE 4 ''libev_timer_init'',
      LWT_NOT_AVAILABLE 2 ''libev_timer_stop''
     ]"

text \<open>The arguments that the \<^verbatim>\<open>external\<close> declarations of \<^verbatim>\<open>lwt_unix.cppo.ml\<close>, \<^verbatim>\<open>lwt_bytes.ml\<close>, \<^verbatim>\<open>lwt_process.cppo.ml\<close> and \<^verbatim>\<open>lwt_engine.ml\<close> give these functions (native code).\<close>

definition windows_externals :: "(string \<times> nat) list" where
  "windows_externals =
     [
      (''lwt_unix_readable'', 1), (''lwt_unix_writable'', 1), (''lwt_unix_madvise'', 4),
      (''lwt_unix_mincore'', 4), (''lwt_unix_iov_max'', 1), (''lwt_unix_writev'', 3),
      (''lwt_unix_writev_job'', 3), (''lwt_unix_readv'', 3), (''lwt_unix_readv_job'', 3),
      (''lwt_unix_recv'', 5), (''lwt_unix_send'', 5), (''lwt_unix_bytes_recv'', 5),
      (''lwt_unix_bytes_send'', 5), (''lwt_unix_recvfrom'', 5), (''lwt_unix_bytes_recvfrom'', 5),
      (''lwt_unix_sendto'', 6), (''lwt_unix_bytes_sendto'', 6), (''lwt_unix_recv_msg'', 3),
      (''lwt_unix_send_msg'', 6), (''lwt_unix_get_credentials'', 1), (''lwt_unix_mcast_set_loop'', 2),
      (''lwt_unix_mcast_set_ttl'', 2), (''lwt_unix_mcast_modify_membership'', 4), (''lwt_unix_wait4'', 2),
      (''lwt_unix_get_cpu'', 1), (''lwt_unix_get_affinity'', 1), (''lwt_unix_set_affinity'', 2),
      (''lwt_unix_guess_blocking_job'', 1), (''lwt_unix_wait_mincore_job'', 2), (''lwt_unix_open_job'', 3),
      (''lwt_unix_stat_job'', 1), (''lwt_unix_stat_64_job'', 1), (''lwt_unix_lstat_job'', 1),
      (''lwt_unix_lstat_64_job'', 1), (''lwt_unix_fstat_job'', 1), (''lwt_unix_fstat_64_job'', 1),
      (''lwt_unix_utimes_job'', 3), (''lwt_unix_isatty_job'', 1), (''lwt_unix_opendir_job'', 1),
      (''lwt_unix_closedir_job'', 1), (''lwt_unix_valid_dir'', 1), (''lwt_unix_invalidate_dir'', 1),
      (''lwt_unix_rewinddir_job'', 1), (''lwt_unix_readdir_job'', 1), (''lwt_unix_readdir_n_job'', 2),
      (''lwt_unix_readlink_job'', 1), (''lwt_unix_lockf_job'', 3), (''lwt_unix_getlogin_job'', 1),
      (''lwt_unix_getpwnam_job'', 1), (''lwt_unix_getgrnam_job'', 1), (''lwt_unix_getpwuid_job'', 1),
      (''lwt_unix_getgrgid_job'', 1), (''lwt_unix_gethostname_job'', 1), (''lwt_unix_gethostbyname_job'', 1),
      (''lwt_unix_gethostbyaddr_job'', 1), (''lwt_unix_getprotobyname_job'', 1), (''lwt_unix_getprotobynumber_job'', 1),
      (''lwt_unix_getservbyname_job'', 2), (''lwt_unix_getservbyport_job'', 2), (''lwt_unix_getaddrinfo_job'', 3),
      (''lwt_unix_getnameinfo_job'', 2), (''lwt_unix_bind_job'', 2), (''lwt_unix_getcwd_job'', 1),
      (''lwt_unix_tcgetattr_job'', 1), (''lwt_unix_tcsetattr_job'', 3)
     ]"

definition unix_externals :: "(string \<times> nat) list" where
  "unix_externals =
     [
      (''lwt_unix_is_socket'', 1), (''lwt_unix_system_job'', 1), (''lwt_unix_socketpair_stub'', 4),
      (''lwt_process_create_process'', 5), (''lwt_process_wait_job'', 1), (''lwt_process_terminate_process'', 2)
     ]"

definition libev_externals :: "(string \<times> nat) list" where
  "libev_externals =
     [
      (''lwt_libev_backend'', 1), (''lwt_libev_init'', 1), (''lwt_libev_stop'', 1),
      (''lwt_libev_loop'', 2), (''lwt_libev_unloop'', 1), (''lwt_libev_readable_init'', 3),
      (''lwt_libev_writable_init'', 3), (''lwt_libev_io_stop'', 2), (''lwt_libev_timer_init'', 4),
      (''lwt_libev_timer_stop'', 2)
     ]"

section \<open>Small functions\<close>

text \<open>\<open>IOV_MAX\<close>: the constant, if the platform defines it. The result is an OCaml option.\<close>

definition lwt_unix_iov_max :: "int option \<Rightarrow> caml_value" where
  "lwt_unix_iov_max IOV_MAX = (case IOV_MAX of Some n \<Rightarrow> Block 0 [Val_int n] | None \<Rightarrow> Val_int 0)"

definition lwt_unix_somaxconn :: "(string \<Rightarrow> int) \<Rightarrow> caml_value" where
  "lwt_unix_somaxconn K = Val_int (K ''SOMAXCONN'')"

text \<open>A directory handle is a block with a pointer; the second function overwrites it.\<close>

fun lwt_unix_valid_dir :: "caml_value \<Rightarrow> caml_value option" where
  "lwt_unix_valid_dir (Caml_ptr d) = Some (Val_int (if d = None then 0 else 1))"
| "lwt_unix_valid_dir _ = None"

fun lwt_unix_invalidate_dir :: "caml_value \<Rightarrow> (caml_value \<times> caml_value) option" where
  "lwt_unix_invalidate_dir (Caml_ptr d) = Some (Val_unit, Caml_ptr None)"
| "lwt_unix_invalidate_dir _ = None"

lemma invalidated_dir_invalid: "lwt_unix_invalidate_dir v = Some (u, v') \<Longrightarrow> lwt_unix_valid_dir v' = Some (Val_int 0)"
  by (cases v) auto

section \<open>Calls of functions that are not available\<close>

text \<open>The builds: the functions that OCaml declares and the stubs that stand for them.\<close>

definition builds :: "((string \<times> nat) list \<times> stub list) list" where
  "builds = [(windows_externals, windows_not_available), (unix_externals, unix_not_available), (libev_externals, libev_not_available)]"

text \<open>The functions whose number of parameters differs from the number of arguments of the declaration.\<close>

definition wrong_arity :: "string list" where
  "wrong_arity = [''lwt_unix_madvise'', ''lwt_unix_wait4'', ''lwt_unix_open_job'', ''lwt_unix_socketpair_stub'', ''lwt_process_create_process'']"

text \<open>What a call gives depends on the number of its arguments only.\<close>

definition call_arity :: "stub list \<Rightarrow> string \<Rightarrow> nat \<Rightarrow> caml_value outcome option" where
  "call_arity stubs f n = (case find (\<lambda>st. stub_name st = f) stubs of
       None \<Rightarrow> None
     | Some st \<Rightarrow> if n = stub_params st then Some (stub_body st) else None)"

lemma call_stub_arity: "call_stub stubs f args = call_arity stubs f (length args)"
  by (simp add: call_stub_def call_arity_def)

lemma all_calls:
  "list_all (\<lambda>(f, n). call_arity windows_not_available f n = (if f \<in> set wrong_arity then None else Some (Raise (Not_available (drop 4 f))))) windows_externals"
  "list_all (\<lambda>(f, n). call_arity unix_not_available f n = (if f \<in> set wrong_arity then None else Some (Raise (Not_available (drop 4 f))))) unix_externals"
  "list_all (\<lambda>(f, n). call_arity libev_not_available f n = (if f \<in> set wrong_arity then None else Some (Raise (Not_available (drop 4 f))))) libev_externals"
  subgoal by code_simp
  subgoal by code_simp
  subgoal by code_simp
  done

text \<open>
  A function of the library that the platform does not have raises \<^verbatim>\<open>Lwt_unix.Not_available\<close> with the name of the function when OCaml calls it, for each of the 83 functions declared
  with the macros, except for five, \<^verbatim>\<open>madvise\<close>, \<^verbatim>\<open>wait4\<close> and \<^verbatim>\<open>open_job\<close> on Windows, \<^verbatim>\<open>socketpair_stub\<close> and \<^verbatim>\<open>create_process\<close> elsewhere: these are defined with another number of parameters than
  OCaml passes arguments, so that the call is undefined in C.
\<close>

theorem unavailable_functions_raise:
  assumes "(exts, stubs) \<in> set builds" and "(f, n) \<in> set exts" and "length args = n"
  shows "call_stub stubs f args = (if f \<in> set wrong_arity then None else Some (Raise (Not_available (drop 4 f))))"
  using all_calls assms by (auto simp: builds_def list_all_iff call_stub_arity)

theorem unavailable_functions_raise_witness:
  "call_stub windows_not_available ''lwt_unix_readable'' [Imm 3] = Some (Raise (Not_available ''unix_readable'')) \<and>
   call_stub windows_not_available ''lwt_unix_open_job'' [Imm 0, Imm 0, Imm 0] = None"
proof
  have m: "(''lwt_unix_readable'', 1) \<in> set windows_externals" "(''lwt_unix_open_job'', 3) \<in> set windows_externals"
    by (simp_all add: windows_externals_def)
  have b: "(windows_externals, windows_not_available) \<in> set builds" by (simp add: builds_def)
  show "call_stub windows_not_available ''lwt_unix_readable'' [Imm 3] = Some (Raise (Not_available ''unix_readable''))"
    using unavailable_functions_raise [OF b m(1), of "[Imm 3]"] by (simp add: wrong_arity_def)
  show "call_stub windows_not_available ''lwt_unix_open_job'' [Imm 0, Imm 0, Imm 0] = None"
    using unavailable_functions_raise [OF b m(2), of "[Imm 0, Imm 0, Imm 0]"] by (simp add: wrong_arity_def)
qed

end
