(* ===== verification/Typing.thy ===== *)
theory Typing
  imports Stat_Jobs Host_Jobs User_Jobs Addr_Jobs Sys_Info
begin

text \<open>
  The types of the OCaml values that the C code builds with \<^verbatim>\<open>caml_alloc\<close> and \<^verbatim>\<open>Store_field\<close>. OCaml trusts the shape of a value that a stub returns: a field of the wrong kind, a missing field or a
  constructor out of range would corrupt the program. The types are those of the OCaml module \<^verbatim>\<open>Unix\<close>.
\<close>

section \<open>Types of Unix\<close>

definition host_entry_type :: caml_type where
  "host_entry_type = Record_t [String_t, Array_t String_t, Enum_t 3, Array_t String_t]"

definition protocol_entry_type :: caml_type where
  "protocol_entry_type = Record_t [String_t, Array_t String_t, Int_t]"

definition service_entry_type :: caml_type where
  "service_entry_type = Record_t [String_t, Array_t String_t, Int_t, String_t]"

definition passwd_entry_type :: caml_type where
  "passwd_entry_type = Record_t [String_t, String_t, Int_t, Int_t, String_t, String_t, String_t]"

definition group_entry_type :: caml_type where
  "group_entry_type = Record_t [String_t, String_t, Int_t, Array_t String_t]"

text \<open>\<^verbatim>\<open>WEXITED of int | WSIGNALED of int | WSTOPPED of int\<close>\<close>

definition process_status_type :: caml_type where
  "process_status_type = Sum_t 0 [[Int_t], [Int_t], [Int_t]]"

lemmas unix_types = host_entry_type_def protocol_entry_type_def service_entry_type_def passwd_entry_type_def group_entry_type_def process_status_type_def

section \<open>Lemmas\<close>

lemma copy_c_string_typed: "copy_c_string c a = Some v \<Longrightarrow> has_type String_t v"
  by (auto simp: copy_c_string_def)

lemma map_opt_all: "map_opt f xs = Some ys \<Longrightarrow> (\<And>x y. f x = Some y \<Longrightarrow> P y) \<Longrightarrow> \<forall>y\<in>set ys. P y"
  by (induction xs arbitrary: ys) (auto simp: bind_Some_iff)

lemma alloc_array_typed:
  assumes "caml_alloc_array f c a = Some v" and "\<And>x y. f x = Some y \<Longrightarrow> has_type t y"
  shows "has_type (Array_t t) v"
proof -
  obtain qs vs where "map_opt (\<lambda>q. Option.bind q f) qs = Some vs" and v: "v = Block 0 vs"
    using assms(1) by (auto simp: caml_alloc_array_def bind_Some_iff)
  then have "\<forall>y\<in>set vs. has_type t y" using assms(2) by (elim map_opt_all) (auto simp: bind_Some_iff)
  then show ?thesis using v by simp
qed

lemma string_array_typed: "caml_copy_string_array c a = Some v \<Longrightarrow> has_type (Array_t String_t) v"
  unfolding caml_copy_string_array_def by (erule alloc_array_typed) (rule copy_c_string_typed)

lemma addr_array_typed:
  "caml_alloc_array (alloc_one_addr c) c a = Some v \<Longrightarrow> has_type (Array_t String_t) v"
  "caml_alloc_array (alloc_one_addr6 c) c a = Some v \<Longrightarrow> has_type (Array_t String_t) v"
  subgoal by (erule alloc_array_typed) (auto simp: alloc_one_addr_def bind_Some_iff)
  subgoal by (erule alloc_array_typed) (auto simp: alloc_one_addr6_def bind_Some_iff)
  done

text \<open>Records: one type per field.\<close>

lemma has_type_record: "has_type (Record_t ts) (Block 0 vs) \<longleftrightarrow> list_all2 has_type ts vs"
  by (simp add: list_all2_map1)

lemmas record_typed = has_type_record copy_c_string_typed string_array_typed addr_array_typed

lemma small_int: "has_type (Enum_t 3) (Val_int 0)" "has_type (Enum_t 3) (Val_int 1)" "has_type (Enum_t 3) (Val_int 2)"
  by (simp_all add: Val_int_def caml_int_id)

lemma host_entry_typed:
  assumes "alloc_host_entry K c h = Some v"
  shows "has_type host_entry_type v"
proof -
  obtain a name aliases l addrs k where v: "copy_c_string c a = Some name"
    "(case h_aliases h of Some a \<Rightarrow> caml_copy_string_array c a | None \<Rightarrow> Some (Block 0 [])) = Some aliases"
    "(if h_length h = 16 then caml_alloc_array (alloc_one_addr6 c) c l else caml_alloc_array (alloc_one_addr c) c l) = Some addrs"
    "v = Block 0 [name, aliases, k, addrs]"
    and k: "k = (if h_addrtype h = K ''PF_UNIX'' then Val_int 0 else if h_addrtype h = K ''PF_INET'' then Val_int 1 else Val_int 2)"
    using assms unfolding alloc_host_entry_def bind_Some_iff by blast
  have "has_type (Array_t String_t) aliases" using v(2) string_array_typed by (cases "h_aliases h") auto
  moreover have "has_type (Array_t String_t) addrs" using v(3) addr_array_typed by (meson)
  moreover have "has_type (Enum_t 3) k" unfolding k using small_int by simp
  ultimately show ?thesis using copy_c_string_typed [OF v(1)] v(4) unfolding host_entry_type_def by (simp only: has_type_record list_all2_Cons list_all2_Nil simp_thms)
qed

lemma protoent_typed: "alloc_protoent c e = Some v \<Longrightarrow> has_type protocol_entry_type v"
  unfolding alloc_protoent_def protocol_entry_type_def bind_Some_iff
  by (clarsimp simp del: has_type.simps simp: has_type_record) (simp add: copy_c_string_typed string_array_typed del: has_type.simps)

lemma servent_typed: "alloc_servent c e = Some v \<Longrightarrow> has_type service_entry_type v"
  unfolding alloc_servent_def service_entry_type_def bind_Some_iff
  by (clarsimp simp del: has_type.simps simp: has_type_record) (simp add: copy_c_string_typed string_array_typed del: has_type.simps)

lemma passwd_typed: "alloc_passwd_entry c e = Some v \<Longrightarrow> has_type passwd_entry_type v"
  unfolding alloc_passwd_entry_def passwd_entry_type_def bind_Some_iff
  by (clarsimp simp del: has_type.simps simp: has_type_record) (simp add: copy_c_string_typed string_array_typed del: has_type.simps)

lemma group_typed: "alloc_group_entry c e = Some v \<Longrightarrow> has_type group_entry_type v"
  unfolding alloc_group_entry_def group_entry_type_def bind_Some_iff
  by (clarsimp simp del: has_type.simps simp: has_type_record) (simp add: copy_c_string_typed string_array_typed del: has_type.simps)

lemma process_status_typed: "has_type process_status_type (alloc_process_status W conv status)"
proof -
  have "has_type Int_t (Val_int i)" for i by (rule has_type_ints)
  then show ?thesis by (simp add: process_status_type_def alloc_process_status_def TAG_WEXITED_def TAG_WSIGNALED_def TAG_WSTOPPED_def del: has_type.simps(1))
qed

lemma cons_fds_typed: "cons_fds fds n xs = Some v \<Longrightarrow> has_type (List_t Int_t) xs \<Longrightarrow> has_type (List_t Int_t) v"
proof (induction fds n xs rule: cons_fds.induct)
  case (2 fds i xs)
  then obtain x where "int_at fds i = Some x" "cons_fds fds i (Block 0 [Val_int x, xs]) = Some v" by (auto simp: bind_Some_iff)
  moreover have "has_type (List_t Int_t) (Block 0 [Val_int x, xs])"
    using 2(3) has_type_ints(1) [of x] by (auto simp del: has_type.simps(1) split: option.splits)
  ultimately show ?case using 2(1) by blast
qed simp

lemma find_rights_typed: "find_rights K cms = Some v \<Longrightarrow> has_type (List_t Int_t) v"
proof (induction cms)
  case (Cons cm cms)
  have "has_type (List_t Int_t) (Val_int 0)" by (simp add: Val_int_def caml_int_id)
  then show ?case using Cons cons_fds_typed by (auto simp del: has_type.simps split: if_splits)
next
  case Nil
  then have "v = Imm 0" by (simp add: Val_int_def caml_int_id)
  then show ?case by simp
qed

text \<open>An entry of \<^verbatim>\<open>getaddrinfo\<close> has the right shape if its address has.\<close>

lemma cst_search_typed:
  "cst_search n tbl i k 0 = Some v \<Longrightarrow> i \<le> sz \<Longrightarrow> i + k \<le> sz \<Longrightarrow> 0 < sz \<Longrightarrow> sz \<le> 2 ^ 31 \<Longrightarrow> has_type (Enum_t sz) v"
proof (induction n tbl i k "0::int" rule: cst_search.induct)
  case (1 n tbl i)
  then show ?case using has_type_enum [of 0 sz] by auto
next
  case (2 n tbl i k)
  then show ?case using has_type_enum [of "int i" sz] by (auto simp: bind_Some_iff split: if_splits simp del: has_type.simps)
qed


definition addr_info_type :: "caml_type \<Rightarrow> caml_type" where
  "addr_info_type sockaddr = Record_t [Enum_t 3, Enum_t 4, Int_t, sockaddr, String_t]"

lemma addrinfo_typed:
  assumes "convert_addrinfo SA g domains types alloc_sockaddr a ew = Some (Ret v, ew')" and "\<And>sa len ci e w v e' w'. alloc_sockaddr sa len ci e w = (Ret v, e', w') \<Longrightarrow> has_type t v"
  shows "has_type (addr_info_type t) v"
proof -
  let ?len = "if ai_addrlen a > SA then SA else ai_addrlen a"
  obtain src sa where "read_at (ai_addr a) 0 ?len = Some src" and "write_at (uninit g SA) 0 src = Some sa"
    using assms(1) unfolding convert_addrinfo_def bind_Some_iff Let_def by blast
  moreover obtain r e w where r: "alloc_sockaddr sa ?len (-1) (fst ew) (snd ew) = (r, e, w)" by (metis prod_cases3)
  ultimately obtain vaddr family socktype where "r = Ret vaddr"
    and f: "cst_to_constr (ai_family a) domains 3 0 = Some family" "cst_to_constr (ai_socktype a) types 4 0 = Some socktype"
    and v: "v = Block 0 [family, socktype, Val_int (ai_protocol a), vaddr, caml_copy_string (case ai_canonname a of None \<Rightarrow> [] | Some c \<Rightarrow> c)]"
    using assms(1) by (cases r) (auto simp: convert_addrinfo_def bind_Some_iff Let_def)
  then have "alloc_sockaddr sa ?len (-1) (fst ew) (snd ew) = (Ret vaddr, e, w)" using r by simp
  then have "has_type t vaddr" using assms(2) by blast
  moreover have "has_type (Enum_t 3) family" "has_type (Enum_t 4) socktype"
    using f cst_search_typed [of _ _ 0 3 _ 3] cst_search_typed [of _ _ 0 4 _ 4] by (simp_all add: cst_to_constr_def del: has_type.simps)
  moreover have "has_type String_t (caml_copy_string x)" for x by (simp add: caml_copy_string_def)
  ultimately show ?thesis unfolding v addr_info_type_def by (simp only: has_type_record list_all2_Cons list_all2_Nil has_type_ints simp_thms)
qed

section \<open>Property\<close>

text \<open>
  C32. The values that the stubs build have the types that OCaml gives them, for every content of the C structures: file status records (both widths), host, protocol, service, user and group entries,
  process statuses, the list of descriptors received with a message, and the entries of \<^verbatim>\<open>getaddrinfo\<close> (if the address that OCaml's own conversion gives has its type). Every field is there and has the right kind,
  and every constructor index is in range, also when a C field has a value that the tables do not know.
\<close>

theorem stub_values_typed:
  assumes "alloc_host_entry K c he = Some host" and "alloc_protoent c pe = Some proto" and "alloc_servent c se = Some serv"
    and "alloc_passwd_entry c pw = Some passwd" and "alloc_group_entry c gr = Some grp" and "find_rights K cms = Some fds"
    and "convert_addrinfo SA g domains types alloc_sockaddr ai ew = Some (Ret info, ew')"
    and "\<And>sa len ci e w v e' w'. alloc_sockaddr sa len ci e w = (Ret v, e', w') \<Longrightarrow> has_type sockaddr v"
  shows "has_type (stats_type use_64) (copy_stat K F use_64 st) \<and> has_type host_entry_type host \<and> has_type protocol_entry_type proto \<and>
    has_type service_entry_type serv \<and> has_type passwd_entry_type passwd \<and> has_type group_entry_type grp \<and>
    has_type process_status_type (alloc_process_status W conv status) \<and> has_type (List_t Int_t) fds \<and> has_type (addr_info_type sockaddr) info"
  by (intro conjI copy_stat_typed host_entry_typed [OF assms(1)] protoent_typed [OF assms(2)] servent_typed [OF assms(3)] passwd_typed [OF assms(4)] group_typed [OF assms(5)]
      process_status_typed find_rights_typed [OF assms(6)] addrinfo_typed [OF assms(7,8)])


definition typed_cells :: cells where
  "typed_cells = [9 \<mapsto> Bytes (''h'' @ [NUL]), 2 \<mapsto> Ptrs [Some 9, None], 3 \<mapsto> Bytes ''1234'', 4 \<mapsto> Ptrs [Some 3, None]]"

lemma typed_cells_eval:
  "copy_c_string typed_cells 9 = Some (Caml_string ''h'')" "caml_copy_string_array typed_cells 2 = Some (Block 0 [Caml_string ''h''])"
  "caml_alloc_array (alloc_one_addr typed_cells) typed_cells 4 = Some (Block 0 [Caml_string ''1234''])"
proof -
  show str: "copy_c_string typed_cells 9 = Some (Caml_string ''h'')"
    by (simp add: copy_c_string_def get_str_def get_bytes_def typed_cells_def cstr_at_def NUL_def)
  then show "caml_copy_string_array typed_cells 2 = Some (Block 0 [Caml_string ''h''])"
    by (simp add: caml_copy_string_array_def caml_alloc_array_def ptr_array_def get_ptrs_def typed_cells_def)
  show "caml_alloc_array (alloc_one_addr typed_cells) typed_cells 4 = Some (Block 0 [Caml_string ''1234''])"
    by (simp add: caml_alloc_array_def ptr_array_def get_ptrs_def alloc_one_addr_def get_bytes_def typed_cells_def)
qed

theorem stub_values_typed_witness:
  "has_type host_entry_type (Block 0 [Caml_string ''h'', Block 0 [Caml_string ''h''], Val_int 2, Block 0 [Caml_string ''1234'']]) \<and>
   has_type (addr_info_type Int_t) (Block 0 [Val_int 0, Val_int 1, Val_int 6, Val_int 9, Caml_string []])"
proof -
  let ?K = "\<lambda>c. if c = ''SOL_SOCKET'' then 1 else 0 :: int"
  have host: "alloc_host_entry ?K typed_cells \<lparr>h_name = Some 9, h_aliases = Some 2, h_addrtype = 77, h_length = 4, h_addr_list = Some 4\<rparr> =
      Some (Block 0 [Caml_string ''h'', Block 0 [Caml_string ''h''], Val_int 2, Block 0 [Caml_string ''1234'']])"
    by (simp add: alloc_host_entry_def typed_cells_eval)
  have proto: "alloc_protoent typed_cells \<lparr>p_name = Some 9, p_aliases = Some 2, p_proto = 6\<rparr> = Some (Block 0 [Caml_string ''h'', Block 0 [Caml_string ''h''], Val_int 6])"
    by (simp add: alloc_protoent_def typed_cells_eval)
  have serv: "alloc_servent typed_cells \<lparr>s_name = Some 9, s_aliases = Some 2, s_port = 0, s_proto = Some 9\<rparr> =
      Some (Block 0 [Caml_string ''h'', Block 0 [Caml_string ''h''], Val_int (ntohs 0), Caml_string ''h''])"
    by (simp add: alloc_servent_def typed_cells_eval)
  have pw: "alloc_passwd_entry typed_cells \<lparr>pw_name = 9, pw_passwd = 9, pw_uid = 0, pw_gid = 0, pw_gecos = 9, pw_dir = 9, pw_shell = 9\<rparr> =
      Some (Block 0 [Caml_string ''h'', Caml_string ''h'', Val_int 0, Val_int 0, Caml_string ''h'', Caml_string ''h'', Caml_string ''h''])"
    by (simp add: alloc_passwd_entry_def typed_cells_eval)
  have gr: "alloc_group_entry typed_cells \<lparr>gr_name = 9, gr_passwd = 9, gr_gid = 0, gr_mem = 2\<rparr> = Some (Block 0 [Caml_string ''h'', Caml_string ''h'', Val_int 0, Block 0 [Caml_string ''h'']])"
    by (simp add: alloc_group_entry_def typed_cells_eval)
  have fds: "find_rights ?K [] = Some (Val_int 0)" by simp
  have info: "convert_addrinfo 4 (\<lambda>_. NUL) [5, 6, 7] [8, 9, 10, 11] (\<lambda>_ _ _ e w. (Ret (Val_int 9), e, w))
      \<lparr>ai_flags = 0, ai_family = 99, ai_socktype = 9, ai_protocol = 6, ai_addrlen = 2, ai_addr = ''ab'', ai_canonname = None, ai_next = None\<rparr> (0, ()) =
      Some (Ret (Block 0 [Val_int 0, Val_int 1, Val_int 6, Val_int 9, Caml_string []]), 0, ())"
    by (simp add: convert_addrinfo_def cst_to_constr_def tbl_get_def eval_nat_numeral caml_copy_string_def cstring_def)
  have sockaddr: "(Ret (Val_int 9), e, w) = (Ret v, e', w') \<Longrightarrow> has_type Int_t v" for e w v e' w' using has_type_ints(1) [of 9] by auto
  show ?thesis using stub_values_typed [OF host proto serv pw gr fds info sockaddr] by blast
qed

end
