(* ===== verification/Windows_Jobs.thy ===== *)
theory Windows_Jobs
  imports Availability
begin

text \<open>
  What the generated job files and a few small files compile to where the job does not exist: the \<^verbatim>\<open>#else\<close> branch of the files \<^verbatim>\<open>unix_*_job.c\<close> on Windows, the macro
  \<^verbatim>\<open>LWT_UNIX_JOB_NOT_IMPLEMENTED\<close>, the entry points for the bytecode interpreter (\<^verbatim>\<open>_byte\<close>), and the allocation functions of \<^verbatim>\<open>lwt_unix_stubs.c\<close>, which end the program when
  there is no memory.
\<close>

section \<open>Jobs that Windows does not have\<close>

text \<open>Each of these functions is declared with one parameter, whatever OCaml passes.\<close>

definition unavailable_job :: "string \<Rightarrow> string \<Rightarrow> stub" where
  "unavailable_job name feature = \<lparr>stub_name = ''lwt_unix_'' @ name, stub_params = 1, stub_body = lwt_unix_not_available feature\<rparr>"

definition lwt_unix_access_job_win :: stub where
  "lwt_unix_access_job_win = unavailable_job ''access_job'' ''access''"

definition lwt_unix_chdir_job_win :: stub where
  "lwt_unix_chdir_job_win = unavailable_job ''chdir_job'' ''chdir''"

definition lwt_unix_chmod_job_win :: stub where
  "lwt_unix_chmod_job_win = unavailable_job ''chmod_job'' ''chmod''"

definition lwt_unix_chown_job_win :: stub where
  "lwt_unix_chown_job_win = unavailable_job ''chown_job'' ''chown''"

definition lwt_unix_chroot_job_win :: stub where
  "lwt_unix_chroot_job_win = unavailable_job ''chroot_job'' ''chroot''"

definition lwt_unix_close_job_win :: stub where
  "lwt_unix_close_job_win = unavailable_job ''close_job'' ''close''"

definition lwt_unix_fchmod_job_win :: stub where
  "lwt_unix_fchmod_job_win = unavailable_job ''fchmod_job'' ''fchmod''"

definition lwt_unix_fchown_job_win :: stub where
  "lwt_unix_fchown_job_win = unavailable_job ''fchown_job'' ''fchown''"

definition lwt_unix_fdatasync_job_win :: stub where
  "lwt_unix_fdatasync_job_win = unavailable_job ''fdatasync_job'' ''fdatasync''"

definition lwt_unix_ftruncate_job_win :: stub where
  "lwt_unix_ftruncate_job_win = unavailable_job ''ftruncate_job'' ''ftruncate''"

definition lwt_unix_ftruncate_64_job_win :: stub where
  "lwt_unix_ftruncate_64_job_win = unavailable_job ''ftruncate_64_job'' ''ftruncate''"

definition lwt_unix_link_job_win :: stub where
  "lwt_unix_link_job_win = unavailable_job ''link_job'' ''link''"

definition lwt_unix_lseek_job_win :: stub where
  "lwt_unix_lseek_job_win = unavailable_job ''lseek_job'' ''lseek''"

definition lwt_unix_lseek_64_job_win :: stub where
  "lwt_unix_lseek_64_job_win = unavailable_job ''lseek_64_job'' ''lseek''"

definition lwt_unix_mkdir_job_win :: stub where
  "lwt_unix_mkdir_job_win = unavailable_job ''mkdir_job'' ''mkdir''"

definition lwt_unix_mkfifo_job_win :: stub where
  "lwt_unix_mkfifo_job_win = unavailable_job ''mkfifo_job'' ''mkfifo''"

definition lwt_unix_rename_job_win :: stub where
  "lwt_unix_rename_job_win = unavailable_job ''rename_job'' ''rename''"

definition lwt_unix_rmdir_job_win :: stub where
  "lwt_unix_rmdir_job_win = unavailable_job ''rmdir_job'' ''rmdir''"

definition lwt_unix_symlink_job_win :: stub where
  "lwt_unix_symlink_job_win = unavailable_job ''symlink_job'' ''symlink''"

definition lwt_unix_tcdrain_job_win :: stub where
  "lwt_unix_tcdrain_job_win = unavailable_job ''tcdrain_job'' ''tcdrain''"

definition lwt_unix_tcflow_job_win :: stub where
  "lwt_unix_tcflow_job_win = unavailable_job ''tcflow_job'' ''tcflow''"

definition lwt_unix_tcflush_job_win :: stub where
  "lwt_unix_tcflush_job_win = unavailable_job ''tcflush_job'' ''tcflush''"

definition lwt_unix_tcsendbreak_job_win :: stub where
  "lwt_unix_tcsendbreak_job_win = unavailable_job ''tcsendbreak_job'' ''tcsendbreak''"

definition lwt_unix_truncate_job_win :: stub where
  "lwt_unix_truncate_job_win = unavailable_job ''truncate_job'' ''truncate''"

definition lwt_unix_truncate_64_job_win :: stub where
  "lwt_unix_truncate_64_job_win = unavailable_job ''truncate_64_job'' ''truncate''"

definition lwt_unix_unlink_job_win :: stub where
  "lwt_unix_unlink_job_win = unavailable_job ''unlink_job'' ''unlink''"

definition windows_jobs :: "stub list" where
  "windows_jobs =
     [lwt_unix_access_job_win, lwt_unix_chdir_job_win, lwt_unix_chmod_job_win, lwt_unix_chown_job_win,
      lwt_unix_chroot_job_win, lwt_unix_close_job_win, lwt_unix_fchmod_job_win, lwt_unix_fchown_job_win,
      lwt_unix_fdatasync_job_win, lwt_unix_ftruncate_job_win, lwt_unix_ftruncate_64_job_win, lwt_unix_link_job_win,
      lwt_unix_lseek_job_win, lwt_unix_lseek_64_job_win, lwt_unix_mkdir_job_win, lwt_unix_mkfifo_job_win,
      lwt_unix_rename_job_win, lwt_unix_rmdir_job_win, lwt_unix_symlink_job_win, lwt_unix_tcdrain_job_win,
      lwt_unix_tcflow_job_win, lwt_unix_tcflush_job_win, lwt_unix_tcsendbreak_job_win, lwt_unix_truncate_job_win,
      lwt_unix_truncate_64_job_win, lwt_unix_unlink_job_win]"

text \<open>The declarations of \<^verbatim>\<open>lwt_unix.cppo.ml\<close>: name, number of arguments, and the name of the feature.\<close>

definition windows_job_externals :: "(string \<times> nat \<times> string) list" where
  "windows_job_externals =
     [
      (''lwt_unix_access_job'', 2, ''access''), (''lwt_unix_chdir_job'', 1, ''chdir''), (''lwt_unix_chmod_job'', 2, ''chmod''),
      (''lwt_unix_chown_job'', 3, ''chown''), (''lwt_unix_chroot_job'', 1, ''chroot''), (''lwt_unix_close_job'', 1, ''close''),
      (''lwt_unix_fchmod_job'', 2, ''fchmod''), (''lwt_unix_fchown_job'', 3, ''fchown''), (''lwt_unix_fdatasync_job'', 1, ''fdatasync''),
      (''lwt_unix_ftruncate_job'', 2, ''ftruncate''), (''lwt_unix_ftruncate_64_job'', 2, ''ftruncate''), (''lwt_unix_link_job'', 2, ''link''),
      (''lwt_unix_lseek_job'', 3, ''lseek''), (''lwt_unix_lseek_64_job'', 3, ''lseek''), (''lwt_unix_mkdir_job'', 2, ''mkdir''),
      (''lwt_unix_mkfifo_job'', 2, ''mkfifo''), (''lwt_unix_rename_job'', 2, ''rename''), (''lwt_unix_rmdir_job'', 1, ''rmdir''),
      (''lwt_unix_symlink_job'', 2, ''symlink''), (''lwt_unix_tcdrain_job'', 1, ''tcdrain''), (''lwt_unix_tcflow_job'', 2, ''tcflow''),
      (''lwt_unix_tcflush_job'', 2, ''tcflush''), (''lwt_unix_tcsendbreak_job'', 2, ''tcsendbreak''), (''lwt_unix_truncate_job'', 2, ''truncate''),
      (''lwt_unix_truncate_64_job'', 2, ''truncate''), (''lwt_unix_unlink_job'', 1, ''unlink'')
     ]"

lemma windows_job_calls:
  "list_all (\<lambda>(f, n, feature). call_arity windows_jobs f n = (if n = 1 then Some (Raise (Not_available feature)) else None)) windows_job_externals"
  by code_simp

text \<open>
  On Windows a job function that takes one argument raises \<^verbatim>\<open>Not_available\<close> with the name of the call; one that OCaml calls with more arguments has no defined behaviour, so that the library
  has to test \<^verbatim>\<open>Sys.win32\<close> before it calls it. (It does, except for \<^verbatim>\<open>fdatasync\<close>, which has one argument.)
\<close>

theorem windows_jobs_raise:
  assumes "(f, n, feature) \<in> set windows_job_externals" and "length args = n"
  shows "call_stub windows_jobs f args = (if n = 1 then Some (Raise (Not_available feature)) else None)"
  using windows_job_calls assms by (auto simp: list_all_iff call_stub_arity)

theorem windows_jobs_raise_witness:
  "call_stub windows_jobs ''lwt_unix_fdatasync_job'' [Imm 3] = Some (Raise (Not_available ''fdatasync''))"
  using windows_jobs_raise [of "''lwt_unix_fdatasync_job''" 1 "''fdatasync''" "[Imm 3]"] by (simp add: windows_job_externals_def)

section \<open>Jobs that are not implemented\<close>

text \<open>The three functions of the old interface, each with one parameter.\<close>

definition LWT_UNIX_JOB_NOT_IMPLEMENTED :: "string \<Rightarrow> stub list" where
  "LWT_UNIX_JOB_NOT_IMPLEMENTED name =
     map (\<lambda>suffix. \<lparr>stub_name = ''lwt_unix_'' @ name @ suffix, stub_params = 1, stub_body = Raise (Invalid_argument ''not implemented'')\<rparr>)
       [''_job'', ''_result'', ''_free'']"

lemma not_implemented_call:
  assumes "suffix \<in> {''_job'', ''_result'', ''_free''}"
  shows "call_stub (LWT_UNIX_JOB_NOT_IMPLEMENTED name) (''lwt_unix_'' @ name @ suffix) [v] = Some (Raise (Invalid_argument ''not implemented''))"
  using assms by (auto simp: LWT_UNIX_JOB_NOT_IMPLEMENTED_def call_stub_def)

section \<open>Entry points for bytecode\<close>

text \<open>
  An \<^verbatim>\<open>external\<close> with more than five arguments has a second C function, which gets the arguments in an array \<^verbatim>\<open>argv\<close> of length \<^verbatim>\<open>argc\<close> and passes them to the first. The function called is
  an argument; reading outside the array is undefined.
\<close>

definition lwt_unix_sendto_byte :: "('v \<Rightarrow> 'v \<Rightarrow> 'v \<Rightarrow> 'v \<Rightarrow> 'v \<Rightarrow> 'v \<Rightarrow> 'r) \<Rightarrow> 'v list \<Rightarrow> 'r option" where
  "lwt_unix_sendto_byte lwt_unix_sendto argv = do {
     a0 \<leftarrow> tbl_get argv 0; a1 \<leftarrow> tbl_get argv 1; a2 \<leftarrow> tbl_get argv 2;
     a3 \<leftarrow> tbl_get argv 3; a4 \<leftarrow> tbl_get argv 4; a5 \<leftarrow> tbl_get argv 5;
     Some (lwt_unix_sendto a0 a1 a2 a3 a4 a5)
   }"

definition lwt_unix_bytes_sendto_byte :: "('v \<Rightarrow> 'v \<Rightarrow> 'v \<Rightarrow> 'v \<Rightarrow> 'v \<Rightarrow> 'v \<Rightarrow> 'r) \<Rightarrow> 'v list \<Rightarrow> 'r option" where
  "lwt_unix_bytes_sendto_byte lwt_unix_bytes_sendto argv = do {
     a0 \<leftarrow> tbl_get argv 0; a1 \<leftarrow> tbl_get argv 1; a2 \<leftarrow> tbl_get argv 2;
     a3 \<leftarrow> tbl_get argv 3; a4 \<leftarrow> tbl_get argv 4; a5 \<leftarrow> tbl_get argv 5;
     Some (lwt_unix_bytes_sendto a0 a1 a2 a3 a4 a5)
   }"

definition lwt_unix_send_msg_byte :: "('v \<Rightarrow> 'v \<Rightarrow> 'v \<Rightarrow> 'v \<Rightarrow> 'v \<Rightarrow> 'v \<Rightarrow> 'r) \<Rightarrow> 'v list \<Rightarrow> 'r option" where
  "lwt_unix_send_msg_byte lwt_unix_send_msg argv = do {
     val_fd \<leftarrow> tbl_get argv 0; val_n_iovs \<leftarrow> tbl_get argv 1; val_iovs \<leftarrow> tbl_get argv 2;
     val_n_fds \<leftarrow> tbl_get argv 3; val_fds \<leftarrow> tbl_get argv 4; val_dest \<leftarrow> tbl_get argv 5;
     Some (lwt_unix_send_msg val_fd val_n_iovs val_iovs val_n_fds val_fds val_dest)
   }"

text \<open>Bytecode and native code agree: the three entry points pass six arguments on in their order.\<close>

theorem byte_entry_points:
  "lwt_unix_sendto_byte f [a, b, c, d, e, g] = Some (f a b c d e g) \<and>
   lwt_unix_bytes_sendto_byte f [a, b, c, d, e, g] = Some (f a b c d e g) \<and>
   lwt_unix_send_msg_byte f [a, b, c, d, e, g] = Some (f a b c d e g)"
  by (simp add: lwt_unix_sendto_byte_def lwt_unix_bytes_sendto_byte_def lwt_unix_send_msg_byte_def tbl_get_def)

section \<open>Allocation\<close>

text \<open>
  \<^verbatim>\<open>malloc\<close>, \<^verbatim>\<open>realloc\<close> and \<^verbatim>\<open>strdup\<close> are arguments; a null pointer is \<open>None\<close>. The functions print a message and call \<^verbatim>\<open>abort\<close>, which does not return.
\<close>

datatype 'a run = Aborted string | Returned 'a

definition or_abort :: "'p option \<times> 's \<Rightarrow> ('p \<times> 's) run" where
  "or_abort r = (case r of (None, s) \<Rightarrow> Aborted ''cannot allocate memory'' | (Some p, s) \<Rightarrow> Returned (p, s))"

definition lwt_unix_malloc :: "(nat \<Rightarrow> 's \<Rightarrow> 'p option \<times> 's) \<Rightarrow> nat \<Rightarrow> 's \<Rightarrow> ('p \<times> 's) run" where
  "lwt_unix_malloc malloc n s = or_abort (malloc n s)"

definition lwt_unix_realloc :: "('p \<Rightarrow> nat \<Rightarrow> 's \<Rightarrow> 'p option \<times> 's) \<Rightarrow> 'p \<Rightarrow> nat \<Rightarrow> 's \<Rightarrow> ('p \<times> 's) run" where
  "lwt_unix_realloc realloc ptr n s = or_abort (realloc ptr n s)"

definition lwt_unix_strdup :: "(char list \<Rightarrow> 's \<Rightarrow> 'p option \<times> 's) \<Rightarrow> char list \<Rightarrow> 's \<Rightarrow> ('p \<times> 's) run" where
  "lwt_unix_strdup strdup str s = or_abort (strdup str s)"

text \<open>A caller that goes on has a pointer: this is why the jobs do not test the results of these functions.\<close>

theorem allocation_not_null:
  "lwt_unix_malloc malloc n s = Returned (p, s') \<longleftrightarrow> malloc n s = (Some p, s')"
  "lwt_unix_realloc realloc q n s = Returned (p, s') \<longleftrightarrow> realloc q n s = (Some p, s')"
  "lwt_unix_strdup strdup str s = Returned (p, s') \<longleftrightarrow> strdup str s = (Some p, s')"
  by (auto simp: lwt_unix_malloc_def lwt_unix_realloc_def lwt_unix_strdup_def or_abort_def split: prod.splits option.splits)

end
