(* ===== verification/Cond_Refinement.thy ===== *)
theory Cond_Refinement
  imports Threads
begin

text \<open>
  What a condition variable is supposed to be, and that the Windows implementation of theory \<open>Threads\<close> is one: an abstract machine in which a thread falls asleep and
  releases the mutex in one step, a signal wakes one of the sleeping threads, and only a thread that was woken by a signal returns from its wait. In particular there
  are no spurious wakeups on Windows, which is what the liveness of the thread pool (theories \<open>Pool_Props\<close> and \<open>System\<close>) depends on.
\<close>

section \<open>The abstract condition variable\<close>

record acond =
  owner :: "nat option"
  sleeping :: "nat set"
  awake :: "nat set"

inductive acond_reach :: "acond \<Rightarrow> bool" where
  a_init: "acond_reach \<lparr>owner = None, sleeping = {}, awake = {}\<rparr>"
| a_lock: "acond_reach a \<Longrightarrow> owner a = None \<Longrightarrow> t \<notin> sleeping a \<union> awake a \<Longrightarrow> acond_reach (a\<lparr>owner := Some t\<rparr>)"
| a_unlock: "acond_reach a \<Longrightarrow> owner a = Some t \<Longrightarrow> acond_reach (a\<lparr>owner := None\<rparr>)"
| a_wait: "acond_reach a \<Longrightarrow> owner a = Some t \<Longrightarrow> acond_reach (a\<lparr>owner := None, sleeping := insert t (sleeping a)\<rparr>)"
| a_signal: "acond_reach a \<Longrightarrow> t \<in> sleeping a \<Longrightarrow> acond_reach (a\<lparr>sleeping := sleeping a - {t}, awake := insert t (awake a)\<rparr>)"
| a_return: "acond_reach a \<Longrightarrow> owner a = None \<Longrightarrow> t \<in> awake a \<Longrightarrow> acond_reach (a\<lparr>owner := Some t, awake := awake a - {t}\<rparr>)"

inductive_cases acond_reachE: "acond_reach a"

text \<open>The abstract machine keeps each thread in one place.\<close>

lemma acond_disjoint:
  "acond_reach a \<Longrightarrow> sleeping a \<inter> awake a = {} \<and> (\<forall>t. owner a = Some t \<longrightarrow> t \<notin> sleeping a \<union> awake a)"
  by (induction rule: acond_reach.induct) auto

section \<open>The abstraction\<close>

text \<open>A thread sleeps from the moment its node is in the list until a signal takes the node out.\<close>

definition asleep :: "cond_st \<Rightarrow> nat \<Rightarrow> bool" where
  "asleep s t \<longleftrightarrow> pcs s t \<in> {Wait_leave, Wait_unlock, Wait_event} \<and> (\<exists>nd. nodes s t = Some nd \<and> event nd = Some False) \<and>
     (\<forall>u. pcs s u \<noteq> Signal_set t)"

definition returning :: "cond_st \<Rightarrow> nat \<Rightarrow> bool" where
  "returning s t \<longleftrightarrow> pcs s t \<in> {Wait_unlock, Wait_event} \<and> \<not> asleep s t \<or> pcs s t \<in> {Wait_close, Wait_relock}"

definition holds :: "cond_st \<Rightarrow> nat option" where
  "holds s = (case umutex s of None \<Rightarrow> None | Some t \<Rightarrow> if pcs s t \<in> {Wait_leave, Wait_unlock} then None else Some t)"

definition cond_abs :: "cond_st \<Rightarrow> acond" where
  "cond_abs s = \<lparr>owner = holds s, sleeping = {t. asleep s t}, awake = {t. returning s t}\<rparr>"

lemma cond_abs_same:
  assumes "\<And>u. asleep s' u = asleep s u" "\<And>u. returning s' u = returning s u" "holds s' = holds s"
  shows "cond_abs s' = cond_abs s"
  using assms by (simp add: cond_abs_def)

text \<open>In a state of the invariant: a node in the list is asleep, and a signal in its critical section excludes the others.\<close>

lemma inv_asleep:
  assumes "cond_inv s" "linked wl_next (nodes s) (waiters s) ws" "distinct ws" "\<And>t. thread_ok ws s t" "t \<in> set ws"
  shows "\<exists>nd. nodes s t = Some nd \<and> event nd = Some False" "pcs s t \<in> {Wait_leave, Wait_unlock, Wait_event}" "pcs s u \<noteq> Signal_set t"
proof -
  have live: "nodes s t \<noteq> None" using linked_live [OF assms(2,5)] .
  show "\<exists>nd. nodes s t = Some nd \<and> event nd = Some False" "pcs s t \<in> {Wait_leave, Wait_unlock, Wait_event}"
    using assms(4) [of t] assms(5) live by (auto simp: thread_ok_def queued_def split: pc.splits)
  show "pcs s u \<noteq> Signal_set t" using assms(4) [of u] assms(5) by (auto simp: thread_ok_def)
qed

lemma no_signal_set:
  assumes "cond_inv s" "pcs s t \<in> {Wait_link, Wait_leave, Signal_pop, Signal_leave}"
  shows "pcs s u \<noteq> Signal_set n"
proof -
  obtain ws where ok: "\<And>t. thread_ok ws s t" by (rule cond_invE [OF assms(1)]) blast
  have "cmutex s = Some t" using ok [of t] assms(2) by (auto simp: thread_ok_def)
  with cmutex_exclusive(2) [OF ok, of u n] assms(2) show ?thesis by (cases "u = t") auto
qed

lemmas abs_defs = asleep_def returning_def holds_def goto_def

lemma no_target_upd:
  "f t \<noteq> Signal_set n \<Longrightarrow> p \<noteq> Signal_set n \<Longrightarrow> (\<forall>u. (f(t := p)) u \<noteq> Signal_set n) = (\<forall>u. f u \<noteq> Signal_set n)"
  by (metis fun_upd_apply)

lemma asleep_other:
  assumes "pcs s' = (pcs s)(t := p)" "\<And>n. pcs s t \<noteq> Signal_set n" "\<And>n. p \<noteq> Signal_set n" "u \<noteq> t" "nodes s' u = nodes s u"
  shows "asleep s' u = asleep s u"
proof -
  have "(\<forall>v. pcs s' v \<noteq> Signal_set u) = (\<forall>v. pcs s v \<noteq> Signal_set u)" unfolding assms(1) by (rule no_target_upd) (rule assms)+
  moreover have "pcs s' u = pcs s u" using assms(1,4) by simp
  ultimately show ?thesis using assms(5) by (simp add: asleep_def)
qed

text \<open>A step that changes the program counter of one thread within a class and leaves the nodes of the others alone is invisible.\<close>

lemma abs_quiet:
  assumes "pcs s' = (pcs s)(t := p)" and "\<And>n. pcs s t \<noteq> Signal_set n" and "\<And>n. p \<noteq> Signal_set n"
    and "\<And>u. u \<noteq> t \<Longrightarrow> nodes s' u = nodes s u" and "asleep s' t = asleep s t" and "returning s' t = returning s t" and "holds s' = holds s"
  shows "cond_abs s' = cond_abs s"
proof (rule cond_abs_same)
  fix u
  show a: "asleep s' u = asleep s u" using asleep_other [OF assms(1-3)] assms(4,5) by (cases "u = t") simp_all
  show "returning s' u = returning s u" by (cases "u = t") (use assms(1,6) a in \<open>auto simp: returning_def\<close>)
qed (rule assms)

lemma refine_wait_step:
  assumes inv: "cond_inv s" and step: "condition_wait t (pcs s t) s = Next s'" and abs: "acond_reach (cond_abs s)"
  shows "acond_reach (cond_abs s')"
proof -
  obtain ws where ws: "linked wl_next (nodes s) (waiters s) ws" "distinct ws" "\<And>t. thread_ok ws s t" by (rule cond_invE [OF inv]) blast
  note ok = ws(3) [of t]
  show ?thesis
  proof (cases "pcs s t")
    case Wait_enter
    then have "s' = goto t Wait_link (s\<lparr>cmutex := Some t\<rparr>)" using step by (auto simp: move_defs split: if_splits)
    then have "cond_abs s' = cond_abs s" by (intro abs_quiet [where t = t and p = Wait_link]) (use Wait_enter in \<open>auto simp: abs_defs split: option.splits\<close>)
    with abs show ?thesis by simp
  next
    case Wait_link
    then obtain nd where nd: "nodes s t = Some nd" "event nd = Some False" "umutex s = Some t"
        "s' = goto t Wait_leave (s\<lparr>nodes := (nodes s)(t \<mapsto> nd\<lparr>wl_next := waiters s\<rparr>), waiters := Some t\<rparr>)"
      using step ok by (auto simp: thread_ok_def split: option.splits)
    have n: "pcs s u \<noteq> Signal_set m" for u m using no_signal_set [OF inv, of t u m] Wait_link by simp
    have "asleep s' u = (u = t \<or> asleep s u)" "returning s' u = returning s u" for u
      using nd n Wait_link by (auto simp: abs_defs)
    moreover have "holds s = Some t" "holds s' = None" using nd Wait_link by (simp_all add: abs_defs)
    ultimately have "cond_abs s' = (cond_abs s)\<lparr>owner := None, sleeping := insert t (sleeping (cond_abs s))\<rparr>" "owner (cond_abs s) = Some t"
      by (auto simp: cond_abs_def)
    with a_wait [OF abs, of t] show ?thesis by simp
  next
    case Wait_leave
    then have "s' = goto t Wait_unlock (s\<lparr>cmutex := None\<rparr>)" using step by (auto simp: move_defs split: if_splits)
    moreover have "asleep s t" using inv_asleep [OF inv ws, of t] ok Wait_leave by (auto simp: thread_ok_def asleep_def)
    ultimately have "cond_abs s' = cond_abs s"
      by (intro abs_quiet [where t = t and p = Wait_unlock]) (use Wait_leave in \<open>auto simp: abs_defs split: option.splits\<close>)
    with abs show ?thesis by simp
  next
    case Wait_unlock
    then have s': "umutex s = Some t" "s' = goto t Wait_event (s\<lparr>umutex := None\<rparr>)" using step by (auto simp: move_defs split: if_splits)
    then have a: "asleep s' t = asleep s t"
      using Wait_unlock no_target_upd [of "pcs s" t t Wait_event] by (simp add: asleep_def goto_def del: fun_upd_apply) (simp add: fun_upd_apply)
    have "cond_abs s' = cond_abs s"
      by (intro abs_quiet [where t = t and p = Wait_event]) (use Wait_unlock s' a in \<open>auto simp: returning_def holds_def goto_def\<close>)
    with abs show ?thesis by simp
  next
    case Wait_event
    then obtain nd where nd: "nodes s t = Some nd" "event nd = Some True" "s' = goto t Wait_close (s\<lparr>nodes := (nodes s)(t \<mapsto> nd\<lparr>event := Some False\<rparr>)\<rparr>)"
      using step by (auto split: option.splits bool.splits)
    then have "cond_abs s' = cond_abs s"
      by (intro abs_quiet [where t = t and p = Wait_close]) (use Wait_event in \<open>auto simp: abs_defs split: option.splits\<close>)
    with abs show ?thesis by simp
  next
    case Wait_close
    then obtain nd where "nodes s t = Some nd" "s' = goto t Wait_relock (s\<lparr>nodes := (nodes s)(t \<mapsto> nd\<lparr>event := None\<rparr>)\<rparr>)"
      using step by (auto split: option.splits)
    then have "cond_abs s' = cond_abs s"
      by (intro abs_quiet [where t = t and p = Wait_relock]) (use Wait_close in \<open>auto simp: abs_defs split: option.splits\<close>)
    with abs show ?thesis by simp
  next
    case Wait_relock
    then have s': "umutex s = None" "s' = goto t Idle (s\<lparr>umutex := Some t, nodes := (nodes s)(t := None)\<rparr>)" using step by (auto split: if_splits)
    have "asleep s' u = asleep s u" for u
      using s' Wait_relock asleep_other [of s' s t Idle u] by (cases "u = t") (simp_all add: goto_def, simp add: asleep_def)
    moreover have "returning s t" "returning s' u = (returning s u \<and> u \<noteq> t)" for u
      using s' Wait_relock calculation [of u] by (auto simp: returning_def goto_def)
    moreover have "holds s = None" "holds s' = Some t" using s' by (simp_all add: abs_defs)
    ultimately have "cond_abs s' = (cond_abs s)\<lparr>owner := Some t, awake := awake (cond_abs s) - {t}\<rparr>" "owner (cond_abs s) = None" "t \<in> awake (cond_abs s)"
      by (auto simp: cond_abs_def)
    with a_return [OF abs, of t] show ?thesis by simp
  qed (use step in simp_all)
qed

lemma refine_signal_step:
  assumes inv: "cond_inv s" and step: "condition_signal_win t (pcs s t) s = Next s'" and abs: "acond_reach (cond_abs s)"
  shows "acond_reach (cond_abs s')"
proof -
  obtain ws where ws: "linked wl_next (nodes s) (waiters s) ws" "distinct ws" "\<And>t. thread_ok ws s t" by (rule cond_invE [OF inv]) blast
  note ok = ws(3) [of t]
  show ?thesis
  proof (cases "pcs s t")
    case Signal_enter
    then have "s' = goto t Signal_pop (s\<lparr>cmutex := Some t\<rparr>)" using step by (auto simp: move_defs split: if_splits)
    then have "cond_abs s' = cond_abs s" by (intro abs_quiet [where t = t and p = Signal_pop]) (use Signal_enter in \<open>auto simp: abs_defs split: option.splits\<close>)
    with abs show ?thesis by simp
  next
    case Signal_pop
    show ?thesis
    proof (cases "waiters s")
      case None
      then have "s' = goto t Signal_leave s" using step Signal_pop by simp
      then have "cond_abs s' = cond_abs s" by (intro abs_quiet [where t = t and p = Signal_leave]) (use Signal_pop in \<open>auto simp: abs_defs split: option.splits\<close>)
      with abs show ?thesis by simp
    next
      case (Some n)
      then obtain nd where s': "nodes s n = Some nd" "s' = goto t (Signal_set n) (s\<lparr>waiters := wl_next nd\<rparr>)"
        using step Signal_pop by (auto split: option.splits)
      have mem: "n \<in> set ws" using ws(1) Some by (auto simp: linked_Some)
      note as = inv_asleep [OF inv ws mem]
      have nt: "n \<noteq> t" using as(2) Signal_pop by auto
      have none: "pcs s u \<noteq> Signal_set m" for u m using no_signal_set [OF inv, of t u m] Signal_pop by simp
      have nl: "pcs s n \<in> {Wait_unlock, Wait_event}"
        using as(2) ws(3) [of n] ok Signal_pop nt by (auto simp: thread_ok_def)
      have "asleep s n" using as by (auto simp: asleep_def)
      moreover have sl: "asleep s' u = (asleep s u \<and> u \<noteq> n)" for u using s' none Signal_pop nt by (auto simp: asleep_def goto_def)
      moreover have "returning s' u = (returning s u \<or> u = n)" for u
        using sl [of u] nl Signal_pop nt s' by (auto simp: returning_def goto_def)
      moreover have "holds s' = holds s" using s' Signal_pop by (auto simp: holds_def goto_def split: option.splits)
      ultimately have "cond_abs s' = (cond_abs s)\<lparr>sleeping := sleeping (cond_abs s) - {n}, awake := insert n (awake (cond_abs s))\<rparr>"
          "n \<in> sleeping (cond_abs s)"
        by (auto simp: cond_abs_def)
      with a_signal [OF abs, of n] show ?thesis by simp
    qed
  next
    case (Signal_set n)
    then obtain nd where s': "nodes s n = Some nd" "s' = goto t Signal_leave (s\<lparr>nodes := (nodes s)(n \<mapsto> nd\<lparr>event := Some True\<rparr>)\<rparr>)"
      using step by (auto simp: SetEvent_def split: option.splits if_splits)
    have nt: "n \<noteq> t" using ok s'(1) Signal_set by (auto simp: thread_ok_def)
    have c: "cmutex s = Some t" using ok Signal_set by (simp add: thread_ok_def)
    have only: "u = t" if "pcs s u = Signal_set m" for u m using cmutex_exclusive(2) [OF ws(3), of u m] c that by auto
    have sl: "asleep s' u = asleep s u" for u
    proof (cases "u = n")
      case True
      then show ?thesis using s' Signal_set by (auto simp: asleep_def goto_def)
    next
      case False
      have "pcs s v \<noteq> Signal_set u" for v
      proof
        assume v: "pcs s v = Signal_set u"
        with only [OF v] Signal_set False show False by simp
      qed
      moreover from this have "pcs s' v \<noteq> Signal_set u" for v using s'(2) by (simp add: goto_def)
      moreover have "nodes s' u = nodes s u" "u \<noteq> t \<Longrightarrow> pcs s' u = pcs s u" "pcs s' t = Signal_leave" using False s'(2) by (simp_all add: goto_def)
      ultimately show ?thesis using Signal_set by (cases "u = t") (simp_all add: asleep_def)
    qed
    have pc: "pcs s' = (pcs s)(t := Signal_leave)" "umutex s' = umutex s" using s'(2) by (simp_all add: goto_def)
    have "returning s' u = returning s u" for u using sl [of u] pc(1) Signal_set by (simp add: returning_def)
    moreover have "holds s' = holds s" using pc Signal_set by (simp add: holds_def split: option.split)
    ultimately have "cond_abs s' = cond_abs s" using sl by (intro cond_abs_same) simp_all
    with abs show ?thesis by simp
  next
    case Signal_leave
    then have "s' = goto t Idle (s\<lparr>cmutex := None\<rparr>)" using step by (auto simp: move_defs split: if_splits)
    then have "cond_abs s' = cond_abs s" by (intro abs_quiet [where t = t and p = Idle]) (use Signal_leave in \<open>auto simp: abs_defs split: option.splits\<close>)
    with abs show ?thesis by simp
  qed (use step in simp_all)
qed

lemma cond_refines_lemma: "cond_reach False s \<Longrightarrow> acond_reach (cond_abs s)"
proof (induction rule: cond_reach.induct)
  case init
  have "cond_abs (lwt_unix_condition_init \<lparr>cmutex = None, waiters = None, umutex = None, nodes = Map.empty, pcs = (\<lambda>_. Idle)\<rparr>) =
      \<lparr>owner = None, sleeping = {}, awake = {}\<rparr>"
    by (simp add: cond_abs_def abs_defs lwt_unix_condition_init_def)
  then show ?case using a_init by simp
next
  case (lock s t)
  have "cond_abs (s\<lparr>umutex := Some t\<rparr>) = (cond_abs s)\<lparr>owner := Some t\<rparr>" "owner (cond_abs s) = None" "t \<notin> sleeping (cond_abs s) \<union> awake (cond_abs s)"
    using lock(2,3) by (simp_all add: cond_abs_def abs_defs)
  with a_lock [OF lock(4), of t] show ?case by simp
next
  case (unlock s t)
  have "cond_abs (s\<lparr>umutex := None\<rparr>) = (cond_abs s)\<lparr>owner := None\<rparr>" "owner (cond_abs s) = Some t"
    using unlock(2,3) by (simp_all add: cond_abs_def abs_defs)
  with a_unlock [OF unlock(4), of t] show ?case by simp
next
  case (wait s t junk)
  have "cond_abs (goto t Wait_enter (s\<lparr>nodes := (nodes s)(t \<mapsto> \<lparr>event = Some False, wl_next = junk\<rparr>)\<rparr>)) = cond_abs s"
    by (intro abs_quiet [where t = t and p = Wait_enter]) (use wait in \<open>auto simp: abs_defs split: option.splits\<close>)
  with wait show ?case by simp
next
  case (signal s t)
  have "cond_abs (goto t Signal_enter s) = cond_abs s"
    by (intro abs_quiet [where t = t and p = Signal_enter]) (use signal in \<open>auto simp: abs_defs split: option.splits\<close>)
  with signal show ?case by simp
next
  case (step s t s')
  have inv: "cond_inv s" using step(1) by (rule cond_reach_inv)
  obtain ws where "thread_ok ws s t" by (rule cond_invE [OF inv]) blast
  then have "condition_wait t (pcs s t) s = Next s' \<or> condition_signal_win t (pcs s t) s = Next s'"
    using step(2) by (cases "pcs s t") (simp_all add: cond_step_def thread_ok_def)
  then show ?case using refine_wait_step [OF inv _ step(3)] refine_signal_step [OF inv _ step(3)] by blast
qed simp

section \<open>Properties\<close>



end
