(* ===== verification/Win_Signals.thy ===== *)
theory Win_Signals
  imports Win_Sockets
begin

text \<open>
  The Windows branches of the signal stubs of \<^verbatim>\<open>src/src/unix/lwt_unix_stubs.c\<close>: \<^verbatim>\<open>handle_signal\<close>, which installs itself again because the \<^verbatim>\<open>signal\<close> function
  of the C runtime resets the handler, \<^verbatim>\<open>lwt_unix_set_signal\<close> and \<^verbatim>\<open>lwt_unix_remove_signal\<close>, which treat \<^verbatim>\<open>SIGINT\<close> with a console handler. The table of
  the notification ids is beside the notification channel of theory \<open>Win_Sockets\<close>.

  \<^verbatim>\<open>signal\<close> and \<^verbatim>\<open>SetConsoleCtrlHandler\<close> are parameters. The C runtime has its own \<^verbatim>\<open>errno\<close>.
\<close>

section \<open>State and calls\<close>

record 'os wsig =
  wtable :: "int list"
  wchan :: "'os wnotif"
  werrno :: int

text \<open>
  \<open>signal_c signum h\<close>: whether \<^verbatim>\<open>signal\<close> returned \<^verbatim>\<open>SIG_ERR\<close>. \<open>SetConsoleCtrlHandler h add\<close>: \<open>h\<close> is \<open>True\<close> for \<^verbatim>\<open>handle_break\<close> and \<open>False\<close> for
  \<^verbatim>\<open>NULL\<close>.
\<close>

record 'os wsigcalls =
  signal_c :: "int \<Rightarrow> sa_handler \<Rightarrow> ('os, bool) syscall"
  SetConsoleCtrlHandler :: "bool \<Rightarrow> bool \<Rightarrow> ('os, bool) syscall"

text \<open>A call of the C runtime, which sets \<^verbatim>\<open>errno\<close>, and a call of the Windows interface, which sets the last error.\<close>

definition crt_call :: "('os, 'r) syscall \<Rightarrow> 'os wsig \<Rightarrow> 'r \<times> 'os wsig" where
  "crt_call f st =
     (case f (werrno st) (wos (wst (wchan st))) of
        (r, e, w) \<Rightarrow> (r, st\<lparr>werrno := e, wchan := wchan st\<lparr>wst := wst (wchan st)\<lparr>wos := w\<rparr>\<rparr>\<rparr>))"

definition win_call :: "('os, 'r) syscall \<Rightarrow> 'os wsig \<Rightarrow> 'r \<times> 'os wsig" where
  "win_call f st = (case wcall f (wst (wchan st)) of (r, w) \<Rightarrow> (r, st\<lparr>wchan := wchan st\<lparr>wst := w\<rparr>\<rparr>))"

definition NSIG_win :: "'os wsig \<Rightarrow> int" where
  "NSIG_win st = int (length (wtable st))"

definition set_entry_win :: "int \<Rightarrow> int \<Rightarrow> 'os wsig \<Rightarrow> 'os wsig option" where
  "set_entry_win signum v st =
     (if 0 \<le> signum \<and> signum < NSIG_win st then Some (st\<lparr>wtable := (wtable st)[nat signum := v]\<rparr>) else None)"

section \<open>Operations\<close>

definition handle_signal_win ::
    "'os wsigcalls \<Rightarrow> 'os winsock \<Rightarrow> (string \<Rightarrow> int) \<Rightarrow> (int \<Rightarrow> int) \<Rightarrow> int \<Rightarrow> 'os wsig \<Rightarrow> (unit outcome \<times> 'os wsig) option" where
  "handle_signal_win S A K maperr signum st =
     (if 0 \<le> signum \<and> signum < NSIG_win st then do {
        let nid = wtable st ! nat signum;
        if nid \<noteq> -1 then do {
          let (_, st) = crt_call (signal_c S signum Handle_signal) st;
          (r, n) \<leftarrow> lwt_unix_send_notification_win A K maperr nid (wchan st);
          Some (r, st\<lparr>wchan := n\<rparr>)
        } else Some (Ret (), st)
      } else Some (Ret (), st))"

text \<open>The console handler, on the state with the table.\<close>

definition handle_break_win ::
    "'os winsock \<Rightarrow> (string \<Rightarrow> int) \<Rightarrow> (int \<Rightarrow> int) \<Rightarrow> int \<Rightarrow> 'os wsig \<Rightarrow> (bool outcome \<times> 'os wsig) option" where
  "handle_break_win A K maperr event st = do {
     (r, n) \<leftarrow> handle_break A K maperr (wtable st) event (wchan st);
     Some (r, st\<lparr>wchan := n\<rparr>)
   }"

definition lwt_unix_set_signal_win ::
    "'os wsigcalls \<Rightarrow> (string \<Rightarrow> int) \<Rightarrow> (int \<Rightarrow> int) \<Rightarrow> (int \<Rightarrow> int) \<Rightarrow> int \<Rightarrow> int \<Rightarrow> bool \<Rightarrow> 'os wsig
       \<Rightarrow> (caml_value outcome \<times> 'os wsig) option" where
  "lwt_unix_set_signal_win S K maperr convert val_signum val_notification val_forwarded st = do {
     let signum = convert (c_int val_signum);
     let notification = c_long val_notification;
     if signum < 0 \<or> signum \<ge> NSIG_win st then
       Some (Raise (Invalid_argument ''Lwt_unix.on_signal: unavailable signal''), st)
     else do {
       st \<leftarrow> set_entry_win signum notification st;
       if val_forwarded then Some (Ret Val_unit, st)
       else if signum = K ''SIGINT'' then do {
         let (ok, st) = win_call (SetConsoleCtrlHandler S True True) st;
         if \<not> ok then do {
           st \<leftarrow> set_entry_win signum (-1) st;
           Some (Raise (Unix_error (maperr (wsa_error (wst (wchan st)))) ''SetConsoleCtrlHandler'' Nothing), st)
         } else Some (Ret Val_unit, st)
       } else do {
         let (sig_err, st) = crt_call (signal_c S signum Handle_signal) st;
         if sig_err then do {
           st \<leftarrow> set_entry_win signum (-1) st;
           Some (Raise (Unix_error (werrno st) ''signal'' Nothing), st)
         } else Some (Ret Val_unit, st)
       }
     }
   }"

definition lwt_unix_remove_signal_win ::
    "'os wsigcalls \<Rightarrow> (string \<Rightarrow> int) \<Rightarrow> (int \<Rightarrow> int) \<Rightarrow> int \<Rightarrow> bool \<Rightarrow> 'os wsig \<Rightarrow> (caml_value outcome \<times> 'os wsig) option" where
  "lwt_unix_remove_signal_win S K convert val_signum val_forwarded st = do {
     let signum = convert (c_int val_signum);
     st \<leftarrow> set_entry_win signum (-1) st;
     if val_forwarded then Some (Ret Val_unit, st)
     else if signum = K ''SIGINT'' then Some (Ret Val_unit, snd (win_call (SetConsoleCtrlHandler S False False) st))
     else Some (Ret Val_unit, snd (crt_call (signal_c S signum SIG_DFL) st))
   }"

section \<open>Lemmas\<close>

text \<open>The calls leave the buffer, the sockets of the channel and the table alone.\<close>

lemma crt_call_frame:
  assumes "crt_call f st = (r, st')"
  shows "wtable st' = wtable st" "buffer (wchan st') = buffer (wchan st)" "socket_r (wchan st') = socket_r (wchan st)"
    "socket_w (wchan st') = socket_w (wchan st)" "windows_fns (wchan st') = windows_fns (wchan st)"
    "wos (wst (wchan st')) = snd (snd (f (werrno st) (wos (wst (wchan st)))))"
  using assms by (auto simp: crt_call_def split: prod.splits)

lemma win_call_frame:
  assumes "win_call f st = (r, st')"
  shows "wtable st' = wtable st" "buffer (wchan st') = buffer (wchan st)" "socket_r (wchan st') = socket_r (wchan st)"
    "socket_w (wchan st') = socket_w (wchan st)" "windows_fns (wchan st') = windows_fns (wchan st)"
    "wos (wst (wchan st')) = snd (snd (f (wsa_error (wst (wchan st))) (wos (wst (wchan st)))))"
  using assms by (auto simp: win_call_def wcall_def split: prod.splits)

lemma set_entry_win_Some:
  "set_entry_win signum v st = Some st' \<longleftrightarrow>
     0 \<le> signum \<and> signum < NSIG_win st \<and> st' = st\<lparr>wtable := (wtable st)[nat signum := v]\<rparr>"
  by (auto simp: set_entry_win_def)

end
