(* ===== verification/Notifier.thy ===== *)
theory Notifier
  imports Win_Signals
begin

text \<open>
  The notification system as its clients see it. The first part cuts \<^verbatim>\<open>lwt_unix_recv_notifications\<close> where it releases the mutex to allocate the tuple, so
  that the steps of other threads can come in between, and shows that the parts make up the whole function. The second part is the interface: a record of
  operations, and the locale \<open>notifier\<close> with what they promise, interpreted for the POSIX code and for the Windows code.
\<close>

section \<open>The receiver in steps\<close>

text \<open>
  From the entry of the function to the first release of the mutex. The local variables that live on are \<^verbatim>\<open>old_mask\<close> and \<^verbatim>\<open>current_index\<close>.
\<close>

definition recv_begin :: "'os posix \<Rightarrow> 'os notif \<Rightarrow> ((nat set \<times> int) outcome \<times> 'os notif) option" where
  "recv_begin P s = do {
     let old_mask = sigmask s;
     s \<leftarrow> lock_notifications (s\<lparr>sigmask := UNIV\<rparr>);
     (ret, s) \<leftarrow> call_notification_recv P s;
     if ret < 0 then do {
       let error = errno s;
       s \<leftarrow> unlock_notifications s;
       Some (Raise (Unix_error error ''recv_notifications'' Nothing), s\<lparr>sigmask := old_mask\<rparr>)
     } else do {
       let current_index = c_int (int (notification_index s));
       s \<leftarrow> unlock_notifications s;
       Some (Ret (old_mask, current_index), s)
     }
   }"

text \<open>From one acquisition of the mutex to its next release: go round again, or read the ids and return.\<close>

definition recv_again :: "nat set \<times> int \<Rightarrow> 'os notif \<Rightarrow> ((nat set \<times> int + caml_value) \<times> 'os notif) option" where
  "recv_again l s = do {
     s \<leftarrow> lock_notifications s;
     if snd l \<noteq> int (notification_index s) then do {
       let current_index = c_int (int (notification_index s));
       s \<leftarrow> unlock_notifications s;
       Some (Inl (fst l, current_index), s)
     } else do {
       result \<leftarrow> read_notifications (snd l) s;
       s \<leftarrow> unlock_notifications (s\<lparr>notification_index := 0\<rparr>);
       Some (Inr result, s\<lparr>sigmask := fst l\<rparr>)
     }
   }"

text \<open>The rounds of the loop, with what other threads send during each of them.\<close>

fun recv_rounds :: "'os posix \<Rightarrow> int list list \<Rightarrow> nat set \<times> int \<Rightarrow> 'os notif \<Rightarrow> (caml_value \<times> 'os notif) option" where
  "recv_rounds P [] l s = do {
     (r, s) \<leftarrow> recv_again l s;
     case r of Inl _ \<Rightarrow> None | Inr v \<Rightarrow> Some (v, s)
   }"
| "recv_rounds P (ids # rest) l s = do {
     s \<leftarrow> send_all P ids s;
     (r, s) \<leftarrow> recv_again l s;
     case r of Inl l \<Rightarrow> recv_rounds P rest l s | Inr v \<Rightarrow> Some (v, s)
   }"

definition recv_in_steps :: "'os posix \<Rightarrow> int list list \<Rightarrow> 'os notif \<Rightarrow> (caml_value outcome \<times> 'os notif) option" where
  "recv_in_steps P bs s = do {
     (r, s) \<leftarrow> recv_begin P s;
     case r of
       Raise e \<Rightarrow> Some (Raise e, s)
     | Ret l \<Rightarrow> map_option (\<lambda>(v, s). (Ret v, s)) (recv_rounds P bs l s)
   }"

text \<open>What follows the loop.\<close>

definition recv_finish :: "nat set \<Rightarrow> int \<times> 'os notif \<Rightarrow> (caml_value \<times> 'os notif) option" where
  "recv_finish old = (\<lambda>(current_index, s). do {
     result \<leftarrow> read_notifications current_index s;
     s \<leftarrow> unlock_notifications (s\<lparr>notification_index := 0\<rparr>);
     Some (result, s\<lparr>sigmask := old\<rparr>)
   })"

lemma recv_rounds_loop:
  "Option.bind (unlock_notifications s) (recv_rounds P bs (old, c_int (int (notification_index s)))) =
     Option.bind (recv_alloc_loop P bs s) (recv_finish old)"
proof (induction bs arbitrary: s)
  case Nil
  show ?case
    by (auto simp: recv_again_def recv_finish_def lock_defs Let_def split: option.splits bind_splits if_splits)
next
  case (Cons ids bs)
  show ?case
  proof (cases "unlock_notifications s")
    case (Some u)
    show ?thesis
    proof (cases "Option.bind (send_all P ids u) lock_notifications")
      case (Some v)
      then obtain t where t: "send_all P ids u = Some t" "lock_notifications t = Some v" by (auto simp: bind_Some_iff)
      with Cons.IH [of v] \<open>unlock_notifications s = Some u\<close> show ?thesis
        by (cases "unlock_notifications v") (auto simp: recv_again_def recv_finish_def Let_def split: option.splits bind_splits)
    next
      case None
      with \<open>unlock_notifications s = Some u\<close> show ?thesis
        by (cases "send_all P ids u") (simp_all add: recv_again_def Let_def)
    qed
  qed simp
qed

text \<open>The parts make up the function: for every interference, the same result in the same state.\<close>

lemma recv_notifications_steps: "lwt_unix_recv_notifications P bs s = recv_in_steps P bs s"
proof (cases "Option.bind (lock_notifications (s\<lparr>sigmask := UNIV\<rparr>)) (call_notification_recv P)")
  case None
  then show ?thesis
    by (cases "lock_notifications (s\<lparr>sigmask := UNIV\<rparr>)")
      (simp_all add: lwt_unix_recv_notifications_def recv_in_steps_def recv_begin_def Let_def)
next
  case (Some x)
  then obtain t ret u where t: "lock_notifications (s\<lparr>sigmask := UNIV\<rparr>) = Some t" "call_notification_recv P t = Some (ret, u)"
    by (cases x) (auto simp: bind_Some_iff)
  show ?thesis
  proof (cases "ret < 0")
    case True
    with t show ?thesis
      by (cases "unlock_notifications u")
        (simp_all add: lwt_unix_recv_notifications_def recv_in_steps_def recv_begin_def Let_def)
  next
    case False
    from t False have "lwt_unix_recv_notifications P bs s =
        map_option (\<lambda>(v, s). (Ret v, s)) (Option.bind (recv_alloc_loop P bs u) (recv_finish (sigmask s)))"
      by (auto simp: lwt_unix_recv_notifications_def recv_finish_def Let_def split: option.splits bind_splits)
    also have "\<dots> = map_option (\<lambda>(v, s). (Ret v, s))
        (Option.bind (unlock_notifications u) (recv_rounds P bs (sigmask s, c_int (int (notification_index u)))))"
      by (simp only: recv_rounds_loop)
    also have "\<dots> = recv_in_steps P bs s"
      using t False by (cases "unlock_notifications u") (simp_all add: recv_in_steps_def recv_begin_def Let_def)
    finally show ?thesis .
  qed
qed

section \<open>The interface\<close>

text \<open>
  What the rest of the program uses of the notification system. \<open>op_post\<close>: a worker sends an id. \<open>op_deliver\<close>: a signal arrives (\<open>op_masked\<close>: it is
  blocked). \<open>op_register\<close> and \<open>op_unregister\<close>: the stubs that monitor a signal or stop to. \<open>op_readable\<close>: the event loop finds the descriptor readable.
  \<open>op_recv_begin\<close>, \<open>op_recv_again\<close>: the steps of the receiver, with its local variables; the last one gives the ids as OCaml integers. An
  exception in a thread that does not run OCaml code, or out of a signal handler, has no meaning: the operation is then not defined.
\<close>

record ('n, 'l) channel_ops =
  op_post :: "int \<Rightarrow> 'n \<Rightarrow> 'n option"
  op_masked :: "int \<Rightarrow> 'n \<Rightarrow> bool"
  op_deliver :: "int \<Rightarrow> 'n \<Rightarrow> 'n option"
  op_register :: "int \<Rightarrow> int \<Rightarrow> bool \<Rightarrow> 'n \<Rightarrow> 'n option"
  op_unregister :: "int \<Rightarrow> bool \<Rightarrow> 'n \<Rightarrow> 'n option"
  op_readable :: "'n \<Rightarrow> bool"
  op_recv_begin :: "'n \<Rightarrow> ('l \<times> 'n) option"
  op_recv_again :: "'l \<Rightarrow> 'n \<Rightarrow> (('l + int list) \<times> 'n) option"

text \<open>
  The contract. \<open>contents\<close> are the ids sent and not received, \<open>table\<close> the ids of the monitored signals; \<open>mode False\<close> is the representation invariant at
  rest, \<open>mode True\<close> while a receive is under way. A post always succeeds, an unblocked signal adds at most the ids of monitored signals, the descriptor is
  readable exactly when an id waits, a completed receive gives all that is pending, and a receive that nobody disturbs completes.
\<close>

locale notifier =
  fixes C :: "('n, 'l) channel_ops"
    and contents :: "'n \<Rightarrow> int list"
    and table :: "'n \<Rightarrow> int list"
    and mode :: "bool \<Rightarrow> 'n \<Rightarrow> bool"
  assumes post_ok: "mode b s \<Longrightarrow>
      \<exists>s'. op_post C x s = Some s' \<and> mode b s' \<and> contents s' = contents s @ [x] \<and> table s' = table s"
    and deliver_ok: "mode b s \<Longrightarrow> \<not> op_masked C i s \<Longrightarrow>
      \<exists>s' xs. op_deliver C i s = Some s' \<and> mode b s' \<and> contents s' = contents s @ xs \<and> set xs \<subseteq> set (table s) - {-1} \<and>
        table s' = table s"
    and register_ok: "mode False s \<Longrightarrow> caml_int nid = nid \<Longrightarrow> op_register C v nid fwd s = Some s' \<Longrightarrow>
      mode False s' \<and> contents s' = contents s \<and> set (table s') \<subseteq> {nid, -1} \<union> set (table s)"
    and unregister_ok: "mode False s \<Longrightarrow> op_unregister C v fwd s = Some s' \<Longrightarrow>
      mode False s' \<and> contents s' = contents s \<and> set (table s') \<subseteq> {-1} \<union> set (table s)"
    and readable_iff: "mode False s \<Longrightarrow> op_readable C s \<longleftrightarrow> contents s \<noteq> []"
    and begin_ok: "mode False s \<Longrightarrow> op_readable C s \<Longrightarrow> op_recv_begin C s = Some (l, s') \<Longrightarrow>
      mode True s' \<and> contents s' = contents s \<and> table s' = table s"
    and again_more: "mode True s \<Longrightarrow> op_recv_again C l s = Some (Inl l', s') \<Longrightarrow>
      mode True s' \<and> contents s' = contents s \<and> table s' = table s"
    and again_done: "mode True s \<Longrightarrow> op_recv_again C l s = Some (Inr ids, s') \<Longrightarrow>
      mode False s' \<and> ids = map caml_int (contents s) \<and> contents s' = [] \<and> table s' = table s"
    and recv_total: "mode False s \<Longrightarrow> op_readable C s \<Longrightarrow> length (contents s) < 2 ^ 31 \<Longrightarrow>
      \<exists>l s1 s2. op_recv_begin C s = Some (l, s1) \<and> op_recv_again C l s1 = Some (Inr (map caml_int (contents s)), s2)"

text \<open>A notifier is a mailbox, at rest and during a receive.\<close>

sublocale notifier \<subseteq> box: mailbox "op_post C" contents "mode b" for b
  by unfold_locales (use post_ok in blast)

section \<open>The POSIX code\<close>

text \<open>The integers of a tuple, and the operation that is not defined when the code raises.\<close>

fun Long_val :: "caml_value \<Rightarrow> int option" where
  "Long_val (Imm i) = Some i"
| "Long_val _ = None"

fun tuple_longs :: "caml_value \<Rightarrow> int list option" where
  "tuple_longs (Block _ vs) = those (map Long_val vs)"
| "tuple_longs _ = None"

lemma those_map_Some: "those (map (\<lambda>x. Some (f x)) xs) = Some (map f xs)"
  by (induction xs) simp_all

lemma tuple_longs_ids: "tuple_longs (Block t (map Val_long ids)) = Some (map caml_int ids)"
  by (simp add: Val_long_def comp_def those_map_Some)

definition no_raise :: "('r outcome \<times> 's) option \<Rightarrow> ('r \<times> 's) option" where
  "no_raise x = do { (r, s) \<leftarrow> x; case r of Ret v \<Rightarrow> Some (v, s) | Raise _ \<Rightarrow> None }"

lemma no_raise_simps [simp]:
  "no_raise (Some (Ret v, s)) = Some (v, s)" "no_raise (Some (Raise e, s)) = None" "no_raise None = None"
  by (simp_all add: no_raise_def)

text \<open>The operations on the state of theory \<open>Signals\<close>. \<open>level\<close> counts the wake-ups in the descriptor.\<close>

definition posix_ops ::
    "(string \<Rightarrow> int) \<Rightarrow> bool \<Rightarrow> (int \<Rightarrow> int) \<Rightarrow> 'os posix \<Rightarrow> 'os sigaction \<Rightarrow> ('os \<Rightarrow> nat) \<Rightarrow> ('os sigst, nat set \<times> int) channel_ops" where
  "posix_ops K ocaml5 convert P sa level =
     \<lparr>op_post = (\<lambda>nid st. do { (_, n) \<leftarrow> no_raise (lwt_unix_send_notification P nid (nstate st)); Some (st\<lparr>nstate := n\<rparr>) }),
      op_masked = (\<lambda>signum st. nat signum \<in> sigmask (nstate st)),
      op_deliver = (\<lambda>signum st. map_option snd (no_raise (handle_signal P signum st))),
      op_register = (\<lambda>v nid fwd st. map_option snd (lwt_unix_set_signal K ocaml5 convert sa v nid fwd st)),
      op_unregister = (\<lambda>v fwd st. map_option snd (lwt_unix_remove_signal convert sa v fwd st)),
      op_readable = (\<lambda>st. 0 < level (os (nstate st))),
      op_recv_begin = (\<lambda>st. do { (l, n) \<leftarrow> no_raise (recv_begin P (nstate st)); Some (l, st\<lparr>nstate := n\<rparr>) }),
      op_recv_again = (\<lambda>l st. do {
        (r, n) \<leftarrow> recv_again l (nstate st);
        case r of
          Inl l \<Rightarrow> Some (Inl l, st\<lparr>nstate := n\<rparr>)
        | Inr v \<Rightarrow> do { ids \<leftarrow> tuple_longs v; Some (Inr ids, st\<lparr>nstate := n\<rparr>) }
      })\<rparr>"

text \<open>Installing a signal handler does not touch the descriptor.\<close>

definition quiet_sigaction :: "('os \<Rightarrow> nat) \<Rightarrow> 'os sigaction \<Rightarrow> bool" where
  "quiet_sigaction level sa \<longleftrightarrow> (\<forall>signum h fl e w. level (snd (snd (sa signum h fl e w))) = level w)"

text \<open>
  At rest the wake-up protocol holds. During a receive the wake-up has been consumed although ids are pending, so that nobody writes to the descriptor, and
  the main thread has blocked all signals.
\<close>

definition posix_mode :: "'os posix \<Rightarrow> 'os sigaction \<Rightarrow> ('os \<Rightarrow> nat) \<Rightarrow> bool \<Rightarrow> 'os sigst \<Rightarrow> bool" where
  "posix_mode P sa level b st \<longleftrightarrow>
     notif_ready (nstate st) \<and> wakeup_channel P level (channel (nstate st)) \<and> quiet_sigaction level sa \<and>
     (if b then level (os (nstate st)) = 0 \<and> pending (nstate st) \<noteq> [] \<and> sigmask (nstate st) = UNIV
      else wake_inv level (nstate st))"

lemma posix_post_ok:
  assumes "posix_mode P sa level b st"
  shows "\<exists>n. lwt_unix_send_notification P nid (nstate st) = Some (Ret (), n) \<and> posix_mode P sa level b (st\<lparr>nstate := n\<rparr>) \<and>
    pending n = pending (nstate st) @ [nid]"
proof (cases b)
  case True
  then have "notif_ready (nstate st)" "0 < notification_index (nstate st)"
    using assms pending_empty_iff [of "nstate st"] by (auto simp: posix_mode_def notif_ready_def)
  from send_when_pending [OF this, of P nid] assms True show ?thesis by (auto simp: posix_mode_def)
next
  case False
  with assms send_wake [of "nstate st" P level nid] show ?thesis by (auto simp: posix_mode_def)
qed

lemma quiet_libc: "quiet_sigaction level sa \<Longrightarrow> libc (sa i h fl) n = (r, n') \<Longrightarrow> level (os n') = level (os n)"
  unfolding quiet_sigaction_def libc_def by (auto split: prod.splits) (metis snd_conv)

lemma posix_mode_libc:
  assumes "posix_mode P sa level b st" "libc (sa i h fl) (nstate st) = (r, nstate st')"
  shows "posix_mode P sa level b st' \<and> pending (nstate st') = pending (nstate st)"
proof -
  have "level (os (nstate st')) = level (os (nstate st))" using assms quiet_libc by (auto simp: posix_mode_def)
  with assms(1) libc_frame [OF assms(2)] show ?thesis by (auto simp: posix_mode_def wake_inv_def notif_ready_def)
qed

lemma posix_mode_table: "posix_mode P sa level b (st\<lparr>signal_notifications := t\<rparr>) = posix_mode P sa level b st"
  by (simp add: posix_mode_def)

lemma c_long_caml_int: "c_long (caml_int i) = caml_int i"
  by (simp add: c_long_def caml_int_def signed_take_bit_signed_take_bit min_def)

lemma caml_int_c_long: "caml_int i = i \<Longrightarrow> c_long i = i"
  using c_long_caml_int [of i] by simp

lemma posix_register_ok:
  assumes "posix_mode P sa level b st" "lwt_unix_set_signal K o5 convert sa v nid fwd st = Some (r, st')" "caml_int nid = nid"
  shows "posix_mode P sa level b st' \<and> pending (nstate st') = pending (nstate st) \<and>
    set (signal_notifications st') \<subseteq> {nid, -1} \<union> set (signal_notifications st)"
proof (cases "convert (c_int v) < 0 \<or> NSIG st \<le> convert (c_int v) \<or> fwd")
  case True
  with assms show ?thesis
    by (auto simp: lwt_unix_set_signal_def set_entry_def Let_def posix_mode_table caml_int_c_long
        dest!: set_update_subset_insert [THEN subsetD] split: if_splits)
next
  case False
  let ?i = "convert (c_int v)"
  obtain a n where call: "libc (sa ?i Handle_signal (if o5 then K ''SA_ONSTACK'' else 0)) (nstate st) = (a, n)"
    by (meson prod.exhaust)
  have "nstate st' = n" "set (signal_notifications st') \<subseteq> {nid, -1} \<union> set (signal_notifications st)"
    using False call assms(2,3)
    by (auto simp: lwt_unix_set_signal_def set_entry_def NSIG_def Let_def caml_int_c_long
        dest!: set_update_subset_insert [THEN subsetD] split: if_splits)
  with posix_mode_libc [OF assms(1), of ?i Handle_signal _ a st'] call show ?thesis by blast
qed

lemma posix_unregister_ok:
  assumes "posix_mode P sa level b st" "lwt_unix_remove_signal convert sa v fwd st = Some (r, st')"
  shows "posix_mode P sa level b st' \<and> pending (nstate st') = pending (nstate st) \<and>
    set (signal_notifications st') \<subseteq> {-1} \<union> set (signal_notifications st)"
proof -
  let ?i = "convert (c_int v)" and ?t = "(signal_notifications st)[nat (convert (c_int v)) := -1]"
  obtain a n where call: "libc (sa ?i SIG_DFL 0) (nstate st) = (a, n)" by (meson prod.exhaust)
  have "set ?t \<subseteq> {-1} \<union> set (signal_notifications st)" using set_update_subset_insert by fastforce
  moreover have "signal_notifications st' = ?t" "nstate st' = nstate st \<or> nstate st' = n"
    using assms(2) call by (auto simp: lwt_unix_remove_signal_def set_entry_def Let_def split: if_splits)
  ultimately show ?thesis
    using posix_mode_libc [OF assms(1), of ?i SIG_DFL 0 a st'] call assms(1) by (auto simp: posix_mode_def)
qed

lemma posix_deliver_ok:
  assumes "posix_mode P sa level b st"
  shows "\<exists>st' xs. handle_signal P i st = Some (Ret (), st') \<and> posix_mode P sa level b st' \<and>
    pending (nstate st') = pending (nstate st) @ xs \<and> set xs \<subseteq> set (signal_notifications st) - {-1} \<and>
    signal_notifications st' = signal_notifications st"
proof (cases "0 \<le> i \<and> i < NSIG st \<and> signal_notifications st ! nat i \<noteq> -1")
  case True
  let ?nid = "signal_notifications st ! nat i"
  from posix_post_ok [OF assms, of ?nid] obtain n where
    n: "lwt_unix_send_notification P ?nid (nstate st) = Some (Ret (), n)" "posix_mode P sa level b (st\<lparr>nstate := n\<rparr>)"
      "pending n = pending (nstate st) @ [?nid]" by blast
  have "?nid \<in> set (signal_notifications st)" using True by (auto simp: NSIG_def intro!: nth_mem)
  with n True show ?thesis by (simp add: handle_signal_def)
next
  case False
  then have "handle_signal P i st = Some (Ret (), st)" by (rule handle_signal_ignored)
  with assms show ?thesis by simp
qed

text \<open>The first step consumes the wake-up; a later step changes nothing, or takes all the ids and leaves an empty buffer without a wake-up.\<close>

lemma posix_begin_ok:
  assumes "posix_mode P sa level False st" "0 < level (os (nstate st))"
  shows "\<exists>n. recv_begin P (nstate st) = Some (Ret (sigmask (nstate st), c_int (int (notification_index (nstate st)))), n) \<and>
    posix_mode P sa level True (st\<lparr>nstate := n\<rparr>) \<and> pending n = pending (nstate st) \<and>
    notification_index n = notification_index (nstate st)"
proof -
  let ?u = "(nstate st)\<lparr>sigmask := UNIV, notification_mutex := Mutex_held\<rparr>"
  have ready: "notif_ready (nstate st)" and ne: "pending (nstate st) \<noteq> []"
    using assms by (auto simp: posix_mode_def wake_inv_def split: if_splits)
  obtain ret t where call: "call_notification_recv P ?u = Some (ret, t)"
    using call_recv_Some [of ?u P] ready by (auto simp: notif_ready_def)
  have "channel ?u = channel (nstate st)" "level (os ?u) = 1"
    using assms(1) ne by (simp_all add: posix_mode_def wake_inv_def)
  with assms(1) call have r: "0 \<le> ret" "level (os t) = 0" unfolding posix_mode_def wakeup_channel_def by blast+
  from call obtain f where "libc f ?u = (ret, t)" using call_recv_libc by blast
  note lf = libc_frame [OF this]
  have "recv_begin P (nstate st) =
      Some (Ret (sigmask (nstate st), c_int (int (notification_index (nstate st)))), t\<lparr>notification_mutex := Mutex_free\<rparr>)"
    using ready call r(1) lf by (simp add: recv_begin_def notif_ready_def lock_defs Let_def)
  then show ?thesis
    using assms(1) lf r(2) ne by (auto simp: posix_mode_def notif_ready_def)
qed

lemma posix_again_more:
  assumes "posix_mode P sa level True st" "snd l \<noteq> int (notification_index (nstate st))"
  shows "recv_again l (nstate st) = Some (Inl (fst l, c_int (int (notification_index (nstate st)))), nstate st)"
  using assms by (simp add: posix_mode_def notif_ready_def recv_again_def lock_defs Let_def)

lemma reset_index: "pending (s\<lparr>notification_index := 0\<rparr>) = []" "channel (s\<lparr>notification_index := i\<rparr>) = channel s"
  by (simp_all add: pending_def channel_def)

lemma posix_again_done:
  assumes "posix_mode P sa level True st" "snd l = int (notification_index (nstate st))"
  shows "\<exists>n. recv_again l (nstate st) = Some (Inr (Block 0 (map Val_long (pending (nstate st)))), n) \<and>
    posix_mode P sa level False (st\<lparr>nstate := n\<rparr>) \<and> pending n = []"
proof -
  have wf: "notif_wf (nstate st)" and m: "notification_mutex (nstate st) = Mutex_free"
    using assms(1) by (simp_all add: posix_mode_def notif_ready_def)
  then have "recv_again l (nstate st) = Some (Inr (Block 0 (map Val_long (pending (nstate st)))),
      (nstate st)\<lparr>notification_index := 0, notification_mutex := Mutex_free, sigmask := fst l\<rparr>)"
    using assms(2) by (simp add: recv_again_def lock_defs read_notifications_def notif_wf_def pending_def Let_def)
  then show ?thesis
    using assms(1) by (auto simp: posix_mode_def notif_ready_def notif_wf_def wake_inv_def reset_index)
qed

interpretation posix: notifier "posix_ops K ocaml5 convert P sa level" "\<lambda>st. pending (nstate st)" signal_notifications "posix_mode P sa level"
  for K ocaml5 convert P sa level
proof (unfold_locales, goal_cases)
  case (1 b s x)
  from posix_post_ok [OF 1, of x] show ?case by (auto simp: posix_ops_def)
next
  case (2 b s i)
  from posix_deliver_ok [OF 2(1), of i] show ?case by (auto simp: posix_ops_def)
next
  case (3 s nid v fwd s')
  then obtain r where "lwt_unix_set_signal K ocaml5 convert sa v nid fwd s = Some (r, s')" by (auto simp: posix_ops_def)
  from posix_register_ok [OF 3(1) this 3(2)] show ?case by simp
next
  case (4 s v fwd s')
  then obtain r where "lwt_unix_remove_signal convert sa v fwd s = Some (r, s')" by (auto simp: posix_ops_def)
  from posix_unregister_ok [OF 4(1) this] show ?case by simp
next
  case (5 s)
  then show ?case by (simp add: posix_ops_def posix_mode_def wake_inv_def)
next
  case (6 s l s')
  then show ?case using posix_begin_ok [OF 6(1)] by (auto simp: posix_ops_def)
next
  case (7 s l l' s')
  show ?case
  proof (cases "snd l = int (notification_index (nstate s))")
    case True
    with posix_again_done [OF 7(1) True] 7(2) show ?thesis by (auto simp: posix_ops_def tuple_longs_ids simp del: tuple_longs.simps)
  next
    case False
    with posix_again_more [OF 7(1) False] 7 show ?thesis by (auto simp: posix_ops_def)
  qed
next
  case (8 s l ids s')
  show ?case
  proof (cases "snd l = int (notification_index (nstate s))")
    case True
    with posix_again_done [OF 8(1) True] 8(2) show ?thesis by (auto simp: posix_ops_def tuple_longs_ids simp del: tuple_longs.simps)
  next
    case False
    with posix_again_more [OF 8(1) False] 8 show ?thesis by (auto simp: posix_ops_def)
  qed
next
  case (9 s)
  from 9(2) have "0 < level (os (nstate s))" by (simp add: posix_ops_def)
  from posix_begin_ok [OF 9(1) this] obtain n where
    n: "recv_begin P (nstate s) = Some (Ret (sigmask (nstate s), c_int (int (notification_index (nstate s)))), n)"
      "posix_mode P sa level True (s\<lparr>nstate := n\<rparr>)" "pending n = pending (nstate s)"
      "notification_index n = notification_index (nstate s)" by blast
  have "c_int (int (notification_index (nstate s))) = int (notification_index (nstate s))"
    using 9(1,3) by (intro index_fits) (simp_all add: posix_mode_def notif_ready_def)
  with posix_again_done [OF n(2), of "(sigmask (nstate s), c_int (int (notification_index (nstate s))))"] n show ?case
    by (auto simp: posix_ops_def tuple_longs_ids simp del: tuple_longs.simps)
qed

end
