(* ===== verification/Notifier_Win.thy ===== *)
theory Notifier_Win
  imports Notifier
begin

text \<open>
  The Windows code as a notifier: the receiver of theory \<open>Win_Sockets\<close> in steps, the wake-up protocol of the pair of sockets, and the interpretation of
  the interface of theory \<open>Notifier\<close>, in which the handlers of signals and of console events run in threads of their own and nothing is masked.
\<close>

section \<open>The receiver in steps\<close>

definition recv_begin_win :: "'os winsock \<Rightarrow> (int \<Rightarrow> int) \<Rightarrow> 'os wnotif \<Rightarrow> (int outcome \<times> 'os wnotif) option" where
  "recv_begin_win A maperr s = do {
     b \<leftarrow> lock_notifications (buffer s);
     if \<not> windows_fns s then None
     else do {
       let (ret, s) = windows_notification_recv A (s\<lparr>buffer := b\<rparr>);
       if ret = SOCKET_ERROR then do {
         let error = wsa_error (wst s);
         b \<leftarrow> unlock_notifications (buffer s);
         Some (Raise (Unix_error (maperr error) ''recv_notifications'' Nothing), s\<lparr>buffer := b\<rparr>)
       } else do {
         let current_index = c_int (int (notification_index (buffer s)));
         b \<leftarrow> unlock_notifications (buffer s);
         Some (Ret current_index, s\<lparr>buffer := b\<rparr>)
       }
     }
   }"

definition recv_again_win :: "int \<Rightarrow> 'os wnotif \<Rightarrow> ((int + caml_value) \<times> 'os wnotif) option" where
  "recv_again_win current_index s = do {
     b \<leftarrow> lock_notifications (buffer s);
     if current_index \<noteq> c_int (int (notification_index b)) then do {
       let current_index = c_int (int (notification_index b));
       b \<leftarrow> unlock_notifications b;
       Some (Inl current_index, s\<lparr>buffer := b\<rparr>)
     } else do {
       result \<leftarrow> read_notifications current_index b;
       b \<leftarrow> unlock_notifications (b\<lparr>notification_index := 0\<rparr>);
       Some (Inr result, s\<lparr>buffer := b\<rparr>)
     }
   }"

fun recv_rounds_win :: "'os winsock \<Rightarrow> (string \<Rightarrow> int) \<Rightarrow> (int \<Rightarrow> int) \<Rightarrow> int list list \<Rightarrow> int \<Rightarrow> 'os wnotif
    \<Rightarrow> (caml_value \<times> 'os wnotif) option" where
  "recv_rounds_win A K maperr [] l s = do {
     (r, s) \<leftarrow> recv_again_win l s;
     case r of Inl _ \<Rightarrow> None | Inr v \<Rightarrow> Some (v, s)
   }"
| "recv_rounds_win A K maperr (ids # rest) l s = do {
     s \<leftarrow> send_all_win A K maperr ids s;
     (r, s) \<leftarrow> recv_again_win l s;
     case r of Inl l \<Rightarrow> recv_rounds_win A K maperr rest l s | Inr v \<Rightarrow> Some (v, s)
   }"

definition recv_in_steps_win :: "'os winsock \<Rightarrow> (string \<Rightarrow> int) \<Rightarrow> (int \<Rightarrow> int) \<Rightarrow> int list list \<Rightarrow> 'os wnotif
    \<Rightarrow> (caml_value outcome \<times> 'os wnotif) option" where
  "recv_in_steps_win A K maperr bs s = do {
     (r, s) \<leftarrow> recv_begin_win A maperr s;
     case r of
       Raise e \<Rightarrow> Some (Raise e, s)
     | Ret l \<Rightarrow> map_option (\<lambda>(v, s). (Ret v, s)) (recv_rounds_win A K maperr bs l s)
   }"

definition recv_finish_win :: "int \<times> 'os wnotif \<Rightarrow> (caml_value \<times> 'os wnotif) option" where
  "recv_finish_win = (\<lambda>(current_index, s). do {
     result \<leftarrow> read_notifications current_index (buffer s);
     b \<leftarrow> unlock_notifications (buffer s\<lparr>notification_index := 0\<rparr>);
     Some (result, s\<lparr>buffer := b\<rparr>)
   })"

lemma recv_rounds_loop_win:
  "Option.bind (unlock_notifications (buffer s)) (\<lambda>b. recv_rounds_win A K maperr bs (c_int (int (notification_index (buffer s)))) (s\<lparr>buffer := b\<rparr>)) =
     Option.bind (recv_alloc_loop_win A K maperr bs s) recv_finish_win"
proof (induction bs arbitrary: s)
  case Nil
  show ?case
  proof (cases "unlock_notifications (buffer s)")
    case (Some u)
    then show ?thesis
      by (cases "lock_notifications u") (auto simp: recv_again_win_def recv_finish_win_def Let_def split: option.splits bind_splits)
  qed simp
next
  case (Cons ids bs)
  show ?case
  proof (cases "unlock_notifications (buffer s)")
    case (Some u)
    show ?thesis
    proof (cases "send_all_win A K maperr ids (s\<lparr>buffer := u\<rparr>)")
      case (Some t)
      show ?thesis
      proof (cases "lock_notifications (buffer t)")
        case (Some v)
        with Cons.IH [of "t\<lparr>buffer := v\<rparr>"] \<open>unlock_notifications (buffer s) = Some u\<close> \<open>send_all_win A K maperr ids (s\<lparr>buffer := u\<rparr>) = Some t\<close>
        show ?thesis
          by (cases "unlock_notifications v") (auto simp: recv_again_win_def recv_finish_win_def Let_def split: option.splits bind_splits)
      next
        case None
        with \<open>unlock_notifications (buffer s) = Some u\<close> \<open>send_all_win A K maperr ids (s\<lparr>buffer := u\<rparr>) = Some t\<close>
        show ?thesis by (simp add: recv_again_win_def Let_def)
      qed
    next
      case None
      with \<open>unlock_notifications (buffer s) = Some u\<close> show ?thesis by (simp add: Let_def)
    qed
  qed simp
qed

lemma recv_notifications_steps_win: "lwt_unix_recv_notifications_win A K maperr bs s = recv_in_steps_win A K maperr bs s"
proof (cases "lock_notifications (buffer s)")
  case (Some b)
  obtain ret u where u: "windows_notification_recv A (s\<lparr>buffer := b\<rparr>) = (ret, u)" by (meson prod.exhaust)
  show ?thesis
  proof (cases "windows_fns s \<and> ret \<noteq> SOCKET_ERROR")
    case True
    from Some u True have "lwt_unix_recv_notifications_win A K maperr bs s =
        map_option (\<lambda>(v, s). (Ret v, s)) (Option.bind (recv_alloc_loop_win A K maperr bs u) recv_finish_win)"
      by (auto simp: lwt_unix_recv_notifications_win_def recv_finish_win_def Let_def split: option.splits bind_splits)
    also have "\<dots> = recv_in_steps_win A K maperr bs s"
      using Some u True recv_rounds_loop_win [of u A K maperr bs]
      by (cases "unlock_notifications (buffer u)") (auto simp: recv_in_steps_win_def recv_begin_win_def Let_def)
    finally show ?thesis .
  next
    case False
    with Some u show ?thesis
      by (auto simp: lwt_unix_recv_notifications_win_def recv_in_steps_win_def recv_begin_win_def Let_def split: bind_splits)
  qed
qed (simp add: lwt_unix_recv_notifications_win_def recv_in_steps_win_def recv_begin_win_def)

section \<open>The operations\<close>

text \<open>\<^verbatim>\<open>SIGINT\<close> comes as a console event, the other signals through the C runtime.\<close>

definition deliver_win ::
    "'os wsigcalls \<Rightarrow> 'os winsock \<Rightarrow> (string \<Rightarrow> int) \<Rightarrow> (int \<Rightarrow> int) \<Rightarrow> int \<Rightarrow> 'os wsig \<Rightarrow> 'os wsig option" where
  "deliver_win S A K maperr signum st =
     (if signum = K ''SIGINT'' then map_option snd (no_raise (handle_break_win A K maperr (K ''CTRL_C_EVENT'') st))
      else map_option snd (no_raise (handle_signal_win S A K maperr signum st)))"

definition win_ops ::
    "(string \<Rightarrow> int) \<Rightarrow> (int \<Rightarrow> int) \<Rightarrow> (int \<Rightarrow> int) \<Rightarrow> 'os wsigcalls \<Rightarrow> 'os winsock \<Rightarrow> ('os \<Rightarrow> nat) \<Rightarrow> ('os wsig, int) channel_ops" where
  "win_ops K maperr convert S A level =
     \<lparr>op_post = (\<lambda>nid st. do { (_, n) \<leftarrow> no_raise (lwt_unix_send_notification_win A K maperr nid (wchan st)); Some (st\<lparr>wchan := n\<rparr>) }),
      op_masked = (\<lambda>_ _. False),
      op_deliver = deliver_win S A K maperr,
      op_register = (\<lambda>v nid fwd st. map_option snd (lwt_unix_set_signal_win S K maperr convert v nid fwd st)),
      op_unregister = (\<lambda>v fwd st. map_option snd (lwt_unix_remove_signal_win S K convert v fwd st)),
      op_readable = (\<lambda>st. 0 < level (wos (wst (wchan st)))),
      op_recv_begin = (\<lambda>st. do { (l, n) \<leftarrow> no_raise (recv_begin_win A maperr (wchan st)); Some (l, st\<lparr>wchan := n\<rparr>) }),
      op_recv_again = (\<lambda>l st. do {
        (r, n) \<leftarrow> recv_again_win l (wchan st);
        case r of
          Inl l \<Rightarrow> Some (Inl l, st\<lparr>wchan := n\<rparr>)
        | Inr v \<Rightarrow> do { ids \<leftarrow> tuple_longs v; Some (Inr ids, st\<lparr>wchan := n\<rparr>) }
      })\<rparr>"

section \<open>The wake-up protocol\<close>

text \<open>
  What the documentation of \<^verbatim>\<open>send\<close> and \<^verbatim>\<open>recv\<close> says of a connected pair of stream sockets: \<open>level\<close> is the number of bytes that wait; a send of one byte to an
  empty pair succeeds, and a receive takes the byte that waits. The calls that install handlers do not touch the pair.
\<close>

definition wakeup_sockets :: "'os winsock \<Rightarrow> ('os \<Rightarrow> nat) \<Rightarrow> int \<Rightarrow> int \<Rightarrow> bool" where
  "wakeup_sockets A level r w \<longleftrightarrow>
     (\<forall>e os. level os = 0 \<longrightarrow> fst (send_w A w ''!'' e os) \<noteq> SOCKET_ERROR \<and> level (snd (snd (send_w A w ''!'' e os))) = 1) \<and>
     (\<forall>e os. level os = 1 \<longrightarrow> fst (recv_w A r 1 e os) \<noteq> SOCKET_ERROR \<and> level (snd (snd (recv_w A r 1 e os))) = 0)"

definition quiet_calls :: "'os wsigcalls \<Rightarrow> ('os \<Rightarrow> nat) \<Rightarrow> bool" where
  "quiet_calls S level \<longleftrightarrow>
     (\<forall>i h e w. level (snd (snd (signal_c S i h e w))) = level w) \<and>
     (\<forall>h a e w. level (snd (snd (SetConsoleCtrlHandler S h a e w))) = level w)"

definition win_mode :: "(string \<Rightarrow> int) \<Rightarrow> 'os wsigcalls \<Rightarrow> 'os winsock \<Rightarrow> ('os \<Rightarrow> nat) \<Rightarrow> bool \<Rightarrow> 'os wsig \<Rightarrow> bool" where
  "win_mode K S A level b st \<longleftrightarrow>
     wnotif_ready (wchan st) \<and> wakeup_sockets A level (socket_r (wchan st)) (socket_w (wchan st)) \<and> quiet_calls S level \<and>
     0 \<le> K ''SIGINT'' \<and> K ''SIGINT'' < NSIG_win st \<and>
     (if b then level (wos (wst (wchan st))) = 0 \<and> pending (buffer (wchan st)) \<noteq> []
      else level (wos (wst (wchan st))) = (if pending (buffer (wchan st)) = [] then 0 else 1))"

lemma send_win_frame:
  "lwt_unix_send_notification_win A K maperr nid s = Some (r, s') \<Longrightarrow> socket_r s' = socket_r s \<and> socket_w s' = socket_w s"
  by (auto simp: lwt_unix_send_notification_win_def windows_notification_send_def Let_def bind_Some_iff split: if_splits prod.splits)

lemma win_post_ok:
  assumes "win_mode K S A level b st"
  shows "\<exists>n. lwt_unix_send_notification_win A K maperr nid (wchan st) = Some (Ret (), n) \<and> win_mode K S A level b (st\<lparr>wchan := n\<rparr>) \<and>
    pending (buffer n) = pending (buffer (wchan st)) @ [nid]"
proof -
  obtain ret w where c: "wcall (send_w A (socket_w (wchan st)) ''!'') (wst (wchan st)) = (ret, w)" by (meson prod.exhaust)
  from send_notification_win_spec [of "wchan st" A K maperr nid] assms c obtain r n where
    n: "lwt_unix_send_notification_win A K maperr nid (wchan st) = Some (r, n)" "wnotif_ready n"
      "pending (buffer n) = pending (buffer (wchan st)) @ [nid]"
      "if pending (buffer (wchan st)) \<noteq> [] then r = Ret () \<and> wst n = wst (wchan st)
       else wst n = w \<and> (ret \<noteq> SOCKET_ERROR \<longrightarrow> r = Ret ())"
    by (auto simp: win_mode_def split: if_splits)
  have "ret \<noteq> SOCKET_ERROR \<and> level (wos w) = 1" if "pending (buffer (wchan st)) = []"
    using assms that c unfolding win_mode_def wakeup_sockets_def wcall_def by (auto split: prod.splits if_splits) (metis fst_conv snd_conv)+
  with n assms send_win_frame [OF n(1)] show ?thesis by (auto simp: win_mode_def NSIG_win_def split: if_splits)
qed

lemma win_mode_table: "length t = length (wtable st) \<Longrightarrow> win_mode K S A level b (st\<lparr>wtable := t\<rparr>) = win_mode K S A level b st"
  by (simp add: win_mode_def NSIG_win_def)

lemma win_mode_crt:
  assumes "win_mode K S A level b st" "crt_call (signal_c S i h) st = (r, st')"
  shows "win_mode K S A level b st'"
  using assms(1) crt_call_frame [OF assms(2)] by (simp add: win_mode_def quiet_calls_def wnotif_ready_def NSIG_win_def)

lemma win_mode_win:
  assumes "win_mode K S A level b st" "win_call (SetConsoleCtrlHandler S a d) st = (r, st')"
  shows "win_mode K S A level b st'"
  using assms(1) win_call_frame [OF assms(2)] by (simp add: win_mode_def quiet_calls_def wnotif_ready_def NSIG_win_def)

lemma win_register_ok:
  assumes "win_mode K S A level b st" "lwt_unix_set_signal_win S K maperr convert v nid fwd st = Some (r, st')" "caml_int nid = nid"
  shows "win_mode K S A level b st' \<and> pending (buffer (wchan st')) = pending (buffer (wchan st)) \<and> set (wtable st') \<subseteq> {nid, -1} \<union> set (wtable st)"
proof (cases "convert (c_int v) < 0 \<or> NSIG_win st \<le> convert (c_int v)")
  case True
  with assms show ?thesis by (auto simp: lwt_unix_set_signal_win_def Let_def)
next
  case False
  let ?i = "convert (c_int v)"
  let ?s1 = "st\<lparr>wtable := (wtable st)[nat ?i := nid]\<rparr>"
  obtain a s2 c s3 where calls: "win_call (SetConsoleCtrlHandler S True True) ?s1 = (a, s2)" "crt_call (signal_c S ?i Handle_signal) ?s1 = (c, s3)"
    by (meson prod.exhaust)
  have m: "win_mode K S A level b ?s1" using assms(1) by (simp add: win_mode_table)
  note m2 = win_mode_win [OF m calls(1)] win_call_frame(1,2) [OF calls(1)] and m3 = win_mode_crt [OF m calls(2)] crt_call_frame(1,2) [OF calls(2)]
  have sub: "set ((wtable st)[nat ?i := nid]) \<subseteq> {nid, -1} \<union> set (wtable st)" "set ((wtable st)[nat ?i := nid, nat ?i := -1]) \<subseteq> {nid, -1} \<union> set (wtable st)"
    using set_update_subset_insert by fastforce+
  have "\<exists>u\<in>{?s1, s2, s3}. st' = u \<or> st' = u\<lparr>wtable := (wtable u)[nat ?i := -1]\<rparr>"
    using False assms(2,3) calls
    by (auto simp: lwt_unix_set_signal_win_def set_entry_win_def NSIG_win_def Let_def caml_int_c_long split: if_splits)
  with m m2 m3 sub show ?thesis by (auto simp: win_mode_table)
qed

lemma win_unregister_ok:
  assumes "win_mode K S A level b st" "lwt_unix_remove_signal_win S K convert v fwd st = Some (r, st')"
  shows "win_mode K S A level b st' \<and> pending (buffer (wchan st')) = pending (buffer (wchan st)) \<and> set (wtable st') \<subseteq> {-1} \<union> set (wtable st)"
proof -
  let ?i = "convert (c_int v)"
  let ?s1 = "st\<lparr>wtable := (wtable st)[nat ?i := -1]\<rparr>"
  obtain a s2 c s3 where calls: "win_call (SetConsoleCtrlHandler S False False) ?s1 = (a, s2)" "crt_call (signal_c S ?i SIG_DFL) ?s1 = (c, s3)"
    by (meson prod.exhaust)
  have m: "win_mode K S A level b ?s1" using assms(1) by (simp add: win_mode_table)
  have "st' \<in> {?s1, s2, s3}"
    using assms(2) calls by (auto simp: lwt_unix_remove_signal_win_def set_entry_win_def Let_def split: if_splits)
  moreover have "set ((wtable st)[nat ?i := -1]) \<subseteq> {-1} \<union> set (wtable st)" using set_update_subset_insert by fastforce
  ultimately show ?thesis
    using m win_mode_win [OF m calls(1)] win_call_frame(1,2) [OF calls(1)] win_mode_crt [OF m calls(2)] crt_call_frame(1,2) [OF calls(2)] by auto
qed

lemma win_deliver_ok:
  assumes "win_mode K S A level b st"
  shows "\<exists>st' xs. deliver_win S A K maperr i st = Some st' \<and> win_mode K S A level b st' \<and>
    pending (buffer (wchan st')) = pending (buffer (wchan st)) @ xs \<and> set xs \<subseteq> set (wtable st) - {-1} \<and> wtable st' = wtable st"
proof -
  let ?nid = "wtable st ! nat i"
  have int: "0 \<le> K ''SIGINT''" "K ''SIGINT'' < NSIG_win st" using assms by (simp_all add: win_mode_def)
  have mem: "?nid \<in> set (wtable st)" if "0 \<le> i" "i < NSIG_win st" using that by (auto simp: NSIG_win_def intro!: nth_mem)
  show ?thesis
  proof (cases "0 \<le> i \<and> i < NSIG_win st \<and> ?nid \<noteq> -1")
    case True
    define st1 where "st1 = (if i = K ''SIGINT'' then st else snd (crt_call (signal_c S i Handle_signal) st))"
    have s1: "win_mode K S A level b st1" "wtable st1 = wtable st" "buffer (wchan st1) = buffer (wchan st)"
      using assms win_mode_crt [OF assms, of i Handle_signal] crt_call_frame(1,2) [of "signal_c S i Handle_signal" st]
      by (auto simp: st1_def) (metis prod.collapse)+
    from win_post_ok [OF s1(1), of maperr ?nid] obtain n where
      n: "lwt_unix_send_notification_win A K maperr ?nid (wchan st1) = Some (Ret (), n)" "win_mode K S A level b (st1\<lparr>wchan := n\<rparr>)"
        "pending (buffer n) = pending (buffer (wchan st)) @ [?nid]" using s1(3) by auto
    have "deliver_win S A K maperr i st = Some (st1\<lparr>wchan := n\<rparr>)"
      using n(1) True int
      by (auto simp: deliver_win_def handle_break_win_def handle_break_def handle_signal_win_def st1_def tbl_get_def NSIG_win_def Let_def split_beta)
    with n s1 True mem show ?thesis by auto
  next
    case False
    then have "deliver_win S A K maperr i st = Some st"
      using int by (auto simp: deliver_win_def handle_break_win_def handle_break_def handle_signal_win_def tbl_get_def NSIG_win_def)
    with assms show ?thesis by simp
  qed
qed

lemma win_begin_ok:
  assumes "win_mode K S A level False st" "0 < level (wos (wst (wchan st)))"
  shows "\<exists>n. recv_begin_win A maperr (wchan st) = Some (Ret (c_int (int (notification_index (buffer (wchan st))))), n) \<and>
    win_mode K S A level True (st\<lparr>wchan := n\<rparr>) \<and> pending (buffer n) = pending (buffer (wchan st)) \<and>
    notification_index (buffer n) = notification_index (buffer (wchan st))"
proof -
  let ?s = "wchan st"
  obtain ret w where c: "wcall (recv_w A (socket_r ?s) 1) (wst ?s) = (ret, w)" by (meson prod.exhaust)
  have ready: "wnotif_ready ?s" and ne: "pending (buffer ?s) \<noteq> []" and lv: "level (wos (wst ?s)) = 1"
    using assms by (auto simp: win_mode_def split: if_splits)
  have r: "ret \<noteq> SOCKET_ERROR" "level (wos w) = 0"
    using assms(1) lv c unfolding win_mode_def wakeup_sockets_def wcall_def by (auto split: prod.splits) (metis fst_conv snd_conv)+
  let ?n = "?s\<lparr>wst := w, buffer := buffer ?s\<lparr>notification_mutex := Mutex_free\<rparr>\<rparr>"
  have "recv_begin_win A maperr ?s = Some (Ret (c_int (int (notification_index (buffer ?s)))), ?n)"
    using ready c r(1) by (simp add: recv_begin_win_def windows_notification_recv_def wnotif_ready_def lock_defs Let_def)
  moreover have "win_mode K S A level True (st\<lparr>wchan := ?n\<rparr>)"
    using assms(1) r(2) ne by (simp add: win_mode_def wnotif_ready_def NSIG_win_def)
  ultimately show ?thesis by simp
qed

lemma win_again_more:
  assumes "win_mode K S A level True st" "l \<noteq> c_int (int (notification_index (buffer (wchan st))))"
  shows "\<exists>n. recv_again_win l (wchan st) = Some (Inl (c_int (int (notification_index (buffer (wchan st))))), n) \<and>
    win_mode K S A level True (st\<lparr>wchan := n\<rparr>) \<and> pending (buffer n) = pending (buffer (wchan st))"
proof -
  let ?n = "(wchan st)\<lparr>buffer := buffer (wchan st)\<lparr>notification_mutex := Mutex_free\<rparr>\<rparr>"
  have "recv_again_win l (wchan st) = Some (Inl (c_int (int (notification_index (buffer (wchan st))))), ?n)"
    using assms by (simp add: win_mode_def wnotif_ready_def recv_again_win_def lock_defs Let_def)
  moreover have "win_mode K S A level True (st\<lparr>wchan := ?n\<rparr>)" using assms(1) by (simp add: win_mode_def wnotif_ready_def NSIG_win_def)
  ultimately show ?thesis by simp
qed

text \<open>The comparison of 32-bit indices is followed by reads that stay inside the tuple only when the index fits.\<close>

lemma win_again_done:
  assumes "win_mode K S A level True st" "l = c_int (int (notification_index (buffer (wchan st))))"
    "int (notification_index (buffer (wchan st))) \<le> l"
  shows "\<exists>n. recv_again_win l (wchan st) = Some (Inr (Block 0 (map Val_long (pending (buffer (wchan st))))), n) \<and>
    win_mode K S A level False (st\<lparr>wchan := n\<rparr>) \<and> pending (buffer n) = []"
proof -
  let ?b = "buffer (wchan st)"
  let ?n = "(wchan st)\<lparr>buffer := ?b\<lparr>notification_index := 0, notification_mutex := Mutex_free\<rparr>\<rparr>"
  have "recv_again_win l (wchan st) = Some (Inr (Block 0 (map Val_long (pending ?b))), ?n)"
    using assms by (simp add: win_mode_def wnotif_ready_def notif_wf_def recv_again_win_def lock_defs read_notifications_def pending_def)
  moreover have "win_mode K S A level False (st\<lparr>wchan := ?n\<rparr>)"
    using assms(1) by (simp add: win_mode_def wnotif_ready_def NSIG_win_def notif_wf_def reset_index)
  ultimately show ?thesis by (simp add: reset_index)
qed

lemma win_again_undefined:
  assumes "win_mode K S A level True st" "l = c_int (int (notification_index (buffer (wchan st))))"
    "l < int (notification_index (buffer (wchan st)))"
  shows "recv_again_win l (wchan st) = None"
  using assms by (simp add: win_mode_def wnotif_ready_def recv_again_win_def lock_defs read_notifications_def)

lemma win_again_cases:
  assumes "win_mode K S A level True st" "op_recv_again (win_ops K maperr convert S A level) l st = Some (r, st')"
  shows "case r of
      Inl _ \<Rightarrow> win_mode K S A level True st' \<and> pending (buffer (wchan st')) = pending (buffer (wchan st)) \<and> wtable st' = wtable st
    | Inr ids \<Rightarrow> win_mode K S A level False st' \<and> ids = map caml_int (pending (buffer (wchan st))) \<and> pending (buffer (wchan st')) = [] \<and>
        wtable st' = wtable st"
proof -
  let ?i = "notification_index (buffer (wchan st))"
  consider "l \<noteq> c_int (int ?i)" | "l = c_int (int ?i)" "int ?i \<le> l" | "l = c_int (int ?i)" "l < int ?i" by linarith
  then show ?thesis
  proof cases
    case 1
    with win_again_more [OF assms(1) 1] assms(2) show ?thesis by (auto simp: win_ops_def)
  next
    case 2
    with win_again_done [OF assms(1) 2] assms(2) show ?thesis by (auto simp: win_ops_def tuple_longs_ids simp del: tuple_longs.simps)
  next
    case 3
    with win_again_undefined [OF assms(1) 3] assms(2) show ?thesis by (simp add: win_ops_def)
  qed
qed

interpretation windows: notifier "win_ops K maperr convert S A level" "\<lambda>st. pending (buffer (wchan st))" wtable "win_mode K S A level"
  for K maperr convert S A level
proof (unfold_locales, goal_cases)
  case (1 b s x)
  from win_post_ok [OF 1, of maperr x] show ?case by (auto simp: win_ops_def)
next
  case (2 b s i)
  from win_deliver_ok [OF 2(1), of maperr i] show ?case by (simp add: win_ops_def)
next
  case (3 s nid v fwd s')
  then obtain r where "lwt_unix_set_signal_win S K maperr convert v nid fwd s = Some (r, s')" by (auto simp: win_ops_def)
  from win_register_ok [OF 3(1) this 3(2)] show ?case .
next
  case (4 s v fwd s')
  then obtain r where "lwt_unix_remove_signal_win S K convert v fwd s = Some (r, s')" by (auto simp: win_ops_def)
  from win_unregister_ok [OF 4(1) this] show ?case .
next
  case (5 s)
  then show ?case by (simp add: win_ops_def win_mode_def)
next
  case (6 s l s')
  then show ?case using win_begin_ok [OF 6(1), of maperr] by (auto simp: win_ops_def)
next
  case (7 s l l' s')
  from win_again_cases [OF 7] show ?case by simp
next
  case (8 s l ids s')
  from win_again_cases [OF 8] show ?case by simp
next
  case (9 s)
  let ?i = "notification_index (buffer (wchan s))"
  from 9(2) have "0 < level (wos (wst (wchan s)))" by (simp add: win_ops_def)
  from win_begin_ok [OF 9(1) this, of maperr] obtain n where
    n: "recv_begin_win A maperr (wchan s) = Some (Ret (c_int (int ?i)), n)" "win_mode K S A level True (s\<lparr>wchan := n\<rparr>)"
      "pending (buffer n) = pending (buffer (wchan s))" "notification_index (buffer n) = ?i" by blast
  have "c_int (int ?i) = int ?i" using 9(1,3) by (intro index_fits) (simp_all add: win_mode_def wnotif_ready_def)
  with win_again_done [OF n(2), of "c_int (int ?i)"] n show ?case
    by (auto simp: win_ops_def tuple_longs_ids simp del: tuple_longs.simps)
qed

end
