(* ===== verification/System.thy ===== *)
theory System
  imports Notifier_Win Pool_Props
begin

text \<open>
  The whole program: the pool of theory \<open>Pool\<close>, whose workers send their notifications with the real notification system, the signal handlers, which send on
  the same channel, and the event loop of the main thread, which receives when the descriptor is readable and then calls the handlers one by one
  (\<^verbatim>\<open>handle_notifications\<close> in \<^verbatim>\<open>lwt_unix.cppo.ml\<close>). The threads interleave at the boundaries of critical sections, also inside a receive.

  The notification system is an argument, the record of its operations; what is used of it is the contract of the locale \<open>notifier\<close>, in which the refinement
  of the abstract pool is proved once for both platforms.
\<close>

section \<open>The program\<close>

text \<open>
  \<open>receiver\<close> has the local variables of a receive under way; \<open>inbox\<close> the ids received whose handlers have not been called yet; \<open>signal_ids\<close> the ids ever given
  to signals. In \<open>pool_part\<close> the field \<open>sent\<close> only carries an id from a step of a worker to the channel.
\<close>

record ('x, 'n, 'l) program =
  pool_part :: "'x sys"
  chan :: 'n
  receiver :: "'l option"
  inbox :: "int list"
  signal_ids :: "int list"

datatype 'x prog_event =
    Pool_event "'x event"
  | Signal int
  | On_signal int int bool
  | Off_signal int bool
  | Receive
  | Receive_more
  | Handle

fun is_take :: "'x event \<Rightarrow> bool" where
  "is_take (Take _) \<longleftrightarrow> True"
| "is_take _ \<longleftrightarrow> False"

fun main_event :: "'x event \<Rightarrow> bool" where
  "main_event (Worker _) \<longleftrightarrow> False"
| "main_event (Spurious _) \<longleftrightarrow> False"
| "main_event _ \<longleftrightarrow> True"

text \<open>The ids given to jobs are OCaml integers that no signal has: \<^verbatim>\<open>make_notification\<close> takes them from one counter.\<close>

fun fresh_for :: "'x event \<Rightarrow> int list \<Rightarrow> bool" where
  "fresh_for (Check p nid) ids \<longleftrightarrow> nid \<notin> set ids \<and> caml_int nid = nid"
| "fresh_for _ ids \<longleftrightarrow> True"

text \<open>
  \<open>Pool_event\<close>: a step of a worker or of the main thread; what a worker sends goes to the channel. \<open>Signal\<close>: a signal arrives. \<open>On_signal\<close>, \<open>Off_signal\<close>: the main
  thread starts or stops to monitor a signal. \<open>Receive\<close>, \<open>Receive_more\<close>: the steps of \<^verbatim>\<open>lwt_unix_recv_notifications\<close>. \<open>Handle\<close>: the handler of the first
  id received is called, which finishes the job that waits for it.
\<close>

fun prog_step :: "(string \<Rightarrow> 'x \<Rightarrow> 'x) \<Rightarrow> ('n, 'l) channel_ops \<Rightarrow> 'x prog_event \<Rightarrow> ('x, 'n, 'l) program \<Rightarrow> ('x, 'n, 'l) program option" where
  "prog_step work C (Pool_event e) c =
     (if is_take e \<or> main_event e \<and> receiver c \<noteq> None \<or> \<not> fresh_for e (signal_ids c) then None
      else do {
        s \<leftarrow> sys_step work e (pool_part c);
        ch \<leftarrow> iter_opt (op_post C) (sent s) (chan c);
        Some (c\<lparr>pool_part := s\<lparr>sent := []\<rparr>, chan := ch\<rparr>)
      })"
| "prog_step work C (Signal i) c =
     (if op_masked C i (chan c) then None
      else do { ch \<leftarrow> op_deliver C i (chan c); Some (c\<lparr>chan := ch\<rparr>) })"
| "prog_step work C (On_signal v nid fwd) c =
     (if main (pool_part c) = Main_idle \<and> receiver c = None \<and> nid \<notin> set (notifiers (pool_part c)) \<and> caml_int nid = nid then do {
        ch \<leftarrow> op_register C v nid fwd (chan c);
        Some (c\<lparr>chan := ch, signal_ids := nid # signal_ids c\<rparr>)
      } else None)"
| "prog_step work C (Off_signal v fwd) c =
     (if main (pool_part c) = Main_idle \<and> receiver c = None then do {
        ch \<leftarrow> op_unregister C v fwd (chan c);
        Some (c\<lparr>chan := ch\<rparr>)
      } else None)"
| "prog_step work C Receive c =
     (if main (pool_part c) = Main_idle \<and> receiver c = None \<and> op_readable C (chan c) then do {
        (l, ch) \<leftarrow> op_recv_begin C (chan c);
        Some (c\<lparr>chan := ch, receiver := Some l\<rparr>)
      } else None)"
| "prog_step work C Receive_more c =
     (case receiver c of
        None \<Rightarrow> None
      | Some l \<Rightarrow> do {
          (r, ch) \<leftarrow> op_recv_again C l (chan c);
          Some (case r of
                  Inl l \<Rightarrow> c\<lparr>chan := ch, receiver := Some l\<rparr>
                | Inr ids \<Rightarrow> c\<lparr>chan := ch, receiver := None, inbox := inbox c @ ids\<rparr>)
        })"
| "prog_step work C Handle c =
     (if main (pool_part c) = Main_idle \<and> receiver c = None then
        (case inbox c of
           [] \<Rightarrow> None
         | i # is \<Rightarrow>
             if i \<in> set (signal_ids c) then Some (c\<lparr>inbox := is\<rparr>)
             else do {
               s \<leftarrow> sys_step work (Take i) ((pool_part c)\<lparr>sent := [i]\<rparr>);
               Some (c\<lparr>pool_part := s, inbox := is\<rparr>)
             })
      else None)"

fun_cases pool_eventE: "prog_step work C (Pool_event e) c = Some c'"
fun_cases signalE: "prog_step work C (Signal i) c = Some c'"
fun_cases on_signalE: "prog_step work C (On_signal v nid fwd) c = Some c'"
fun_cases off_signalE: "prog_step work C (Off_signal v fwd) c = Some c'"
fun_cases receiveE: "prog_step work C Receive c = Some c'"
fun_cases receive_moreE: "prog_step work C Receive_more c = Some c'"
fun_cases handleE: "prog_step work C Handle c = Some c'"

fun spurious_event :: "'x prog_event \<Rightarrow> bool" where
  "spurious_event (Pool_event e) \<longleftrightarrow> is_spurious e"
| "spurious_event _ \<longleftrightarrow> False"

definition prog_init :: "'n \<Rightarrow> ('x, 'n, 'l) program" where
  "prog_init ch = \<lparr>pool_part = sys_init, chan = ch, receiver = None, inbox = [], signal_ids = []\<rparr>"

inductive prog_reach :: "(string \<Rightarrow> 'x \<Rightarrow> 'x) \<Rightarrow> ('n, 'l) channel_ops \<Rightarrow> 'n \<Rightarrow> bool \<Rightarrow> ('x, 'n, 'l) program \<Rightarrow> bool" for work C ch sp where
  prog_start: "prog_reach work C ch sp (prog_init ch)"
| prog_next: "prog_reach work C ch sp c \<Longrightarrow> prog_step work C e c = Some c' \<Longrightarrow> spurious_event e \<longrightarrow> sp \<Longrightarrow> prog_reach work C ch sp c'"

section \<open>The abstract pool\<close>

text \<open>
  The program seen as the pool of theory \<open>Pool\<close>: the ids sent and not handled are those in the inbox and in the channel, without those of signals.
\<close>

definition pool_view :: "('n \<Rightarrow> int list) \<Rightarrow> ('x, 'n, 'l) program \<Rightarrow> 'x sys" where
  "pool_view contents c = (pool_part c)\<lparr>sent := filter (\<lambda>i. i \<notin> set (signal_ids c)) (inbox c @ contents (chan c))\<rparr>"

text \<open>The steps other than the reception of an id only append to \<open>sent\<close>.\<close>

lemma worker_sent:
  "worker_loop work i (s\<lparr>sent := X @ sent s\<rparr>) = map_option (\<lambda>s'. s'\<lparr>sent := X @ sent s'\<rparr>) (worker_loop work i s)"
proof (cases "i < length (workers s)")
  case True
  show ?thesis
  proof (cases "workers s ! i")
    case (Exec e p)
    with True show ?thesis
      by (cases e) (auto simp: worker_loop_def run_worker_def split: bind_splits)
  qed (use True in \<open>auto simp: worker_loop_def worker_take_def split: bind_splits option.splits\<close>)
qed (simp add: worker_loop_def)

lemma step_sent:
  assumes "\<not> is_take e"
  shows "sys_step work e (s\<lparr>sent := X @ sent s\<rparr>) = map_option (\<lambda>s'. s'\<lparr>sent := X @ sent s'\<rparr>) (sys_step work e s)"
proof (cases e)
  case (Start p am)
  then show ?thesis
    by (auto simp: start_job_begin_def initialize_threading_def Let_def split: bind_splits)
next
  case (Start_pool err k)
  then show ?thesis
    by (auto simp: start_job_pool_def Let_def split: bind_splits main_pc.splits)
next
  case (Check p nid)
  then show ?thesis
    by (auto simp: lwt_unix_check_job_def Let_def split: bind_splits lwt_unix_async_method.splits)
qed (use assms in \<open>auto simp: start_job_done_def start_job_sync_def lwt_unix_self_result_def lwt_unix_run_job_sync_def
      lwt_unix_set_pool_size_def worker_sent split: bind_splits main_pc.splits\<close>)

text \<open>A new id comes only from a check.\<close>

fun new_ids :: "'x event \<Rightarrow> int set" where
  "new_ids (Check p nid) = {nid}"
| "new_ids _ = {}"

lemma check_notifiers: "lwt_unix_check_job p nid s = Some (r, t) \<Longrightarrow> notifiers t = notifiers s" for s :: "'x sys"
  unfolding lwt_unix_check_job_def by (cases "jobs s p") (auto simp: Let_def bind_Some_iff split: lwt_unix_async_method.splits)

lemma step_notifiers:
  assumes "sys_step work e s = Some s'"
  shows "set (notifiers s') \<subseteq> new_ids e \<union> set (notifiers s)"
proof (cases e)
  case (Worker i)
  with assms worker_frame [of work i s s'] show ?thesis by simp
next
  case (Start p am)
  with assms show ?thesis
    by (auto simp: start_job_begin_def initialize_threading_def bind_Some_iff Let_def split: if_splits)
next
  case (Start_pool err k)
  with assms show ?thesis
    by (auto simp: start_job_pool_def bind_Some_iff Let_def split: main_pc.splits if_splits)
next
  case (Check p nid)
  with assms obtain x where x: "lwt_unix_check_job p nid s = Some x" by (auto simp: bind_Some_iff split: if_splits)
  have "notifiers (snd x) = notifiers s" using check_notifiers [of p nid s "fst x" "snd x"] x by simp
  with Check assms x show ?thesis by (cases x) (auto split: if_splits)
qed (use assms in \<open>auto simp: start_job_done_def start_job_sync_def lwt_unix_self_result_def lwt_unix_run_job_sync_def
      lwt_unix_set_pool_size_def bind_Some_iff split: main_pc.splits if_splits\<close>)

text \<open>An id that is sent and not received is the id of a job that waits for it.\<close>

lemma sent_notifiers: "reach work sp s \<Longrightarrow> set (sent s) \<subseteq> set (notifiers s)"
  by (erule reach_inv_at) (auto dest!: inv_atD(4) simp: ids_ok_def, metis)

section \<open>Refinement\<close>

text \<open>
  The invariant of the program: its view is a reachable state of the pool, the channel satisfies its representation invariant, and the ids of jobs and of
  signals are different OCaml integers.
\<close>

definition ids_apart :: "int list \<Rightarrow> int list \<Rightarrow> int list \<Rightarrow> bool" where
  "ids_apart ns sigs tbl \<longleftrightarrow>
     set tbl \<subseteq> {-1} \<union> set sigs \<and> set ns \<inter> set sigs = {} \<and> (\<forall>i\<in>set ns \<union> set sigs. caml_int i = i)"

definition prog_inv ::
    "(string \<Rightarrow> 'x \<Rightarrow> 'x) \<Rightarrow> bool \<Rightarrow> ('n \<Rightarrow> int list) \<Rightarrow> ('n \<Rightarrow> int list) \<Rightarrow> (bool \<Rightarrow> 'n \<Rightarrow> bool) \<Rightarrow> ('x, 'n, 'l) program \<Rightarrow> bool" where
  "prog_inv work sp contents table mode c \<longleftrightarrow>
     reach work sp (pool_view contents c) \<and> sent (pool_part c) = [] \<and> mode (receiver c \<noteq> None) (chan c) \<and>
     ids_apart (notifiers (pool_part c)) (signal_ids c) (table (chan c)) \<and>
     (receiver c \<noteq> None \<longrightarrow> main (pool_part c) = Main_idle)"

lemma ids_apart_mono: "ids_apart ns sigs tbl \<Longrightarrow> set ns' \<subseteq> set ns \<Longrightarrow> set tbl' \<subseteq> {-1} \<union> set tbl \<Longrightarrow> ids_apart ns' sigs tbl'"
  unfolding ids_apart_def by blast

lemma ids_apart_check: "ids_apart ns sigs tbl \<Longrightarrow> nid \<notin> set sigs \<Longrightarrow> caml_int nid = nid \<Longrightarrow> set ns' \<subseteq> insert nid (set ns) \<Longrightarrow> ids_apart ns' sigs tbl"
  unfolding ids_apart_def by blast

lemma ids_apart_signal:
  "ids_apart ns sigs tbl \<Longrightarrow> nid \<notin> set ns \<Longrightarrow> caml_int nid = nid \<Longrightarrow> set tbl' \<subseteq> {nid, -1} \<union> set tbl \<Longrightarrow> ids_apart ns (nid # sigs) tbl'"
  unfolding ids_apart_def by auto

text \<open>The ids on their way are those of jobs that wait and those of signals.\<close>

lemma known_ids:
  assumes "prog_inv work sp contents table mode c" "i \<in> set (inbox c @ contents (chan c))"
  shows "i \<in> set (notifiers (pool_part c)) \<union> set (signal_ids c)" "caml_int i = i"
proof -
  have "set (sent (pool_view contents c)) \<subseteq> set (notifiers (pool_part c))"
    using sent_notifiers [of work sp "pool_view contents c"] assms(1) by (simp add: prog_inv_def pool_view_def)
  with assms(2) show "i \<in> set (notifiers (pool_part c)) \<union> set (signal_ids c)" by (auto simp: pool_view_def)
  then show "caml_int i = i" using assms(1) by (simp add: prog_inv_def ids_apart_def)
qed

lemma pool_view_cong:
  "pool_part c' = pool_part c \<Longrightarrow> signal_ids c' = signal_ids c \<Longrightarrow>
     filter (\<lambda>i. i \<notin> set (signal_ids c)) (inbox c' @ contents (chan c')) = filter (\<lambda>i. i \<notin> set (signal_ids c)) (inbox c @ contents (chan c)) \<Longrightarrow>
     pool_view contents c' = pool_view contents c"
  by (simp add: pool_view_def)

lemma pool_view_init: "contents ch = [] \<Longrightarrow> pool_view contents (prog_init ch) = sys_init"
  by (simp add: pool_view_def prog_init_def sys_init_def)

context notifier
begin

lemma post_all_table: "iter_opt (op_post C) xs s = Some s' \<Longrightarrow> mode b s \<Longrightarrow> table s' = table s"
proof (induction xs arbitrary: s)
  case (Cons x xs)
  from post_ok [OF Cons.prems(2), of x] obtain t where "op_post C x s = Some t" "mode b t" "table t = table s" by blast
  with Cons show ?case by simp
qed simp

text \<open>One lemma per event. The steps of the pool are steps of the abstract pool, the reception of the id of a job is \<open>Take\<close>, and the rest is invisible.\<close>

lemma inv_pool_event:
  assumes inv: "prog_inv work sp contents table mode c" and st: "prog_step work C (Pool_event e) c = Some c'" and "is_spurious e \<longrightarrow> sp"
  shows "prog_inv work sp contents table mode c'"
proof -
  let ?X = "sent (pool_view contents c)"
  obtain s ch where s: "\<not> is_take e" "main_event e \<longrightarrow> receiver c = None" "fresh_for e (signal_ids c)" "sys_step work e (pool_part c) = Some s"
      "iter_opt (op_post C) (sent s) (chan c) = Some ch" "c' = c\<lparr>pool_part := s\<lparr>sent := []\<rparr>, chan := ch\<rparr>"
    using st by (auto simp: bind_Some_iff split: if_splits)
  have i: "reach work sp (pool_view contents c)" "sent (pool_part c) = []" "mode (receiver c \<noteq> None) (chan c)"
    "ids_apart (notifiers (pool_part c)) (signal_ids c) (table (chan c))"
    using inv by (simp_all add: prog_inv_def)
  have "sys_step work e (pool_view contents c) = Some (s\<lparr>sent := ?X @ sent s\<rparr>)"
    using step_sent [OF s(1), where work = work and s = "pool_part c" and X = ?X] s(4) i(2) by (simp add: pool_view_def)
  with i(1) have r: "reach work sp (s\<lparr>sent := ?X @ sent s\<rparr>)" using assms(3) by (rule reach.step)
  have ap: "ids_apart (notifiers s) (signal_ids c) (table (chan c))"
  proof (cases e)
    case (Check p nid)
    with step_notifiers [OF s(4)] s(3) ids_apart_check [OF i(4), of nid "notifiers s"] show ?thesis by simp
  qed (use step_notifiers [OF s(4)] ids_apart_mono [OF i(4), of "notifiers s"] in auto)
  have new: "filter (\<lambda>i. i \<notin> set (signal_ids c)) (sent s) = sent s"
    using sent_notifiers [OF r] ap by (auto simp: filter_id_conv ids_apart_def)
  from box.post_all [OF i(3), of "sent s"] s(5) have ch: "mode (receiver c \<noteq> None) ch" "contents ch = contents (chan c) @ sent s" by auto
  have "table ch = table (chan c)" using s(5) i(3) by (rule post_all_table)
  moreover have "pool_view contents c' = s\<lparr>sent := ?X @ sent s\<rparr>"
    using s(6) ch(2) new by (simp add: pool_view_def)
  moreover have "main s = Main_idle" if "receiver c \<noteq> None"
  proof -
    have "main (pool_part c) = Main_idle" using that inv by (simp add: prog_inv_def)
    moreover have "main s = main (pool_part c)"
      using that s(1,2,4) worker_frame [of work _ "pool_part c" s] by (cases e) (auto split: if_splits)
    ultimately show ?thesis by simp
  qed
  ultimately show ?thesis using r ap ch(1) s(6) by (auto simp: prog_inv_def)
qed

lemma inv_signal:
  assumes inv: "prog_inv work sp contents table mode c" and st: "prog_step work C (Signal i) c = Some c'"
  shows "prog_inv work sp contents table mode c'"
proof -
  obtain ch where ch: "\<not> op_masked C i (chan c)" "op_deliver C i (chan c) = Some ch" "c' = c\<lparr>chan := ch\<rparr>"
    using st by (auto simp: bind_Some_iff split: if_splits)
  have "mode (receiver c \<noteq> None) (chan c)" using inv by (simp add: prog_inv_def)
  from deliver_ok [OF this ch(1)] ch(2) obtain xs where
    xs: "mode (receiver c \<noteq> None) ch" "contents ch = contents (chan c) @ xs" "set xs \<subseteq> set (table (chan c)) - {-1}" "table ch = table (chan c)" by auto
  have "set xs \<subseteq> set (signal_ids c)" using xs(3) inv by (auto simp: prog_inv_def ids_apart_def)
  then have "filter (\<lambda>i. i \<notin> set (signal_ids c)) xs = []" by (auto simp: filter_empty_conv)
  then have "pool_view contents c' = pool_view contents c" using ch(3) xs(2) by (intro pool_view_cong) simp_all
  with inv ch(3) xs show ?thesis by (simp add: prog_inv_def)
qed

lemma inv_on_signal:
  assumes inv: "prog_inv work sp contents table mode c" and st: "prog_step work C (On_signal v nid fwd) c = Some c'"
  shows "prog_inv work sp contents table mode c'"
proof -
  obtain ch where ch: "receiver c = None" "nid \<notin> set (notifiers (pool_part c))" "caml_int nid = nid"
      "op_register C v nid fwd (chan c) = Some ch" "c' = c\<lparr>chan := ch, signal_ids := nid # signal_ids c\<rparr>"
    using st by (auto simp: bind_Some_iff split: if_splits)
  have "mode False (chan c)" using inv ch(1) by (simp add: prog_inv_def)
  note reg = register_ok [OF this ch(3,4)]
  have "set (sent (pool_view contents c)) \<subseteq> set (notifiers (pool_part c))"
    using sent_notifiers [of work sp "pool_view contents c"] inv by (simp add: prog_inv_def pool_view_def)
  with ch(2) have "filter (\<lambda>i. i \<noteq> nid) (sent (pool_view contents c)) = sent (pool_view contents c)"
    by (auto simp: filter_id_conv)
  then have "pool_view contents c' = pool_view contents c" using ch(5) reg by (simp add: pool_view_def conj_commute)
  moreover have "ids_apart (notifiers (pool_part c)) (nid # signal_ids c) (table ch)"
    using inv ch(2,3) reg by (intro ids_apart_signal) (auto simp: prog_inv_def)
  ultimately show ?thesis using inv ch(1,5) reg by (simp add: prog_inv_def)
qed

lemma inv_off_signal:
  assumes inv: "prog_inv work sp contents table mode c" and st: "prog_step work C (Off_signal v fwd) c = Some c'"
  shows "prog_inv work sp contents table mode c'"
proof -
  obtain ch where ch: "receiver c = None" "op_unregister C v fwd (chan c) = Some ch" "c' = c\<lparr>chan := ch\<rparr>"
    using st by (auto simp: bind_Some_iff split: if_splits)
  have "mode False (chan c)" using inv ch(1) by (simp add: prog_inv_def)
  note unreg = unregister_ok [OF this ch(2)]
  then have "pool_view contents c' = pool_view contents c" using ch(3) by (intro pool_view_cong) simp_all
  moreover have "ids_apart (notifiers (pool_part c)) (signal_ids c) (table ch)"
    using inv unreg ids_apart_mono by (auto simp: prog_inv_def)
  ultimately show ?thesis using inv ch unreg by (simp add: prog_inv_def)
qed

lemma inv_receive:
  assumes inv: "prog_inv work sp contents table mode c" and st: "prog_step work C Receive c = Some c'"
  shows "prog_inv work sp contents table mode c'"
proof -
  obtain l ch where ch: "main (pool_part c) = Main_idle" "receiver c = None" "op_readable C (chan c)" "op_recv_begin C (chan c) = Some (l, ch)"
      "c' = c\<lparr>chan := ch, receiver := Some l\<rparr>"
    using st by (auto simp: bind_Some_iff split: if_splits)
  have "mode False (chan c)" using inv ch(2) by (simp add: prog_inv_def)
  note b = begin_ok [OF this ch(3,4)]
  then have "pool_view contents c' = pool_view contents c" using ch(5) by (intro pool_view_cong) simp_all
  with inv ch b show ?thesis by (simp add: prog_inv_def)
qed

lemma inv_receive_more:
  assumes inv: "prog_inv work sp contents table mode c" and st: "prog_step work C Receive_more c = Some c'"
  shows "prog_inv work sp contents table mode c'"
proof -
  obtain l r ch where l: "receiver c = Some l" "op_recv_again C l (chan c) = Some (r, ch)"
      "c' = (case r of Inl l \<Rightarrow> c\<lparr>chan := ch, receiver := Some l\<rparr> | Inr ids \<Rightarrow> c\<lparr>chan := ch, receiver := None, inbox := inbox c @ ids\<rparr>)"
    using st by (auto simp: bind_Some_iff split: option.splits)
  have m: "mode True (chan c)" using inv l(1) by (simp add: prog_inv_def)
  show ?thesis
  proof (cases r)
    case (Inl l')
    note a = again_more [OF m l(2) [unfolded Inl]]
    then have "pool_view contents c' = pool_view contents c" using l(3) Inl by (intro pool_view_cong) simp_all
    with inv l a Inl show ?thesis by (simp add: prog_inv_def)
  next
    case (Inr ids)
    note a = again_done [OF m l(2) [unfolded Inr]]
    have "ids = contents (chan c)" using a known_ids(2) [OF inv] by (simp add: map_idI)
    then have "pool_view contents c' = pool_view contents c" using a l(3) Inr by (intro pool_view_cong) simp_all
    with inv l a Inr show ?thesis by (simp add: prog_inv_def)
  qed
qed

lemma inv_handle:
  assumes inv: "prog_inv work sp contents table mode c" and st: "prog_step work C Handle c = Some c'"
  shows "prog_inv work sp contents table mode c'"
proof -
  obtain i "is" where i: "main (pool_part c) = Main_idle" "receiver c = None" "inbox c = i # is"
    using st by (auto split: if_splits list.splits)
  show ?thesis
  proof (cases "i \<in> set (signal_ids c)")
    case True
    then have c': "c' = c\<lparr>inbox := is\<rparr>" using st i by simp
    then have "pool_view contents c' = pool_view contents c" using True i(3) by (intro pool_view_cong) simp_all
    with inv c' show ?thesis by (simp add: prog_inv_def)
  next
    case False
    let ?v = "pool_view contents c"
    have v: "sent ?v = i # filter (\<lambda>i. i \<notin> set (signal_ids c)) (is @ contents (chan c))" "main ?v = Main_idle"
      using False i by (simp_all add: pool_view_def)
    have c': "c' = c\<lparr>pool_part := (pool_part c)\<lparr>sent := [], notifiers := removeAll i (notifiers (pool_part c)),
        stage := (\<lambda>q. if stage (pool_part c) q = Checked i then Told else stage (pool_part c) q)\<rparr>, inbox := is\<rparr>"
      using st i False by (simp cong: if_cong)
    then have "sys_step work (Take i) ?v = Some (pool_view contents c')"
      using v by (simp add: pool_view_def cong: if_cong)
    then have "reach work sp (pool_view contents c')"
      using inv reach.step [of work sp ?v "Take i"] by (simp add: prog_inv_def)
    moreover have ap: "ids_apart (notifiers (pool_part c)) (signal_ids c) (table (chan c))" and md: "mode False (chan c)"
      using inv i(2) by (simp_all add: prog_inv_def)
    moreover have "set (notifiers (pool_part c')) \<subseteq> set (notifiers (pool_part c))" by (simp add: c')
    then have "ids_apart (notifiers (pool_part c')) (signal_ids c) (table (chan c))"
      by (rule ids_apart_mono [OF ap]) blast
    ultimately show ?thesis using i by (simp add: prog_inv_def c')
  qed
qed

lemmas inv_events = inv_pool_event inv_signal inv_on_signal inv_off_signal inv_receive inv_receive_more inv_handle

lemma inv_prog_step:
  assumes "prog_inv work sp contents table mode c" "prog_step work C e c = Some c'" "spurious_event e \<longrightarrow> sp"
  shows "prog_inv work sp contents table mode c'"
  using assms inv_events by (cases e) (simp_all, blast+)

text \<open>The program refines the pool.\<close>

lemma prog_reach_inv:
  assumes "prog_reach work C ch sp c" "mode False ch" "contents ch = []" "set (table ch) \<subseteq> {-1}"
  shows "prog_inv work sp contents table mode c"
  using assms(1)
proof (induction rule: prog_reach.induct)
  case prog_start
  have "prog_inv work sp contents table mode (prog_init ch) \<longleftrightarrow> reach work sp sys_init"
    unfolding prog_inv_def pool_view_init [of contents, OF assms(3)] using assms(2,4)
    by (simp add: prog_init_def sys_init_def ids_apart_def)
  then show ?case using reach.init by blast
next
  case (prog_next c e c')
  then show ?case using inv_prog_step by blast
qed

end

section \<open>From the worker to the handler\<close>

text \<open>A step of a worker, and one turn of the event loop that nobody disturbs: receive if the descriptor is readable, then call the handlers.\<close>

definition prog_worker :: "(string \<Rightarrow> 'x \<Rightarrow> 'x) \<Rightarrow> ('n, 'l) channel_ops \<Rightarrow> nat \<Rightarrow> ('x, 'n, 'l) program \<Rightarrow> ('x, 'n, 'l) program option" where
  "prog_worker work C i c = prog_step work C (Pool_event (Worker i)) c"

definition event_loop_turn :: "('n, 'l) channel_ops \<Rightarrow> ('n \<Rightarrow> int list) \<Rightarrow> ('x, 'n, 'l) program \<Rightarrow> 'x prog_event list" where
  "event_loop_turn C contents c =
     (if op_readable C (chan c) then [Receive, Receive_more] else []) @ replicate (length (inbox c @ contents (chan c))) Handle"

text \<open>The handlers of all the ids received.\<close>

definition tell :: "int set \<Rightarrow> (nat \<Rightarrow> stage) \<Rightarrow> nat \<Rightarrow> stage" where
  "tell ids st p = (case st p of Checked i \<Rightarrow> if i \<in> ids then Told else st p | _ \<Rightarrow> st p)"

lemma tell_empty [simp]: "tell {} st = st"
  by (auto simp: tell_def fun_eq_iff split: stage.split)

lemma tell_insert: "tell ids (\<lambda>q. if st q = Checked i then Told else st q) = tell (insert i ids) st"
  by (auto simp: tell_def fun_eq_iff split: stage.split)

lemma count_list_distinct: "distinct xs \<Longrightarrow> x \<in> set xs \<Longrightarrow> count_list xs x = 1"
  by (induction xs) auto

lemma count_list_filter: "Q x \<Longrightarrow> count_list (filter Q xs) x = count_list xs x"
  by (induction xs) auto

lemma handle_all:
  assumes "main (pool_part c) = Main_idle" "receiver c = None"
  shows "\<exists>c'. iter_opt (prog_step work C) (replicate (length (inbox c)) Handle) c = Some c' \<and> inbox c' = [] \<and> chan c' = chan c \<and>
    receiver c' = None \<and> main (pool_part c') = Main_idle \<and> signal_ids c' = signal_ids c \<and>
    stage (pool_part c') = tell (set (inbox c) - set (signal_ids c)) (stage (pool_part c))"
  using assms
proof (induction "inbox c" arbitrary: c)
  case (Cons i "is")
  note inb = Cons.hyps(2) [symmetric]
  show ?case
  proof (cases "i \<in> set (signal_ids c)")
    case True
    let ?c = "c\<lparr>inbox := is\<rparr>"
    have "prog_step work C Handle c = Some ?c" using Cons.prems inb True by simp
    moreover have "set (i # is) - set (signal_ids c) = set is - set (signal_ids c)" using True by auto
    ultimately show ?thesis using Cons.hyps(1) [of ?c] Cons.prems inb by simp
  next
    case False
    let ?st = "\<lambda>q. if stage (pool_part c) q = Checked i then Told else stage (pool_part c) q"
    let ?c = "c\<lparr>pool_part := (pool_part c)\<lparr>sent := [], notifiers := removeAll i (notifiers (pool_part c)), stage := ?st\<rparr>, inbox := is\<rparr>"
    have "prog_step work C Handle c = Some ?c" using Cons.prems inb False by (simp cong: if_cong)
    moreover have "tell (set is - set (signal_ids c)) ?st = tell (set (inbox c) - set (signal_ids c)) (stage (pool_part c))"
      using False inb tell_insert [of "set is - set (signal_ids c)" "stage (pool_part c)" i] by (simp add: insert_Diff_if)
    ultimately show ?thesis using Cons.hyps(1) [of ?c] Cons.prems inb by simp
  qed
qed simp

context notifier
begin

lemma worker_step_view:
  assumes inv: "prog_inv work sp contents table mode c"
  shows "map_option (pool_view contents) (prog_worker work C i c) = worker_loop work i (pool_view contents c)"
proof (cases "worker_loop work i (pool_part c)")
  case (Some s)
  have m: "mode (receiver c \<noteq> None) (chan c)" "sent (pool_part c) = []" using inv by (simp_all add: prog_inv_def)
  from box.post_all [OF m(1), of "sent s"] obtain ch where ch: "iter_opt (op_post C) (sent s) (chan c) = Some ch" "contents ch = contents (chan c) @ sent s"
    by blast
  let ?c = "c\<lparr>pool_part := s\<lparr>sent := []\<rparr>, chan := ch\<rparr>"
  have st: "prog_worker work C i c = Some ?c" using Some ch by (simp add: prog_worker_def)
  have w: "worker_loop work i (pool_view contents c) = Some (s\<lparr>sent := sent (pool_view contents c) @ sent s\<rparr>)"
    using worker_sent [where work = work and i = i and s = "pool_part c" and X = "sent (pool_view contents c)"] Some m(2) by (simp add: pool_view_def)
  have "prog_inv work sp contents table mode ?c"
    using inv_pool_event [OF inv, of "Worker i" ?c] st by (simp add: prog_worker_def)
  moreover have "reach work sp (s\<lparr>sent := sent (pool_view contents c) @ sent s\<rparr>)"
    using inv w reach.step [of work sp "pool_view contents c" "Worker i"] by (simp add: prog_inv_def)
  ultimately have "filter (\<lambda>i. i \<notin> set (signal_ids c)) (sent s) = sent s"
    using sent_notifiers [of work sp "s\<lparr>sent := sent (pool_view contents c) @ sent s\<rparr>"]
    by (auto simp: filter_id_conv prog_inv_def ids_apart_def)
  with st w ch show ?thesis by (simp add: pool_view_def)
next
  case None
  then show ?thesis
    using worker_sent [where work = work and i = i and s = "pool_part c" and X = "sent (pool_view contents c)"] inv
    by (simp add: prog_worker_def pool_view_def prog_inv_def)
qed

lemma readable_at_rest:
  assumes "prog_inv work sp contents table mode c" "receiver c = None"
  shows "op_readable C (chan c) \<longleftrightarrow> contents (chan c) \<noteq> []"
  using assms readable_iff by (simp add: prog_inv_def)

lemma worker_step_safe:
  assumes "prog_inv work sp contents table mode c" "i < length (workers (pool_part c))" "workers (pool_part c) ! i \<noteq> Waiting"
  shows "prog_worker work C i c \<noteq> None"
proof -
  have "inv work sp (pool_view contents c)" using assms(1) reach_inv by (auto simp: prog_inv_def)
  with inv_worker [of work sp "pool_view contents c" i] assms(2,3) have "worker_loop work i (pool_view contents c) \<noteq> None"
    by (auto simp: pool_view_def)
  then show ?thesis using worker_step_view [OF assms(1), of i] by auto
qed

lemma workers_view:
  assumes "prog_inv work sp contents table mode c" "iter_opt (prog_worker work C) is c = Some c'"
  shows "iter_opt (worker_loop work) is (pool_view contents c) = Some (pool_view contents c') \<and> prog_inv work sp contents table mode c' \<and>
    receiver c' = receiver c"
  using assms
proof (induction "is" arbitrary: c)
  case (Cons i "is")
  from Cons.prems(2) obtain t where t: "prog_worker work C i c = Some t" "iter_opt (prog_worker work C) is t = Some c'"
    by (auto simp: bind_Some_iff)
  have inv: "prog_inv work sp contents table mode t"
    using inv_pool_event [OF Cons.prems(1), of "Worker i" t] t(1) by (simp add: prog_worker_def)
  have "worker_loop work i (pool_view contents c) = Some (pool_view contents t)"
    using worker_step_view [OF Cons.prems(1), of i] t(1) by simp
  moreover have "receiver t = receiver c" using t(1) by (auto simp: prog_worker_def bind_Some_iff split: if_splits)
  ultimately show ?case using Cons.IH [OF inv t(2)] by simp
qed simp

text \<open>A turn of the event loop empties the channel and tells every job whose id was on its way.\<close>

lemma turn_ok:
  assumes inv: "prog_inv work sp contents table mode c" and idle: "main (pool_part c) = Main_idle" "receiver c = None"
    and fits: "length (contents (chan c)) < 2 ^ 31"
  shows "\<exists>c'. iter_opt (prog_step work C) (event_loop_turn C contents c) c = Some c' \<and> inbox c' = [] \<and> contents (chan c') = [] \<and>
    stage (pool_part c') = tell (set (sent (pool_view contents c))) (stage (pool_part c))"
proof (cases "op_readable C (chan c)")
  case True
  have m: "mode False (chan c)" using inv idle(2) by (simp add: prog_inv_def)
  have ids: "map caml_int (contents (chan c)) = contents (chan c)" using known_ids(2) [OF inv] by (simp add: map_idI)
  from recv_total [OF m True fits] ids obtain l s1 s2 where
    r: "op_recv_begin C (chan c) = Some (l, s1)" "op_recv_again C l s1 = Some (Inr (contents (chan c)), s2)" by auto
  have "mode True s1" using begin_ok [OF m True r(1)] by simp
  then have s2: "contents s2 = []" using again_done [OF _ r(2)] by simp
  let ?c = "c\<lparr>chan := s2, inbox := inbox c @ contents (chan c), receiver := None\<rparr>"
  have rc: "iter_opt (prog_step work C) [Receive, Receive_more] c = Some ?c" using idle True r by simp
  from handle_all [of ?c work C] idle s2 obtain c' where
    c': "iter_opt (prog_step work C) (replicate (length (inbox c @ contents (chan c))) Handle) ?c = Some c'" "inbox c' = []" "contents (chan c') = []"
    "stage (pool_part c') = tell (set (inbox c @ contents (chan c)) - set (signal_ids c)) (stage (pool_part c))" by auto
  have turn: "event_loop_turn C contents c = [Receive, Receive_more] @ replicate (length (inbox c @ contents (chan c))) Handle"
    using True by (simp add: event_loop_turn_def)
  have "iter_opt (prog_step work C) (event_loop_turn C contents c) c = Some c'"
    unfolding turn iter_opt_append rc using c'(1) by simp
  moreover have "set (sent (pool_view contents c)) = set (inbox c @ contents (chan c)) - set (signal_ids c)" by (auto simp: pool_view_def)
  ultimately show ?thesis using c' by auto
next
  case False
  have "contents (chan c) = []" using inv idle(2) readable_iff False by (simp add: prog_inv_def)
  moreover have "set (inbox c) - set (signal_ids c) = set (sent (pool_view contents c))" using calculation by (auto simp: pool_view_def)
  ultimately show ?thesis using handle_all [OF idle, of work C] False by (auto simp: event_loop_turn_def)
qed

lemma every_job_told_lemma:
  assumes inv: "prog_inv work False contents table mode c" and idle: "main (pool_part c) = Main_idle" "receiver c = None"
  shows "\<exists>n. \<forall>is c1. iter_opt (prog_worker work C) is c = Some c1 \<longrightarrow> length is \<le> n \<and>
     ((\<exists>i. prog_worker work C i c1 \<noteq> None) \<or>
      (length (contents (chan c1)) < 2 ^ 31 \<longrightarrow>
         (\<exists>c2. iter_opt (prog_step work C) (event_loop_turn C contents c1) c1 = Some c2 \<and> inbox c2 = [] \<and> contents (chan c2) = [] \<and>
           (\<forall>p nid. stage (pool_part c) p = Checked nid \<longrightarrow> stage (pool_part c2) p = Told))))"
proof -
  have "reach work False (pool_view contents c)" using inv by (simp add: prog_inv_def)
  then obtain xs P where i: "inv_at work False xs P (pool_view contents c)" by (rule reach_inv_at)
  {
    fix "is" c1 assume run: "iter_opt (prog_worker work C) is c = Some c1"
    note v = workers_view [OF inv run]
    from drain_at [OF i conjunct1 [OF v]] obtain ys Q where
      q: "inv_at work False ys Q (pool_view contents c1)" "length is \<le> work_left xs (workers (pool_view contents c))" by auto
    have fr: "main (pool_part c1) = Main_idle" "stage (pool_part c1) = stage (pool_part c)"
      using workers_frame [OF conjunct1 [OF v]] idle(1) by (simp_all add: pool_view_def)
    have "\<exists>c2. iter_opt (prog_step work C) (event_loop_turn C contents c1) c1 = Some c2 \<and> inbox c2 = [] \<and> contents (chan c2) = [] \<and>
        (\<forall>p nid. stage (pool_part c) p = Checked nid \<longrightarrow> stage (pool_part c2) p = Told)"
      if "\<forall>i. prog_worker work C i c1 = None" "length (contents (chan c1)) < 2 ^ 31"
    proof -
      have "\<forall>i. worker_loop work i (pool_view contents c1) = None"
        using worker_step_view [OF conjunct1 [OF conjunct2 [OF v]]] that(1) by (metis option.map_disc_iff)
      from quiescent_jobs [OF q(1) _ this] fr have
        "\<forall>p nid. stage (pool_part c) p = Checked nid \<longrightarrow> nid \<in> set (sent (pool_view contents c1))" by (simp add: pool_view_def)
      moreover from turn_ok [of work False c1] v fr(1) idle(2) that(2) obtain c2 where
        "iter_opt (prog_step work C) (event_loop_turn C contents c1) c1 = Some c2" "inbox c2 = []" "contents (chan c2) = []"
        "stage (pool_part c2) = tell (set (sent (pool_view contents c1))) (stage (pool_part c))" using fr(2) by auto
      ultimately show ?thesis by (auto simp: tell_def)
    qed
    with q(2) have "length is \<le> work_left xs (workers (pool_view contents c)) \<and>
     ((\<exists>i. prog_worker work C i c1 \<noteq> None) \<or>
      (length (contents (chan c1)) < 2 ^ 31 \<longrightarrow>
         (\<exists>c2. iter_opt (prog_step work C) (event_loop_turn C contents c1) c1 = Some c2 \<and> inbox c2 = [] \<and> contents (chan c2) = [] \<and>
           (\<forall>p nid. stage (pool_part c) p = Checked nid \<longrightarrow> stage (pool_part c2) p = Told))))" by blast
  }
  then show ?thesis by blast
qed

text \<open>What the event loop receives: no id of a job twice, and each one for a job that is over.\<close>

lemma received_id_lemma:
  assumes inv: "prog_inv work sp contents table mode c" and "i \<in> set (inbox c @ contents (chan c))" "i \<notin> set (signal_ids c)"
  shows "count_list (inbox c @ contents (chan c)) i = 1 \<and>
    (\<exists>!p. stage (pool_part c) p = Checked i) \<and>
    (\<forall>p. stage (pool_part c) p = Checked i \<longrightarrow>
       (\<exists>j. jobs (pool_part c) p = Some j \<and> job_state j = LWT_UNIX_JOB_STATE_DONE \<and>
            lwt_unix_job.more j = work (code (pool_part c) p) (arg (pool_part c) p)) \<and>
       (\<forall>e. Exec e p \<notin> set (workers (pool_part c))))"
proof -
  let ?v = "pool_view contents c"
  have r: "reach work sp ?v" using inv by (simp add: prog_inv_def)
  note f = sent_job_finished [OF r]
  have i: "i \<in> set (sent ?v)" using assms(2,3) by (auto simp: pool_view_def)
  have "count_list (sent ?v) i = 1" using count_list_distinct [OF conjunct1 [OF f] i] .
  then have "count_list (inbox c @ contents (chan c)) i = 1" using assms(3) by (simp add: pool_view_def count_list_filter)
  moreover have "\<exists>!p. stage ?v p = Checked i" using f i by blast
  moreover have "(\<exists>j. jobs ?v p = Some j \<and> job_state j = LWT_UNIX_JOB_STATE_DONE \<and> lwt_unix_job.more j = work (code ?v p) (arg ?v p)) \<and>
      (\<forall>e. Exec e p \<notin> set (workers ?v))" if "stage ?v p = Checked i" for p using f i that by blast
  moreover have "stage ?v = stage (pool_part c)" "jobs ?v = jobs (pool_part c)" "code ?v = code (pool_part c)" "arg ?v = arg (pool_part c)"
    "workers ?v = workers (pool_part c)" by (simp_all add: pool_view_def)
  ultimately show ?thesis by (simp only:) blast
qed

end

section \<open>A concrete program\<close>

lemma prog_reach_run:
  assumes "prog_reach work C ch sp c" "iter_opt (prog_step work C) es c = Some c'" "sp \<or> \<not> list_ex spurious_event es"
  shows "prog_reach work C ch sp c'"
  using assms
proof (induction es arbitrary: c)
  case (Cons e es)
  from Cons.prems(2) obtain t where t: "prog_step work C e c = Some t" "iter_opt (prog_step work C) es t = Some c'"
    by (auto simp: bind_Some_iff)
  have "prog_reach work C ch sp t" using prog_next [OF Cons.prems(1) t(1)] Cons.prems(3) by auto
  then show ?case using Cons.IH t(2) Cons.prems(3) by auto
qed simp

text \<open>The pipe of theory \<open>Notifications\<close>, a table of four signals, and the jobs of theory \<open>Pool_Props\<close>.\<close>

definition demo_chan :: "nat sigst" where
  "demo_chan = \<lparr>signal_notifications = [-1, -1, -1, -1], nstate = pipe_notif []\<rparr>"

abbreviation demo_sigaction :: "nat sigaction" where
  "demo_sigaction \<equiv> (\<lambda>_ _ _ e w. (0, e, w))"

definition demo_ops :: "(nat sigst, nat set \<times> int) channel_ops" where
  "demo_ops = posix_ops (\<lambda>_. 0) True (\<lambda>n. - n) pipe_world demo_sigaction (\<lambda>w. w)"

definition demo_prog :: "nat prog_event list \<Rightarrow> (nat, nat sigst, nat set \<times> int) program option" where
  "demo_prog es = iter_opt (prog_step demo_work demo_ops) es (prog_init demo_chan)"

lemma demo_chan_ok:
  "posix_mode pipe_world demo_sigaction (\<lambda>w. w) False demo_chan" "pending (nstate demo_chan) = []" "set (signal_notifications demo_chan) \<subseteq> {-1}"
  by (simp_all add: demo_chan_def posix_mode_def pipe_notif_ready pipe_world_channel quiet_sigaction_def)

lemma demo_prog_reach: "demo_prog es = Some c \<Longrightarrow> \<not> list_ex spurious_event es \<Longrightarrow> prog_reach demo_work demo_ops demo_chan sp c"
  unfolding demo_prog_def by (rule prog_reach_run [OF prog_start]) auto

text \<open>A signal is monitored and arrives, and a job that the main thread waits for ends.\<close>

definition demo_trace :: "nat prog_event list" where
  "demo_trace = map Pool_event (demo_start 2) @ [On_signal (-2) 40 False, Pool_event (Check 2 7), Signal 2] @ replicate 5 (Pool_event (Worker 0))"

lemmas demo_prog_defs =
  demo_prog_def demo_trace_def demo_ops_def demo_chan_def posix_ops_def prog_init_def pipe_world_def pipe_notif_def pending_def
  lwt_unix_send_notification_def lock_defs store_notification_def call_notification_send_def pipe_notification_send_def libc_def
  handle_signal_def lwt_unix_set_signal_def set_entry_def NSIG_def no_raise_def resize_notifications_def

lemma demo_trace_run:
  "\<exists>c. demo_prog demo_trace = Some c \<and> inbox c = [] \<and> pending (nstate (chan c)) = [40, 7] \<and> signal_ids c = [40] \<and> receiver c = None \<and>
     main (pool_part c) = Main_idle \<and> stage (pool_part c) 2 = Checked 7 \<and> workers (pool_part c) = [Idle_lock]"
  by (simp add: demo_prog_defs demo_defs c_int_id c_long_id caml_int_id numeral_eq_Suc)

text \<open>The same program on Windows, over a pair of sockets 3 and 4 that holds a number of bytes.\<close>

definition demo_pair :: "nat winsock" where
  "demo_pair = demo_winsock\<lparr>send_w := (\<lambda>h bs e w. (int (length bs), e, w + length bs)), recv_w := (\<lambda>h n e w. if 0 < w then (1, e, w - 1) else (-1, 10035, w))\<rparr>"

definition demo_calls :: "nat wsigcalls" where
  "demo_calls = \<lparr>signal_c = (\<lambda>_ _ e w. (False, e, w)), SetConsoleCtrlHandler = (\<lambda>_ _ e w. (True, e, w))\<rparr>"

definition demo_consts :: "string \<Rightarrow> int" where
  "demo_consts k = (if k = ''SIGINT'' then 2 else if k = ''CTRL_BREAK_EVENT'' then 1 else 0)"

definition demo_wchan :: "nat wsig" where
  "demo_wchan = \<lparr>wtable = [-1, -1, -1, -1], wchan =
     \<lparr>buffer = \<lparr>notification_mutex = Mutex_free, notifications = [0], notification_count = 1, notification_index = 0,
        notification_mode = NOTIFICATION_MODE_WINDOWS, notification_send = Null_fn, notification_recv = Null_fn, notification_fd = -1,
        notification_fds = (0, 0), sigmask = {}, errno = 0, os = (), cell_junk = (\<lambda>_. 0)\<rparr>,
      wst = \<lparr>wsa_error = 0, sockets = [3, 4], wos = 0\<rparr>, socket_r = 3, socket_w = 4, windows_fns = True\<rparr>, werrno = 0\<rparr>"

definition demo_win_ops :: "(nat wsig, int) channel_ops" where
  "demo_win_ops = win_ops demo_consts (\<lambda>e. e) (\<lambda>n. - n) demo_calls demo_pair (\<lambda>w. w)"

definition demo_win_prog :: "nat prog_event list \<Rightarrow> (nat, nat wsig, int) program option" where
  "demo_win_prog es = iter_opt (prog_step demo_work demo_win_ops) es (prog_init demo_wchan)"

lemma demo_wchan_ok:
  "win_mode demo_consts demo_calls demo_pair (\<lambda>w. w) False demo_wchan" "pending (buffer (wchan demo_wchan)) = []" "set (wtable demo_wchan) \<subseteq> {-1}"
  by (simp_all add: demo_wchan_def win_mode_def wnotif_ready_def notif_wf_def pending_def wakeup_sockets_def quiet_calls_def demo_pair_def demo_calls_def
      demo_consts_def NSIG_win_def)

lemma demo_win_prog_reach: "demo_win_prog es = Some c \<Longrightarrow> \<not> list_ex spurious_event es \<Longrightarrow> prog_reach demo_work demo_win_ops demo_wchan sp c"
  unfolding demo_win_prog_def by (rule prog_reach_run [OF prog_start]) auto

lemmas demo_win_defs =
  demo_win_prog_def demo_trace_def demo_win_ops_def demo_wchan_def win_ops_def prog_init_def demo_pair_def demo_winsock_def demo_calls_def demo_consts_def
  pending_def lwt_unix_send_notification_win_def lock_defs store_notification_def windows_notification_send_def wcall_def deliver_win_def
  handle_break_win_def handle_break_def tbl_get_def lwt_unix_set_signal_win_def set_entry_win_def NSIG_win_def win_call_def no_raise_def resize_notifications_def

lemma demo_win_run:
  "\<exists>c. demo_win_prog demo_trace = Some c \<and> inbox c = [] \<and> pending (buffer (wchan (chan c))) = [40, 7] \<and> signal_ids c = [40] \<and> receiver c = None \<and>
     main (pool_part c) = Main_idle \<and> stage (pool_part c) 2 = Checked 7 \<and> workers (pool_part c) = [Idle_lock]"
  by (simp add: demo_win_defs demo_defs c_int_id c_long_id caml_int_id numeral_eq_Suc)

end
