(* ===== verification/Spec2Isabelle.thy ===== *)
theory Spec2Isabelle
  imports Notifications Signals Pool_Props Path_Jobs Fd_Jobs Open_Jobs Io_Jobs Vectors Name_Jobs Dir_Jobs Libev Termios Stat_Jobs Host_Jobs User_Jobs Addr_Jobs Socket_Ops Sys_Info Bytes Threads Win_Sockets Win_Process Availability Typing Windows_Jobs Cond_Refinement System
begin

text \<open>
  A verification of the C part of Lwt: the stubs under \<^verbatim>\<open>src/src/unix\<close> by which the OCaml library makes blocking system
  calls in a pool of threads, wakes its event loop from other threads and from signal handlers, and watches descriptors with libev.

  \<^bold>\<open>The program.\<close> The OCaml library runs in one thread, the main thread. For a system call that may block it calls a stub
  \<^verbatim>\<open>lwt_unix_FOO_job\<close>, which allocates a structure \<^verbatim>\<open>struct job_FOO\<close> with the arguments, and then \<^verbatim>\<open>lwt_unix_start_job\<close>, which gives the job to a
  worker thread (or executes it at once). The worker calls \<^verbatim>\<open>worker_FOO\<close> on the structure, marks the job as done, and sends a
  notification if the main thread asked for one with \<^verbatim>\<open>lwt_unix_check_job\<close>. The main thread is woken by a descriptor that its event loop watches, takes the
  pending notifications with \<^verbatim>\<open>lwt_unix_recv_notifications\<close>, and calls \<^verbatim>\<open>lwt_unix_self_result\<close>, that is \<^verbatim>\<open>result_FOO\<close>, which builds the OCaml
  value or exception and frees the structure. For descriptors in non-blocking mode there are primitives such as \<^verbatim>\<open>lwt_unix_read\<close>
  that make the call directly.

  \<^bold>\<open>Conventions.\<close> A C function is a HOL function from states to \<open>option\<close>, where \<open>None\<close> is undefined behaviour (an access out of
  bounds or to freed memory, a misused mutex), a thread that blocks itself, or a loop that does not end; so a theorem that states a result \<open>Some ...\<close>
  also states memory safety. An OCaml exception is the value \<open>Raise e\<close> of the type \<open>outcome\<close>. The memory that \<^verbatim>\<open>malloc\<close> returns has
  arbitrary content, an argument of the definitions. Everything that is not in the repository is a parameter: system calls are functions of \<^verbatim>\<open>errno\<close>
  and an opaque world, the constants of system headers come from \<open>K :: string \<Rightarrow> int\<close>, libev is a record of functions. What the
  code relies on is a named hypothesis (\<open>read_contract\<close>, \<open>readlink_ok\<close>, \<open>libev_ok\<close> and the like). Two platforms are
  modelled: a POSIX system with LP64 data types, and Windows (LLP64) for the code that only Windows compiles; there the last error of the thread stands for
  \<^verbatim>\<open>errno\<close>, and the definitions whose C name exists on both platforms end in \<open>_win\<close>.

  \<^bold>\<open>The theories.\<close>
  \<^item> \<open>Prelude\<close>: C integers, C strings, bounded copies, constant tables. \<open>Runtime\<close>: OCaml values and exceptions, mutexes, system calls.
  \<^item> \<open>Notifications\<close> (\<^verbatim>\<open>lwt_unix_stubs.c\<close>, notifications): the buffer of pending ids, its lock, growth, sending, receiving, and the eventfd or
    pipe that wakes the event loop. The buffer refines a FIFO queue for every interleaving of senders and receiver, no wakeup is lost, and
    two ways in which the protocol goes wrong are exhibited. \<open>Signals\<close>: the signal handler and the table of monitored signals, on top of it.
  \<^item> \<open>Job_Struct\<close>, \<open>Job_Queue\<close>, \<open>Pool\<close>: the job structure, the circular queue (a \<open>fifo\<close> in the sense of a locale), and the functions
    that start, execute, check and finish jobs, each cut at the points where another thread can interfere. \<open>Pool\<close> ends with the
    step relation of the whole system. \<open>Pool_Inv\<close> and \<open>Pool_Safety\<close> hold its invariant and one preservation lemma per step; \<open>Pool_Props\<close>
    derives that no step is undefined, that every job is executed exactly once and reported once, that no job is forgotten when there are
    no spurious wakeups (a bound on the number of worker steps is part of the proof), and that one is when there are.
  \<^item> \<open>Job_Memory\<close>: the memory of jobs, the macros of \<^verbatim>\<open>lwt_unix.h\<close>, and the locale \<open>job_impl\<close>, the contract that the stub, worker and
    result function of a job fulfil together. It is interpreted for each job of \<open>Path_Jobs\<close>, \<open>Fd_Jobs\<close> and \<open>Open_Jobs\<close>, which
    shows that the job makes exactly one system call with the right arguments and gives OCaml its result or error.
  \<^item> \<open>Io_Jobs\<close>, \<open>Vectors\<close>: reading and writing, where the job copies between OCaml buffers and C memory; the theorems state
    equivalence with the non-blocking primitives. \<open>Name_Jobs\<close>: strings of unknown length, with loops that are proved to end.
    \<open>Dir_Jobs\<close>: reading directories.
  \<^item> \<open>Libev\<close> (\<^verbatim>\<open>lwt_libev_stubs.c\<close>): loops and watchers, with a step relation for the program and libev around the stubs.
  \<^item> \<open>Termios\<close>: the interpreter of the description table of \<^verbatim>\<open>Unix.terminal_io\<close> in both directions and the two jobs; settings survive the round trip. \<open>Value_Types\<close>,
    \<open>Stat_Jobs\<close>: types of OCaml values, floating point operations as a parameter, \<^verbatim>\<open>stat\<close> and its variants, \<^verbatim>\<open>utimes\<close>. \<open>Typing\<close>: the values that the stubs build have the types of the module
    \<^verbatim>\<open>Unix\<close>.
  \<^item> \<open>Netdb\<close>, \<open>Netdb_Copy\<close>, \<open>Host_Jobs\<close>, \<open>Entry_Jobs\<close>, \<open>User_Jobs\<close> (\<^verbatim>\<open>unix_get_network_information_utils.c\<close> and the jobs that use it, \<^verbatim>\<open>unix_get_pw_gr_nam_id_job.c\<close>): host, protocol,
    service, user and group entries; deep copies with every branch that runs out of memory, loops with growing buffers that are proved to end.
  \<^item> \<open>Sockets\<close>, \<open>Addr_Jobs\<close>, \<open>Socket_Ops\<close>: sending and receiving with descriptors in control messages (a round trip), \<^verbatim>\<open>getaddrinfo\<close>, \<^verbatim>\<open>getnameinfo\<close>, \<^verbatim>\<open>bind\<close>, socket options.
    \<open>Sys_Info\<close>: affinity, \<^verbatim>\<open>wait4\<close>, readiness, pages. \<open>Bytes\<close>: copies between strings and Bigarrays.
  \<^item> \<open>Threads\<close>: starting threads, and the condition variables that the code implements itself on Windows, as a concurrent system of any number of threads: safe with signals, not safe with
    broadcasts. \<open>Cond_Refinement\<close>: with signals they refine the textbook condition variable, without spurious wakeups; so the liveness theorems of the pool apply to Windows.
  \<^item> \<open>Win_Sockets\<close>, \<open>Win_Signals\<close>, \<open>Win_Process\<close>, \<open>Win_Io\<close> (\<^verbatim>\<open>lwt_process_stubs.c\<close>, \<^verbatim>\<open>windows_c\<close>, the Windows branches of \<^verbatim>\<open>lwt_unix_stubs.c\<close>): the socket pair and the notification channel on it
    (a second interpretation of the locale \<open>mailbox\<close>), signal and console handlers, processes with their handles, reading and writing.
  \<^item> \<open>Availability\<close>, \<open>Windows_Jobs\<close>: the functions that a platform does not have, each with its name and its number of parameters (the Windows branch of 26 job files among them), the entry points for
    bytecode, and the allocation functions that abort the program.
  \<^item> \<open>Notifier\<close>, \<open>Notifier_Win\<close>: the notification system as a service. \<^verbatim>\<open>lwt_unix_recv_notifications\<close> is cut at the points where it releases its mutex and the parts are shown to make up the whole. The locale
    \<open>notifier\<close> has the operations (send, deliver a signal, monitor a signal, the steps of a receive) and what they promise; it gives the contract \<open>mailbox\<close> (a \<open>sublocale\<close>), and is
    interpreted for the POSIX code (\<open>posix\<close>) and for the Windows code (\<open>windows\<close>).
  \<^item> \<open>System\<close>: the whole program, the composition of pool, channel, signal handlers and event loop, with the steps of a receive interleaved with everything else. In the locale \<open>notifier\<close> it is proved, once for
    both platforms, to simulate the abstract pool, in which notifications are a list. The properties that follow from it are in this theory: the ids that the event loop receives are
    those of monitored signals and of finished jobs, the descriptor is readable exactly when ids wait, and every job that the main thread waits for is reported to it.

  \<^bold>\<open>Loops and bounds.\<close> Loops over lists and arrays are structural recursions or have a termination proof. The loops whose end depends on the operating system take fuel or the sequence of
  interferences as an argument, and the theorems show that they return for every system that fulfils the stated contract. Sizes are those of C: an index that is an \<^verbatim>\<open>int\<close> in C is converted
  with \<open>c_int\<close>, and the bounds of the theorems (fewer than \<open>2 ^ 31\<close> pending notifications, for instance) are the ranges of these types.

  \<^bold>\<open>Not modelled.\<close> The identity of threads (\<^verbatim>\<open>lwt_unix_thread_self\<close>, \<^verbatim>\<open>lwt_unix_thread_equal\<close>: one call of pthread each); the tracing macro \<^verbatim>\<open>DEBUG\<close>; feature tests, declarations and
  headers. Mutexes are modelled by the state that their documentation gives them, not by an implementation. The OCaml part of the library is a different program in a different language: of it only the
  event loop's reaction to a notification (\<^verbatim>\<open>handle_notifications\<close>) and the environment block of \<^verbatim>\<open>win32_spawn\<close> are modelled; what else it guarantees to the stubs appears as hypotheses. A program in which
  the channel is opened again after a fork is not part of \<open>System\<close>: theory \<open>Notifications\<close> shows what goes wrong there.
\<close>

section \<open>The whole program\<close>

text \<open>
  C6. The parts fit together: in every reachable state of the whole program, with any interleaving of workers, signals, a receive under way and the
  calls of the main thread, the pool behaves as the abstract pool whose notifications are a plain list; each worker that is not waiting for work can make its next
  step, in which the sending of a notification always succeeds; and when the main thread is not receiving, the descriptor that its event loop watches is readable exactly
  when an id waits in the buffer.
\<close>

theorem program_refines_pool:
  assumes "posix_mode P sa level False ch" and "pending (nstate ch) = []" and "set (signal_notifications ch) \<subseteq> {-1}"
    and "prog_reach work (posix_ops K ocaml5 convert P sa level) ch sp c"
  shows "reach work sp (pool_view (\<lambda>st. pending (nstate st)) c) \<and>
    (\<forall>i<length (workers (pool_part c)). workers (pool_part c) ! i \<noteq> Waiting \<longrightarrow>
       prog_worker work (posix_ops K ocaml5 convert P sa level) i c \<noteq> None) \<and>
    (receiver c = None \<longrightarrow> (0 < level (os (nstate (chan c))) \<longleftrightarrow> pending (nstate (chan c)) \<noteq> []))"
proof -
  have i: "prog_inv work sp (\<lambda>st. pending (nstate st)) signal_notifications (posix_mode P sa level) c"
    using posix.prog_reach_inv [OF assms(4,1,2,3)] .
  have "receiver c = None \<longrightarrow> (0 < level (os (nstate (chan c))) \<longleftrightarrow> pending (nstate (chan c)) \<noteq> [])"
    using posix.readable_at_rest [OF i, of K ocaml5 convert] by (simp add: posix_ops_def)
  with i posix.worker_step_safe [OF i, of _ K ocaml5 convert] show ?thesis by (auto simp: prog_inv_def)
qed

theorem program_refines_pool_witness:
  "\<exists>c. prog_reach demo_work demo_ops demo_chan False c \<and> workers (pool_part c) = [Idle_lock] \<and> pending (nstate (chan c)) = [40, 7] \<and>
     reach demo_work False (pool_view (\<lambda>st. pending (nstate st)) c) \<and> prog_worker demo_work demo_ops 0 c \<noteq> None \<and> 0 < os (nstate (chan c))"
proof -
  obtain c where c: "demo_prog demo_trace = Some c" "pending (nstate (chan c)) = [40, 7]" "receiver c = None" "workers (pool_part c) = [Idle_lock]"
    using demo_trace_run by blast
  have r: "prog_reach demo_work demo_ops demo_chan False c"
    using c(1) by (rule demo_prog_reach) (simp add: demo_trace_def demo_start_def numeral_eq_Suc)
  from program_refines_pool [OF demo_chan_ok r [unfolded demo_ops_def]] r c show ?thesis by (auto simp: demo_ops_def)
qed

text \<open>
  C7. The event loop receives what it should: every id that waits in the buffer or has been received and not handled yet is the id of a monitored signal or
  it occurs once and belongs to exactly one job that the main thread waits for; that job is done, the result of its worker function is in its structure, and no
  worker touches it any more.
\<close>

theorem received_ids_correct:
  assumes "posix_mode P sa level False ch" and "pending (nstate ch) = []" and "set (signal_notifications ch) \<subseteq> {-1}"
    and "prog_reach work (posix_ops K ocaml5 convert P sa level) ch sp c"
    and "i \<in> set (inbox c @ pending (nstate (chan c)))" and "i \<notin> set (signal_ids c)"
  shows "count_list (inbox c @ pending (nstate (chan c))) i = 1 \<and>
    (\<exists>!p. stage (pool_part c) p = Checked i) \<and>
    (\<forall>p. stage (pool_part c) p = Checked i \<longrightarrow>
       (\<exists>j. jobs (pool_part c) p = Some j \<and> job_state j = LWT_UNIX_JOB_STATE_DONE \<and>
            lwt_unix_job.more j = work (code (pool_part c) p) (arg (pool_part c) p)) \<and>
       (\<forall>e. Exec e p \<notin> set (workers (pool_part c))))"
  using posix.received_id_lemma [OF posix.prog_reach_inv [OF assms(4,1,2,3)] assms(5,6)] .

theorem received_ids_correct_witness:
  "\<exists>c. prog_reach demo_work demo_ops demo_chan False c \<and> stage (pool_part c) 2 = Checked 7 \<and>
     (\<exists>j. jobs (pool_part c) 2 = Some j \<and> job_state j = LWT_UNIX_JOB_STATE_DONE)"
proof -
  obtain c where c: "demo_prog demo_trace = Some c" "inbox c = []" "pending (nstate (chan c)) = [40, 7]" "signal_ids c = [40]" "stage (pool_part c) 2 = Checked 7"
    using demo_trace_run by blast
  have r: "prog_reach demo_work demo_ops demo_chan False c"
    using c(1) by (rule demo_prog_reach) (simp add: demo_trace_def demo_start_def numeral_eq_Suc)
  have "7 \<in> set (inbox c @ pending (nstate (chan c)))" "7 \<notin> set (signal_ids c)" using c by simp_all
  from received_ids_correct [OF demo_chan_ok r [unfolded demo_ops_def] this] r c(5) show ?thesis by blast
qed

text \<open>
  C8. No result is lost (without spurious wakeups): from every reachable state in which the main thread is in its event loop, the workers make a bounded number of
  steps, in any order; and when none of them can go on any more, one turn of the event loop (receive if the descriptor is readable, call the handlers) leaves nothing
  pending and has told the main thread of every job it was waiting for.
\<close>

theorem every_job_told:
  assumes "posix_mode P sa level False ch" and "pending (nstate ch) = []" and "set (signal_notifications ch) \<subseteq> {-1}"
    and "prog_reach work (posix_ops K ocaml5 convert P sa level) ch False c" and "main (pool_part c) = Main_idle" and "receiver c = None"
  shows "\<exists>n. \<forall>is c1. iter_opt (prog_worker work (posix_ops K ocaml5 convert P sa level)) is c = Some c1 \<longrightarrow> length is \<le> n \<and>
     ((\<exists>i. prog_worker work (posix_ops K ocaml5 convert P sa level) i c1 \<noteq> None) \<or>
      (length (pending (nstate (chan c1))) < 2 ^ 31 \<longrightarrow>
         (\<exists>c2. iter_opt (prog_step work (posix_ops K ocaml5 convert P sa level))
               (event_loop_turn (posix_ops K ocaml5 convert P sa level) (\<lambda>st. pending (nstate st)) c1) c1 = Some c2 \<and>
           inbox c2 = [] \<and> pending (nstate (chan c2)) = [] \<and>
           (\<forall>p nid. stage (pool_part c) p = Checked nid \<longrightarrow> stage (pool_part c2) p = Told))))"
  using posix.every_job_told_lemma [OF posix.prog_reach_inv [OF assms(4,1,2,3)] assms(5,6)] .

theorem every_job_told_witness:
  "\<exists>c. prog_reach demo_work demo_ops demo_chan False c \<and> stage (pool_part c) 2 = Checked 7 \<and>
     (\<exists>n. \<forall>is c1. iter_opt (prog_worker demo_work demo_ops) is c = Some c1 \<longrightarrow> length is \<le> n)"
proof -
  obtain c where c: "demo_prog demo_trace = Some c" "main (pool_part c) = Main_idle" "receiver c = None" "stage (pool_part c) 2 = Checked 7"
    using demo_trace_run by blast
  have r: "prog_reach demo_work demo_ops demo_chan False c"
    using c(1) by (rule demo_prog_reach) (simp add: demo_trace_def demo_start_def numeral_eq_Suc)
  from every_job_told [OF demo_chan_ok r [unfolded demo_ops_def] c(2,3)] r c(4) show ?thesis unfolding demo_ops_def by blast
qed



end
